(* ===== verification/Midn_Prelude.thy ===== *)
theory Midn_Prelude
  imports Main "HOL-Library.Word" "HOL-Library.Sublist"
begin

unbundle bit_operations_syntax

text \<open>
  Shared ground of the development: the names of the Rust integer types, big-endian byte
  conversions (\<open>to_be_bytes\<close>, \<open>from_be_bytes\<close>), byte-wise exclusive or, the loop combinator
  for fallible \<open>for\<close> loops, and the crate-wide error type of
  \<open>crates/midn-proto/src/error.rs\<close>. The collection \<open>byte_simps\<close> holds the facts the codec
  theories rewrite with.
\<close>

named_theorems byte_simps \<open>conversion of byte lists and words\<close>

section \<open>Integer types\<close>

type_synonym u8 = "8 word"
type_synonym u16 = "16 word"
type_synonym u32 = "32 word"
type_synonym u64 = "64 word"
type_synonym bytes = "u8 list"

text \<open>An IPv4 socket address: the octets and the port.\<close>

type_synonym SocketAddr = "bytes \<times> u16"

section \<open>Errors\<close>

text \<open>\<open>ProtoError\<close>: a decoding failure is a value, the left summand of a result.\<close>

datatype ProtoError =
    TooShort nat nat
  | InvalidGtpVersion u8
  | UnknownGtpMsgType u8
  | MalformedNas string
  | MalformedS1ap string
  | MalformedNgap string
  | MalformedNas5gs string
  | Io string

type_synonym 'a result = "ProtoError + 'a"

text \<open>\<open>ok_or\<close>: an absent value becomes the given error.\<close>

definition ok_or :: "'a option \<Rightarrow> 'e \<Rightarrow> 'e + 'a" where
  "ok_or x e = (case x of None \<Rightarrow> Inl e | Some a \<Rightarrow> Inr a)"

lemma ok_or_simps [simp]: "ok_or None e = Inl e" "ok_or (Some a) e = Inr a"
  by (simp_all add: ok_or_def)

text \<open>The question-mark operator on results.\<close>

definition bind_res :: "'e + 'a \<Rightarrow> ('a \<Rightarrow> 'e + 'b) \<Rightarrow> 'e + 'b" where
  "bind_res x f = (case x of Inl e \<Rightarrow> Inl e | Inr a \<Rightarrow> f a)"

lemma bind_res_simps [simp]: "bind_res (Inl e) f = Inl e" "bind_res (Inr a) f = f a"
  by (simp_all add: bind_res_def)

section \<open>Loops whose body can fail\<close>

text \<open>
  \<open>for x in xs { s = f(s, x)?; }\<close>: the state is threaded through the body, the first
  failure ends the loop.
\<close>

fun foldM :: "('s \<Rightarrow> 'a \<Rightarrow> 's option) \<Rightarrow> 's \<Rightarrow> 'a list \<Rightarrow> 's option" where
  "foldM f s [] = Some s"
| "foldM f s (x # xs) = Option.bind (f s x) (\<lambda>s'. foldM f s' xs)"

lemma foldM_append: "foldM f s (xs @ ys) = Option.bind (foldM f s xs) (\<lambda>s'. foldM f s' ys)"
  by (induction xs arbitrary: s) (auto split: Option.bind_splits)

text \<open>\<open>for _ in 0..n { out.push(f(s)?); }\<close>: \<open>n\<close> reads in a row, collected in order.\<close>

fun repeatM :: "('s \<Rightarrow> ('a \<times> 's) option) \<Rightarrow> nat \<Rightarrow> 's \<Rightarrow> ('a list \<times> 's) option" where
  "repeatM f 0 s = Some ([], s)"
| "repeatM f (Suc n) s =
     Option.bind (f s) (\<lambda>(x, s'). Option.bind (repeatM f n s') (\<lambda>(xs, s''). Some (x # xs, s'')))"

lemma repeatM_length: "repeatM f n s = Some (xs, s') \<Longrightarrow> length xs = n"
  by (induction n arbitrary: s xs s') (auto split: Option.bind_splits)

section \<open>Big-endian byte conversions\<close>

definition to_be16 :: "u16 \<Rightarrow> bytes" where
  "to_be16 w = [ucast (drop_bit 8 w), ucast w]"

definition to_be32 :: "u32 \<Rightarrow> bytes" where
  "to_be32 w = [ucast (drop_bit 24 w), ucast (drop_bit 16 w), ucast (drop_bit 8 w), ucast w]"

definition to_be64 :: "u64 \<Rightarrow> bytes" where
  "to_be64 w = [ucast (drop_bit 56 w), ucast (drop_bit 48 w), ucast (drop_bit 40 w),
     ucast (drop_bit 32 w), ucast (drop_bit 24 w), ucast (drop_bit 16 w), ucast (drop_bit 8 w),
     ucast w]"

text \<open>\<open>from_be_bytes\<close>: the first byte is the most significant.\<close>

definition from_be :: "bytes \<Rightarrow> 'a::len word" where
  "from_be bs = foldl (\<lambda>acc b. push_bit 8 acc OR ucast b) 0 bs"

text \<open>The three fixed widths are instances of one conversion to \<open>n\<close> bytes.\<close>

definition to_be :: "nat \<Rightarrow> 'a::len word \<Rightarrow> bytes" where
  "to_be n w = map (\<lambda>i. ucast (drop_bit (8 * i) w)) (rev [0..<n])"

lemma length_to_be_n [simp]: "length (to_be n w) = n"
  by (simp add: to_be_def)

lemma to_be16_to_be: "to_be16 w = to_be 2 w"
  by (simp add: to_be16_def to_be_def numeral_2_eq_2)

lemma to_be32_to_be: "to_be32 w = to_be 4 w"
  by (simp add: to_be32_def to_be_def numeral_eq_Suc)

lemma to_be64_to_be: "to_be64 w = to_be 8 w"
  by (simp add: to_be64_def to_be_def numeral_eq_Suc)

lemmas to_be_widths = to_be16_to_be to_be32_to_be to_be64_to_be

lemma length_to_be [simp, byte_simps]:
  "length (to_be16 a) = 2" "length (to_be32 b) = 4" "length (to_be64 c) = 8"
  by (simp_all add: to_be_widths)

lemma from_be_snoc: "from_be (bs @ [b]) = push_bit 8 (from_be bs) OR ucast b"
  by (simp add: from_be_def)

lemma bit_from_be:
  "bit (from_be bs :: 'a::len word) k \<longleftrightarrow>
     k < LENGTH('a) \<and> k < 8 * length bs \<and> bit (rev bs ! (k div 8)) (k mod 8)"
proof (induction bs arbitrary: k rule: rev_induct)
  case Nil
  then show ?case by (simp add: from_be_def)
next
  case (snoc b bs)
  show ?case
  proof (cases "k < 8")
    case True
    then show ?thesis by (auto simp: from_be_snoc bit_simps)
  next
    case False
    then have "k div 8 = Suc ((k - 8) div 8)" "k mod 8 = (k - 8) mod 8"
      by (simp_all add: le_div_geq le_mod_geq)
    with False show ?thesis
      by (auto simp: from_be_snoc bit_simps snoc.IH dest: bit_imp_le_length)
  qed
qed

lemma from_be_to_be: "from_be (to_be n w) = (take_bit (8 * n) w :: 'a::len word)"
proof (rule bit_word_eqI)
  fix k assume k: "k < LENGTH('a)"
  show "bit (from_be (to_be n w) :: 'a word) k = bit (take_bit (8 * n) w) k"
  proof (cases "k < 8 * n")
    case True
    then have "k div 8 < n" by auto
    then have "rev (to_be n w) ! (k div 8) = ucast (drop_bit (8 * (k div 8)) w)"
      by (simp add: to_be_def rev_map)
    with True k show ?thesis
      by (simp add: bit_from_be bit_simps mult_div_mod_eq)
  next
    case False
    then show ?thesis by (simp add: bit_from_be bit_simps)
  qed
qed

lemma to_be_from_be:
  assumes "length bs = n" "8 * n \<le> LENGTH('a::len)"
  shows "to_be n (from_be bs :: 'a word) = bs"
proof (rule nth_equalityI)
  show "length (to_be n (from_be bs :: 'a word)) = length bs" using assms by simp
next
  fix i assume "i < length (to_be n (from_be bs :: 'a word))"
  then have i: "i < n" by simp
  show "to_be n (from_be bs :: 'a word) ! i = bs ! i"
  proof (rule bit_word_eqI)
    fix k assume k: "k < LENGTH(8)"
    have b: "8 * (n - Suc i) + k < 8 * n" using i k by simp
    have "(8 * (n - Suc i) + k) div 8 = n - Suc i" using k by simp
    moreover have "rev bs ! (n - Suc i) = bs ! i" using i assms(1) by (simp add: rev_nth)
    ultimately show "bit (to_be n (from_be bs :: 'a word) ! i) k = bit (bs ! i) k"
      using i k b assms by (simp add: to_be_def rev_nth bit_simps bit_from_be)
  qed
qed

lemma from_be_to_be16 [simp, byte_simps]: "from_be (to_be16 w) = w"
  by (simp add: to_be_widths from_be_to_be take_bit_word_eq_self)

lemma from_be_to_be32 [simp, byte_simps]: "from_be (to_be32 w) = w"
  by (simp add: to_be_widths from_be_to_be take_bit_word_eq_self)

lemma from_be_to_be64 [simp, byte_simps]: "from_be (to_be64 w) = w"
  by (simp add: to_be_widths from_be_to_be take_bit_word_eq_self)

lemma to_be16_from_be: "length bs = 2 \<Longrightarrow> to_be16 (from_be bs) = bs"
  by (simp add: to_be_widths to_be_from_be)

lemma to_be32_from_be: "length bs = 4 \<Longrightarrow> to_be32 (from_be bs) = bs"
  by (simp add: to_be_widths to_be_from_be)

lemma to_be64_from_be: "length bs = 8 \<Longrightarrow> to_be64 (from_be bs) = bs"
  by (simp add: to_be_widths to_be_from_be)

lemma to_be32_inject [simp]: "to_be32 a = to_be32 b \<longleftrightarrow> a = b"
  by (metis from_be_to_be32)

lemma from_be_nth_to_be [simp]:
  "from_be [to_be16 a ! 0, to_be16 a ! Suc 0] = a"
  "from_be [to_be32 b ! 0, to_be32 b ! Suc 0, to_be32 b ! 2, to_be32 b ! 3] = b"
  using from_be_to_be16 [of a] from_be_to_be32 [of b]
  by (simp_all add: to_be16_def to_be32_def)

lemma length4D: "length xs = 4 \<Longrightarrow> \<exists>a b c d. xs = [a, b, c, d]"
  by (auto simp: length_Suc_conv numeral_eq_Suc)

section \<open>Exclusive or of byte strings\<close>

definition xor_bytes :: "bytes \<Rightarrow> bytes \<Rightarrow> bytes" where
  "xor_bytes xs ys = map2 (XOR) xs ys"

lemma length_xor_bytes [simp]: "length (xor_bytes xs ys) = min (length xs) (length ys)"
  by (simp add: xor_bytes_def)

lemma xor_bytes_cancel: "length xs \<le> length ys \<Longrightarrow> xor_bytes (xor_bytes xs ys) ys = xs"
  by (rule nth_equalityI) (simp_all add: xor_bytes_def xor.assoc)

section \<open>Byte-string lemmas\<close>

lemma take_drop_nth_split: "n < length xs \<Longrightarrow> take n xs @ xs ! n # drop (Suc n) xs = xs"
  by (simp add: id_take_nth_drop [symmetric])

lemma unat_of_nat_u8 [byte_simps]: "n < 256 \<Longrightarrow> unat (of_nat n :: u8) = n"
  by (simp add: unat_of_nat take_bit_eq_mod)

lemma unat_of_nat_u16 [byte_simps]: "n < 65536 \<Longrightarrow> unat (of_nat n :: u16) = n"
  by (simp add: unat_of_nat take_bit_eq_mod)

lemma unat_u8_less [simp]: "unat (b :: u8) < 256"
proof -
  have "(unsigned b :: nat) < 2 ^ LENGTH(8)" by (rule unsigned_less)
  then show ?thesis by simp
qed

lemma take_bit_unat_less: "unat (x :: 'a::len word) < 2 ^ n \<Longrightarrow> take_bit n x = x"
  by (metis take_bit_nat_eq_self unsigned_take_bit_eq unsigned_word_eqI)

lemma and_1_eq_1_bit: "(x :: 'a::len word) AND 1 = 1 \<longleftrightarrow> bit x 0"
  by (simp add: and_one_eq bit_0 odd_iff_mod_2_eq_one)

lemma drop_bit_and_1 [simp]: "drop_bit i (x :: 'a::len word) AND 1 = 1 \<longleftrightarrow> bit x i"
  by (simp add: and_1_eq_1_bit bit_simps)

lemma unat_eq_iff: "unat (a :: 'a::len word) = unat b \<longleftrightarrow> a = b"
  by (auto intro: unsigned_word_eqI)

lemma length_filter_id_update:
  "i < length xs \<Longrightarrow>
   length (filter id (xs[i := b])) + of_bool (xs ! i) = length (filter id xs) + of_bool b"
proof (induction xs arbitrary: i)
  case (Cons x xs)
  then show ?case by (cases i) auto
qed simp

end
