(* ===== verification/Id_Alloc.thy ===== *)
theory Id_Alloc
  imports Midn_Prelude
begin

text \<open>
  The contract of an allocator of identifiers: what the rest of the system relies on when it
  asks the entity storage for an entity or the TEID allocator for a tunnel identifier. An
  allocation returns an identifier that is not in use, a release takes one out of use, and
  both keep the allocator's invariant. \<open>room\<close> says that the counter has not run out.
\<close>

locale id_allocator =
  fixes inv :: "'s \<Rightarrow> bool"
    and used :: "'s \<Rightarrow> 'i set"
    and room :: "'s \<Rightarrow> bool"
    and alloc :: "'s \<Rightarrow> ('i \<times> 's) option"
    and release :: "'s \<Rightarrow> 'i \<Rightarrow> 's"
  assumes alloc_ok: "inv s \<Longrightarrow> room s \<Longrightarrow>
      \<exists>i s'. alloc s = Some (i, s') \<and> inv s' \<and> i \<notin> used s \<and> used s' = insert i (used s)"
    and release_ok: "inv s \<Longrightarrow> i \<in> used s \<Longrightarrow> inv (release s i) \<and> used (release s i) = used s - {i}"
begin

lemma alloc_fresh:
  assumes "inv s" "room s" "alloc s = Some (i, s')"
  shows "i \<notin> used s" "used s' = insert i (used s)" "inv s'"
  using alloc_ok [OF assms(1,2)] assms(3) by auto

lemma two_allocs_differ:
  assumes "inv s" "room s" "alloc s = Some (i, s')" "room s'" "alloc s' = Some (j, s'')"
  shows "i \<noteq> j"
proof -
  note a = alloc_fresh [OF assms(1,2,3)]
  have "j \<notin> used s'" by (rule alloc_fresh [OF a(3) assms(4,5)])
  with a(2) show ?thesis by blast
qed

lemma alloc_release:
  assumes "inv s" "room s" "alloc s = Some (i, s')"
  shows "inv (release s' i)" "used (release s' i) = used s"
proof -
  note a = alloc_fresh [OF assms]
  have "i \<in> used s'" using a(2) by simp
  then show "inv (release s' i)" "used (release s' i) = used s"
    using release_ok [OF a(3)] a(1,2) by auto
qed

end

end
