(* ===== verification/Midn_Crypto.thy ===== *)
theory Midn_Crypto
  imports Midn_Prelude
begin

text \<open>
  The cryptographic primitives come from third-party crates (\<open>aes\<close>, \<open>ctr\<close>, \<open>cmac\<close>, \<open>hmac\<close>,
  \<open>sha2\<close>). They are parameters of the model, gathered in one record that every definition
  using them takes as its first argument. What the code relies on are the predicates below:
  output sizes, and that AES-CTR combines the data with a keystream that depends only on
  the key, the counter block and the position. \<open>sample_crypto\<close> is a concrete instance on
  which those predicates hold; it is used by witnesses only.
\<close>

record crypto =
  aes128_ctr :: "bytes \<Rightarrow> bytes \<Rightarrow> bytes \<Rightarrow> bytes"
  aes128_cmac :: "bytes \<Rightarrow> bytes \<Rightarrow> bytes"
  hmac_sha256 :: "bytes \<Rightarrow> bytes \<Rightarrow> bytes"
  aes128_encrypt :: "bytes \<Rightarrow> bytes \<Rightarrow> bytes"

text \<open>\<open>StreamCipher::apply_keystream\<close>: exclusive or with a keystream.\<close>

definition ctr_stream :: "crypto \<Rightarrow> bool" where
  "ctr_stream cr \<longleftrightarrow>
     (\<exists>ks. \<forall>key iv dat. length (ks key iv (length dat)) = length dat \<and>
        aes128_ctr cr key iv dat = xor_bytes dat (ks key iv (length dat)))"

definition cmac_len :: "crypto \<Rightarrow> bool" where
  "cmac_len cr \<longleftrightarrow> (\<forall>key msg. length (aes128_cmac cr key msg) = 16)"

definition hmac_len :: "crypto \<Rightarrow> bool" where
  "hmac_len cr \<longleftrightarrow> (\<forall>key msg. length (hmac_sha256 cr key msg) = 32)"

definition aes_len :: "crypto \<Rightarrow> bool" where
  "aes_len cr \<longleftrightarrow> (\<forall>key blk. length (aes128_encrypt cr key blk) = 16)"

lemma ctr_stream_involution:
  "ctr_stream cr \<Longrightarrow> aes128_ctr cr key iv (aes128_ctr cr key iv dat) = dat"
  by (auto simp: ctr_stream_def xor_bytes_cancel)

lemma ctr_stream_length: "ctr_stream cr \<Longrightarrow> length (aes128_ctr cr key iv dat) = length dat"
  by (auto simp: ctr_stream_def)

definition sample_crypto :: crypto where
  "sample_crypto = \<lparr>
     aes128_ctr = (\<lambda>key iv dat. xor_bytes dat (replicate (length dat) (sum_list key + sum_list iv))),
     aes128_cmac = (\<lambda>key msg. replicate 16 (sum_list key + sum_list msg)),
     hmac_sha256 = (\<lambda>key msg. replicate 32 (sum_list key + sum_list msg)),
     aes128_encrypt = (\<lambda>key blk. replicate 16 (sum_list key + sum_list blk))\<rparr>"

lemma sample_crypto_ok [simp]:
  "ctr_stream sample_crypto" "cmac_len sample_crypto" "hmac_len sample_crypto" "aes_len sample_crypto"
proof -
  show "ctr_stream sample_crypto"
    unfolding ctr_stream_def
    by (rule exI [of _ "\<lambda>key iv n. replicate n (sum_list key + sum_list iv)"])
       (simp add: sample_crypto_def)
qed (simp_all add: cmac_len_def hmac_len_def aes_len_def sample_crypto_def)

end
