(* ===== verification/Nas_Ie.thy ===== *)
theory Nas_Ie
  imports Midn_Prelude
begin

text \<open>
  NAS information elements, \<open>crates/midn-proto/src/nas/ie.rs\<close>: the BCD form of an IMSI, the
  length-value and type-length-value primitives every NAS message is built from, and the
  algorithm selector byte. Writers append to a buffer; the length byte is \<open>value.len() as u8\<close>
  and therefore the length modulo 256. Readers return the value and the rest of the buffer.
\<close>

section \<open>IMSI in BCD\<close>

definition IDENTITY_IMSI :: u8 where "IDENTITY_IMSI = 0x01"

fun imsi_digits_loop :: "nat \<Rightarrow> u64 \<Rightarrow> bytes \<Rightarrow> bytes" where
  "imsi_digits_loop 0 n digits = digits"
| "imsi_digits_loop (Suc i) n digits = imsi_digits_loop i (n div 10) (digits[i := ucast (n mod 10)])"

function imsi_pack_loop :: "bytes \<Rightarrow> nat \<Rightarrow> bytes \<Rightarrow> bytes" where
  "imsi_pack_loop digits i out =
     (if i < 15 then
        let lo = digits ! i; hi = (if i + 1 < 15 then digits ! (i + 1) else 0xF) in
        imsi_pack_loop digits (i + 2) (out @ [push_bit 4 hi OR lo])
      else out)"
  by pat_completeness auto
termination
  by (relation "measure (\<lambda>(digits, i, out). 15 - i)") auto

definition encode_imsi :: "u64 \<Rightarrow> bytes" where
  "encode_imsi imsi =
     (let digits = imsi_digits_loop 15 imsi (replicate 15 0) in
      imsi_pack_loop digits 1 [push_bit 4 (digits ! 0) OR push_bit 3 1 OR IDENTITY_IMSI])"

definition push_nibbles :: "bytes \<Rightarrow> u8 \<Rightarrow> bytes" where
  "push_nibbles digits byte =
     (let lo = byte AND 0x0F; hi = drop_bit 4 byte AND 0x0F in
      if hi \<noteq> 0x0F then digits @ [lo, hi] else digits @ [lo])"

definition push_bcd :: "u64 \<Rightarrow> u8 \<Rightarrow> u64 option" where
  "push_bcd imsi d = (if d > 9 then None else Some (imsi * 10 + ucast d))"

definition decode_imsi :: "bytes \<Rightarrow> u64 option" where
  "decode_imsi bs =
     (if bs = [] then None
      else if bs ! 0 AND 0x07 \<noteq> IDENTITY_IMSI then None
      else
        let odd_flag = drop_bit 3 (bs ! 0) AND 0x01;
            digits = foldl push_nibbles [drop_bit 4 (bs ! 0) AND 0x0F] (drop 1 bs);
            digits = (if odd_flag = 0 \<and> digits \<noteq> [] \<and> last digits = 0xF then butlast digits else digits)
        in if length digits > 15 then None else foldM push_bcd 0 digits)"

section \<open>LV and TLV\<close>

definition write_lv :: "bytes \<Rightarrow> bytes \<Rightarrow> bytes" where
  "write_lv buf val = buf @ [of_nat (length val)] @ val"

definition read_lv :: "bytes \<Rightarrow> (bytes \<times> bytes) option" where
  "read_lv buf =
     (if buf = [] then None
      else
        let len = unat (buf ! 0) in
        if length buf < 1 + len then None
        else Some (take len (drop 1 buf), drop (1 + len) buf))"

definition write_tlv :: "bytes \<Rightarrow> u8 \<Rightarrow> bytes \<Rightarrow> bytes" where
  "write_tlv buf iei val = write_lv (buf @ [iei]) val"

definition read_tlv :: "bytes \<Rightarrow> (u8 \<times> bytes \<times> bytes) option" where
  "read_tlv buf =
     (if length buf < 2 then None
      else Option.bind (read_lv (drop 1 buf)) (\<lambda>(val, rest). Some (buf ! 0, val, rest)))"

function find_tlv :: "bytes \<Rightarrow> u8 \<Rightarrow> bytes option" where
  "find_tlv buf target_iei =
     (if length buf \<ge> 2 then
        if buf ! 0 = target_iei then Some buf
        else
          let len = unat (buf ! 1) in
          if length buf < 2 + len then None else find_tlv (drop (2 + len) buf) target_iei
      else None)"
  by pat_completeness auto
termination
  by (relation "measure (\<lambda>(buf, iei). length buf)") auto

declare find_tlv.simps [simp del] imsi_pack_loop.simps [simp del]

section \<open>Algorithm selectors\<close>

datatype NasEeaAlgorithm = Eea0 | Eea1 | Eea2 | Eea3
datatype NasEiaAlgorithm = Eia0 | Eia1 | Eia2 | Eia3

fun eea_u8 :: "NasEeaAlgorithm \<Rightarrow> u8" where
  "eea_u8 Eea0 = 0" | "eea_u8 Eea1 = 1" | "eea_u8 Eea2 = 2" | "eea_u8 Eea3 = 3"

fun eia_u8 :: "NasEiaAlgorithm \<Rightarrow> u8" where
  "eia_u8 Eia0 = 0" | "eia_u8 Eia1 = 1" | "eia_u8 Eia2 = 2" | "eia_u8 Eia3 = 3"

definition encode_security_algorithms :: "NasEeaAlgorithm \<Rightarrow> NasEiaAlgorithm \<Rightarrow> u8" where
  "encode_security_algorithms eea eia = push_bit 4 (eea_u8 eea) OR eia_u8 eia"

definition decode_security_algorithms :: "u8 \<Rightarrow> NasEeaAlgorithm \<times> NasEiaAlgorithm" where
  "decode_security_algorithms byte =
     (let e = drop_bit 4 byte AND 0x0F; i = byte AND 0x0F in
      (if e = 1 then Eea1 else if e = 2 then Eea2 else if e = 3 then Eea3 else Eea0,
       if i = 1 then Eia1 else if i = 2 then Eia2 else if i = 3 then Eia3 else Eia0))"

section \<open>LV and TLV round trips\<close>

lemma read_lv_write [simp]:
  "length val < 256 \<Longrightarrow> read_lv (of_nat (length val) # val @ rest) = Some (val, rest)"
  by (simp add: read_lv_def unat_of_nat_u8)

lemma read_lv_numeral [simp]:
  "length val = unat n \<Longrightarrow> read_lv (n # val @ rest) = Some (val, rest)"
  by (simp add: read_lv_def)

lemma read_lv_numeral_end [simp]: "length val = unat n \<Longrightarrow> read_lv (n # val) = Some (val, [])"
  using read_lv_numeral [of val n "[]"] by simp

lemma read_lv_Nil [simp]: "read_lv [] = None"
  by (simp add: read_lv_def)

lemma read_tlv_write [simp]:
  "length val < 256 \<Longrightarrow> read_tlv (iei # of_nat (length val) # val @ rest) = Some (iei, val, rest)"
  by (simp add: read_tlv_def)

lemma read_tlv_numeral [simp]:
  "length val = unat n \<Longrightarrow> read_tlv (iei # n # val @ rest) = Some (iei, val, rest)"
  by (simp add: read_tlv_def)

lemma read_lv_SomeD: "read_lv buf = Some (val, rest) \<Longrightarrow> buf = of_nat (length val) # val @ rest"
  by (cases buf) (auto simp: read_lv_def Let_def split: if_splits)

lemma read_lv_length: "read_lv buf = Some (val, rest) \<Longrightarrow> length rest < length buf"
  by (drule read_lv_SomeD) simp

lemma read_tlv_length: "read_tlv buf = Some (i, val, rest) \<Longrightarrow> length rest < length buf"
  by (auto simp: read_tlv_def bind_eq_Some_conv split: if_splits dest!: read_lv_length)

lemma find_tlv_length: "find_tlv buf iei = Some s \<Longrightarrow> length s \<le> length buf"
proof (induction buf iei rule: find_tlv.induct)
  case (1 buf iei)
  then show ?case
    by (subst (asm) (2) find_tlv.simps) (fastforce simp: Let_def split: if_splits)
qed

text \<open>\<open>find_tlv\<close> walks over any sequence of other elements to the first one with the IEI.\<close>

lemma find_tlv_hit [simp]: "find_tlv (iei # l # rest) iei = Some (iei # l # rest)"
  by (simp add: find_tlv.simps)

lemma find_tlv_skip:
  assumes "list_all (\<lambda>(i, v). i \<noteq> iei \<and> length v < 256) ies"
  shows "find_tlv (concat (map (\<lambda>(i, v). write_tlv [] i v) ies) @ rest) iei = find_tlv rest iei"
  using assms
proof (induction ies)
  case (Cons p ies)
  obtain i v where p: "p = (i, v)" by (cases p)
  let ?t = "concat (map (\<lambda>(i, v). write_tlv [] i v) ies) @ rest"
  have "concat (map (\<lambda>(i, v). write_tlv [] i v) (p # ies)) @ rest = i # of_nat (length v) # v @ ?t"
    by (simp add: p write_tlv_def write_lv_def)
  moreover have "find_tlv (i # of_nat (length v) # v @ ?t) iei = find_tlv ?t iei"
    using Cons.prems p by (subst find_tlv.simps) (simp add: unat_of_nat_u8)
  ultimately show ?case using Cons by simp
qed simp

section \<open>Nibbles\<close>

lemma u8_low_nibble: "(x :: u8) AND 0x0F = take_bit 4 x"
  by (simp add: take_bit_eq_mask mask_eq_exp_minus_1)

lemma u8_low_three: "(x :: u8) AND 0x07 = take_bit 3 x"
  by (simp add: take_bit_eq_mask mask_eq_exp_minus_1)

lemma nibbles_join:
  assumes "take_bit 4 hi = (hi :: u8)" "take_bit 4 lo = (lo :: u8)"
  shows "(push_bit 4 hi OR lo) AND 0x0F = lo" "drop_bit 4 (push_bit 4 hi OR lo) AND 0x0F = hi"
proof -
  have hb: "bit hi k \<Longrightarrow> k < 4" and lb: "bit lo k \<Longrightarrow> k < 4" for k
    using assms by (metis bit_take_bit_iff)+
  show "(push_bit 4 hi OR lo) AND 0x0F = lo" "drop_bit 4 (push_bit 4 hi OR lo) AND 0x0F = hi"
    unfolding u8_low_nibble by (rule bit_word_eqI; auto simp: bit_simps dest: hb lb)+
qed

lemma digit_take_bit: "d \<le> 9 \<Longrightarrow> take_bit 4 d = (d :: u8)"
  by (rule take_bit_unat_less) (simp add: word_le_nat_alt)

lemma push_nibbles_join:
  "lo \<le> 9 \<Longrightarrow> hi \<le> 9 \<Longrightarrow> push_nibbles ds (push_bit 4 hi OR lo) = ds @ [lo, hi]"
proof -
  assume d: "lo \<le> 9" "hi \<le> 9"
  have "hi \<noteq> 0x0F" using d(2) by (auto simp: word_le_nat_alt)
  then show ?thesis
    unfolding push_nibbles_def Let_def
      nibbles_join [OF digit_take_bit [OF d(2)] digit_take_bit [OF d(1)]] by simp
qed

section \<open>IMSI round trip\<close>

fun dec_digits :: "nat \<Rightarrow> nat \<Rightarrow> nat list" where
  "dec_digits 0 n = []"
| "dec_digits (Suc k) n = dec_digits k (n div 10) @ [n mod 10]"

lemma length_dec_digits [simp]: "length (dec_digits k n) = k"
  by (induction k n rule: dec_digits.induct) simp_all

lemma dec_digits_le: "list_all (\<lambda>d. d \<le> 9) (dec_digits k n)"
  by (induction k n rule: dec_digits.induct) auto

lemma dec_digits_value: "foldl (\<lambda>a d. a * 10 + d) 0 (dec_digits k n) = n mod 10 ^ k"
  by (induction k n rule: dec_digits.induct) (simp_all add: mod_mult2_eq)

lemma unat_numeral_10: "unat (10 :: u64) = 10"
  by simp

lemma imsi_digits_loop_eq:
  "k \<le> length ds \<Longrightarrow> imsi_digits_loop k n ds = map of_nat (dec_digits k (unat n)) @ drop k ds"
proof (induction k arbitrary: n ds)
  case (Suc k)
  have "(ucast (n mod 10) :: u8) = of_nat (unat (n mod 10))" by (rule of_nat_unat [symmetric])
  then have "(ucast (n mod 10) :: u8) = of_nat (unat n mod 10)" by (simp only: unat_mod unat_numeral_10)
  moreover have "unat (n div 10) = unat n div 10" by (simp add: unat_div)
  moreover have "drop k (ds[k := x]) = x # drop (Suc k) ds" for x :: u8
    using Suc.prems by (simp add: drop_update_swap flip: Cons_nth_drop_Suc)
  ultimately show ?case using Suc by simp
qed simp

lemma word_of_digit_le: "d \<le> 9 \<Longrightarrow> (of_nat d :: u8) \<le> 9"
  by (simp add: word_le_nat_alt unat_of_nat_u8)

lemma ucast_of_digit: "d \<le> 9 \<Longrightarrow> ucast (of_nat d :: u8) = (of_nat d :: u64)"
  using of_nat_unat [of "of_nat d :: u8", where 'a = "64 word"] by (simp add: unat_of_nat_u8)

lemma push_bcd_digits:
  "list_all (\<lambda>d. d \<le> 9) ds \<Longrightarrow>
   foldM push_bcd (of_nat a) (map of_nat ds) = Some (of_nat (foldl (\<lambda>a d. a * 10 + d) a ds))"
proof (induction ds arbitrary: a)
  case (Cons d ds)
  have "push_bcd (of_nat a) (of_nat d) = Some (of_nat (a * 10 + d))"
    using Cons.prems word_of_digit_le [of d] by (simp add: push_bcd_def ucast_of_digit not_le [symmetric])
  with Cons.IH [of "a * 10 + d"] Cons.prems show ?case by (simp del: of_nat_add of_nat_mult)
qed simp

lemma encode_imsi_15:
  assumes "imsi_digits_loop 15 n (replicate 15 0) = [d0, d1, d2, d3, d4, d5, d6, d7, d8, d9, d10, d11, d12, d13, d14]"
  shows "encode_imsi n = [push_bit 4 d0 OR 0x09, push_bit 4 d2 OR d1, push_bit 4 d4 OR d3,
    push_bit 4 d6 OR d5, push_bit 4 d8 OR d7, push_bit 4 d10 OR d9, push_bit 4 d12 OR d11,
    push_bit 4 d14 OR d13]"
proof -
  have c: "push_bit 3 1 OR IDENTITY_IMSI = (0x09 :: u8)" by (simp add: IDENTITY_IMSI_def)
  show ?thesis
    unfolding encode_imsi_def Let_def assms or.assoc c
    by (simp add: imsi_pack_loop.simps)
qed

lemma length_15D:
  assumes "length xs = 15"
  obtains a b c d e f g h i j k l m n p where "xs = [a, b, c, d, e, f, g, h, i, j, k, l, m, n, p]"
  using assms by (auto simp: length_Suc_conv numeral_eq_Suc)

lemma decode_imsi_15:
  assumes "list_all (\<lambda>d. d \<le> 9) [d0, d1, d2, d3, d4, d5, d6, d7, d8, d9, d10, d11, d12, d13, d14]"
  shows "decode_imsi [push_bit 4 d0 OR 0x09, push_bit 4 d2 OR d1, push_bit 4 d4 OR d3,
    push_bit 4 d6 OR d5, push_bit 4 d8 OR d7, push_bit 4 d10 OR d9, push_bit 4 d12 OR d11,
    push_bit 4 d14 OR d13] = foldM push_bcd 0 [d0, d1, d2, d3, d4, d5, d6, d7, d8, d9, d10, d11, d12, d13, d14]"
proof -
  have d0: "d0 \<le> 9" using assms by simp
  have ty: "(push_bit 4 d0 OR 0x09) AND 0x07 = IDENTITY_IMSI"
    by (simp add: u8_low_three IDENTITY_IMSI_def take_bit_push_bit)
  have odd: "drop_bit 3 (push_bit 4 d0 OR 0x09) AND 0x01 \<noteq> 0"
  proof -
    have "bit (9 :: u8) 3" by simp
    then have "bit (push_bit 4 d0 OR 0x09) 3" by (simp only: bit_or_iff simp_thms)
    then show ?thesis by (metis drop_bit_and_1 zero_neq_one)
  qed
  have hi: "drop_bit 4 (push_bit 4 d0 OR 0x09) AND 0x0F = d0"
    using nibbles_join(2) [of d0 "0x09"] digit_take_bit [of 9] digit_take_bit [OF d0] by simp
  show ?thesis
    unfolding decode_imsi_def using assms ty odd hi
    by (simp add: Let_def push_nibbles_join del: drop_bit_or)
qed

theorem imsi_roundtrip_mod: "decode_imsi (encode_imsi n) = Some (of_nat (unat n mod 10 ^ 15))"
proof -
  let ?ds = "dec_digits 15 (unat n)"
  have dig: "imsi_digits_loop 15 n (replicate 15 0) = map of_nat ?ds"
    by (simp add: imsi_digits_loop_eq)
  obtain a b c d e f g h i j k l m q p where ds: "?ds = [a, b, c, d, e, f, g, h, i, j, k, l, m, q, p]"
    by (rule length_15D [OF length_dec_digits])
  have le: "list_all (\<lambda>d. d \<le> 9) ?ds" by (rule dec_digits_le)
  have le8: "list_all (\<lambda>d. d \<le> 9) (map of_nat ?ds :: bytes)"
    using le by (auto simp: list_all_iff word_of_digit_le)
  have "decode_imsi (encode_imsi n) = foldM push_bcd 0 (map of_nat ?ds)"
    using encode_imsi_15 [OF dig [unfolded ds list.map]] decode_imsi_15 [OF le8 [unfolded ds list.map]]
    by (simp only: ds list.map)
  also have "\<dots> = Some (of_nat (unat n mod 10 ^ 15))"
    using push_bcd_digits [OF le, of 0] unfolding dec_digits_value semiring_1_class.of_nat_0 .
  finally show ?thesis .
qed

lemma imsi_roundtrip: "n < 10 ^ 15 \<Longrightarrow> decode_imsi (encode_imsi n) = Some n"
  by (simp only: imsi_roundtrip_mod) (simp add: word_less_nat_alt)

lemma length_encode_imsi [simp]: "length (encode_imsi n) = 8"
  by (simp add: encode_imsi_def Let_def imsi_pack_loop.simps)

lemma security_algorithms_roundtrip [simp]:
  "decode_security_algorithms (encode_security_algorithms e i) = (e, i)"
  by (cases e; cases i) (simp_all add: encode_security_algorithms_def decode_security_algorithms_def)

end
