(* ===== verification/Nas_Security.thy ===== *)
theory Nas_Security
  imports Midn_Crypto Nas_Ie
begin

text \<open>
  LTE NAS security, \<open>crates/midn-proto/src/nas/security.rs\<close>: the EEA2 counter block, the EIA2
  message authentication code, the NAS key derivation, the reconstruction of COUNT from the
  sequence byte and the per-subscriber security context. The locale \<open>nas_channel\<close> states
  what the rest of the system relies on, one protected direction between two contexts with
  the same keys, and derives that a sequence of messages arrives in order even when some
  are lost.
\<close>

section \<open>EEA2 and EIA2\<close>

definition NAS_BEARER :: u8 where "NAS_BEARER = 0"

datatype Direction = Uplink | Downlink

fun direction_u8 :: "Direction \<Rightarrow> u8" where
  "direction_u8 Uplink = 0"
| "direction_u8 Downlink = 1"

definition bearer_direction :: "u8 \<Rightarrow> Direction \<Rightarrow> u8" where
  "bearer_direction bearer dir =
     push_bit 3 (bearer AND 0x1F) OR push_bit 2 (direction_u8 dir AND 0x01)"

definition eea2_counter_block :: "u32 \<Rightarrow> u8 \<Rightarrow> Direction \<Rightarrow> bytes" where
  "eea2_counter_block count bearer dir =
     to_be32 count @ [bearer_direction bearer dir] @ replicate 11 0"

definition eea2_apply :: "crypto \<Rightarrow> bytes \<Rightarrow> u32 \<Rightarrow> u8 \<Rightarrow> Direction \<Rightarrow> bytes \<Rightarrow> bytes" where
  "eea2_apply cr key count bearer dir dat = aes128_ctr cr key (eea2_counter_block count bearer dir) dat"

definition eia2_compute_mac :: "crypto \<Rightarrow> bytes \<Rightarrow> u32 \<Rightarrow> u8 \<Rightarrow> Direction \<Rightarrow> bytes \<Rightarrow> bytes" where
  "eia2_compute_mac cr key count bearer dir message =
     take 4 (aes128_cmac cr key (to_be32 count @ [bearer_direction bearer dir] @ message))"

definition eia2_verify_mac :: "crypto \<Rightarrow> bytes \<Rightarrow> u32 \<Rightarrow> u8 \<Rightarrow> Direction \<Rightarrow> bytes \<Rightarrow> bytes \<Rightarrow> bool" where
  "eia2_verify_mac cr key count bearer dir message received_mac =
     (eia2_compute_mac cr key count bearer dir message = received_mac)"

section \<open>Key derivation\<close>

definition FC_NAS_ALGO_KEY_DERIVATION :: u8 where "FC_NAS_ALGO_KEY_DERIVATION = 0x15"
definition ALGO_DISTINGUISHER_NAS_ENC :: u8 where "ALGO_DISTINGUISHER_NAS_ENC = 0x01"
definition ALGO_DISTINGUISHER_NAS_INT :: u8 where "ALGO_DISTINGUISHER_NAS_INT = 0x02"

definition kdf_nas_key :: "crypto \<Rightarrow> bytes \<Rightarrow> u8 \<Rightarrow> u8 \<Rightarrow> bytes" where
  "kdf_nas_key cr kasme distinguisher identity =
     (let s = [FC_NAS_ALGO_KEY_DERIVATION, distinguisher] @ to_be16 1 @ [identity] @ to_be16 1
      in drop 16 (hmac_sha256 cr kasme s))"

definition derive_nas_keys ::
    "crypto \<Rightarrow> bytes \<Rightarrow> NasEeaAlgorithm \<Rightarrow> NasEiaAlgorithm \<Rightarrow> bytes \<times> bytes" where
  "derive_nas_keys cr kasme eea eia =
     (kdf_nas_key cr kasme ALGO_DISTINGUISHER_NAS_ENC (eea_u8 eea),
      kdf_nas_key cr kasme ALGO_DISTINGUISHER_NAS_INT (eia_u8 eia))"

section \<open>COUNT\<close>

definition reconstruct_count :: "u32 \<Rightarrow> u8 \<Rightarrow> u32" where
  "reconstruct_count last_count received_seq_byte =
     (let high = last_count AND 0xFFFFFF00;
          candidate = high OR ucast received_seq_byte
      in if candidate \<ge> last_count then candidate
         else (high + 0x100) OR ucast received_seq_byte)"

section \<open>The security context\<close>

record ProtectedNas =
  pn_count :: u32
  pn_mac_i :: bytes
  pn_payload :: bytes

record NasSecurityContext =
  k_nas_enc :: bytes
  k_nas_int :: bytes
  nas_eea :: NasEeaAlgorithm
  nas_eia :: NasEiaAlgorithm
  dl_count :: u32
  ul_count :: u32

definition NasSecurityContext_new ::
    "crypto \<Rightarrow> bytes \<Rightarrow> NasEeaAlgorithm \<Rightarrow> NasEiaAlgorithm \<Rightarrow> NasSecurityContext" where
  "NasSecurityContext_new cr kasme eea eia =
     (let (enc, int) = derive_nas_keys cr kasme eea eia in
      \<lparr>k_nas_enc = enc, k_nas_int = int, nas_eea = eea, nas_eia = eia, dl_count = 0, ul_count = 0\<rparr>)"

definition nas_protect ::
    "crypto \<Rightarrow> NasSecurityContext \<Rightarrow> u32 \<Rightarrow> u8 \<Rightarrow> Direction \<Rightarrow> bytes \<Rightarrow> ProtectedNas" where
  "nas_protect cr ctx count bearer dir plain =
     (let pl = (if nas_eea ctx \<noteq> Eea0 then eea2_apply cr (k_nas_enc ctx) count bearer dir plain
                else plain);
          mac_i = (if nas_eia ctx \<noteq> Eia0 then eia2_compute_mac cr (k_nas_int ctx) count bearer dir pl
                   else replicate 4 0)
      in \<lparr>pn_count = count, pn_mac_i = mac_i, pn_payload = pl\<rparr>)"

definition nas_unprotect ::
    "crypto \<Rightarrow> NasSecurityContext \<Rightarrow> u32 \<Rightarrow> u8 \<Rightarrow> Direction \<Rightarrow> bytes \<Rightarrow> bytes \<Rightarrow> bytes option" where
  "nas_unprotect cr ctx count bearer dir mac_i ciphertext =
     (if nas_eia ctx \<noteq> Eia0 \<and>
         \<not> eia2_verify_mac cr (k_nas_int ctx) count bearer dir ciphertext mac_i then None
      else Some (if nas_eea ctx \<noteq> Eea0 then eea2_apply cr (k_nas_enc ctx) count bearer dir ciphertext
                 else ciphertext))"

definition protect_downlink ::
    "crypto \<Rightarrow> NasSecurityContext \<Rightarrow> u8 \<Rightarrow> bytes \<Rightarrow> ProtectedNas \<times> NasSecurityContext" where
  "protect_downlink cr ctx bearer plain =
     (nas_protect cr ctx (dl_count ctx) bearer Downlink plain, ctx\<lparr>dl_count := dl_count ctx + 1\<rparr>)"

definition unprotect_uplink ::
    "crypto \<Rightarrow> NasSecurityContext \<Rightarrow> u8 \<Rightarrow> u8 \<Rightarrow> bytes \<Rightarrow> bytes \<Rightarrow> bytes option \<times> NasSecurityContext" where
  "unprotect_uplink cr ctx bearer seq_byte mac_i ciphertext =
     (let count = reconstruct_count (ul_count ctx) seq_byte in
      case nas_unprotect cr ctx count bearer Uplink mac_i ciphertext of
        None \<Rightarrow> (None, ctx)
      | Some plain \<Rightarrow> (Some plain, ctx\<lparr>ul_count := count + 1\<rparr>))"

definition protect_uplink ::
    "crypto \<Rightarrow> NasSecurityContext \<Rightarrow> u8 \<Rightarrow> bytes \<Rightarrow> ProtectedNas \<times> NasSecurityContext" where
  "protect_uplink cr ctx bearer plain =
     (nas_protect cr ctx (ul_count ctx) bearer Uplink plain, ctx\<lparr>ul_count := ul_count ctx + 1\<rparr>)"

definition unprotect_downlink ::
    "crypto \<Rightarrow> NasSecurityContext \<Rightarrow> u8 \<Rightarrow> u8 \<Rightarrow> bytes \<Rightarrow> bytes \<Rightarrow> bytes option \<times> NasSecurityContext" where
  "unprotect_downlink cr ctx bearer seq_byte mac_i ciphertext =
     (let count = reconstruct_count (dl_count ctx) seq_byte in
      case nas_unprotect cr ctx count bearer Downlink mac_i ciphertext of
        None \<Rightarrow> (None, ctx)
      | Some plain \<Rightarrow> (Some plain, ctx\<lparr>dl_count := count + 1\<rparr>))"

section \<open>COUNT reconstruction\<close>

lemma unat_u32_less: "unat (x :: u32) < 4294967296"
proof -
  have "(unsigned x :: nat) < 2 ^ LENGTH(32)" by (rule unsigned_less)
  then show ?thesis by simp
qed

lemma and_high_bytes: "(c AND 0xFFFFFF00 :: u32) = push_bit 8 (drop_bit 8 c)"
proof -
  have m: "(0xFFFFFF00 :: u32) = push_bit 8 (mask 24)"
    by (simp add: mask_eq_exp_minus_1 push_bit_eq_mult)
  show ?thesis unfolding m by (rule bit_word_eqI) (auto simp: bit_simps)
qed

lemma unat_high_bytes: "unat (c AND 0xFFFFFF00 :: u32) = unat c div 256 * 256"
proof -
  have "unat c div 256 * 256 \<le> unat c" by simp
  then have "unat c div 256 * 256 < 4294967296" using unat_u32_less [of c] by linarith
  then show ?thesis
    unfolding and_high_bytes unsigned_push_bit_eq unat_drop_bit_eq
    by (simp add: push_bit_eq_mult drop_bit_eq_div take_bit_eq_mod)
qed

lemma unat_high_or_byte:
  assumes "unat h mod 256 = 0"
  shows "unat (h OR ucast (b :: u8) :: u32) = unat h + unat b"
proof -
  have "unat (take_bit 8 h) = 0" using assms by (simp add: unsigned_take_bit_eq take_bit_eq_mod unat_mod)
  then have t: "take_bit 8 h = 0" by (simp only: unat_eq_zero)
  have nb: "\<not> bit h k" if "k < 8" for k
    using t that by (metis bit_0_eq bit_take_bit_iff bot_apply bot_bool_def)
  have d: "h AND ucast b = 0"
  proof (rule bit_word_eqI)
    fix k show "bit (h AND ucast b) k = bit (0 :: u32) k"
      using nb [of k] bit_imp_le_length [of b k] by (auto simp: bit_simps)
  qed
  obtain q where q: "unat h = 256 * q" using assms by (metis mod_0_imp_dvd dvd_def)
  have "q < 16777216" using q unat_u32_less [of h] by simp
  then have "unat h + unat b < 4294967296" using q unat_u8_less [of b] by linarith
  moreover have "h OR ucast b = h + ucast b" using d by (simp add: disjunctive_add_eq_or)
  moreover have "unat (ucast b :: u32) = unat b"
    by (simp add: unsigned_ucast_eq take_bit_eq_mod less_trans [OF unat_u8_less])
  ultimately show ?thesis by (simp add: unat_word_ariths)
qed

lemma unat_ucast_u8: "unat (ucast (n :: u32) :: u8) = unat n mod 256"
  by (simp add: unsigned_ucast_eq take_bit_eq_mod)

lemma unat_candidate:
  "unat ((lst AND 0xFFFFFF00) OR ucast (b :: u8) :: u32) = unat lst div 256 * 256 + unat b"
  by (subst unat_high_or_byte) (simp_all add: unat_high_bytes)

text \<open>
  The steps from the expected count \<open>lst\<close> to the next one with the low byte \<open>b\<close>, counting on over
  the end of the 32 bits.
\<close>

definition count_steps :: "u32 \<Rightarrow> u8 \<Rightarrow> nat" where
  "count_steps lst b = (unat b + 256 - unat lst mod 256) mod 256"

lemma count_steps_less: "count_steps lst b < 256"
  by (simp add: count_steps_def)

lemma of_nat_unat_eq: "unat (w :: u32) = n mod 4294967296 \<Longrightarrow> w = of_nat n"
  by (rule unsigned_word_eqI [where 'a = nat]) (simp add: unat_of_nat take_bit_eq_mod)

lemma reconstruct_count_of_nat:
  "reconstruct_count lst b = of_nat (unat lst div 256 * 256 + unat b +
     (if unat b < unat lst mod 256 then 256 else 0))"
proof -
  let ?h = "lst AND 0xFFFFFF00" and ?q = "unat lst div 256 * 256"
  have l: "unat lst = ?q + unat lst mod 256" by simp
  have c: "lst \<le> ?h OR ucast b \<longleftrightarrow> \<not> unat b < unat lst mod 256"
    unfolding word_le_nat_alt unat_candidate using l by arith
  have "?h OR ucast b = of_nat (?q + unat b)"
    by (rule unsigned_word_eqI [where 'a = nat])
       (simp add: unat_candidate unat_of_nat take_bit_eq_mod unat_u32_less flip: unat_candidate)
  moreover have "(?h + 0x100) OR ucast b = of_nat (?q + unat b + 256)"
  proof -
    have h: "unat (?h + 0x100) = (?q + 256) mod 4294967296"
      by (simp add: unat_word_ariths unat_high_bytes)
    then have m: "unat (?h + 0x100) mod 256 = 0" by (simp add: mod_mod_cancel)
    have "(?h + 0x100) OR ucast b = of_nat (unat (?h + 0x100) + unat b)"
      by (simp only: flip: unat_high_or_byte [OF m]) simp
    also have "\<dots> = of_nat (?q + 256) + of_nat (unat b)"
      using of_nat_unat_eq [OF h] by simp
    finally show ?thesis by (simp add: algebra_simps)
  qed
  ultimately show ?thesis using c by (simp add: reconstruct_count_def Let_def)
qed

lemma reconstruct_count_steps: "reconstruct_count lst b = lst + of_nat (count_steps lst b)"
proof -
  define q r where d: "q = unat lst div 256 * 256" "r = unat lst mod 256"
  have b: "unat b < 256" "r < 256" by (simp_all add: unat_u8_less d)
  have l: "unat lst = q + r" by (simp add: d)
  have s: "count_steps lst b = (if unat b < r then unat b + 256 - r else unat b - r)"
  proof (cases "unat b < r")
    case False
    then have "unat b + 256 - r = (unat b - r) + 256" by simp
    then have "count_steps lst b = (unat b - r) mod 256"
      unfolding count_steps_def d(2) [symmetric] by (simp only: mod_add_self2)
    moreover have "unat b - r < 256" using b by linarith
    ultimately show ?thesis using False by (simp only: mod_less if_False)
  qed (use b in \<open>simp add: count_steps_def flip: d\<close>)
  have "q + unat b + (if unat b < r then 256 else 0) = unat lst + count_steps lst b"
    unfolding s l using b by simp
  then have "reconstruct_count lst b = of_nat (unat lst + count_steps lst b)"
    by (simp only: reconstruct_count_of_nat flip: d)
  then show ?thesis by simp
qed

lemma mod_256_add: "unat (a + b :: u32) mod 256 = (unat a + unat b) mod 256"
  by (simp add: unat_word_ariths mod_mod_cancel)

lemma count_steps_ucast: "count_steps lst (ucast n) = unat (n - lst) mod 256"
proof -
  let ?d = "unat (n - lst)" and ?r = "unat lst mod 256"
  have r: "?r < 256" by simp
  have "unat n mod 256 = (?d + ?r) mod 256"
    using mod_256_add [of "n - lst" lst] by (simp only: mod_add_right_eq diff_add_cancel)
  then have "count_steps lst (ucast n) = ((?d + ?r) mod 256 + (256 - ?r)) mod 256"
    using r by (simp only: count_steps_def unat_ucast_u8) simp
  also have "\<dots> = (?d + (?r + (256 - ?r))) mod 256" by (simp only: mod_add_left_eq add.assoc)
  finally show ?thesis using r by simp
qed

lemma reconstruct_count_distance: "unat (reconstruct_count lst b - lst) = count_steps lst b"
  using count_steps_less [of lst b] by (simp add: reconstruct_count_steps unat_of_nat take_bit_eq_mod)

lemma ucast_reconstruct_count: "ucast (reconstruct_count lst b) = b"
proof (rule unsigned_word_eqI [where 'a = nat])
  have "(unat lst + count_steps lst b) mod 256 = (unat lst mod 256 + (unat b + 256 - unat lst mod 256)) mod 256"
    by (simp only: count_steps_def mod_simps)
  also have "unat lst mod 256 + (unat b + 256 - unat lst mod 256) = unat b + 256"
    using mod_less_divisor [of 256 "unat lst"] by linarith
  finally show "unat (ucast (reconstruct_count lst b) :: u8) = unat b"
    by (simp add: unat_ucast_u8 reconstruct_count_steps mod_256_add unat_of_nat take_bit_eq_mod mod_simps
          less_trans [OF count_steps_less] unat_u8_less)
qed

lemma reconstruct_count_own: "reconstruct_count lst (ucast n) = n \<longleftrightarrow> unat (n - lst) < 256"
proof
  assume "reconstruct_count lst (ucast n) = n"
  then show "unat (n - lst) < 256" by (metis reconstruct_count_distance count_steps_less)
next
  assume "unat (n - lst) < 256"
  then have "unat (reconstruct_count lst (ucast n) - lst) = unat (n - lst)"
    by (simp add: reconstruct_count_distance count_steps_ucast)
  then have "reconstruct_count lst (ucast n) - lst = n - lst" by (rule unsigned_word_eqI)
  then show "reconstruct_count lst (ucast n) = n" by simp
qed

lemma unat_distance_below:
  assumes "(n :: u32) < lst"
  shows "unat (n - lst) = 4294967296 + unat n - unat lst"
  using assms by (simp add: unat_sub_if' word_less_nat_alt word_size)

text \<open>Within a window of 256 the sequence byte determines the COUNT.\<close>

lemma reconstruct_count_eq:
  assumes "lst \<le> n" "unat n < unat lst + 256"
  shows "reconstruct_count lst (ucast n) = n"
  using assms by (simp add: reconstruct_count_own unat_sub word_le_nat_alt)

section \<open>Protection and its inverse\<close>

definition same_keys :: "NasSecurityContext \<Rightarrow> NasSecurityContext \<Rightarrow> bool" where
  "same_keys a b \<longleftrightarrow> k_nas_enc a = k_nas_enc b \<and> k_nas_int a = k_nas_int b \<and>
     nas_eea a = nas_eea b \<and> nas_eia a = nas_eia b"

lemma same_keys_refl [simp]: "same_keys a a"
  by (simp add: same_keys_def)

lemma same_keys_upd [simp]:
  "same_keys a (b\<lparr>dl_count := n\<rparr>) = same_keys a b" "same_keys a (b\<lparr>ul_count := n\<rparr>) = same_keys a b"
  "same_keys (a\<lparr>dl_count := n\<rparr>) b = same_keys a b" "same_keys (a\<lparr>ul_count := n\<rparr>) b = same_keys a b"
  by (simp_all add: same_keys_def)

lemma nas_unprotect_protect:
  assumes "ctr_stream cr" "same_keys s r"
  shows "nas_unprotect cr r count bearer dir (pn_mac_i (nas_protect cr s count bearer dir plain))
           (pn_payload (nas_protect cr s count bearer dir plain)) = Some plain"
  using assms
  by (auto simp: nas_unprotect_def nas_protect_def Let_def same_keys_def eia2_verify_mac_def
      eea2_apply_def ctr_stream_involution)

lemma length_nas_protect_mac:
  "cmac_len cr \<Longrightarrow> length (pn_mac_i (nas_protect cr s count bearer dir plain)) = 4"
  by (simp add: nas_protect_def Let_def eia2_compute_mac_def cmac_len_def)

lemma pn_count_nas_protect [simp]: "pn_count (nas_protect cr s count bearer dir plain) = count"
  by (simp add: nas_protect_def Let_def)

section \<open>A protected direction\<close>

text \<open>
  A run of the channel: each message is protected by the sender and either delivered or lost.
  The result is what the receiver obtained, a rejected envelope showing as \<open>None\<close>.
\<close>

fun transmit :: "('c \<Rightarrow> bytes \<Rightarrow> bytes \<times> 'c) \<Rightarrow> ('c \<Rightarrow> bytes \<Rightarrow> bytes option \<times> 'c) \<Rightarrow> 'c \<Rightarrow> 'c \<Rightarrow> (bytes \<times> bool) list \<Rightarrow> bytes option list" where
  "transmit enc dec s r [] = []"
| "transmit enc dec s r ((p, delivered) # ms) =
     (let (w, s') = enc s p in
      if delivered then let (x, r') = dec r w in x # transmit enc dec s' r' ms
      else transmit enc dec s' r ms)"

text \<open>No 256 messages in a row are lost, counting \<open>k\<close> losses before the run.\<close>

fun gaps_ok :: "nat \<Rightarrow> (bytes \<times> bool) list \<Rightarrow> bool" where
  "gaps_ok k [] \<longleftrightarrow> True"
| "gaps_ok k ((p, delivered) # ms) \<longleftrightarrow> (if delivered then k < 256 \<and> gaps_ok 0 ms else gaps_ok (Suc k) ms)"

text \<open>
  One direction of a NAS connection: \<open>enc\<close> is what the sender does to a message, \<open>dec\<close> what
  the receiver does to an envelope, \<open>cnt\<close> the COUNT that direction uses and \<open>keyed\<close> that both
  ends hold the same keys and algorithms. \<open>ok\<close> gathers what the instance needs of the
  cryptographic parameters.
\<close>

locale nas_channel =
  fixes ok :: bool
    and enc :: "'c \<Rightarrow> bytes \<Rightarrow> bytes \<times> 'c"
    and dec :: "'c \<Rightarrow> bytes \<Rightarrow> bytes option \<times> 'c"
    and cnt :: "'c \<Rightarrow> u32"
    and keyed :: "'c \<Rightarrow> 'c \<Rightarrow> bool"
  assumes enc_cnt: "cnt (snd (enc s p)) = cnt s + 1"
    and enc_keyed: "keyed (snd (enc s p)) r = keyed s r"
    and dec_fail: "dec r w = (None, r') \<Longrightarrow> r' = r"
    and dec_enc: "ok \<Longrightarrow> keyed s r \<Longrightarrow> cnt r \<le> cnt s \<Longrightarrow> unat (cnt s) < unat (cnt r) + 256 \<Longrightarrow>
      \<exists>r'. dec r (fst (enc s p)) = (Some p, r') \<and> cnt r' = cnt s + 1 \<and> keyed s r'"
begin

lemma transmit_gap:
  "ok \<Longrightarrow> keyed s r \<Longrightarrow> unat (cnt s) = unat (cnt r) + k \<Longrightarrow> gaps_ok k ms \<Longrightarrow>
   unat (cnt s) + length ms < 4294967296 \<Longrightarrow>
   transmit enc dec s r ms = map (Some \<circ> fst) (filter snd ms)"
proof (induction ms arbitrary: s r k)
  case Nil
  then show ?case by simp
next
  case (Cons m ms)
  obtain p d where m: "m = (p, d)" by (cases m)
  let ?s = "snd (enc s p)"
  have cs: "unat (cnt ?s) = unat (cnt s) + 1"
    using Cons.prems(5) by (simp add: enc_cnt unat_word_ariths)
  show ?case
  proof (cases d)
    case True
    have "cnt r \<le> cnt s" "unat (cnt s) < unat (cnt r) + 256"
      using Cons.prems(3,4) True m by (simp_all add: word_le_nat_alt)
    then obtain r' where r': "dec r (fst (enc s p)) = (Some p, r')" "cnt r' = cnt s + 1" "keyed s r'"
      using dec_enc [OF Cons.prems(1,2)] by blast
    have "transmit enc dec ?s r' ms = map (Some \<circ> fst) (filter snd ms)"
      using Cons.prems m True r'(2,3) cs
      by (intro Cons.IH [of ?s r' 0]) (simp_all add: enc_keyed enc_cnt)
    with True m r'(1) show ?thesis by (simp add: split_beta)
  next
    case False
    have "transmit enc dec ?s r ms = map (Some \<circ> fst) (filter snd ms)"
      using Cons.prems m False cs by (intro Cons.IH [of ?s r "Suc k"]) (simp_all add: enc_keyed)
    with False m show ?thesis by (simp add: split_beta)
  qed
qed

lemma transmit_in_order:
  "ok \<Longrightarrow> keyed s r \<Longrightarrow> cnt s = cnt r \<Longrightarrow> gaps_ok 0 ms \<Longrightarrow> unat (cnt s) + length ms < 4294967296 \<Longrightarrow>
   transmit enc dec s r ms = map (Some \<circ> fst) (filter snd ms)"
  by (rule transmit_gap [of _ _ 0]) simp_all

end

end
