(* ===== verification/Nas5gs_Security.thy ===== *)
theory Nas5gs_Security
  imports Nas_Security
begin

text \<open>
  5G NAS security, \<open>crates/midn-proto/src/nas5gs/security.rs\<close>: the context with its numeric
  algorithm identifiers, the key derivation with FC 0x69, and protection in both directions.
  It shares the EEA2/EIA2 primitives, the COUNT reconstruction and the bearer constant with
  the LTE theory, as the code does.
\<close>

record Nas5gsSecurityContext =
  k5_nas_enc :: bytes
  k5_nas_int :: bytes
  nas_cipher_alg :: u8
  nas_integrity_alg :: u8
  dl5_count :: u32
  ul5_count :: u32

definition FC_5G_ALGO_KEY_DERIVATION :: u8 where "FC_5G_ALGO_KEY_DERIVATION = 0x69"

definition kdf_5g_nas_key :: "crypto \<Rightarrow> bytes \<Rightarrow> u8 \<Rightarrow> u8 \<Rightarrow> bytes" where
  "kdf_5g_nas_key cr kamf distinguisher identity =
     (let s = [FC_5G_ALGO_KEY_DERIVATION, distinguisher] @ to_be16 1 @ [identity] @ to_be16 1
      in drop 16 (hmac_sha256 cr kamf s))"

definition derive_nas_keys_5g :: "crypto \<Rightarrow> bytes \<Rightarrow> u8 \<Rightarrow> u8 \<Rightarrow> bytes \<times> bytes" where
  "derive_nas_keys_5g cr kamf cipher_alg integrity_alg =
     (kdf_5g_nas_key cr kamf ALGO_DISTINGUISHER_NAS_ENC cipher_alg,
      kdf_5g_nas_key cr kamf ALGO_DISTINGUISHER_NAS_INT integrity_alg)"

definition Nas5gsSecurityContext_new_from_keys ::
    "bytes \<Rightarrow> bytes \<Rightarrow> u8 \<Rightarrow> u8 \<Rightarrow> Nas5gsSecurityContext" where
  "Nas5gsSecurityContext_new_from_keys enc kint cipher_alg integrity_alg =
     \<lparr>k5_nas_enc = enc, k5_nas_int = kint, nas_cipher_alg = cipher_alg,
      nas_integrity_alg = integrity_alg, dl5_count = 0, ul5_count = 0\<rparr>"

definition Nas5gsSecurityContext_new :: "crypto \<Rightarrow> bytes \<Rightarrow> u8 \<Rightarrow> u8 \<Rightarrow> Nas5gsSecurityContext" where
  "Nas5gsSecurityContext_new cr kamf cipher_alg integrity_alg =
     (let (enc, kint) = derive_nas_keys_5g cr kamf cipher_alg integrity_alg in
      \<lparr>k5_nas_enc = enc, k5_nas_int = kint, nas_cipher_alg = cipher_alg,
       nas_integrity_alg = integrity_alg, dl5_count = 0, ul5_count = 0\<rparr>)"

definition cipher_is_null :: "Nas5gsSecurityContext \<Rightarrow> bool" where
  "cipher_is_null ctx = (nas_cipher_alg ctx = 0)"

definition integrity_is_null :: "Nas5gsSecurityContext \<Rightarrow> bool" where
  "integrity_is_null ctx = (nas_integrity_alg ctx = 0)"

definition protect_5g :: "crypto \<Rightarrow> Nas5gsSecurityContext \<Rightarrow> u32 \<Rightarrow> Direction \<Rightarrow> bytes \<Rightarrow> ProtectedNas" where
  "protect_5g cr ctx count dir plain =
     (let pl = (if \<not> cipher_is_null ctx then eea2_apply cr (k5_nas_enc ctx) count NAS_BEARER dir plain
                else plain);
          mac_i = (if \<not> integrity_is_null ctx
                   then eia2_compute_mac cr (k5_nas_int ctx) count NAS_BEARER dir pl
                   else replicate 4 0)
      in \<lparr>pn_count = count, pn_mac_i = mac_i, pn_payload = pl\<rparr>)"

definition unprotect_5g ::
    "crypto \<Rightarrow> Nas5gsSecurityContext \<Rightarrow> u32 \<Rightarrow> Direction \<Rightarrow> bytes \<Rightarrow> bytes \<Rightarrow> bytes option" where
  "unprotect_5g cr ctx count dir mac_i ciphertext =
     (if \<not> integrity_is_null ctx \<and>
         \<not> eia2_verify_mac cr (k5_nas_int ctx) count NAS_BEARER dir ciphertext mac_i then None
      else Some (if \<not> cipher_is_null ctx
                 then eea2_apply cr (k5_nas_enc ctx) count NAS_BEARER dir ciphertext
                 else ciphertext))"

definition protect_downlink_5g ::
    "crypto \<Rightarrow> Nas5gsSecurityContext \<Rightarrow> bytes \<Rightarrow> ProtectedNas \<times> Nas5gsSecurityContext" where
  "protect_downlink_5g cr ctx plain =
     (protect_5g cr ctx (dl5_count ctx) Downlink plain, ctx\<lparr>dl5_count := dl5_count ctx + 1\<rparr>)"

definition unprotect_uplink_5g ::
    "crypto \<Rightarrow> Nas5gsSecurityContext \<Rightarrow> u8 \<Rightarrow> bytes \<Rightarrow> bytes \<Rightarrow> bytes option \<times> Nas5gsSecurityContext" where
  "unprotect_uplink_5g cr ctx seq_byte mac_i ciphertext =
     (let count = reconstruct_count (ul5_count ctx) seq_byte in
      case unprotect_5g cr ctx count Uplink mac_i ciphertext of
        None \<Rightarrow> (None, ctx)
      | Some plain \<Rightarrow> (Some plain, ctx\<lparr>ul5_count := count + 1\<rparr>))"

definition protect_uplink_5g ::
    "crypto \<Rightarrow> Nas5gsSecurityContext \<Rightarrow> bytes \<Rightarrow> ProtectedNas \<times> Nas5gsSecurityContext" where
  "protect_uplink_5g cr ctx plain =
     (protect_5g cr ctx (ul5_count ctx) Uplink plain, ctx\<lparr>ul5_count := ul5_count ctx + 1\<rparr>)"

definition unprotect_downlink_5g ::
    "crypto \<Rightarrow> Nas5gsSecurityContext \<Rightarrow> u8 \<Rightarrow> bytes \<Rightarrow> bytes \<Rightarrow> bytes option \<times> Nas5gsSecurityContext" where
  "unprotect_downlink_5g cr ctx seq_byte mac_i ciphertext =
     (let count = reconstruct_count (dl5_count ctx) seq_byte in
      case unprotect_5g cr ctx count Downlink mac_i ciphertext of
        None \<Rightarrow> (None, ctx)
      | Some plain \<Rightarrow> (Some plain, ctx\<lparr>dl5_count := count + 1\<rparr>))"

section \<open>Protection and its inverse\<close>

definition same_keys_5g :: "Nas5gsSecurityContext \<Rightarrow> Nas5gsSecurityContext \<Rightarrow> bool" where
  "same_keys_5g a b \<longleftrightarrow> k5_nas_enc a = k5_nas_enc b \<and> k5_nas_int a = k5_nas_int b \<and>
     nas_cipher_alg a = nas_cipher_alg b \<and> nas_integrity_alg a = nas_integrity_alg b"

lemma same_keys_5g_simps [simp]:
  "same_keys_5g a a"
  "same_keys_5g a (b\<lparr>dl5_count := n\<rparr>) = same_keys_5g a b"
  "same_keys_5g a (b\<lparr>ul5_count := n\<rparr>) = same_keys_5g a b"
  "same_keys_5g (a\<lparr>dl5_count := n\<rparr>) b = same_keys_5g a b"
  "same_keys_5g (a\<lparr>ul5_count := n\<rparr>) b = same_keys_5g a b"
  by (simp_all add: same_keys_5g_def)

lemma unprotect_protect_5g:
  assumes "ctr_stream cr" "same_keys_5g s r"
  shows "unprotect_5g cr r count dir (pn_mac_i (protect_5g cr s count dir plain))
           (pn_payload (protect_5g cr s count dir plain)) = Some plain"
  using assms
  by (auto simp: unprotect_5g_def protect_5g_def Let_def same_keys_5g_def eia2_verify_mac_def
      eea2_apply_def ctr_stream_involution cipher_is_null_def integrity_is_null_def)

lemma length_protect_5g_mac:
  "cmac_len cr \<Longrightarrow> length (pn_mac_i (protect_5g cr s count dir plain)) = 4"
  by (simp add: protect_5g_def Let_def eia2_compute_mac_def cmac_len_def)

lemma pn_count_protect_5g [simp]: "pn_count (protect_5g cr s count dir plain) = count"
  by (simp add: protect_5g_def Let_def)

end
