(* ===== verification/Ecs.thy ===== *)
theory Ecs
  imports Id_Alloc Nas_Security Nas5gs_Security
begin

text \<open>
  Subscriber storage, \<open>crates/midn-ecs/src/components.rs\<close>, \<open>world.rs\<close> and \<open>registry.rs\<close>: one
  dense vector per component, all indexed by the entity id, a free list of despawned ids, and
  the IMSI index. An index out of range is a panic, \<open>None\<close> in \<open>spawn\<close>; everywhere else the
  code tests \<open>is_live\<close> first. A mutable accessor is modelled by the update it is used for.
  The theory states the invariant of the storage, shows that every operation keeps it, and
  that the storage refines a finite map from entity ids to entities.
\<close>

section \<open>Components\<close>

record IdentityComponent =
  id_imsi :: u64
  id_enb_ue_s1ap_id :: u32
  id_ue_ip :: bytes

definition IdentityComponent_empty :: IdentityComponent where
  "IdentityComponent_empty = \<lparr>id_imsi = 0, id_enb_ue_s1ap_id = 0, id_ue_ip = replicate 4 0\<rparr>"

datatype AuthFailReason = ResMismatch | MacFailure | SqnOutOfRange | InternalError

datatype AuthState = Unauthenticated | ChallengeIssued | Authenticated | Failed AuthFailReason

record SecurityContext =
  pending_rand :: bytes
  pending_xres :: bytes
  sc_ck :: bytes
  sc_ik :: bytes
  sc_ak :: bytes
  sc_plmn :: bytes
  sc_sqn_used :: bytes

definition SecurityContext_new_empty :: SecurityContext where
  "SecurityContext_new_empty =
     \<lparr>pending_rand = replicate 16 0, pending_xres = replicate 8 0, sc_ck = replicate 16 0,
      sc_ik = replicate 16 0, sc_ak = replicate 6 0, sc_plmn = replicate 3 0,
      sc_sqn_used = replicate 6 0\<rparr>"

definition clear_pending_challenge :: "SecurityContext \<Rightarrow> SecurityContext" where
  "clear_pending_challenge s = s\<lparr>pending_rand := replicate 16 0, pending_xres := replicate 8 0\<rparr>"

definition clear_post_kasme :: "SecurityContext \<Rightarrow> SecurityContext" where
  "clear_post_kasme s = s\<lparr>sc_ck := replicate 16 0, sc_ik := replicate 16 0, sc_ak := replicate 6 0\<rparr>"

record Nas5gsAkaContext =
  pending_rand5 :: bytes
  pending_xres_star :: bytes
  sc5_ck :: bytes
  sc5_ik :: bytes
  sc5_ak :: bytes
  sc5_plmn :: bytes
  sc5_sqn_used :: bytes

definition Nas5gsAkaContext_new_empty :: Nas5gsAkaContext where
  "Nas5gsAkaContext_new_empty =
     \<lparr>pending_rand5 = replicate 16 0, pending_xres_star = replicate 16 0, sc5_ck = replicate 16 0,
      sc5_ik = replicate 16 0, sc5_ak = replicate 6 0, sc5_plmn = replicate 3 0,
      sc5_sqn_used = replicate 6 0\<rparr>"

definition clear_pending_challenge_5g :: "Nas5gsAkaContext \<Rightarrow> Nas5gsAkaContext" where
  "clear_pending_challenge_5g s =
     s\<lparr>pending_rand5 := replicate 16 0, pending_xres_star := replicate 16 0\<rparr>"

definition clear_post_kamf :: "Nas5gsAkaContext \<Rightarrow> Nas5gsAkaContext" where
  "clear_post_kamf s = s\<lparr>sc5_ck := replicate 16 0, sc5_ik := replicate 16 0, sc5_ak := replicate 6 0\<rparr>"

record TunnelComponent =
  tc_ul_teid :: u32
  tc_dl_teid :: u32
  tc_enb_addr :: bytes

section \<open>World\<close>

type_synonym EntityId = u32

record World =
  next_id :: u32
  free_ids :: "u32 list"
  live_count :: nat
  w_live :: "bool list"
  w_identity :: "IdentityComponent list"
  w_auth :: "AuthState list"
  w_security :: "SecurityContext list"
  w_nas_security :: "NasSecurityContext option list"
  w_tunnel :: "TunnelComponent option list"
  w_security5g :: "Nas5gsAkaContext list"
  w_nas_security5g :: "Nas5gsSecurityContext option list"

definition World_new :: World where
  "World_new = \<lparr>next_id = 0, free_ids = [], live_count = 0, w_live = [], w_identity = [], w_auth = [],
     w_security = [], w_nas_security = [], w_tunnel = [], w_security5g = [], w_nas_security5g = []\<rparr>"

definition is_live :: "World \<Rightarrow> EntityId \<Rightarrow> bool" where
  "is_live w i \<longleftrightarrow> unat i < length (w_live w) \<and> w_live w ! unat i"

definition spawn :: "World \<Rightarrow> (EntityId \<times> World) option" where
  "spawn w =
     (if free_ids w \<noteq> [] then
        let i = last (free_ids w); w = w\<lparr>free_ids := butlast (free_ids w)\<rparr> in
        if unat i < length (w_live w)
        then Some (i, w\<lparr>w_live := (w_live w)[unat i := True], live_count := live_count w + 1\<rparr>)
        else None
      else
        let i = next_id w in
        Some (i, w\<lparr>next_id := next_id w + 1,
          w_live := w_live w @ [True],
          w_identity := w_identity w @ [IdentityComponent_empty],
          w_auth := w_auth w @ [Unauthenticated],
          w_security := w_security w @ [SecurityContext_new_empty],
          w_nas_security := w_nas_security w @ [None],
          w_tunnel := w_tunnel w @ [None],
          w_security5g := w_security5g w @ [Nas5gsAkaContext_new_empty],
          w_nas_security5g := w_nas_security5g w @ [None],
          live_count := live_count w + 1\<rparr>))"

definition despawn :: "World \<Rightarrow> EntityId \<Rightarrow> World" where
  "despawn w i =
     (if \<not> is_live w i then w
      else
        let idx = unat i in
        w\<lparr>w_live := (w_live w)[idx := False],
          w_identity := (w_identity w)[idx := IdentityComponent_empty],
          w_auth := (w_auth w)[idx := Unauthenticated],
          w_security := (w_security w)[idx := SecurityContext_new_empty],
          w_nas_security := (w_nas_security w)[idx := None],
          w_tunnel := (w_tunnel w)[idx := None],
          w_security5g := (w_security5g w)[idx := Nas5gsAkaContext_new_empty],
          w_nas_security5g := (w_nas_security5g w)[idx := None],
          free_ids := free_ids w @ [i],
          live_count := live_count w - 1\<rparr>)"

definition insert_identity :: "World \<Rightarrow> EntityId \<Rightarrow> IdentityComponent \<Rightarrow> World" where
  "insert_identity w i x =
     (if is_live w i then w\<lparr>w_identity := (w_identity w)[unat i := x]\<rparr> else w)"

definition identity :: "World \<Rightarrow> EntityId \<Rightarrow> IdentityComponent option" where
  "identity w i =
     (if is_live w i \<and> unat i < length (w_identity w) then Some (w_identity w ! unat i) else None)"

definition auth_state :: "World \<Rightarrow> EntityId \<Rightarrow> AuthState option" where
  "auth_state w i =
     (if is_live w i \<and> unat i < length (w_auth w) then Some (w_auth w ! unat i) else None)"

definition set_auth_state :: "World \<Rightarrow> EntityId \<Rightarrow> AuthState \<Rightarrow> World" where
  "set_auth_state w i x = (if is_live w i then w\<lparr>w_auth := (w_auth w)[unat i := x]\<rparr> else w)"

definition is_authenticated :: "World \<Rightarrow> EntityId \<Rightarrow> bool" where
  "is_authenticated w i = (auth_state w i = Some Authenticated)"

definition authenticated_count :: "World \<Rightarrow> nat" where
  "authenticated_count w =
     length (filter (\<lambda>(lv, st). lv \<and> st = Authenticated) (zip (w_live w) (w_auth w)))"

definition insert_security :: "World \<Rightarrow> EntityId \<Rightarrow> SecurityContext \<Rightarrow> World" where
  "insert_security w i x =
     (if is_live w i then w\<lparr>w_security := (w_security w)[unat i := x]\<rparr> else w)"

definition security :: "World \<Rightarrow> EntityId \<Rightarrow> SecurityContext option" where
  "security w i =
     (if is_live w i \<and> unat i < length (w_security w) then Some (w_security w ! unat i) else None)"

definition security_mut :: "World \<Rightarrow> EntityId \<Rightarrow> (SecurityContext \<Rightarrow> SecurityContext) \<Rightarrow> World" where
  "security_mut w i f =
     (if is_live w i then w\<lparr>w_security := (w_security w)[unat i := f (w_security w ! unat i)]\<rparr> else w)"

definition set_nas_security :: "World \<Rightarrow> EntityId \<Rightarrow> NasSecurityContext \<Rightarrow> World" where
  "set_nas_security w i x =
     (if is_live w i then w\<lparr>w_nas_security := (w_nas_security w)[unat i := Some x]\<rparr> else w)"

definition nas_security :: "World \<Rightarrow> EntityId \<Rightarrow> NasSecurityContext option" where
  "nas_security w i =
     (if is_live w i \<and> unat i < length (w_nas_security w) then w_nas_security w ! unat i else None)"

definition nas_security_mut :: "World \<Rightarrow> EntityId \<Rightarrow> (NasSecurityContext \<Rightarrow> NasSecurityContext) \<Rightarrow> World" where
  "nas_security_mut w i f =
     (if is_live w i
      then w\<lparr>w_nas_security := (w_nas_security w)[unat i := map_option f (w_nas_security w ! unat i)]\<rparr>
      else w)"

definition insert_security5g :: "World \<Rightarrow> EntityId \<Rightarrow> Nas5gsAkaContext \<Rightarrow> World" where
  "insert_security5g w i x =
     (if is_live w i then w\<lparr>w_security5g := (w_security5g w)[unat i := x]\<rparr> else w)"

definition security5g :: "World \<Rightarrow> EntityId \<Rightarrow> Nas5gsAkaContext option" where
  "security5g w i =
     (if is_live w i \<and> unat i < length (w_security5g w) then Some (w_security5g w ! unat i) else None)"

definition security5g_mut :: "World \<Rightarrow> EntityId \<Rightarrow> (Nas5gsAkaContext \<Rightarrow> Nas5gsAkaContext) \<Rightarrow> World" where
  "security5g_mut w i f =
     (if is_live w i then w\<lparr>w_security5g := (w_security5g w)[unat i := f (w_security5g w ! unat i)]\<rparr> else w)"

definition set_nas_security5g :: "World \<Rightarrow> EntityId \<Rightarrow> Nas5gsSecurityContext \<Rightarrow> World" where
  "set_nas_security5g w i x =
     (if is_live w i then w\<lparr>w_nas_security5g := (w_nas_security5g w)[unat i := Some x]\<rparr> else w)"

definition nas_security5g :: "World \<Rightarrow> EntityId \<Rightarrow> Nas5gsSecurityContext option" where
  "nas_security5g w i =
     (if is_live w i \<and> unat i < length (w_nas_security5g w) then w_nas_security5g w ! unat i else None)"

definition nas_security5g_mut ::
    "World \<Rightarrow> EntityId \<Rightarrow> (Nas5gsSecurityContext \<Rightarrow> Nas5gsSecurityContext) \<Rightarrow> World" where
  "nas_security5g_mut w i f =
     (if is_live w i
      then w\<lparr>w_nas_security5g := (w_nas_security5g w)[unat i := map_option f (w_nas_security5g w ! unat i)]\<rparr>
      else w)"

definition set_tunnel :: "World \<Rightarrow> EntityId \<Rightarrow> TunnelComponent \<Rightarrow> World" where
  "set_tunnel w i x = (if is_live w i then w\<lparr>w_tunnel := (w_tunnel w)[unat i := Some x]\<rparr> else w)"

definition tunnel :: "World \<Rightarrow> EntityId \<Rightarrow> TunnelComponent option" where
  "tunnel w i = (if is_live w i \<and> unat i < length (w_tunnel w) then w_tunnel w ! unat i else None)"

definition tunnel_mut :: "World \<Rightarrow> EntityId \<Rightarrow> (TunnelComponent \<Rightarrow> TunnelComponent) \<Rightarrow> World" where
  "tunnel_mut w i f =
     (if is_live w i then w\<lparr>w_tunnel := (w_tunnel w)[unat i := map_option f (w_tunnel w ! unat i)]\<rparr> else w)"

definition subscriber_count :: "World \<Rightarrow> nat" where
  "subscriber_count w = live_count w"

section \<open>The IMSI index\<close>

type_synonym ImsiRegistry = "u64 \<rightharpoonup> EntityId"

definition ImsiRegistry_new :: ImsiRegistry where
  "ImsiRegistry_new = Map.empty"

definition register :: "ImsiRegistry \<Rightarrow> u64 \<Rightarrow> EntityId \<Rightarrow> EntityId option \<times> ImsiRegistry" where
  "register m imsi e = (m imsi, m(imsi \<mapsto> e))"

definition deregister :: "ImsiRegistry \<Rightarrow> u64 \<Rightarrow> EntityId option \<times> ImsiRegistry" where
  "deregister m imsi = (m imsi, m(imsi := None))"

definition lookup :: "ImsiRegistry \<Rightarrow> u64 \<Rightarrow> EntityId option" where
  "lookup m imsi = m imsi"

section \<open>The storage as a map of entities\<close>

named_theorems ecs_abs \<open>accessors and updates seen through the abstraction\<close>
named_theorems ecs_wf \<open>operations that keep the storage invariant\<close>

record entity =
  e_identity :: IdentityComponent
  e_auth :: AuthState
  e_security :: SecurityContext
  e_nas_security :: "NasSecurityContext option"
  e_tunnel :: "TunnelComponent option"
  e_security5g :: Nas5gsAkaContext
  e_nas_security5g :: "Nas5gsSecurityContext option"

definition empty_entity :: entity where
  "empty_entity = \<lparr>e_identity = IdentityComponent_empty, e_auth = Unauthenticated,
     e_security = SecurityContext_new_empty, e_nas_security = None, e_tunnel = None,
     e_security5g = Nas5gsAkaContext_new_empty, e_nas_security5g = None\<rparr>"

definition entity_at :: "World \<Rightarrow> nat \<Rightarrow> entity" where
  "entity_at w k = \<lparr>e_identity = w_identity w ! k, e_auth = w_auth w ! k,
     e_security = w_security w ! k, e_nas_security = w_nas_security w ! k, e_tunnel = w_tunnel w ! k,
     e_security5g = w_security5g w ! k, e_nas_security5g = w_nas_security5g w ! k\<rparr>"

definition abs_world :: "World \<Rightarrow> EntityId \<rightharpoonup> entity" where
  "abs_world w i = (if is_live w i then Some (entity_at w (unat i)) else None)"

definition world_shape :: "World \<Rightarrow> bool" where
  "world_shape w \<longleftrightarrow>
     length (w_identity w) = length (w_live w) \<and> length (w_auth w) = length (w_live w) \<and>
     length (w_security w) = length (w_live w) \<and> length (w_nas_security w) = length (w_live w) \<and>
     length (w_tunnel w) = length (w_live w) \<and> length (w_security5g w) = length (w_live w) \<and>
     length (w_nas_security5g w) = length (w_live w) \<and> length (w_live w) = unat (next_id w)"

text \<open>
  The invariant: all vectors have the length of the id counter, the free ids are distinct dead
  slots, a dead slot holds empty components, and \<open>live_count\<close> counts the live slots.
\<close>

definition world_wf :: "World \<Rightarrow> bool" where
  "world_wf w \<longleftrightarrow> world_shape w \<and> distinct (free_ids w) \<and>
     (\<forall>i \<in> set (free_ids w). unat i < length (w_live w) \<and> \<not> w_live w ! unat i) \<and>
     (\<forall>k < length (w_live w). \<not> w_live w ! k \<longrightarrow> entity_at w k = empty_entity) \<and>
     live_count w = length (filter id (w_live w))"

lemma world_wf_new [simp]: "world_wf World_new"
  by (simp add: world_wf_def world_shape_def World_new_def)

lemma abs_world_new [simp]: "abs_world World_new = Map.empty"
  by (auto simp: abs_world_def is_live_def World_new_def)

lemma world_shapeD:
  assumes "world_wf w"
  shows "length (w_identity w) = length (w_live w)" "length (w_auth w) = length (w_live w)"
    "length (w_security w) = length (w_live w)" "length (w_nas_security w) = length (w_live w)"
    "length (w_tunnel w) = length (w_live w)" "length (w_security5g w) = length (w_live w)"
    "length (w_nas_security5g w) = length (w_live w)" "length (w_live w) = unat (next_id w)"
  using assms by (simp_all add: world_wf_def world_shape_def)

lemma is_live_abs: "is_live w i \<longleftrightarrow> abs_world w i \<noteq> None"
  by (simp add: abs_world_def)

lemma getters_abs [ecs_abs]:
  assumes "world_wf w"
  shows "identity w i = map_option e_identity (abs_world w i)"
    "auth_state w i = map_option e_auth (abs_world w i)"
    "security w i = map_option e_security (abs_world w i)"
    "security5g w i = map_option e_security5g (abs_world w i)"
    "nas_security w i = Option.bind (abs_world w i) e_nas_security"
    "nas_security5g w i = Option.bind (abs_world w i) e_nas_security5g"
    "tunnel w i = Option.bind (abs_world w i) e_tunnel"
  by (auto simp: identity_def auth_state_def security_def security5g_def nas_security_def
      nas_security5g_def tunnel_def abs_world_def entity_at_def is_live_def world_shapeD [OF assms])

text \<open>Every component update is one map update of the abstraction.\<close>

lemmas ecs_setters = insert_identity_def set_auth_state_def insert_security_def security_mut_def
  set_nas_security_def nas_security_mut_def insert_security5g_def security5g_mut_def
  set_nas_security5g_def nas_security5g_mut_def set_tunnel_def tunnel_mut_def

lemma setters_abs [ecs_abs]:
  assumes "world_wf w"
  shows "abs_world (insert_identity w i x1) = (abs_world w)(i := map_option (e_identity_update (\<lambda>_. x1)) (abs_world w i))"
    "abs_world (set_auth_state w i x2) = (abs_world w)(i := map_option (e_auth_update (\<lambda>_. x2)) (abs_world w i))"
    "abs_world (insert_security w i x3) = (abs_world w)(i := map_option (e_security_update (\<lambda>_. x3)) (abs_world w i))"
    "abs_world (security_mut w i f3) = (abs_world w)(i := map_option (e_security_update f3) (abs_world w i))"
    "abs_world (set_nas_security w i x4) = (abs_world w)(i := map_option (e_nas_security_update (\<lambda>_. Some x4)) (abs_world w i))"
    "abs_world (nas_security_mut w i f4) = (abs_world w)(i := map_option (e_nas_security_update (map_option f4)) (abs_world w i))"
    "abs_world (insert_security5g w i x5) = (abs_world w)(i := map_option (e_security5g_update (\<lambda>_. x5)) (abs_world w i))"
    "abs_world (security5g_mut w i f5) = (abs_world w)(i := map_option (e_security5g_update f5) (abs_world w i))"
    "abs_world (set_nas_security5g w i x6) = (abs_world w)(i := map_option (e_nas_security5g_update (\<lambda>_. Some x6)) (abs_world w i))"
    "abs_world (nas_security5g_mut w i f6) = (abs_world w)(i := map_option (e_nas_security5g_update (map_option f6)) (abs_world w i))"
    "abs_world (set_tunnel w i x7) = (abs_world w)(i := map_option (e_tunnel_update (\<lambda>_. Some x7)) (abs_world w i))"
    "abs_world (tunnel_mut w i f7) = (abs_world w)(i := map_option (e_tunnel_update (map_option f7)) (abs_world w i))"
  by (auto simp: fun_eq_iff ecs_setters abs_world_def is_live_def entity_at_def
      world_shapeD [OF assms] nth_list_update unat_eq_iff)

lemma setters_wf [ecs_wf]:
  assumes "world_wf w"
  shows "world_wf (insert_identity w i x1)" "world_wf (set_auth_state w i x2)"
    "world_wf (insert_security w i x3)" "world_wf (security_mut w i f3)"
    "world_wf (set_nas_security w i x4)" "world_wf (nas_security_mut w i f4)"
    "world_wf (insert_security5g w i x5)" "world_wf (security5g_mut w i f5)"
    "world_wf (set_nas_security5g w i x6)" "world_wf (nas_security5g_mut w i f6)"
    "world_wf (set_tunnel w i x7)" "world_wf (tunnel_mut w i f7)"
  using assms
  by (auto simp: ecs_setters world_wf_def world_shape_def is_live_def entity_at_def empty_entity_def
      nth_list_update)

lemma setters_next_id [simp]:
  "next_id (insert_identity w i x1) = next_id w" "next_id (set_auth_state w i x2) = next_id w"
  "next_id (insert_security w i x3) = next_id w" "next_id (security_mut w i f3) = next_id w"
  "next_id (set_nas_security w i x4) = next_id w" "next_id (nas_security_mut w i f4) = next_id w"
  "next_id (insert_security5g w i x5) = next_id w" "next_id (security5g_mut w i f5) = next_id w"
  "next_id (set_nas_security5g w i x6) = next_id w" "next_id (nas_security5g_mut w i f6) = next_id w"
  "next_id (set_tunnel w i x7) = next_id w" "next_id (tunnel_mut w i f7) = next_id w"
  by (simp_all add: ecs_setters)

section \<open>Spawn and despawn\<close>

lemma next_id_Suc:
  "unat (next_id w) + 1 < 4294967296 \<Longrightarrow> unat (next_id w + 1) = Suc (unat (next_id w))"
  by (simp add: unat_word_ariths)

text \<open>A new slot at the end of all vectors.\<close>

lemma spawn_new_slot:
  assumes wf: "world_wf w" and free: "free_ids w = []" and room: "unat (next_id w) + 1 < 4294967296"
  shows "\<exists>w'. spawn w = Some (next_id w, w') \<and> world_wf w' \<and>
    abs_world w (next_id w) = None \<and> abs_world w' = (abs_world w)(next_id w \<mapsto> empty_entity)"
proof -
  obtain w' where w': "spawn w = Some (next_id w, w')" using free by (simp add: spawn_def)
  note l = world_shapeD [OF wf]
  have f: "w' = w\<lparr>next_id := next_id w + 1, w_live := w_live w @ [True],
      w_identity := w_identity w @ [IdentityComponent_empty], w_auth := w_auth w @ [Unauthenticated],
      w_security := w_security w @ [SecurityContext_new_empty],
      w_nas_security := w_nas_security w @ [None], w_tunnel := w_tunnel w @ [None],
      w_security5g := w_security5g w @ [Nas5gsAkaContext_new_empty],
      w_nas_security5g := w_nas_security5g w @ [None], live_count := live_count w + 1\<rparr>"
    using w' free by (simp add: spawn_def Let_def)
  have "world_wf w'"
    using wf free next_id_Suc [OF room]
    by (auto simp: f world_wf_def world_shape_def entity_at_def nth_append less_Suc_eq)
  moreover have "abs_world w (next_id w) = None" by (simp add: abs_world_def is_live_def l(8))
  moreover have "abs_world w' = (abs_world w)(next_id w \<mapsto> empty_entity)"
  proof (rule ext)
    fix i
    have ne: "unat i \<noteq> unat (next_id w)" if "i \<noteq> next_id w" using that by (simp add: unat_eq_iff)
    show "abs_world w' i = ((abs_world w)(next_id w \<mapsto> empty_entity)) i"
      using ne by (auto simp: f abs_world_def is_live_def entity_at_def empty_entity_def nth_append
          l less_Suc_eq)
  qed
  ultimately show ?thesis using w' by blast
qed

text \<open>A slot from the free list, which holds empty components.\<close>

lemma spawn_free_slot:
  assumes wf: "world_wf w" and free: "free_ids w \<noteq> []"
  shows "\<exists>w'. spawn w = Some (last (free_ids w), w') \<and> world_wf w' \<and> next_id w' = next_id w \<and>
    abs_world w (last (free_ids w)) = None \<and>
    abs_world w' = (abs_world w)(last (free_ids w) \<mapsto> empty_entity)"
proof -
  let ?i = "last (free_ids w)" and ?k = "unat (last (free_ids w))"
  have mem: "?i \<in> set (free_ids w)" using free by simp
  with wf have k: "?k < length (w_live w)" "\<not> w_live w ! ?k" by (auto simp: world_wf_def)
  have empty: "entity_at w ?k = empty_entity" using wf k by (auto simp: world_wf_def)
  define w' where "w' = w\<lparr>free_ids := butlast (free_ids w), w_live := (w_live w)[?k := True],
    live_count := live_count w + 1\<rparr>"
  have sp: "spawn w = Some (?i, w')" using free k by (simp add: spawn_def w'_def Let_def)
  have d: "?i \<notin> set (butlast (free_ids w))" "distinct (butlast (free_ids w))"
    using wf free by (metis append_butlast_last_id distinct_append not_distinct_conv_prefix world_wf_def,
        simp add: world_wf_def distinct_butlast)
  have ne: "unat i \<noteq> ?k" if "i \<in> set (butlast (free_ids w))" for i
    using d that by (auto simp: unat_eq_iff)
  have cnt: "length (filter id ((w_live w)[?k := True])) = live_count w + 1"
    using length_filter_id_update [OF k(1), of True] k(2) wf by (simp add: world_wf_def)
  have "world_wf w'"
    using wf d ne cnt k
    by (auto simp: w'_def world_wf_def world_shape_def entity_at_def nth_list_update unat_eq_iff
        dest: in_set_butlastD)
  moreover have "abs_world w ?i = None" using k by (simp add: abs_world_def is_live_def)
  moreover have "abs_world w' = (abs_world w)(?i \<mapsto> empty_entity)"
    using k empty by (auto simp: fun_eq_iff abs_world_def is_live_def w'_def entity_at_def
        nth_list_update unat_eq_iff)
  ultimately show ?thesis using sp by (auto simp: w'_def)
qed

lemma spawn_abs:
  assumes "world_wf w" "unat (next_id w) + 1 < 4294967296"
  obtains i w' where "spawn w = Some (i, w')" "world_wf w'" "abs_world w i = None"
    "abs_world w' = (abs_world w)(i \<mapsto> empty_entity)" "unat (next_id w') \<le> unat (next_id w) + 1"
proof (cases "free_ids w = []")
  case True
  obtain w' where w': "spawn w = Some (next_id w, w')" "world_wf w'"
    "abs_world w (next_id w) = None" "abs_world w' = (abs_world w)(next_id w \<mapsto> empty_entity)"
    using spawn_new_slot [OF assms(1) True assms(2)] by blast
  have "next_id w' = next_id w + 1" using w'(1) True by (auto simp: spawn_def Let_def)
  then have "unat (next_id w') \<le> unat (next_id w) + 1" using assms(2) by (simp add: next_id_Suc)
  then show ?thesis using that w' by blast
next
  case False
  then show ?thesis using spawn_free_slot [OF assms(1) False] that by fastforce
qed

lemma despawn_abs [ecs_abs]:
  "world_wf w \<Longrightarrow> abs_world (despawn w i) = (abs_world w)(i := None)"
  by (auto simp: fun_eq_iff despawn_def abs_world_def is_live_def entity_at_def Let_def
      world_shapeD nth_list_update unat_eq_iff)

lemma despawn_next_id [simp]: "next_id (despawn w i) = next_id w"
  by (simp add: despawn_def Let_def)

lemma despawn_wf [ecs_wf]:
  assumes wf: "world_wf w"
  shows "world_wf (despawn w i)"
proof (cases "is_live w i")
  case True
  then have k: "unat i < length (w_live w)" "w_live w ! unat i" by (simp_all add: is_live_def)
  have "i \<notin> set (free_ids w)" using wf k by (auto simp: world_wf_def)
  moreover have "length (filter id ((w_live w)[unat i := False])) = live_count w - 1"
    using length_filter_id_update [OF k(1), of False] k(2) wf by (simp add: world_wf_def)
  ultimately show ?thesis
    using wf True k
    by (auto simp: despawn_def Let_def world_wf_def world_shape_def entity_at_def empty_entity_def
        nth_list_update)
qed (use wf in \<open>simp add: despawn_def\<close>)

interpretation entity_ids: id_allocator world_wf "\<lambda>w. dom (abs_world w)"
    "\<lambda>w. unat (next_id w) + 1 < 4294967296" spawn despawn
proof
  fix w assume "world_wf w" "unat (next_id w) + 1 < 4294967296"
  then obtain i w' where "spawn w = Some (i, w')" "world_wf w'" "abs_world w i = None"
    "abs_world w' = (abs_world w)(i \<mapsto> empty_entity)" by (rule spawn_abs)
  then show "\<exists>i s'. spawn w = Some (i, s') \<and> world_wf s' \<and> i \<notin> dom (abs_world w) \<and>
      dom (abs_world s') = insert i (dom (abs_world w))" by auto
next
  fix w i assume "world_wf w" "i \<in> dom (abs_world w)"
  then show "world_wf (despawn w i) \<and> dom (abs_world (despawn w i)) = dom (abs_world w) - {i}"
    by (simp add: despawn_wf despawn_abs)
qed

end
