(* ===== verification/Milenage.thy ===== *)
theory Milenage
  imports Midn_Crypto
begin

text \<open>
  Milenage, \<open>crates/midn-auth/src/milenage.rs\<close>, and the key types of \<open>keys.rs\<close>. AES-128 is the
  parameter \<open>aes128_encrypt\<close>; the random challenge of \<open>generate_vector\<close> is an argument. A fixed
  array is a byte list of that length. The in-place buffer of \<open>compute\<close> is rewritten by index
  loops, which are modelled as such; the theory shows that the result is the construction
  TS 35.206 defines with cyclic rotations, and that AUTN carries SQN and AK as the USIM
  expects.
\<close>

section \<open>Keys\<close>

record AuthVector =
  mac_a :: bytes
  mac_s :: bytes
  av_res :: bytes
  av_ck :: bytes
  av_ik :: bytes
  av_ak :: bytes
  av_ak_star :: bytes

record MilenageContext =
  mc_k :: bytes
  mc_opc :: bytes

definition Sqn_to_bytes :: "u64 \<Rightarrow> bytes" where
  "Sqn_to_bytes s = (let b = to_be64 s in [b ! 2, b ! 3, b ! 4, b ! 5, b ! 6, b ! 7])"

definition Sqn_from_bytes :: "bytes \<Rightarrow> u64" where
  "Sqn_from_bytes b = from_be [0, 0, b ! 0, b ! 1, b ! 2, b ! 3, b ! 4, b ! 5]"

definition Sqn_increment :: "u64 \<Rightarrow> u64" where
  "Sqn_increment s = s + 1"

definition AMF_STANDARD :: bytes where
  "AMF_STANDARD = [0x80, 0x00]"

text \<open>\<open>from_hex\<close>: the \<open>hex\<close> crate decodes into a 16-byte array or fails; \<open>hexd\<close> stands for it.\<close>

definition AuthKey_from_hex :: "(string \<Rightarrow> nat \<Rightarrow> 'e + bytes) \<Rightarrow> string \<Rightarrow> 'e + bytes" where
  "AuthKey_from_hex hexd s = bind_res (hexd s 16) (\<lambda>out. Inr out)"

definition OpCode_from_hex :: "(string \<Rightarrow> nat \<Rightarrow> 'e + bytes) \<Rightarrow> string \<Rightarrow> 'e + bytes" where
  "OpCode_from_hex hexd s = bind_res (hexd s 16) (\<lambda>out. Inr out)"

section \<open>The algorithm\<close>

definition aes128 :: "crypto \<Rightarrow> bytes \<Rightarrow> bytes \<Rightarrow> bytes" where
  "aes128 cr k block = aes128_encrypt cr k block"

definition autn :: "AuthVector \<Rightarrow> bytes \<Rightarrow> bytes \<Rightarrow> bytes" where
  "autn av sqn amf = xor_bytes sqn (av_ak av) @ amf @ mac_a av"

definition MilenageContext_new :: "bytes \<Rightarrow> bytes \<Rightarrow> MilenageContext" where
  "MilenageContext_new k opc = \<lparr>mc_k = k, mc_opc = opc\<rparr>"

definition MilenageContext_with_op :: "crypto \<Rightarrow> bytes \<Rightarrow> bytes \<Rightarrow> MilenageContext" where
  "MilenageContext_with_op cr k opv = \<lparr>mc_k = k, mc_opc = xor_bytes (aes128 cr k opv) opv\<rparr>"

text \<open>\<open>for i in 0..16 { buf[(i + r) % 16] = src[i]; }\<close>\<close>

definition scatter :: "nat \<Rightarrow> bytes \<Rightarrow> bytes \<Rightarrow> bytes" where
  "scatter r buf src = foldl (\<lambda>buf i. buf[(i + r) mod 16 := src ! i]) buf [0..<16]"

text \<open>\<open>buf[15] ^= c\<close>\<close>

definition xor_last :: "bytes \<Rightarrow> u8 \<Rightarrow> bytes" where
  "xor_last buf c = buf[15 := (buf ! 15) XOR c]"

definition milenage_compute :: "crypto \<Rightarrow> MilenageContext \<Rightarrow> bytes \<Rightarrow> bytes \<Rightarrow> bytes \<Rightarrow> AuthVector" where
  "milenage_compute cr ctx rand sqn amf =
     (let k = mc_k ctx; opc = mc_opc ctx;
          buf = xor_bytes rand opc;
          temp = aes128 cr k buf;
          in1 = sqn @ amf @ sqn @ amf;
          buf = scatter 8 buf (xor_bytes in1 opc);
          buf = xor_bytes buf temp;
          out1 = xor_bytes (aes128 cr k buf) opc;
          buf = xor_bytes temp opc;
          buf = xor_last buf 0x01;
          out2 = xor_bytes (aes128 cr k buf) opc;
          buf = scatter 12 buf (xor_bytes temp opc);
          buf = xor_last buf 0x02;
          ck = xor_bytes (aes128 cr k buf) opc;
          buf = scatter 8 buf (xor_bytes temp opc);
          buf = xor_last buf 0x04;
          ik = xor_bytes (aes128 cr k buf) opc;
          buf = scatter 4 buf (xor_bytes temp opc);
          buf = xor_last buf 0x08;
          o5 = aes128 cr k buf;
          out5 = xor_bytes (take 6 o5) (take 6 opc) @ drop 6 o5
      in \<lparr>mac_a = take 8 out1, mac_s = drop 8 out1, av_res = drop 8 out2, av_ck = ck, av_ik = ik,
          av_ak = take 6 out2, av_ak_star = take 6 out5\<rparr>)"

definition generate_vector_with_rand ::
    "crypto \<Rightarrow> MilenageContext \<Rightarrow> u64 \<Rightarrow> bytes \<Rightarrow> bytes \<Rightarrow> AuthVector" where
  "generate_vector_with_rand cr ctx sqn amf rand = milenage_compute cr ctx rand (Sqn_to_bytes sqn) amf"

text \<open>\<open>rand_bytes\<close> is the value of \<open>rand::random()\<close>.\<close>

definition generate_vector ::
    "crypto \<Rightarrow> bytes \<Rightarrow> MilenageContext \<Rightarrow> u64 \<Rightarrow> bytes \<Rightarrow> bytes \<times> AuthVector" where
  "generate_vector cr rand_bytes ctx sqn amf =
     (rand_bytes, milenage_compute cr ctx rand_bytes (Sqn_to_bytes sqn) amf)"

definition verify_res :: "bytes \<Rightarrow> bytes \<Rightarrow> bool" where
  "verify_res expected received = (expected = received)"

section \<open>The construction of TS 35.206\<close>

text \<open>
  With \<open>OUT(X, r, c) = E(rot(X, r) xor c) xor OPc\<close>, rotation to the left by bytes and a constant
  in the last byte.
\<close>

definition const_block :: "u8 \<Rightarrow> bytes" where
  "const_block c = replicate 15 0 @ [c]"

definition spec_out :: "crypto \<Rightarrow> bytes \<Rightarrow> bytes \<Rightarrow> bytes \<Rightarrow> nat \<Rightarrow> u8 \<Rightarrow> bytes" where
  "spec_out cr k opc x r c = xor_bytes (aes128 cr k (xor_bytes (rotate r x) (const_block c))) opc"

definition milenage_spec :: "crypto \<Rightarrow> bytes \<Rightarrow> bytes \<Rightarrow> bytes \<Rightarrow> bytes \<Rightarrow> bytes \<Rightarrow> AuthVector" where
  "milenage_spec cr k opc rand sqn amf =
     (let temp = aes128 cr k (xor_bytes rand opc);
          in1 = sqn @ amf @ sqn @ amf;
          out1 = xor_bytes (aes128 cr k (xor_bytes (rotate 8 (xor_bytes in1 opc)) temp)) opc;
          x = xor_bytes temp opc;
          out2 = spec_out cr k opc x 0 1
      in \<lparr>mac_a = take 8 out1, mac_s = drop 8 out1, av_res = drop 8 out2,
          av_ck = spec_out cr k opc x 4 2, av_ik = spec_out cr k opc x 8 4,
          av_ak = take 6 out2, av_ak_star = take 6 (spec_out cr k opc x 12 8)\<rparr>)"

lemma length_const_block [simp]: "length (const_block c) = 16"
  by (simp add: const_block_def)

lemma length_16D:
  assumes "length xs = 16"
  obtains a b c d e f g h i j k l m n p q
  where "xs = [a, b, c, d, e, f, g, h, i, j, k, l, m, n, p, q]"
  using assms by (auto simp: length_Suc_conv numeral_eq_Suc)

lemma scatter_rotate:
  assumes "length buf = 16" "length xs = 16"
  shows "scatter 4 buf xs = rotate 12 xs" "scatter 8 buf xs = rotate 8 xs"
    "scatter 12 buf xs = rotate 4 xs"
proof -
  obtain a b c d e f g h i j k l m n p q where
    xs: "xs = [a, b, c, d, e, f, g, h, i, j, k, l, m, n, p, q]"
    using length_16D [OF assms(2)] .
  obtain a' b' c' d' e' f' g' h' i' j' k' l' m' n' p' q' where
    buf: "buf = [a', b', c', d', e', f', g', h', i', j', k', l', m', n', p', q']"
    using length_16D [OF assms(1)] .
  show "scatter 4 buf xs = rotate 12 xs" "scatter 8 buf xs = rotate 8 xs"
    "scatter 12 buf xs = rotate 4 xs"
    by (simp_all add: scatter_def xs buf upt_rec rotate_drop_take)
qed

lemma xor_last_const: "length buf = 16 \<Longrightarrow> xor_last buf c = xor_bytes buf (const_block c)"
  by (erule length_16D) (simp add: xor_last_def const_block_def xor_bytes_def numeral_eq_Suc)

lemma length_xor_last [simp]: "length (xor_last buf c) = length buf"
  by (simp add: xor_last_def)

lemma take_xor_bytes: "take n (xor_bytes xs ys) = xor_bytes (take n xs) (take n ys)"
  by (simp add: xor_bytes_def take_map take_zip)

lemma milenage_compute_spec:
  assumes "aes_len cr" "length rand = 16" "length (mc_opc ctx) = 16" "length sqn = 6" "length amf = 2"
  shows "milenage_compute cr ctx rand sqn amf = milenage_spec cr (mc_k ctx) (mc_opc ctx) rand sqn amf"
proof -
  have aes: "length (aes128 cr k b) = 16" for k b using assms(1) by (simp add: aes128_def aes_len_def)
  show ?thesis
    using assms(2-) aes
    by (simp add: milenage_compute_def milenage_spec_def Let_def spec_out_def scatter_rotate
        xor_last_const take_xor_bytes)
qed

lemma length_milenage_compute:
  assumes "aes_len cr" "length rand = 16" "length (mc_opc ctx) = 16" "length sqn = 6" "length amf = 2"
  shows "length (mac_a (milenage_compute cr ctx rand sqn amf)) = 8"
    "length (av_res (milenage_compute cr ctx rand sqn amf)) = 8"
    "length (av_ck (milenage_compute cr ctx rand sqn amf)) = 16"
    "length (av_ik (milenage_compute cr ctx rand sqn amf)) = 16"
    "length (av_ak (milenage_compute cr ctx rand sqn amf)) = 6"
proof -
  have aes: "length (aes128 cr k b) = 16" for k b using assms(1) by (simp add: aes128_def aes_len_def)
  show "length (mac_a (milenage_compute cr ctx rand sqn amf)) = 8"
    "length (av_res (milenage_compute cr ctx rand sqn amf)) = 8"
    "length (av_ck (milenage_compute cr ctx rand sqn amf)) = 16"
    "length (av_ik (milenage_compute cr ctx rand sqn amf)) = 16"
    "length (av_ak (milenage_compute cr ctx rand sqn amf)) = 6"
    using assms(3) aes by (simp_all add: milenage_compute_def Let_def)
qed

section \<open>Sequence numbers and AUTN\<close>

lemma length_Sqn_to_bytes [simp]: "length (Sqn_to_bytes s) = 6"
  by (simp add: Sqn_to_bytes_def Let_def)

lemma Sqn_to_bytes_to_be: "Sqn_to_bytes s = to_be 6 s"
  by (simp add: Sqn_to_bytes_def Let_def to_be64_def to_be_def numeral_eq_Suc)

lemma Sqn_from_to_bytes: "Sqn_from_bytes (Sqn_to_bytes s) = take_bit 48 s"
proof -
  have "Sqn_from_bytes (Sqn_to_bytes s) = from_be ([0, 0] @ Sqn_to_bytes s)"
    by (simp add: Sqn_from_bytes_def Sqn_to_bytes_def Let_def)
  also have "\<dots> = from_be (Sqn_to_bytes s)" by (simp add: from_be_def)
  also have "\<dots> = take_bit 48 s" by (simp add: Sqn_to_bytes_to_be from_be_to_be)
  finally show ?thesis .
qed

text \<open>The USIM recovers SQN by removing AK from the first six bytes of AUTN.\<close>

lemma autn_fields:
  assumes "length sqn = 6" "length (av_ak av) = 6" "length amf = 2"
  shows "xor_bytes (take 6 (autn av sqn amf)) (av_ak av) = sqn"
    "take 2 (drop 6 (autn av sqn amf)) = amf" "drop 8 (autn av sqn amf) = mac_a av"
  using assms by (simp_all add: autn_def xor_bytes_cancel)

end
