(* ===== verification/Hss.thy ===== *)
theory Hss
  imports Milenage
begin

text \<open>
  The in-memory subscriber server, \<open>crates/midn-core/src/hss.rs\<close>: a map from IMSI to the
  subscriber's Milenage context and sequence number. \<open>generate_auth_vector\<close> takes the fresh
  challenge as an argument. The theory shows that every stored SQN stays below 2 to the 48, what
  each answer to an interleaved sequence of requests is, and that the card of the standard,
  \<open>usim_answer\<close>, accepts the tokens made from the vectors.
\<close>

record HssAuthInfo =
  hi_rand :: bytes
  hi_vector :: AuthVector
  hi_sqn_used :: bytes

record SubscriberRecord =
  sr_ctx :: MilenageContext
  sr_sqn :: u64

type_synonym Hss = "u64 \<rightharpoonup> SubscriberRecord"

definition sqn_bytes :: "SubscriberRecord \<Rightarrow> bytes" where
  "sqn_bytes r = (let b = to_be64 (sr_sqn r) in [b ! 2, b ! 3, b ! 4, b ! 5, b ! 6, b ! 7])"

definition Hss_new :: Hss where
  "Hss_new = Map.empty"

definition provision :: "Hss \<Rightarrow> u64 \<Rightarrow> bytes \<Rightarrow> bytes \<Rightarrow> Hss" where
  "provision h imsi k opc = h(imsi \<mapsto> \<lparr>sr_ctx = MilenageContext_new k opc, sr_sqn = 0\<rparr>)"

definition provision_hex ::
    "(string \<Rightarrow> nat \<Rightarrow> 'e + bytes) \<Rightarrow> Hss \<Rightarrow> u64 \<Rightarrow> string \<Rightarrow> string \<Rightarrow> ('e + unit) \<times> Hss" where
  "provision_hex hexd h imsi k_hex opc_hex =
     (case AuthKey_from_hex hexd k_hex of
        Inl e \<Rightarrow> (Inl e, h)
      | Inr k \<Rightarrow> (case OpCode_from_hex hexd opc_hex of
                   Inl e \<Rightarrow> (Inl e, h)
                 | Inr opc \<Rightarrow> (Inr (), provision h imsi k opc)))"

definition provision_with_op :: "crypto \<Rightarrow> Hss \<Rightarrow> u64 \<Rightarrow> bytes \<Rightarrow> bytes \<Rightarrow> Hss" where
  "provision_with_op cr h imsi k opv =
     h(imsi \<mapsto> \<lparr>sr_ctx = MilenageContext_with_op cr k opv, sr_sqn = 0\<rparr>)"

definition deprovision :: "Hss \<Rightarrow> u64 \<Rightarrow> bool \<times> Hss" where
  "deprovision h imsi = (h imsi \<noteq> None, h(imsi := None))"

definition has_subscriber :: "Hss \<Rightarrow> u64 \<Rightarrow> bool" where
  "has_subscriber h imsi = (h imsi \<noteq> None)"

definition generate_auth_vector ::
    "crypto \<Rightarrow> bytes \<Rightarrow> Hss \<Rightarrow> u64 \<Rightarrow> HssAuthInfo option \<times> Hss" where
  "generate_auth_vector cr rand h imsi =
     (case h imsi of
        None \<Rightarrow> (None, h)
      | Some sub \<Rightarrow>
          let sqn_used = sqn_bytes sub;
              (r, vector) = generate_vector cr rand (sr_ctx sub) (Sqn_from_bytes sqn_used) [0x80, 0x00];
              sub' = sub\<lparr>sr_sqn := (sr_sqn sub + 1) AND 0x0000FFFFFFFFFFFF\<rparr>
          in (Some \<lparr>hi_rand = r, hi_vector = vector, hi_sqn_used = sqn_used\<rparr>, h(imsi \<mapsto> sub')))"

definition update_sqn :: "Hss \<Rightarrow> u64 \<Rightarrow> u64 \<Rightarrow> bool \<times> Hss" where
  "update_sqn h imsi new_sqn =
     (case h imsi of
        Some sub \<Rightarrow> (True, h(imsi \<mapsto> sub\<lparr>sr_sqn := new_sqn AND 0x0000FFFFFFFFFFFF\<rparr>))
      | None \<Rightarrow> (False, h))"

definition hss_sqn :: "Hss \<Rightarrow> u64 \<Rightarrow> u64 option" where
  "hss_sqn h imsi = map_option sr_sqn (h imsi)"

section \<open>Sequence numbers\<close>

lemma and_mask48: "(x :: u64) AND 0x0000FFFFFFFFFFFF = take_bit 48 x"
  by (simp add: take_bit_eq_mask mask_eq_exp_minus_1)

lemma sqn_bytes_Sqn: "sqn_bytes r = Sqn_to_bytes (sr_sqn r)"
  by (simp add: sqn_bytes_def Sqn_to_bytes_def)

definition hss_wf :: "Hss \<Rightarrow> bool" where
  "hss_wf h \<longleftrightarrow> (\<forall>imsi sub. h imsi = Some sub \<longrightarrow>
     length (mc_k (sr_ctx sub)) = 16 \<and> length (mc_opc (sr_ctx sub)) = 16 \<and> sr_sqn sub < 2 ^ 48)"

lemma take_bit48_less: "take_bit 48 (x :: u64) < 281474976710656"
  by (simp add: word_less_nat_alt unsigned_take_bit_eq take_bit_eq_mod unat_mod)

lemma unat_take_bit48_add: "unat (take_bit 48 (a + b :: u64)) = (unat a + unat b) mod 281474976710656"
  by (simp only: unsigned_take_bit_eq) (simp add: take_bit_eq_mod unat_word_ariths mod_mod_cancel)

lemma take_bit48_add_left: "take_bit 48 (take_bit 48 a + b) = take_bit 48 (a + b :: u64)"
  by (rule unsigned_word_eqI [where 'a = nat])
     (simp only: unat_take_bit48_add, simp add: unsigned_take_bit_eq take_bit_eq_mod unat_mod mod_simps)

lemma Sqn_to_bytes_take_bit [simp]: "Sqn_to_bytes (take_bit 48 s) = Sqn_to_bytes s"
  unfolding Sqn_to_bytes_to_be to_be_def
  by (intro map_cong refl bit_word_eqI) (auto simp: bit_simps)

lemma hss_wf_new [simp]: "hss_wf Hss_new"
  by (simp add: hss_wf_def Hss_new_def)

lemma hss_wf_provision: "hss_wf h \<Longrightarrow> length k = 16 \<Longrightarrow> length opc = 16 \<Longrightarrow> hss_wf (provision h imsi k opc)"
  by (simp add: hss_wf_def provision_def MilenageContext_new_def)

lemma hss_wf_provision_with_op:
  "aes_len cr \<Longrightarrow> hss_wf h \<Longrightarrow> length k = 16 \<Longrightarrow> length opv = 16 \<Longrightarrow> hss_wf (provision_with_op cr h imsi k opv)"
  by (simp add: hss_wf_def provision_with_op_def MilenageContext_with_op_def aes128_def aes_len_def)

lemma hss_wf_generate: "hss_wf h \<Longrightarrow> hss_wf (snd (generate_auth_vector cr rand h imsi))"
  by (auto simp: hss_wf_def generate_auth_vector_def Let_def and_mask48 take_bit48_less
      split: option.splits prod.splits)

lemma hss_wf_update_sqn: "hss_wf h \<Longrightarrow> hss_wf (snd (update_sqn h imsi n))"
  by (auto simp: hss_wf_def update_sqn_def and_mask48 take_bit48_less split: option.splits)

lemma hss_wf_deprovision: "hss_wf h \<Longrightarrow> hss_wf (snd (deprovision h imsi))"
  by (simp add: hss_wf_def deprovision_def)

lemma generate_auth_vector_Some:
  assumes "h imsi = Some sub"
  shows "generate_auth_vector cr rand h imsi =
    (Some \<lparr>hi_rand = rand,
       hi_vector = milenage_compute cr (sr_ctx sub) rand (Sqn_to_bytes (sr_sqn sub)) [0x80, 0x00],
       hi_sqn_used = Sqn_to_bytes (sr_sqn sub)\<rparr>,
     h(imsi \<mapsto> sub\<lparr>sr_sqn := take_bit 48 (sr_sqn sub + 1)\<rparr>))"
  using assms by (simp add: generate_auth_vector_def generate_vector_def sqn_bytes_Sqn
      Sqn_from_to_bytes and_mask48 Let_def)

section \<open>Serving requests\<close>

text \<open>Requests for vectors, one after the other: the subscriber asked for and the fresh challenge.\<close>

fun hss_serve :: "crypto \<Rightarrow> Hss \<Rightarrow> (u64 \<times> bytes) list \<Rightarrow> HssAuthInfo option list \<times> Hss" where
  "hss_serve cr h [] = ([], h)"
| "hss_serve cr h ((imsi, rand) # qs) =
     (let (x, h') = generate_auth_vector cr rand h imsi; (xs, h'') = hss_serve cr h' qs
      in (x # xs, h''))"

definition requests_for :: "u64 \<Rightarrow> (u64 \<times> bytes) list \<Rightarrow> nat" where
  "requests_for imsi qs = length (filter (\<lambda>q. fst q = imsi) qs)"

lemma requests_for_le: "requests_for imsi qs \<le> length qs"
  by (simp add: requests_for_def)

lemma requests_for_take_less:
  assumes "i < j" "j < length qs" "fst (qs ! i) = imsi"
  shows "requests_for imsi (take i qs) < requests_for imsi (take j qs)"
proof -
  have "take j qs = take (Suc i) qs @ take (j - Suc i) (drop (Suc i) qs)"
    using assms(1) by (metis Suc_leI le_add_diff_inverse take_add)
  also have "take (Suc i) qs = take i qs @ [qs ! i]"
    using assms(1,2) by (intro take_Suc_conv_app_nth) simp
  finally show ?thesis using assms(3) by (simp add: requests_for_def)
qed

text \<open>A subscriber after \<open>n\<close> of its requests.\<close>

definition advance_sqn :: "nat \<Rightarrow> SubscriberRecord \<Rightarrow> SubscriberRecord" where
  "advance_sqn n sub = sub\<lparr>sr_sqn := take_bit 48 (sr_sqn sub + of_nat n)\<rparr>"

lemma advance_sqn_Suc: "advance_sqn n (sub\<lparr>sr_sqn := take_bit 48 (sr_sqn sub + 1)\<rparr>) = advance_sqn (Suc n) sub"
  by (simp add: advance_sqn_def take_bit48_add_left add.assoc)

lemma hss_serve_state:
  "hss_wf h \<Longrightarrow> snd (hss_serve cr h qs) imsi = map_option (advance_sqn (requests_for imsi qs)) (h imsi)"
proof (induction qs arbitrary: h)
  case Nil
  have "advance_sqn 0 sub = sub" if "h imsi = Some sub" for sub
  proof -
    have "sr_sqn sub < 2 ^ 48" using Nil that by (simp add: hss_wf_def)
    then have "unat (sr_sqn sub) < 281474976710656" by (simp add: word_less_nat_alt)
    then have "take_bit 48 (sr_sqn sub) = sr_sqn sub"
      by (intro unsigned_word_eqI [where 'a = nat]) (simp add: unsigned_take_bit_eq take_bit_eq_mod unat_mod)
    then show ?thesis by (simp add: advance_sqn_def)
  qed
  then show ?case by (cases "h imsi") (simp_all add: requests_for_def)
next
  case (Cons q qs)
  obtain im rand where q: "q = (im, rand)" by fastforce
  let ?h = "snd (generate_auth_vector cr rand h im)"
  have "snd (hss_serve cr h (q # qs)) imsi = map_option (advance_sqn (requests_for imsi qs)) (?h imsi)"
    using Cons.IH [OF hss_wf_generate [OF Cons.prems]] by (simp add: q split_beta)
  also have "\<dots> = map_option (advance_sqn (requests_for imsi (q # qs))) (h imsi)"
  proof (cases "h im")
    case None
    then show ?thesis by (auto simp: generate_auth_vector_def q requests_for_def)
  next
    case (Some sub)
    then show ?thesis
      by (simp add: generate_auth_vector_Some [of h im sub, OF Some] q requests_for_def advance_sqn_Suc)
  qed
  finally show ?case .
qed

lemma length_hss_serve [simp]: "length (fst (hss_serve cr h qs)) = length qs"
  by (induction qs arbitrary: h) (auto simp: split_beta)

lemma hss_serve_nth:
  "i < length qs \<Longrightarrow> fst (hss_serve cr h qs) ! i =
     fst (generate_auth_vector cr (snd (qs ! i)) (snd (hss_serve cr h (take i qs))) (fst (qs ! i)))"
proof (induction qs arbitrary: h i)
  case (Cons q qs)
  show ?case
  proof (cases i)
    case (Suc k)
    then show ?thesis using Cons.IH [of k "snd (generate_auth_vector cr (snd q) h (fst q))"] Cons.prems
      by (cases q) (simp add: split_beta)
  qed (cases q, simp add: split_beta)
qed simp

lemma hss_answer:
  assumes "hss_wf h" "i < length qs" "qs ! i = (imsi, rand)"
  shows "fst (hss_serve cr h qs) ! i = map_option (\<lambda>sub.
    (let sqn = Sqn_to_bytes (sr_sqn sub + of_nat (requests_for imsi (take i qs))) in
     \<lparr>hi_rand = rand, hi_vector = milenage_compute cr (sr_ctx sub) rand sqn [0x80, 0x00], hi_sqn_used = sqn\<rparr>)) (h imsi)"
proof (cases "h imsi")
  case None
  then show ?thesis
    using assms by (simp add: hss_serve_nth generate_auth_vector_def hss_serve_state)
next
  case (Some sub)
  then have "snd (hss_serve cr h (take i qs)) imsi = Some (advance_sqn (requests_for imsi (take i qs)) sub)"
    by (simp add: hss_serve_state [OF assms(1)])
  then show ?thesis
    using assms Some by (simp add: hss_serve_nth generate_auth_vector_Some Let_def) (simp add: advance_sqn_def)
qed

text \<open>Fewer than \<open>2\<^sup>48\<close> steps of the sequence number do not return to the same bytes.\<close>

lemma unat_Sqn_bytes:
  "n < 281474976710656 \<Longrightarrow>
   unat (Sqn_from_bytes (Sqn_to_bytes (s + of_nat n))) = (unat s + n) mod 281474976710656"
  by (simp only: Sqn_from_to_bytes unat_take_bit48_add) (simp add: unat_of_nat take_bit_nat_eq_self)

lemma Sqn_steps_inject:
  assumes "Sqn_to_bytes (s + of_nat i) = Sqn_to_bytes (s + of_nat j)"
    and b: "i < 281474976710656" "j < 281474976710656"
  shows "i = j"
proof -
  have "(unat s + i) mod 281474976710656 = (unat s + j) mod 281474976710656"
    using assms by (metis unat_Sqn_bytes)
  then obtain p q where "i + 281474976710656 * p = j + 281474976710656 * q"
    unfolding nat_mod_eq_iff by auto
  then have "(i + 281474976710656 * p) mod 281474976710656 = (j + 281474976710656 * q) mod 281474976710656" by simp
  then show "i = j" using b by simp
qed

section \<open>The subscriber's card\<close>

text \<open>
  What the card of TS 33.102 does with a challenge and a token, on the functions of the standard: the
  anonymity key uncovers the sequence number, and the token is accepted if its authentication
  code is the one computed with that number.
\<close>

definition usim_answer :: "crypto \<Rightarrow> bytes \<Rightarrow> bytes \<Rightarrow> bytes \<Rightarrow> bytes \<Rightarrow> (bytes \<times> AuthVector) option" where
  "usim_answer cr k opc rand tok =
     (let ak = av_ak (milenage_spec cr k opc rand (replicate 6 0) [0, 0]);
          sqn = xor_bytes (take 6 tok) ak;
          av = milenage_spec cr k opc rand sqn (take 2 (drop 6 tok))
      in if mac_a av = drop 8 tok then Some (sqn, av) else None)"

lemma usim_accepts_token:
  assumes "aes_len cr" "length opc = 16" "length sqn = 6" "length amf = 2"
  shows "usim_answer cr k opc rand (autn (milenage_spec cr k opc rand sqn amf) sqn amf) =
    Some (sqn, milenage_spec cr k opc rand sqn amf)"
proof -
  let ?av = "milenage_spec cr k opc rand sqn amf"
  have "length (aes128 cr k b) = 16" for b using assms(1) by (simp add: aes128_def aes_len_def)
  then have "length (av_ak ?av) = 6" using assms(2) by (simp add: milenage_spec_def spec_out_def Let_def)
  note f = autn_fields [OF assms(3) this assms(4)]
  have "av_ak (milenage_spec cr k opc rand (replicate 6 0) [0, 0]) = av_ak ?av" by (simp add: milenage_spec_def Let_def)
  then show ?thesis by (simp add: usim_answer_def Let_def f)
qed

lemma hss_answer_vector:
  assumes "aes_len cr" "hss_wf h" "i < length qs" "qs ! i = (imsi, rand)" "length rand = 16"
    and "h imsi = Some sub" "requests_for imsi (take i qs) < 281474976710656"
  shows "\<exists>sqn v. fst (hss_serve cr h qs) ! i = Some \<lparr>hi_rand = rand, hi_vector = v, hi_sqn_used = sqn\<rparr> \<and>
    unat (Sqn_from_bytes sqn) = (unat (sr_sqn sub) + requests_for imsi (take i qs)) mod 2 ^ 48 \<and>
    v = milenage_spec cr (mc_k (sr_ctx sub)) (mc_opc (sr_ctx sub)) rand sqn [0x80, 0x00] \<and>
    usim_answer cr (mc_k (sr_ctx sub)) (mc_opc (sr_ctx sub)) rand (autn v sqn [0x80, 0x00]) = Some (sqn, v)"
proof -
  have opc: "length (mc_opc (sr_ctx sub)) = 16" using assms(2,6) by (simp add: hss_wf_def)
  let ?sqn = "Sqn_to_bytes (sr_sqn sub + of_nat (requests_for imsi (take i qs)))"
  let ?v = "milenage_compute cr (sr_ctx sub) rand ?sqn [0x80, 0x00]"
  have v: "?v = milenage_spec cr (mc_k (sr_ctx sub)) (mc_opc (sr_ctx sub)) rand ?sqn [0x80, 0x00]"
    by (rule milenage_compute_spec [OF assms(1,5) opc]) simp_all
  have "fst (hss_serve cr h qs) ! i = Some \<lparr>hi_rand = rand, hi_vector = ?v, hi_sqn_used = ?sqn\<rparr>"
    using hss_answer [OF assms(2-4), of cr] assms(6) by (simp add: Let_def)
  with v unat_Sqn_bytes [OF assms(7), of "sr_sqn sub"] usim_accepts_token [OF assms(1) opc, of ?sqn "[0x80, 0x00]"]
  show ?thesis by (intro exI [of _ ?sqn] exI [of _ ?v] conjI) simp_all
qed

lemma hss_answer_sqn:
  assumes "hss_wf h" "i < length qs" "fst (qs ! i) = imsi" "h imsi = Some sub"
  shows "map_option hi_sqn_used (fst (hss_serve cr h qs) ! i) =
    Some (Sqn_to_bytes (sr_sqn sub + of_nat (requests_for imsi (take i qs))))"
proof -
  have "qs ! i = (imsi, snd (qs ! i))" using assms(3) by (simp add: prod_eq_iff)
  from hss_answer [OF assms(1,2) this, of cr] show ?thesis using assms(4) by (simp add: Let_def)
qed

lemma hss_sqns_differ:
  assumes "hss_wf h" "i < j" "j < length qs" "fst (qs ! i) = imsi" "fst (qs ! j) = imsi" "h imsi = Some sub"
    and "requests_for imsi (take j qs) < 281474976710656"
  shows "map_option hi_sqn_used (fst (hss_serve cr h qs) ! i) \<noteq> map_option hi_sqn_used (fst (hss_serve cr h qs) ! j)"
proof
  let ?n = "\<lambda>k. requests_for imsi (take k qs)"
  have n: "?n i < ?n j" by (rule requests_for_take_less [OF assms(2-4)])
  assume "map_option hi_sqn_used (fst (hss_serve cr h qs) ! i) = map_option hi_sqn_used (fst (hss_serve cr h qs) ! j)"
  then have "Sqn_to_bytes (sr_sqn sub + of_nat (?n i)) = Sqn_to_bytes (sr_sqn sub + of_nat (?n j))"
    using assms by (simp add: hss_answer_sqn [where sub = sub])
  from Sqn_steps_inject [OF this less_trans [OF n assms(7)] assms(7)] n show False by simp
qed

end
