(* ===== verification/Kdf.thy ===== *)
theory Kdf
  imports Midn_Crypto
begin

text \<open>
  The 3GPP key derivation function and the key hierarchies built on it,
  \<open>crates/midn-core/src/kdf.rs\<close>. The derivation input is \<open>FC\<close> followed by each parameter and its
  16-bit length. The theory shows that for one function code and parameter sizes that fit
  in 16 bits the input string determines the parameters, so different serving networks or
  subscribers never share a derivation input.
\<close>

definition FC_KASME_DERIVATION :: u8 where "FC_KASME_DERIVATION = 0x10"
definition FC_KAUSF_DERIVATION :: u8 where "FC_KAUSF_DERIVATION = 0x6A"
definition FC_RES_STAR_DERIVATION :: u8 where "FC_RES_STAR_DERIVATION = 0x6B"
definition FC_KSEAF_DERIVATION :: u8 where "FC_KSEAF_DERIVATION = 0x6C"
definition FC_KAMF_DERIVATION :: u8 where "FC_KAMF_DERIVATION = 0x6D"

text \<open>The bytes that go into the MAC, in the order of the \<open>update\<close> calls.\<close>

definition kdf_input :: "u8 \<Rightarrow> bytes list \<Rightarrow> bytes" where
  "kdf_input fc params = [fc] @ concat (map (\<lambda>p. p @ to_be16 (of_nat (length p))) params)"

definition kdf_generic :: "crypto \<Rightarrow> bytes \<Rightarrow> u8 \<Rightarrow> bytes list \<Rightarrow> bytes" where
  "kdf_generic cr key fc params = hmac_sha256 cr key (kdf_input fc params)"

definition derive_kasme :: "crypto \<Rightarrow> bytes \<Rightarrow> bytes \<Rightarrow> bytes \<Rightarrow> bytes \<Rightarrow> bytes" where
  "derive_kasme cr ck ik sn_id sqn_xor_ak =
     kdf_generic cr (ck @ ik) FC_KASME_DERIVATION [sn_id, sqn_xor_ak]"

definition serving_network_name :: "bytes \<Rightarrow> bytes" where
  "serving_network_name plmn =
     map of_char ''5G:mnc-mcc.'' @ plmn @ map of_char ''.3gppnetwork.org''"

definition derive_kausf :: "crypto \<Rightarrow> bytes \<Rightarrow> bytes \<Rightarrow> bytes \<Rightarrow> bytes \<Rightarrow> bytes" where
  "derive_kausf cr ck ik snn sqn_xor_ak =
     kdf_generic cr (ck @ ik) FC_KAUSF_DERIVATION [snn, sqn_xor_ak]"

definition derive_res_star :: "crypto \<Rightarrow> bytes \<Rightarrow> bytes \<Rightarrow> bytes \<Rightarrow> bytes \<Rightarrow> bytes \<Rightarrow> bytes" where
  "derive_res_star cr ck ik snn rand res =
     drop 16 (kdf_generic cr (ck @ ik) FC_RES_STAR_DERIVATION [snn, rand, res])"

definition derive_kseaf :: "crypto \<Rightarrow> bytes \<Rightarrow> bytes \<Rightarrow> bytes" where
  "derive_kseaf cr kausf snn = kdf_generic cr kausf FC_KSEAF_DERIVATION [snn]"

definition derive_kamf :: "crypto \<Rightarrow> bytes \<Rightarrow> bytes \<Rightarrow> bytes \<Rightarrow> bytes" where
  "derive_kamf cr kseaf supi abba = kdf_generic cr kseaf FC_KAMF_DERIVATION [supi, abba]"

section \<open>The input string determines the parameters\<close>

lemma suffix_param:
  assumes "length p < 65536" "length q < 65536"
    "as @ p @ to_be16 (of_nat (length p)) = bs @ q @ to_be16 (of_nat (length q))"
  shows "p = q \<and> as = bs"
proof -
  have "to_be16 (of_nat (length p)) = to_be16 (of_nat (length q))"
    using assms(3) by (metis append.assoc append_eq_append_conv length_to_be(1))
  then have "(of_nat (length p) :: u16) = of_nat (length q)" by (metis from_be_to_be16)
  then have "length p = length q" using assms(1,2) by (metis unat_of_nat_u16)
  with assms(3) show ?thesis by (metis append.assoc append_eq_append_conv length_to_be(1))
qed

lemma kdf_input_inject:
  assumes "length ps = length qs" "list_all (\<lambda>p. length p < 65536) (ps @ qs)"
    "kdf_input fc ps = kdf_input fc qs"
  shows "ps = qs"
proof -
  let ?c = "\<lambda>ps. concat (map (\<lambda>p. p @ to_be16 (of_nat (length p))) ps) :: bytes"
  have "?c ps = ?c qs" using assms(3) by (simp add: kdf_input_def)
  then show ?thesis using assms(1,2)
  proof (induction ps arbitrary: qs rule: rev_induct)
    case Nil
    then show ?case by simp
  next
    case (snoc p ps)
    then obtain qs' q where qs: "qs = qs' @ [q]" by (metis length_0_conv rev_exhaust snoc_eq_iff_butlast)
    from snoc.prems(1) have "?c ps @ p @ to_be16 (of_nat (length p)) = ?c qs' @ q @ to_be16 (of_nat (length q))"
      by (simp add: qs)
    then have "p = q \<and> ?c ps = ?c qs'"
      using snoc.prems(3) by (intro suffix_param) (simp_all add: qs)
    with snoc qs show ?case by simp
  qed
qed

lemma serving_network_name_inject:
  "length p = length q \<Longrightarrow> serving_network_name p = serving_network_name q \<longleftrightarrow> p = q"
  by (auto simp: serving_network_name_def)

lemma length_kdf_generic: "hmac_len cr \<Longrightarrow> length (kdf_generic cr key fc ps) = 32"
  by (simp add: kdf_generic_def hmac_len_def)

end
