(* ===== verification/Nas_Codec.thy ===== *)
theory Nas_Codec
  imports Nas_Security
begin

text \<open>
  The LTE NAS codec, \<open>crates/midn-proto/src/nas/codec.rs\<close>: encoders of the attach and detach
  messages, the dispatching decoder, and the protected envelope around a plain message. A
  Rust \<open>String\<close> is modelled by its UTF-8 bytes; \<open>String::from_utf8\<close> is \<open>valid_utf8\<close>. Arithmetic
  on \<open>u8\<close> wraps. The theory proves that the decoder returns what each encoder was given
  and that an envelope opens at the other end of the connection.
\<close>

section \<open>Constants\<close>

definition NAS_EPS_MM_PD :: u8 where "NAS_EPS_MM_PD = 0x07"
definition NAS_PLAIN_HEADER :: u8 where "NAS_PLAIN_HEADER = 0x07"
definition MT_ATTACH_REQUEST :: u8 where "MT_ATTACH_REQUEST = 0x41"
definition MT_ATTACH_ACCEPT :: u8 where "MT_ATTACH_ACCEPT = 0x42"
definition MT_ATTACH_COMPLETE :: u8 where "MT_ATTACH_COMPLETE = 0x43"
definition MT_DETACH_REQUEST :: u8 where "MT_DETACH_REQUEST = 0x45"
definition MT_DETACH_ACCEPT :: u8 where "MT_DETACH_ACCEPT = 0x46"
definition MT_AUTHENTICATION_REQUEST :: u8 where "MT_AUTHENTICATION_REQUEST = 0x52"
definition MT_AUTHENTICATION_RESPONSE :: u8 where "MT_AUTHENTICATION_RESPONSE = 0x53"
definition MT_AUTHENTICATION_REJECT :: u8 where "MT_AUTHENTICATION_REJECT = 0x54"
definition MT_SECURITY_MODE_COMMAND :: u8 where "MT_SECURITY_MODE_COMMAND = 0x5D"
definition MT_SECURITY_MODE_COMPLETE :: u8 where "MT_SECURITY_MODE_COMPLETE = 0x5E"
definition MT_SECURITY_MODE_REJECT :: u8 where "MT_SECURITY_MODE_REJECT = 0x5F"
definition IEI_GUTI :: u8 where "IEI_GUTI = 0x50"
definition IEI_APN :: u8 where "IEI_APN = 0x28"
definition IEI_PDN_ADDR :: u8 where "IEI_PDN_ADDR = 0x29"
definition SHT_PLAIN :: u8 where "SHT_PLAIN = 0"
definition SHT_INTEGRITY :: u8 where "SHT_INTEGRITY = 1"
definition SHT_INTEGRITY_CIPHERED :: u8 where "SHT_INTEGRITY_CIPHERED = 2"
definition SHT_INTEGRITY_NEW_CTX :: u8 where "SHT_INTEGRITY_NEW_CTX = 3"
definition SHT_INTEGRITY_CIPHERED_NEW_CTX :: u8 where "SHT_INTEGRITY_CIPHERED_NEW_CTX = 4"

lemmas nas_consts = NAS_EPS_MM_PD_def NAS_PLAIN_HEADER_def MT_ATTACH_REQUEST_def
  MT_ATTACH_ACCEPT_def MT_ATTACH_COMPLETE_def MT_DETACH_REQUEST_def MT_DETACH_ACCEPT_def
  MT_AUTHENTICATION_REQUEST_def MT_AUTHENTICATION_RESPONSE_def MT_AUTHENTICATION_REJECT_def
  MT_SECURITY_MODE_COMMAND_def MT_SECURITY_MODE_COMPLETE_def MT_SECURITY_MODE_REJECT_def
  IEI_GUTI_def IEI_APN_def IEI_PDN_ADDR_def SHT_PLAIN_def SHT_INTEGRITY_def
  SHT_INTEGRITY_CIPHERED_def SHT_INTEGRITY_NEW_CTX_def SHT_INTEGRITY_CIPHERED_NEW_CTX_def

section \<open>UTF-8\<close>

definition utf8_cont :: "u8 \<Rightarrow> bool" where
  "utf8_cont b \<longleftrightarrow> 0x80 \<le> b \<and> b \<le> 0xBF"

fun valid_utf8 :: "bytes \<Rightarrow> bool" where
  "valid_utf8 [] \<longleftrightarrow> True"
| "valid_utf8 (b # bs) \<longleftrightarrow>
     (if b < 0x80 then valid_utf8 bs
      else if 0xC2 \<le> b \<and> b \<le> 0xDF then
        (case bs of c # r \<Rightarrow> utf8_cont c \<and> valid_utf8 r | _ \<Rightarrow> False)
      else if 0xE0 \<le> b \<and> b \<le> 0xEF then
        (case bs of c # d # r \<Rightarrow>
           utf8_cont c \<and> (b = 0xE0 \<longrightarrow> 0xA0 \<le> c) \<and> (b = 0xED \<longrightarrow> c \<le> 0x9F) \<and> utf8_cont d \<and>
           valid_utf8 r
         | _ \<Rightarrow> False)
      else if 0xF0 \<le> b \<and> b \<le> 0xF4 then
        (case bs of c # d # e # r \<Rightarrow>
           utf8_cont c \<and> (b = 0xF0 \<longrightarrow> 0x90 \<le> c) \<and> (b = 0xF4 \<longrightarrow> c \<le> 0x8F) \<and> utf8_cont d \<and>
           utf8_cont e \<and> valid_utf8 r
         | _ \<Rightarrow> False)
      else False)"

section \<open>Decoded messages\<close>

record DecodedAttachRequest =
  ar_eps_attach_type :: u8
  ar_nas_ksi :: u8
  ar_imsi :: "u64 option"
  ar_ue_network_cap :: bytes

record DecodedAuthenticationRequest =
  aq_nas_ksi :: u8
  aq_rand :: bytes
  aq_autn :: bytes

record DecodedAuthenticationResponse =
  ap_res :: bytes

record DecodedSecurityModeCommand =
  smc_eea :: NasEeaAlgorithm
  smc_eia :: NasEiaAlgorithm
  smc_nas_ksi :: u8

record DecodedAttachAccept =
  aa_attach_result :: u8
  aa_t3412_value :: u8
  aa_guti :: "bytes option"
  aa_ip_address :: "bytes option"
  aa_apn :: "bytes option"

record DecodedDetachRequest =
  dr_detach_type :: u8
  dr_switch_off :: bool
  dr_nas_ksi :: u8

datatype NasPdu =
    AttachRequest DecodedAttachRequest
  | AuthenticationRequest DecodedAuthenticationRequest
  | AuthenticationResponse DecodedAuthenticationResponse
  | SecurityModeCommand DecodedSecurityModeCommand
  | SecurityModeComplete
  | AttachAccept DecodedAttachAccept
  | AttachComplete
  | DetachRequest DecodedDetachRequest
  | DetachAccept

section \<open>Attach request\<close>

definition decode_attach_request :: "bytes \<Rightarrow> NasPdu result" where
  "decode_attach_request body =
     (if body = [] then Inl (TooShort 3 0)
      else
        bind_res (ok_or (read_lv (drop 1 body)) (MalformedNas ''missing mobile identity''))
          (\<lambda>(identity_bytes, rest).
             Inr (AttachRequest \<lparr>
               ar_eps_attach_type = body ! 0 AND 0x07,
               ar_nas_ksi = drop_bit 4 (body ! 0) AND 0x07,
               ar_imsi = decode_imsi identity_bytes,
               ar_ue_network_cap = (case read_lv rest of Some (cap, _) \<Rightarrow> cap | None \<Rightarrow> [])\<rparr>)))"

definition encode_attach_request :: "u64 \<Rightarrow> u8 \<Rightarrow> u8 \<Rightarrow> bytes" where
  "encode_attach_request imsi eps_attach_type nas_ksi =
     (let buf = [NAS_PLAIN_HEADER, MT_ATTACH_REQUEST];
          buf = buf @ [push_bit 4 (nas_ksi AND 0x07) OR (eps_attach_type AND 0x07)];
          buf = write_lv buf (encode_imsi imsi)
      in write_lv buf [0x20, 0x40])"

section \<open>Authentication request and response\<close>

definition decode_auth_request :: "bytes \<Rightarrow> NasPdu result" where
  "decode_auth_request body =
     (if length body < 1 then Inl (TooShort 35 (length body))
      else
        let nas_ksi = drop_bit 4 (body ! 0) AND 0x07 in
        bind_res (ok_or (read_lv (drop 1 body)) (MalformedNas ''missing RAND''))
          (\<lambda>(rand_bytes, rest).
             if length rand_bytes \<noteq> 16 then Inl (MalformedNas ''RAND must be exactly 16 bytes'')
             else
               bind_res (ok_or (read_lv rest) (MalformedNas ''missing AUTN''))
                 (\<lambda>(autn_bytes, _).
                    if length autn_bytes \<noteq> 16 then Inl (MalformedNas ''AUTN must be exactly 16 bytes'')
                    else Inr (AuthenticationRequest
                           \<lparr>aq_nas_ksi = nas_ksi, aq_rand = rand_bytes, aq_autn = autn_bytes\<rparr>))))"

definition encode_auth_request :: "u8 \<Rightarrow> bytes \<Rightarrow> bytes \<Rightarrow> bytes" where
  "encode_auth_request nas_ksi rand autn =
     (let buf = [NAS_PLAIN_HEADER, MT_AUTHENTICATION_REQUEST];
          buf = buf @ [push_bit 4 (nas_ksi AND 0x07)]
      in write_lv (write_lv buf rand) autn)"

definition decode_auth_response :: "bytes \<Rightarrow> NasPdu result" where
  "decode_auth_response body =
     bind_res (ok_or (read_lv body) (MalformedNas ''missing RES''))
       (\<lambda>(res_bytes, _).
          if length res_bytes \<noteq> 8 then Inl (MalformedNas ''RES must be exactly 8 bytes'')
          else Inr (AuthenticationResponse \<lparr>ap_res = res_bytes\<rparr>))"

definition encode_auth_response :: "bytes \<Rightarrow> bytes" where
  "encode_auth_response res = write_lv [NAS_PLAIN_HEADER, MT_AUTHENTICATION_RESPONSE] res"

section \<open>Security mode\<close>

definition decode_sec_mode_cmd :: "bytes \<Rightarrow> NasPdu result" where
  "decode_sec_mode_cmd body =
     (if length body < 2 then Inl (TooShort 2 (length body))
      else
        let (eea, eia) = decode_security_algorithms (body ! 0);
            nas_ksi = drop_bit 4 (body ! 1) AND 0x07
        in Inr (SecurityModeCommand \<lparr>smc_eea = eea, smc_eia = eia, smc_nas_ksi = nas_ksi\<rparr>))"

definition encode_sec_mode_cmd :: "NasEeaAlgorithm \<Rightarrow> NasEiaAlgorithm \<Rightarrow> u8 \<Rightarrow> bytes \<Rightarrow> bytes" where
  "encode_sec_mode_cmd eea eia nas_ksi ue_cap =
     (let buf = [NAS_PLAIN_HEADER, MT_SECURITY_MODE_COMMAND];
          buf = buf @ [encode_security_algorithms eea eia];
          buf = buf @ [push_bit 4 (nas_ksi AND 0x07)]
      in write_lv buf ue_cap)"

definition encode_sec_mode_complete :: bytes where
  "encode_sec_mode_complete = [NAS_PLAIN_HEADER, MT_SECURITY_MODE_COMPLETE]"

section \<open>Attach accept and complete\<close>

function attach_accept_ies ::
    "bytes \<Rightarrow> bytes option \<times> bytes option \<times> bytes option \<Rightarrow> bytes option \<times> bytes option \<times> bytes option" where
  "attach_accept_ies remaining (guti, ip_address, apn) =
     (if length remaining \<ge> 2 then
        if remaining ! 0 = IEI_GUTI then
          (case Option.bind (find_tlv remaining IEI_GUTI) read_tlv of
             Some (_, val, r) \<Rightarrow>
               attach_accept_ies r (if length val = 10 then Some val else guti, ip_address, apn)
           | None \<Rightarrow> (guti, ip_address, apn))
        else if remaining ! 0 = IEI_PDN_ADDR then
          (case read_tlv remaining of
             Some (_, val, r) \<Rightarrow>
               attach_accept_ies r
                 (guti, if length val \<ge> 5 \<and> val ! 0 = 0x01 then Some (take 4 (drop 1 val)) else ip_address,
                  apn)
           | None \<Rightarrow> (guti, ip_address, apn))
        else if remaining ! 0 = IEI_APN then
          (case read_tlv remaining of
             Some (_, val, r) \<Rightarrow>
               attach_accept_ies r (guti, ip_address, if valid_utf8 val then Some val else None)
           | None \<Rightarrow> (guti, ip_address, apn))
        else
          let skip = unat (remaining ! 1) + 2 in
          if length remaining < skip then (guti, ip_address, apn)
          else attach_accept_ies (drop skip remaining) (guti, ip_address, apn)
      else (guti, ip_address, apn))"
  by pat_completeness auto
termination
  by (relation "measure (\<lambda>(remaining, acc). length remaining)")
     (auto simp: bind_eq_Some_conv dest!: read_tlv_length find_tlv_length)

declare attach_accept_ies.simps [simp del]

definition decode_attach_accept :: "bytes \<Rightarrow> NasPdu result" where
  "decode_attach_accept body =
     (if length body < 2 then Inl (TooShort 2 (length body))
      else
        let rest = drop 2 body;
            rest = (case read_lv rest of Some (_, r) \<Rightarrow> r | None \<Rightarrow> rest);
            (guti, ip_address, apn) = attach_accept_ies rest (None, None, None)
        in Inr (AttachAccept \<lparr>aa_attach_result = body ! 0 AND 0x07, aa_t3412_value = body ! 1,
                  aa_guti = guti, aa_ip_address = ip_address, aa_apn = apn\<rparr>))"

definition encode_attach_accept ::
    "u8 \<Rightarrow> u8 \<Rightarrow> bytes list \<Rightarrow> bytes option \<Rightarrow> bytes option \<Rightarrow> bytes" where
  "encode_attach_accept attach_result t3412_value tai_list ip_address apn =
     (let buf = [NAS_PLAIN_HEADER, MT_ATTACH_ACCEPT, attach_result AND 0x07, t3412_value];
          buf = (if tai_list = [] then write_lv buf []
                 else write_lv buf ([(of_nat (length tai_list) - 1) OR 0x18] @ concat tai_list));
          buf = (case ip_address of
                   Some ip \<Rightarrow> write_tlv buf IEI_PDN_ADDR ([0x01] @ ip) | None \<Rightarrow> buf)
      in case apn of Some apn_str \<Rightarrow> write_tlv buf IEI_APN apn_str | None \<Rightarrow> buf)"

definition encode_attach_complete :: bytes where
  "encode_attach_complete = [NAS_PLAIN_HEADER, MT_ATTACH_COMPLETE]"

section \<open>Detach\<close>

definition decode_detach_request :: "bytes \<Rightarrow> NasPdu result" where
  "decode_detach_request body =
     (if body = [] then Inl (TooShort 1 0)
      else
        let byte = body ! 0 in
        Inr (DetachRequest \<lparr>dr_detach_type = byte AND 0x07,
               dr_switch_off = (drop_bit 3 byte AND 0x01 \<noteq> 0),
               dr_nas_ksi = drop_bit 4 byte AND 0x07\<rparr>))"

definition encode_detach_request :: "u8 \<Rightarrow> bool \<Rightarrow> u8 \<Rightarrow> bytes \<Rightarrow> bytes" where
  "encode_detach_request detach_type switch_off nas_ksi guti =
     (let byte = push_bit 4 (nas_ksi AND 0x07) OR push_bit 3 (of_bool switch_off AND 0x01)
                 OR (detach_type AND 0x07)
      in write_lv ([NAS_PLAIN_HEADER, MT_DETACH_REQUEST] @ [byte]) guti)"

definition encode_detach_accept :: bytes where
  "encode_detach_accept = [NAS_PLAIN_HEADER, MT_DETACH_ACCEPT]"

section \<open>The dispatching decoder\<close>

definition decode_nas :: "bytes \<Rightarrow> NasPdu result" where
  "decode_nas buf =
     (if length buf < 2 then Inl (TooShort 2 (length buf))
      else
        let pd = buf ! 0 AND 0x0F; sht = drop_bit 4 (buf ! 0) AND 0x0F in
        if pd \<noteq> NAS_EPS_MM_PD AND 0x0F then
          Inl (MalformedNas ''expected EPS-MM protocol discriminator 0x7'')
        else if sht \<noteq> 0 then Inl (MalformedNas ''protected NAS not supported in Phase 2'')
        else
          let msg_type = buf ! 1; body = drop 2 buf in
          if msg_type = MT_ATTACH_REQUEST then decode_attach_request body
          else if msg_type = MT_AUTHENTICATION_REQUEST then decode_auth_request body
          else if msg_type = MT_AUTHENTICATION_RESPONSE then decode_auth_response body
          else if msg_type = MT_SECURITY_MODE_COMMAND then decode_sec_mode_cmd body
          else if msg_type = MT_SECURITY_MODE_COMPLETE then Inr SecurityModeComplete
          else if msg_type = MT_ATTACH_ACCEPT then decode_attach_accept body
          else if msg_type = MT_ATTACH_COMPLETE then Inr AttachComplete
          else if msg_type = MT_DETACH_REQUEST then decode_detach_request body
          else if msg_type = MT_DETACH_ACCEPT then Inr DetachAccept
          else Inl (UnknownGtpMsgType msg_type))"

section \<open>The protected envelope\<close>

definition nas_envelope :: "u8 \<Rightarrow> ProtectedNas \<Rightarrow> bytes" where
  "nas_envelope sht p =
     [push_bit 4 sht OR NAS_EPS_MM_PD] @ pn_mac_i p @ [ucast (pn_count p AND 0xFF)] @ pn_payload p"

definition encode_protected ::
    "crypto \<Rightarrow> u8 \<Rightarrow> u8 \<Rightarrow> NasSecurityContext \<Rightarrow> bytes \<Rightarrow> bytes \<times> NasSecurityContext" where
  "encode_protected cr sht bearer ctx inner_plain =
     (let (p, ctx) = protect_downlink cr ctx bearer inner_plain in (nas_envelope sht p, ctx))"

definition decode_protected ::
    "crypto \<Rightarrow> u8 \<Rightarrow> NasSecurityContext \<Rightarrow> bytes \<Rightarrow> bytes option \<times> NasSecurityContext" where
  "decode_protected cr bearer ctx buf =
     (if length buf < 6 then (None, ctx)
      else if drop_bit 4 (buf ! 0) AND 0x0F = 0 then (None, ctx)
      else unprotect_uplink cr ctx bearer (buf ! 5) (take 4 (drop 1 buf)) (drop 6 buf))"

definition encode_protected_uplink ::
    "crypto \<Rightarrow> u8 \<Rightarrow> u8 \<Rightarrow> NasSecurityContext \<Rightarrow> bytes \<Rightarrow> bytes \<times> NasSecurityContext" where
  "encode_protected_uplink cr sht bearer ctx inner_plain =
     (let (p, ctx) = protect_uplink cr ctx bearer inner_plain in (nas_envelope sht p, ctx))"

definition decode_protected_downlink ::
    "crypto \<Rightarrow> u8 \<Rightarrow> NasSecurityContext \<Rightarrow> bytes \<Rightarrow> bytes option \<times> NasSecurityContext" where
  "decode_protected_downlink cr bearer ctx buf =
     (if length buf < 6 then (None, ctx)
      else if drop_bit 4 (buf ! 0) AND 0x0F = 0 then (None, ctx)
      else unprotect_downlink cr ctx bearer (buf ! 5) (take 4 (drop 1 buf)) (drop 6 buf))"

section \<open>Bit fields\<close>

lemma ksi_type_fields:
  "(push_bit 4 (k AND 7) OR (t AND 7)) AND 7 = (t AND 7 :: u8)"
  "drop_bit 4 (push_bit 4 (k AND 7) OR (t AND 7)) AND 7 = (k AND 7 :: u8)"
  "drop_bit 4 (push_bit 4 (k AND 7)) AND 7 = (k AND 7 :: u8)"
  unfolding u8_low_three by (rule bit_word_eqI; auto simp: bit_simps)+

lemma detach_fields:
  fixes k t :: u8 and s :: bool
  defines "b \<equiv> push_bit 4 (k AND 7) OR push_bit 3 (of_bool s AND 1) OR (t AND 7)"
  shows "b AND 7 = t AND 7" "drop_bit 3 b AND 1 \<noteq> 0 \<longleftrightarrow> s" "drop_bit 4 b AND 7 = k AND 7"
proof -
  show "b AND 7 = t AND 7" "drop_bit 4 b AND 7 = k AND 7"
    unfolding b_def u8_low_three by (rule bit_word_eqI; auto simp: bit_simps)+
  have "bit b 3 \<longleftrightarrow> s" by (simp add: b_def bit_simps u8_low_three)
  then show "drop_bit 3 b AND 1 \<noteq> 0 \<longleftrightarrow> s"
    by (metis and_one_eq drop_bit_and_1 not_mod_2_eq_1_eq_0)
qed

lemma sht_nibble: "drop_bit 4 (push_bit 4 sht OR NAS_EPS_MM_PD) AND 0x0F = sht AND 0x0F"
proof -
  have h: "NAS_EPS_MM_PD = take_bit 4 0x07" by (simp add: NAS_EPS_MM_PD_def)
  show ?thesis unfolding u8_low_nibble h by (rule bit_word_eqI) (auto simp: bit_simps)
qed

section \<open>Round trips of the plain messages\<close>

lemmas nas_lv = write_lv_def write_tlv_def

lemma decode_nas_plain:
  "decode_nas (NAS_PLAIN_HEADER # mt # body) =
     (if mt = MT_ATTACH_REQUEST then decode_attach_request body
      else if mt = MT_AUTHENTICATION_REQUEST then decode_auth_request body
      else if mt = MT_AUTHENTICATION_RESPONSE then decode_auth_response body
      else if mt = MT_SECURITY_MODE_COMMAND then decode_sec_mode_cmd body
      else if mt = MT_SECURITY_MODE_COMPLETE then Inr SecurityModeComplete
      else if mt = MT_ATTACH_ACCEPT then decode_attach_accept body
      else if mt = MT_ATTACH_COMPLETE then Inr AttachComplete
      else if mt = MT_DETACH_REQUEST then decode_detach_request body
      else if mt = MT_DETACH_ACCEPT then Inr DetachAccept
      else Inl (UnknownGtpMsgType mt))"
  by (simp add: decode_nas_def Let_def NAS_PLAIN_HEADER_def NAS_EPS_MM_PD_def)

lemma decode_nas_dispatch:
  "decode_nas (NAS_PLAIN_HEADER # MT_ATTACH_REQUEST # body) = decode_attach_request body"
  "decode_nas (NAS_PLAIN_HEADER # MT_AUTHENTICATION_REQUEST # body) = decode_auth_request body"
  "decode_nas (NAS_PLAIN_HEADER # MT_AUTHENTICATION_RESPONSE # body) = decode_auth_response body"
  "decode_nas (NAS_PLAIN_HEADER # MT_SECURITY_MODE_COMMAND # body) = decode_sec_mode_cmd body"
  "decode_nas (NAS_PLAIN_HEADER # MT_SECURITY_MODE_COMPLETE # body) = Inr SecurityModeComplete"
  "decode_nas (NAS_PLAIN_HEADER # MT_ATTACH_ACCEPT # body) = decode_attach_accept body"
  "decode_nas (NAS_PLAIN_HEADER # MT_ATTACH_COMPLETE # body) = Inr AttachComplete"
  "decode_nas (NAS_PLAIN_HEADER # MT_DETACH_REQUEST # body) = decode_detach_request body"
  "decode_nas (NAS_PLAIN_HEADER # MT_DETACH_ACCEPT # body) = Inr DetachAccept"
  unfolding decode_nas_plain by (simp_all add: nas_consts)

lemma attach_request_roundtrip:
  assumes "imsi < 10 ^ 15"
  shows "decode_nas (encode_attach_request imsi t k) =
     Inr (AttachRequest \<lparr>ar_eps_attach_type = t AND 7, ar_nas_ksi = k AND 7, ar_imsi = Some imsi,
       ar_ue_network_cap = [0x20, 0x40]\<rparr>)"
proof -
  have dec: "decode_attach_request (b # 8 # encode_imsi imsi @ [2, 0x20, 0x40]) =
     Inr (AttachRequest \<lparr>ar_eps_attach_type = b AND 7, ar_nas_ksi = drop_bit 4 b AND 7,
       ar_imsi = Some imsi, ar_ue_network_cap = [0x20, 0x40]\<rparr>)" for b
    by (simp add: decode_attach_request_def imsi_roundtrip [OF assms])
  have enc: "encode_attach_request imsi t k = NAS_PLAIN_HEADER # MT_ATTACH_REQUEST #
      (push_bit 4 (k AND 7) OR (t AND 7)) # 8 # encode_imsi imsi @ [2, 0x20, 0x40]"
    by (simp add: encode_attach_request_def Let_def nas_lv)
  show ?thesis unfolding enc decode_nas_dispatch dec ksi_type_fields ..
qed

lemma auth_request_roundtrip:
  assumes "length rand = 16" "length autn = 16"
  shows "decode_nas (encode_auth_request k rand autn) =
     Inr (AuthenticationRequest \<lparr>aq_nas_ksi = k AND 7, aq_rand = rand, aq_autn = autn\<rparr>)"
proof -
  have dec: "decode_auth_request (b # 16 # rand @ 16 # autn) =
      Inr (AuthenticationRequest \<lparr>aq_nas_ksi = drop_bit 4 b AND 7, aq_rand = rand, aq_autn = autn\<rparr>)" for b
    using assms by (simp add: decode_auth_request_def)
  have enc: "encode_auth_request k rand autn = NAS_PLAIN_HEADER # MT_AUTHENTICATION_REQUEST #
      push_bit 4 (k AND 7) # 16 # rand @ 16 # autn"
    using assms by (simp add: encode_auth_request_def Let_def nas_lv)
  show ?thesis unfolding enc decode_nas_dispatch dec ksi_type_fields ..
qed

lemma auth_response_roundtrip:
  "length res = 8 \<Longrightarrow> decode_nas (encode_auth_response res) =
     Inr (AuthenticationResponse \<lparr>ap_res = res\<rparr>)"
  by (simp add: encode_auth_response_def nas_lv decode_nas_dispatch decode_auth_response_def)

lemma sec_mode_cmd_roundtrip:
  "decode_nas (encode_sec_mode_cmd eea eia k cap) =
     Inr (SecurityModeCommand \<lparr>smc_eea = eea, smc_eia = eia, smc_nas_ksi = k AND 7\<rparr>)"
proof -
  have dec: "decode_sec_mode_cmd (encode_security_algorithms eea eia # b # rest) =
      Inr (SecurityModeCommand \<lparr>smc_eea = eea, smc_eia = eia, smc_nas_ksi = drop_bit 4 b AND 7\<rparr>)" for b rest
    by (simp add: decode_sec_mode_cmd_def)
  have enc: "encode_sec_mode_cmd eea eia k cap = NAS_PLAIN_HEADER # MT_SECURITY_MODE_COMMAND #
      encode_security_algorithms eea eia # push_bit 4 (k AND 7) # of_nat (length cap) # cap"
    by (simp add: encode_sec_mode_cmd_def Let_def nas_lv)
  show ?thesis unfolding enc decode_nas_dispatch dec ksi_type_fields ..
qed

lemma detach_request_roundtrip:
  "decode_nas (encode_detach_request t s k guti) =
     Inr (DetachRequest \<lparr>dr_detach_type = t AND 7, dr_switch_off = s, dr_nas_ksi = k AND 7\<rparr>)"
proof -
  have dec: "decode_detach_request (b # rest) =
      Inr (DetachRequest \<lparr>dr_detach_type = b AND 7, dr_switch_off = (drop_bit 3 b AND 1 \<noteq> 0),
        dr_nas_ksi = drop_bit 4 b AND 7\<rparr>)" for b rest
    by (simp add: decode_detach_request_def)
  have enc: "encode_detach_request t s k guti = NAS_PLAIN_HEADER # MT_DETACH_REQUEST #
      (push_bit 4 (k AND 7) OR push_bit 3 (of_bool s AND 1) OR (t AND 7)) # of_nat (length guti) # guti"
    by (simp add: encode_detach_request_def Let_def nas_lv)
  show ?thesis unfolding enc decode_nas_dispatch dec detach_fields ..
qed

lemma bare_messages_roundtrip:
  "decode_nas encode_sec_mode_complete = Inr SecurityModeComplete"
  "decode_nas encode_attach_complete = Inr AttachComplete"
  "decode_nas encode_detach_accept = Inr DetachAccept"
  by (simp_all add: encode_sec_mode_complete_def encode_attach_complete_def encode_detach_accept_def
      decode_nas_dispatch)

lemma attach_accept_ies_Nil [simp]: "attach_accept_ies [] acc = acc"
  by (cases acc) (simp add: attach_accept_ies.simps)

lemma attach_accept_ies_pdn:
  "length ip = 4 \<Longrightarrow>
   attach_accept_ies (IEI_PDN_ADDR # 5 # 0x01 # ip @ rest) (g, i, a) = attach_accept_ies rest (g, Some ip, a)"
  using read_tlv_numeral [of "0x01 # ip" 5 IEI_PDN_ADDR rest]
  by (subst attach_accept_ies.simps) (simp add: IEI_PDN_ADDR_def IEI_GUTI_def)

lemma attach_accept_ies_apn:
  "length apn < 256 \<Longrightarrow> valid_utf8 apn \<Longrightarrow>
   attach_accept_ies (IEI_APN # of_nat (length apn) # apn @ rest) (g, i, a) =
     attach_accept_ies rest (g, i, Some apn)"
  by (subst attach_accept_ies.simps) (simp add: IEI_PDN_ADDR_def IEI_GUTI_def IEI_APN_def)

lemma attach_accept_ies_guti:
  "length g = 10 \<Longrightarrow>
   attach_accept_ies (IEI_GUTI # 10 # g @ rest) (g0, i, a) = attach_accept_ies rest (Some g, i, a)"
  by (subst attach_accept_ies.simps) simp

text \<open>The tracking area list and the optional elements of an accept, as octets.\<close>

definition tai_octets :: "bytes list \<Rightarrow> bytes" where
  "tai_octets tais = (if tais = [] then [] else ((of_nat (length tais) - 1) OR 0x18) # concat tais)"

definition accept_elements :: "bytes option \<Rightarrow> bytes option \<Rightarrow> bytes" where
  "accept_elements ip apn =
     (case ip of Some i \<Rightarrow> IEI_PDN_ADDR # 5 # 0x01 # i | None \<Rightarrow> []) @
     (case apn of Some a \<Rightarrow> IEI_APN # of_nat (length a) # a | None \<Rightarrow> [])"

lemma encode_attach_accept_layout:
  assumes "\<forall>i. ip = Some i \<longrightarrow> length i = 4"
  shows "encode_attach_accept res t3412 tais ip apn =
    NAS_PLAIN_HEADER # MT_ATTACH_ACCEPT # (res AND 7) # t3412 #
      of_nat (length (tai_octets tais)) # tai_octets tais @ accept_elements ip apn"
  using assms
  by (auto simp: encode_attach_accept_def Let_def tai_octets_def accept_elements_def nas_lv split: option.splits)

lemma length_tai_octets:
  assumes "list_all (\<lambda>t. length t = 5) tais" "length tais \<le> 50"
  shows "length (tai_octets tais) < 256"
proof -
  have "length (concat tais) = 5 * length tais" using assms(1) by (induction tais) simp_all
  then show ?thesis using assms(2) by (simp add: tai_octets_def)
qed

lemma attach_accept_roundtrip_ies:
  assumes "list_all (\<lambda>t. length t = 5) tais" "length tais \<le> 50"
    "\<forall>i. ip = Some i \<longrightarrow> length i = 4" "\<forall>a. apn = Some a \<longrightarrow> length a < 256 \<and> valid_utf8 a"
    and "attach_accept_ies rest (None, ip, apn) = (g, ip', apn')"
  shows "decode_nas (encode_attach_accept res t3412 tais ip apn @ rest) =
    Inr (AttachAccept \<lparr>aa_attach_result = res AND 7, aa_t3412_value = t3412, aa_guti = g,
      aa_ip_address = ip', aa_apn = apn'\<rparr>)"
proof -
  have "attach_accept_ies (accept_elements ip apn @ rest) (None, None, None) = attach_accept_ies rest (None, ip, apn)"
    using assms(3,4)
    by (auto simp: accept_elements_def attach_accept_ies_pdn attach_accept_ies_apn split: option.splits)
  with assms(5) length_tai_octets [OF assms(1,2)] show ?thesis
    by (simp add: encode_attach_accept_layout [OF assms(3)] decode_nas_dispatch decode_attach_accept_def Let_def and.assoc)
qed

lemma attach_accept_roundtrip:
  assumes "list_all (\<lambda>t. length t = 5) tais" "length tais \<le> 50"
    "\<forall>i. ip = Some i \<longrightarrow> length i = 4" "\<forall>a. apn = Some a \<longrightarrow> length a < 256 \<and> valid_utf8 a"
  shows "decode_nas (encode_attach_accept res t3412 tais ip apn) =
    Inr (AttachAccept \<lparr>aa_attach_result = res AND 7, aa_t3412_value = t3412, aa_guti = None,
      aa_ip_address = ip, aa_apn = apn\<rparr>)"
  using attach_accept_roundtrip_ies [OF assms, of "[]"] by simp

lemma attach_accept_guti_roundtrip:
  assumes "list_all (\<lambda>t. length t = 5) tais" "length tais \<le> 50"
    "\<forall>i. ip = Some i \<longrightarrow> length i = 4" "\<forall>a. apn = Some a \<longrightarrow> length a < 256 \<and> valid_utf8 a" "length g = 10"
  shows "decode_nas (encode_attach_accept res t3412 tais ip apn @ IEI_GUTI # 10 # g) =
    Inr (AttachAccept \<lparr>aa_attach_result = res AND 7, aa_t3412_value = t3412, aa_guti = Some g,
      aa_ip_address = ip, aa_apn = apn\<rparr>)"
  using attach_accept_roundtrip_ies [OF assms(1-4), of "IEI_GUTI # 10 # g"]
    attach_accept_ies_guti [OF assms(5), of "[]"] by simp

text \<open>
  What the decoded structs have no field for is still on the wire: two messages with the same
  octets have the same tracking area list, replayed capability and detach identity.
\<close>

lemma tai_octets_inject:
  assumes "list_all (\<lambda>t. length t = 5) xs" "list_all (\<lambda>t. length t = 5) ys" "tai_octets xs = tai_octets ys"
  shows "xs = ys"
proof -
  have n: "length (concat zs) = 5 * length zs" if "list_all (\<lambda>t. length t = 5) zs" for zs :: "bytes list"
    using that by (induction zs) simp_all
  have c: "concat xs = concat ys" using assms(3) by (auto simp: tai_octets_def split: if_splits)
  then have l: "length xs = length ys" using n [OF assms(1)] n [OF assms(2)] by simp
  show ?thesis using l c assms(1,2) by (induction xs ys rule: list_induct2) (simp_all add: append_eq_append_conv)
qed

lemma attach_accept_tais_inject:
  assumes "list_all (\<lambda>t. length t = 5) tais" "length tais \<le> 50" "\<forall>i. ip = Some i \<longrightarrow> length i = 4"
    "list_all (\<lambda>t. length t = 5) tais'" "length tais' \<le> 50" "\<forall>i. ip' = Some i \<longrightarrow> length i = 4"
    and "encode_attach_accept r t tais ip apn = encode_attach_accept r' t' tais' ip' apn'"
  shows "tais = tais'"
proof -
  note l = length_tai_octets [OF assms(1,2)] length_tai_octets [OF assms(4,5)]
  let ?x = "of_nat (length (tai_octets tais)) # tai_octets tais @ accept_elements ip apn"
    and ?y = "of_nat (length (tai_octets tais')) # tai_octets tais' @ accept_elements ip' apn'"
  have "?x = ?y"
    using assms(7) by (simp add: encode_attach_accept_layout [OF assms(3)] encode_attach_accept_layout [OF assms(6)])
  then have "read_lv ?x = read_lv ?y" by (simp only:)
  then have "tai_octets tais = tai_octets tais'" using l by simp
  then show ?thesis by (rule tai_octets_inject [OF assms(1,4)])
qed

lemma unread_fields_inject:
  "encode_sec_mode_cmd eea eia k cap = encode_sec_mode_cmd eea' eia' k' cap' \<Longrightarrow> cap = cap'"
  "encode_detach_request t so k guti = encode_detach_request t' so' k' guti' \<Longrightarrow> guti = guti'"
  by (simp_all add: encode_sec_mode_cmd_def encode_detach_request_def Let_def nas_lv)

section \<open>Protected connections\<close>

definition channel_ok :: "crypto \<Rightarrow> u8 \<Rightarrow> bool" where
  "channel_ok cr sht \<longleftrightarrow> ctr_stream cr \<and> cmac_len cr \<and> sht AND 0x0F \<noteq> 0"

lemma nas_envelope_fields:
  assumes "length (pn_mac_i p) = 4"
  shows "\<not> length (nas_envelope sht p) < 6"
    "drop_bit 4 (nas_envelope sht p ! 0) AND 0x0F = sht AND 0x0F"
    "nas_envelope sht p ! 5 = ucast (pn_count p)"
    "take 4 (drop 1 (nas_envelope sht p)) = pn_mac_i p"
    "drop 6 (nas_envelope sht p) = pn_payload p"
proof -
  have "(ucast (pn_count p AND 0xFF) :: u8) = ucast (pn_count p)"
  proof -
    have m: "(0xFF :: u32) = mask 8" by (simp add: mask_eq_exp_minus_1)
    show ?thesis unfolding m by (rule bit_word_eqI) (auto simp: bit_simps)
  qed
  with assms show "nas_envelope sht p ! 5 = ucast (pn_count p)"
    by (simp add: nas_envelope_def nth_append numeral_eq_Suc)
  show "drop_bit 4 (nas_envelope sht p ! 0) AND 0x0F = sht AND 0x0F"
    using sht_nibble [of sht] by (simp only: nas_envelope_def append_Cons nth_Cons_0)
qed (use assms in \<open>simp_all add: nas_envelope_def\<close>)

lemma decode_protected_downlink_enc:
  assumes "channel_ok cr sht" "same_keys s r" "dl_count r \<le> dl_count s"
    "unat (dl_count s) < unat (dl_count r) + 256"
  shows "decode_protected_downlink cr bearer r (fst (encode_protected cr sht bearer s p)) =
    (Some p, r\<lparr>dl_count := dl_count s + 1\<rparr>)"
  using assms nas_envelope_fields [OF length_nas_protect_mac, of cr sht]
  by (simp add: decode_protected_downlink_def encode_protected_def protect_downlink_def
      unprotect_downlink_def channel_ok_def reconstruct_count_eq nas_unprotect_protect)

lemma decode_protected_enc:
  assumes "channel_ok cr sht" "same_keys s r" "ul_count r \<le> ul_count s"
    "unat (ul_count s) < unat (ul_count r) + 256"
  shows "decode_protected cr bearer r (fst (encode_protected_uplink cr sht bearer s p)) =
    (Some p, r\<lparr>ul_count := ul_count s + 1\<rparr>)"
  using assms nas_envelope_fields [OF length_nas_protect_mac, of cr sht]
  by (simp add: decode_protected_def encode_protected_uplink_def protect_uplink_def
      unprotect_uplink_def channel_ok_def reconstruct_count_eq nas_unprotect_protect)

interpretation lte_dl: nas_channel "channel_ok cr sht" "encode_protected cr sht bearer"
    "decode_protected_downlink cr bearer" dl_count same_keys for cr sht bearer
  by unfold_locales
     (auto simp: decode_protected_downlink_enc, auto simp: encode_protected_def protect_downlink_def
       decode_protected_downlink_def unprotect_downlink_def Let_def split: if_splits option.splits)

interpretation lte_ul: nas_channel "channel_ok cr sht" "encode_protected_uplink cr sht bearer"
    "decode_protected cr bearer" ul_count same_keys for cr sht bearer
  by unfold_locales
     (auto simp: decode_protected_enc, auto simp: encode_protected_uplink_def protect_uplink_def
       decode_protected_def unprotect_uplink_def Let_def split: if_splits option.splits)

end
