(* ===== verification/S1ap_Messages.thy ===== *)
theory S1ap_Messages
  imports Midn_Prelude
begin

text \<open>
  The S1AP message types, \<open>crates/midn-proto/src/s1ap/messages.rs\<close>. A Rust \<open>String\<close> is its UTF-8
  bytes, a fixed array a byte list.
\<close>

datatype S1apCause =
    RadioNetworkUnspecified
  | TransportUnspecified
  | NasNormalRelease
  | NasDetach
  | NasAuthFailure
  | ProtocolUnspecified
  | MiscUnspecified

record SupportedTa =
  sta_tac :: bytes
  sta_plmns :: "bytes list"

record S1SetupRequest =
  ssr_global_enb_id :: bytes
  ssr_enb_name :: "bytes option"
  ssr_supported_tas :: "SupportedTa list"
  ssr_default_paging_drx :: u8

record Gummei =
  gum_plmn :: bytes
  gum_mme_gid :: u16
  gum_mme_code :: u8

record S1SetupResponse =
  ssp_mme_name :: "bytes option"
  ssp_served_gummeis :: "Gummei list"
  ssp_relative_mme_cap :: u8

record InitialUeMessage =
  ium_enb_ue_s1ap_id :: u32
  ium_nas_pdu :: bytes
  ium_tai :: bytes
  ium_eutran_cgi :: bytes
  ium_rrc_cause :: u8

record DownlinkNasTransport =
  dnt_mme_ue_s1ap_id :: u32
  dnt_enb_ue_s1ap_id :: u32
  dnt_nas_pdu :: bytes

record UplinkNasTransport =
  unt_mme_ue_s1ap_id :: u32
  unt_enb_ue_s1ap_id :: u32
  unt_nas_pdu :: bytes
  unt_tai :: bytes
  unt_eutran_cgi :: bytes

record ErabToSetup =
  ets_erab_id :: u8
  ets_qci :: u8
  ets_gtp_teid :: bytes
  ets_transport_layer_addr :: bytes

record InitialContextSetupRequest =
  icq_mme_ue_s1ap_id :: u32
  icq_enb_ue_s1ap_id :: u32
  icq_e_rabs :: "ErabToSetup list"
  icq_nas_pdu :: "bytes option"
  icq_ue_ambr :: "u64 \<times> u64"
  icq_security_key :: bytes

record ErabSetupItem =
  esi_e_rab_id :: u8
  esi_transport_layer_addr :: bytes
  esi_gtp_teid :: bytes

record InitialContextSetupResponse =
  icp_mme_ue_s1ap_id :: u32
  icp_enb_ue_s1ap_id :: u32
  icp_e_rabs_setup :: "ErabSetupItem list"
  icp_e_rabs_failed :: "u8 list"

record UeContextReleaseComplete =
  crc_mme_ue_s1ap_id :: u32
  crc_enb_ue_s1ap_id :: u32

datatype S1apMessage =
    MS1SetupRequest S1SetupRequest
  | MS1SetupResponse S1SetupResponse
  | MS1SetupFailure S1apCause
  | MInitialUeMessage InitialUeMessage
  | MDownlinkNasTransport DownlinkNasTransport
  | MUplinkNasTransport UplinkNasTransport
  | MInitialContextSetupRequest InitialContextSetupRequest
  | MInitialContextSetupResponse InitialContextSetupResponse
  | MInitialContextSetupFailure S1apCause
  | MUeContextReleaseCommand u32 u32 S1apCause
  | MUeContextReleaseComplete UeContextReleaseComplete

end
