(* ===== verification/Mme.thy ===== *)
theory Mme
  imports Ecs Hss Kdf Nas_Codec S1ap_Messages
begin

text \<open>
  The LTE control plane, \<open>crates/midn-core/src/mme/state_machine.rs\<close>, \<open>attach.rs\<close> and
  \<open>detach.rs\<close>: the TEID allocator, the attach and detach handlers and the dispatcher
  \<open>process_s1ap\<close>. A handler maps the state and a message to the messages for the eNodeB, the
  events for the user plane and the new state; \<open>None\<close> is a panic, which only \<open>spawn\<close> could
  raise. The random challenge drawn while a message is processed is an argument. Log
  output is not modelled.
\<close>

section \<open>TEID allocator\<close>

record TeidAllocator =
  ta_next :: u32
  ta_free :: "u32 list"

definition TeidAllocator_new :: "u32 \<Rightarrow> TeidAllocator" where
  "TeidAllocator_new base = \<lparr>ta_next = base, ta_free = []\<rparr>"

definition teid_alloc :: "TeidAllocator \<Rightarrow> u32 \<times> TeidAllocator" where
  "teid_alloc a =
     (if ta_free a \<noteq> [] then (last (ta_free a), a\<lparr>ta_free := butlast (ta_free a)\<rparr>)
      else (ta_next a, a\<lparr>ta_next := ta_next a + 1\<rparr>))"

definition teid_release :: "TeidAllocator \<Rightarrow> u32 \<Rightarrow> TeidAllocator" where
  "teid_release a t = a\<lparr>ta_free := ta_free a @ [t]\<rparr>"

definition teid_free_count :: "TeidAllocator \<Rightarrow> nat" where
  "teid_free_count a = length (ta_free a)"

section \<open>State\<close>

datatype UpfEvent =
    CreateSession u32 u32 u64 bytes bytes u8
  | UpdateBearer u32 u32 bytes
  | RemoveSession u32

type_synonym mme_output = "S1apMessage list \<times> UpfEvent list"

record Mme =
  m_world :: World
  m_registry :: ImsiRegistry
  m_hss :: Hss
  m_phase3_upf :: "bytes option"
  m_teids :: TeidAllocator

definition Mme_new :: Mme where
  "Mme_new = \<lparr>m_world = World_new, m_registry = ImsiRegistry_new, m_hss = Hss_new,
     m_phase3_upf = None, m_teids = TeidAllocator_new 0x00010000\<rparr>"

definition with_phase3 :: "Mme \<Rightarrow> bytes \<Rightarrow> Mme" where
  "with_phase3 m upf_addr = m\<lparr>m_phase3_upf := Some upf_addr\<rparr>"

definition alloc_ul_teid :: "Mme \<Rightarrow> u32 \<times> Mme" where
  "alloc_ul_teid m = (let (t, a) = teid_alloc (m_teids m) in (t, m\<lparr>m_teids := a\<rparr>))"

definition release_ul_teid :: "Mme \<Rightarrow> u32 \<Rightarrow> Mme" where
  "release_ul_teid m t = m\<lparr>m_teids := teid_release (m_teids m) t\<rparr>"

section \<open>Attach\<close>

definition MME_AMF :: bytes where "MME_AMF = [0x80, 0x00]"
definition SELECTED_EEA :: NasEeaAlgorithm where "SELECTED_EEA = Eea2"
definition SELECTED_EIA :: NasEiaAlgorithm where "SELECTED_EIA = Eia2"

definition start_attach ::
    "crypto \<Rightarrow> bytes \<Rightarrow> World \<Rightarrow> ImsiRegistry \<Rightarrow> Hss \<Rightarrow> u32 \<Rightarrow> bytes \<Rightarrow> bytes \<Rightarrow>
     (mme_output \<times> World \<times> ImsiRegistry \<times> Hss) option" where
  "start_attach cr rand world registry hss enb_ue_s1ap_id nas_pdu tai =
     (let plmn = take 3 tai in
      case decode_nas nas_pdu of
        Inr (AttachRequest inner) \<Rightarrow>
          (case ar_imsi inner of
             None \<Rightarrow> Some (([], []), world, registry, hss)
           | Some imsi \<Rightarrow>
               (case generate_auth_vector cr rand hss imsi of
                  (None, hss) \<Rightarrow> Some (([], []), world, registry, hss)
                | (Some auth_info, hss) \<Rightarrow>
                    let tok = autn (hi_vector auth_info) (hi_sqn_used auth_info) MME_AMF in
                    (case spawn world of
                       None \<Rightarrow> None
                     | Some (ent, world) \<Rightarrow>
                         let registry = snd (register registry imsi ent);
                             world = insert_identity world ent
                               \<lparr>id_imsi = imsi, id_enb_ue_s1ap_id = enb_ue_s1ap_id,
                                id_ue_ip = replicate 4 0\<rparr>;
                             sec = SecurityContext_new_empty
                               \<lparr>pending_rand := hi_rand auth_info,
                                pending_xres := av_res (hi_vector auth_info),
                                sc_ck := av_ck (hi_vector auth_info),
                                sc_ik := av_ik (hi_vector auth_info),
                                sc_ak := av_ak (hi_vector auth_info),
                                sc_plmn := plmn,
                                sc_sqn_used := hi_sqn_used auth_info\<rparr>;
                             world = insert_security world ent sec;
                             world = set_auth_state world ent ChallengeIssued;
                             nas = encode_auth_request 0 (hi_rand auth_info) tok
                         in Some (([MDownlinkNasTransport
                                     \<lparr>dnt_mme_ue_s1ap_id = ent, dnt_enb_ue_s1ap_id = enb_ue_s1ap_id,
                                      dnt_nas_pdu = nas\<rparr>], []), world, registry, hss))))
      | _ \<Rightarrow> Some (([], []), world, registry, hss))"

definition handle_auth_response :: "World \<Rightarrow> u32 \<Rightarrow> u32 \<Rightarrow> bytes \<Rightarrow> mme_output \<times> World" where
  "handle_auth_response world enb_ue_s1ap_id mme_ue_s1ap_id nas_pdu =
     (case decode_nas nas_pdu of
        Inr (AuthenticationResponse inner) \<Rightarrow>
          (case security world mme_ue_s1ap_id of
             None \<Rightarrow> (([], []), world)
           | Some sec \<Rightarrow>
               let matched = verify_res (pending_xres sec) (ap_res inner);
                   world = security_mut world mme_ue_s1ap_id clear_pending_challenge
               in if \<not> matched then
                    (([], []), set_auth_state world mme_ue_s1ap_id (Failed ResMismatch))
                  else
                    let world = set_auth_state world mme_ue_s1ap_id Authenticated;
                        nas = encode_sec_mode_cmd SELECTED_EEA SELECTED_EIA 0 [0x20, 0x40]
                    in (([MDownlinkNasTransport
                           \<lparr>dnt_mme_ue_s1ap_id = mme_ue_s1ap_id,
                            dnt_enb_ue_s1ap_id = enb_ue_s1ap_id, dnt_nas_pdu = nas\<rparr>], []), world))
      | _ \<Rightarrow> (([], []), world))"

definition handle_security_mode_complete ::
    "crypto \<Rightarrow> World \<Rightarrow> u32 \<Rightarrow> u32 \<Rightarrow> bytes option \<Rightarrow> TeidAllocator \<Rightarrow> mme_output \<times> World \<times> TeidAllocator" where
  "handle_security_mode_complete cr world enb_ue_s1ap_id mme_ue_s1ap_id phase3_upf teids =
     (case identity world mme_ue_s1ap_id of
        None \<Rightarrow> (([], []), world, teids)
      | Some ident \<Rightarrow>
          (case security world mme_ue_s1ap_id of
             None \<Rightarrow> (([], []), world, teids)
           | Some sec \<Rightarrow>
               let sqn_xor_ak = xor_bytes (sc_sqn_used sec) (sc_ak sec);
                   kasme = derive_kasme cr (sc_ck sec) (sc_ik sec) (sc_plmn sec) sqn_xor_ak;
                   world = security_mut world mme_ue_s1ap_id clear_post_kasme;
                   nas_sec = NasSecurityContext_new cr kasme SELECTED_EEA SELECTED_EIA;
                   attach_accept_plain = encode_attach_accept 1 0x54 [] (Some (id_ue_ip ident)) None;
                   (attach_accept_nas, nas_sec) =
                     encode_protected cr SHT_INTEGRITY_CIPHERED NAS_BEARER nas_sec attach_accept_plain
               in case phase3_upf of
                    Some upf_addr \<Rightarrow>
                      let (ul_teid, teids) = teid_alloc teids;
                          world = set_nas_security world mme_ue_s1ap_id nas_sec;
                          world = set_tunnel world mme_ue_s1ap_id
                            \<lparr>tc_ul_teid = ul_teid, tc_dl_teid = 0, tc_enb_addr = replicate 4 0\<rparr>;
                          icsr = MInitialContextSetupRequest
                            \<lparr>icq_mme_ue_s1ap_id = mme_ue_s1ap_id,
                             icq_enb_ue_s1ap_id = enb_ue_s1ap_id,
                             icq_e_rabs = [\<lparr>ets_erab_id = 5, ets_qci = 9,
                                ets_gtp_teid = to_be32 ul_teid, ets_transport_layer_addr = upf_addr\<rparr>],
                             icq_nas_pdu = Some attach_accept_nas,
                             icq_ue_ambr = (50000000, 50000000),
                             icq_security_key = kasme\<rparr>;
                          evt = CreateSession ul_teid mme_ue_s1ap_id (id_imsi ident) (id_ue_ip ident)
                            (replicate 4 0) 9
                      in (([icsr], [evt]), world, teids)
                  | None \<Rightarrow>
                      (([MDownlinkNasTransport
                          \<lparr>dnt_mme_ue_s1ap_id = mme_ue_s1ap_id, dnt_enb_ue_s1ap_id = enb_ue_s1ap_id,
                           dnt_nas_pdu = attach_accept_nas\<rparr>], []),
                       set_nas_security world mme_ue_s1ap_id nas_sec, teids)))"

definition handle_attach_complete :: "World \<Rightarrow> u32 \<Rightarrow> mme_output \<times> World" where
  "handle_attach_complete world mme_ue_s1ap_id = (([], []), world)"

section \<open>Detach\<close>

definition handle_detach_request ::
    "crypto \<Rightarrow> World \<Rightarrow> u32 \<Rightarrow> u32 \<Rightarrow> bytes \<Rightarrow> S1apMessage list \<times> World" where
  "handle_detach_request cr world enb_ue_s1ap_id mme_ue_s1ap_id nas_pdu =
     (case decode_nas nas_pdu of
        Inr (DetachRequest d) \<Rightarrow>
          if \<not> is_live world mme_ue_s1ap_id then ([], world)
          else
            let (out, world) =
              (if \<not> dr_switch_off d then
                 let (nas_pdu_out, world) =
                   (case nas_security world mme_ue_s1ap_id of
                      Some nas_ctx \<Rightarrow>
                        let (pdu, nas_ctx') =
                          encode_protected cr SHT_INTEGRITY_CIPHERED NAS_BEARER nas_ctx encode_detach_accept
                        in (pdu, nas_security_mut world mme_ue_s1ap_id (\<lambda>_. nas_ctx'))
                    | None \<Rightarrow> (encode_detach_accept, world))
                 in ([MDownlinkNasTransport
                        \<lparr>dnt_mme_ue_s1ap_id = mme_ue_s1ap_id, dnt_enb_ue_s1ap_id = enb_ue_s1ap_id,
                         dnt_nas_pdu = nas_pdu_out\<rparr>], world)
               else ([], world))
            in (out @ [MUeContextReleaseCommand mme_ue_s1ap_id enb_ue_s1ap_id NasDetach], world)
      | _ \<Rightarrow> ([], world))"

section \<open>Dispatch\<close>

text \<open>
  The two halves of \<open>handle_uplink_nas\<close>: recovering the plain PDU, with the security context of
  the entity when the security header type is not plain, and the dispatch on the message type.
\<close>

definition unwrap_uplink :: "crypto \<Rightarrow> World \<Rightarrow> u32 \<Rightarrow> bytes \<Rightarrow> bytes option \<times> World" where
  "unwrap_uplink cr world mme_ue_s1ap_id nas_pdu =
     (let sht = (if nas_pdu = [] then 0 else drop_bit 4 (nas_pdu ! 0) AND 0x0F) in
      if sht = SHT_PLAIN then (Some nas_pdu, world)
      else
        case nas_security world mme_ue_s1ap_id of
          None \<Rightarrow> (None, world)
        | Some nas_ctx \<Rightarrow>
            let (inner, nas_ctx') = decode_protected cr NAS_BEARER nas_ctx nas_pdu
            in (inner, nas_security_mut world mme_ue_s1ap_id (\<lambda>_. nas_ctx')))"

definition dispatch_nas :: "crypto \<Rightarrow> Mme \<Rightarrow> u32 \<Rightarrow> u32 \<Rightarrow> bytes \<Rightarrow> mme_output \<times> Mme" where
  "dispatch_nas cr m enb_ue_s1ap_id mme_ue_s1ap_id plain_pdu =
     (case decode_nas plain_pdu of
        Inr (AuthenticationResponse _) \<Rightarrow>
          let (out, world) =
            handle_auth_response (m_world m) enb_ue_s1ap_id mme_ue_s1ap_id plain_pdu
          in (out, m\<lparr>m_world := world\<rparr>)
      | Inr SecurityModeComplete \<Rightarrow>
          let (out, world, teids) =
            handle_security_mode_complete cr (m_world m) enb_ue_s1ap_id mme_ue_s1ap_id
              (m_phase3_upf m) (m_teids m)
          in (out, m\<lparr>m_world := world, m_teids := teids\<rparr>)
      | Inr AttachComplete \<Rightarrow>
          let (out, world) = handle_attach_complete (m_world m) mme_ue_s1ap_id
          in (out, m\<lparr>m_world := world\<rparr>)
      | Inr (DetachRequest _) \<Rightarrow>
          let (responses, world) =
            handle_detach_request cr (m_world m) enb_ue_s1ap_id mme_ue_s1ap_id plain_pdu
          in ((responses, []), m\<lparr>m_world := world\<rparr>)
      | _ \<Rightarrow> (([], []), m))"

definition handle_uplink_nas :: "crypto \<Rightarrow> Mme \<Rightarrow> u32 \<Rightarrow> u32 \<Rightarrow> bytes \<Rightarrow> mme_output \<times> Mme" where
  "handle_uplink_nas cr m enb_ue_s1ap_id mme_ue_s1ap_id nas_pdu =
     (let (plain, world) = unwrap_uplink cr (m_world m) mme_ue_s1ap_id nas_pdu;
          m = m\<lparr>m_world := world\<rparr>
      in case plain of
           None \<Rightarrow> (([], []), m)
         | Some plain_pdu \<Rightarrow> dispatch_nas cr m enb_ue_s1ap_id mme_ue_s1ap_id plain_pdu)"

definition handle_icsrsp :: "Mme \<Rightarrow> InitialContextSetupResponse \<Rightarrow> mme_output \<times> Mme" where
  "handle_icsrsp m resp =
     (let ent = icp_mme_ue_s1ap_id resp in
      case icp_e_rabs_setup resp of
        [] \<Rightarrow> (([], []), m)
      | erab # _ \<Rightarrow>
          let dl_teid = from_be (esi_gtp_teid erab); enb_addr = esi_transport_layer_addr erab in
          (case tunnel (m_world m) ent of
             Some t \<Rightarrow>
               (([], [UpdateBearer (tc_ul_teid t) dl_teid enb_addr]),
                m\<lparr>m_world := tunnel_mut (m_world m) ent
                    (\<lambda>t. t\<lparr>tc_dl_teid := dl_teid, tc_enb_addr := enb_addr\<rparr>)\<rparr>)
           | None \<Rightarrow> (([], []), m)))"

definition handle_release_complete :: "Mme \<Rightarrow> UeContextReleaseComplete \<Rightarrow> mme_output \<times> Mme" where
  "handle_release_complete m msg =
     (let ent = crc_mme_ue_s1ap_id msg;
          ul_teid = map_option tc_ul_teid (tunnel (m_world m) ent);
          m = (case identity (m_world m) ent of
                 Some ident \<Rightarrow> m\<lparr>m_registry := snd (deregister (m_registry m) (id_imsi ident))\<rparr>
               | None \<Rightarrow> m);
          m = m\<lparr>m_world := despawn (m_world m) ent\<rparr>
      in case ul_teid of
           Some t \<Rightarrow> (([], [RemoveSession t]), m\<lparr>m_teids := teid_release (m_teids m) t\<rparr>)
         | None \<Rightarrow> (([], []), m))"

definition process_s1ap :: "crypto \<Rightarrow> bytes \<Rightarrow> Mme \<Rightarrow> S1apMessage \<Rightarrow> (mme_output \<times> Mme) option" where
  "process_s1ap cr rand m msg =
     (case msg of
        MInitialUeMessage u \<Rightarrow>
          map_option
            (\<lambda>(out, world, registry, hss).
               (out, m\<lparr>m_world := world, m_registry := registry, m_hss := hss\<rparr>))
            (start_attach cr rand (m_world m) (m_registry m) (m_hss m) (ium_enb_ue_s1ap_id u)
               (ium_nas_pdu u) (ium_tai u))
      | MUplinkNasTransport u \<Rightarrow>
          Some (handle_uplink_nas cr m (unt_enb_ue_s1ap_id u) (unt_mme_ue_s1ap_id u) (unt_nas_pdu u))
      | MInitialContextSetupResponse r \<Rightarrow> Some (handle_icsrsp m r)
      | MUeContextReleaseComplete r \<Rightarrow> Some (handle_release_complete m r)
      | _ \<Rightarrow> Some (([], []), m))"

end
