(* ===== verification/Mme_Invariant.thy ===== *)
theory Mme_Invariant
  imports Mme
begin

text \<open>
  The invariant of the MME and what follows from it for any sequence of messages: no panic,
  a well-formed entity storage, and uplink TEIDs that are never shared by two live
  subscribers and never at once in use and on the free list.
\<close>

section \<open>The TEID allocator as an identifier allocator\<close>

definition teid_inv :: "TeidAllocator \<Rightarrow> bool" where
  "teid_inv a \<longleftrightarrow> 0x10000 \<le> unat (ta_next a) \<and> distinct (ta_free a) \<and>
     (\<forall>t \<in> set (ta_free a). 0x10000 \<le> unat t \<and> unat t < unat (ta_next a))"

definition teid_used :: "TeidAllocator \<Rightarrow> u32 set" where
  "teid_used a = {t. 0x10000 \<le> unat t \<and> unat t < unat (ta_next a)} - set (ta_free a)"

definition teid_room :: "TeidAllocator \<Rightarrow> bool" where
  "teid_room a \<longleftrightarrow> unat (ta_next a) + 1 < 4294967296"

lemma teid_inv_new [simp]: "teid_inv (TeidAllocator_new 0x00010000)"
  by (simp add: teid_inv_def TeidAllocator_new_def)

lemma last_notin_butlast: "distinct xs \<Longrightarrow> xs \<noteq> [] \<Longrightarrow> last xs \<notin> set (butlast xs)"
  by (metis append_butlast_last_id distinct_append disjoint_insert(1) list.simps(15))

lemma set_butlast_last: "xs \<noteq> [] \<Longrightarrow> set xs = insert (last xs) (set (butlast xs))"
  by (metis append_butlast_last_id list.simps(15) rotate1.simps(2) set_rotate1)

interpretation teid_ids: id_allocator teid_inv teid_used teid_room "\<lambda>a. Some (teid_alloc a)" teid_release
proof
  fix a assume inv: "teid_inv a" and room: "teid_room a"
  show "\<exists>i s'. Some (teid_alloc a) = Some (i, s') \<and> teid_inv s' \<and> i \<notin> teid_used a \<and>
      teid_used s' = insert i (teid_used a)"
  proof (cases "ta_free a = []")
    case True
    have n: "unat (ta_next a + 1) = Suc (unat (ta_next a))"
      using room by (simp add: teid_room_def unat_word_ariths)
    show ?thesis
      using True inv n by (auto simp: teid_alloc_def teid_inv_def teid_used_def less_Suc_eq unat_eq_iff)
  next
    case False
    note d = last_notin_butlast [OF _ False] set_butlast_last [OF False]
    have "distinct (ta_free a)" using inv by (simp add: teid_inv_def)
    then show ?thesis
      using False inv d by (auto simp: teid_alloc_def teid_inv_def teid_used_def distinct_butlast)
  qed
next
  fix a t assume "teid_inv a" "t \<in> teid_used a"
  then show "teid_inv (teid_release a t) \<and> teid_used (teid_release a t) = teid_used a - {t}"
    by (auto simp: teid_inv_def teid_used_def teid_release_def)
qed

lemma teid_alloc_next: "teid_room a \<Longrightarrow> unat (ta_next (snd (teid_alloc a))) \<le> unat (ta_next a) + 1"
  by (simp add: teid_alloc_def teid_room_def unat_word_ariths)

lemma teid_release_next [simp]: "ta_next (teid_release a t) = ta_next a"
  by (simp add: teid_release_def)

section \<open>Tunnels of live subscribers\<close>

definition teid_of :: "World \<Rightarrow> EntityId \<Rightarrow> u32 option" where
  "teid_of w i = Option.bind (abs_world w i) (\<lambda>e. map_option tc_ul_teid (e_tunnel e))"

definition tunnels_ok :: "World \<Rightarrow> TeidAllocator \<Rightarrow> bool" where
  "tunnels_ok w a \<longleftrightarrow> (\<forall>i t. teid_of w i = Some t \<longrightarrow> t \<in> teid_used a) \<and>
     (\<forall>i j t. teid_of w i = Some t \<longrightarrow> teid_of w j = Some t \<longrightarrow> i = j)"

lemma tunnels_ok_alloc:
  assumes "tunnels_ok w a" "teid_inv a" "teid_room a" "teid_alloc a = (t, a')"
    "teid_of w' = (teid_of w)(i := Some t) \<or> teid_of w' = teid_of w"
  shows "tunnels_ok w' a'"
proof -
  have f: "t \<notin> teid_used a" "teid_used a' = insert t (teid_used a)"
    using teid_ids.alloc_fresh [OF assms(2,3)] assms(4) by auto
  from assms(5) show ?thesis using assms(1) f by (auto simp: tunnels_ok_def split: if_splits)
qed

lemma tunnels_ok_release:
  assumes "tunnels_ok w a" "teid_inv a" "teid_of w i = Some t" "teid_of w' = (teid_of w)(i := None)"
  shows "tunnels_ok w' (teid_release a t)"
proof -
  have "t \<in> teid_used a" using assms(1,3) by (auto simp: tunnels_ok_def)
  then have "teid_used (teid_release a t) = teid_used a - {t}"
    using teid_ids.release_ok [OF assms(2)] by blast
  with assms(1,3,4) show ?thesis by (auto simp: tunnels_ok_def split: if_splits)
qed

text \<open>Handlers that leave all tunnels in place.\<close>

definition keeps_tunnels :: "World \<Rightarrow> World \<Rightarrow> bool" where
  "keeps_tunnels w w' \<longleftrightarrow> world_wf w' \<and> unat (next_id w') = unat (next_id w) \<and> teid_of w' = teid_of w"

lemma keeps_tunnels_refl [simp]: "world_wf w \<Longrightarrow> keeps_tunnels w w"
  by (simp add: keeps_tunnels_def)

lemma keeps_tunnels_trans: "keeps_tunnels a b \<Longrightarrow> keeps_tunnels b c \<Longrightarrow> keeps_tunnels a c"
  by (simp add: keeps_tunnels_def)

lemma setters_keep_tunnels [simp]:
  assumes "world_wf w"
  shows "keeps_tunnels w (insert_identity w i x1)" "keeps_tunnels w (set_auth_state w i x2)"
    "keeps_tunnels w (insert_security w i x3)" "keeps_tunnels w (security_mut w i f3)"
    "keeps_tunnels w (set_nas_security w i x4)" "keeps_tunnels w (nas_security_mut w i f4)"
  using assms
  by (simp_all add: keeps_tunnels_def ecs_wf teid_of_def ecs_abs fun_eq_iff split: Option.bind_split)

lemma teid_of_set_tunnel:
  "world_wf w \<Longrightarrow> teid_of (set_tunnel w i x) =
     (if abs_world w i = None then teid_of w else (teid_of w)(i := Some (tc_ul_teid x)))"
  by (auto simp: teid_of_def ecs_abs fun_eq_iff)

lemma teid_of_tunnel_mut:
  "world_wf w \<Longrightarrow> (\<And>t. tc_ul_teid (f t) = tc_ul_teid t) \<Longrightarrow> teid_of (tunnel_mut w i f) = teid_of w"
  by (auto simp: teid_of_def ecs_abs fun_eq_iff option.map_comp comp_def split: Option.bind_splits)

lemma teid_of_despawn: "world_wf w \<Longrightarrow> teid_of (despawn w i) = (teid_of w)(i := None)"
  by (auto simp: teid_of_def ecs_abs fun_eq_iff)

section \<open>The handlers\<close>

lemma handle_auth_response_keeps:
  assumes "world_wf w"
  shows "keeps_tunnels w (snd (handle_auth_response w enb i pdu))"
proof -
  have "keeps_tunnels w (set_auth_state (security_mut w i f) i st)" for f st
    using assms by (meson keeps_tunnels_def keeps_tunnels_trans setters_keep_tunnels(2,4))
  with assms show ?thesis
    by (auto simp: handle_auth_response_def Let_def split: sum.splits NasPdu.splits option.splits)
qed

lemma handle_detach_request_keeps:
  assumes "world_wf w"
  shows "keeps_tunnels w (snd (handle_detach_request cr w enb i pdu))"
  using assms
  by (auto simp: handle_detach_request_def Let_def
      split: sum.splits NasPdu.splits option.splits prod.splits if_splits)

text \<open>Step 1 adds one entity without a tunnel, or nothing.\<close>

lemma start_attach_keeps:
  assumes wf: "world_wf w" and room: "unat (next_id w) + 1 < 4294967296"
  obtains out w' reg' hss' where
    "start_attach cr rand w reg hss enb pdu tai = Some (out, w', reg', hss')"
    "world_wf w'" "unat (next_id w') \<le> unat (next_id w) + 1" "teid_of w' = teid_of w"
proof -
  obtain e w1 where sp: "spawn w = Some (e, w1)" "world_wf w1" "abs_world w e = None"
    "abs_world w1 = (abs_world w)(e \<mapsto> empty_entity)" "unat (next_id w1) \<le> unat (next_id w) + 1"
    using spawn_abs [OF wf room] by blast
  have t1: "teid_of w1 = teid_of w"
    using sp(3,4) by (auto simp: teid_of_def fun_eq_iff empty_entity_def)
  have k: "keeps_tunnels w1 (set_auth_state (insert_security (insert_identity w1 e x) e y) e z)" for x y z
    using sp(2) by (meson keeps_tunnels_def keeps_tunnels_trans setters_keep_tunnels(1,2,3))
  have "\<exists>out w' reg' hss'. start_attach cr rand w reg hss enb pdu tai = Some (out, w', reg', hss') \<and>
      (w' = w \<or> keeps_tunnels w1 w')"
    using sp(1) k unfolding start_attach_def Let_def
    by (auto split: sum.splits NasPdu.splits option.splits prod.splits)
  then show ?thesis using that wf sp(2,5) t1 unfolding keeps_tunnels_def
    by (metis le_add1)
qed

lemma handle_security_mode_complete_ok:
  assumes wf: "world_wf w" and a: "teid_inv a" "teid_room a" "tunnels_ok w a"
    and res: "handle_security_mode_complete cr w enb i upf a = (out, w', a')"
  shows "world_wf w' \<and> unat (next_id w') = unat (next_id w) \<and> teid_inv a' \<and>
    unat (ta_next a') \<le> unat (ta_next a) + 1 \<and> tunnels_ok w' a'"
proof -
  obtain t b where al: "teid_alloc a = (t, b)" by (cases "teid_alloc a")
  have b: "teid_inv b" "unat (ta_next b) \<le> unat (ta_next a) + 1"
    using teid_ids.alloc_fresh(3) [OF a(1,2)] teid_alloc_next [OF a(2)] al by auto
  have k1: "keeps_tunnels w (set_nas_security (security_mut w i f) i c)" for f c
    using wf by (meson keeps_tunnels_def keeps_tunnels_trans setters_keep_tunnels(4,5))
  let ?w = "\<lambda>f c. set_tunnel (set_nas_security (security_mut w i f) i c) i
    \<lparr>tc_ul_teid = t, tc_dl_teid = 0, tc_enb_addr = replicate 4 0\<rparr>"
  have k2: "world_wf (?w f c) \<and> unat (next_id (?w f c)) = unat (next_id w) \<and> tunnels_ok (?w f c) b" for f c
  proof -
    have "teid_of (?w f c) = (teid_of w)(i := Some t) \<or> teid_of (?w f c) = teid_of w"
      using k1 [of f c] teid_of_set_tunnel [of "set_nas_security (security_mut w i f) i c" i]
      by (auto simp: keeps_tunnels_def)
    then have "tunnels_ok (?w f c) b" using tunnels_ok_alloc [OF a(3,1,2) al] by blast
    then show ?thesis using wf by (simp add: ecs_wf)
  qed
  have keep: "tunnels_ok (set_nas_security (security_mut w i f) i c) a" for f c
    using k1 [of f c] a(3) by (simp add: keeps_tunnels_def tunnels_ok_def)
  show ?thesis
    using res wf a b k1 k2 keep al unfolding handle_security_mode_complete_def Let_def
    by (auto simp: keeps_tunnels_def split: option.splits prod.splits)
qed

section \<open>The invariant of the MME\<close>

definition mme_inv :: "nat \<Rightarrow> Mme \<Rightarrow> bool" where
  "mme_inv n m \<longleftrightarrow> world_wf (m_world m) \<and> unat (next_id (m_world m)) \<le> n \<and>
     teid_inv (m_teids m) \<and> unat (ta_next (m_teids m)) \<le> 0x10000 + n \<and>
     tunnels_ok (m_world m) (m_teids m)"

lemma mme_inv_new [simp]: "mme_inv 0 Mme_new"
  by (simp add: mme_inv_def Mme_new_def tunnels_ok_def teid_of_def TeidAllocator_new_def
      teid_inv_def) (simp add: World_new_def)

lemma mme_inv_keeps:
  "mme_inv n m \<Longrightarrow> keeps_tunnels (m_world m) w' \<Longrightarrow> mme_inv (Suc n) (m\<lparr>m_world := w'\<rparr>)"
  by (simp add: mme_inv_def keeps_tunnels_def tunnels_ok_def)

lemma mme_inv_mono: "mme_inv n m \<Longrightarrow> mme_inv (Suc n) m"
  by (simp add: mme_inv_def)

lemma mme_inv_keepsD: "mme_inv n m \<Longrightarrow> keeps_tunnels (m_world m) w' \<Longrightarrow> mme_inv n (m\<lparr>m_world := w'\<rparr>)"
  by (simp add: mme_inv_def keeps_tunnels_def tunnels_ok_def)

lemma mme_inv_wf: "mme_inv n m \<Longrightarrow> world_wf (m_world m)"
  by (simp add: mme_inv_def)

lemma handle_icsrsp_inv: "mme_inv n m \<Longrightarrow> mme_inv (Suc n) (snd (handle_icsrsp m r))"
proof -
  assume inv: "mme_inv n m"
  then have wf: "world_wf (m_world m)" by (rule mme_inv_wf)
  have "keeps_tunnels (m_world m) (tunnel_mut (m_world m) i (\<lambda>t. t\<lparr>tc_dl_teid := d, tc_enb_addr := e\<rparr>))"
    for i d e using wf by (simp add: keeps_tunnels_def ecs_wf teid_of_tunnel_mut)
  then show ?thesis
    using inv by (auto simp: handle_icsrsp_def Let_def mme_inv_keeps mme_inv_mono split: list.splits option.splits)
qed

lemma handle_release_complete_inv:
  assumes inv: "mme_inv n m"
  shows "mme_inv (Suc n) (snd (handle_release_complete m r))"
proof -
  let ?i = "crc_mme_ue_s1ap_id r" and ?w = "m_world m"
  have wf: "world_wf ?w" using inv by (rule mme_inv_wf)
  have td: "teid_of (despawn ?w ?i) = (teid_of ?w)(?i := None)" by (rule teid_of_despawn [OF wf])
  have tun: "map_option tc_ul_teid (tunnel ?w ?i) = teid_of ?w ?i"
    by (simp add: ecs_abs wf teid_of_def map_option_bind comp_def)
  show ?thesis
  proof (cases "teid_of ?w ?i")
    case None
    then have "teid_of (despawn ?w ?i) = teid_of ?w" using td by auto
    moreover have "tunnel ?w ?i = None" using tun None by (metis map_option_is_None)
    ultimately show ?thesis
      using inv by (auto simp: handle_release_complete_def Let_def mme_inv_def ecs_wf tunnels_ok_def
          split: option.splits)
  next
    case (Some t)
    have "tunnels_ok (despawn ?w ?i) (teid_release (m_teids m) t)"
      using tunnels_ok_release [OF _ _ Some td] inv by (simp add: mme_inv_def)
    moreover have "teid_inv (teid_release (m_teids m) t)"
      using teid_ids.release_ok inv Some by (auto simp: mme_inv_def tunnels_ok_def)
    moreover obtain tu where "tunnel ?w ?i = Some tu" "tc_ul_teid tu = t" using tun Some by auto
    ultimately show ?thesis
      using inv Some by (auto simp: handle_release_complete_def Let_def mme_inv_def ecs_wf
          split: option.splits)
  qed
qed

lemma unwrap_uplink_keeps: "world_wf w \<Longrightarrow> keeps_tunnels w (snd (unwrap_uplink cr w i pdu))"
  by (auto simp: unwrap_uplink_def Let_def split: option.splits prod.splits)

lemma dispatch_nas_inv:
  assumes inv: "mme_inv n m" and n: "n < 4294967296 - 0x10000 - 1"
  shows "mme_inv (Suc n) (snd (dispatch_nas cr m enb i p))"
proof -
  have wf: "world_wf (m_world m)" using inv by (rule mme_inv_wf)
  have a: "teid_inv (m_teids m)" "teid_room (m_teids m)" "tunnels_ok (m_world m) (m_teids m)"
    using inv n by (auto simp: mme_inv_def teid_room_def)
  have smc: "mme_inv (Suc n) (m\<lparr>m_world := w', m_teids := a'\<rparr>)"
    if "handle_security_mode_complete cr (m_world m) enb i (m_phase3_upf m) (m_teids m) = (out, w', a')"
    for out w' a'
    using handle_security_mode_complete_ok [OF wf a that] inv by (simp add: mme_inv_def)
  show ?thesis
    using smc handle_auth_response_keeps [OF wf, of enb i p]
      handle_detach_request_keeps [OF wf, of cr enb i p] inv unfolding dispatch_nas_def
    by (auto simp: handle_attach_complete_def mme_inv_keeps mme_inv_mono
        split: sum.splits NasPdu.splits prod.splits)
qed

lemma handle_uplink_nas_inv:
  assumes inv: "mme_inv n m" and n: "n < 4294967296 - 0x10000 - 1"
  shows "mme_inv (Suc n) (snd (handle_uplink_nas cr m enb i pdu))"
proof -
  obtain plain w where u: "unwrap_uplink cr (m_world m) i pdu = (plain, w)" by fastforce
  then have "keeps_tunnels (m_world m) w"
    using unwrap_uplink_keeps [OF mme_inv_wf [OF inv], of cr i pdu] by simp
  then have "mme_inv n (m\<lparr>m_world := w\<rparr>)" by (rule mme_inv_keepsD [OF inv])
  with n show ?thesis
    by (auto simp: handle_uplink_nas_def u Let_def dispatch_nas_inv mme_inv_mono split: option.splits)
qed

lemma process_s1ap_inv:
  assumes inv: "mme_inv n m" and n: "n < 4294967296 - 0x10000 - 1"
  shows "\<exists>out m'. process_s1ap cr rand m msg = Some (out, m') \<and> mme_inv (Suc n) m'"
proof (cases msg)
  case (MInitialUeMessage u)
  have "unat (next_id (m_world m)) + 1 < 4294967296" using inv n by (simp add: mme_inv_def)
  then obtain out w' reg' hss' where
    "start_attach cr rand (m_world m) (m_registry m) (m_hss m) (ium_enb_ue_s1ap_id u) (ium_nas_pdu u)
       (ium_tai u) = Some (out, w', reg', hss')"
    "world_wf w'" "unat (next_id w') \<le> unat (next_id (m_world m)) + 1" "teid_of w' = teid_of (m_world m)"
    using start_attach_keeps [OF mme_inv_wf [OF inv]] by metis
  with MInitialUeMessage inv show ?thesis
    by (simp add: process_s1ap_def mme_inv_def tunnels_ok_def)
next
  case (MUplinkNasTransport u)
  then show ?thesis
    using handle_uplink_nas_inv [OF inv n, of cr "unt_enb_ue_s1ap_id u" "unt_mme_ue_s1ap_id u" "unt_nas_pdu u"]
    by (cases "handle_uplink_nas cr m (unt_enb_ue_s1ap_id u) (unt_mme_ue_s1ap_id u) (unt_nas_pdu u)")
       (simp add: process_s1ap_def)
next
  case (MInitialContextSetupResponse r)
  then show ?thesis
    using handle_icsrsp_inv [OF inv, of r] by (cases "handle_icsrsp m r") (simp add: process_s1ap_def)
next
  case (MUeContextReleaseComplete r)
  then show ?thesis
    using handle_release_complete_inv [OF inv, of r]
    by (cases "handle_release_complete m r") (simp add: process_s1ap_def)
qed (use mme_inv_mono [OF inv] in \<open>simp_all add: process_s1ap_def\<close>)

end
