(* ===== verification/Mme_Attach.thy ===== *)
theory Mme_Attach
  imports Mme_Invariant
begin

text \<open>
  Runs of the MME. The first part is about arbitrary message sequences, the second about who
  becomes authenticated, the third follows one honest subscriber through the attach
  procedure: the UE side is the specification \<open>ue_answer\<close> of a USIM that checks MAC-A and
  answers with RES, and the security context it derives.
\<close>

section \<open>Sequences of messages\<close>

text \<open>Each input is a message with the random challenge available while it is processed.\<close>

fun mme_run :: "crypto \<Rightarrow> Mme \<Rightarrow> (bytes \<times> S1apMessage) list \<Rightarrow> (mme_output list \<times> Mme) option" where
  "mme_run cr m [] = Some ([], m)"
| "mme_run cr m ((rand, msg) # inputs) =
     Option.bind (process_s1ap cr rand m msg) (\<lambda>(out, m).
       Option.bind (mme_run cr m inputs) (\<lambda>(outs, m). Some (out # outs, m)))"

lemma mme_run_inv:
  "mme_inv n m \<Longrightarrow> n + length inputs < 4294967296 - 0x10000 \<Longrightarrow>
   \<exists>outs m'. mme_run cr m inputs = Some (outs, m') \<and> mme_inv (n + length inputs) m'"
proof (induction inputs arbitrary: n m)
  case Nil
  then show ?case by simp
next
  case (Cons x inputs)
  obtain rand msg where x: "x = (rand, msg)" by (cases x)
  obtain out m1 where s: "process_s1ap cr rand m msg = Some (out, m1)" "mme_inv (Suc n) m1"
    using process_s1ap_inv [OF Cons.prems(1)] Cons.prems(2) by fastforce
  obtain outs m' where r: "mme_run cr m1 inputs = Some (outs, m')" "mme_inv (Suc n + length inputs) m'"
    using Cons.IH [OF s(2)] Cons.prems(2) by auto
  with s(1) x show ?case by simp
qed

lemma mme_inv_start: "mme_inv 0 (Mme_new\<lparr>m_phase3_upf := upf, m_hss := hss\<rparr>)"
  using mme_inv_new by (simp add: mme_inv_def)

lemma mme_inv_teids:
  assumes "mme_inv n m"
  shows "teid_of (m_world m) i = Some t \<Longrightarrow> t \<notin> set (ta_free (m_teids m))"
    "teid_of (m_world m) i = Some t \<Longrightarrow> teid_of (m_world m) j = Some t \<Longrightarrow> i = j"
    "distinct (ta_free (m_teids m))"
  using assms by (auto simp: mme_inv_def tunnels_ok_def teid_used_def teid_inv_def)

section \<open>Who becomes authenticated\<close>

lemma sht_plain_pdus [simp]:
  "unwrap_uplink cr w i (NAS_PLAIN_HEADER # rest) = (Some (NAS_PLAIN_HEADER # rest), w)"
  by (simp add: unwrap_uplink_def NAS_PLAIN_HEADER_def SHT_PLAIN_def)

lemma auth_state_unwrap:
  "world_wf w \<Longrightarrow> auth_state (snd (unwrap_uplink cr w i pdu)) j = auth_state w j"
  "world_wf w \<Longrightarrow> security (snd (unwrap_uplink cr w i pdu)) j = security w j"
  by (auto simp: unwrap_uplink_def Let_def ecs_abs ecs_wf option.map_comp comp_def
      split: option.splits prod.splits)

lemma auth_state_other_handlers:
  assumes "world_wf w"
  shows "auth_state (snd (handle_detach_request cr w enb i pdu)) j = auth_state w j"
    "auth_state (fst (snd (handle_security_mode_complete cr w enb i upf a))) j = auth_state w j"
    "auth_state (despawn w i) j = (if j = i then None else auth_state w j)"
    "auth_state (tunnel_mut w i f) j = auth_state w j"
  using assms
  by (auto simp: handle_detach_request_def handle_security_mode_complete_def Let_def ecs_abs ecs_wf
      option.map_comp comp_def split: option.splits prod.splits sum.splits NasPdu.splits if_splits)

lemma handle_auth_response_state:
  assumes "world_wf w"
  shows "auth_state (snd (handle_auth_response w enb i pdu)) j =
    (case decode_nas pdu of
       Inr (AuthenticationResponse a) \<Rightarrow>
         (case security w i of
            None \<Rightarrow> auth_state w j
          | Some sec \<Rightarrow> if j \<noteq> i then auth_state w j
                       else if pending_xres sec = ap_res a then Some Authenticated
                       else Some (Failed ResMismatch))
     | _ \<Rightarrow> auth_state w j)"
  using assms
  by (auto simp: handle_auth_response_def Let_def verify_res_def ecs_abs ecs_wf
      option.map_comp comp_def split: option.splits sum.splits NasPdu.splits)

lemma start_attach_state:
  assumes wf: "world_wf w"
    and s: "start_attach cr rand w reg hss enb pdu tai = Some (out, w', reg', hss')"
    and room: "unat (next_id w) + 1 < 4294967296"
  shows "auth_state w' j = auth_state w j \<or> auth_state w' j = Some ChallengeIssued"
proof -
  obtain e w1 where sp: "spawn w = Some (e, w1)" "world_wf w1" "abs_world w e = None"
    "abs_world w1 = (abs_world w)(e \<mapsto> empty_entity)"
    using spawn_abs [OF wf room] by blast
  have "auth_state (set_auth_state (insert_security (insert_identity w1 e x) e y) e ChallengeIssued) j =
      (if j = e then Some ChallengeIssued else auth_state w j)" for x y
    using sp wf by (simp add: ecs_abs ecs_wf)
  then show ?thesis
    using s sp(1) unfolding start_attach_def Let_def
    by (auto split: sum.splits NasPdu.splits option.splits prod.splits if_splits)
qed

lemma dispatch_nas_state:
  assumes wf: "world_wf (m_world m)"
    and new: "auth_state (m_world (snd (dispatch_nas cr m enb i p))) j = Some Authenticated"
    and old: "auth_state (m_world m) j \<noteq> Some Authenticated"
  shows "j = i \<and> (\<exists>a sec. decode_nas p = Inr (AuthenticationResponse a) \<and>
    security (m_world m) i = Some sec \<and> pending_xres sec = ap_res a)"
proof -
  note h = auth_state_other_handlers [OF wf] handle_auth_response_state [OF wf]
  show ?thesis
  proof (cases "\<exists>a. decode_nas p = Inr (AuthenticationResponse a)")
    case True
    then show ?thesis
      using new old h(5) [of enb i p j]
      by (auto simp: dispatch_nas_def split_beta Let_def split: option.splits if_splits)
  next
    case False
    then show ?thesis
      using new old h(1) [of cr enb i p j] h(2) [of cr enb i "m_phase3_upf m" "m_teids m" j]
      by (auto simp: dispatch_nas_def split_beta Let_def handle_attach_complete_def
          split: sum.splits NasPdu.splits)
  qed
qed

section \<open>One honest subscriber\<close>

text \<open>
  A USIM with the subscriber's key: it removes AK from AUTN to get SQN, recomputes the vector,
  and answers only when MAC-A is the one it received.
\<close>

definition ue_answer :: "crypto \<Rightarrow> MilenageContext \<Rightarrow> bytes \<Rightarrow> bytes \<Rightarrow> (AuthVector \<times> bytes) option" where
  "ue_answer cr ctx rand tok =
     (let ak = av_ak (milenage_compute cr ctx rand (replicate 6 0) (replicate 2 0));
          sqn = xor_bytes (take 6 tok) ak;
          av = milenage_compute cr ctx rand sqn (take 2 (drop 6 tok))
      in if mac_a av = drop 8 tok then Some (av, sqn) else None)"

definition ue_context :: "crypto \<Rightarrow> AuthVector \<Rightarrow> bytes \<Rightarrow> bytes \<Rightarrow> NasSecurityContext" where
  "ue_context cr av sqn plmn =
     NasSecurityContext_new cr (derive_kasme cr (av_ck av) (av_ik av) plmn (xor_bytes sqn (av_ak av)))
       SELECTED_EEA SELECTED_EIA"

lemma av_ak_independent:
  "av_ak (milenage_compute cr ctx rand sqn amf) = av_ak (milenage_compute cr ctx rand sqn' amf')"
  by (simp add: milenage_compute_def Let_def)

lemma ue_answer_autn:
  assumes "aes_len cr" "length rand = 16" "length (mc_opc ctx) = 16" "length sqn = 6" "length amf = 2"
  shows "ue_answer cr ctx rand (autn (milenage_compute cr ctx rand sqn amf) sqn amf) =
    Some (milenage_compute cr ctx rand sqn amf, sqn)"
proof -
  let ?av = "milenage_compute cr ctx rand sqn amf"
  have ak: "av_ak (milenage_compute cr ctx rand (replicate 6 0) (replicate 2 0)) = av_ak ?av"
    by (rule av_ak_independent)
  have "length (av_ak ?av) = 6" using assms by (rule length_milenage_compute)
  note f = autn_fields [OF assms(4) this assms(5)]
  show ?thesis by (simp add: ue_answer_def Let_def ak f)
qed

lemma length_autn:
  "length sqn = 6 \<Longrightarrow> length (av_ak av) = 6 \<Longrightarrow> length amf = 2 \<Longrightarrow> length (mac_a av) = 8 \<Longrightarrow>
   length (autn av sqn amf) = 16"
  by (simp add: autn_def)

text \<open>The entity that step 1 leaves behind.\<close>

definition challenged_entity :: "u64 \<Rightarrow> u32 \<Rightarrow> bytes \<Rightarrow> AuthVector \<Rightarrow> bytes \<Rightarrow> bytes \<Rightarrow> entity" where
  "challenged_entity imsi enb rand av plmn sqn =
     empty_entity\<lparr>e_identity := \<lparr>id_imsi = imsi, id_enb_ue_s1ap_id = enb, id_ue_ip = replicate 4 0\<rparr>,
       e_auth := ChallengeIssued,
       e_security := \<lparr>pending_rand = rand, pending_xres = av_res av, sc_ck = av_ck av,
         sc_ik = av_ik av, sc_ak = av_ak av, sc_plmn = plmn, sc_sqn_used = sqn\<rparr>\<rparr>"

lemma attach_step1:
  fixes m :: Mme and cr :: crypto and rand :: bytes
  defines "w \<equiv> m_world m"
  assumes wf: "world_wf w" and room: "unat (next_id w) + 1 < 4294967296"
    and sub: "m_hss m imsi = Some sub" and imsi: "imsi < 10 ^ 15"
    and u: "ium_nas_pdu u = encode_attach_request imsi ty ksi"
  defines "sqn \<equiv> Sqn_to_bytes (sr_sqn sub)"
  defines "av \<equiv> milenage_compute cr (sr_ctx sub) rand sqn MME_AMF"
  shows "\<exists>ent w' hss'. process_s1ap cr rand m (MInitialUeMessage u) =
       Some (([MDownlinkNasTransport \<lparr>dnt_mme_ue_s1ap_id = ent,
         dnt_enb_ue_s1ap_id = ium_enb_ue_s1ap_id u,
         dnt_nas_pdu = encode_auth_request 0 rand (autn av sqn MME_AMF)\<rparr>], []),
         m\<lparr>m_world := w', m_registry := (m_registry m)(imsi \<mapsto> ent), m_hss := hss'\<rparr>) \<and>
    world_wf w' \<and>
    abs_world w' ent = Some (challenged_entity imsi (ium_enb_ue_s1ap_id u) rand av (take 3 (ium_tai u)) sqn)"
proof -
  obtain ent w1 where sp: "spawn w = Some (ent, w1)" "world_wf w1"
    "abs_world w1 = (abs_world w)(ent \<mapsto> empty_entity)"
    using spawn_abs [OF wf room] by blast
  define sec where "sec = SecurityContext_new_empty\<lparr>pending_rand := rand, pending_xres := av_res av,
    sc_ck := av_ck av, sc_ik := av_ik av, sc_ak := av_ak av, sc_plmn := take 3 (ium_tai u),
    sc_sqn_used := sqn\<rparr>"
  let ?w = "set_auth_state (insert_security (insert_identity w1 ent
    \<lparr>id_imsi = imsi, id_enb_ue_s1ap_id = ium_enb_ue_s1ap_id u, id_ue_ip = replicate 4 0\<rparr>) ent sec) ent ChallengeIssued"
  have gen: "\<exists>hss'. generate_auth_vector cr rand (m_hss m) imsi =
      (Some \<lparr>hi_rand = rand, hi_vector = av, hi_sqn_used = sqn\<rparr>, hss')"
    using generate_auth_vector_Some [of "m_hss m" imsi sub cr rand] sub
    by (simp add: av_def sqn_def MME_AMF_def)
  then obtain hss' where hss': "generate_auth_vector cr rand (m_hss m) imsi =
      (Some \<lparr>hi_rand = rand, hi_vector = av, hi_sqn_used = sqn\<rparr>, hss')" ..
  have "process_s1ap cr rand m (MInitialUeMessage u) =
       Some (([MDownlinkNasTransport \<lparr>dnt_mme_ue_s1ap_id = ent,
         dnt_enb_ue_s1ap_id = ium_enb_ue_s1ap_id u,
         dnt_nas_pdu = encode_auth_request 0 rand (autn av sqn MME_AMF)\<rparr>], []),
         m\<lparr>m_world := ?w, m_registry := (m_registry m)(imsi \<mapsto> ent), m_hss := hss'\<rparr>)"
    using sp(1) hss' attach_request_roundtrip [OF imsi, of ty ksi]
    by (simp add: process_s1ap_def start_attach_def Let_def u w_def [symmetric] register_def sec_def)
  moreover have "world_wf ?w" using sp(2) by (simp add: ecs_wf)
  moreover have "abs_world ?w ent =
      Some (challenged_entity imsi (ium_enb_ue_s1ap_id u) rand av (take 3 (ium_tai u)) sqn)"
    using sp(2,3) by (simp add: ecs_wf ecs_abs challenged_entity_def sec_def SecurityContext_new_empty_def)
  ultimately show ?thesis by blast
qed

lemma attach_step2:
  assumes wf: "world_wf (m_world m)" and e: "abs_world (m_world m) i = Some e"
    and res: "pending_xres (e_security e) = res" "length res = 8"
    and u: "unt_mme_ue_s1ap_id u = i" "unt_nas_pdu u = encode_auth_response res"
  shows "\<exists>w'. process_s1ap cr rand m (MUplinkNasTransport u) =
       Some (([MDownlinkNasTransport \<lparr>dnt_mme_ue_s1ap_id = i,
         dnt_enb_ue_s1ap_id = unt_enb_ue_s1ap_id u,
         dnt_nas_pdu = encode_sec_mode_cmd SELECTED_EEA SELECTED_EIA 0 [0x20, 0x40]\<rparr>], []),
         m\<lparr>m_world := w'\<rparr>) \<and> world_wf w' \<and>
    abs_world w' i = Some (e\<lparr>e_security := clear_pending_challenge (e_security e), e_auth := Authenticated\<rparr>)"
proof -
  let ?w = "set_auth_state (security_mut (m_world m) i clear_pending_challenge) i Authenticated"
  have pl: "encode_auth_response res = NAS_PLAIN_HEADER # MT_AUTHENTICATION_RESPONSE # of_nat (length res) # res"
    by (simp add: encode_auth_response_def write_lv_def)
  have "unwrap_uplink cr (m_world m) i (encode_auth_response res) = (Some (encode_auth_response res), m_world m)"
    unfolding pl by (rule sht_plain_pdus)
  moreover note auth_response_roundtrip [OF res(2)]
  moreover have "security (m_world m) i = Some (e_security e)" using wf e by (simp add: ecs_abs)
  ultimately have "process_s1ap cr rand m (MUplinkNasTransport u) =
       Some (([MDownlinkNasTransport \<lparr>dnt_mme_ue_s1ap_id = i,
         dnt_enb_ue_s1ap_id = unt_enb_ue_s1ap_id u,
         dnt_nas_pdu = encode_sec_mode_cmd SELECTED_EEA SELECTED_EIA 0 [0x20, 0x40]\<rparr>], []),
         m\<lparr>m_world := ?w\<rparr>)"
    using res(1) u
    by (simp add: process_s1ap_def handle_uplink_nas_def dispatch_nas_def handle_auth_response_def
        verify_res_def Let_def)
  moreover have "world_wf ?w" using wf by (simp add: ecs_wf)
  moreover have "abs_world ?w i =
      Some (e\<lparr>e_security := clear_pending_challenge (e_security e), e_auth := Authenticated\<rparr>)"
    using wf e by (simp add: ecs_wf ecs_abs)
  ultimately show ?thesis by blast
qed

text \<open>
  Step 3 opens the protected connection: the accept message and the new context are the
  result of protecting it with a context made from the stored keys.
\<close>

definition accept_pdu :: "crypto \<Rightarrow> entity \<Rightarrow> bytes \<times> NasSecurityContext" where
  "accept_pdu cr e =
     (let s = e_security e;
          kasme = derive_kasme cr (sc_ck s) (sc_ik s) (sc_plmn s) (xor_bytes (sc_sqn_used s) (sc_ak s))
      in encode_protected cr SHT_INTEGRITY_CIPHERED NAS_BEARER
           (NasSecurityContext_new cr kasme SELECTED_EEA SELECTED_EIA)
           (encode_attach_accept 1 0x54 [] (Some (id_ue_ip (e_identity e))) None))"

text \<open>The NAS PDU a message for the eNodeB carries.\<close>

fun carried_nas :: "S1apMessage \<Rightarrow> bytes option" where
  "carried_nas (MDownlinkNasTransport d) = Some (dnt_nas_pdu d)"
| "carried_nas (MInitialContextSetupRequest r) = icq_nas_pdu r"
| "carried_nas _ = None"

lemma attach_step3:
  assumes wf: "world_wf (m_world m)" and e: "abs_world (m_world m) i = Some e"
    and u: "unt_mme_ue_s1ap_id u = i" "unt_nas_pdu u = encode_sec_mode_complete"
  shows "\<exists>msg evs m'. process_s1ap cr rand m (MUplinkNasTransport u) = Some (([msg], evs), m') \<and>
    carried_nas msg = Some (fst (accept_pdu cr e)) \<and>
    world_wf (m_world m') \<and> m_registry m' = m_registry m \<and>
    (\<exists>tun. abs_world (m_world m') i = Some (e\<lparr>e_security := clear_post_kasme (e_security e),
       e_nas_security := Some (snd (accept_pdu cr e)), e_tunnel := tun\<rparr>))"
proof -
  have pl: "unwrap_uplink cr (m_world m) i encode_sec_mode_complete = (Some encode_sec_mode_complete, m_world m)"
    unfolding encode_sec_mode_complete_def by (rule sht_plain_pdus)
  have g: "identity (m_world m) i = Some (e_identity e)" "security (m_world m) i = Some (e_security e)"
    using wf e by (simp_all add: ecs_abs)
  obtain pdu ctx where ap: "accept_pdu cr e = (pdu, ctx)" by (cases "accept_pdu cr e")
  note ap' = ap [unfolded accept_pdu_def Let_def]
  obtain t a where al: "teid_alloc (m_teids m) = (t, a)" by (cases "teid_alloc (m_teids m)")
  note d = process_s1ap_def handle_uplink_nas_def dispatch_nas_def handle_security_mode_complete_def
    Let_def bare_messages_roundtrip
  show ?thesis
  proof (cases "m_phase3_upf m")
    case None
    let ?w = "set_nas_security (security_mut (m_world m) i clear_post_kasme) i ctx"
    have "process_s1ap cr rand m (MUplinkNasTransport u) =
        Some (([MDownlinkNasTransport \<lparr>dnt_mme_ue_s1ap_id = i,
          dnt_enb_ue_s1ap_id = unt_enb_ue_s1ap_id u, dnt_nas_pdu = pdu\<rparr>], []), m\<lparr>m_world := ?w\<rparr>)"
      using u pl g ap' None by (simp add: d)
    moreover have "\<exists>tun. abs_world ?w i = Some (e\<lparr>e_security := clear_post_kasme (e_security e),
        e_nas_security := Some ctx, e_tunnel := tun\<rparr>)"
      using wf e by (auto simp: ecs_wf ecs_abs intro!: exI [of _ "e_tunnel e"])
    ultimately show ?thesis using ap wf by (simp add: ecs_wf)
  next
    case (Some upf)
    let ?w = "set_tunnel (set_nas_security (security_mut (m_world m) i clear_post_kasme) i ctx) i
      \<lparr>tc_ul_teid = t, tc_dl_teid = 0, tc_enb_addr = replicate 4 0\<rparr>"
    have "\<exists>r ev. process_s1ap cr rand m (MUplinkNasTransport u) =
        Some (([MInitialContextSetupRequest r], ev), m\<lparr>m_world := ?w, m_teids := a\<rparr>) \<and> icq_nas_pdu r = Some pdu"
      using u pl g ap' al Some by (simp add: d)
    then obtain r ev where "process_s1ap cr rand m (MUplinkNasTransport u) =
        Some (([MInitialContextSetupRequest r], ev), m\<lparr>m_world := ?w, m_teids := a\<rparr>)"
      "icq_nas_pdu r = Some pdu" by blast
    moreover have "\<exists>tun. abs_world ?w i = Some (e\<lparr>e_security := clear_post_kasme (e_security e),
        e_nas_security := Some ctx, e_tunnel := tun\<rparr>)"
      using wf e by (cases e) (auto simp: ecs_wf ecs_abs)
    ultimately show ?thesis using ap wf by (simp add: ecs_wf)
  qed
qed

lemma accept_pdu_opens:
  assumes cr: "ctr_stream cr" "cmac_len cr"
    and ip: "length (id_ue_ip (e_identity e)) = 4"
    and ctx: "ctx = NasSecurityContext_new cr (derive_kasme cr (sc_ck (e_security e)) (sc_ik (e_security e))
      (sc_plmn (e_security e)) (xor_bytes (sc_sqn_used (e_security e)) (sc_ak (e_security e))))
      SELECTED_EEA SELECTED_EIA"
  obtains plain ctx' where
    "decode_protected_downlink cr NAS_BEARER ctx (fst (accept_pdu cr e)) = (Some plain, ctx')"
    "decode_nas plain = Inr (AttachAccept \<lparr>aa_attach_result = 1, aa_t3412_value = 0x54, aa_guti = None,
       aa_ip_address = Some (id_ue_ip (e_identity e)), aa_apn = None\<rparr>)"
proof -
  have ok: "channel_ok cr SHT_INTEGRITY_CIPHERED"
    using cr by (simp add: channel_ok_def SHT_INTEGRITY_CIPHERED_def)
  let ?p = "encode_attach_accept 1 0x54 [] (Some (id_ue_ip (e_identity e))) None"
  have "\<exists>r'. decode_protected_downlink cr NAS_BEARER ctx (fst (accept_pdu cr e)) = (Some ?p, r')"
    using lte_dl.dec_enc [OF ok, of ctx ctx NAS_BEARER ?p] by (auto simp: accept_pdu_def Let_def ctx)
  moreover have "decode_nas ?p = Inr (AttachAccept \<lparr>aa_attach_result = 1, aa_t3412_value = 0x54,
      aa_guti = None, aa_ip_address = Some (id_ue_ip (e_identity e)), aa_apn = None\<rparr>)"
    using attach_accept_roundtrip [of "[]" "Some (id_ue_ip (e_identity e))" None 1 "0x54"] ip by simp
  ultimately show ?thesis using that by blast
qed

text \<open>
  The dialogue of a UE with the MME: attach request, answer to the challenge, security mode
  complete, and opening the accept message with the UE's own context. The result is the
  entity id, the message the UE decoded at the end, and the MME.
\<close>

definition ue_dialogue ::
    "crypto \<Rightarrow> bytes \<Rightarrow> Mme \<Rightarrow> u64 \<Rightarrow> MilenageContext \<Rightarrow> u32 \<Rightarrow> bytes \<Rightarrow> bytes \<Rightarrow> (u32 \<times> NasPdu \<times> Mme) option" where
  "ue_dialogue cr rand m imsi usim enb tai cgi =
     (let up = (\<lambda>ent pdu. MUplinkNasTransport \<lparr>unt_mme_ue_s1ap_id = ent, unt_enb_ue_s1ap_id = enb,
                  unt_nas_pdu = pdu, unt_tai = tai, unt_eutran_cgi = cgi\<rparr>) in
      case process_s1ap cr rand m (MInitialUeMessage \<lparr>ium_enb_ue_s1ap_id = enb,
             ium_nas_pdu = encode_attach_request imsi 1 7, ium_tai = tai, ium_eutran_cgi = cgi,
             ium_rrc_cause = 0\<rparr>) of
        Some (([MDownlinkNasTransport d1], []), m1) \<Rightarrow>
          (case decode_nas (dnt_nas_pdu d1) of
             Inr (AuthenticationRequest q) \<Rightarrow>
               Option.bind (ue_answer cr usim (aq_rand q) (aq_autn q)) (\<lambda>(av, sqn).
                 (case process_s1ap cr rand m1 (up (dnt_mme_ue_s1ap_id d1) (encode_auth_response (av_res av))) of
                    Some (([MDownlinkNasTransport d2], []), m2) \<Rightarrow>
                      (case decode_nas (dnt_nas_pdu d2) of
                         Inr (SecurityModeCommand c) \<Rightarrow>
                           (case process_s1ap cr rand m2 (up (dnt_mme_ue_s1ap_id d1) encode_sec_mode_complete) of
                              Some (([msg3], _), m3) \<Rightarrow>
                                Option.bind (carried_nas msg3) (\<lambda>nas3.
                                  (case decode_protected_downlink cr NAS_BEARER
                                          (ue_context cr av sqn (take 3 tai)) nas3 of
                                     (Some plain, _) \<Rightarrow>
                                       (case decode_nas plain of
                                          Inr p \<Rightarrow> Some (dnt_mme_ue_s1ap_id d1, p, m3) | _ \<Rightarrow> None)
                                   | _ \<Rightarrow> None))
                            | _ \<Rightarrow> None)
                       | _ \<Rightarrow> None)
                  | _ \<Rightarrow> None))
           | _ \<Rightarrow> None)
      | _ \<Rightarrow> None)"

text \<open>
  C4. End to end: a provisioned subscriber whose USIM holds the key attaches. The USIM accepts
  the challenge, its answer is accepted, and after security mode complete the UE opens the
  protected accept message with the context it derived itself; the entity is authenticated
  and holds a security context.
\<close>

theorem honest_attach:
  assumes wf: "world_wf (m_world m)" and room: "unat (next_id (m_world m)) + 1 < 4294967296"
    and hss: "hss_wf (m_hss m)" "m_hss m imsi = Some sub" and imsi: "imsi < 10 ^ 15"
    and cr: "aes_len cr" "ctr_stream cr" "cmac_len cr" and rand: "length rand = 16"
  shows "\<exists>ent m'. ue_dialogue cr rand m imsi (sr_ctx sub) enb tai cgi =
      Some (ent, AttachAccept \<lparr>aa_attach_result = 1, aa_t3412_value = 0x54, aa_guti = None,
        aa_ip_address = Some [0, 0, 0, 0], aa_apn = None\<rparr>, m') \<and>
    is_authenticated (m_world m') ent \<and> nas_security (m_world m') ent \<noteq> None \<and>
    lookup (m_registry m') imsi = Some ent"
proof -
  let ?u = "\<lparr>ium_enb_ue_s1ap_id = enb, ium_nas_pdu = encode_attach_request imsi 1 7, ium_tai = tai,
    ium_eutran_cgi = cgi, ium_rrc_cause = 0\<rparr>"
  let ?up = "\<lambda>ent pdu. \<lparr>unt_mme_ue_s1ap_id = ent, unt_enb_ue_s1ap_id = enb, unt_nas_pdu = pdu,
    unt_tai = tai, unt_eutran_cgi = cgi\<rparr>"
  let ?sqn = "Sqn_to_bytes (sr_sqn sub)"
  let ?av = "milenage_compute cr (sr_ctx sub) rand ?sqn MME_AMF"
  let ?e = "challenged_entity imsi enb rand ?av (take 3 tai) ?sqn"
  obtain ent w1 hss1 where s1: "process_s1ap cr rand m (MInitialUeMessage ?u) =
      Some (([MDownlinkNasTransport \<lparr>dnt_mme_ue_s1ap_id = ent, dnt_enb_ue_s1ap_id = enb,
        dnt_nas_pdu = encode_auth_request 0 rand (autn ?av ?sqn MME_AMF)\<rparr>], []),
        m\<lparr>m_world := w1, m_registry := (m_registry m)(imsi \<mapsto> ent), m_hss := hss1\<rparr>)"
    and w1: "world_wf w1" "abs_world w1 ent = Some ?e"
    using attach_step1 [OF wf room hss(2) imsi, of ?u 1 7 cr rand] by (simp del: fun_upd_apply) blast
  let ?m1 = "m\<lparr>m_world := w1, m_registry := (m_registry m)(imsi \<mapsto> ent), m_hss := hss1\<rparr>"
  have opc: "length (mc_opc (sr_ctx sub)) = 16" using hss by (auto simp: hss_wf_def)
  have len: "length ?sqn = 6" "length MME_AMF = 2" by (simp_all add: MME_AMF_def)
  note lav = length_milenage_compute [OF cr(1) rand opc len]
  have tok: "length (autn ?av ?sqn MME_AMF) = 16" by (simp add: length_autn lav len)
  have d1: "decode_nas (encode_auth_request 0 rand (autn ?av ?sqn MME_AMF)) =
      Inr (AuthenticationRequest \<lparr>aq_nas_ksi = 0 AND 7, aq_rand = rand, aq_autn = autn ?av ?sqn MME_AMF\<rparr>)"
    by (rule auth_request_roundtrip [OF rand tok])
  have ue: "ue_answer cr (sr_ctx sub) rand (autn ?av ?sqn MME_AMF) = Some (?av, ?sqn)"
    by (rule ue_answer_autn [OF cr(1) rand opc len])
  let ?e2 = "?e\<lparr>e_security := clear_pending_challenge (e_security ?e), e_auth := Authenticated\<rparr>"
  obtain w2 where s2: "process_s1ap cr rand ?m1 (MUplinkNasTransport (?up ent (encode_auth_response (av_res ?av)))) =
      Some (([MDownlinkNasTransport \<lparr>dnt_mme_ue_s1ap_id = ent, dnt_enb_ue_s1ap_id = enb,
        dnt_nas_pdu = encode_sec_mode_cmd SELECTED_EEA SELECTED_EIA 0 [0x20, 0x40]\<rparr>], []), ?m1\<lparr>m_world := w2\<rparr>)"
    and w2: "world_wf w2" "abs_world w2 ent = Some ?e2"
    using attach_step2 [of ?m1 ent ?e "av_res ?av" "?up ent (encode_auth_response (av_res ?av))" cr rand] w1 lav(2)
    by (auto simp: challenged_entity_def)
  let ?m2 = "?m1\<lparr>m_world := w2\<rparr>"
  obtain msg evs m3 where s3: "process_s1ap cr rand ?m2 (MUplinkNasTransport (?up ent encode_sec_mode_complete)) =
      Some (([msg], evs), m3)" "carried_nas msg = Some (fst (accept_pdu cr ?e2))" "world_wf (m_world m3)"
      "m_registry m3 = m_registry ?m2"
    and w3: "\<exists>tun. abs_world (m_world m3) ent = Some (?e2\<lparr>e_security := clear_post_kasme (e_security ?e2),
       e_nas_security := Some (snd (accept_pdu cr ?e2)), e_tunnel := tun\<rparr>)"
    using attach_step3 [of ?m2 ent ?e2 "?up ent encode_sec_mode_complete" cr rand] w2 by auto
  have ip: "id_ue_ip (e_identity ?e2) = [0, 0, 0, 0]" by (simp add: challenged_entity_def numeral_eq_Suc)
  have ctx: "ue_context cr ?av ?sqn (take 3 tai) =
      NasSecurityContext_new cr (derive_kasme cr (sc_ck (e_security ?e2)) (sc_ik (e_security ?e2))
        (sc_plmn (e_security ?e2)) (xor_bytes (sc_sqn_used (e_security ?e2)) (sc_ak (e_security ?e2))))
        SELECTED_EEA SELECTED_EIA"
    by (simp add: ue_context_def challenged_entity_def clear_pending_challenge_def)
  obtain plain ctx' where op:
    "decode_protected_downlink cr NAS_BEARER (ue_context cr ?av ?sqn (take 3 tai)) (fst (accept_pdu cr ?e2)) = (Some plain, ctx')"
    "decode_nas plain = Inr (AttachAccept \<lparr>aa_attach_result = 1, aa_t3412_value = 0x54, aa_guti = None,
       aa_ip_address = Some [0, 0, 0, 0], aa_apn = None\<rparr>)"
    using accept_pdu_opens [OF cr(2,3) _ ctx] unfolding ip by auto
  have "ue_dialogue cr rand m imsi (sr_ctx sub) enb tai cgi =
      Some (ent, AttachAccept \<lparr>aa_attach_result = 1, aa_t3412_value = 0x54, aa_guti = None,
        aa_ip_address = Some [0, 0, 0, 0], aa_apn = None\<rparr>, m3)"
    unfolding ue_dialogue_def Let_def
    by (simp only: s1 option.case prod.case list.case S1apMessage.case DownlinkNasTransport.simps d1 sum.case
        NasPdu.case DecodedAuthenticationRequest.simps ue bind.bind_lunit s2 sec_mode_cmd_roundtrip s3 op)
  moreover have "is_authenticated (m_world m3) ent" "nas_security (m_world m3) ent \<noteq> None"
    using w3 s3(3) by (auto simp: is_authenticated_def ecs_abs)
  moreover have "lookup (m_registry m3) imsi = Some ent" by (simp add: s3(4) lookup_def)
  ultimately show ?thesis by blast
qed

definition sample_mme :: Mme where
  "sample_mme = with_phase3 (Mme_new\<lparr>m_hss := provision Hss_new 1010123456789 (replicate 16 1) (replicate 16 2)\<rparr>)
     [10, 0, 0, 1]"

lemma sample_mme_ok [simp]:
  "world_wf (m_world sample_mme)" "unat (next_id (m_world sample_mme)) + 1 < 4294967296"
  "hss_wf (m_hss sample_mme)"
  "m_hss sample_mme 1010123456789 =
     Some \<lparr>sr_ctx = \<lparr>mc_k = replicate 16 1, mc_opc = replicate 16 2\<rparr>, sr_sqn = 0\<rparr>"
  by (simp_all add: sample_mme_def with_phase3_def Mme_new_def hss_wf_provision)
     (simp_all add: World_new_def provision_def MilenageContext_new_def)

theorem honest_attach_witness:
  "\<exists>ent m'. ue_dialogue sample_crypto (replicate 16 7) sample_mme 1010123456789
      \<lparr>mc_k = replicate 16 1, mc_opc = replicate 16 2\<rparr> 3 [1, 2, 3, 4, 5] [1, 2, 3, 4, 5, 6, 7] =
      Some (ent, AttachAccept \<lparr>aa_attach_result = 1, aa_t3412_value = 0x54, aa_guti = None,
        aa_ip_address = Some [0, 0, 0, 0], aa_apn = None\<rparr>, m') \<and>
    is_authenticated (m_world m') ent \<and> nas_security (m_world m') ent \<noteq> None \<and>
    lookup (m_registry m') 1010123456789 = Some ent"
  using honest_attach [OF sample_mme_ok(1,2,3,4), of sample_crypto "replicate 16 7" 3 "[1, 2, 3, 4, 5]"
      "[1, 2, 3, 4, 5, 6, 7]"]
  by simp

text \<open>
  C6. Any sequence of fewer than 2 to the 32 minus 2 to the 16 messages, from a fresh MME with any
  subscribers, runs without a panic; afterwards the entity storage is well formed, no two
  live entities have the same uplink TEID, none of those TEIDs is on the free list, and the
  free list has no duplicates.
\<close>

theorem mme_run_safe:
  assumes "length inputs < 4294967296 - 0x10000"
  shows "\<exists>outs m. mme_run cr (Mme_new\<lparr>m_phase3_upf := upf, m_hss := hss\<rparr>) inputs = Some (outs, m) \<and>
    world_wf (m_world m) \<and> distinct (ta_free (m_teids m)) \<and>
    (\<forall>i t. teid_of (m_world m) i = Some t \<longrightarrow> t \<notin> set (ta_free (m_teids m))) \<and>
    (\<forall>i j t. teid_of (m_world m) i = Some t \<longrightarrow> teid_of (m_world m) j = Some t \<longrightarrow> i = j)"
proof -
  obtain outs m where r: "mme_run cr (Mme_new\<lparr>m_phase3_upf := upf, m_hss := hss\<rparr>) inputs = Some (outs, m)"
    and inv: "mme_inv (0 + length inputs) m"
    using mme_run_inv [OF mme_inv_start [where upf = upf and hss = hss], of inputs cr] assms by auto
  show ?thesis using r mme_inv_wf [OF inv] mme_inv_teids [OF inv] by blast
qed

theorem mme_run_safe_witness:
  "\<exists>outs m. mme_run sample_crypto (Mme_new\<lparr>m_phase3_upf := Some [10, 0, 0, 1], m_hss := Map.empty\<rparr>)
      [([], MUeContextReleaseComplete \<lparr>crc_mme_ue_s1ap_id = 0, crc_enb_ue_s1ap_id = 0\<rparr>)] = Some (outs, m) \<and>
    world_wf (m_world m) \<and> distinct (ta_free (m_teids m)) \<and>
    (\<forall>i t. teid_of (m_world m) i = Some t \<longrightarrow> t \<notin> set (ta_free (m_teids m))) \<and>
    (\<forall>i j t. teid_of (m_world m) i = Some t \<longrightarrow> teid_of (m_world m) j = Some t \<longrightarrow> i = j)"
  by (rule mme_run_safe) simp

text \<open>
  C11. An entity becomes authenticated only by an uplink NAS message for it whose plain PDU is an
  authentication response carrying exactly the expected response stored for it.
\<close>

theorem authenticated_only_by_xres:
  assumes wf: "world_wf (m_world m)" and room: "unat (next_id (m_world m)) + 1 < 4294967296"
    and step: "process_s1ap cr rand m msg = Some (out, m')"
    and new: "auth_state (m_world m') i = Some Authenticated"
    and old: "auth_state (m_world m) i \<noteq> Some Authenticated"
  shows "\<exists>u pdu a sec. msg = MUplinkNasTransport u \<and> unt_mme_ue_s1ap_id u = i \<and>
    fst (unwrap_uplink cr (m_world m) i (unt_nas_pdu u)) = Some pdu \<and>
    decode_nas pdu = Inr (AuthenticationResponse a) \<and>
    security (m_world m) i = Some sec \<and> pending_xres sec = ap_res a"
proof (cases msg)
  case (MUplinkNasTransport u)
  let ?i = "unt_mme_ue_s1ap_id u"
  obtain plain w where un: "unwrap_uplink cr (m_world m) ?i (unt_nas_pdu u) = (plain, w)" by fastforce
  have w: "world_wf w" "auth_state w j = auth_state (m_world m) j" "security w j = security (m_world m) j" for j
    using unwrap_uplink_keeps [OF wf, of cr ?i "unt_nas_pdu u"]
      auth_state_unwrap [OF wf, of cr ?i "unt_nas_pdu u" j] un by (auto simp: keeps_tunnels_def)
  show ?thesis
  proof (cases plain)
    case None
    then show ?thesis
      using step new old un w(2) [of i] MUplinkNasTransport
      by (auto simp: process_s1ap_def handle_uplink_nas_def)
  next
    case (Some pdu)
    then have m': "m' = snd (dispatch_nas cr (m\<lparr>m_world := w\<rparr>) (unt_enb_ue_s1ap_id u) ?i pdu)"
      using step un MUplinkNasTransport by (simp add: process_s1ap_def handle_uplink_nas_def)
    show ?thesis
      using dispatch_nas_state [of "m\<lparr>m_world := w\<rparr>" cr "unt_enb_ue_s1ap_id u" ?i pdu i] m' new old w
        MUplinkNasTransport un Some by auto
  qed
next
  case (MInitialUeMessage u)
  then obtain out w' reg' hss' where s: "start_attach cr rand (m_world m) (m_registry m) (m_hss m)
      (ium_enb_ue_s1ap_id u) (ium_nas_pdu u) (ium_tai u) = Some (out, w', reg', hss')" "m_world m' = w'"
    using step by (auto simp: process_s1ap_def)
  then show ?thesis using start_attach_state [OF wf s(1) room, of i] new old by auto
next
  case (MInitialContextSetupResponse r)
  then show ?thesis
    using step new old auth_state_other_handlers(4) [OF wf]
    by (auto simp: process_s1ap_def handle_icsrsp_def Let_def split: list.splits option.splits)
next
  case (MUeContextReleaseComplete r)
  then have "m_world m' = despawn (m_world m) (crc_mme_ue_s1ap_id r)"
    using step by (auto simp: process_s1ap_def handle_release_complete_def Let_def split: option.splits)
  then show ?thesis
    using new old auth_state_other_handlers(3) [OF wf, of "crc_mme_ue_s1ap_id r" i]
    by (auto split: if_splits)
qed (use step new old in \<open>simp_all add: process_s1ap_def\<close>)

text \<open>A state with one challenged entity, for the witnesses below.\<close>

definition one_entity_mme :: "SecurityContext \<Rightarrow> Mme" where
  "one_entity_mme sec = Mme_new\<lparr>m_world := insert_security (snd (the (spawn World_new))) 0 sec\<rparr>"

lemma one_entity_mme_ok:
  "world_wf (m_world (one_entity_mme sec))"
  "unat (next_id (m_world (one_entity_mme sec))) + 1 < 4294967296"
  "abs_world (m_world (one_entity_mme sec)) 0 = Some (empty_entity\<lparr>e_security := sec\<rparr>)"
proof -
  let ?w = "snd (the (spawn World_new))"
  have sp: "spawn World_new = Some (0, ?w)" "next_id ?w = 1"
    by (simp_all add: spawn_def World_new_def Let_def)
  obtain i w' where s: "spawn World_new = Some (i, w')" "world_wf w'"
    "abs_world w' = (abs_world World_new)(i \<mapsto> empty_entity)"
    by (rule spawn_abs [OF world_wf_new]) (simp_all add: World_new_def)
  then have w: "i = 0" "w' = ?w" using sp by auto
  then show "world_wf (m_world (one_entity_mme sec))"
    "unat (next_id (m_world (one_entity_mme sec))) + 1 < 4294967296"
    "abs_world (m_world (one_entity_mme sec)) 0 = Some (empty_entity\<lparr>e_security := sec\<rparr>)"
    using s sp(2) by (simp_all add: one_entity_mme_def ecs_wf ecs_abs)
qed

definition sample_uplink :: "bytes \<Rightarrow> UplinkNasTransport" where
  "sample_uplink pdu = \<lparr>unt_mme_ue_s1ap_id = 0, unt_enb_ue_s1ap_id = 9, unt_nas_pdu = pdu,
     unt_tai = [0, 0, 0, 0, 0], unt_eutran_cgi = replicate 7 0\<rparr>"

definition sample_sec :: SecurityContext where
  "sample_sec = SecurityContext_new_empty\<lparr>pending_xres := [1, 2, 3, 4, 5, 6, 7, 8]\<rparr>"

theorem authenticated_only_by_xres_witness:
  "\<exists>out m'. process_s1ap sample_crypto [] (one_entity_mme sample_sec)
      (MUplinkNasTransport (sample_uplink (encode_auth_response [1, 2, 3, 4, 5, 6, 7, 8]))) = Some (out, m') \<and>
    auth_state (m_world m') 0 = Some Authenticated \<and>
    (\<exists>u pdu a sec. MUplinkNasTransport (sample_uplink (encode_auth_response [1, 2, 3, 4, 5, 6, 7, 8])) =
        MUplinkNasTransport u \<and> unt_mme_ue_s1ap_id u = 0 \<and>
      fst (unwrap_uplink sample_crypto (m_world (one_entity_mme sample_sec)) 0 (unt_nas_pdu u)) = Some pdu \<and>
      decode_nas pdu = Inr (AuthenticationResponse a) \<and>
      security (m_world (one_entity_mme sample_sec)) 0 = Some sec \<and> pending_xres sec = ap_res a)"
proof -
  let ?m = "one_entity_mme sample_sec"
  let ?u = "sample_uplink (encode_auth_response [1, 2, 3, 4, 5, 6, 7, 8])"
  note ok = one_entity_mme_ok [of sample_sec]
  obtain out w' where s: "process_s1ap sample_crypto [] ?m (MUplinkNasTransport ?u) = Some (out, ?m\<lparr>m_world := w'\<rparr>)"
    "world_wf w'" "map_option e_auth (abs_world w' 0) = Some Authenticated"
    using attach_step2 [OF ok(1,3), of "[1, 2, 3, 4, 5, 6, 7, 8]" ?u sample_crypto "[]"]
    by (auto simp: sample_uplink_def sample_sec_def)
  have new: "auth_state (m_world (?m\<lparr>m_world := w'\<rparr>)) 0 = Some Authenticated"
    using s(2,3) by (simp add: ecs_abs)
  have old: "auth_state (m_world ?m) 0 \<noteq> Some Authenticated"
    using ok by (simp add: ecs_abs empty_entity_def)
  show ?thesis using authenticated_only_by_xres [OF ok(1,2) s(1) new old] s(1) new by blast
qed

text \<open>
  After an authentication response, right or wrong, the stored challenge is wiped: RAND and
  XRES are zero and only the one entity changed.
\<close>

theorem challenge_wiped:
  assumes "world_wf w" "abs_world w i = Some e" "decode_nas pdu = Inr (AuthenticationResponse a)"
  shows "abs_world (snd (handle_auth_response w enb i pdu)) =
    (abs_world w)(i \<mapsto> e\<lparr>
       e_security := (e_security e)\<lparr>pending_rand := replicate 16 0, pending_xres := replicate 8 0\<rparr>,
       e_auth := (if pending_xres (e_security e) = ap_res a then Authenticated else Failed ResMismatch)\<rparr>)"
  using assms
  by (cases e) (auto simp: handle_auth_response_def Let_def verify_res_def ecs_abs ecs_wf
      clear_pending_challenge_def)

theorem challenge_wiped_witness:
  "abs_world (snd (handle_auth_response (m_world (one_entity_mme sample_sec)) 9 0
       (encode_auth_response [9, 9, 9, 9, 9, 9, 9, 9]))) =
    (abs_world (m_world (one_entity_mme sample_sec)))(0 \<mapsto> empty_entity\<lparr>
       e_security := sample_sec\<lparr>pending_rand := replicate 16 0, pending_xres := replicate 8 0\<rparr>,
       e_auth := Failed ResMismatch\<rparr>)"
  using challenge_wiped [OF one_entity_mme_ok(1,3) auth_response_roundtrip, of "[9, 9, 9, 9, 9, 9, 9, 9]" sample_sec 9]
  by (simp add: sample_sec_def)

text \<open>
  The wiped challenge stays comparable: after one mismatch, a response of eight zero bytes
  is accepted and authenticates the entity.
\<close>

theorem zero_res_after_mismatch:
  assumes wf: "world_wf (m_world m)" and e: "abs_world (m_world m) i = Some e"
    and wrong: "length res = 8" "res \<noteq> pending_xres (e_security e)"
    and u: "unt_mme_ue_s1ap_id u = i" "unt_nas_pdu u = encode_auth_response res"
    and u': "unt_mme_ue_s1ap_id u' = i" "unt_nas_pdu u' = encode_auth_response (replicate 8 0)"
  shows "\<exists>outs m'. mme_run cr m [(r, MUplinkNasTransport u), (r', MUplinkNasTransport u')] = Some (outs, m') \<and>
    is_authenticated (m_world m') i"
proof -
  let ?w = "snd (handle_auth_response (m_world m) (unt_enb_ue_s1ap_id u) i (encode_auth_response res))"
  have plain: "unwrap_uplink cr w i (encode_auth_response x) = (Some (encode_auth_response x), w)" for w x
    by (simp add: encode_auth_response_def write_lv_def)
  have p1: "process_s1ap cr r m (MUplinkNasTransport u) =
      Some (fst (handle_auth_response (m_world m) (unt_enb_ue_s1ap_id u) i (encode_auth_response res)), m\<lparr>m_world := ?w\<rparr>)"
    using u auth_response_roundtrip [OF wrong(1)]
    by (simp add: process_s1ap_def handle_uplink_nas_def plain dispatch_nas_def split_beta)
  have wf1: "world_wf ?w"
    using handle_auth_response_keeps [OF wf] by (simp add: keeps_tunnels_def)
  have dec: "decode_nas (encode_auth_response res) = Inr (AuthenticationResponse \<lparr>ap_res = res\<rparr>)"
    by (rule auth_response_roundtrip [OF wrong(1)])
  have "\<exists>e'. abs_world ?w i = Some e' \<and> pending_xres (e_security e') = replicate 8 0"
    using wf e dec by (simp add: handle_auth_response_def Let_def ecs_abs ecs_wf clear_pending_challenge_def)
  then obtain e' where e': "abs_world ?w i = Some e'" "pending_xres (e_security e') = replicate 8 0" by blast
  obtain out w2 where s2: "process_s1ap cr r' (m\<lparr>m_world := ?w\<rparr>) (MUplinkNasTransport u') =
      Some (out, m\<lparr>m_world := w2\<rparr>)" "world_wf w2" "map_option e_auth (abs_world w2 i) = Some Authenticated"
    using attach_step2 [of "m\<lparr>m_world := ?w\<rparr>" i e' "replicate 8 0" u' cr r'] wf1 e' u' by auto
  show ?thesis using p1 s2 by (simp add: is_authenticated_def ecs_abs)
qed

theorem zero_res_after_mismatch_witness:
  "\<exists>outs m'. mme_run sample_crypto (one_entity_mme sample_sec)
      [([], MUplinkNasTransport (sample_uplink (encode_auth_response (replicate 8 9)))),
       ([], MUplinkNasTransport (sample_uplink (encode_auth_response (replicate 8 0))))] = Some (outs, m') \<and>
    is_authenticated (m_world m') 0"
  by (rule zero_res_after_mismatch [OF one_entity_mme_ok(1,3), of "replicate 8 9"])
     (simp_all add: sample_uplink_def sample_sec_def numeral_eq_Suc)

end
