(* ===== verification/Gtp.thy ===== *)
theory Gtp
  imports Midn_Prelude
begin

text \<open>
  GTP-U, \<open>crates/midn-proto/src/gtp/header.rs\<close> and \<open>parser.rs\<close>: the eight-byte mandatory
  header, its flags, and the parser that finds the inner packet behind the optional fields
  and the chain of extension headers. A buffer that is too short or malformed gives \<open>None\<close>.
  The relation \<open>ext_chain\<close> is the wire format of an extension header chain; the parser's
  loop is shown to accept exactly the buffers that start with such a chain. The relation
  \<open>ts29281_datagram\<close> is the format of the standard, stated independently of the parser, with
  what relates the two.
\<close>

section \<open>The mandatory header\<close>

record GtpuHeader =
  flags :: u8
  msg_type :: u8
  gtp_length :: u16
  teid :: u32

definition GTPU_SIZE :: nat where "GTPU_SIZE = 8"
definition MSG_GPDU :: u8 where "MSG_GPDU = 0xFF"
definition MSG_ECHO_REQ :: u8 where "MSG_ECHO_REQ = 0x01"
definition MSG_ECHO_RSP :: u8 where "MSG_ECHO_RSP = 0x02"
definition MSG_ERR_IND :: u8 where "MSG_ERR_IND = 0x1A"
definition VERSION_1 :: u8 where "VERSION_1 = 0x20"
definition PT_GTP :: u8 where "PT_GTP = 0x10"
definition FLAG_E :: u8 where "FLAG_E = 0x04"
definition FLAG_S :: u8 where "FLAG_S = 0x02"
definition FLAG_PN :: u8 where "FLAG_PN = 0x01"
definition FLAGS_STANDARD :: u8 where "FLAGS_STANDARD = VERSION_1 OR PT_GTP"

lemmas gtp_consts = GTPU_SIZE_def MSG_GPDU_def MSG_ECHO_REQ_def MSG_ECHO_RSP_def MSG_ERR_IND_def
  VERSION_1_def PT_GTP_def FLAG_E_def FLAG_S_def FLAG_PN_def FLAGS_STANDARD_def

definition GtpuHeader_parse :: "bytes \<Rightarrow> (GtpuHeader \<times> bytes) option" where
  "GtpuHeader_parse buf =
     (if length buf < GTPU_SIZE then None
      else Some (\<lparr>flags = buf ! 0, msg_type = buf ! 1,
                  gtp_length = from_be [buf ! 2, buf ! 3],
                  teid = from_be [buf ! 4, buf ! 5, buf ! 6, buf ! 7]\<rparr>,
                 drop GTPU_SIZE buf))"

definition is_gpdu :: "GtpuHeader \<Rightarrow> bool" where
  "is_gpdu h = (msg_type h = MSG_GPDU)"

definition has_ext_hdr :: "GtpuHeader \<Rightarrow> bool" where
  "has_ext_hdr h = (flags h AND FLAG_E \<noteq> 0)"

definition has_optional_fields :: "GtpuHeader \<Rightarrow> bool" where
  "has_optional_fields h = (flags h AND (FLAG_E OR FLAG_S OR FLAG_PN) \<noteq> 0)"

definition gtp_version :: "GtpuHeader \<Rightarrow> u8" where
  "gtp_version h = drop_bit 5 (flags h) AND 0x07"

definition to_bytes :: "GtpuHeader \<Rightarrow> bytes" where
  "to_bytes h =
     (let len = to_be16 (gtp_length h); td = to_be32 (teid h) in
      [flags h, msg_type h, len ! 0, len ! 1, td ! 0, td ! 1, td ! 2, td ! 3])"

definition new_gpdu :: "u32 \<Rightarrow> u16 \<Rightarrow> GtpuHeader" where
  "new_gpdu td payload_len =
     \<lparr>flags = FLAGS_STANDARD, msg_type = MSG_GPDU, gtp_length = payload_len, teid = td\<rparr>"

section \<open>The parser\<close>

record GtpuPacket =
  header :: GtpuHeader
  payload :: bytes

definition is_data :: "GtpuPacket \<Rightarrow> bool" where
  "is_data p = is_gpdu (header p)"

definition packet_teid :: "GtpuPacket \<Rightarrow> u32" where
  "packet_teid p = teid (header p)"

function skip_ext_headers :: "bytes \<Rightarrow> bytes option" where
  "skip_ext_headers buf =
     (if buf = [] then None
      else
        let len_units = unat (buf ! 0) in
        if len_units = 0 then None
        else
          let total_bytes = len_units * 4 in
          if length buf < total_bytes then None
          else
            let next_type = buf ! (total_bytes - 1); buf' = drop total_bytes buf in
            if next_type = 0 then Some buf' else skip_ext_headers buf')"
  by pat_completeness auto
termination
  by (relation "measure length") (auto simp: less_diff_conv)

declare skip_ext_headers.simps [simp del]

definition GtpuParser_parse :: "bytes \<Rightarrow> GtpuPacket option" where
  "GtpuParser_parse udp_payload =
     Option.bind (GtpuHeader_parse udp_payload) (\<lambda>(hdr, rest).
       Option.bind
         (if has_optional_fields hdr then
            if length rest < 4 then None
            else
              let next_ext = rest ! 3 in
              if next_ext \<noteq> 0 then skip_ext_headers (drop 4 rest) else Some (drop 4 rest)
          else Some rest)
         (\<lambda>pl. Some \<lparr>header = hdr, payload = pl\<rparr>))"

section \<open>Header round trips\<close>

lemma length_to_bytes [simp]: "length (to_bytes h) = 8"
  by (simp add: to_bytes_def Let_def)

lemma to_bytes_eq: "to_bytes h = [flags h, msg_type h] @ to_be16 (gtp_length h) @ to_be32 (teid h)"
  by (simp add: to_bytes_def Let_def to_be16_def to_be32_def)

lemma GtpuHeader_parse_to_bytes: "GtpuHeader_parse (to_bytes h @ rest) = Some (h, rest)"
  by (simp add: GtpuHeader_parse_def to_bytes_def Let_def GTPU_SIZE_def)

lemma GtpuHeader_parse_SomeD:
  assumes "GtpuHeader_parse buf = Some (h, rest)"
  shows "to_bytes h @ rest = buf"
proof -
  from assms have len: "8 \<le> length buf" and rest: "rest = drop 8 buf"
    and h: "h = \<lparr>flags = buf ! 0, msg_type = buf ! 1, gtp_length = from_be [buf ! 2, buf ! 3],
                 teid = from_be [buf ! 4, buf ! 5, buf ! 6, buf ! 7]\<rparr>"
    by (auto simp: GtpuHeader_parse_def GTPU_SIZE_def split: if_splits)
  have "to_bytes h = map ((!) buf) [0..<8]"
    by (simp add: h to_bytes_eq to_be16_from_be to_be32_from_be upt_rec numeral_eq_Suc)
  also have "\<dots> = take 8 buf" using len by (intro nth_equalityI) simp_all
  finally show ?thesis using rest by simp
qed

section \<open>Extension header chains\<close>

text \<open>
  The wire format of a chain: each header is one length byte (a non-zero number of four-byte
  units), the content and the type of the next header, and a zero type ends the chain.
\<close>

definition ext_header :: "bytes \<Rightarrow> u8 \<Rightarrow> bytes \<Rightarrow> bool" where
  "ext_header content next_type h \<longleftrightarrow>
     (\<exists>n. h = n # content @ [next_type] \<and> n \<noteq> 0 \<and> length h = 4 * unat n)"

inductive ext_chain :: "bytes \<Rightarrow> bytes \<Rightarrow> bool" where
  last_hdr: "ext_header c 0 h \<Longrightarrow> ext_chain (h @ inner) inner"
| more_hdr: "ext_header c t h \<Longrightarrow> t \<noteq> 0 \<Longrightarrow> ext_chain buf inner \<Longrightarrow> ext_chain (h @ buf) inner"

lemma skip_ext_headers_step:
  assumes "ext_header c t h"
  shows "skip_ext_headers (h @ buf) = (if t = 0 then Some buf else skip_ext_headers buf)"
proof -
  from assms obtain n where h: "h = n # c @ [t]" "n \<noteq> 0" "length h = 4 * unat n"
    by (auto simp: ext_header_def)
  have n: "unat n \<noteq> 0" using h(2) by (simp add: unat_eq_zero)
  have "unat n * 4 - 1 = Suc (length c)" using h(1,3) by simp
  then have "(h @ buf) ! (unat n * 4 - 1) = t" using h(1) by (simp add: nth_append)
  moreover have "drop (unat n * 4) (h @ buf) = buf" using h(3) by simp
  moreover have "(h @ buf) ! 0 = n" "h @ buf \<noteq> []" "\<not> length (h @ buf) < unat n * 4"
    using h by simp_all
  ultimately show ?thesis
    using n by (subst skip_ext_headers.simps) (simp only: Let_def if_False simp_thms)
qed

lemma ext_chain_cases_buf:
  assumes "buf \<noteq> []" "unat (buf ! 0) \<noteq> 0" "\<not> length buf < unat (buf ! 0) * 4"
  obtains c h where "ext_header c (buf ! (unat (buf ! 0) * 4 - 1)) h"
    "buf = h @ drop (unat (buf ! 0) * 4) buf"
proof -
  let ?k = "unat (buf ! 0) * 4"
  let ?h = "take ?k buf"
  have k: "4 \<le> ?k" "?k \<le> length buf" using assms by simp_all
  have "?h = buf ! 0 # butlast (tl ?h) @ [buf ! (?k - 1)]"
  proof -
    have "?h \<noteq> []" using k by auto
    then have "last ?h = buf ! (?k - 1)" using k by (subst last_conv_nth) simp_all
    moreover have "hd ?h = buf ! 0" using k assms(1) by (simp add: hd_take hd_conv_nth)
    moreover have "0 < length ?h" "0 < length (tl ?h)" using k by simp_all
    then have "?h \<noteq> []" "tl ?h \<noteq> []" by (blast intro: length_greater_0_conv [THEN iffD1])+
    ultimately show ?thesis
      by (metis append_butlast_last_id last_tl list.collapse)
  qed
  moreover have "buf ! 0 \<noteq> 0" using assms(2) by auto
  ultimately have "ext_header (butlast (tl ?h)) (buf ! (?k - 1)) ?h"
    unfolding ext_header_def using k by (intro exI [of _ "buf ! 0"]) (simp add: mult.commute)
  then show thesis by (rule that) simp
qed

lemma skip_ext_headers_iff: "skip_ext_headers buf = Some inner \<longleftrightarrow> ext_chain buf inner"
proof
  show "skip_ext_headers buf = Some inner \<Longrightarrow> ext_chain buf inner"
  proof (induction buf rule: skip_ext_headers.induct)
    case (1 buf)
    let ?k = "unat (buf ! 0) * 4"
    from "1.prems" have g: "buf \<noteq> []" "unat (buf ! 0) \<noteq> 0" "\<not> length buf < ?k"
      by (subst (asm) skip_ext_headers.simps, simp add: Let_def split: if_splits)+
    obtain c h where h: "ext_header c (buf ! (?k - 1)) h" "buf = h @ drop ?k buf"
      using ext_chain_cases_buf [OF g] by blast
    have step: "skip_ext_headers buf =
        (if buf ! (?k - 1) = 0 then Some (drop ?k buf) else skip_ext_headers (drop ?k buf))"
      by (subst h(2)) (rule skip_ext_headers_step [OF h(1)])
    show ?case
    proof (cases "buf ! (?k - 1) = 0")
      case True
      with step "1.prems" h show ?thesis by (metis ext_chain.last_hdr option.inject)
    next
      case False
      then have "ext_chain (drop ?k buf) inner"
        using "1.IH" [OF g(1) refl g(2) refl g(3) refl refl] step "1.prems" by simp
      with False h show ?thesis by (metis ext_chain.more_hdr)
    qed
  qed
next
  show "ext_chain buf inner \<Longrightarrow> skip_ext_headers buf = Some inner"
    by (induction rule: ext_chain.induct) (simp_all add: skip_ext_headers_step)
qed

lemma ext_chain_prefix: "ext_chain buf inner \<Longrightarrow> \<exists>ext. ext \<noteq> [] \<and> buf = ext @ inner"
proof (induction rule: ext_chain.induct)
  case (last_hdr c h inner)
  then have "h \<noteq> []" by (auto simp: ext_header_def)
  then show ?case by blast
next
  case (more_hdr c t h buf inner)
  then obtain ext where "ext \<noteq> []" "buf = ext @ inner" by blast
  then have "h @ ext \<noteq> []" "h @ buf = (h @ ext) @ inner" by simp_all
  then show ?case by blast
qed

section \<open>The parser as a whole\<close>

lemma new_gpdu_no_options [simp]:
  "\<not> has_optional_fields (new_gpdu td n)" "is_gpdu (new_gpdu td n)" "teid (new_gpdu td n) = td"
  "gtp_length (new_gpdu td n) = n" "gtp_version (new_gpdu td n) = 1"
  by (simp_all add: new_gpdu_def has_optional_fields_def is_gpdu_def gtp_version_def gtp_consts)

lemma GtpuParser_parse_plain:
  "\<not> has_optional_fields h \<Longrightarrow>
   GtpuParser_parse (to_bytes h @ inner) = Some \<lparr>header = h, payload = inner\<rparr>"
  by (simp add: GtpuParser_parse_def GtpuHeader_parse_to_bytes)

lemma GtpuParser_parse_options:
  "has_optional_fields h \<Longrightarrow> length opt = 3 \<Longrightarrow>
   GtpuParser_parse (to_bytes h @ opt @ nx # rest) =
     map_option (\<lambda>inner. \<lparr>header = h, payload = inner\<rparr>)
       (if nx \<noteq> 0 then skip_ext_headers rest else Some rest)"
  by (cases "skip_ext_headers rest")
     (simp_all add: GtpuParser_parse_def GtpuHeader_parse_to_bytes Let_def nth_append numeral_eq_Suc)

text \<open>
  The buffers the parser accepts, by what it finds in them. This follows the code; the format of the
  standard is \<open>ts29281_datagram\<close> below.
\<close>

inductive gtpu_datagram :: "GtpuHeader \<Rightarrow> bytes \<Rightarrow> bytes \<Rightarrow> bool" where
  no_options: "\<not> has_optional_fields h \<Longrightarrow> gtpu_datagram h inner (to_bytes h @ inner)"
| options_only: "has_optional_fields h \<Longrightarrow> length opt = 3 \<Longrightarrow>
    gtpu_datagram h inner (to_bytes h @ opt @ 0 # inner)"
| extensions: "has_optional_fields h \<Longrightarrow> length opt = 3 \<Longrightarrow> nx \<noteq> 0 \<Longrightarrow> ext_chain rest inner \<Longrightarrow>
    gtpu_datagram h inner (to_bytes h @ opt @ nx # rest)"

lemma GtpuParser_parse_iff:
  "GtpuParser_parse buf = Some \<lparr>header = h, payload = inner\<rparr> \<longleftrightarrow> gtpu_datagram h inner buf"
proof
  assume L: "GtpuParser_parse buf = Some \<lparr>header = h, payload = inner\<rparr>"
  then obtain rest where p: "GtpuHeader_parse buf = Some (h, rest)"
    by (auto simp: GtpuParser_parse_def bind_eq_Some_conv)
  have buf: "buf = to_bytes h @ rest" using GtpuHeader_parse_SomeD [OF p] by simp
  show "gtpu_datagram h inner buf"
  proof (cases "has_optional_fields h")
    case False
    with L buf show ?thesis by (auto simp: GtpuParser_parse_plain intro: gtpu_datagram.intros)
  next
    case True
    with L p have "4 \<le> length rest"
      by (auto simp: GtpuParser_parse_def bind_eq_Some_conv split: if_splits)
    then have rest: "rest = take 3 rest @ rest ! 3 # drop 4 rest" "length (take 3 rest) = 3"
      using take_drop_nth_split [of 3 rest] by simp_all
    let ?X = "if rest ! 3 \<noteq> 0 then skip_ext_headers (drop 4 rest) else Some (drop 4 rest)"
    have "map_option (\<lambda>i. \<lparr>header = h, payload = i\<rparr>) ?X = Some \<lparr>header = h, payload = inner\<rparr>"
      using L GtpuParser_parse_options [OF True rest(2), of "rest ! 3" "drop 4 rest"]
      by (simp only: buf flip: rest(1))
    then have P: "?X = Some inner" by (auto simp only: map_option_eq_Some GtpuPacket.ext_inject)
    show ?thesis
    proof (cases "rest ! 3 = 0")
      case True': True
      with P have "drop 4 rest = inner" by simp
      with gtpu_datagram.options_only [OF True rest(2), of inner] buf rest(1) True'
      show ?thesis by simp
    next
      case False
      with P have "ext_chain (drop 4 rest) inner" by (simp add: skip_ext_headers_iff)
      from gtpu_datagram.extensions [OF True rest(2) False this]
      show ?thesis by (simp only: buf flip: rest(1))
    qed
  qed
next
  assume "gtpu_datagram h inner buf"
  then show "GtpuParser_parse buf = Some \<lparr>header = h, payload = inner\<rparr>"
    by cases (auto simp: GtpuParser_parse_plain GtpuParser_parse_options skip_ext_headers_iff)
qed

section \<open>The datagrams of the standard\<close>

text \<open>
  The format of TS 29.281, sections 5.1 and 5.2, which the parser's documentation refers to. Unlike the
  parser, it evaluates the next extension header type only under the E flag; the four optional
  octets are there as soon as one of the flags is set. The first relation is between a header,
  the octets after its first eight and the inner packet.
\<close>

inductive ts29281_body :: "GtpuHeader \<Rightarrow> bytes \<Rightarrow> bytes \<Rightarrow> bool" for h where
  mandatory_only: "\<not> has_optional_fields h \<Longrightarrow> ts29281_body h inner inner"
| type_not_evaluated: "has_optional_fields h \<Longrightarrow> \<not> has_ext_hdr h \<Longrightarrow> length opt = 3 \<Longrightarrow>
    ts29281_body h (opt @ nx # inner) inner"
| no_extension: "has_ext_hdr h \<Longrightarrow> length opt = 3 \<Longrightarrow> ts29281_body h (opt @ 0 # inner) inner"
| extension_headers: "has_ext_hdr h \<Longrightarrow> length opt = 3 \<Longrightarrow> nx \<noteq> 0 \<Longrightarrow> ext_chain rest inner \<Longrightarrow>
    ts29281_body h (opt @ nx # rest) inner"

text \<open>Version 1, protocol type GTP, and a length field that counts the octets after the first eight.\<close>

definition ts29281_header :: "GtpuHeader \<Rightarrow> nat \<Rightarrow> bool" where
  "ts29281_header h n \<longleftrightarrow> gtp_version h = 1 \<and> flags h AND PT_GTP \<noteq> 0 \<and> unat (gtp_length h) = n"

definition ts29281_datagram :: "GtpuHeader \<Rightarrow> bytes \<Rightarrow> bytes \<Rightarrow> bool" where
  "ts29281_datagram h inner buf \<longleftrightarrow>
     (\<exists>body. buf = to_bytes h @ body \<and> ts29281_header h (length body) \<and> ts29281_body h body inner)"

text \<open>A next extension header type that is not to be evaluated, and not zero.\<close>

definition stray_extension_type :: "GtpuHeader \<Rightarrow> bytes \<Rightarrow> bool" where
  "stray_extension_type h buf \<longleftrightarrow> has_optional_fields h \<and> \<not> has_ext_hdr h \<and> buf ! 11 \<noteq> 0"

lemma has_ext_hdr_optional: "has_ext_hdr h \<Longrightarrow> has_optional_fields h"
  by (auto simp: has_ext_hdr_def has_optional_fields_def bit.conj_disj_distrib or_eq_0_iff)

lemma nth_11: "length opt = 3 \<Longrightarrow> (to_bytes h @ opt @ nx # rest) ! 11 = nx"
  by (simp add: nth_append)

lemma skip_ext_headers_moves: "skip_ext_headers buf \<noteq> Some buf"
  using ext_chain_prefix [of buf buf] by (auto simp only: skip_ext_headers_iff)

lemma parse_body:
  assumes "ts29281_body h body inner"
  shows "GtpuParser_parse (to_bytes h @ body) = Some \<lparr>header = h, payload = inner\<rparr> \<longleftrightarrow>
    \<not> stray_extension_type h (to_bytes h @ body)"
  using assms
proof cases
  case (type_not_evaluated opt nx)
  then show ?thesis
    using skip_ext_headers_moves [of inner]
    by (auto simp: GtpuParser_parse_options stray_extension_type_def nth_11 simp del: append_assoc append_Cons)
qed (simp_all add: GtpuParser_parse_plain GtpuParser_parse_options has_ext_hdr_optional skip_ext_headers_iff
       stray_extension_type_def)

lemma body_of_parse:
  assumes "GtpuParser_parse buf = Some \<lparr>header = h, payload = inner\<rparr>" "\<not> stray_extension_type h buf"
  shows "\<exists>body. buf = to_bytes h @ body \<and> ts29281_body h body inner"
proof -
  from assms(1) have "gtpu_datagram h inner buf" by (simp only: GtpuParser_parse_iff)
  then show ?thesis
  proof cases
    case (options_only opt)
    then show ?thesis by (cases "has_ext_hdr h") (blast intro: ts29281_body.intros)+
  next
    case (extensions opt nx rest)
    with assms(2) have "has_ext_hdr h" by (simp add: stray_extension_type_def nth_11)
    with extensions show ?thesis by (blast intro: ts29281_body.intros)
  qed (blast intro: ts29281_body.intros)
qed

lemma parse_payload_flags:
  assumes "flags h AND 7 = flags h' AND 7"
  shows "map_option payload (GtpuParser_parse (to_bytes h @ body)) = map_option payload (GtpuParser_parse (to_bytes h' @ body))"
proof -
  have "flags g AND (FLAG_E OR FLAG_S OR FLAG_PN) = flags g AND 7" for g :: GtpuHeader by (simp add: gtp_consts)
  with assms have "has_optional_fields h = has_optional_fields h'" by (simp only: has_optional_fields_def)
  then show ?thesis
    by (simp add: GtpuParser_parse_def GtpuHeader_parse_to_bytes map_option_bind comp_def Let_def split: bind_split)
qed

end
