(* ===== verification/Upf.thy ===== *)
theory Upf
  imports Gtp Id_Alloc
begin

text \<open>
  The user plane function, \<open>crates/midn-userplane/src/upf\<close>: the routing table (\<open>routing.rs\<close>), the
  tunnel manager (\<open>tunnel.rs\<close>), the session manager (\<open>session_manager.rs\<close>, \<open>session.rs\<close>), the types it
  shares with the kernel programs (\<open>xdp_types.rs\<close>) and the packet processing of the forwarder
  (\<open>forwarder.rs\<close>). A \<open>HashMap\<close> is a map; where the code iterates over one, the iteration order is an
  argument. The kernel maps behind the BPF handle are accessed through an external library,
  so their insert and remove calls are parameters, with failure as \<open>None\<close>. Arithmetic that
  overflows is a panic, the value \<open>None\<close>. The shared routing table is guarded by a mutex held for
  one operation, so an operation is one step.
\<close>

section \<open>Routing table\<close>

record RouteEntry =
  re_ue_ip :: bytes
  re_dl_teid :: u32
  re_enb_addr :: bytes
  re_enb_port :: u16
  re_qci :: u8

definition RouteEntry_new :: "bytes \<Rightarrow> u32 \<Rightarrow> bytes \<Rightarrow> u8 \<Rightarrow> RouteEntry" where
  "RouteEntry_new ue_ip dl_teid enb_addr qci =
     \<lparr>re_ue_ip = ue_ip, re_dl_teid = dl_teid, re_enb_addr = enb_addr, re_enb_port = 2152, re_qci = qci\<rparr>"

record RoutingTable =
  ul_map :: "u32 \<rightharpoonup> RouteEntry"
  dl_map :: "bytes \<rightharpoonup> RouteEntry"

definition RoutingTable_new :: RoutingTable where
  "RoutingTable_new = \<lparr>ul_map = Map.empty, dl_map = Map.empty\<rparr>"

definition rt_install :: "RoutingTable \<Rightarrow> u32 \<Rightarrow> RouteEntry \<Rightarrow> RoutingTable" where
  "rt_install rt ul_teid entry =
     rt\<lparr>dl_map := (dl_map rt)(re_ue_ip entry \<mapsto> entry), ul_map := (ul_map rt)(ul_teid \<mapsto> entry)\<rparr>"

definition rt_remove :: "RoutingTable \<Rightarrow> u32 \<Rightarrow> RouteEntry option \<times> RoutingTable" where
  "rt_remove rt ul_teid =
     (case ul_map rt ul_teid of
        Some entry \<Rightarrow>
          (Some entry, rt\<lparr>ul_map := (ul_map rt)(ul_teid := None),
                          dl_map := (dl_map rt)(re_ue_ip entry := None)\<rparr>)
      | None \<Rightarrow> (None, rt))"

definition lookup_ul :: "RoutingTable \<Rightarrow> u32 \<Rightarrow> RouteEntry option" where
  "lookup_ul rt ul_teid = ul_map rt ul_teid"

definition lookup_dl :: "RoutingTable \<Rightarrow> bytes \<Rightarrow> RouteEntry option" where
  "lookup_dl rt ue_ip = dl_map rt ue_ip"

definition rt_len :: "RoutingTable \<Rightarrow> nat" where
  "rt_len rt = card (dom (ul_map rt))"

definition rt_is_empty :: "RoutingTable \<Rightarrow> bool" where
  "rt_is_empty rt \<longleftrightarrow> rt_len rt = 0"

section \<open>Tunnel manager\<close>

record TunnelManager =
  tm_next_ul_teid :: u32
  tm_free_ul_teids :: "u32 list"
  tm_routing :: RoutingTable

definition TunnelManager_new :: TunnelManager where
  "TunnelManager_new =
     \<lparr>tm_next_ul_teid = 0x00010000, tm_free_ul_teids = [], tm_routing = RoutingTable_new\<rparr>"

definition tm_alloc_ul_teid :: "TunnelManager \<Rightarrow> u32 \<times> TunnelManager" where
  "tm_alloc_ul_teid tm =
     (if tm_free_ul_teids tm \<noteq> [] then
        (last (tm_free_ul_teids tm), tm\<lparr>tm_free_ul_teids := butlast (tm_free_ul_teids tm)\<rparr>)
      else
        let teid = tm_next_ul_teid tm; next = teid + 1 in
        (teid, tm\<lparr>tm_next_ul_teid := (if next = 0 then 0x00010000 else next)\<rparr>))"

definition create_tunnel :: "TunnelManager \<Rightarrow> bytes \<Rightarrow> u32 \<Rightarrow> bytes \<Rightarrow> u8 \<Rightarrow> u32 \<times> TunnelManager" where
  "create_tunnel tm ue_ip dl_teid enb_addr qci =
     (let (ul_teid, tm) = tm_alloc_ul_teid tm; entry = RouteEntry_new ue_ip dl_teid enb_addr qci in
      (ul_teid, tm\<lparr>tm_routing := rt_install (tm_routing tm) ul_teid entry\<rparr>))"

definition destroy_tunnel :: "TunnelManager \<Rightarrow> u32 \<Rightarrow> TunnelManager" where
  "destroy_tunnel tm ul_teid =
     (case rt_remove (tm_routing tm) ul_teid of
        (Some _, rt) \<Rightarrow> tm\<lparr>tm_routing := rt, tm_free_ul_teids := tm_free_ul_teids tm @ [ul_teid]\<rparr>
      | (None, rt) \<Rightarrow> tm\<lparr>tm_routing := rt\<rparr>)"

definition active_tunnel_count :: "TunnelManager \<Rightarrow> nat" where
  "active_tunnel_count tm = rt_len (tm_routing tm)"

definition tm_free_teid_count :: "TunnelManager \<Rightarrow> nat" where
  "tm_free_teid_count tm = length (tm_free_ul_teids tm)"

section \<open>Kernel map types and the BPF handle\<close>

record XdpRouteEntry =
  xr_dl_teid :: u32
  xr_enb_ip :: bytes
  xr_enb_port :: u16
  xr_pad :: bytes

definition XdpRouteEntry_new :: "u32 \<Rightarrow> bytes \<Rightarrow> u16 \<Rightarrow> XdpRouteEntry" where
  "XdpRouteEntry_new dl_teid enb_ip enb_port =
     \<lparr>xr_dl_teid = dl_teid, xr_enb_ip = enb_ip, xr_enb_port = enb_port, xr_pad = [0, 0]\<rparr>"

record PdnGwConfig =
  gw_mac :: bytes
  nic_mac :: bytes
  gw_pad :: bytes

definition PdnGwConfig_new :: "bytes \<Rightarrow> bytes \<Rightarrow> PdnGwConfig" where
  "PdnGwConfig_new gw nic = \<lparr>gw_mac = gw, nic_mac = nic, gw_pad = [0, 0, 0, 0]\<rparr>"

record DlTunnelConfig =
  eth_dst_mac :: bytes
  eth_src_mac :: bytes
  upf_ip :: bytes
  redirect_ifindex :: u32

definition DlTunnelConfig_new :: "bytes \<Rightarrow> bytes \<Rightarrow> bytes \<Rightarrow> u32 \<Rightarrow> DlTunnelConfig" where
  "DlTunnelConfig_new dst src ip ifindex =
     \<lparr>eth_dst_mac = dst, eth_src_mac = src, upf_ip = ip, redirect_ifindex = ifindex\<rparr>"

text \<open>The kernel maps, and the calls of the external library that change them.\<close>

record BpfHandle =
  TEID_TO_ROUTE :: "u32 \<rightharpoonup> XdpRouteEntry"
  UE_IP_TO_ROUTE :: "bytes \<rightharpoonup> XdpRouteEntry"
  PDN_GW_CONFIG :: PdnGwConfig
  DL_TUNNEL_CONFIG :: DlTunnelConfig

record aya =
  map_insert_teid :: "(u32 \<rightharpoonup> XdpRouteEntry) \<Rightarrow> u32 \<Rightarrow> XdpRouteEntry \<Rightarrow> (u32 \<rightharpoonup> XdpRouteEntry) option"
  map_remove_teid :: "(u32 \<rightharpoonup> XdpRouteEntry) \<Rightarrow> u32 \<Rightarrow> (u32 \<rightharpoonup> XdpRouteEntry) option"
  map_insert_ue :: "(bytes \<rightharpoonup> XdpRouteEntry) \<Rightarrow> bytes \<Rightarrow> XdpRouteEntry \<Rightarrow> (bytes \<rightharpoonup> XdpRouteEntry) option"
  map_remove_ue :: "(bytes \<rightharpoonup> XdpRouteEntry) \<Rightarrow> bytes \<Rightarrow> (bytes \<rightharpoonup> XdpRouteEntry) option"
  array_set_gw :: "PdnGwConfig \<Rightarrow> PdnGwConfig \<Rightarrow> PdnGwConfig option"
  array_set_dl :: "DlTunnelConfig \<Rightarrow> DlTunnelConfig \<Rightarrow> DlTunnelConfig option"

definition insert_teid :: "aya \<Rightarrow> BpfHandle \<Rightarrow> u32 \<Rightarrow> XdpRouteEntry \<Rightarrow> BpfHandle option" where
  "insert_teid ay b ul_teid entry =
     map_option (\<lambda>m. b\<lparr>TEID_TO_ROUTE := m\<rparr>) (map_insert_teid ay (TEID_TO_ROUTE b) ul_teid entry)"

definition remove_teid :: "aya \<Rightarrow> BpfHandle \<Rightarrow> u32 \<Rightarrow> BpfHandle option" where
  "remove_teid ay b ul_teid =
     map_option (\<lambda>m. b\<lparr>TEID_TO_ROUTE := m\<rparr>) (map_remove_teid ay (TEID_TO_ROUTE b) ul_teid)"

definition insert_ue_route :: "aya \<Rightarrow> BpfHandle \<Rightarrow> bytes \<Rightarrow> XdpRouteEntry \<Rightarrow> BpfHandle option" where
  "insert_ue_route ay b ue_ip entry =
     map_option (\<lambda>m. b\<lparr>UE_IP_TO_ROUTE := m\<rparr>) (map_insert_ue ay (UE_IP_TO_ROUTE b) ue_ip entry)"

definition remove_ue_route :: "aya \<Rightarrow> BpfHandle \<Rightarrow> bytes \<Rightarrow> BpfHandle option" where
  "remove_ue_route ay b ue_ip =
     map_option (\<lambda>m. b\<lparr>UE_IP_TO_ROUTE := m\<rparr>) (map_remove_ue ay (UE_IP_TO_ROUTE b) ue_ip)"

definition set_pdn_gw_config :: "aya \<Rightarrow> BpfHandle \<Rightarrow> PdnGwConfig \<Rightarrow> BpfHandle option" where
  "set_pdn_gw_config ay b config =
     map_option (\<lambda>c. b\<lparr>PDN_GW_CONFIG := c\<rparr>) (array_set_gw ay (PDN_GW_CONFIG b) config)"

definition set_dl_tunnel_config :: "aya \<Rightarrow> BpfHandle \<Rightarrow> DlTunnelConfig \<Rightarrow> BpfHandle option" where
  "set_dl_tunnel_config ay b config =
     map_option (\<lambda>c. b\<lparr>DL_TUNNEL_CONFIG := c\<rparr>) (array_set_dl ay (DL_TUNNEL_CONFIG b) config)"

text \<open>A failed call is logged and otherwise ignored: the handle is as before.\<close>

definition or_warn :: "BpfHandle option \<Rightarrow> BpfHandle \<Rightarrow> BpfHandle" where
  "or_warn r b = (case r of Some b' \<Rightarrow> b' | None \<Rightarrow> b)"

section \<open>Session manager\<close>

record UserPlaneSession =
  ups_entity_id :: u32
  ups_imsi :: u64
  ups_ul_teid :: u32
  ups_dl_teid :: u32
  ups_ue_ip :: bytes
  ups_enb_addr :: bytes
  ups_active :: bool
  ups_bytes_ul :: u64
  ups_bytes_dl :: u64

definition INITIAL_UL_TEID :: u32 where "INITIAL_UL_TEID = 0x00010000"

record SessionManager =
  sm_next_ul_teid :: u32
  sm_free_ul_teids :: "u32 list"
  sm_routing :: RoutingTable
  sm_sessions :: "u32 \<rightharpoonup> UserPlaneSession"
  sm_bpf :: "BpfHandle option"

definition SessionManager_new :: SessionManager where
  "SessionManager_new =
     \<lparr>sm_next_ul_teid = INITIAL_UL_TEID, sm_free_ul_teids = [], sm_routing = RoutingTable_new,
      sm_sessions = Map.empty, sm_bpf = None\<rparr>"

definition set_bpf_handle :: "SessionManager \<Rightarrow> BpfHandle \<Rightarrow> SessionManager" where
  "set_bpf_handle sm b = sm\<lparr>sm_bpf := Some b\<rparr>"

definition has_bpf :: "SessionManager \<Rightarrow> bool" where
  "has_bpf sm \<longleftrightarrow> sm_bpf sm \<noteq> None"

definition sm_install ::
  "SessionManager \<Rightarrow> u32 \<Rightarrow> u32 \<Rightarrow> u64 \<Rightarrow> bytes \<Rightarrow> u32 \<Rightarrow> bytes \<Rightarrow> u8 \<Rightarrow> SessionManager" where
  "sm_install sm ul_teid entity_id imsi ue_ip dl_teid enb_addr qci =
     (let entry = RouteEntry_new ue_ip dl_teid enb_addr qci in
      sm\<lparr>sm_routing := rt_install (sm_routing sm) ul_teid entry,
         sm_sessions := (sm_sessions sm)(ul_teid \<mapsto>
           \<lparr>ups_entity_id = entity_id, ups_imsi = imsi, ups_ul_teid = ul_teid, ups_dl_teid = dl_teid,
            ups_ue_ip = ue_ip, ups_enb_addr = enb_addr, ups_active = True, ups_bytes_ul = 0,
            ups_bytes_dl = 0\<rparr>)\<rparr>)"

definition sm_alloc_ul_teid :: "SessionManager \<Rightarrow> u32 \<times> SessionManager" where
  "sm_alloc_ul_teid sm =
     (if sm_free_ul_teids sm \<noteq> [] then
        (last (sm_free_ul_teids sm), sm\<lparr>sm_free_ul_teids := butlast (sm_free_ul_teids sm)\<rparr>)
      else
        let teid = sm_next_ul_teid sm; next = teid + 1 in
        (teid, sm\<lparr>sm_next_ul_teid := (if next < INITIAL_UL_TEID then INITIAL_UL_TEID else next)\<rparr>))"

definition create_session ::
  "SessionManager \<Rightarrow> u32 \<Rightarrow> u64 \<Rightarrow> bytes \<Rightarrow> u32 \<Rightarrow> bytes \<Rightarrow> u8 \<Rightarrow> u32 \<times> SessionManager" where
  "create_session sm entity_id imsi ue_ip dl_teid enb_addr qci =
     (let (ul_teid, sm) = sm_alloc_ul_teid sm in
      (ul_teid, sm_install sm ul_teid entity_id imsi ue_ip dl_teid enb_addr qci))"

definition create_session_with_teid ::
  "aya \<Rightarrow> SessionManager \<Rightarrow> u32 \<Rightarrow> u32 \<Rightarrow> u64 \<Rightarrow> bytes \<Rightarrow> bytes \<Rightarrow> u8 \<Rightarrow> SessionManager" where
  "create_session_with_teid ay sm ul_teid entity_id imsi ue_ip enb_addr qci =
     (let sm = sm_install sm ul_teid entity_id imsi ue_ip 0 enb_addr qci in
      case sm_bpf sm of
        Some b \<Rightarrow>
          let xdp_entry = XdpRouteEntry_new 0 enb_addr 2152;
              b = or_warn (insert_teid ay b ul_teid xdp_entry) b;
              b = or_warn (insert_ue_route ay b ue_ip xdp_entry) b
          in sm\<lparr>sm_bpf := Some b\<rparr>
      | None \<Rightarrow> sm)"

definition update_bearer_info ::
  "aya \<Rightarrow> SessionManager \<Rightarrow> u32 \<Rightarrow> u32 \<Rightarrow> bytes \<Rightarrow> bool \<times> SessionManager" where
  "update_bearer_info ay sm ul_teid dl_teid enb_addr =
     (case lookup_ul (sm_routing sm) ul_teid of
        None \<Rightarrow> (False, sm)
      | Some current \<Rightarrow>
          let rt = snd (rt_remove (sm_routing sm) ul_teid);
              updated = RouteEntry_new (re_ue_ip current) dl_teid enb_addr (re_qci current);
              sm = sm\<lparr>sm_routing := rt_install rt ul_teid updated\<rparr>;
              sm = (case sm_sessions sm ul_teid of
                      Some s \<Rightarrow> sm\<lparr>sm_sessions := (sm_sessions sm)(ul_teid \<mapsto>
                                  s\<lparr>ups_dl_teid := dl_teid, ups_enb_addr := enb_addr\<rparr>)\<rparr>
                    | None \<Rightarrow> sm)
          in (True,
              case sm_bpf sm of
                Some b \<Rightarrow>
                  let xdp_entry = XdpRouteEntry_new dl_teid enb_addr 2152;
                      b = or_warn (insert_teid ay b ul_teid xdp_entry) b;
                      b = or_warn (insert_ue_route ay b (re_ue_ip current) xdp_entry) b
                  in sm\<lparr>sm_bpf := Some b\<rparr>
              | None \<Rightarrow> sm))"

definition update_dl_teid :: "aya \<Rightarrow> SessionManager \<Rightarrow> u32 \<Rightarrow> u32 \<Rightarrow> bool \<times> SessionManager" where
  "update_dl_teid ay sm ul_teid dl_teid =
     (case map_option re_enb_addr (lookup_ul (sm_routing sm) ul_teid) of
        Some enb_addr \<Rightarrow> update_bearer_info ay sm ul_teid dl_teid enb_addr
      | None \<Rightarrow> (False, sm))"

definition remove_session :: "aya \<Rightarrow> SessionManager \<Rightarrow> u32 \<Rightarrow> UserPlaneSession option \<times> SessionManager" where
  "remove_session ay sm ul_teid =
     (let ue_ip = map_option ups_ue_ip (sm_sessions sm ul_teid);
          sm = sm\<lparr>sm_routing := snd (rt_remove (sm_routing sm) ul_teid)\<rparr>;
          sm = (case sm_bpf sm of
                  Some b \<Rightarrow>
                    let b = or_warn (remove_teid ay b ul_teid) b;
                        b = (case ue_ip of Some ip \<Rightarrow> or_warn (remove_ue_route ay b ip) b | None \<Rightarrow> b)
                    in sm\<lparr>sm_bpf := Some b\<rparr>
                | None \<Rightarrow> sm);
          removed = sm_sessions sm ul_teid;
          sm = sm\<lparr>sm_sessions := (sm_sessions sm)(ul_teid := None)\<rparr>;
          sm = (if removed \<noteq> None then sm\<lparr>sm_free_ul_teids := sm_free_ul_teids sm @ [ul_teid]\<rparr> else sm)
      in (removed, sm))"

definition get_session :: "SessionManager \<Rightarrow> u32 \<Rightarrow> UserPlaneSession option" where
  "get_session sm ul_teid = sm_sessions sm ul_teid"

definition session_values :: "u32 list \<Rightarrow> SessionManager \<Rightarrow> UserPlaneSession list" where
  "session_values order sm = List.map_filter (sm_sessions sm) order"

definition find_by_imsi :: "u32 list \<Rightarrow> SessionManager \<Rightarrow> u64 \<Rightarrow> UserPlaneSession option" where
  "find_by_imsi order sm imsi = find (\<lambda>s. ups_imsi s = imsi) (session_values order sm)"

definition checked_add :: "u64 \<Rightarrow> u64 \<Rightarrow> u64 option" where
  "checked_add a b = (if unat a + unat b < 2 ^ 64 then Some (a + b) else None)"

definition account_uplink :: "SessionManager \<Rightarrow> u32 \<Rightarrow> u64 \<Rightarrow> SessionManager option" where
  "account_uplink sm ul_teid n =
     (case sm_sessions sm ul_teid of
        Some s \<Rightarrow> map_option (\<lambda>v. sm\<lparr>sm_sessions := (sm_sessions sm)(ul_teid \<mapsto> s\<lparr>ups_bytes_ul := v\<rparr>)\<rparr>)
                    (checked_add (ups_bytes_ul s) n)
      | None \<Rightarrow> Some sm)"

definition account_downlink :: "SessionManager \<Rightarrow> u32 \<Rightarrow> u64 \<Rightarrow> SessionManager option" where
  "account_downlink sm ul_teid n =
     (case sm_sessions sm ul_teid of
        Some s \<Rightarrow> map_option (\<lambda>v. sm\<lparr>sm_sessions := (sm_sessions sm)(ul_teid \<mapsto> s\<lparr>ups_bytes_dl := v\<rparr>)\<rparr>)
                    (checked_add (ups_bytes_dl s) n)
      | None \<Rightarrow> Some sm)"

definition active_session_count :: "u32 list \<Rightarrow> SessionManager \<Rightarrow> nat" where
  "active_session_count order sm = length (filter ups_active (session_values order sm))"

definition total_bytes_uplink :: "u32 list \<Rightarrow> SessionManager \<Rightarrow> u64 option" where
  "total_bytes_uplink order sm = foldM checked_add 0 (map ups_bytes_ul (session_values order sm))"

definition total_bytes_downlink :: "u32 list \<Rightarrow> SessionManager \<Rightarrow> u64 option" where
  "total_bytes_downlink order sm = foldM checked_add 0 (map ups_bytes_dl (session_values order sm))"

definition free_teid_count :: "SessionManager \<Rightarrow> nat" where
  "free_teid_count sm = length (sm_free_ul_teids sm)"

section \<open>Forwarder\<close>

definition GTP_PORT :: u16 where "GTP_PORT = 2152"

record UlPacket =
  ulp_inner_ip :: bytes
  ulp_route :: RouteEntry

record DlPacket =
  dlp_inner_ip :: bytes
  dlp_ue_ip :: bytes

datatype ForwardAction =
    ForwardUl UlPacket
  | EchoRequest SocketAddr u32
  | ControlMessage u8
  | Discard
  | UnknownSession u32

definition process_uplink :: "bytes \<Rightarrow> RoutingTable \<Rightarrow> SocketAddr \<Rightarrow> ForwardAction" where
  "process_uplink buf routing src =
     (case GtpuParser_parse buf of
        None \<Rightarrow> Discard
      | Some pkt \<Rightarrow>
          if msg_type (header pkt) = MSG_ECHO_REQ then EchoRequest src (teid (header pkt))
          else if \<not> is_gpdu (header pkt) then ControlMessage (msg_type (header pkt))
          else (case lookup_ul routing (teid (header pkt)) of
                  Some route \<Rightarrow> ForwardUl \<lparr>ulp_inner_ip = payload pkt, ulp_route = route\<rparr>
                | None \<Rightarrow> UnknownSession (teid (header pkt))))"

definition encapsulate_downlink :: "DlPacket \<Rightarrow> RoutingTable \<Rightarrow> (bytes \<times> SocketAddr) option" where
  "encapsulate_downlink pkt routing =
     Option.bind (lookup_dl routing (dlp_ue_ip pkt)) (\<lambda>route.
       let inner = dlp_inner_ip pkt;
           hdr = new_gpdu (re_dl_teid route) (of_nat (length inner));
           dgram = to_bytes hdr @ inner
       in Some (dgram, (re_enb_addr route, re_enb_port route)))"

definition build_echo_response :: "u32 \<Rightarrow> bytes" where
  "build_echo_response td =
     (let t = to_be32 td in
      [0x22, MSG_ECHO_RSP, 0x00, 0x04, t ! 0, t ! 1, t ! 2, t ! 3, 0x00, 0x00, 0x00, 0x00])"

end
