(* ===== verification/Upf_Sessions.thy ===== *)
theory Upf_Sessions
  imports Upf Mme_Invariant
begin

text \<open>
  Correctness of the user plane's state. The abstract view is a table from uplink TEIDs to
  bearers; the routing table, the session records and the kernel maps are three concrete
  representations of it. Every operation of the session manager refines an operation on the
  abstract table, and keeps the representations in agreement as long as no two sessions share
  a UE address. The locale \<open>bearer_table\<close> is what the packet path relies on.
\<close>

named_theorems upf_defs \<open>the operations on the user plane's state\<close>

section \<open>The routing table as two views of one table\<close>

text \<open>
  What a forwarder relies on: the two lookups are views of one table, in which a UE address
  belongs to one TEID.
\<close>

locale bearer_table =
  fixes inv :: "'s \<Rightarrow> bool"
    and ul :: "'s \<Rightarrow> u32 \<Rightarrow> RouteEntry option"
    and dl :: "'s \<Rightarrow> bytes \<Rightarrow> RouteEntry option"
  assumes dl_view: "inv s \<Longrightarrow> dl s ip = Some e \<longleftrightarrow> (\<exists>t. ul s t = Some e) \<and> re_ue_ip e = ip"
    and ip_unique: "inv s \<Longrightarrow> ul s t = Some e \<Longrightarrow> ul s t' = Some e' \<Longrightarrow> re_ue_ip e = re_ue_ip e' \<Longrightarrow> t = t'"
begin

lemma ul_dl: "inv s \<Longrightarrow> ul s t = Some e \<Longrightarrow> dl s (re_ue_ip e) = Some e"
  using dl_view by blast

lemma dl_owner: "inv s \<Longrightarrow> dl s ip = Some e \<Longrightarrow> \<exists>!t. ul s t = Some e"
  using dl_view ip_unique by blast

lemma dl_none: "inv s \<Longrightarrow> (\<And>t e. ul s t = Some e \<Longrightarrow> re_ue_ip e \<noteq> ip) \<Longrightarrow> dl s ip = None"
  using dl_view by (metis not_Some_eq)

end

definition rt_inv :: "RoutingTable \<Rightarrow> bool" where
  "rt_inv rt \<longleftrightarrow>
     (\<forall>ip e. dl_map rt ip = Some e \<longleftrightarrow> (\<exists>t. ul_map rt t = Some e) \<and> re_ue_ip e = ip) \<and>
     (\<forall>t t' e e'. ul_map rt t = Some e \<longrightarrow> ul_map rt t' = Some e' \<longrightarrow> re_ue_ip e = re_ue_ip e' \<longrightarrow> t = t')"

interpretation routes: bearer_table rt_inv lookup_ul lookup_dl
  by unfold_locales (auto simp: rt_inv_def lookup_ul_def lookup_dl_def)

text \<open>The address of a new route may only be in use by the route it replaces.\<close>

definition ip_free :: "RoutingTable \<Rightarrow> u32 \<Rightarrow> bytes \<Rightarrow> bool" where
  "ip_free rt t ip \<longleftrightarrow> (\<forall>t' e. ul_map rt t' = Some e \<longrightarrow> re_ue_ip e = ip \<longrightarrow> t' = t)"

lemma rt_inv_new [simp]: "rt_inv RoutingTable_new"
  by (simp add: rt_inv_def RoutingTable_new_def)

lemma rt_install_maps [simp]:
  "ul_map (rt_install rt t e) = (ul_map rt)(t \<mapsto> e)"
  "dl_map (rt_install rt t e) = (dl_map rt)(re_ue_ip e \<mapsto> e)"
  by (simp_all add: rt_install_def)

lemma rt_inv_install:
  assumes "rt_inv rt" "ip_free rt t (re_ue_ip e)"
    and "\<And>e'. ul_map rt t = Some e' \<Longrightarrow> re_ue_ip e' = re_ue_ip e"
  shows "rt_inv (rt_install rt t e)"
proof -
  have dl: "dl_map rt ip = Some x \<longleftrightarrow> (\<exists>t'. ul_map rt t' = Some x) \<and> re_ue_ip x = ip" for ip x
    using assms(1) by (simp add: rt_inv_def)
  have free: "ul_map rt t' = Some x \<Longrightarrow> re_ue_ip x = re_ue_ip e \<Longrightarrow> t' = t" for t' x
    using assms(2) by (auto simp: ip_free_def)
  have "((\<exists>t'. ((ul_map rt)(t \<mapsto> e)) t' = Some x) \<and> re_ue_ip x = ip) \<longleftrightarrow>
      ((dl_map rt)(re_ue_ip e \<mapsto> e)) ip = Some x" for ip x
  proof (cases "ip = re_ue_ip e")
    case True
    with free assms(3) show ?thesis by (auto split: if_splits)
  next
    case False
    with assms(3) have "((\<exists>t'. ((ul_map rt)(t \<mapsto> e)) t' = Some x) \<and> re_ue_ip x = ip) \<longleftrightarrow>
        (\<exists>t'. ul_map rt t' = Some x) \<and> re_ue_ip x = ip"
      by (auto split: if_splits) (metis)
    with False dl show ?thesis by simp
  qed
  moreover have "((ul_map rt)(t \<mapsto> e)) a = Some x \<Longrightarrow> ((ul_map rt)(t \<mapsto> e)) b = Some y \<Longrightarrow>
      re_ue_ip x = re_ue_ip y \<Longrightarrow> a = b" for a b x y
  proof -
    have "ul_map rt a = Some x \<Longrightarrow> ul_map rt b = Some y \<Longrightarrow> re_ue_ip x = re_ue_ip y \<Longrightarrow> a = b"
      using assms(1) unfolding rt_inv_def by blast
    then show "((ul_map rt)(t \<mapsto> e)) a = Some x \<Longrightarrow> ((ul_map rt)(t \<mapsto> e)) b = Some y \<Longrightarrow>
        re_ue_ip x = re_ue_ip y \<Longrightarrow> a = b"
      by (auto split: if_splits dest: free free [OF _ sym])
  qed
  ultimately show ?thesis unfolding rt_inv_def rt_install_maps by blast
qed

lemma rt_inv_remove:
  assumes "rt_inv rt"
  shows "rt_inv (snd (rt_remove rt t))"
proof (cases "ul_map rt t")
  case None
  with assms show ?thesis by (simp add: rt_remove_def)
next
  case (Some e)
  have dl: "dl_map rt ip = Some x \<longleftrightarrow> (\<exists>t'. ul_map rt t' = Some x) \<and> re_ue_ip x = ip" for ip x
    using assms by (auto simp: rt_inv_def)
  have inj: "ul_map rt a = Some x \<Longrightarrow> ul_map rt b = Some y \<Longrightarrow> re_ue_ip x = re_ue_ip y \<Longrightarrow> a = b" for a b x y
    using assms by (auto simp: rt_inv_def)
  have "((\<exists>t'. ((ul_map rt)(t := None)) t' = Some x) \<and> re_ue_ip x = ip) \<longleftrightarrow>
      ((dl_map rt)(re_ue_ip e := None)) ip = Some x" for ip x
  proof -
    have "x \<noteq> e \<Longrightarrow> ul_map rt t' = Some x \<Longrightarrow> t' \<noteq> t" for t' using Some by auto
    then show ?thesis using dl [of ip x] inj [OF _ Some] by (cases "ip = re_ue_ip e") auto
  qed
  then show ?thesis
    using Some inj by (auto simp: rt_inv_def rt_remove_def split: if_splits)
qed

lemma rt_remove_ul [simp]: "ul_map (snd (rt_remove rt t)) = (ul_map rt)(t := None)"
  by (auto simp: rt_remove_def split: option.splits)

lemma rt_remove_dl: "dl_map (snd (rt_remove rt t)) =
    (case ul_map rt t of Some e \<Rightarrow> (dl_map rt)(re_ue_ip e := None) | None \<Rightarrow> dl_map rt)"
  by (auto simp: rt_remove_def split: option.splits)


section \<open>The abstract table\<close>

type_synonym table = "u32 \<rightharpoonup> RouteEntry"

definition spec_create :: "table \<Rightarrow> u32 \<Rightarrow> bytes \<Rightarrow> u32 \<Rightarrow> bytes \<Rightarrow> u8 \<Rightarrow> table" where
  "spec_create tab t ip dl enb qci = tab(t \<mapsto> RouteEntry_new ip dl enb qci)"

definition spec_update :: "table \<Rightarrow> u32 \<Rightarrow> u32 \<Rightarrow> bytes \<Rightarrow> table" where
  "spec_update tab t dl enb =
     (case tab t of None \<Rightarrow> tab | Some e \<Rightarrow> tab(t \<mapsto> RouteEntry_new (re_ue_ip e) dl enb (re_qci e)))"

definition spec_remove :: "table \<Rightarrow> u32 \<Rightarrow> table" where
  "spec_remove tab t = tab(t := None)"

text \<open>The session record and the kernel entry of a bearer.\<close>

definition session_of :: "u32 \<Rightarrow> RouteEntry \<Rightarrow> UserPlaneSession \<Rightarrow> bool" where
  "session_of t e s \<longleftrightarrow> ups_ul_teid s = t \<and> ups_dl_teid s = re_dl_teid e \<and> ups_ue_ip s = re_ue_ip e \<and>
     ups_enb_addr s = re_enb_addr e \<and> ups_active s"

definition xdp_of :: "RouteEntry \<Rightarrow> XdpRouteEntry" where
  "xdp_of e = XdpRouteEntry_new (re_dl_teid e) (re_enb_addr e) (re_enb_port e)"

definition bpf_rep :: "RoutingTable \<Rightarrow> BpfHandle \<Rightarrow> bool" where
  "bpf_rep rt b \<longleftrightarrow> TEID_TO_ROUTE b = map_option xdp_of \<circ> ul_map rt \<and>
     UE_IP_TO_ROUTE b = map_option xdp_of \<circ> dl_map rt"

definition sm_rep :: "table \<Rightarrow> SessionManager \<Rightarrow> bool" where
  "sm_rep tab sm \<longleftrightarrow> ul_map (sm_routing sm) = tab \<and> finite (dom tab) \<and> rt_inv (sm_routing sm) \<and>
     (\<forall>t. rel_option (session_of t) (tab t) (sm_sessions sm t)) \<and>
     (case sm_bpf sm of Some b \<Rightarrow> bpf_rep (sm_routing sm) b | None \<Rightarrow> True)"

text \<open>
  The documented behaviour of the kernel maps, which hold 65536 entries: an insert of a
  present key or below the capacity succeeds, and so does the removal of a present key.
\<close>

definition aya_ok :: "aya \<Rightarrow> bool" where
  "aya_ok ay \<longleftrightarrow>
     (\<forall>m k v. finite (dom m) \<longrightarrow> k \<in> dom m \<or> card (dom m) < 65536 \<longrightarrow> map_insert_teid ay m k v = Some (m(k \<mapsto> v))) \<and>
     (\<forall>m k v. finite (dom m) \<longrightarrow> k \<in> dom m \<or> card (dom m) < 65536 \<longrightarrow> map_insert_ue ay m k v = Some (m(k \<mapsto> v))) \<and>
     (\<forall>m k. map_remove_teid ay m k = (if k \<in> dom m then Some (m(k := None)) else None)) \<and>
     (\<forall>m k. map_remove_ue ay m k = (if k \<in> dom m then Some (m(k := None)) else None))"

lemma dom_dl_map: "rt_inv rt \<Longrightarrow> dom (dl_map rt) = (\<lambda>t. re_ue_ip (the (ul_map rt t))) ` dom (ul_map rt)"
  by (force simp: rt_inv_def dom_def image_iff)

lemma card_dl_map:
  assumes "rt_inv rt" "finite (dom (ul_map rt))"
  shows "finite (dom (dl_map rt))" "card (dom (dl_map rt)) \<le> card (dom (ul_map rt))"
  using assms by (simp_all add: dom_dl_map card_image_le)

lemma dom_map_option_comp [simp]: "dom (map_option f \<circ> m) = dom m"
  by (auto simp: dom_def)

lemma map_option_comp_upd: "map_option f \<circ> m(k \<mapsto> v) = (map_option f \<circ> m)(k \<mapsto> f v)"
  "map_option f \<circ> m(k := None) = (map_option f \<circ> m)(k := None)"
  by auto

text \<open>An instance, for witnesses.\<close>

definition sample_aya :: aya where
  "sample_aya = \<lparr>
     map_insert_teid = (\<lambda>m k v. Some (m(k \<mapsto> v))),
     map_remove_teid = (\<lambda>m k. if k \<in> dom m then Some (m(k := None)) else None),
     map_insert_ue = (\<lambda>m k v. Some (m(k \<mapsto> v))),
     map_remove_ue = (\<lambda>m k. if k \<in> dom m then Some (m(k := None)) else None),
     array_set_gw = (\<lambda>_ c. Some c), array_set_dl = (\<lambda>_ c. Some c)\<rparr>"

lemma sample_aya_ok [simp]: "aya_ok sample_aya"
  by (simp add: aya_ok_def sample_aya_def)

lemma aya_inserts:
  assumes "aya_ok ay"
  shows "finite (dom m) \<Longrightarrow> k \<in> dom m \<or> card (dom m) < 65536 \<Longrightarrow> map_insert_teid ay m k v = Some (m(k \<mapsto> v))"
    and "finite (dom n) \<Longrightarrow> i \<in> dom n \<or> card (dom n) < 65536 \<Longrightarrow> map_insert_ue ay n i v = Some (n(i \<mapsto> v))"
  using assms unfolding aya_ok_def by blast+

lemma bpf_rep_install:
  assumes "aya_ok ay" "bpf_rep rt b" "rt_inv rt" "finite (dom (ul_map rt))"
    and "t \<in> dom (ul_map rt) \<and> re_ue_ip e \<in> dom (dl_map rt) \<or> card (dom (ul_map rt)) < 65536"
    and "xe = xdp_of e"
  shows "bpf_rep (rt_install rt t e) (or_warn (insert_ue_route ay (or_warn (insert_teid ay b t xe) b) (re_ue_ip e) xe)
           (or_warn (insert_teid ay b t xe) b))"
proof -
  have "map_insert_teid ay (TEID_TO_ROUTE b) t xe = Some ((TEID_TO_ROUTE b)(t \<mapsto> xe))"
    "map_insert_ue ay (UE_IP_TO_ROUTE b) (re_ue_ip e) xe = Some ((UE_IP_TO_ROUTE b)(re_ue_ip e \<mapsto> xe))"
    using assms card_dl_map [OF assms(3,4)]
    by (auto simp: bpf_rep_def intro!: aya_inserts [OF assms(1)])
  then show ?thesis
    using assms(2,6) by (simp add: bpf_rep_def insert_teid_def insert_ue_route_def or_warn_def map_option_comp_upd)
qed


lemma bpf_rep_remove:
  assumes "aya_ok ay" "bpf_rep rt b" "rt_inv rt" "ul_map rt t = Some e"
  shows "bpf_rep (snd (rt_remove rt t)) (or_warn (remove_ue_route ay (or_warn (remove_teid ay b t) b) (re_ue_ip e))
           (or_warn (remove_teid ay b t) b))"
proof -
  have "dl_map rt (re_ue_ip e) = Some e" using assms(3,4) by (auto simp: rt_inv_def)
  with assms show ?thesis
    by (auto simp: aya_ok_def bpf_rep_def remove_teid_def remove_ue_route_def or_warn_def
        map_option_comp_upd rt_remove_dl)
qed

lemma bpf_rep_remove_absent:
  assumes "aya_ok ay" "bpf_rep rt b" "ul_map rt t = None"
  shows "bpf_rep (snd (rt_remove rt t)) (or_warn (remove_teid ay b t) b)"
  using assms by (auto simp: aya_ok_def bpf_rep_def remove_teid_def or_warn_def rt_remove_def)

section \<open>The session manager refines the abstract table\<close>

lemma sm_repD:
  assumes "sm_rep tab sm"
  shows "ul_map (sm_routing sm) = tab" "finite (dom tab)" "rt_inv (sm_routing sm)"
    "rel_option (session_of t) (tab t) (sm_sessions sm t)"
    "sm_bpf sm = Some b \<Longrightarrow> bpf_rep (sm_routing sm) b"
  using assms by (auto simp: sm_rep_def)

text \<open>
  A session may be created under a TEID that is not in use, with an address no session has,
  and, when the kernel maps are in use, below their capacity.
\<close>

definition may_create :: "table \<Rightarrow> u32 \<Rightarrow> bytes \<Rightarrow> bool" where
  "may_create tab t ip \<longleftrightarrow> tab t = None \<and> (\<forall>t' e. tab t' = Some e \<longrightarrow> re_ue_ip e \<noteq> ip) \<and>
     card (dom tab) < 65536"

lemma may_create_install:
  assumes "sm_rep tab sm" "may_create tab t (re_ue_ip e)"
  shows "rt_inv (rt_install (sm_routing sm) t e)"
  using sm_repD [OF assms(1)] assms(2)
  by (intro rt_inv_install) (auto simp: may_create_def ip_free_def)

lemma create_refines:
  assumes "aya_ok ay" "sm_rep tab sm" "may_create tab t ip"
  shows "sm_rep (spec_create tab t ip 0 enb qci) (create_session_with_teid ay sm t eid imsi ip enb qci)"
proof -
  let ?e = "RouteEntry_new ip 0 enb qci" and ?x = "XdpRouteEntry_new 0 enb 2152"
  have x: "?x = xdp_of ?e" "re_ue_ip ?e = ip" by (simp_all add: xdp_of_def RouteEntry_new_def)
  note r = sm_repD [OF assms(2)]
  have inv: "rt_inv (rt_install (sm_routing sm) t ?e)"
    using may_create_install [OF assms(2), of t ?e] assms(3) x(2) by simp
  have bpf: "bpf_rep (rt_install (sm_routing sm) t ?e) (or_warn (insert_ue_route ay (or_warn (insert_teid ay b t ?x) b) ip ?x)
       (or_warn (insert_teid ay b t ?x) b))" if "sm_bpf sm = Some b" for b
    using bpf_rep_install [OF assms(1) r(5) [OF that] r(3) _ _ x(1), of t] r(1,2) assms(3) x(2)
    by (simp add: may_create_def)
  have s: "rel_option (session_of t') (tab t') (sm_sessions sm t')" for t' by (rule r(4))
  show ?thesis
    using inv bpf r(1,2) s
    by (cases "sm_bpf sm")
       (auto simp: sm_rep_def create_session_with_teid_def sm_install_def spec_create_def Let_def
         session_of_def RouteEntry_new_def)
qed


lemma update_refines:
  assumes "aya_ok ay" "sm_rep tab sm"
  shows "sm_rep (spec_update tab t dl enb) (snd (update_bearer_info ay sm t dl enb))"
    and "fst (update_bearer_info ay sm t dl enb) \<longleftrightarrow> tab t \<noteq> None"
proof -
  note r = sm_repD [OF assms(2)]
  show "fst (update_bearer_info ay sm t dl enb) \<longleftrightarrow> tab t \<noteq> None"
    using r(1) by (auto simp: update_bearer_info_def lookup_ul_def Let_def split: option.splits)
  show "sm_rep (spec_update tab t dl enb) (snd (update_bearer_info ay sm t dl enb))"
  proof (cases "tab t")
    case None
    with assms(2) r(1) show ?thesis by (simp add: update_bearer_info_def lookup_ul_def spec_update_def)
  next
    case (Some e)
    let ?rt = "snd (rt_remove (sm_routing sm) t)"
    let ?e = "RouteEntry_new (re_ue_ip e) dl enb (re_qci e)" and ?x = "XdpRouteEntry_new dl enb 2152"
    have x: "?x = xdp_of ?e" "re_ue_ip ?e = re_ue_ip e" by (simp_all add: xdp_of_def RouteEntry_new_def)
    have ip: "t' = t" if "tab t' = Some e'" "re_ue_ip e' = re_ue_ip e" for t' e'
      using r(3) that Some r(1) unfolding rt_inv_def by blast
    have same: "rt_install ?rt t ?e = rt_install (sm_routing sm) t ?e"
      using Some r(1) x(2) by (simp add: rt_install_def rt_remove_def)
    have inv: "rt_inv (rt_install (sm_routing sm) t ?e)"
    proof (rule rt_inv_install [OF r(3)])
      show "ip_free (sm_routing sm) t (re_ue_ip ?e)"
        unfolding ip_free_def r(1) x(2) using ip by blast
    qed (use r(1) Some x(2) in simp)
    have dl: "re_ue_ip e \<in> dom (dl_map (sm_routing sm))"
      using r(1,3) Some by (auto simp: rt_inv_def)
    have bpf: "bpf_rep (rt_install (sm_routing sm) t ?e)
        (or_warn (insert_ue_route ay (or_warn (insert_teid ay b t ?x) b) (re_ue_ip e) ?x)
         (or_warn (insert_teid ay b t ?x) b))" if "sm_bpf sm = Some b" for b
    proof -
      have "t \<in> dom (ul_map (sm_routing sm)) \<and> re_ue_ip ?e \<in> dom (dl_map (sm_routing sm))"
        using Some r(1) dl x(2) by auto
      then show ?thesis
        using bpf_rep_install [OF assms(1) r(5) [OF that] r(3) _ _ x(1), of t] r(1,2) x(2) by simp
    qed
    obtain s where s: "sm_sessions sm t = Some s" "session_of t e s"
      using r(4) [of t] Some by (auto simp: rel_option_iff split: option.splits)
    have o: "rel_option (session_of t') (tab t') (sm_sessions sm t')" for t' by (rule r(4))
    have ns: "session_of t ?e (s\<lparr>ups_dl_teid := dl, ups_enb_addr := enb\<rparr>)"
      using s(2) by (simp add: session_of_def RouteEntry_new_def)
    have eq: "spec_update tab t dl enb = tab(t \<mapsto> ?e)" using Some by (simp add: spec_update_def)
    show ?thesis unfolding eq
      using inv bpf r(1,2) s(1) o ns same Some
      by (cases "sm_bpf sm") (auto simp: sm_rep_def update_bearer_info_def lookup_ul_def Let_def)
  qed
qed

lemma remove_refines:
  assumes "aya_ok ay" "sm_rep tab sm"
  shows "sm_rep (spec_remove tab t) (snd (remove_session ay sm t))"
    and "rel_option (session_of t) (tab t) (fst (remove_session ay sm t))"
proof -
  note r = sm_repD [OF assms(2)]
  show "rel_option (session_of t) (tab t) (fst (remove_session ay sm t))"
    using r(4) [of t] by (cases "sm_bpf sm") (simp_all add: remove_session_def Let_def)
  have o: "rel_option (session_of t') (tab t') (sm_sessions sm t')" for t' by (rule r(4))
  have inv: "rt_inv (snd (rt_remove (sm_routing sm) t))" by (rule rt_inv_remove [OF r(3)])
  show "sm_rep (spec_remove tab t) (snd (remove_session ay sm t))"
  proof (cases "tab t")
    case None
    then have "sm_sessions sm t = None" using r(4) [of t] by simp
    with None r(1,2) o inv bpf_rep_remove_absent [OF assms(1) r(5)] show ?thesis
      by (cases "sm_bpf sm") (auto simp: sm_rep_def remove_session_def spec_remove_def Let_def)
  next
    case (Some e)
    obtain s where s: "sm_sessions sm t = Some s" "session_of t e s"
      using r(4) [of t] Some by (auto simp: rel_option_iff split: option.splits)
    have "ups_ue_ip s = re_ue_ip e" using s(2) by (simp add: session_of_def)
    with Some s r(1,2) o inv bpf_rep_remove [OF assms(1) r(5) r(3)] show ?thesis
      by (cases "sm_bpf sm") (auto simp: sm_rep_def remove_session_def spec_remove_def Let_def)
  qed
qed

end
