(* ===== verification/Per.thy ===== *)
theory Per
  imports Midn_Prelude
begin

text \<open>
  The ALIGNED PER engine, \<open>crates/midn-proto/src/per.rs\<close>: a bit-level writer and a bit-level
  reader. A writer operation whose assertion fails (a value out of its range, a length of
  16384 or more) yields \<open>None\<close>; a reader operation that runs past the end yields \<open>None\<close>.
  The theory proves that every reader operation inverts its writer operation, in a form
  that composes: a reader that stands where the writer stood, on data that starts with
  what the writer produced, returns the written value and stands where the writer stopped.
  The locale \<open>per_item\<close> states that contract for one wire item and derives it for
  length-prefixed sequences of items, the shape of every list in S1AP and NGAP.
\<close>

named_theorems per_sync \<open>reader operations on what a writer produced\<close>

section \<open>Writer\<close>

record PerWriter =
  pw_bits :: "bool list"

definition PerWriter_new :: PerWriter where
  "PerWriter_new = \<lparr>pw_bits = []\<rparr>"

definition write_bit :: "PerWriter \<Rightarrow> bool \<Rightarrow> PerWriter" where
  "write_bit w b = w\<lparr>pw_bits := pw_bits w @ [b]\<rparr>"

definition write_bits :: "PerWriter \<Rightarrow> u64 \<Rightarrow> nat \<Rightarrow> PerWriter" where
  "write_bits w value n =
     foldl (\<lambda>w i. w\<lparr>pw_bits := pw_bits w @ [drop_bit i value AND 1 = 1]\<rparr>) w (rev [0..<n])"

definition write_align :: "PerWriter \<Rightarrow> PerWriter" where
  "write_align w =
     (let rem = length (pw_bits w) mod 8
      in if rem \<noteq> 0 then w\<lparr>pw_bits := pw_bits w @ replicate (8 - rem) False\<rparr> else w)"

definition write_octets :: "PerWriter \<Rightarrow> bytes \<Rightarrow> PerWriter" where
  "write_octets w dat = foldl (\<lambda>w b. write_bits w (ucast b) 8) w dat"

definition leading_zeros :: "u64 \<Rightarrow> nat" where
  "leading_zeros x = length (takeWhile (\<lambda>i. \<not> bit x i) (rev [0..<64]))"

definition bits_for_range :: "u64 \<Rightarrow> nat" where
  "bits_for_range rng = (if rng \<le> 1 then 0 else 64 - leading_zeros (rng - 1))"

text \<open>
  \<open>write_constrained_int\<close>: the assertion, the degenerate range, the packed form for at most
  eight bits and the octet-aligned form. The range is computed with wrap-around, as the
  code's own note on \<open>max - min + 1\<close> describes.
\<close>

definition write_constrained_int :: "PerWriter \<Rightarrow> u64 \<Rightarrow> u64 \<Rightarrow> u64 \<Rightarrow> PerWriter option" where
  "write_constrained_int w value mn mx =
     (if \<not> (value \<ge> mn \<and> value \<le> mx) then None
      else
        let rng = mx - mn + 1; v = value - mn in
        if rng \<le> 1 then Some w
        else
          let num_bits = bits_for_range rng in
          if num_bits \<le> 8 then Some (write_bits w v num_bits)
          else
            let w = write_align w; num_octets = (num_bits + 7) div 8 in
            Some (foldl (\<lambda>w i. write_bits w (drop_bit (i * 8) v AND 0xFF) 8) w
                    (rev [0..<num_octets])))"

definition write_length_determinant :: "PerWriter \<Rightarrow> nat \<Rightarrow> PerWriter option" where
  "write_length_determinant w len =
     (if \<not> len < 16384 then None
      else
        let w = write_align w in
        if len < 128 then Some (write_bits (write_bit w False) (of_nat len) 7)
        else Some (write_bits (write_bit (write_bit w True) False) (of_nat len) 14))"

definition write_octet_string :: "PerWriter \<Rightarrow> bytes \<Rightarrow> PerWriter option" where
  "write_octet_string w dat =
     Option.bind (write_length_determinant w (length dat)) (\<lambda>w. Some (write_octets w dat))"

definition byte_of_chunk :: "bool list \<Rightarrow> u8" where
  "byte_of_chunk chunk =
     foldl (\<lambda>byte (i, b). if b then byte OR push_bit (7 - i) 1 else byte) 0 (enumerate 0 chunk)"

fun pack_chunks :: "bool list \<Rightarrow> bytes" where
  "pack_chunks [] = []"
| "pack_chunks (b # bs) = byte_of_chunk (take 8 (b # bs)) # pack_chunks (drop 8 (b # bs))"

definition into_bytes :: "PerWriter \<Rightarrow> bytes" where
  "into_bytes w = pack_chunks (pw_bits (write_align w))"

section \<open>Reader\<close>

record PerReader =
  pr_data :: bytes
  pr_bit_pos :: nat

definition PerReader_new :: "bytes \<Rightarrow> PerReader" where
  "PerReader_new dat = \<lparr>pr_data = dat, pr_bit_pos = 0\<rparr>"

definition read_bit :: "PerReader \<Rightarrow> (bool \<times> PerReader) option" where
  "read_bit r =
     (let byte_idx = pr_bit_pos r div 8; bit_idx = pr_bit_pos r mod 8 in
      if byte_idx \<ge> length (pr_data r) then None
      else Some (drop_bit (7 - bit_idx) (pr_data r ! byte_idx) AND 1 = 1,
                 r\<lparr>pr_bit_pos := pr_bit_pos r + 1\<rparr>))"

fun read_bits_loop :: "nat \<Rightarrow> u64 \<Rightarrow> PerReader \<Rightarrow> (u64 \<times> PerReader) option" where
  "read_bits_loop 0 v r = Some (v, r)"
| "read_bits_loop (Suc n) v r =
     Option.bind (read_bit r) (\<lambda>(b, r). read_bits_loop n (push_bit 1 v OR of_bool b) r)"

definition read_bits :: "PerReader \<Rightarrow> nat \<Rightarrow> (u64 \<times> PerReader) option" where
  "read_bits r n = read_bits_loop n 0 r"

definition read_align :: "PerReader \<Rightarrow> PerReader" where
  "read_align r =
     (let rem = pr_bit_pos r mod 8
      in if rem \<noteq> 0 then r\<lparr>pr_bit_pos := pr_bit_pos r + (8 - rem)\<rparr> else r)"

definition read_constrained_int :: "PerReader \<Rightarrow> u64 \<Rightarrow> u64 \<Rightarrow> (u64 \<times> PerReader) option" where
  "read_constrained_int r mn mx =
     (let rng = mx - mn + 1 in
      if rng \<le> 1 then Some (mn, r)
      else
        let num_bits = bits_for_range rng in
        Option.bind
          (if num_bits \<le> 8 then read_bits r num_bits
           else read_bits (read_align r) ((num_bits + 7) div 8 * 8))
          (\<lambda>(v, r). Some (mn + v, r)))"

definition read_length_determinant :: "PerReader \<Rightarrow> (nat \<times> PerReader) option" where
  "read_length_determinant r =
     Option.bind (read_bit (read_align r)) (\<lambda>(b0, r).
       if \<not> b0 then Option.bind (read_bits r 7) (\<lambda>(rest, r). Some (unat rest, r))
       else Option.bind (read_bit r) (\<lambda>(b1, r).
              if b1 then None
              else Option.bind (read_bits r 14) (\<lambda>(rest, r). Some (unat rest, r))))"

definition read_octets :: "PerReader \<Rightarrow> nat \<Rightarrow> (bytes \<times> PerReader) option" where
  "read_octets r n =
     repeatM (\<lambda>r. Option.bind (read_bits r 8) (\<lambda>(v, r). Some (ucast v, r))) n (read_align r)"

definition read_octet_string :: "PerReader \<Rightarrow> (bytes \<times> PerReader) option" where
  "read_octet_string r =
     Option.bind (read_length_determinant r) (\<lambda>(len, r). read_octets r len)"

section \<open>The bit stream of a byte string\<close>

definition to_bits :: "bytes \<Rightarrow> bool list" where
  "to_bits bs = concat (map (\<lambda>b. map (\<lambda>i. bit b (7 - i)) [0..<8]) bs)"

lemma to_bits_simps [simp]:
  "to_bits [] = []" "to_bits (b # bs) = map (\<lambda>i. bit b (7 - i)) [0..<8] @ to_bits bs"
  by (simp_all add: to_bits_def)

lemma length_to_bits [simp]: "length (to_bits bs) = 8 * length bs"
  by (induction bs) simp_all

lemma nth_to_bits:
  "p < 8 * length bs \<Longrightarrow> to_bits bs ! p = bit (bs ! (p div 8)) (7 - p mod 8)"
proof (induction bs arbitrary: p)
  case Nil
  then show ?case by simp
next
  case (Cons b bs)
  show ?case
  proof (cases "p < 8")
    case True
    then show ?thesis by (simp add: nth_append)
  next
    case False
    then have "p div 8 = Suc ((p - 8) div 8)" "p mod 8 = (p - 8) mod 8"
      by (simp_all add: le_div_geq le_mod_geq)
    with False Cons.prems show ?thesis
      by (simp add: nth_append Cons.IH)
  qed
qed

lemma bit_foldl_chunk:
  "n + length c \<le> 8 \<Longrightarrow>
   bit (foldl (\<lambda>byte (i, b). if b then byte OR push_bit (7 - i) 1 else byte) acc
          (enumerate n c) :: u8) j
     \<longleftrightarrow> bit acc j \<or> (\<exists>k < length c. c ! k \<and> j = 7 - (n + k))"
proof (induction c arbitrary: n acc)
  case Nil
  then show ?case by simp
next
  case (Cons b c)
  have ex: "(\<exists>k < length (b # c). (b # c) ! k \<and> j = 7 - (n + k)) \<longleftrightarrow>
      b \<and> j = 7 - n \<or> (\<exists>k < length c. c ! k \<and> j = 7 - (Suc n + k))"
    by (simp add: Ex_less_Suc2)
  have bit: "bit (if b then acc OR push_bit (7 - n) 1 else acc) j
      \<longleftrightarrow> bit acc j \<or> b \<and> j = 7 - n"
    using Cons.prems by (auto simp: bit_simps)
  show ?case
    using Cons.IH [of "Suc n" "if b then acc OR push_bit (7 - n) 1 else acc"] Cons.prems bit ex
    by simp
qed

lemma bit_byte_of_chunk:
  assumes "length c = 8" "k < 8"
  shows "bit (byte_of_chunk c) (7 - k) = c ! k"
proof -
  have "bit (byte_of_chunk c) (7 - k) \<longleftrightarrow> (\<exists>k' < 8. c ! k' \<and> 7 - k = 7 - k')"
    using bit_foldl_chunk [of 0 c 0 "7 - k"] assms by (simp add: byte_of_chunk_def)
  also have "\<dots> \<longleftrightarrow> c ! k"
  proof
    assume "\<exists>k' < 8. c ! k' \<and> 7 - k = 7 - k'"
    then obtain k' where "k' < 8" "c ! k'" "7 - k = 7 - k'" by blast
    moreover from this assms(2) have "k' = k" by arith
    ultimately show "c ! k" by simp
  qed (use assms(2) in blast)
  finally show ?thesis .
qed

lemma to_bits_pack_chunks: "8 dvd length bs \<Longrightarrow> to_bits (pack_chunks bs) = bs"
proof (induction bs rule: pack_chunks.induct)
  case 1
  then show ?case by simp
next
  case (2 b bs)
  let ?c = "take 8 (b # bs)"
  from "2.prems" have len: "8 \<le> length (b # bs)"
    by (rule dvd_imp_le) simp
  have "8 dvd length (drop 8 (b # bs))"
    using dvd_diff_nat [OF "2.prems", of 8] by (simp only: length_drop dvd_refl)
  then have IH: "to_bits (pack_chunks (drop 8 (b # bs))) = drop 8 (b # bs)"
    by (rule "2.IH")
  have "map (\<lambda>i. bit (byte_of_chunk ?c) (7 - i)) [0..<8] = ?c"
    using len by (intro nth_equalityI) (simp_all add: bit_byte_of_chunk del: take_Suc_Cons)
  with IH show ?case
    by (simp only: pack_chunks.simps to_bits_simps append_take_drop_id)
qed

section \<open>What each operation does to the bits\<close>

lemma foldl_push_bits:
  "foldl (\<lambda>w i. w\<lparr>pw_bits := pw_bits w @ [f i]\<rparr>) w xs = w\<lparr>pw_bits := pw_bits w @ map f xs\<rparr>"
  by (induction xs arbitrary: w) simp_all

lemma write_bits_eq:
  "write_bits w v n = w\<lparr>pw_bits := pw_bits w @ map (bit v) (rev [0..<n])\<rparr>"
  by (simp add: write_bits_def foldl_push_bits)

lemma write_octets_eq: "write_octets w dat = w\<lparr>pw_bits := pw_bits w @ to_bits dat\<rparr>"
proof (induction dat arbitrary: w)
  case Nil
  then show ?case by (simp add: write_octets_def)
next
  case (Cons b dat)
  have "map (bit (ucast b :: u64)) (rev [0..<8]) = map (\<lambda>i. bit b (7 - i)) [0..<8]"
    by (rule nth_equalityI) (auto simp: rev_nth bit_simps)
  with Cons show ?case by (simp add: write_octets_def write_bits_eq)
qed

definition align_pad :: "nat \<Rightarrow> bool list" where
  "align_pad n = (if n mod 8 = 0 then [] else replicate (8 - n mod 8) False)"

lemma write_align_eq:
  "write_align w = w\<lparr>pw_bits := pw_bits w @ align_pad (length (pw_bits w))\<rparr>"
  by (simp add: write_align_def align_pad_def Let_def)

lemma dvd_align_pad [simp]: "8 dvd n + length (align_pad n)"
proof (cases "n mod 8 = 0")
  case False
  have "n + (8 - n mod 8) = 8 * (n div 8) + 8"
    using mult_div_mod_eq [of 8 n] mod_less_divisor [of 8 n] by linarith
  then have "8 dvd n + (8 - n mod 8)" by simp
  with False show ?thesis by (simp add: align_pad_def)
qed (simp add: align_pad_def dvd_eq_mod_eq_0)

lemma align_pad_mult [simp]: "8 dvd n \<Longrightarrow> align_pad n = []"
  by (simp add: align_pad_def dvd_eq_mod_eq_0)

lemma to_bits_into_bytes: "to_bits (into_bytes w) = pw_bits (write_align w)"
  by (simp add: into_bytes_def to_bits_pack_chunks write_align_eq)

lemma read_align_eq:
  "read_align r = r\<lparr>pr_bit_pos := pr_bit_pos r + length (align_pad (pr_bit_pos r))\<rparr>"
  by (simp add: read_align_def align_pad_def Let_def)

lemma read_bit_eq:
  "read_bit r =
     (if pr_bit_pos r < length (to_bits (pr_data r))
      then Some (to_bits (pr_data r) ! pr_bit_pos r, r\<lparr>pr_bit_pos := pr_bit_pos r + 1\<rparr>)
      else None)"
proof -
  have "pr_bit_pos r div 8 \<ge> length (pr_data r) \<longleftrightarrow> \<not> pr_bit_pos r < 8 * length (pr_data r)"
    by auto
  then show ?thesis by (simp add: read_bit_def Let_def nth_to_bits)
qed

definition of_bits_be :: "u64 \<Rightarrow> bool list \<Rightarrow> u64" where
  "of_bits_be v bs = foldl (\<lambda>v b. push_bit 1 v OR of_bool b) v bs"

lemma read_bits_loop_eq:
  "pr_bit_pos r + length bs \<le> length (to_bits (pr_data r)) \<Longrightarrow>
   bs = take (length bs) (drop (pr_bit_pos r) (to_bits (pr_data r))) \<Longrightarrow>
   read_bits_loop (length bs) v r =
     Some (of_bits_be v bs, r\<lparr>pr_bit_pos := pr_bit_pos r + length bs\<rparr>)"
proof (induction bs arbitrary: v r)
  case Nil
  then show ?case by (simp add: of_bits_be_def)
next
  case (Cons b bs)
  let ?s = "to_bits (pr_data r)" and ?p = "pr_bit_pos r"
  from Cons.prems(1) have lt: "?p < length ?s" by simp
  then have d: "drop ?p ?s = ?s ! ?p # drop (Suc ?p) ?s" by (simp add: Cons_nth_drop_Suc)
  from Cons.prems(2) have b: "b = ?s ! ?p" and
    bs: "bs = take (length bs) (drop (Suc ?p) ?s)"
    unfolding d by simp_all
  have "read_bits_loop (length bs) (push_bit 1 v OR of_bool b) (r\<lparr>pr_bit_pos := ?p + 1\<rparr>)
      = Some (of_bits_be (push_bit 1 v OR of_bool b) bs,
              r\<lparr>pr_bit_pos := ?p + 1 + length bs\<rparr>)"
    using Cons.IH [of "r\<lparr>pr_bit_pos := ?p + 1\<rparr>"] Cons.prems(1) bs by simp
  then show ?case
    using lt b by (simp add: read_bit_eq of_bits_be_def)
qed

lemma of_bits_be_bits: "n \<le> 64 \<Longrightarrow> of_bits_be 0 (map (bit v) (rev [0..<n])) = take_bit n v"
proof -
  have gen: "of_bits_be u (map (bit v) (rev [0..<n])) = push_bit n u OR take_bit n v"
    if "n \<le> 64" for u n
    using that
  proof (induction n arbitrary: u)
    case 0
    then show ?case by (simp add: of_bits_be_def)
  next
    case (Suc n)
    have "of_bits_be u (map (bit v) (rev [0..<Suc n])) =
        push_bit n (push_bit 1 u OR of_bool (bit v n)) OR take_bit n v"
      using Suc by (simp add: of_bits_be_def)
    also have "\<dots> = push_bit (Suc n) u OR take_bit (Suc n) v"
      using Suc.prems by (intro bit_word_eqI) (auto simp: bit_simps less_Suc_eq)
    finally show ?case .
  qed
  show "n \<le> 64 \<Longrightarrow> ?thesis" by (simp add: gen)
qed

section \<open>Readers in step with writers\<close>

text \<open>
  \<open>seek r w\<close> is the reader standing where the output of \<open>w\<close> ends; \<open>covers r w\<close> says that
  the reader's data starts with the output of \<open>w\<close>; \<open>extends w w'\<close> that \<open>w'\<close> only appended
  to \<open>w\<close>. Each fact of the collection \<open>per_sync\<close> has the form: if the writer goes from
  \<open>w\<close> to \<open>w'\<close> with a value, and the data covers \<open>w'\<close>, then the reader goes from \<open>seek r w\<close> to
  \<open>seek r w'\<close> with that value.
\<close>

definition covers :: "PerReader \<Rightarrow> PerWriter \<Rightarrow> bool" where
  "covers r w \<longleftrightarrow> prefix (pw_bits w) (to_bits (pr_data r))"

definition seek :: "PerReader \<Rightarrow> PerWriter \<Rightarrow> PerReader" where
  "seek r w = r\<lparr>pr_bit_pos := length (pw_bits w)\<rparr>"

definition extends :: "PerWriter \<Rightarrow> PerWriter \<Rightarrow> bool" where
  "extends w w' \<longleftrightarrow> prefix (pw_bits w) (pw_bits w')"

lemma covers_seek [simp]: "covers (seek r w') w \<longleftrightarrow> covers r w"
  by (simp add: covers_def seek_def)

lemma seek_seek [simp]: "seek (seek r w) w' = seek r w'"
  by (simp add: seek_def)

lemma extends_refl [simp]: "extends w w"
  by (simp add: extends_def)

lemma extends_trans: "extends a b \<Longrightarrow> extends b c \<Longrightarrow> extends a c"
  by (auto simp: extends_def)

lemma covers_mono: "covers r w' \<Longrightarrow> extends w w' \<Longrightarrow> covers r w"
  by (auto simp: covers_def extends_def)

lemma PerReader_new_seek: "PerReader_new d = seek (PerReader_new d) PerWriter_new"
  by (simp add: seek_def PerReader_new_def PerWriter_new_def)

lemma covers_into_bytes [simp]: "covers (PerReader_new (into_bytes w)) w"
  by (simp add: covers_def PerReader_new_def to_bits_into_bytes write_align_eq)

lemma extends_writes [simp]:
  "extends w (write_bit w b)" "extends w (write_bits w v n)" "extends w (write_align w)"
  "extends w (write_octets w dat)"
  by (simp_all add: extends_def write_bit_def write_bits_eq write_align_eq write_octets_eq)

lemma covers_before [dest]:
  "covers r (write_bit w b) \<Longrightarrow> covers r w" "covers r (write_bits w v n) \<Longrightarrow> covers r w"
  "covers r (write_align w) \<Longrightarrow> covers r w" "covers r (write_octets w dat) \<Longrightarrow> covers r w"
  by (rule covers_mono, assumption, simp)+

lemma read_align_sync [per_sync]: "read_align (seek r w) = seek r (write_align w)"
  by (simp add: seek_def read_align_eq write_align_eq)

lemma read_bit_sync [per_sync]:
  "covers r (write_bit w b) \<Longrightarrow> read_bit (seek r w) = Some (b, seek r (write_bit w b))"
  by (auto simp: covers_def seek_def read_bit_eq write_bit_def prefix_def simp del: length_to_bits)

lemma read_bits_sync [per_sync]:
  assumes "covers r (write_bits w v n)" "n \<le> 64"
  shows "read_bits (seek r w) n = Some (take_bit n v, seek r (write_bits w v n))"
proof -
  let ?bs = "map (bit v) (rev [0..<n])" and ?r = "seek r w"
  from assms obtain rest where
    d: "to_bits (pr_data ?r) = (pw_bits w @ ?bs) @ rest" and p: "pr_bit_pos ?r = length (pw_bits w)"
    by (auto simp: covers_def write_bits_eq prefix_def seek_def)
  have "length (to_bits (pr_data ?r)) = pr_bit_pos ?r + n + length rest"
    unfolding d p by simp
  then have le: "pr_bit_pos ?r + length ?bs \<le> length (to_bits (pr_data ?r))" by simp
  have bs: "?bs = take (length ?bs) (drop (pr_bit_pos ?r) (to_bits (pr_data ?r)))"
    unfolding d p by simp
  show ?thesis
    using read_bits_loop_eq [OF le bs, of 0] assms(2) p of_bits_be_bits [OF assms(2), of v]
    by (simp add: read_bits_def seek_def write_bits_eq)
qed

lemma write_bytes_bits:
  "foldl (\<lambda>w i. write_bits w (drop_bit (i * 8) v AND 0xFF) 8) w (rev [0..<k]) =
     write_bits w v (k * 8)"
proof (induction k arbitrary: w)
  case 0
  then show ?case by (simp add: write_bits_eq)
next
  case (Suc k)
  have b: "(0xFF :: u64) = mask 8" by (simp add: mask_eq_exp_minus_1)
  have "map (bit (drop_bit (k * 8) v AND 0xFF)) (rev [0..<8]) @ map (bit v) (rev [0..<k * 8])
      = map (bit v) (rev [0..<Suc k * 8])"
    unfolding b
    by (rule nth_equalityI)
       (auto simp: nth_append rev_nth bit_simps algebra_simps intro!: arg_cong [of _ _ "bit v"])
  with Suc show ?case by (simp add: write_bits_eq)
qed

section \<open>Constrained whole numbers\<close>

lemma high_bits_leading_zeros: "64 - leading_zeros x \<le> i \<Longrightarrow> \<not> bit x i"
proof (cases "i < 64")
  case True
  assume i: "64 - leading_zeros x \<le> i"
  let ?P = "\<lambda>i. \<not> bit x i" and ?xs = "rev [0..<64::nat]"
  have le: "leading_zeros x \<le> 64"
    using length_takeWhile_le [of ?P ?xs] by (simp add: leading_zeros_def)
  have j: "63 - i < length (takeWhile ?P ?xs)"
    using i True le unfolding leading_zeros_def [symmetric] by arith
  then have "takeWhile ?P ?xs ! (63 - i) = i"
    using True by (simp add: takeWhile_nth rev_nth)
  with nth_mem [OF j] show ?thesis by (auto dest: set_takeWhileD)
qed (auto dest: bit_imp_le_length)

lemma take_bit_leading_zeros:
  assumes "v \<le> x"
  shows "take_bit (64 - leading_zeros x) v = v"
proof -
  let ?n = "64 - leading_zeros x"
  have "take_bit ?n x = x"
    by (rule bit_word_eqI) (metis bit_take_bit_iff high_bits_leading_zeros linorder_not_le)
  then have "unat x < 2 ^ ?n"
    by (metis take_bit_nat_less_exp unsigned_take_bit_eq)
  moreover have "unat v \<le> unat x" using assms by (simp add: word_le_nat_alt)
  ultimately have "take_bit ?n (unat v) = unat v" by (simp add: take_bit_nat_eq_self)
  then show ?thesis by (metis unsigned_take_bit_eq unsigned_word_eqI)
qed

lemma word_le_1_cases: "(x :: 'a::len word) \<le> 1 \<Longrightarrow> x = 0 \<or> x = 1"
proof -
  assume "x \<le> 1"
  then have "unat x \<le> 1" by (simp add: word_le_nat_alt)
  then have "unat x = 0 \<or> unat x = 1" by auto
  then show ?thesis by (auto simp: unat_eq_zero intro: unsigned_word_eqI [where 'a = nat])
qed

lemma bits_for_range_le: "bits_for_range rng \<le> 64"
  by (simp add: bits_for_range_def)

lemma take_bit_bits_for_range:
  assumes "v \<le> rng - 1" "bits_for_range rng \<le> n" "\<not> rng \<le> 1"
  shows "take_bit n v = v"
proof -
  have "take_bit (bits_for_range rng) v = v"
    using assms(1,3) by (simp add: bits_for_range_def take_bit_leading_zeros)
  then show ?thesis using assms(2)
    by (metis min.absorb2 take_bit_take_bit)
qed

lemma write_constrained_int_extends:
  "write_constrained_int w v mn mx = Some w' \<Longrightarrow> extends w w'"
  by (auto simp: write_constrained_int_def Let_def write_bytes_bits split: if_splits
      intro: extends_trans [OF extends_writes(3)])

lemma write_constrained_int_Some:
  "mn \<le> v \<Longrightarrow> v \<le> mx \<Longrightarrow> \<exists>w'. write_constrained_int w v mn mx = Some w'"
  by (simp add: write_constrained_int_def Let_def)

lemma read_constrained_int_sync [per_sync]:
  assumes "write_constrained_int w v mn mx = Some w'" "covers r w'" "mx - mn + 1 \<noteq> 0"
  shows "read_constrained_int (seek r w) mn mx = Some (v, seek r w')"
proof -
  let ?rng = "mx - mn + 1" and ?d = "v - mn"
  from assms(1) have b: "mn \<le> v" "v \<le> mx"
    by (auto simp: write_constrained_int_def split: if_splits)
  have d: "?d \<le> ?rng - 1"
    using b by (simp add: word_le_nat_alt unat_sub)
  show ?thesis
  proof (cases "?rng \<le> 1")
    case True
    then have "?rng = 1" using assms(3) word_le_1_cases by blast
    then have "mx = mn" by simp
    with b have "v = mn" by simp
    with True assms(1) b show ?thesis
      by (simp add: read_constrained_int_def write_constrained_int_def Let_def)
  next
    case False
    let ?n = "bits_for_range ?rng"
    show ?thesis
    proof (cases "?n \<le> 8")
      case True
      with False b assms(1) have w': "w' = write_bits w ?d ?n"
        by (simp add: write_constrained_int_def Let_def)
      have "read_bits (seek r w) ?n = Some (?d, seek r w')"
        using read_bits_sync [of r w ?d ?n] assms(2) w' bits_for_range_le
          take_bit_bits_for_range [OF d order_refl False] by simp
      with False True show ?thesis by (simp add: read_constrained_int_def Let_def)
    next
      case big: False
      let ?m = "(?n + 7) div 8 * 8"
      from False b big assms(1) have w': "w' = write_bits (write_align w) ?d ?m"
        by (simp add: write_constrained_int_def Let_def write_bytes_bits)
      have m: "?m \<le> 64" "?n \<le> ?m" using bits_for_range_le [of ?rng] by auto
      have "read_bits (read_align (seek r w)) ?m = Some (?d, seek r w')"
        using read_bits_sync [of r "write_align w" ?d ?m] assms(2) w' m(1)
          take_bit_bits_for_range [OF d m(2) False] by (simp add: read_align_sync)
      with False big show ?thesis by (simp add: read_constrained_int_def Let_def)
    qed
  qed
qed

section \<open>Length determinants and octet strings\<close>

lemma write_length_determinant_extends:
  "write_length_determinant w n = Some w' \<Longrightarrow> extends w w'"
  by (auto simp: write_length_determinant_def Let_def extends_def write_bit_def write_bits_eq
      write_align_eq split: if_splits)

lemma dvd_length_write_align [simp]: "8 dvd length (pw_bits (write_align w))"
  by (simp add: write_align_eq)

lemma length_writes [simp]:
  "length (pw_bits (write_bit w b)) = length (pw_bits w) + 1"
  "length (pw_bits (write_bits w v n)) = length (pw_bits w) + n"
  by (simp_all add: write_bit_def write_bits_eq)

lemma write_length_determinant_aligned:
  assumes "write_length_determinant w n = Some w'"
  shows "8 dvd length (pw_bits w')"
proof -
  have "length (pw_bits w') = length (pw_bits (write_align w)) + 8 \<or>
      length (pw_bits w') = length (pw_bits (write_align w)) + 16"
    using assms by (auto simp: write_length_determinant_def Let_def split: if_splits)
  then show ?thesis using dvd_length_write_align [of w] by (elim disjE) presburger+
qed

lemma write_length_determinant_Some:
  "n < 16384 \<Longrightarrow> \<exists>w'. write_length_determinant w n = Some w'"
  by (simp add: write_length_determinant_def Let_def)

lemma unat_take_bit_of_nat:
  assumes "n < 2 ^ k" "k \<le> 64"
  shows "unat (take_bit k (of_nat n :: u64)) = n"
proof -
  have "n < 2 ^ 64" using assms by (meson less_le_trans one_le_numeral power_increasing)
  with assms show ?thesis
    by (simp add: unsigned_take_bit_eq unat_of_nat take_bit_nat_eq_self)
qed

lemma read_length_determinant_sync [per_sync]:
  assumes "write_length_determinant w n = Some w'" "covers r w'"
  shows "read_length_determinant (seek r w) = Some (n, seek r w')"
proof (cases "n < 128")
  case True
  with assms(1) have w': "w' = write_bits (write_bit (write_align w) False) (of_nat n) 7"
    by (simp add: write_length_determinant_def Let_def)
  with assms(2) have "covers r (write_bit (write_align w) False)" by auto
  with True assms(2) w' show ?thesis
    by (simp add: read_length_determinant_def per_sync unat_take_bit_of_nat)
next
  case False
  let ?b = "write_bit (write_align w) True"
  from False assms(1) have w': "w' = write_bits (write_bit ?b False) (of_nat n) 14"
    and n: "n < 16384"
    by (simp_all add: write_length_determinant_def Let_def split: if_splits)
  from assms(2) w' have "covers r (write_bit ?b False)" "covers r ?b" by auto
  with n assms(2) w' show ?thesis
    by (simp add: read_length_determinant_def per_sync unat_take_bit_of_nat)
qed

lemma read_octets_loop_sync:
  "covers r (write_octets w dat) \<Longrightarrow>
   repeatM (\<lambda>r. Option.bind (read_bits r 8) (\<lambda>(v, r). Some (ucast v, r))) (length dat) (seek r w)
    = Some (dat, seek r (write_octets w dat))"
proof (induction dat arbitrary: w)
  case Nil
  then show ?case by (simp add: write_octets_def)
next
  case (Cons b dat)
  let ?w = "write_bits w (ucast b) 8"
  have wo: "write_octets w (b # dat) = write_octets ?w dat" by (simp add: write_octets_def)
  have c: "covers r ?w" using Cons.prems wo by auto
  have "ucast (take_bit 8 (ucast b :: u64)) = b"
    by (rule bit_word_eqI) (simp add: bit_simps)
  with c show ?case
    using Cons.IH [of ?w] Cons.prems wo by (simp add: read_bits_sync)
qed

lemma read_octets_sync [per_sync]:
  assumes "covers r (write_octets w dat)" "8 dvd length (pw_bits w)" "n = length dat"
  shows "read_octets (seek r w) n = Some (dat, seek r (write_octets w dat))"
proof -
  have "write_align w = w" using assms(2) by (simp add: write_align_eq)
  then show ?thesis using assms by (simp add: read_octets_def read_align_sync read_octets_loop_sync)
qed

lemma write_octet_string_extends: "write_octet_string w d = Some w' \<Longrightarrow> extends w w'"
  by (auto simp: write_octet_string_def bind_eq_Some_conv
      dest: write_length_determinant_extends intro: extends_trans)

lemma write_octet_string_Some:
  "length d < 16384 \<Longrightarrow> \<exists>w'. write_octet_string w d = Some w'"
  by (drule write_length_determinant_Some [of _ w]) (auto simp: write_octet_string_def)

lemma read_octet_string_sync [per_sync]:
  assumes "write_octet_string w d = Some w'" "covers r w'"
  shows "read_octet_string (seek r w) = Some (d, seek r w')"
proof -
  from assms(1) obtain w1 where w1: "write_length_determinant w (length d) = Some w1"
    and w': "w' = write_octets w1 d"
    by (auto simp: write_octet_string_def bind_eq_Some_conv)
  have c: "covers r w1" using assms(2) w' by auto
  show ?thesis
    using read_length_determinant_sync [OF w1 c] write_length_determinant_aligned [OF w1]
      assms(2) w' by (simp add: read_octet_string_def read_octets_sync)
qed

section \<open>Items and lists of items\<close>

text \<open>
  The contract of one wire item: on the values \<open>ok\<close> admits the writer succeeds and only
  appends, and the reader in step with it returns the value. A list is written as a length
  determinant followed by the items, and read back with \<open>n\<close> item reads.
\<close>

locale per_item =
  fixes wr :: "PerWriter \<Rightarrow> 'a \<Rightarrow> PerWriter option"
    and rd :: "PerReader \<Rightarrow> ('a \<times> PerReader) option"
    and ok :: "'a \<Rightarrow> bool"
  assumes wr_Some: "ok x \<Longrightarrow> \<exists>w'. wr w x = Some w'"
    and wr_extends: "wr w x = Some w' \<Longrightarrow> extends w w'"
    and rd_sync: "ok x \<Longrightarrow> wr w x = Some w' \<Longrightarrow> covers r w' \<Longrightarrow> rd (seek r w) = Some (x, seek r w')"
begin

lemma foldM_extends: "foldM wr w xs = Some w' \<Longrightarrow> extends w w'"
  by (induction xs arbitrary: w) (auto simp: bind_eq_Some_conv intro: extends_trans dest: wr_extends)

lemma foldM_Some: "list_all ok xs \<Longrightarrow> \<exists>w'. foldM wr w xs = Some w'"
proof (induction xs arbitrary: w)
  case (Cons x xs)
  then obtain w1 where "wr w x = Some w1" using wr_Some [of x w] by auto
  with Cons show ?case by simp
qed simp

lemma repeatM_sync:
  "list_all ok xs \<Longrightarrow> foldM wr w xs = Some w' \<Longrightarrow> covers r w' \<Longrightarrow>
   repeatM rd (length xs) (seek r w) = Some (xs, seek r w')"
proof (induction xs arbitrary: w)
  case Nil
  then show ?case by simp
next
  case (Cons x xs)
  then obtain w1 where w1: "wr w x = Some w1" "foldM wr w1 xs = Some w'"
    by (auto simp: bind_eq_Some_conv)
  then have "covers r w1" using Cons.prems(3) foldM_extends covers_mono by blast
  with w1 Cons show ?case by (simp add: rd_sync [OF _ w1(1)])
qed

lemma single_roundtrip:
  assumes "ok x" "wr PerWriter_new x = Some w"
  shows "\<exists>r. rd (PerReader_new (into_bytes w)) = Some (x, r)"
  using rd_sync [OF assms, of "PerReader_new (into_bytes w)"]
  by (simp flip: PerReader_new_seek)

lemma list_roundtrip:
  assumes "list_all ok xs" "length xs < 16384"
  shows "\<exists>w w'. write_length_determinant PerWriter_new (length xs) = Some w \<and> foldM wr w xs = Some w' \<and>
    (\<exists>r r'. read_length_determinant (PerReader_new (into_bytes w')) = Some (length xs, r) \<and>
            repeatM rd (length xs) r = Some (xs, r'))"
proof -
  from assms(2) obtain w where w: "write_length_determinant PerWriter_new (length xs) = Some w"
    using write_length_determinant_Some by blast
  from assms(1) obtain w' where w': "foldM wr w xs = Some w'" using foldM_Some by blast
  let ?r = "PerReader_new (into_bytes w')"
  have "covers ?r w" using foldM_extends [OF w'] covers_mono covers_into_bytes by blast
  then have "read_length_determinant ?r = Some (length xs, seek ?r w)"
    using read_length_determinant_sync [OF w] by (metis PerReader_new_seek)
  moreover have "repeatM rd (length xs) (seek ?r w) = Some (xs, seek ?r w')"
    using assms(1) w' by (simp add: repeatM_sync)
  ultimately show ?thesis using w w' by blast
qed

lemma list_item:
  "per_item (\<lambda>w xs. Option.bind (write_length_determinant w (length xs)) (\<lambda>w. foldM wr w xs))
     (\<lambda>r. Option.bind (read_length_determinant r) (\<lambda>(count, r). repeatM rd count r))
     (\<lambda>xs. list_all ok xs \<and> length xs < 16384)"
proof
  fix xs w assume "list_all ok xs \<and> length xs < 16384"
  then show "\<exists>w'. Option.bind (write_length_determinant w (length xs)) (\<lambda>w. foldM wr w xs) = Some w'"
    using write_length_determinant_Some [of "length xs" w] foldM_Some [of xs] by auto
next
  fix w xs w' assume "Option.bind (write_length_determinant w (length xs)) (\<lambda>w. foldM wr w xs) = Some w'"
  then show "extends w w'"
    by (auto simp: bind_eq_Some_conv
        intro: extends_trans dest: write_length_determinant_extends foldM_extends)
next
  fix xs w w' r
  assume ok: "list_all ok xs \<and> length xs < 16384" and c: "covers r w'"
    and wr: "Option.bind (write_length_determinant w (length xs)) (\<lambda>w. foldM wr w xs) = Some w'"
  from wr obtain w1 where w1: "write_length_determinant w (length xs) = Some w1"
    and w': "foldM wr w1 xs = Some w'" by (auto simp: bind_eq_Some_conv)
  have "covers r w1" using c foldM_extends [OF w'] by (rule covers_mono)
  then show "Option.bind (read_length_determinant (seek r w)) (\<lambda>(count, r). repeatM rd count r)
      = Some (xs, seek r w')"
    using read_length_determinant_sync [OF w1] repeatM_sync [OF _ w' c] ok by simp
qed

lemma foldM_ok:
  assumes "\<And>w x w'. wr w x = Some w' \<Longrightarrow> ok x"
  shows "foldM wr w xs = Some w' \<Longrightarrow> list_all ok xs"
  by (induction xs arbitrary: w) (auto simp: bind_eq_Some_conv dest: assms)

end

interpretation octet_string: per_item write_octet_string read_octet_string "\<lambda>d. length d < 16384"
  by unfold_locales
     (simp_all add: write_octet_string_Some write_octet_string_extends read_octet_string_sync)

lemma constrained_int_item:
  "mx - mn + 1 \<noteq> 0 \<Longrightarrow>
   per_item (\<lambda>w v. write_constrained_int w v mn mx) (\<lambda>r. read_constrained_int r mn mx)
     (\<lambda>v. mn \<le> v \<and> v \<le> mx)"
  by unfold_locales
     (simp_all add: write_constrained_int_Some write_constrained_int_extends
       read_constrained_int_sync)

section \<open>Building items from items\<close>

text \<open>One item after the other, and an item for a type that embeds into another.\<close>

definition wr_seq :: "(PerWriter \<Rightarrow> 'a \<Rightarrow> PerWriter option) \<Rightarrow> (PerWriter \<Rightarrow> 'b \<Rightarrow> PerWriter option) \<Rightarrow>
    PerWriter \<Rightarrow> 'a \<times> 'b \<Rightarrow> PerWriter option" where
  "wr_seq wa wb w x = Option.bind (wa w (fst x)) (\<lambda>w. wb w (snd x))"

definition rd_seq :: "(PerReader \<Rightarrow> ('a \<times> PerReader) option) \<Rightarrow> (PerReader \<Rightarrow> ('b \<times> PerReader) option) \<Rightarrow>
    PerReader \<Rightarrow> (('a \<times> 'b) \<times> PerReader) option" where
  "rd_seq ra rb r = Option.bind (ra r) (\<lambda>(a, r). Option.bind (rb r) (\<lambda>(b, r). Some ((a, b), r)))"

definition rd_map :: "('a \<Rightarrow> 'b) \<Rightarrow> (PerReader \<Rightarrow> ('a \<times> PerReader) option) \<Rightarrow>
    PerReader \<Rightarrow> ('b \<times> PerReader) option" where
  "rd_map g rd r = Option.bind (rd r) (\<lambda>(a, r). Some (g a, r))"

lemma per_item_seq:
  assumes "per_item wa ra oka" "per_item wb rb okb"
  shows "per_item (wr_seq wa wb) (rd_seq ra rb) (\<lambda>x. oka (fst x) \<and> okb (snd x))"
proof
  fix x w assume "oka (fst x) \<and> okb (snd x)"
  then show "\<exists>w'. wr_seq wa wb w x = Some w'"
    using per_item.wr_Some [OF assms(1), of "fst x" w] per_item.wr_Some [OF assms(2), of "snd x"]
    by (auto simp: wr_seq_def)
next
  fix w x w' assume "wr_seq wa wb w x = Some w'"
  then show "extends w w'"
    using per_item.wr_extends [OF assms(1)] per_item.wr_extends [OF assms(2)] extends_trans
    by (fastforce simp: wr_seq_def bind_eq_Some_conv)
next
  fix x w w' r assume ok: "oka (fst x) \<and> okb (snd x)" and wr: "wr_seq wa wb w x = Some w'" and c: "covers r w'"
  from wr obtain w1 where w1: "wa w (fst x) = Some w1" "wb w1 (snd x) = Some w'"
    by (auto simp: wr_seq_def bind_eq_Some_conv)
  have "covers r w1" using covers_mono [OF c] per_item.wr_extends [OF assms(2) w1(2)] by blast
  then show "rd_seq ra rb (seek r w) = Some (x, seek r w')"
    using per_item.rd_sync [OF assms(1) _ w1(1)] per_item.rd_sync [OF assms(2) _ w1(2) c] ok
    by (simp add: rd_seq_def)
qed

lemma per_item_map:
  assumes "per_item wr rd ok" "\<And>x. ok' x \<Longrightarrow> ok (f x) \<and> g (f x) = x"
  shows "per_item (\<lambda>w x. wr w (f x)) (rd_map g rd) ok'"
proof
  fix x w assume "ok' x"
  then show "\<exists>w'. wr w (f x) = Some w'" using per_item.wr_Some [OF assms(1)] assms(2) by blast
next
  fix w x w' assume "wr w (f x) = Some w'"
  then show "extends w w'" by (rule per_item.wr_extends [OF assms(1)])
next
  fix x w w' r assume "ok' x" "wr w (f x) = Some w'" "covers r w'"
  then show "rd_map g rd (seek r w) = Some (x, seek r w')"
    using per_item.rd_sync [OF assms(1), of "f x" w w' r] assms(2) by (simp add: rd_map_def)
qed

text \<open>A fixed number of octets: the reader aligns first, so the writer has to be aligned.\<close>

definition write_aligned_octets :: "PerWriter \<Rightarrow> bytes \<Rightarrow> PerWriter option" where
  "write_aligned_octets w d = Some (write_octets (write_align w) d)"

lemma aligned_octets_item: "per_item write_aligned_octets (\<lambda>r. read_octets r n) (\<lambda>d. length d = n)"
proof
  fix d w w' r assume "length d = n" "write_aligned_octets w d = Some w'" "covers r w'"
  then show "read_octets (seek r w) n = Some (d, seek r w')"
    by (auto simp: write_aligned_octets_def read_octets_def read_align_sync read_octets_loop_sync)
qed (auto simp: write_aligned_octets_def intro: extends_trans [OF extends_writes(3) extends_writes(4)])

lemma write_align_aligned: "8 dvd length (pw_bits w) \<Longrightarrow> write_align w = w"
  by (simp add: write_align_eq)

lemma write_octets_new: "Some (write_octets PerWriter_new d) = write_aligned_octets PerWriter_new d"
  by (simp add: write_aligned_octets_def write_align_aligned PerWriter_new_def)

lemma write_octets_twice:
  "Some (write_octets (write_octets (write_align w) a) b) =
     wr_seq write_aligned_octets write_aligned_octets w (a, b)"
proof -
  have "8 dvd length (pw_bits (write_octets (write_align w) a))"
    by (simp add: write_octets_eq dvd_length_write_align)
  then show ?thesis by (simp add: wr_seq_def write_aligned_octets_def write_align_aligned)
qed

lemma word_ucast_back:
  "(ucast (ucast (x :: u32) :: u64) :: u32) = x" "(ucast (ucast (y :: u8) :: u64) :: u8) = y"
  by (rule bit_word_eqI; simp add: bit_simps)+

text \<open>A complete value read back from the bytes of a fresh writer.\<close>

definition rd_value :: "(PerReader \<Rightarrow> ('a \<times> PerReader) option) \<Rightarrow> bytes \<Rightarrow> 'a option" where
  "rd_value rd val = map_option fst (rd (PerReader_new val))"

lemma rd_value_written:
  "per_item wr rd ok \<Longrightarrow> ok x \<Longrightarrow> wr PerWriter_new x = Some w \<Longrightarrow> rd_value rd (into_bytes w) = Some x"
  using per_item.single_roundtrip [of wr rd ok x w] by (auto simp: rd_value_def)

end
