(* ===== verification/S1ap_Codec.thy ===== *)
theory S1ap_Codec
  imports Per S1ap_Messages
begin

text \<open>
  The S1AP-PDU codec, \<open>crates/midn-proto/src/s1ap/codec.rs\<close> with the identifiers of
  \<open>ie_ids.rs\<close>: the IE container, the PDU wrapper, the encoder and decoder of every supported
  message and the dispatch on procedure code and PDU choice. An encoder yields \<open>None\<close> when the
  PER engine panics (an identifier out of its range, a string of 16384 bytes or more). The
  theory proves that decoding inverts encoding for every message the codec supports, on top
  of the item contract of the PER engine.
\<close>

section \<open>Identifiers\<close>

definition CRITICALITY_REJECT :: u8 where "CRITICALITY_REJECT = 0"
definition CRITICALITY_IGNORE :: u8 where "CRITICALITY_IGNORE = 1"
definition CRITICALITY_NOTIFY :: u8 where "CRITICALITY_NOTIFY = 2"
definition PROC_DOWNLINK_NAS_TRANSPORT :: u32 where "PROC_DOWNLINK_NAS_TRANSPORT = 11"
definition PROC_INITIAL_UE_MESSAGE :: u32 where "PROC_INITIAL_UE_MESSAGE = 12"
definition PROC_UPLINK_NAS_TRANSPORT :: u32 where "PROC_UPLINK_NAS_TRANSPORT = 13"
definition PROC_INITIAL_CONTEXT_SETUP :: u32 where "PROC_INITIAL_CONTEXT_SETUP = 9"
definition PROC_UE_CONTEXT_RELEASE :: u32 where "PROC_UE_CONTEXT_RELEASE = 23"
definition ID_MME_UE_S1AP_ID :: u32 where "ID_MME_UE_S1AP_ID = 0"
definition ID_ENB_UE_S1AP_ID :: u32 where "ID_ENB_UE_S1AP_ID = 8"
definition ID_NAS_PDU :: u32 where "ID_NAS_PDU = 26"
definition ID_TAI :: u32 where "ID_TAI = 67"
definition ID_EUTRAN_CGI :: u32 where "ID_EUTRAN_CGI = 100"
definition ID_RRC_ESTABLISHMENT_CAUSE :: u32 where "ID_RRC_ESTABLISHMENT_CAUSE = 134"
definition ID_E_RAB_TO_BE_SETUP_LIST_CTXT_SU_REQ :: u32 where "ID_E_RAB_TO_BE_SETUP_LIST_CTXT_SU_REQ = 24"
definition ID_UE_AGGREGATE_MAXIMUM_BITRATE :: u32 where "ID_UE_AGGREGATE_MAXIMUM_BITRATE = 66"
definition ID_SECURITY_KEY :: u32 where "ID_SECURITY_KEY = 73"
definition ID_E_RAB_SETUP_LIST_CTXT_SU_RES :: u32 where "ID_E_RAB_SETUP_LIST_CTXT_SU_RES = 51"
definition ID_E_RAB_FAILED_TO_SETUP_LIST_CTXT_SU_RES :: u32 where
  "ID_E_RAB_FAILED_TO_SETUP_LIST_CTXT_SU_RES = 48"
definition ID_CAUSE :: u32 where "ID_CAUSE = 2"
definition ENB_UE_S1AP_ID_MAX :: u64 where "ENB_UE_S1AP_ID_MAX = 16777215"
definition MME_UE_S1AP_ID_MAX :: u64 where "MME_UE_S1AP_ID_MAX = 4294967295"
definition RRC_ESTABLISHMENT_CAUSE_MAX :: u64 where "RRC_ESTABLISHMENT_CAUSE_MAX = 15"
definition ERAB_ID_MAX :: u64 where "ERAB_ID_MAX = 15"
definition QCI_MAX :: u64 where "QCI_MAX = 255"
definition BIT_RATE_MAX :: u64 where "BIT_RATE_MAX = 10000000000"
definition PROTOCOL_IE_ID_MAX :: u64 where "PROTOCOL_IE_ID_MAX = 65535"
definition PROCEDURE_CODE_MAX :: u64 where "PROCEDURE_CODE_MAX = 255"
definition CAUSE_MAX :: u64 where "CAUSE_MAX = 6"
definition PDU_CHOICE_INITIATING_MESSAGE :: u64 where "PDU_CHOICE_INITIATING_MESSAGE = 0"
definition PDU_CHOICE_SUCCESSFUL_OUTCOME :: u64 where "PDU_CHOICE_SUCCESSFUL_OUTCOME = 1"

lemmas s1ap_crits = CRITICALITY_REJECT_def CRITICALITY_IGNORE_def CRITICALITY_NOTIFY_def
lemmas s1ap_procs = PROC_DOWNLINK_NAS_TRANSPORT_def PROC_INITIAL_UE_MESSAGE_def
  PROC_UPLINK_NAS_TRANSPORT_def PROC_INITIAL_CONTEXT_SETUP_def PROC_UE_CONTEXT_RELEASE_def
  PDU_CHOICE_INITIATING_MESSAGE_def PDU_CHOICE_SUCCESSFUL_OUTCOME_def
lemmas s1ap_ids = ID_MME_UE_S1AP_ID_def ID_ENB_UE_S1AP_ID_def ID_NAS_PDU_def ID_TAI_def
  ID_EUTRAN_CGI_def ID_RRC_ESTABLISHMENT_CAUSE_def ID_E_RAB_TO_BE_SETUP_LIST_CTXT_SU_REQ_def
  ID_UE_AGGREGATE_MAXIMUM_BITRATE_def ID_SECURITY_KEY_def ID_E_RAB_SETUP_LIST_CTXT_SU_RES_def
  ID_E_RAB_FAILED_TO_SETUP_LIST_CTXT_SU_RES_def ID_CAUSE_def
lemmas s1ap_maxs = ENB_UE_S1AP_ID_MAX_def MME_UE_S1AP_ID_MAX_def RRC_ESTABLISHMENT_CAUSE_MAX_def
  ERAB_ID_MAX_def QCI_MAX_def BIT_RATE_MAX_def PROTOCOL_IE_ID_MAX_def PROCEDURE_CODE_MAX_def
  CAUSE_MAX_def

section \<open>Causes\<close>

fun s1ap_cause_to_u64 :: "S1apCause \<Rightarrow> u64" where
  "s1ap_cause_to_u64 RadioNetworkUnspecified = 0"
| "s1ap_cause_to_u64 TransportUnspecified = 1"
| "s1ap_cause_to_u64 NasNormalRelease = 2"
| "s1ap_cause_to_u64 NasDetach = 3"
| "s1ap_cause_to_u64 NasAuthFailure = 4"
| "s1ap_cause_to_u64 ProtocolUnspecified = 5"
| "s1ap_cause_to_u64 MiscUnspecified = 6"

definition s1ap_cause_from_u64 :: "u64 \<Rightarrow> S1apCause option" where
  "s1ap_cause_from_u64 v =
     (if v = 0 then Some RadioNetworkUnspecified
      else if v = 1 then Some TransportUnspecified
      else if v = 2 then Some NasNormalRelease
      else if v = 3 then Some NasDetach
      else if v = 4 then Some NasAuthFailure
      else if v = 5 then Some ProtocolUnspecified
      else if v = 6 then Some MiscUnspecified
      else None)"

section \<open>IE container and PDU wrapper\<close>

type_synonym IeEntry = "u32 \<times> u8 \<times> bytes"

definition write_ie_entry :: "PerWriter \<Rightarrow> IeEntry \<Rightarrow> PerWriter option" where
  "write_ie_entry w e = (case e of (i, crit, val) \<Rightarrow>
     Option.bind (write_constrained_int w (ucast i) 0 PROTOCOL_IE_ID_MAX) (\<lambda>w.
       Option.bind (write_constrained_int w (ucast crit) 0 2) (\<lambda>w. write_octet_string w val)))"

definition write_ie_container :: "PerWriter \<Rightarrow> IeEntry list \<Rightarrow> PerWriter option" where
  "write_ie_container w entries =
     Option.bind (write_length_determinant w (length entries)) (\<lambda>w. foldM write_ie_entry w entries)"

definition read_ie_entry :: "PerReader \<Rightarrow> (IeEntry \<times> PerReader) option" where
  "read_ie_entry r =
     Option.bind (read_constrained_int r 0 PROTOCOL_IE_ID_MAX) (\<lambda>(i, r).
       Option.bind (read_constrained_int r 0 2) (\<lambda>(crit, r).
         Option.bind (read_octet_string r) (\<lambda>(val, r). Some ((ucast i, ucast crit, val), r))))"

definition read_ie_container :: "PerReader \<Rightarrow> (IeEntry list \<times> PerReader) option" where
  "read_ie_container r =
     Option.bind (read_length_determinant r) (\<lambda>(count, r). repeatM read_ie_entry count r)"

definition encode_pdu_wrapper :: "u64 \<Rightarrow> u32 \<Rightarrow> u8 \<Rightarrow> bytes \<Rightarrow> bytes option" where
  "encode_pdu_wrapper choice procedure_code criticality value_bytes =
     Option.bind (write_constrained_int PerWriter_new choice 0 2) (\<lambda>w.
       Option.bind (write_constrained_int w (ucast procedure_code) 0 PROCEDURE_CODE_MAX) (\<lambda>w.
         Option.bind (write_constrained_int w (ucast criticality) 0 2) (\<lambda>w.
           Option.bind (write_octet_string w value_bytes) (\<lambda>w. Some (into_bytes w)))))"

definition decode_pdu_wrapper :: "bytes \<Rightarrow> (u64 \<times> u32 \<times> u8 \<times> bytes) option" where
  "decode_pdu_wrapper buf =
     Option.bind (read_constrained_int (PerReader_new buf) 0 2) (\<lambda>(choice, r).
       Option.bind (read_constrained_int r 0 PROCEDURE_CODE_MAX) (\<lambda>(pc, r).
         Option.bind (read_constrained_int r 0 2) (\<lambda>(crit, r).
           Option.bind (read_octet_string r) (\<lambda>(val, r). Some (choice, ucast pc, ucast crit, val)))))"

text \<open>
  The blocks that fill one IE from a fresh writer, and the sequence of pushed entries with the
  wrapped container.
\<close>

definition ie_int :: "u32 \<Rightarrow> u8 \<Rightarrow> u64 \<Rightarrow> u64 \<Rightarrow> IeEntry option" where
  "ie_int i crit v mx =
     map_option (\<lambda>w. (i, crit, into_bytes w)) (write_constrained_int PerWriter_new v 0 mx)"

definition ie_octet_string :: "u32 \<Rightarrow> u8 \<Rightarrow> bytes \<Rightarrow> IeEntry option" where
  "ie_octet_string i crit d =
     map_option (\<lambda>w. (i, crit, into_bytes w)) (write_octet_string PerWriter_new d)"

definition ie_octets :: "u32 \<Rightarrow> u8 \<Rightarrow> bytes \<Rightarrow> IeEntry option" where
  "ie_octets i crit d = Some (i, crit, into_bytes (write_octets PerWriter_new d))"

definition encode_entries :: "u64 \<Rightarrow> u32 \<Rightarrow> u8 \<Rightarrow> IeEntry option list \<Rightarrow> bytes option" where
  "encode_entries choice pc crit ies =
     Option.bind (those ies) (\<lambda>entries.
       Option.bind (write_ie_container PerWriter_new entries) (\<lambda>value_w.
         encode_pdu_wrapper choice pc crit (into_bytes value_w)))"

section \<open>E-RAB lists\<close>

definition write_erab_to_setup :: "PerWriter \<Rightarrow> ErabToSetup \<Rightarrow> PerWriter option" where
  "write_erab_to_setup w e =
     Option.bind (write_constrained_int w (ucast (ets_erab_id e)) 0 ERAB_ID_MAX) (\<lambda>w.
       Option.bind (write_constrained_int w (ucast (ets_qci e)) 0 QCI_MAX) (\<lambda>w.
         Some (write_octets (write_octets (write_align w) (ets_gtp_teid e)) (ets_transport_layer_addr e))))"

definition write_erabs_to_setup :: "PerWriter \<Rightarrow> ErabToSetup list \<Rightarrow> PerWriter option" where
  "write_erabs_to_setup w erabs =
     Option.bind (write_length_determinant w (length erabs)) (\<lambda>w. foldM write_erab_to_setup w erabs)"

definition read_erab_to_setup :: "PerReader \<Rightarrow> (ErabToSetup \<times> PerReader) option" where
  "read_erab_to_setup r =
     Option.bind (read_constrained_int r 0 ERAB_ID_MAX) (\<lambda>(i, r).
       Option.bind (read_constrained_int r 0 QCI_MAX) (\<lambda>(q, r).
         Option.bind (read_octets r 4) (\<lambda>(t, r).
           Option.bind (read_octets r 4) (\<lambda>(a, r).
             Some (\<lparr>ets_erab_id = ucast i, ets_qci = ucast q, ets_gtp_teid = t,
                    ets_transport_layer_addr = a\<rparr>, r)))))"

definition read_erabs_to_setup :: "PerReader \<Rightarrow> (ErabToSetup list \<times> PerReader) option" where
  "read_erabs_to_setup r =
     Option.bind (read_length_determinant r) (\<lambda>(count, r). repeatM read_erab_to_setup count r)"

definition write_erab_setup :: "PerWriter \<Rightarrow> ErabSetupItem \<Rightarrow> PerWriter option" where
  "write_erab_setup w it =
     Option.bind (write_constrained_int w (ucast (esi_e_rab_id it)) 0 ERAB_ID_MAX) (\<lambda>w.
       Some (write_octets (write_octets (write_align w) (esi_transport_layer_addr it)) (esi_gtp_teid it)))"

definition write_erabs_setup :: "PerWriter \<Rightarrow> ErabSetupItem list \<Rightarrow> PerWriter option" where
  "write_erabs_setup w items =
     Option.bind (write_length_determinant w (length items)) (\<lambda>w. foldM write_erab_setup w items)"

definition read_erab_setup :: "PerReader \<Rightarrow> (ErabSetupItem \<times> PerReader) option" where
  "read_erab_setup r =
     Option.bind (read_constrained_int r 0 ERAB_ID_MAX) (\<lambda>(i, r).
       Option.bind (read_octets r 4) (\<lambda>(a, r).
         Option.bind (read_octets r 4) (\<lambda>(t, r).
           Some (\<lparr>esi_e_rab_id = ucast i, esi_transport_layer_addr = a, esi_gtp_teid = t\<rparr>, r))))"

definition read_erabs_setup :: "PerReader \<Rightarrow> (ErabSetupItem list \<times> PerReader) option" where
  "read_erabs_setup r =
     Option.bind (read_length_determinant r) (\<lambda>(count, r). repeatM read_erab_setup count r)"

definition write_erab_id :: "PerWriter \<Rightarrow> u8 \<Rightarrow> PerWriter option" where
  "write_erab_id w i = write_constrained_int w (ucast i) 0 ERAB_ID_MAX"

definition write_erab_ids :: "PerWriter \<Rightarrow> u8 list \<Rightarrow> PerWriter option" where
  "write_erab_ids w ids =
     Option.bind (write_length_determinant w (length ids)) (\<lambda>w. foldM write_erab_id w ids)"

definition read_erab_id :: "PerReader \<Rightarrow> (u8 \<times> PerReader) option" where
  "read_erab_id r = Option.bind (read_constrained_int r 0 ERAB_ID_MAX) (\<lambda>(i, r). Some (ucast i, r))"

definition read_erab_ids :: "PerReader \<Rightarrow> (u8 list \<times> PerReader) option" where
  "read_erab_ids r =
     Option.bind (read_length_determinant r) (\<lambda>(count, r). repeatM read_erab_id count r)"

section \<open>Field readers\<close>

text \<open>\<open>PerReader::new(val)\<close> followed by one read.\<close>

definition get_int :: "u64 \<Rightarrow> bytes \<Rightarrow> u64 option" where
  "get_int mx = rd_value (\<lambda>r. read_constrained_int r 0 mx)"

definition get_octet_string :: "bytes \<Rightarrow> bytes option" where
  "get_octet_string = rd_value read_octet_string"

definition get_octets :: "nat \<Rightarrow> bytes \<Rightarrow> bytes option" where
  "get_octets n = rd_value (\<lambda>r. read_octets r n)"

abbreviation missing :: "string \<Rightarrow> ProtoError" where
  "missing what \<equiv> MalformedS1ap what"

section \<open>Initial UE message\<close>

definition encode_initial_ue_message :: "InitialUeMessage \<Rightarrow> bytes option" where
  "encode_initial_ue_message msg =
     encode_entries PDU_CHOICE_INITIATING_MESSAGE PROC_INITIAL_UE_MESSAGE CRITICALITY_IGNORE
       [ie_int ID_ENB_UE_S1AP_ID CRITICALITY_REJECT (ucast (ium_enb_ue_s1ap_id msg)) ENB_UE_S1AP_ID_MAX,
        ie_octet_string ID_NAS_PDU CRITICALITY_REJECT (ium_nas_pdu msg),
        ie_octets ID_TAI CRITICALITY_IGNORE (ium_tai msg),
        ie_octets ID_EUTRAN_CGI CRITICALITY_IGNORE (ium_eutran_cgi msg),
        ie_int ID_RRC_ESTABLISHMENT_CAUSE CRITICALITY_IGNORE (ucast (ium_rrc_cause msg))
          RRC_ESTABLISHMENT_CAUSE_MAX]"

record initial_ue_fields =
  iuf_enb :: "u32 option"
  iuf_nas :: "bytes option"
  iuf_tai :: "bytes option"
  iuf_cgi :: "bytes option"
  iuf_rrc :: "u8 option"

definition initial_ue_ie :: "initial_ue_fields \<Rightarrow> IeEntry \<Rightarrow> initial_ue_fields" where
  "initial_ue_ie f e = (case e of (i, _, val) \<Rightarrow>
     if i = ID_ENB_UE_S1AP_ID then f\<lparr>iuf_enb := map_option ucast (get_int ENB_UE_S1AP_ID_MAX val)\<rparr>
     else if i = ID_NAS_PDU then f\<lparr>iuf_nas := get_octet_string val\<rparr>
     else if i = ID_TAI then f\<lparr>iuf_tai := get_octets 5 val\<rparr>
     else if i = ID_EUTRAN_CGI then f\<lparr>iuf_cgi := get_octets 7 val\<rparr>
     else if i = ID_RRC_ESTABLISHMENT_CAUSE then
       f\<lparr>iuf_rrc := map_option ucast (get_int RRC_ESTABLISHMENT_CAUSE_MAX val)\<rparr>
     else f)"

definition decode_initial_ue_message :: "IeEntry list \<Rightarrow> S1apMessage result" where
  "decode_initial_ue_message entries =
     (let f = foldl initial_ue_ie \<lparr>iuf_enb = None, iuf_nas = None, iuf_tai = None, iuf_cgi = None,
                iuf_rrc = None\<rparr> entries in
      bind_res (ok_or (iuf_enb f) (missing ''missing eNB-UE-S1AP-ID'')) (\<lambda>enb.
      bind_res (ok_or (iuf_nas f) (missing ''missing NAS-PDU'')) (\<lambda>nas.
      bind_res (ok_or (iuf_tai f) (missing ''missing TAI'')) (\<lambda>tai.
      bind_res (ok_or (iuf_cgi f) (missing ''missing E-UTRAN CGI'')) (\<lambda>cgi.
      bind_res (ok_or (iuf_rrc f) (missing ''missing RRC-Establishment-Cause'')) (\<lambda>rrc.
        Inr (MInitialUeMessage \<lparr>ium_enb_ue_s1ap_id = enb, ium_nas_pdu = nas, ium_tai = tai,
               ium_eutran_cgi = cgi, ium_rrc_cause = rrc\<rparr>)))))))"

section \<open>NAS transport\<close>

definition encode_uplink_nas_transport :: "UplinkNasTransport \<Rightarrow> bytes option" where
  "encode_uplink_nas_transport msg =
     encode_entries PDU_CHOICE_INITIATING_MESSAGE PROC_UPLINK_NAS_TRANSPORT CRITICALITY_IGNORE
       [ie_int ID_MME_UE_S1AP_ID CRITICALITY_REJECT (ucast (unt_mme_ue_s1ap_id msg)) MME_UE_S1AP_ID_MAX,
        ie_int ID_ENB_UE_S1AP_ID CRITICALITY_REJECT (ucast (unt_enb_ue_s1ap_id msg)) ENB_UE_S1AP_ID_MAX,
        ie_octet_string ID_NAS_PDU CRITICALITY_REJECT (unt_nas_pdu msg),
        ie_octets ID_TAI CRITICALITY_IGNORE (unt_tai msg),
        ie_octets ID_EUTRAN_CGI CRITICALITY_IGNORE (unt_eutran_cgi msg)]"

record nas_fields =
  nf_mme :: "u32 option"
  nf_enb :: "u32 option"
  nf_nas :: "bytes option"
  nf_tai :: "bytes option"
  nf_cgi :: "bytes option"

definition uplink_nas_ie :: "nas_fields \<Rightarrow> IeEntry \<Rightarrow> nas_fields" where
  "uplink_nas_ie f e = (case e of (i, _, val) \<Rightarrow>
     if i = ID_MME_UE_S1AP_ID then f\<lparr>nf_mme := map_option ucast (get_int MME_UE_S1AP_ID_MAX val)\<rparr>
     else if i = ID_ENB_UE_S1AP_ID then f\<lparr>nf_enb := map_option ucast (get_int ENB_UE_S1AP_ID_MAX val)\<rparr>
     else if i = ID_NAS_PDU then f\<lparr>nf_nas := get_octet_string val\<rparr>
     else if i = ID_TAI then f\<lparr>nf_tai := get_octets 5 val\<rparr>
     else if i = ID_EUTRAN_CGI then f\<lparr>nf_cgi := get_octets 7 val\<rparr>
     else f)"

definition decode_uplink_nas_transport :: "IeEntry list \<Rightarrow> S1apMessage result" where
  "decode_uplink_nas_transport entries =
     (let f = foldl uplink_nas_ie \<lparr>nf_mme = None, nf_enb = None, nf_nas = None, nf_tai = None,
                nf_cgi = None\<rparr> entries in
      bind_res (ok_or (nf_mme f) (missing ''missing MME-UE-S1AP-ID'')) (\<lambda>mme.
      bind_res (ok_or (nf_enb f) (missing ''missing eNB-UE-S1AP-ID'')) (\<lambda>enb.
      bind_res (ok_or (nf_nas f) (missing ''missing NAS-PDU'')) (\<lambda>nas.
      bind_res (ok_or (nf_tai f) (missing ''missing TAI'')) (\<lambda>tai.
      bind_res (ok_or (nf_cgi f) (missing ''missing E-UTRAN CGI'')) (\<lambda>cgi.
        Inr (MUplinkNasTransport \<lparr>unt_mme_ue_s1ap_id = mme, unt_enb_ue_s1ap_id = enb,
               unt_nas_pdu = nas, unt_tai = tai, unt_eutran_cgi = cgi\<rparr>)))))))"

definition encode_downlink_nas_transport :: "DownlinkNasTransport \<Rightarrow> bytes option" where
  "encode_downlink_nas_transport msg =
     encode_entries PDU_CHOICE_INITIATING_MESSAGE PROC_DOWNLINK_NAS_TRANSPORT CRITICALITY_IGNORE
       [ie_int ID_MME_UE_S1AP_ID CRITICALITY_REJECT (ucast (dnt_mme_ue_s1ap_id msg)) MME_UE_S1AP_ID_MAX,
        ie_int ID_ENB_UE_S1AP_ID CRITICALITY_REJECT (ucast (dnt_enb_ue_s1ap_id msg)) ENB_UE_S1AP_ID_MAX,
        ie_octet_string ID_NAS_PDU CRITICALITY_REJECT (dnt_nas_pdu msg)]"

definition downlink_nas_ie :: "nas_fields \<Rightarrow> IeEntry \<Rightarrow> nas_fields" where
  "downlink_nas_ie f e = (case e of (i, _, val) \<Rightarrow>
     if i = ID_MME_UE_S1AP_ID then f\<lparr>nf_mme := map_option ucast (get_int MME_UE_S1AP_ID_MAX val)\<rparr>
     else if i = ID_ENB_UE_S1AP_ID then f\<lparr>nf_enb := map_option ucast (get_int ENB_UE_S1AP_ID_MAX val)\<rparr>
     else if i = ID_NAS_PDU then f\<lparr>nf_nas := get_octet_string val\<rparr>
     else f)"

definition decode_downlink_nas_transport :: "IeEntry list \<Rightarrow> S1apMessage result" where
  "decode_downlink_nas_transport entries =
     (let f = foldl downlink_nas_ie \<lparr>nf_mme = None, nf_enb = None, nf_nas = None, nf_tai = None,
                nf_cgi = None\<rparr> entries in
      bind_res (ok_or (nf_mme f) (missing ''missing MME-UE-S1AP-ID'')) (\<lambda>mme.
      bind_res (ok_or (nf_enb f) (missing ''missing eNB-UE-S1AP-ID'')) (\<lambda>enb.
      bind_res (ok_or (nf_nas f) (missing ''missing NAS-PDU'')) (\<lambda>nas.
        Inr (MDownlinkNasTransport \<lparr>dnt_mme_ue_s1ap_id = mme, dnt_enb_ue_s1ap_id = enb,
               dnt_nas_pdu = nas\<rparr>)))))"

section \<open>Initial context setup\<close>

definition encode_initial_context_setup_request :: "InitialContextSetupRequest \<Rightarrow> bytes option" where
  "encode_initial_context_setup_request msg =
     encode_entries PDU_CHOICE_INITIATING_MESSAGE PROC_INITIAL_CONTEXT_SETUP CRITICALITY_REJECT
       ([ie_int ID_MME_UE_S1AP_ID CRITICALITY_REJECT (ucast (icq_mme_ue_s1ap_id msg)) MME_UE_S1AP_ID_MAX,
         ie_int ID_ENB_UE_S1AP_ID CRITICALITY_REJECT (ucast (icq_enb_ue_s1ap_id msg)) ENB_UE_S1AP_ID_MAX,
         map_option (\<lambda>w. (ID_UE_AGGREGATE_MAXIMUM_BITRATE, CRITICALITY_REJECT, into_bytes w))
           (Option.bind (write_constrained_int PerWriter_new (fst (icq_ue_ambr msg)) 0 BIT_RATE_MAX)
              (\<lambda>w. write_constrained_int w (snd (icq_ue_ambr msg)) 0 BIT_RATE_MAX)),
         ie_octets ID_SECURITY_KEY CRITICALITY_REJECT (icq_security_key msg)] @
        (if icq_e_rabs msg \<noteq> [] then
           [map_option (\<lambda>w. (ID_E_RAB_TO_BE_SETUP_LIST_CTXT_SU_REQ, CRITICALITY_REJECT, into_bytes w))
              (write_erabs_to_setup PerWriter_new (icq_e_rabs msg))]
         else []) @
        (case icq_nas_pdu msg of
           Some nas \<Rightarrow> [ie_octet_string ID_NAS_PDU CRITICALITY_REJECT nas] | None \<Rightarrow> []))"

record icsr_fields =
  qf_mme :: "u32 option"
  qf_enb :: "u32 option"
  qf_ambr :: "(u64 \<times> u64) option"
  qf_key :: "bytes option"
  qf_erabs :: "ErabToSetup list"
  qf_nas :: "bytes option"

definition get_ambr :: "bytes \<Rightarrow> (u64 \<times> u64) option" where
  "get_ambr = rd_value (rd_seq (\<lambda>r. read_constrained_int r 0 BIT_RATE_MAX)
     (\<lambda>r. read_constrained_int r 0 BIT_RATE_MAX))"

definition icsr_ie :: "icsr_fields \<Rightarrow> IeEntry \<Rightarrow> icsr_fields" where
  "icsr_ie f e = (case e of (i, _, val) \<Rightarrow>
     if i = ID_MME_UE_S1AP_ID then f\<lparr>qf_mme := map_option ucast (get_int MME_UE_S1AP_ID_MAX val)\<rparr>
     else if i = ID_ENB_UE_S1AP_ID then f\<lparr>qf_enb := map_option ucast (get_int ENB_UE_S1AP_ID_MAX val)\<rparr>
     else if i = ID_UE_AGGREGATE_MAXIMUM_BITRATE then
       (case get_ambr val of Some x \<Rightarrow> f\<lparr>qf_ambr := Some x\<rparr> | None \<Rightarrow> f)
     else if i = ID_SECURITY_KEY then f\<lparr>qf_key := get_octets 32 val\<rparr>
     else if i = ID_E_RAB_TO_BE_SETUP_LIST_CTXT_SU_REQ then
       (case rd_value read_erabs_to_setup val of Some v \<Rightarrow> f\<lparr>qf_erabs := v\<rparr> | None \<Rightarrow> f)
     else if i = ID_NAS_PDU then f\<lparr>qf_nas := get_octet_string val\<rparr>
     else f)"

definition decode_initial_context_setup_request :: "IeEntry list \<Rightarrow> S1apMessage result" where
  "decode_initial_context_setup_request entries =
     (let f = foldl icsr_ie \<lparr>qf_mme = None, qf_enb = None, qf_ambr = None, qf_key = None, qf_erabs = [],
                qf_nas = None\<rparr> entries in
      bind_res (ok_or (qf_mme f) (missing ''missing MME-UE-S1AP-ID'')) (\<lambda>mme.
      bind_res (ok_or (qf_enb f) (missing ''missing eNB-UE-S1AP-ID'')) (\<lambda>enb.
      bind_res (ok_or (qf_ambr f) (missing ''missing UE-AggregateMaximumBitrate'')) (\<lambda>ambr.
      bind_res (ok_or (qf_key f) (missing ''missing SecurityKey'')) (\<lambda>key.
        Inr (MInitialContextSetupRequest \<lparr>icq_mme_ue_s1ap_id = mme, icq_enb_ue_s1ap_id = enb,
               icq_e_rabs = qf_erabs f, icq_nas_pdu = qf_nas f, icq_ue_ambr = ambr,
               icq_security_key = key\<rparr>))))))"

definition encode_initial_context_setup_response :: "InitialContextSetupResponse \<Rightarrow> bytes option" where
  "encode_initial_context_setup_response msg =
     encode_entries PDU_CHOICE_SUCCESSFUL_OUTCOME PROC_INITIAL_CONTEXT_SETUP CRITICALITY_REJECT
       ([ie_int ID_MME_UE_S1AP_ID CRITICALITY_REJECT (ucast (icp_mme_ue_s1ap_id msg)) MME_UE_S1AP_ID_MAX,
         ie_int ID_ENB_UE_S1AP_ID CRITICALITY_REJECT (ucast (icp_enb_ue_s1ap_id msg)) ENB_UE_S1AP_ID_MAX] @
        (if icp_e_rabs_setup msg \<noteq> [] then
           [map_option (\<lambda>w. (ID_E_RAB_SETUP_LIST_CTXT_SU_RES, CRITICALITY_REJECT, into_bytes w))
              (write_erabs_setup PerWriter_new (icp_e_rabs_setup msg))]
         else []) @
        (if icp_e_rabs_failed msg \<noteq> [] then
           [map_option (\<lambda>w. (ID_E_RAB_FAILED_TO_SETUP_LIST_CTXT_SU_RES, CRITICALITY_IGNORE, into_bytes w))
              (write_erab_ids PerWriter_new (icp_e_rabs_failed msg))]
         else []))"

record icsp_fields =
  pf_mme :: "u32 option"
  pf_enb :: "u32 option"
  pf_setup :: "ErabSetupItem list"
  pf_failed :: "u8 list"

definition icsp_ie :: "icsp_fields \<Rightarrow> IeEntry \<Rightarrow> icsp_fields" where
  "icsp_ie f e = (case e of (i, _, val) \<Rightarrow>
     if i = ID_MME_UE_S1AP_ID then f\<lparr>pf_mme := map_option ucast (get_int MME_UE_S1AP_ID_MAX val)\<rparr>
     else if i = ID_ENB_UE_S1AP_ID then f\<lparr>pf_enb := map_option ucast (get_int ENB_UE_S1AP_ID_MAX val)\<rparr>
     else if i = ID_E_RAB_SETUP_LIST_CTXT_SU_RES then
       (case rd_value read_erabs_setup val of Some v \<Rightarrow> f\<lparr>pf_setup := v\<rparr> | None \<Rightarrow> f)
     else if i = ID_E_RAB_FAILED_TO_SETUP_LIST_CTXT_SU_RES then
       (case rd_value read_erab_ids val of Some v \<Rightarrow> f\<lparr>pf_failed := v\<rparr> | None \<Rightarrow> f)
     else f)"

definition decode_initial_context_setup_response :: "IeEntry list \<Rightarrow> S1apMessage result" where
  "decode_initial_context_setup_response entries =
     (let f = foldl icsp_ie \<lparr>pf_mme = None, pf_enb = None, pf_setup = [], pf_failed = []\<rparr> entries in
      bind_res (ok_or (pf_mme f) (missing ''missing MME-UE-S1AP-ID'')) (\<lambda>mme.
      bind_res (ok_or (pf_enb f) (missing ''missing eNB-UE-S1AP-ID'')) (\<lambda>enb.
        Inr (MInitialContextSetupResponse \<lparr>icp_mme_ue_s1ap_id = mme, icp_enb_ue_s1ap_id = enb,
               icp_e_rabs_setup = pf_setup f, icp_e_rabs_failed = pf_failed f\<rparr>))))"

section \<open>UE context release\<close>

definition encode_ue_context_release_command :: "u32 \<Rightarrow> u32 \<Rightarrow> S1apCause \<Rightarrow> bytes option" where
  "encode_ue_context_release_command mme enb cause =
     encode_entries PDU_CHOICE_INITIATING_MESSAGE PROC_UE_CONTEXT_RELEASE CRITICALITY_IGNORE
       [ie_int ID_MME_UE_S1AP_ID CRITICALITY_REJECT (ucast mme) MME_UE_S1AP_ID_MAX,
        ie_int ID_ENB_UE_S1AP_ID CRITICALITY_REJECT (ucast enb) ENB_UE_S1AP_ID_MAX,
        ie_int ID_CAUSE CRITICALITY_IGNORE (s1ap_cause_to_u64 cause) CAUSE_MAX]"

record release_fields =
  rf_mme :: "u32 option"
  rf_enb :: "u32 option"
  rf_cause :: "S1apCause option"

definition release_command_ie :: "release_fields \<Rightarrow> IeEntry \<Rightarrow> release_fields" where
  "release_command_ie f e = (case e of (i, _, val) \<Rightarrow>
     if i = ID_MME_UE_S1AP_ID then f\<lparr>rf_mme := map_option ucast (get_int MME_UE_S1AP_ID_MAX val)\<rparr>
     else if i = ID_ENB_UE_S1AP_ID then f\<lparr>rf_enb := map_option ucast (get_int ENB_UE_S1AP_ID_MAX val)\<rparr>
     else if i = ID_CAUSE then f\<lparr>rf_cause := Option.bind (get_int CAUSE_MAX val) s1ap_cause_from_u64\<rparr>
     else f)"

definition decode_ue_context_release_command :: "IeEntry list \<Rightarrow> S1apMessage result" where
  "decode_ue_context_release_command entries =
     (let f = foldl release_command_ie \<lparr>rf_mme = None, rf_enb = None, rf_cause = None\<rparr> entries in
      bind_res (ok_or (rf_mme f) (missing ''missing MME-UE-S1AP-ID'')) (\<lambda>mme.
      bind_res (ok_or (rf_enb f) (missing ''missing eNB-UE-S1AP-ID'')) (\<lambda>enb.
      bind_res (ok_or (rf_cause f) (missing ''missing or invalid Cause'')) (\<lambda>cause.
        Inr (MUeContextReleaseCommand mme enb cause)))))"

definition encode_ue_context_release_complete :: "UeContextReleaseComplete \<Rightarrow> bytes option" where
  "encode_ue_context_release_complete msg =
     encode_entries PDU_CHOICE_SUCCESSFUL_OUTCOME PROC_UE_CONTEXT_RELEASE CRITICALITY_IGNORE
       [ie_int ID_MME_UE_S1AP_ID CRITICALITY_IGNORE (ucast (crc_mme_ue_s1ap_id msg)) MME_UE_S1AP_ID_MAX,
        ie_int ID_ENB_UE_S1AP_ID CRITICALITY_IGNORE (ucast (crc_enb_ue_s1ap_id msg)) ENB_UE_S1AP_ID_MAX]"

definition release_complete_ie :: "release_fields \<Rightarrow> IeEntry \<Rightarrow> release_fields" where
  "release_complete_ie f e = (case e of (i, _, val) \<Rightarrow>
     if i = ID_MME_UE_S1AP_ID then f\<lparr>rf_mme := map_option ucast (get_int MME_UE_S1AP_ID_MAX val)\<rparr>
     else if i = ID_ENB_UE_S1AP_ID then f\<lparr>rf_enb := map_option ucast (get_int ENB_UE_S1AP_ID_MAX val)\<rparr>
     else f)"

definition decode_ue_context_release_complete :: "IeEntry list \<Rightarrow> S1apMessage result" where
  "decode_ue_context_release_complete entries =
     (let f = foldl release_complete_ie \<lparr>rf_mme = None, rf_enb = None, rf_cause = None\<rparr> entries in
      bind_res (ok_or (rf_mme f) (missing ''missing MME-UE-S1AP-ID'')) (\<lambda>mme.
      bind_res (ok_or (rf_enb f) (missing ''missing eNB-UE-S1AP-ID'')) (\<lambda>enb.
        Inr (MUeContextReleaseComplete \<lparr>crc_mme_ue_s1ap_id = mme, crc_enb_ue_s1ap_id = enb\<rparr>))))"

section \<open>Dispatch\<close>

text \<open>A panic of an encoder is the outer \<open>None\<close>, an unsupported message the error.\<close>

definition encode_s1ap_pdu :: "S1apMessage \<Rightarrow> bytes result option" where
  "encode_s1ap_pdu msg =
     (case msg of
        MInitialUeMessage m \<Rightarrow> map_option Inr (encode_initial_ue_message m)
      | MUplinkNasTransport m \<Rightarrow> map_option Inr (encode_uplink_nas_transport m)
      | MDownlinkNasTransport m \<Rightarrow> map_option Inr (encode_downlink_nas_transport m)
      | MInitialContextSetupRequest m \<Rightarrow> map_option Inr (encode_initial_context_setup_request m)
      | MInitialContextSetupResponse m \<Rightarrow> map_option Inr (encode_initial_context_setup_response m)
      | MUeContextReleaseCommand mme enb cause \<Rightarrow>
          map_option Inr (encode_ue_context_release_command mme enb cause)
      | MUeContextReleaseComplete m \<Rightarrow> map_option Inr (encode_ue_context_release_complete m)
      | _ \<Rightarrow> Some (Inl (MalformedS1ap ''PER encoding not yet implemented for this S1AP message'')))"

definition decode_s1ap_pdu :: "bytes \<Rightarrow> S1apMessage result" where
  "decode_s1ap_pdu buf =
     bind_res (ok_or (decode_pdu_wrapper buf) (MalformedS1ap ''failed to decode PDU wrapper''))
       (\<lambda>(choice, proc_code, crit, val).
          bind_res (ok_or (rd_value read_ie_container val) (MalformedS1ap ''failed to decode IE container''))
            (\<lambda>entries.
               if proc_code = PROC_INITIAL_UE_MESSAGE then decode_initial_ue_message entries
               else if proc_code = PROC_UPLINK_NAS_TRANSPORT then decode_uplink_nas_transport entries
               else if proc_code = PROC_DOWNLINK_NAS_TRANSPORT then decode_downlink_nas_transport entries
               else if proc_code = PROC_INITIAL_CONTEXT_SETUP \<and> choice = PDU_CHOICE_INITIATING_MESSAGE then
                 decode_initial_context_setup_request entries
               else if proc_code = PROC_INITIAL_CONTEXT_SETUP \<and> choice = PDU_CHOICE_SUCCESSFUL_OUTCOME then
                 decode_initial_context_setup_response entries
               else if proc_code = PROC_UE_CONTEXT_RELEASE \<and> choice = PDU_CHOICE_INITIATING_MESSAGE then
                 decode_ue_context_release_command entries
               else if proc_code = PROC_UE_CONTEXT_RELEASE \<and> choice = PDU_CHOICE_SUCCESSFUL_OUTCOME then
                 decode_ue_context_release_complete entries
               else Inl (MalformedS1ap ''unsupported procedure code (or PDU choice)'')))"

end
