(* ===== verification/S1ap_Roundtrip.thy ===== *)
theory S1ap_Roundtrip
  imports S1ap_Codec
begin

text \<open>
  Decoding inverts encoding for the S1AP codec. The wire items of the codec (an IE entry, an
  E-RAB to set up, an E-RAB set up, an E-RAB identifier) are interpretations of the item
  contract of the PER engine, so that containers and lists are read back by the lemmas of
  \<open>per_item\<close>; each message then only fills its fields. The second half bounds the size of what
  is written, which shows that the encoder does not panic on a message whose fields are in
  range and whose NAS PDU and E-RAB lists fit.
\<close>

named_theorems s1ap_back \<open>a field read back from the IE that carries it\<close>

section \<open>Items\<close>

lemma unat_u8_le: "unat (x :: u8) \<le> 255"
proof -
  have "unat x < 256" by (rule order_less_le_trans [OF unsigned_less]) simp
  then show ?thesis by linarith
qed

lemma unat_widen:
  "unat (ucast (x :: u8) :: u64) = unat x" "unat (ucast (y :: u32) :: u64) = unat y"
  "(ucast x :: u64) \<le> numeral k \<longleftrightarrow> unat x \<le> unat (numeral k :: u64)"
  "(ucast y :: u64) \<le> numeral k \<longleftrightarrow> unat y \<le> unat (numeral k :: u64)"
proof -
  have "unat x < 2 ^ 64" using unat_u8_le [of x] by simp
  then show 1: "unat (ucast (x :: u8) :: u64) = unat x"
    by (simp add: unsigned_ucast_eq take_bit_nat_eq_self)
  have "unat y < 2 ^ 64" using unsigned_less [of y, where 'a = nat] by simp
  then show 2: "unat (ucast (y :: u32) :: u64) = unat y"
    by (simp add: unsigned_ucast_eq take_bit_nat_eq_self)
  show "(ucast x :: u64) \<le> numeral k \<longleftrightarrow> unat x \<le> unat (numeral k :: u64)"
    "(ucast y :: u64) \<le> numeral k \<longleftrightarrow> unat y \<le> unat (numeral k :: u64)"
    by (simp_all only: word_le_nat_alt 1 2)
qed

lemma write_ie_entry_seq:
  "write_ie_entry = (\<lambda>w e.
     wr_seq (\<lambda>w v. write_constrained_int w v 0 PROTOCOL_IE_ID_MAX)
       (wr_seq (\<lambda>w v. write_constrained_int w v 0 2) write_octet_string) w
       (case e of (i, crit, val) \<Rightarrow> (ucast i, ucast crit, val)))"
  by (auto simp: write_ie_entry_def wr_seq_def fun_eq_iff split: prod.splits)

lemma read_ie_entry_seq:
  "read_ie_entry = rd_map (\<lambda>(i, crit, val). (ucast i, ucast crit, val))
     (rd_seq (\<lambda>r. read_constrained_int r 0 PROTOCOL_IE_ID_MAX)
       (rd_seq (\<lambda>r. read_constrained_int r 0 2) read_octet_string))"
  by (auto simp: read_ie_entry_def rd_map_def rd_seq_def fun_eq_iff bind_eq_None_conv
      split: option.splits Option.bind_splits)

definition ie_ok :: "IeEntry \<Rightarrow> bool" where
  "ie_ok e = (case e of (i, crit, val) \<Rightarrow>
     (ucast i :: u64) \<le> PROTOCOL_IE_ID_MAX \<and> (ucast crit :: u64) \<le> 2 \<and> length val < 16384)"

lemmas s1ap_int_items = constrained_int_item [of PROTOCOL_IE_ID_MAX 0] constrained_int_item [of 2 0]
  constrained_int_item [of ERAB_ID_MAX 0] constrained_int_item [of QCI_MAX 0]
  constrained_int_item [of BIT_RATE_MAX 0] constrained_int_item [of PROCEDURE_CODE_MAX 0]

interpretation ie_entry: per_item write_ie_entry read_ie_entry ie_ok
  unfolding write_ie_entry_seq read_ie_entry_seq
  by (rule per_item_map [OF per_item_seq [OF constrained_int_item
        per_item_seq [OF constrained_int_item octet_string.per_item_axioms]]])
     (auto simp: ie_ok_def s1ap_maxs word_ucast_back)

lemma write_constrained_int_SomeD: "write_constrained_int w v mn mx = Some w' \<Longrightarrow> mn \<le> v \<and> v \<le> mx"
  by (auto simp: write_constrained_int_def split: if_splits)

lemma write_octet_string_SomeD: "write_octet_string w d = Some w' \<Longrightarrow> length d < 16384"
  by (auto simp: write_octet_string_def write_length_determinant_def bind_eq_Some_conv split: if_splits)

lemma write_ie_entry_SomeD: "write_ie_entry w e = Some w' \<Longrightarrow> ie_ok e"
  by (auto simp: write_ie_entry_def ie_ok_def bind_eq_Some_conv split: prod.splits
      dest: write_constrained_int_SomeD write_octet_string_SomeD)

interpretation erab_id: per_item write_erab_id read_erab_id "\<lambda>i. unat i \<le> 15"
proof -
  have "read_erab_id = rd_map ucast (\<lambda>r. read_constrained_int r 0 ERAB_ID_MAX)"
    by (auto simp: read_erab_id_def rd_map_def fun_eq_iff)
  moreover have "write_erab_id = (\<lambda>w i. write_constrained_int w (ucast i) 0 ERAB_ID_MAX)"
    by (simp add: write_erab_id_def fun_eq_iff)
  moreover have "per_item (\<lambda>w i. write_constrained_int w (ucast i) 0 ERAB_ID_MAX)
      (rd_map ucast (\<lambda>r. read_constrained_int r 0 ERAB_ID_MAX)) (\<lambda>i :: u8. unat i \<le> 15)"
    by (rule per_item_map [OF constrained_int_item])
       (auto simp: s1ap_maxs word_ucast_back unat_widen)
  ultimately show "per_item write_erab_id read_erab_id (\<lambda>i. unat i \<le> 15)" by simp
qed


definition erab_to_setup_ok :: "ErabToSetup \<Rightarrow> bool" where
  "erab_to_setup_ok e \<longleftrightarrow> unat (ets_erab_id e) \<le> 15 \<and> length (ets_gtp_teid e) = 4 \<and>
     length (ets_transport_layer_addr e) = 4"

lemma write_erab_to_setup_seq:
  "write_erab_to_setup = (\<lambda>w e.
     wr_seq (\<lambda>w v. write_constrained_int w v 0 ERAB_ID_MAX)
       (wr_seq (\<lambda>w v. write_constrained_int w v 0 QCI_MAX)
         (wr_seq write_aligned_octets write_aligned_octets)) w
       (ucast (ets_erab_id e), ucast (ets_qci e), ets_gtp_teid e, ets_transport_layer_addr e))"
  by (simp add: write_erab_to_setup_def wr_seq_def [where w = w for w] write_octets_twice fun_eq_iff
      cong: option.case_cong)

lemma read_erab_to_setup_seq:
  "read_erab_to_setup = rd_map (\<lambda>(i, q, t, a). \<lparr>ets_erab_id = ucast i, ets_qci = ucast q,
       ets_gtp_teid = t, ets_transport_layer_addr = a\<rparr>)
     (rd_seq (\<lambda>r. read_constrained_int r 0 ERAB_ID_MAX)
       (rd_seq (\<lambda>r. read_constrained_int r 0 QCI_MAX)
         (rd_seq (\<lambda>r. read_octets r 4) (\<lambda>r. read_octets r 4))))"
  by (auto simp: read_erab_to_setup_def rd_map_def rd_seq_def fun_eq_iff split: Option.bind_splits)

interpretation erab_to_setup: per_item write_erab_to_setup read_erab_to_setup erab_to_setup_ok
  unfolding write_erab_to_setup_seq read_erab_to_setup_seq
  by (rule per_item_map [OF per_item_seq [OF constrained_int_item per_item_seq [OF constrained_int_item
        per_item_seq [OF aligned_octets_item aligned_octets_item]]]])
     (auto simp: erab_to_setup_ok_def s1ap_maxs word_ucast_back unat_widen unat_u8_le)

definition erab_setup_ok :: "ErabSetupItem \<Rightarrow> bool" where
  "erab_setup_ok e \<longleftrightarrow> unat (esi_e_rab_id e) \<le> 15 \<and> length (esi_transport_layer_addr e) = 4 \<and>
     length (esi_gtp_teid e) = 4"

lemma write_erab_setup_seq:
  "write_erab_setup = (\<lambda>w e.
     wr_seq (\<lambda>w v. write_constrained_int w v 0 ERAB_ID_MAX)
       (wr_seq write_aligned_octets write_aligned_octets) w
       (ucast (esi_e_rab_id e), esi_transport_layer_addr e, esi_gtp_teid e))"
  by (simp add: write_erab_setup_def write_octets_twice fun_eq_iff wr_seq_def)

lemma read_erab_setup_seq:
  "read_erab_setup = rd_map (\<lambda>(i, a, t). \<lparr>esi_e_rab_id = ucast i,
       esi_transport_layer_addr = a, esi_gtp_teid = t\<rparr>)
     (rd_seq (\<lambda>r. read_constrained_int r 0 ERAB_ID_MAX)
       (rd_seq (\<lambda>r. read_octets r 4) (\<lambda>r. read_octets r 4)))"
  by (auto simp: read_erab_setup_def rd_map_def rd_seq_def fun_eq_iff split: Option.bind_splits)

interpretation erab_setup: per_item write_erab_setup read_erab_setup erab_setup_ok
  unfolding write_erab_setup_seq read_erab_setup_seq
  by (rule per_item_map [OF per_item_seq [OF constrained_int_item
        per_item_seq [OF aligned_octets_item aligned_octets_item]]])
     (auto simp: erab_setup_ok_def s1ap_maxs word_ucast_back unat_widen)


section \<open>Containers and wrapper\<close>

interpretation ie_container: per_item write_ie_container read_ie_container
  "\<lambda>es. list_all ie_ok es \<and> length es < 16384"
  using ie_entry.list_item by (simp add: write_ie_container_def [abs_def] read_ie_container_def [abs_def])

interpretation erabs_to_setup: per_item write_erabs_to_setup read_erabs_to_setup
  "\<lambda>es. list_all erab_to_setup_ok es \<and> length es < 16384"
  using erab_to_setup.list_item
  by (simp add: write_erabs_to_setup_def [abs_def] read_erabs_to_setup_def [abs_def])

interpretation erabs_setup: per_item write_erabs_setup read_erabs_setup
  "\<lambda>es. list_all erab_setup_ok es \<and> length es < 16384"
  using erab_setup.list_item
  by (simp add: write_erabs_setup_def [abs_def] read_erabs_setup_def [abs_def])

interpretation erab_ids: per_item write_erab_ids read_erab_ids
  "\<lambda>is. list_all (\<lambda>i. unat i \<le> 15) is \<and> length is < 16384"
  using erab_id.list_item
  by (simp add: write_erab_ids_def [abs_def] read_erab_ids_def [abs_def])

lemma write_length_determinant_SomeD: "write_length_determinant w n = Some w' \<Longrightarrow> n < 16384"
  by (auto simp: write_length_determinant_def split: if_splits)

lemma write_ie_container_SomeD:
  "write_ie_container w es = Some w' \<Longrightarrow> list_all ie_ok es \<and> length es < 16384"
  using ie_entry.foldM_ok [OF write_ie_entry_SomeD]
  by (auto simp: write_ie_container_def bind_eq_Some_conv dest: write_length_determinant_SomeD)

lemma decode_pdu_wrapper_encode:
  assumes "encode_pdu_wrapper choice pc crit val = Some b"
  shows "decode_pdu_wrapper b = Some (choice, pc, crit, val)"
proof -
  let ?wr = "wr_seq (\<lambda>w v. write_constrained_int w v 0 2)
       (wr_seq (\<lambda>w v. write_constrained_int w v 0 PROCEDURE_CODE_MAX)
         (wr_seq (\<lambda>w v. write_constrained_int w v 0 2) write_octet_string))"
  let ?rd = "rd_seq (\<lambda>r. read_constrained_int r 0 2)
       (rd_seq (\<lambda>r. read_constrained_int r 0 PROCEDURE_CODE_MAX)
         (rd_seq (\<lambda>r. read_constrained_int r 0 2) read_octet_string))"
  let ?x = "(choice, ucast pc, ucast crit, val)"
  from assms obtain w where w: "?wr PerWriter_new ?x = Some w" "b = into_bytes w"
    by (auto simp: encode_pdu_wrapper_def wr_seq_def bind_eq_Some_conv)
  have item: "per_item ?wr ?rd (\<lambda>x. (0 \<le> fst x \<and> fst x \<le> 2) \<and> (0 \<le> fst (snd x) \<and> fst (snd x) \<le> PROCEDURE_CODE_MAX)
      \<and> (0 \<le> fst (snd (snd x)) \<and> fst (snd (snd x)) \<le> 2) \<and> length (snd (snd (snd x))) < 16384)"
    by (intro per_item_seq constrained_int_item octet_string.per_item_axioms) (simp_all add: s1ap_maxs)
  have "rd_value ?rd b = Some ?x"
    unfolding w(2) using w(1)
    by (intro rd_value_written [OF item])
       (auto simp: wr_seq_def bind_eq_Some_conv dest: write_constrained_int_SomeD write_octet_string_SomeD)
  then show ?thesis
    by (auto simp: decode_pdu_wrapper_def rd_value_def rd_seq_def bind_eq_Some_conv word_ucast_back)
qed


lemma encode_entries_back:
  assumes "encode_entries choice pc crit ies = Some b"
  obtains entries val where "those ies = Some entries"
    "decode_pdu_wrapper b = Some (choice, pc, crit, val)" "rd_value read_ie_container val = Some entries"
proof -
  from assms obtain entries w where e: "those ies = Some entries"
    and w: "write_ie_container PerWriter_new entries = Some w"
    and b: "encode_pdu_wrapper choice pc crit (into_bytes w) = Some b"
    by (auto simp: encode_entries_def bind_eq_Some_conv)
  have "rd_value read_ie_container (into_bytes w) = Some entries"
    using rd_value_written [OF ie_container.per_item_axioms write_ie_container_SomeD [OF w] w] .
  with e decode_pdu_wrapper_encode [OF b] show thesis by (rule that)
qed

section \<open>Fields\<close>

lemma ie_int_back:
  assumes "ie_int i crit v mx = Some e" "mx + 1 \<noteq> 0"
  shows "\<exists>val. e = (i, crit, val) \<and> get_int mx val = Some v"
  using assms write_constrained_int_SomeD
  by (auto simp: ie_int_def get_int_def intro!: rd_value_written [OF constrained_int_item])

lemma ie_octet_string_back:
  "ie_octet_string i crit d = Some e \<Longrightarrow> \<exists>val. e = (i, crit, val) \<and> get_octet_string val = Some d"
  by (auto simp: ie_octet_string_def get_octet_string_def
      intro!: rd_value_written [OF octet_string.per_item_axioms] dest: write_octet_string_SomeD)

lemma ie_octets_back:
  "ie_octets i crit d = Some e \<Longrightarrow> length d = n \<Longrightarrow> \<exists>val. e = (i, crit, val) \<and> get_octets n val = Some d"
  by (auto simp: ie_octets_def get_octets_def write_octets_new [symmetric]
      intro!: rd_value_written [OF aligned_octets_item])

lemma those_Some:
  "those [] = Some ys \<longleftrightarrow> ys = []"
  "those (x # xs) = Some ys \<longleftrightarrow> (\<exists>y ys'. x = Some y \<and> those xs = Some ys' \<and> ys = y # ys')"
  by (auto split: option.splits)

lemma s1ap_cause_back [simp]:
  "s1ap_cause_from_u64 (s1ap_cause_to_u64 c) = Some c" "s1ap_cause_to_u64 c \<le> CAUSE_MAX"
  by (cases c; simp add: s1ap_cause_from_u64_def s1ap_maxs)+

lemma s1ap_max_nonzero [simp]:
  "ENB_UE_S1AP_ID_MAX + 1 \<noteq> 0" "MME_UE_S1AP_ID_MAX + 1 \<noteq> 0" "RRC_ESTABLISHMENT_CAUSE_MAX + 1 \<noteq> 0"
  "CAUSE_MAX + 1 \<noteq> 0"
  by (simp_all add: s1ap_maxs)

lemmas s1ap_encoders = encode_initial_ue_message_def encode_uplink_nas_transport_def
  encode_downlink_nas_transport_def encode_initial_context_setup_request_def
  encode_initial_context_setup_response_def encode_ue_context_release_command_def
  encode_ue_context_release_complete_def

lemmas s1ap_decoders = decode_initial_ue_message_def initial_ue_ie_def decode_uplink_nas_transport_def
  uplink_nas_ie_def decode_downlink_nas_transport_def downlink_nas_ie_def
  decode_initial_context_setup_request_def icsr_ie_def decode_initial_context_setup_response_def
  icsp_ie_def decode_ue_context_release_command_def release_command_ie_def
  decode_ue_context_release_complete_def release_complete_ie_def

section \<open>Messages\<close>

text \<open>
  What the IEs of a message say, in the order of the encoder: each either carries its field,
  or the encoder panicked.
\<close>

lemmas s1ap_entries = those_Some ex_simps conj_assoc
lemmas s1ap_backs = ie_int_back [OF _ s1ap_max_nonzero(1)] ie_int_back [OF _ s1ap_max_nonzero(2)]
  ie_int_back [OF _ s1ap_max_nonzero(3)] ie_int_back [OF _ s1ap_max_nonzero(4)]
  ie_octet_string_back ie_octets_back

lemma decode_s1ap_pduI:
  assumes "encode_entries choice pc crit ies = Some b"
    and "\<And>entries. those ies = Some entries \<Longrightarrow>
      (if pc = PROC_INITIAL_UE_MESSAGE then decode_initial_ue_message entries
       else if pc = PROC_UPLINK_NAS_TRANSPORT then decode_uplink_nas_transport entries
       else if pc = PROC_DOWNLINK_NAS_TRANSPORT then decode_downlink_nas_transport entries
       else if pc = PROC_INITIAL_CONTEXT_SETUP \<and> choice = PDU_CHOICE_INITIATING_MESSAGE then
         decode_initial_context_setup_request entries
       else if pc = PROC_INITIAL_CONTEXT_SETUP \<and> choice = PDU_CHOICE_SUCCESSFUL_OUTCOME then
         decode_initial_context_setup_response entries
       else if pc = PROC_UE_CONTEXT_RELEASE \<and> choice = PDU_CHOICE_INITIATING_MESSAGE then
         decode_ue_context_release_command entries
       else if pc = PROC_UE_CONTEXT_RELEASE \<and> choice = PDU_CHOICE_SUCCESSFUL_OUTCOME then
         decode_ue_context_release_complete entries
       else Inl (MalformedS1ap ''unsupported procedure code (or PDU choice)'')) = Inr m"
  shows "decode_s1ap_pdu b = Inr m"
proof -
  from assms(1) obtain entries val where "those ies = Some entries"
    "decode_pdu_wrapper b = Some (choice, pc, crit, val)" "rd_value read_ie_container val = Some entries"
    by (rule encode_entries_back)
  then show ?thesis using assms(2) by (simp add: decode_s1ap_pdu_def)
qed

lemma initial_ue_back:
  assumes "encode_initial_ue_message m = Some b" "length (ium_tai m) = 5" "length (ium_eutran_cgi m) = 7"
  shows "decode_s1ap_pdu b = Inr (MInitialUeMessage m)"
  using assms(1) unfolding encode_initial_ue_message_def
proof (rule decode_s1ap_pduI, goal_cases)
  case (1 entries)
  then show ?case using assms(2,3)
    by (auto simp only: those_Some dest!: s1ap_backs)
       (simp add: s1ap_procs decode_initial_ue_message_def initial_ue_ie_def s1ap_ids word_ucast_back)
qed

lemma uplink_nas_back:
  assumes "encode_uplink_nas_transport m = Some b" "length (unt_tai m) = 5" "length (unt_eutran_cgi m) = 7"
  shows "decode_s1ap_pdu b = Inr (MUplinkNasTransport m)"
  using assms(1) unfolding encode_uplink_nas_transport_def
proof (rule decode_s1ap_pduI, goal_cases)
  case (1 entries)
  then show ?case using assms(2,3)
    by (auto simp only: those_Some dest!: s1ap_backs)
       (simp add: s1ap_procs decode_uplink_nas_transport_def uplink_nas_ie_def s1ap_ids word_ucast_back)
qed

lemma downlink_nas_back:
  assumes "encode_downlink_nas_transport m = Some b"
  shows "decode_s1ap_pdu b = Inr (MDownlinkNasTransport m)"
  using assms(1) unfolding encode_downlink_nas_transport_def
proof (rule decode_s1ap_pduI, goal_cases)
  case (1 entries)
  then show ?case
    by (auto simp only: those_Some dest!: s1ap_backs)
       (simp add: s1ap_procs decode_downlink_nas_transport_def downlink_nas_ie_def s1ap_ids word_ucast_back)
qed

lemma release_command_back:
  assumes "encode_ue_context_release_command mme enb c = Some b"
  shows "decode_s1ap_pdu b = Inr (MUeContextReleaseCommand mme enb c)"
  using assms(1) unfolding encode_ue_context_release_command_def
proof (rule decode_s1ap_pduI, goal_cases)
  case (1 entries)
  then show ?case
    by (auto simp only: those_Some dest!: s1ap_backs)
       (simp add: s1ap_procs decode_ue_context_release_command_def release_command_ie_def s1ap_ids
         word_ucast_back)
qed

lemma release_complete_back:
  assumes "encode_ue_context_release_complete m = Some b"
  shows "decode_s1ap_pdu b = Inr (MUeContextReleaseComplete m)"
  using assms(1) unfolding encode_ue_context_release_complete_def
proof (rule decode_s1ap_pduI, goal_cases)
  case (1 entries)
  then show ?case
    by (auto simp only: those_Some dest!: s1ap_backs)
       (simp add: s1ap_procs decode_ue_context_release_complete_def release_complete_ie_def s1ap_ids
         word_ucast_back)
qed


lemma ie_ambr_back:
  assumes "map_option (\<lambda>w. (i, crit, into_bytes w))
      (Option.bind (write_constrained_int PerWriter_new (fst x) 0 BIT_RATE_MAX)
         (\<lambda>w. write_constrained_int w (snd x) 0 BIT_RATE_MAX)) = Some e"
  shows "\<exists>val. e = (i, crit, val) \<and> get_ambr val = Some x"
proof -
  let ?wr = "wr_seq (\<lambda>w v. write_constrained_int w v 0 BIT_RATE_MAX) (\<lambda>w v. write_constrained_int w v 0 BIT_RATE_MAX)"
  from assms obtain w where w: "?wr PerWriter_new x = Some w" "e = (i, crit, into_bytes w)"
    by (auto simp: wr_seq_def bind_eq_Some_conv)
  have "rd_value (rd_seq (\<lambda>r. read_constrained_int r 0 BIT_RATE_MAX) (\<lambda>r. read_constrained_int r 0 BIT_RATE_MAX))
      (into_bytes w) = Some x"
    using w(1) by (intro rd_value_written [OF per_item_seq [OF constrained_int_item constrained_int_item]])
      (auto simp: s1ap_maxs wr_seq_def bind_eq_Some_conv dest: write_constrained_int_SomeD)
  with w(2) show ?thesis by (simp add: get_ambr_def)
qed

lemma ie_list_back:
  assumes "per_item wr rd ok" "ok x" "map_option (\<lambda>w. (i, crit, into_bytes w)) (wr PerWriter_new x) = Some e"
  shows "\<exists>val. e = (i, crit, val) \<and> rd_value rd val = Some x"
  using assms rd_value_written by fastforce

lemma context_setup_request_back:
  assumes "encode_initial_context_setup_request m = Some b" "length (icq_security_key m) = 32"
    "list_all erab_to_setup_ok (icq_e_rabs m)" "length (icq_e_rabs m) < 16384"
  shows "decode_s1ap_pdu b = Inr (MInitialContextSetupRequest m)"
  using assms(1) unfolding encode_initial_context_setup_request_def
proof (rule decode_s1ap_pduI, goal_cases)
  case (1 entries)
  have ok: "list_all erab_to_setup_ok (icq_e_rabs m) \<and> length (icq_e_rabs m) < 16384"
    using assms(3,4) by simp
  note backs = s1ap_backs ie_ambr_back ie_list_back [OF erabs_to_setup.per_item_axioms ok]
  show ?case
    using 1 assms(2)
    by (cases "icq_e_rabs m = []"; cases "icq_nas_pdu m")
       ((auto simp only: those_Some append.simps option.simps if_True if_False not_not simp_thms dest!: backs)?,
        simp add: s1ap_procs decode_initial_context_setup_request_def icsr_ie_def s1ap_ids word_ucast_back)+
qed

lemma context_setup_response_back:
  assumes "encode_initial_context_setup_response m = Some b"
    "list_all erab_setup_ok (icp_e_rabs_setup m)" "length (icp_e_rabs_setup m) < 16384"
    "list_all (\<lambda>i. unat i \<le> 15) (icp_e_rabs_failed m)" "length (icp_e_rabs_failed m) < 16384"
  shows "decode_s1ap_pdu b = Inr (MInitialContextSetupResponse m)"
  using assms(1) unfolding encode_initial_context_setup_response_def
proof (rule decode_s1ap_pduI, goal_cases)
  case (1 entries)
  have ok: "list_all erab_setup_ok (icp_e_rabs_setup m) \<and> length (icp_e_rabs_setup m) < 16384"
    "list_all (\<lambda>i. unat i \<le> 15) (icp_e_rabs_failed m) \<and> length (icp_e_rabs_failed m) < 16384"
    using assms(2-5) by simp_all
  note backs = s1ap_backs ie_list_back [OF erabs_setup.per_item_axioms ok(1)]
    ie_list_back [OF erab_ids.per_item_axioms ok(2)]
  show ?case
    using 1
    by (cases "icp_e_rabs_setup m = []"; cases "icp_e_rabs_failed m = []")
       ((auto simp only: those_Some append.simps if_True if_False not_not simp_thms dest!: backs)?,
        simp add: s1ap_procs decode_initial_context_setup_response_def icsp_ie_def s1ap_ids word_ucast_back)+
qed


section \<open>Sizes\<close>

text \<open>\<open>used w\<close> is the number of bits written; each operation adds a bounded number of them.\<close>

abbreviation used :: "PerWriter \<Rightarrow> nat" where
  "used w \<equiv> length (pw_bits w)"

lemma used_align: "used (write_align w) \<le> used w + 7"
  by (simp add: write_align_eq align_pad_def) arith

lemma used_octets: "used (write_octets w d) = used w + 8 * length d"
  by (simp add: write_octets_eq)

lemma used_constrained_int:
  assumes "write_constrained_int w v mn mx = Some w'"
  shows "used w' \<le> used w + 71"
proof -
  have "(bits_for_range (mx - mn + 1) + 7) div 8 * 8 \<le> 64"
    using bits_for_range_le [of "mx - mn + 1"] by arith
  then show ?thesis
    using assms used_align [of w] bits_for_range_le [of "mx - mn + 1"]
    by (auto simp: write_constrained_int_def Let_def write_bytes_bits split: if_splits)
qed

lemma used_length_determinant:
  "write_length_determinant w n = Some w' \<Longrightarrow> used w' \<le> used w + 23"
  using used_align [of w] by (auto simp: write_length_determinant_def Let_def split: if_splits)

lemma used_octet_string:
  "write_octet_string w d = Some w' \<Longrightarrow> used w' \<le> used w + (23 + 8 * length d)"
  by (auto simp: write_octet_string_def bind_eq_Some_conv used_octets dest: used_length_determinant)

lemma used_foldM:
  "(\<And>w x w'. x \<in> set xs \<Longrightarrow> wr w x = Some w' \<Longrightarrow> used w' \<le> used w + k x) \<Longrightarrow>
   foldM wr w xs = Some w' \<Longrightarrow> used w' \<le> used w + (\<Sum>x\<leftarrow>xs. k x)"
proof (induction xs arbitrary: w)
  case (Cons x xs)
  then obtain w1 where w1: "wr w x = Some w1" "foldM wr w1 xs = Some w'" by (auto simp: bind_eq_Some_conv)
  have "used w1 \<le> used w + k x" using Cons.prems(1) w1(1) by simp
  moreover have "used w' \<le> used w1 + (\<Sum>x\<leftarrow>xs. k x)" using Cons w1(2) by simp
  ultimately show ?case by simp
qed simp

lemma pack_chunks_length: "8 dvd length bs \<Longrightarrow> 8 * length (pack_chunks bs) = length bs"
  using arg_cong [OF to_bits_pack_chunks, of bs length] by simp

lemma length_into_bytes: "8 * length (into_bytes w) \<le> used w + 7"
  using used_align [of w] by (simp add: into_bytes_def pack_chunks_length)

lemma used_new [simp]: "used PerWriter_new = 0"
  by (simp add: PerWriter_new_def)

definition ie_size :: "IeEntry \<Rightarrow> nat" where
  "ie_size e = 21 + length (snd (snd e))"

lemma used_ie_entry: "write_ie_entry w e = Some w' \<Longrightarrow> used w' \<le> used w + 8 * ie_size e"
  by (auto simp: write_ie_entry_def ie_size_def bind_eq_Some_conv split: prod.splits
      dest!: used_constrained_int used_octet_string)

lemma used_ie_container:
  assumes "write_ie_container PerWriter_new es = Some w"
  shows "length (into_bytes w) \<le> 3 + (\<Sum>e\<leftarrow>es. ie_size e)"
proof -
  from assms obtain w1 where "write_length_determinant PerWriter_new (length es) = Some w1"
    "foldM write_ie_entry w1 es = Some w" by (auto simp: write_ie_container_def bind_eq_Some_conv)
  then have "used w \<le> 23 + (\<Sum>e\<leftarrow>es. 8 * ie_size e)"
    using used_length_determinant used_foldM [of es write_ie_entry "\<lambda>e. 8 * ie_size e", OF used_ie_entry]
    by fastforce
  then show ?thesis using length_into_bytes [of w] by (simp add: sum_list_const_mult)
qed

lemma encode_entries_Some:
  assumes "those ies = Some es" "list_all ie_ok es" "length es < 16384"
    and "3 + (\<Sum>e\<leftarrow>es. ie_size e) < 16384" "choice \<le> 2" "unat pc \<le> 255" "unat crit \<le> 2"
  shows "\<exists>b. encode_entries choice pc crit ies = Some b"
proof -
  obtain w where w: "write_ie_container PerWriter_new es = Some w"
    using ie_container.wr_Some assms(2,3) by blast
  have len: "length (into_bytes w) < 16384" using used_ie_container [OF w] assms(4) by simp
  have "(ucast pc :: u64) \<le> PROCEDURE_CODE_MAX" "(ucast crit :: u64) \<le> 2"
    using assms(6,7) by (simp_all add: s1ap_maxs unat_widen)
  then show ?thesis
    using assms(1,5) w len write_octet_string_Some [OF len] write_constrained_int_Some [of 0]
    by (auto simp: encode_entries_def encode_pdu_wrapper_def bind_eq_Some_conv) (metis word_zero_le)
qed


section \<open>The encoder does not panic\<close>

text \<open>\<open>ie_fits i x n\<close>: the IE is produced, under a known identifier, with at most \<open>n\<close> bytes of value.\<close>

definition ie_fits :: "IeEntry option \<Rightarrow> nat \<Rightarrow> bool" where
  "ie_fits x n \<longleftrightarrow> (\<exists>i crit val. x = Some (i, crit, val) \<and> unat i \<le> 65535 \<and> unat crit \<le> 2 \<and> length val \<le> n)"

lemma ie_fits_bits:
  assumes "x = Some w" "used w \<le> k" "unat i \<le> 65535" "unat crit \<le> 2" "k + 7 \<le> 8 * n + 7"
  shows "ie_fits (map_option (\<lambda>w. (i, crit, into_bytes w)) x) n"
  using assms length_into_bytes [of w] by (auto simp: ie_fits_def)

lemma ie_int_fits:
  assumes "v \<le> mx" "unat i \<le> 65535" "unat crit \<le> 2"
  shows "ie_fits (ie_int i crit v mx) 9"
proof -
  obtain w where w: "write_constrained_int PerWriter_new v 0 mx = Some w"
    using write_constrained_int_Some [OF _ assms(1)] by (metis word_zero_le)
  show ?thesis unfolding ie_int_def
    by (rule ie_fits_bits [OF w]) (use used_constrained_int [OF w] assms in auto)
qed

lemma ie_octet_string_fits:
  assumes "length d < 16384" "unat i \<le> 65535" "unat crit \<le> 2"
  shows "ie_fits (ie_octet_string i crit d) (3 + length d)"
proof -
  obtain w where w: "write_octet_string PerWriter_new d = Some w"
    using write_octet_string_Some [OF assms(1)] by blast
  show ?thesis unfolding ie_octet_string_def
    by (rule ie_fits_bits [OF w]) (use used_octet_string [OF w] assms in auto)
qed

lemma ie_octets_fits:
  assumes "unat i \<le> 65535" "unat crit \<le> 2"
  shows "ie_fits (ie_octets i crit d) (length d)"
  using length_into_bytes [of "write_octets PerWriter_new d"] assms
  by (auto simp: ie_fits_def ie_octets_def used_octets)

lemma ie_list_fits:
  assumes "per_item (\<lambda>w xs. Option.bind (write_length_determinant w (length xs)) (\<lambda>w. foldM wr w xs)) rd ok"
    and "ok xs" "\<And>w x w'. x \<in> set xs \<Longrightarrow> wr w x = Some w' \<Longrightarrow> used w' \<le> used w + 8 * k"
    and "unat i \<le> 65535" "unat crit \<le> 2"
  shows "ie_fits (map_option (\<lambda>w. (i, crit, into_bytes w))
      (Option.bind (write_length_determinant PerWriter_new (length xs)) (\<lambda>w. foldM wr w xs)))
    (3 + k * length xs)"
proof -
  obtain w w1 where w1: "write_length_determinant PerWriter_new (length xs) = Some w1"
    and w: "foldM wr w1 xs = Some w"
    using per_item.wr_Some [OF assms(1,2), of PerWriter_new] by (auto simp: bind_eq_Some_conv)
  have "used w \<le> used w1 + (\<Sum>x\<leftarrow>xs. 8 * k)"
    using assms(3) w by (rule used_foldM)
  then have "used w \<le> 23 + 8 * (k * length xs)"
    using used_length_determinant [OF w1] by (simp add: sum_list_triv algebra_simps)
  then show ?thesis
    using w1 w assms(4,5) by (intro ie_fits_bits [of _ w "23 + 8 * (k * length xs)"]) auto
qed

lemma used_erab_tail: "used (write_octets (write_octets (write_align w) a) b) \<le> used w + 7 + 8 * (length a + length b)"
  using used_align [of w] by (simp add: used_octets)

lemma used_erab_to_setup:
  assumes "write_erab_to_setup w e = Some w'" "erab_to_setup_ok e"
  shows "used w' \<le> used w + 8 * 27"
proof -
  from assms(1) obtain w1 w2 where w: "write_constrained_int w (ucast (ets_erab_id e)) 0 ERAB_ID_MAX = Some w1"
      "write_constrained_int w1 (ucast (ets_qci e)) 0 QCI_MAX = Some w2"
      "w' = write_octets (write_octets (write_align w2) (ets_gtp_teid e)) (ets_transport_layer_addr e)"
    by (auto simp: write_erab_to_setup_def bind_eq_Some_conv)
  then show ?thesis
    using used_constrained_int [OF w(1)] used_constrained_int [OF w(2)] assms(2)
      used_erab_tail [of w2 "ets_gtp_teid e" "ets_transport_layer_addr e"]
    by (simp add: erab_to_setup_ok_def)
qed

lemma used_erab_setup:
  assumes "write_erab_setup w e = Some w'" "erab_setup_ok e"
  shows "used w' \<le> used w + 8 * 18"
proof -
  from assms(1) obtain w1 where w: "write_constrained_int w (ucast (esi_e_rab_id e)) 0 ERAB_ID_MAX = Some w1"
      "w' = write_octets (write_octets (write_align w1) (esi_transport_layer_addr e)) (esi_gtp_teid e)"
    by (auto simp: write_erab_setup_def bind_eq_Some_conv)
  then show ?thesis
    using used_constrained_int [OF w(1)] assms(2)
      used_erab_tail [of w1 "esi_transport_layer_addr e" "esi_gtp_teid e"]
    by (simp add: erab_setup_ok_def)
qed

lemma used_erab_id: "write_erab_id w n = Some w' \<Longrightarrow> used w' \<le> used w + 8 * 9"
  by (auto simp: write_erab_id_def dest!: used_constrained_int)

lemma erabs_to_setup_fits:
  assumes "list_all erab_to_setup_ok es" "length es < 16384" "unat i \<le> 65535" "unat crit \<le> 2"
  shows "ie_fits (map_option (\<lambda>w. (i, crit, into_bytes w)) (write_erabs_to_setup PerWriter_new es)) (3 + 27 * length es)"
  unfolding write_erabs_to_setup_def
  by (rule ie_list_fits [OF erab_to_setup.list_item])
     (use assms used_erab_to_setup in \<open>auto simp: list_all_iff\<close>)

lemma erabs_setup_fits:
  assumes "list_all erab_setup_ok es" "length es < 16384" "unat i \<le> 65535" "unat crit \<le> 2"
  shows "ie_fits (map_option (\<lambda>w. (i, crit, into_bytes w)) (write_erabs_setup PerWriter_new es)) (3 + 18 * length es)"
  unfolding write_erabs_setup_def
  by (rule ie_list_fits [OF erab_setup.list_item])
     (use assms used_erab_setup in \<open>auto simp: list_all_iff\<close>)

lemma erab_ids_fits:
  assumes "list_all (\<lambda>i. unat i \<le> 15) is" "length is < 16384" "unat i \<le> 65535" "unat crit \<le> 2"
  shows "ie_fits (map_option (\<lambda>w. (i, crit, into_bytes w)) (write_erab_ids PerWriter_new is)) (3 + 9 * length is)"
  unfolding write_erab_ids_def
  by (rule ie_list_fits [OF erab_id.list_item])
     (use assms used_erab_id in \<open>auto simp: list_all_iff\<close>)

lemma ambr_fits:
  assumes "fst x \<le> BIT_RATE_MAX" "snd x \<le> BIT_RATE_MAX" "unat i \<le> 65535" "unat crit \<le> 2"
  shows "ie_fits (map_option (\<lambda>w. (i, crit, into_bytes w))
      (Option.bind (write_constrained_int PerWriter_new (fst x) 0 BIT_RATE_MAX)
         (\<lambda>w. write_constrained_int w (snd x) 0 BIT_RATE_MAX))) 18"
proof -
  obtain w1 w2 where w: "write_constrained_int PerWriter_new (fst x) 0 BIT_RATE_MAX = Some w1"
    "write_constrained_int w1 (snd x) 0 BIT_RATE_MAX = Some w2"
    using write_constrained_int_Some assms(1,2) by (metis word_zero_le)
  then show ?thesis
    using used_constrained_int [OF w(1)] used_constrained_int [OF w(2)] assms(3,4)
    by (intro ie_fits_bits [of _ w2 142]) auto
qed

text \<open>Entries that fit one by one make a container that fits.\<close>

lemma those_fits:
  "list_all2 ie_fits ies ns \<Longrightarrow>
   \<exists>es. those ies = Some es \<and> list_all2 (\<lambda>e n. ie_fits (Some e) n) es ns"
proof (induction rule: list_all2_induct)
  case (Cons x xs y ys)
  then obtain e es where "x = Some e" "those xs = Some es" "list_all2 (\<lambda>e n. ie_fits (Some e) n) es ys"
    by (auto simp: ie_fits_def)
  with Cons.hyps show ?case by (intro exI [of _ "e # es"]) simp
qed simp

lemma encode_entries_fits:
  assumes "list_all2 ie_fits ies ns" "(\<Sum>n\<leftarrow>ns. 21 + n) \<le> 16380" "length ns < 16384"
    and "choice \<le> 2" "unat pc \<le> 255" "unat crit \<le> 2"
  shows "\<exists>b. encode_entries choice pc crit ies = Some b"
proof -
  have small: "n < 16384" if "n \<in> set ns" for n
    using assms(2) member_le_sum_list [of "21 + n" "map (\<lambda>n. 21 + n) ns"] that by simp
  obtain es where es: "those ies = Some es" "list_all2 (\<lambda>e n. ie_fits (Some e) n) es ns"
    using those_fits [OF assms(1)] by blast
  have "list_all ie_ok es"
    using es(2) small
    by induction (auto simp: ie_fits_def ie_ok_def s1ap_maxs unat_widen intro: le_less_trans)
  moreover have "(\<Sum>e\<leftarrow>es. ie_size e) \<le> (\<Sum>n\<leftarrow>ns. 21 + n)"
    using es(2) by induction (auto simp: ie_fits_def ie_size_def)
  ultimately show ?thesis
    using es assms(2-6) by (intro encode_entries_Some [of _ es]) (auto dest: list_all2_lengthD)
qed

section \<open>The codec\<close>

text \<open>
  The messages the codec carries: identifiers in their range, arrays of their length, and a
  NAS PDU with E-RAB lists that leave room in the container, whose length determinant ends at
  16383 bytes.
\<close>

fun s1ap_fits :: "S1apMessage \<Rightarrow> bool" where
  "s1ap_fits (MInitialUeMessage m) \<longleftrightarrow> unat (ium_enb_ue_s1ap_id m) \<le> 16777215 \<and> unat (ium_rrc_cause m) \<le> 15 \<and>
     length (ium_tai m) = 5 \<and> length (ium_eutran_cgi m) = 7 \<and> length (ium_nas_pdu m) \<le> 16000"
| "s1ap_fits (MUplinkNasTransport m) \<longleftrightarrow> unat (unt_enb_ue_s1ap_id m) \<le> 16777215 \<and>
     length (unt_tai m) = 5 \<and> length (unt_eutran_cgi m) = 7 \<and> length (unt_nas_pdu m) \<le> 16000"
| "s1ap_fits (MDownlinkNasTransport m) \<longleftrightarrow>
     unat (dnt_enb_ue_s1ap_id m) \<le> 16777215 \<and> length (dnt_nas_pdu m) \<le> 16000"
| "s1ap_fits (MInitialContextSetupRequest m) \<longleftrightarrow> unat (icq_enb_ue_s1ap_id m) \<le> 16777215 \<and>
     fst (icq_ue_ambr m) \<le> 10000000000 \<and> snd (icq_ue_ambr m) \<le> 10000000000 \<and>
     length (icq_security_key m) = 32 \<and> list_all erab_to_setup_ok (icq_e_rabs m) \<and>
     27 * length (icq_e_rabs m) + (case icq_nas_pdu m of Some nas \<Rightarrow> length nas | None \<Rightarrow> 0) \<le> 16000"
| "s1ap_fits (MInitialContextSetupResponse m) \<longleftrightarrow> unat (icp_enb_ue_s1ap_id m) \<le> 16777215 \<and>
     list_all erab_setup_ok (icp_e_rabs_setup m) \<and> list_all (\<lambda>i. unat i \<le> 15) (icp_e_rabs_failed m) \<and>
     18 * length (icp_e_rabs_setup m) + 9 * length (icp_e_rabs_failed m) \<le> 16000"
| "s1ap_fits (MUeContextReleaseCommand mme enb cause) \<longleftrightarrow> unat enb \<le> 16777215"
| "s1ap_fits (MUeContextReleaseComplete m) \<longleftrightarrow> unat (crc_enb_ue_s1ap_id m) \<le> 16777215"
| "s1ap_fits _ \<longleftrightarrow> False"

lemma enb_id_range: "unat (i :: u32) \<le> 16777215 \<Longrightarrow> (ucast i :: u64) \<le> ENB_UE_S1AP_ID_MAX"
  by (simp add: s1ap_maxs unat_widen)

lemma rrc_range: "unat (i :: u8) \<le> 15 \<Longrightarrow> (ucast i :: u64) \<le> RRC_ESTABLISHMENT_CAUSE_MAX"
  by (simp add: s1ap_maxs unat_widen)

lemma mme_id_range: "(ucast (i :: u32) :: u64) \<le> MME_UE_S1AP_ID_MAX"
proof -
  have "unat i < 4294967296" by (rule order_less_le_trans [OF unsigned_less]) simp
  then have "unat i \<le> 4294967295" by linarith
  then show ?thesis by (simp add: s1ap_maxs unat_widen)
qed

lemmas s1ap_field_fits = ie_int_fits [OF enb_id_range] ie_int_fits [OF mme_id_range]
  ie_int_fits [OF rrc_range] ie_int_fits [OF s1ap_cause_back(2)] ie_octet_string_fits ie_octets_fits

lemma initial_ue_encodes:
  assumes "s1ap_fits (MInitialUeMessage m)"
  shows "\<exists>b. encode_initial_ue_message m = Some b"
  unfolding encode_initial_ue_message_def
  by (rule encode_entries_fits [where ns = "[9, 3 + length (ium_nas_pdu m), 5, 7, 9]"])
     (use assms ie_octets_fits [of _ _ "ium_tai m"] ie_octets_fits [of _ _ "ium_eutran_cgi m"] in
       \<open>simp_all add: s1ap_field_fits s1ap_ids s1ap_crits s1ap_procs\<close>)


lemma uplink_nas_encodes:
  assumes "s1ap_fits (MUplinkNasTransport m)"
  shows "\<exists>b. encode_uplink_nas_transport m = Some b"
  unfolding encode_uplink_nas_transport_def
  by (rule encode_entries_fits [where ns = "[9, 9, 3 + length (unt_nas_pdu m), 5, 7]"])
     (use assms ie_octets_fits [of _ _ "unt_tai m"] ie_octets_fits [of _ _ "unt_eutran_cgi m"] in
       \<open>simp_all add: s1ap_field_fits s1ap_ids s1ap_crits s1ap_procs\<close>)

lemma downlink_nas_encodes:
  assumes "s1ap_fits (MDownlinkNasTransport m)"
  shows "\<exists>b. encode_downlink_nas_transport m = Some b"
  unfolding encode_downlink_nas_transport_def
  by (rule encode_entries_fits [where ns = "[9, 9, 3 + length (dnt_nas_pdu m)]"])
     (use assms in \<open>simp_all add: s1ap_field_fits s1ap_ids s1ap_crits s1ap_procs\<close>)

lemma release_encodes:
  assumes "unat enb \<le> 16777215"
  shows "\<exists>b. encode_ue_context_release_command mme enb c = Some b"
    and "unat (crc_enb_ue_s1ap_id m) \<le> 16777215 \<Longrightarrow> \<exists>b. encode_ue_context_release_complete m = Some b"
  unfolding encode_ue_context_release_command_def encode_ue_context_release_complete_def
  by (rule encode_entries_fits [where ns = "[9, 9, 9]"] encode_entries_fits [where ns = "[9, 9]"];
      use assms in \<open>simp add: s1ap_field_fits s1ap_ids s1ap_crits s1ap_procs\<close>)+

lemma context_setup_request_encodes:
  assumes "s1ap_fits (MInitialContextSetupRequest m)"
  shows "\<exists>b. encode_initial_context_setup_request m = Some b"
  unfolding encode_initial_context_setup_request_def
proof (rule encode_entries_fits [where ns = "[9, 9, 18, 32] @
        (if icq_e_rabs m \<noteq> [] then [3 + 27 * length (icq_e_rabs m)] else []) @
        (case icq_nas_pdu m of Some nas \<Rightarrow> [3 + length nas] | None \<Rightarrow> [])"], goal_cases)
  case 1
  have "fst (icq_ue_ambr m) \<le> BIT_RATE_MAX" "snd (icq_ue_ambr m) \<le> BIT_RATE_MAX"
    using assms by (simp_all add: BIT_RATE_MAX_def)
  then show ?case
    using assms ie_octets_fits [of _ _ "icq_security_key m"]
    by (auto simp: s1ap_field_fits ambr_fits erabs_to_setup_fits s1ap_ids s1ap_crits
        split: option.splits)
qed (use assms in \<open>auto simp: s1ap_procs s1ap_crits split: option.splits\<close>)

lemma context_setup_response_encodes:
  assumes "s1ap_fits (MInitialContextSetupResponse m)"
  shows "\<exists>b. encode_initial_context_setup_response m = Some b"
  unfolding encode_initial_context_setup_response_def
proof (rule encode_entries_fits [where ns = "[9, 9] @
        (if icp_e_rabs_setup m \<noteq> [] then [3 + 18 * length (icp_e_rabs_setup m)] else []) @
        (if icp_e_rabs_failed m \<noteq> [] then [3 + 9 * length (icp_e_rabs_failed m)] else [])"], goal_cases)
  case 1
  show ?case
    using assms by (auto simp: s1ap_field_fits erabs_setup_fits erab_ids_fits s1ap_ids s1ap_crits)
qed (use assms in \<open>auto simp: s1ap_procs s1ap_crits\<close>)

lemma s1ap_fits_encodes:
  assumes "s1ap_fits m"
  shows "\<exists>b. encode_s1ap_pdu m = Some (Inr b)"
  using assms initial_ue_encodes uplink_nas_encodes downlink_nas_encodes context_setup_request_encodes
    context_setup_response_encodes release_encodes
  by (cases m) (fastforce simp: encode_s1ap_pdu_def simp del: s1ap_fits.simps dest: s1ap_fits.simps [THEN iffD1])+

lemma s1ap_fits_roundtrip:
  assumes "s1ap_fits m"
  shows "\<exists>b. encode_s1ap_pdu m = Some (Inr b) \<and> decode_s1ap_pdu b = Inr m"
proof (cases m)
  case (MInitialUeMessage x)
  with assms initial_ue_encodes [of x] initial_ue_back [of x] show ?thesis
    by (auto simp: encode_s1ap_pdu_def)
next
  case (MUplinkNasTransport x)
  with assms uplink_nas_encodes [of x] uplink_nas_back [of x] show ?thesis
    by (auto simp: encode_s1ap_pdu_def)
next
  case (MDownlinkNasTransport x)
  with assms downlink_nas_encodes [of x] downlink_nas_back [of x] show ?thesis
    by (auto simp: encode_s1ap_pdu_def)
next
  case (MInitialContextSetupRequest x)
  with assms context_setup_request_encodes [of x] context_setup_request_back [of x] show ?thesis
    by (auto simp: encode_s1ap_pdu_def)
next
  case (MInitialContextSetupResponse x)
  with assms context_setup_response_encodes [of x] context_setup_response_back [of x] show ?thesis
    by (auto simp: encode_s1ap_pdu_def)
next
  case (MUeContextReleaseCommand mme enb c)
  with assms release_encodes(1) [of enb mme c] release_command_back [of mme enb c] show ?thesis
    by (auto simp: encode_s1ap_pdu_def)
next
  case (MUeContextReleaseComplete x)
  with assms release_encodes(2) [of 0 x] release_complete_back [of x] show ?thesis
    by (auto simp: encode_s1ap_pdu_def)
qed (use assms in auto)

text \<open>
  C18. For every S1AP message the codec supports whose fields are in range, encoding does not
  panic and decoding the bytes returns the message.
\<close>

theorem decode_s1ap_pdu_encode:
  assumes "s1ap_fits m"
  shows "\<exists>b. encode_s1ap_pdu m = Some (Inr b) \<and> decode_s1ap_pdu b = Inr m"
  using assms by (rule s1ap_fits_roundtrip)

lemma decode_s1ap_pdu_encode_witness:
  "s1ap_fits (MInitialContextSetupRequest
      \<lparr>icq_mme_ue_s1ap_id = 7, icq_enb_ue_s1ap_id = 9,
       icq_e_rabs = [\<lparr>ets_erab_id = 5, ets_qci = 9, ets_gtp_teid = [0, 0, 0, 1],
                      ets_transport_layer_addr = [10, 0, 0, 1]\<rparr>],
       icq_nas_pdu = Some [7, 66], icq_ue_ambr = (1000, 2000), icq_security_key = replicate 32 3\<rparr>) \<and>
   (\<exists>b. encode_s1ap_pdu (MInitialContextSetupRequest
      \<lparr>icq_mme_ue_s1ap_id = 7, icq_enb_ue_s1ap_id = 9,
       icq_e_rabs = [\<lparr>ets_erab_id = 5, ets_qci = 9, ets_gtp_teid = [0, 0, 0, 1],
                      ets_transport_layer_addr = [10, 0, 0, 1]\<rparr>],
       icq_nas_pdu = Some [7, 66], icq_ue_ambr = (1000, 2000), icq_security_key = replicate 32 3\<rparr>)
       = Some (Inr b) \<and>
     decode_s1ap_pdu b = Inr (MInitialContextSetupRequest
      \<lparr>icq_mme_ue_s1ap_id = 7, icq_enb_ue_s1ap_id = 9,
       icq_e_rabs = [\<lparr>ets_erab_id = 5, ets_qci = 9, ets_gtp_teid = [0, 0, 0, 1],
                      ets_transport_layer_addr = [10, 0, 0, 1]\<rparr>],
       icq_nas_pdu = Some [7, 66], icq_ue_ambr = (1000, 2000), icq_security_key = replicate 32 3\<rparr>))"
  (is "?ok \<and> ?ex")
proof
  show ?ok by (simp add: erab_to_setup_ok_def)
  then show ?ex by (rule decode_s1ap_pdu_encode)
qed

end
