(* ===== verification/Mme_Node.thy ===== *)
theory Mme_Node
  imports Mme_Attach Upf_Sessions S1ap_Roundtrip
begin

text \<open>
  The LTE core as one node: the MME and the user plane together, as the message loop of
  \<open>crates/mme-sim/src/main.rs\<close> connects them. A PDU from the eNodeB is decoded, processed, its
  user-plane events are applied to the session manager and the responses are encoded. The
  theory shows that the two components stay linked: a subscriber's tunnel always has its
  session, under its own TEID and entity, whatever the eNodeB sends.
\<close>

section \<open>The node\<close>

fun apply_upf_event :: "aya \<Rightarrow> SessionManager \<Rightarrow> UpfEvent \<Rightarrow> SessionManager" where
  "apply_upf_event ay sm (CreateSession ul_teid entity_id imsi ue_ip enb_addr qci) =
     create_session_with_teid ay sm ul_teid entity_id imsi ue_ip enb_addr qci"
| "apply_upf_event ay sm (UpdateBearer ul_teid dl_teid enb_addr) =
     snd (update_bearer_info ay sm ul_teid dl_teid enb_addr)"
| "apply_upf_event ay sm (RemoveSession ul_teid) = snd (remove_session ay sm ul_teid)"

text \<open>
  One turn of the loop: a PDU that does not decode is skipped; \<open>None\<close> is a panic; an encoding
  error ends the loop, the left summand.
\<close>

fun encode_all :: "S1apMessage list \<Rightarrow> bytes list result option" where
  "encode_all [] = Some (Inr [])"
| "encode_all (m # ms) =
     (case encode_s1ap_pdu m of
        None \<Rightarrow> None
      | Some (Inl e) \<Rightarrow> Some (Inl e)
      | Some (Inr b) \<Rightarrow> map_option (\<lambda>r. bind_res r (\<lambda>bs. Inr (b # bs))) (encode_all ms))"

definition node_turn ::
    "crypto \<Rightarrow> aya \<Rightarrow> bytes \<Rightarrow> Mme \<times> SessionManager \<Rightarrow> bytes \<Rightarrow>
     (bytes list \<times> Mme \<times> SessionManager) result option" where
  "node_turn cr ay rand st pdu =
     (case decode_s1ap_pdu pdu of
        Inl _ \<Rightarrow> Some (Inr ([], st))
      | Inr msg \<Rightarrow>
          Option.bind (process_s1ap cr rand (fst st) msg) (\<lambda>((responses, events), mme).
            let sm = foldl (apply_upf_event ay) (snd st) events in
            map_option (\<lambda>r. bind_res r (\<lambda>outs. Inr (outs, mme, sm))) (encode_all responses)))"

section \<open>What a message does to the tunnels\<close>

text \<open>
  A step of the MME, as the user plane sees it: it leaves every tunnel alone, or gives an
  entity a fresh TEID and announces it, or confirms a bearer, or ends a tunnel and announces
  that.
\<close>

inductive tunnel_step :: "TeidAllocator \<Rightarrow> World \<Rightarrow> UpfEvent list \<Rightarrow> World \<Rightarrow> bool" where
  quiet: "teid_of w' = teid_of w \<Longrightarrow> tunnel_step a w [] w'"
| opened: "t \<notin> teid_used a \<Longrightarrow> teid_of w' = (teid_of w)(i := Some t) \<Longrightarrow>
    tunnel_step a w [CreateSession t i imsi ip enb qci] w'"
| confirmed: "teid_of w' = teid_of w \<Longrightarrow> tunnel_step a w [UpdateBearer t dl enb] w'"
| closed: "teid_of w i = Some t \<Longrightarrow> teid_of w' = (teid_of w)(i := None) \<Longrightarrow>
    tunnel_step a w [RemoveSession t] w'"

inductive_cases tunnel_step_cases: "tunnel_step a w evts w'"

lemma keeps_quiet: "keeps_tunnels w w' \<Longrightarrow> tunnel_step a w [] w'"
  by (simp add: keeps_tunnels_def quiet)

lemma security_mode_complete_step:
  assumes wf: "world_wf w" and a: "teid_inv a" "teid_room a"
    and res: "handle_security_mode_complete cr w enb i upf a = ((out, evts), w', a')"
  shows "tunnel_step a w evts w'"
proof -
  obtain t b where al: "teid_alloc a = (t, b)" by (cases "teid_alloc a")
  have fresh: "t \<notin> teid_used a" using teid_ids.alloc_fresh(1) [OF a] al by auto
  have k1: "keeps_tunnels w (set_nas_security (security_mut w i f) i c)" for f c
    using wf by (meson keeps_tunnels_def keeps_tunnels_trans setters_keep_tunnels(4,5))
  have live: "abs_world w i \<noteq> None" if "identity w i = Some x" for x
    using that wf by (auto simp: ecs_abs)
  let ?w = "\<lambda>f c. set_tunnel (set_nas_security (security_mut w i f) i c) i
    \<lparr>tc_ul_teid = t, tc_dl_teid = 0, tc_enb_addr = replicate 4 0\<rparr>"
  have k2: "teid_of (?w f c) = (teid_of w)(i := Some t)" if "identity w i = Some x" for f c x
    using live [OF that] k1 [of f c] wf by (auto simp: teid_of_set_tunnel keeps_tunnels_def ecs_wf ecs_abs)
  show ?thesis
    using res fresh k1 k2 al keeps_quiet unfolding handle_security_mode_complete_def Let_def
    by (auto intro: opened quiet split: option.splits prod.splits)
qed


lemma dispatch_step:
  assumes inv: "mme_inv n m" and n: "n < 4294967296 - 0x10000 - 1"
    and res: "dispatch_nas cr m enb i p = ((out, evts), m')"
  shows "tunnel_step (m_teids m) (m_world m) evts (m_world m')"
proof -
  have wf: "world_wf (m_world m)" using inv by (rule mme_inv_wf)
  have a: "teid_inv (m_teids m)" "teid_room (m_teids m)" using inv n by (auto simp: mme_inv_def teid_room_def)
  have evts: "snd (fst (handle_auth_response (m_world m) enb i p)) = []"
    by (simp add: handle_auth_response_def Let_def split: sum.splits NasPdu.splits option.splits)
  show ?thesis
    using res evts handle_auth_response_keeps [OF wf, of enb i p]
      handle_detach_request_keeps [OF wf, of cr enb i p] security_mode_complete_step [OF wf a]
    unfolding dispatch_nas_def
    by (auto simp: handle_attach_complete_def intro: keeps_quiet quiet
        split: sum.splits NasPdu.splits prod.splits)
qed

lemma uplink_step:
  assumes inv: "mme_inv n m" and n: "n < 4294967296 - 0x10000 - 1"
    and res: "handle_uplink_nas cr m enb i pdu = ((out, evts), m')"
  shows "tunnel_step (m_teids m) (m_world m) evts (m_world m')"
proof -
  obtain plain w where u: "unwrap_uplink cr (m_world m) i pdu = (plain, w)" by fastforce
  then have k: "keeps_tunnels (m_world m) w"
    using unwrap_uplink_keeps [OF mme_inv_wf [OF inv], of cr i pdu] by simp
  then have inv': "mme_inv n (m\<lparr>m_world := w\<rparr>)" by (rule mme_inv_keepsD [OF inv])
  have t: "teid_of w = teid_of (m_world m)" using k by (simp add: keeps_tunnels_def)
  show ?thesis
  proof (cases plain)
    case None
    with res u t show ?thesis by (auto simp: handle_uplink_nas_def intro: quiet)
  next
    case (Some p)
    with res u have "dispatch_nas cr (m\<lparr>m_world := w\<rparr>) enb i p = ((out, evts), m')"
      by (simp add: handle_uplink_nas_def)
    then have "tunnel_step (m_teids m) w evts (m_world m')" using dispatch_step [OF inv' n] by fastforce
    then show ?thesis using t by (cases rule: tunnel_step.cases) (auto intro: tunnel_step.intros)
  qed
qed

lemma process_s1ap_step:
  assumes inv: "mme_inv n m" and n: "n < 4294967296 - 0x10000 - 1"
    and res: "process_s1ap cr rand m msg = Some ((out, evts), m')"
  shows "tunnel_step (m_teids m) (m_world m) evts (m_world m')"
proof (cases msg)
  case (MInitialUeMessage u)
  have "unat (next_id (m_world m)) + 1 < 4294967296" using inv n by (simp add: mme_inv_def)
  then obtain o' w' reg' hss' where
    s: "start_attach cr rand (m_world m) (m_registry m) (m_hss m) (ium_enb_ue_s1ap_id u) (ium_nas_pdu u)
       (ium_tai u) = Some (o', w', reg', hss')" "teid_of w' = teid_of (m_world m)"
    using start_attach_keeps [OF mme_inv_wf [OF inv]] by metis
  have "snd o' = []"
    using s(1) by (auto simp: start_attach_def Let_def split: sum.splits NasPdu.splits option.splits prod.splits)
  with MInitialUeMessage res s show ?thesis by (auto simp: process_s1ap_def intro: quiet)
next
  case (MUplinkNasTransport u)
  with res show ?thesis using uplink_step [OF inv n] by (auto simp: process_s1ap_def)
next
  case (MInitialContextSetupResponse r)
  have "teid_of (tunnel_mut (m_world m) i (\<lambda>t. t\<lparr>tc_dl_teid := d, tc_enb_addr := e\<rparr>)) = teid_of (m_world m)"
    for i d e by (rule teid_of_tunnel_mut [OF mme_inv_wf [OF inv]]) simp
  with MInitialContextSetupResponse res show ?thesis
    by (auto simp: process_s1ap_def handle_icsrsp_def Let_def intro: quiet confirmed
        split: list.splits option.splits)
next
  case (MUeContextReleaseComplete r)
  let ?i = "crc_mme_ue_s1ap_id r"
  have wf: "world_wf (m_world m)" by (rule mme_inv_wf [OF inv])
  have td: "teid_of (despawn (m_world m) ?i) = (teid_of (m_world m))(?i := None)" by (rule teid_of_despawn [OF wf])
  have tun: "map_option tc_ul_teid (tunnel (m_world m) ?i) = teid_of (m_world m) ?i"
    by (simp add: ecs_abs wf teid_of_def map_option_bind comp_def)
  show ?thesis
  proof (cases "teid_of (m_world m) ?i")
    case None
    with tun have "tunnel (m_world m) ?i = None" by (metis map_option_is_None)
    with None td MUeContextReleaseComplete res show ?thesis
      by (auto simp: process_s1ap_def handle_release_complete_def Let_def intro!: quiet split: option.splits)
  next
    case (Some t)
    with tun obtain tu where "tunnel (m_world m) ?i = Some tu" "tc_ul_teid tu = t" by auto
    with Some td MUeContextReleaseComplete res show ?thesis
      by (auto simp: process_s1ap_def handle_release_complete_def Let_def intro!: closed split: option.splits)
  qed
qed (use res in \<open>auto simp: process_s1ap_def intro: quiet\<close>)


section \<open>The node stays linked\<close>

text \<open>
  The session manager's records and routes are always about the same TEIDs, each session under
  its own, and every tunnel of a subscriber has its session.
\<close>

definition sm_agree :: "SessionManager \<Rightarrow> bool" where
  "sm_agree sm \<longleftrightarrow> (\<forall>t. rel_option (session_of t) (ul_map (sm_routing sm) t) (sm_sessions sm t))"

definition linked :: "World \<Rightarrow> SessionManager \<Rightarrow> bool" where
  "linked w sm \<longleftrightarrow> (\<forall>i t. teid_of w i = Some t \<longrightarrow>
     (\<exists>s e. sm_sessions sm t = Some s \<and> ups_entity_id s = i \<and> lookup_ul (sm_routing sm) t = Some e))"

lemma sm_agree_new [simp]: "sm_agree SessionManager_new"
  by (simp add: sm_agree_def SessionManager_new_def RoutingTable_new_def)

lemma event_maps:
  "ul_map (sm_routing (apply_upf_event ay sm e)) =
     (case e of
        CreateSession t i imsi ip enb qci \<Rightarrow> (ul_map (sm_routing sm))(t \<mapsto> RouteEntry_new ip 0 enb qci)
      | UpdateBearer t dl enb \<Rightarrow> spec_update (ul_map (sm_routing sm)) t dl enb
      | RemoveSession t \<Rightarrow> (ul_map (sm_routing sm))(t := None))"
  by (cases e; cases "sm_bpf sm")
     (auto simp: create_session_with_teid_def sm_install_def update_bearer_info_def remove_session_def
       lookup_ul_def spec_update_def Let_def fun_upd_idem split: option.splits)

lemma event_sessions:
  "sm_sessions (apply_upf_event ay sm e) =
     (case e of
        CreateSession t i imsi ip enb qci \<Rightarrow> (sm_sessions sm)(t \<mapsto>
          \<lparr>ups_entity_id = i, ups_imsi = imsi, ups_ul_teid = t, ups_dl_teid = 0, ups_ue_ip = ip,
           ups_enb_addr = enb, ups_active = True, ups_bytes_ul = 0, ups_bytes_dl = 0\<rparr>)
      | UpdateBearer t dl enb \<Rightarrow>
          (case (lookup_ul (sm_routing sm) t, sm_sessions sm t) of
             (Some _, Some s) \<Rightarrow> (sm_sessions sm)(t \<mapsto> s\<lparr>ups_dl_teid := dl, ups_enb_addr := enb\<rparr>)
           | _ \<Rightarrow> sm_sessions sm)
      | RemoveSession t \<Rightarrow> (sm_sessions sm)(t := None))"
  by (cases e; cases "sm_bpf sm")
     (auto simp: create_session_with_teid_def sm_install_def update_bearer_info_def remove_session_def
       Let_def split: option.splits)

declare apply_upf_event.simps [simp del]

lemma sm_agree_event:
  assumes "sm_agree sm"
  shows "sm_agree (apply_upf_event ay sm e)"
proof -
  have r: "rel_option (session_of t) (ul_map (sm_routing sm) t) (sm_sessions sm t)" for t
    using assms by (simp add: sm_agree_def)
  show ?thesis
  proof (cases e)
    case (UpdateBearer t dl enb)
    then show ?thesis
      using r r [of t] unfolding sm_agree_def event_maps event_sessions
      by (cases "ul_map (sm_routing sm) t"; cases "sm_sessions sm t")
         (auto simp: lookup_ul_def spec_update_def session_of_def RouteEntry_new_def)
  qed (use r in \<open>auto simp: sm_agree_def event_maps event_sessions session_of_def RouteEntry_new_def\<close>)
qed

lemma linked_step:
  assumes "tunnel_step a w evts w'" "tunnels_ok w a" "linked w sm"
  shows "linked w' (foldl (apply_upf_event ay) sm evts)"
  using assms(1)
proof (cases rule: tunnel_step.cases)
  case quiet
  with assms(3) show ?thesis by (simp add: linked_def)
next
  case (opened t i imsi ip enb qci)
  have "teid_of w j \<noteq> Some t" for j using opened(2) assms(2) by (auto simp: tunnels_ok_def)
  with opened assms(3) show ?thesis
    by (auto simp: linked_def event_maps event_sessions lookup_ul_def split: if_splits)
next
  case (confirmed t dl enb)
  have keep: "\<exists>s' e'. sm_sessions (apply_upf_event ay sm (UpdateBearer t dl enb)) t' = Some s' \<and>
      ups_entity_id s' = ups_entity_id s \<and>
      lookup_ul (sm_routing (apply_upf_event ay sm (UpdateBearer t dl enb))) t' = Some e'"
    if "sm_sessions sm t' = Some s" "lookup_ul (sm_routing sm) t' = Some e" for t' s e
    using that by (cases "t' = t")
      (auto simp: event_maps event_sessions lookup_ul_def spec_update_def split: option.splits)
  show ?thesis unfolding linked_def
  proof (intro allI impI)
    fix i t' assume "teid_of w' i = Some t'"
    then obtain s e where "sm_sessions sm t' = Some s" "ups_entity_id s = i" "lookup_ul (sm_routing sm) t' = Some e"
      using confirmed(2) assms(3) unfolding linked_def by metis
    with keep [of t' s e] confirmed(1)
    show "\<exists>s e. sm_sessions (foldl (apply_upf_event ay) sm evts) t' = Some s \<and> ups_entity_id s = i \<and>
        lookup_ul (sm_routing (foldl (apply_upf_event ay) sm evts)) t' = Some e" by simp
  qed
next
  case (closed i t)
  show ?thesis unfolding linked_def
  proof (intro allI impI)
    fix j t' assume j: "teid_of w' j = Some t'"
    then have "j \<noteq> i" "teid_of w j = Some t'" using closed(3) by (auto split: if_splits)
    moreover from this have "t' \<noteq> t" using closed(2) assms(2) unfolding tunnels_ok_def by blast
    ultimately show "\<exists>s e. sm_sessions (foldl (apply_upf_event ay) sm evts) t' = Some s \<and> ups_entity_id s = j \<and>
        lookup_ul (sm_routing (foldl (apply_upf_event ay) sm evts)) t' = Some e"
      using closed(1) assms(3) by (simp add: linked_def event_maps event_sessions lookup_ul_def)
  qed
qed

section \<open>The node answers every PDU\<close>

text \<open>The addresses the MME knows: no subscriber has one of its own.\<close>

definition ip_zero :: "World \<Rightarrow> bool" where
  "ip_zero w \<longleftrightarrow> (\<forall>i x. identity w i = Some x \<longrightarrow> id_ue_ip x = replicate 4 0)"

lemma identity_setters [simp]:
  assumes "world_wf w"
  shows "identity (set_auth_state w i x2) = identity w" "identity (insert_security w i x3) = identity w"
    "identity (security_mut w i f3) = identity w" "identity (set_nas_security w i x4) = identity w"
    "identity (nas_security_mut w i f4) = identity w" "identity (set_tunnel w i x7) = identity w"
    "identity (tunnel_mut w i f7) = identity w"
  using assms by (auto simp: fun_eq_iff ecs_abs ecs_wf option.map_comp comp_def)

lemma identity_insert:
  "world_wf w \<Longrightarrow> identity (insert_identity w i x) = (if abs_world w i = None then identity w else (identity w)(i \<mapsto> x))"
  by (auto simp: fun_eq_iff ecs_abs ecs_wf)

lemma identity_despawn: "world_wf w \<Longrightarrow> identity (despawn w i) = (identity w)(i := None)"
  by (auto simp: fun_eq_iff ecs_abs ecs_wf)

lemma unwrap_identity: "world_wf w \<Longrightarrow> identity (snd (unwrap_uplink cr w i pdu)) = identity w"
  by (auto simp: unwrap_uplink_def Let_def split: option.splits prod.splits)

lemma auth_response_identity:
  "world_wf w \<Longrightarrow> identity (snd (handle_auth_response w enb i pdu)) = identity w"
  by (simp add: handle_auth_response_def Let_def ecs_wf split: sum.splits NasPdu.splits option.splits)

lemma security_mode_identity:
  "world_wf w \<Longrightarrow> identity (fst (snd (handle_security_mode_complete cr w enb i upf a))) = identity w"
  by (simp add: handle_security_mode_complete_def Let_def ecs_wf split: option.splits prod.splits)

lemma detach_identity:
  "world_wf w \<Longrightarrow> identity (snd (handle_detach_request cr w enb i pdu)) = identity w"
  by (simp add: handle_detach_request_def Let_def ecs_wf split: sum.splits NasPdu.splits option.splits prod.splits)

lemma dispatch_identity:
  "world_wf (m_world m) \<Longrightarrow> identity (m_world (snd (dispatch_nas cr m enb i p))) = identity (m_world m)"
  using auth_response_identity [of "m_world m" enb i p] detach_identity [of "m_world m" cr enb i p]
    security_mode_identity [of "m_world m" cr enb i "m_phase3_upf m" "m_teids m"]
  by (auto simp: dispatch_nas_def handle_attach_complete_def split: sum.splits NasPdu.splits prod.splits)

lemma uplink_identity:
  assumes "world_wf (m_world m)"
  shows "identity (m_world (snd (handle_uplink_nas cr m enb i pdu))) = identity (m_world m)"
proof -
  obtain plain w where u: "unwrap_uplink cr (m_world m) i pdu = (plain, w)" by fastforce
  then have "identity w = identity (m_world m)" "world_wf w"
    using unwrap_identity [OF assms, of cr i pdu] unwrap_uplink_keeps [OF assms, of cr i pdu]
    by (simp_all add: keeps_tunnels_def)
  then show ?thesis
    using u dispatch_identity [of "m\<lparr>m_world := w\<rparr>" cr enb i]
    by (simp add: handle_uplink_nas_def Let_def split: option.splits)
qed

lemma start_attach_ip_zero:
  assumes wf: "world_wf w" and "ip_zero w" and room: "unat (next_id w) + 1 < 4294967296"
    and s: "start_attach cr rand w reg hss enb pdu tai = Some (out, w', reg', hss')"
  shows "ip_zero w'"
proof -
  obtain e w1 where sp: "spawn w = Some (e, w1)" "world_wf w1" "abs_world w e = None"
    "abs_world w1 = (abs_world w)(e \<mapsto> empty_entity)"
    using spawn_abs [OF wf room] by blast
  have "identity w1 = (identity w)(e \<mapsto> e_identity empty_entity)"
    using sp(2,4) wf by (auto simp: fun_eq_iff ecs_abs)
  then have "ip_zero (set_auth_state (insert_security (insert_identity w1 e
      \<lparr>id_imsi = a, id_enb_ue_s1ap_id = b, id_ue_ip = replicate 4 0\<rparr>) e y) e ChallengeIssued)" for a b y
    using sp(2,4) assms(2) by (auto simp: ip_zero_def ecs_wf identity_insert)
  then show ?thesis
    using s sp(1) assms(2) unfolding start_attach_def Let_def
    by (auto split: sum.splits NasPdu.splits option.splits prod.splits)
qed

lemma process_s1ap_ip_zero:
  assumes inv: "mme_inv n m" and n: "n < 4294967296 - 0x10000 - 1" and z: "ip_zero (m_world m)"
    and res: "process_s1ap cr rand m msg = Some (out, m')"
  shows "ip_zero (m_world m')"
proof -
  have wf: "world_wf (m_world m)" by (rule mme_inv_wf [OF inv])
  have room: "unat (next_id (m_world m)) + 1 < 4294967296" using inv n by (simp add: mme_inv_def)
  show ?thesis
  proof (cases msg)
    case (MInitialUeMessage u)
    with res start_attach_ip_zero [OF wf z room] show ?thesis by (fastforce simp: process_s1ap_def)
  next
    case (MUplinkNasTransport u)
    with res z uplink_identity [OF wf] show ?thesis
      by (auto simp: process_s1ap_def ip_zero_def) (metis snd_conv)
  next
    case (MInitialContextSetupResponse r)
    with res z wf show ?thesis
      by (auto simp: process_s1ap_def handle_icsrsp_def Let_def ip_zero_def split: list.splits option.splits)
  next
    case (MUeContextReleaseComplete r)
    with res z wf show ?thesis
      by (auto simp: process_s1ap_def handle_release_complete_def Let_def ip_zero_def identity_despawn
          split: option.splits if_splits)
  qed (use res z in \<open>auto simp: process_s1ap_def\<close>)
qed


text \<open>The MME's answers are small, so the encoder never panics on them.\<close>

lemma length_encode_protected:
  "encode_protected cr sht bearer c p = (x, c') \<Longrightarrow> ctr_stream cr \<Longrightarrow> length x \<le> 6 + length p"
  by (auto simp: encode_protected_def protect_downlink_def nas_envelope_def nas_protect_def Let_def
      eea2_apply_def eia2_compute_mac_def ctr_stream_length)

lemma length_auth_request:
  "length (encode_auth_request k rand tok) = 5 + length rand + length tok"
  by (simp add: encode_auth_request_def write_lv_def)

lemma start_attach_fits:
  assumes "aes_len cr" "hss_wf hss" "length rand = 16" "unat enb \<le> 16777215"
    and s: "start_attach cr rand w reg hss enb pdu tai = Some (out, w', reg', hss')"
  shows "list_all s1ap_fits (fst out)"
proof -
  have tok: "length (autn (milenage_compute cr (sr_ctx sub) rand (Sqn_to_bytes q) [0x80, 0x00]) (Sqn_to_bytes q) MME_AMF) \<le> 16"
    if "hss imsi = Some sub" for imsi sub q
    using that assms(1-3) length_milenage_compute [of cr rand "sr_ctx sub" "Sqn_to_bytes q" "[0x80, 0x00]"]
    by (simp add: autn_def MME_AMF_def hss_wf_def)
  show ?thesis
  proof (cases "fst out = []")
    case False
    then obtain inner imsi sub e w1 where r: "decode_nas pdu = Inr (AttachRequest inner)" "ar_imsi inner = Some imsi"
        "hss imsi = Some sub" "spawn w = Some (e, w1)"
      using s by (auto simp: start_attach_def Let_def generate_auth_vector_def
          split: sum.splits NasPdu.splits option.splits prod.splits)
    with s tok [OF r(3), of "sr_sqn sub"] assms(3,4) show ?thesis
      by (auto simp: start_attach_def Let_def generate_auth_vector_Some [of hss imsi sub, OF r(3)] length_auth_request)
  qed simp
qed

lemma uplink_fits:
  assumes cr: "ctr_stream cr" "hmac_len cr" and z: "ip_zero (m_world m)" and wf: "world_wf (m_world m)"
    and upf: "\<And>a. m_phase3_upf m = Some a \<Longrightarrow> length a = 4" and enb: "unat enb \<le> 16777215"
  shows "list_all s1ap_fits (fst (fst (dispatch_nas cr m enb i p)))"
proof -
  have auth: "list_all s1ap_fits (fst (fst (handle_auth_response w enb i p)))" for w
    using enb by (simp add: handle_auth_response_def Let_def encode_sec_mode_cmd_def write_lv_def
        split: sum.splits NasPdu.splits option.splits)
  have det: "list_all s1ap_fits (fst (handle_detach_request cr w enb i p))" for w
    using enb cr(1) length_encode_protected [of cr SHT_INTEGRITY_CIPHERED NAS_BEARER _ encode_detach_accept]
    by (fastforce simp: handle_detach_request_def Let_def encode_detach_accept_def
        split: sum.splits NasPdu.splits option.splits prod.splits if_splits)
  have acc: "length (encode_attach_accept 1 0x54 [] (Some (replicate 4 0)) None) = 12"
    by (simp add: encode_attach_accept_def write_lv_def write_tlv_def)
  have smc: "list_all s1ap_fits (fst (fst (handle_security_mode_complete cr (m_world m) enb i (m_phase3_upf m) a)))" for a
  proof (cases "identity (m_world m) i")
    case (Some x)
    then have x: "id_ue_ip x = replicate 4 0" using z by (auto simp: ip_zero_def)
    have l: "length y \<le> 18" if "encode_protected cr SHT_INTEGRITY_CIPHERED NAS_BEARER c
        (encode_attach_accept 1 0x54 [] (Some (replicate 4 0)) None) = (y, c')" for c y c'
      using length_encode_protected [OF that cr(1)] acc by simp
    have k: "length (derive_kasme cr a b c d) = 32" for a b c d
      using length_kdf_generic [OF cr(2)] by (simp add: derive_kasme_def)
    show ?thesis
      using Some x k enb upf
      by (auto simp: handle_security_mode_complete_def Let_def erab_to_setup_ok_def
          split: option.splits prod.splits dest!: l)
  qed (simp add: handle_security_mode_complete_def)
  show ?thesis
    using auth det smc [of "m_teids m"]
    by (auto simp: dispatch_nas_def handle_attach_complete_def
        split: sum.splits NasPdu.splits prod.splits) (metis fst_conv)+
qed


text \<open>The eNodeB's identifier in a decoded PDU has 24 bits.\<close>

lemma read_bits_loop_high:
  "read_bits_loop n v r = Some (x, r') \<Longrightarrow> (\<And>j. k \<le> j \<Longrightarrow> \<not> bit v j) \<Longrightarrow> n + k \<le> j \<Longrightarrow> \<not> bit x j"
proof (induction n arbitrary: v r k)
  case (Suc n)
  from Suc.prems(1) obtain b r1 where
    "read_bits_loop n (push_bit 1 v OR of_bool b) r1 = Some (x, r')" by (auto simp: bind_eq_Some_conv)
  moreover have "\<not> bit (push_bit 1 v OR of_bool b) j" if "Suc k \<le> j" for j
    using that Suc.prems(2) [of "j - 1"]
    by (simp only: bit_or_iff bit_push_bit_iff bit_of_bool_iff) auto
  ultimately show ?case using Suc.IH [of "push_bit 1 v OR of_bool b" r1 "Suc k"] Suc.prems(3) by simp
qed auto

lemma read_bits_less: "read_bits r n = Some (x, r') \<Longrightarrow> n \<le> 64 \<Longrightarrow> unat x < 2 ^ n"
proof -
  assume a: "read_bits r n = Some (x, r')" "n \<le> 64"
  then have "take_bit n x = x"
    using read_bits_loop_high [of n 0 r x r' 0]
    by (intro bit_word_eqI) (auto simp: read_bits_def bit_take_bit_iff not_less [symmetric])
  then show "unat x < 2 ^ n" by (metis take_bit_nat_less_exp unsigned_take_bit_eq)
qed

lemma get_enb_id_bound:
  assumes "get_int ENB_UE_S1AP_ID_MAX val = Some v"
  shows "unat (ucast v :: u32) \<le> 16777215"
proof -
  have b: "bits_for_range 16777216 = 24" by code_simp
  have "\<not> (16777216 :: u64) \<le> 1" by (simp add: word_le_nat_alt)
  then have "read_constrained_int (PerReader_new val) 0 ENB_UE_S1AP_ID_MAX =
      Option.bind (read_bits (read_align (PerReader_new val)) 24) (\<lambda>(v, r). Some (0 + v, r))"
    by (simp add: read_constrained_int_def Let_def s1ap_maxs b)
  then obtain r' where "read_bits (read_align (PerReader_new val)) 24 = Some (v, r')"
    using assms by (auto simp: get_int_def rd_value_def bind_eq_Some_conv)
  then have "unat v < 2 ^ 24" by (rule read_bits_less) simp
  then show ?thesis by (simp add: unsigned_ucast_eq take_bit_nat_eq_self)
qed


definition enb_ok :: "S1apMessage \<Rightarrow> bool" where
  "enb_ok msg = (case msg of MInitialUeMessage u \<Rightarrow> unat (ium_enb_ue_s1ap_id u) \<le> 16777215
     | MUplinkNasTransport u \<Rightarrow> unat (unt_enb_ue_s1ap_id u) \<le> 16777215 | _ \<Rightarrow> True)"

lemma bind_res_Inr: "bind_res x f = Inr y \<longleftrightarrow> (\<exists>a. x = Inr a \<and> f a = Inr y)"
  by (cases x) auto

lemma ok_or_Inr: "ok_or x e = Inr a \<longleftrightarrow> x = Some a"
  by (cases x) auto

lemma foldl_keeps: "P f \<Longrightarrow> (\<And>f e. P f \<Longrightarrow> P (step f e)) \<Longrightarrow> P (foldl step f es)"
  by (induction es arbitrary: f) auto

lemma initial_ue_enb:
  assumes "iuf_enb (foldl initial_ue_ie \<lparr>iuf_enb = None, iuf_nas = a, iuf_tai = b, iuf_cgi = c, iuf_rrc = d\<rparr> es) = Some v"
  shows "unat v \<le> 16777215"
proof -
  let ?P = "\<lambda>f. \<forall>v. iuf_enb f = Some v \<longrightarrow> unat v \<le> 16777215"
  have "?P (initial_ue_ie f e)" if "?P f" for f e
    using that by (auto simp: initial_ue_ie_def get_enb_id_bound split: prod.splits)
  then have "?P (foldl initial_ue_ie \<lparr>iuf_enb = None, iuf_nas = a, iuf_tai = b, iuf_cgi = c, iuf_rrc = d\<rparr> es)"
    by (intro foldl_keeps [where P = ?P]) simp_all
  with assms show ?thesis by blast
qed

lemma uplink_nas_enb:
  assumes "nf_enb (foldl uplink_nas_ie \<lparr>nf_mme = a, nf_enb = None, nf_nas = b, nf_tai = c, nf_cgi = d\<rparr> es) = Some v"
  shows "unat v \<le> 16777215"
proof -
  let ?P = "\<lambda>f. \<forall>v. nf_enb f = Some v \<longrightarrow> unat v \<le> 16777215"
  have "?P (uplink_nas_ie f e)" if "?P f" for f e
    using that by (auto simp: uplink_nas_ie_def get_enb_id_bound split: prod.splits)
  then have "?P (foldl uplink_nas_ie \<lparr>nf_mme = a, nf_enb = None, nf_nas = b, nf_tai = c, nf_cgi = d\<rparr> es)"
    by (intro foldl_keeps [where P = ?P]) simp_all
  with assms show ?thesis by blast
qed

lemma decoders_enb_ok:
  "decode_initial_ue_message es = Inr m \<Longrightarrow> enb_ok m"
  "decode_uplink_nas_transport es = Inr m \<Longrightarrow> enb_ok m"
  "decode_downlink_nas_transport es = Inr m \<Longrightarrow> enb_ok m"
  "decode_initial_context_setup_request es = Inr m \<Longrightarrow> enb_ok m"
  "decode_initial_context_setup_response es = Inr m \<Longrightarrow> enb_ok m"
  "decode_ue_context_release_command es = Inr m \<Longrightarrow> enb_ok m"
  "decode_ue_context_release_complete es = Inr m \<Longrightarrow> enb_ok m"
  by (auto simp: decode_initial_ue_message_def decode_uplink_nas_transport_def decode_downlink_nas_transport_def
      decode_initial_context_setup_request_def decode_initial_context_setup_response_def
      decode_ue_context_release_command_def decode_ue_context_release_complete_def
      Let_def bind_res_Inr ok_or_Inr enb_ok_def initial_ue_enb uplink_nas_enb)

lemma decode_s1ap_enb_ok: "decode_s1ap_pdu pdu = Inr m \<Longrightarrow> enb_ok m"
  by (auto simp: decode_s1ap_pdu_def bind_res_Inr decoders_enb_ok split: prod.splits if_splits)

lemma process_s1ap_fits:
  assumes cr: "ctr_stream cr" "hmac_len cr" "aes_len cr" and inv: "mme_inv n m" and z: "ip_zero (m_world m)"
    and h: "hss_wf (m_hss m)" "length rand = 16" "\<And>a. m_phase3_upf m = Some a \<Longrightarrow> length a = 4"
    and enb: "enb_ok msg" and res: "process_s1ap cr rand m msg = Some ((out, evts), m')"
  shows "list_all s1ap_fits out"
proof (cases msg)
  case (MInitialUeMessage u)
  with res obtain w' r' h' where "start_attach cr rand (m_world m) (m_registry m) (m_hss m) (ium_enb_ue_s1ap_id u)
      (ium_nas_pdu u) (ium_tai u) = Some ((out, evts), w', r', h')" by (auto simp: process_s1ap_def)
  from start_attach_fits [OF cr(3) h(1,2) _ this] show ?thesis
    using enb MInitialUeMessage by (simp add: enb_ok_def)
next
  case (MUplinkNasTransport u)
  let ?i = "unt_mme_ue_s1ap_id u" and ?e = "unt_enb_ue_s1ap_id u"
  have wf: "world_wf (m_world m)" by (rule mme_inv_wf [OF inv])
  obtain plain w where u: "unwrap_uplink cr (m_world m) ?i (unt_nas_pdu u) = (plain, w)" by fastforce
  have "world_wf w" "ip_zero w"
    using unwrap_identity [OF wf, of cr ?i "unt_nas_pdu u"] unwrap_uplink_keeps [OF wf, of cr ?i "unt_nas_pdu u"]
      u z by (simp_all add: keeps_tunnels_def ip_zero_def)
  then have "list_all s1ap_fits (fst (fst (dispatch_nas cr (m\<lparr>m_world := w\<rparr>) ?e ?i p)))" for p
    using enb MUplinkNasTransport h(3) by (intro uplink_fits [OF cr(1,2)]) (auto simp: enb_ok_def)
  with res u MUplinkNasTransport show ?thesis
    by (auto simp: process_s1ap_def handle_uplink_nas_def Let_def split: option.splits) (metis fst_conv)
qed (use res in \<open>auto simp: process_s1ap_def handle_icsrsp_def handle_release_complete_def Let_def
    split: list.splits option.splits\<close>)


lemma encode_all_fits: "list_all s1ap_fits ms \<Longrightarrow> \<exists>bs. encode_all ms = Some (Inr bs) \<and> length bs = length ms"
proof (induction ms)
  case (Cons m ms)
  then obtain b bs where "encode_s1ap_pdu m = Some (Inr b)" "encode_all ms = Some (Inr bs)" "length bs = length ms"
    using s1ap_fits_encodes [of m] by auto
  then show ?case by simp
qed simp

section \<open>Runs of the node\<close>

definition node_inv :: "nat \<Rightarrow> Mme \<times> SessionManager \<Rightarrow> bool" where
  "node_inv n st \<longleftrightarrow> mme_inv n (fst st) \<and> ip_zero (m_world (fst st)) \<and> hss_wf (m_hss (fst st)) \<and>
     (\<forall>a. m_phase3_upf (fst st) = Some a \<longrightarrow> length a = 4) \<and>
     sm_agree (snd st) \<and> linked (m_world (fst st)) (snd st)"

lemma start_attach_hss:
  "start_attach cr rand w reg hss enb pdu tai = Some (out, w', reg', hss') \<Longrightarrow> hss_wf hss \<Longrightarrow> hss_wf hss'"
  using hss_wf_generate [of hss cr rand]
  by (auto simp: start_attach_def Let_def split: sum.splits NasPdu.splits option.splits prod.splits) (metis snd_conv)+

lemma dispatch_hss:
  "m_hss (snd (dispatch_nas cr m enb i p)) = m_hss m"
  "m_phase3_upf (snd (dispatch_nas cr m enb i p)) = m_phase3_upf m"
  by (simp_all add: dispatch_nas_def split: sum.splits NasPdu.splits prod.splits)

lemma uplink_hss:
  "m_hss (snd (handle_uplink_nas cr m enb i p)) = m_hss m"
  "m_phase3_upf (snd (handle_uplink_nas cr m enb i p)) = m_phase3_upf m"
  by (simp_all add: handle_uplink_nas_def Let_def dispatch_hss split: option.splits prod.splits)

lemma process_s1ap_hss:
  assumes "process_s1ap cr rand m msg = Some (out, m')" "hss_wf (m_hss m)"
  shows "hss_wf (m_hss m') \<and> m_phase3_upf m' = m_phase3_upf m"
proof (cases msg)
  case (MInitialUeMessage u)
  with assms start_attach_hss show ?thesis by (fastforce simp: process_s1ap_def)
next
  case (MUplinkNasTransport u)
  with assms uplink_hss show ?thesis by (simp add: process_s1ap_def) (metis snd_conv)
qed (use assms in \<open>auto simp: process_s1ap_def handle_icsrsp_def handle_release_complete_def Let_def
    split: list.splits option.splits\<close>)

lemma node_turn_ok:
  assumes cr: "ctr_stream cr" "hmac_len cr" "aes_len cr" and inv: "node_inv n st"
    and n: "n < 4294967296 - 0x10000 - 1" and rand: "length rand = 16"
  shows "\<exists>outs st'. node_turn cr ay rand st pdu = Some (Inr (outs, st')) \<and> node_inv (Suc n) st'"
proof (cases "decode_s1ap_pdu pdu")
  case (Inl e)
  then show ?thesis using inv mme_inv_mono [of n "fst st"] by (simp add: node_turn_def node_inv_def)
next
  case (Inr msg)
  have m: "mme_inv n (fst st)" using inv by (simp add: node_inv_def)
  obtain out evts m' where p: "process_s1ap cr rand (fst st) msg = Some ((out, evts), m')" "mme_inv (Suc n) m'"
    using process_s1ap_inv [OF m n, of cr rand msg] by auto
  let ?sm = "foldl (apply_upf_event ay) (snd st) evts"
  have "list_all s1ap_fits out"
    using process_s1ap_fits [OF cr m _ _ rand _ decode_s1ap_enb_ok [OF Inr] p(1)] inv by (simp add: node_inv_def)
  then obtain bs where b: "encode_all out = Some (Inr bs)" using encode_all_fits by blast
  have "tunnel_step (m_teids (fst st)) (m_world (fst st)) evts (m_world m')"
    by (rule process_s1ap_step [OF m n p(1)])
  then have "linked (m_world m') ?sm"
  proof (rule linked_step)
    show "tunnels_ok (m_world (fst st)) (m_teids (fst st))" using m by (simp add: mme_inv_def)
    show "linked (m_world (fst st)) (snd st)" using inv by (simp add: node_inv_def)
  qed
  moreover have "sm_agree ?sm"
  proof (rule foldl_keeps [where P = sm_agree])
    show "sm_agree (snd st)" using inv by (simp add: node_inv_def)
  qed (rule sm_agree_event)
  moreover have "ip_zero (m_world m')" using process_s1ap_ip_zero [OF m n _ p(1)] inv by (simp add: node_inv_def)
  moreover have "hss_wf (m_hss m') \<and> m_phase3_upf m' = m_phase3_upf (fst st)"
    using process_s1ap_hss [OF p(1)] inv by (simp add: node_inv_def)
  ultimately have "node_inv (Suc n) (m', ?sm)" using p(2) inv by (simp add: node_inv_def)
  then show ?thesis using Inr p(1) b by (simp add: node_turn_def Let_def)
qed


text \<open>A sequence of PDUs, each with the challenge available while it is processed.\<close>

fun node_run ::
    "crypto \<Rightarrow> aya \<Rightarrow> Mme \<times> SessionManager \<Rightarrow> (bytes \<times> bytes) list \<Rightarrow> (bytes list list \<times> Mme \<times> SessionManager) option" where
  "node_run cr ay st [] = Some ([], st)"
| "node_run cr ay st ((rand, pdu) # inputs) =
     (case node_turn cr ay rand st pdu of
        Some (Inr (outs, st)) \<Rightarrow> map_option (\<lambda>(rest, st). (outs # rest, st)) (node_run cr ay st inputs)
      | _ \<Rightarrow> None)"

lemma node_run_inv:
  assumes cr: "ctr_stream cr" "hmac_len cr" "aes_len cr"
  shows "node_inv n st \<Longrightarrow> n + length inputs < 4294967296 - 0x10000 \<Longrightarrow> list_all (\<lambda>(r, _). length r = 16) inputs \<Longrightarrow>
    \<exists>outs st'. node_run cr ay st inputs = Some (outs, st') \<and> node_inv (n + length inputs) st'"
proof (induction inputs arbitrary: n st)
  case (Cons x inputs)
  obtain rand pdu where x: "x = (rand, pdu)" by (cases x)
  obtain outs st1 where t: "node_turn cr ay rand st pdu = Some (Inr (outs, st1))" "node_inv (Suc n) st1"
    using node_turn_ok [OF cr Cons.prems(1), of rand ay pdu] Cons.prems(2,3) x by auto
  obtain rest st' where "node_run cr ay st1 inputs = Some (rest, st')" "node_inv (Suc n + length inputs) st'"
    using Cons.IH [OF t(2)] Cons.prems(2,3) by auto
  with t(1) x show ?case by simp
qed simp

lemma node_inv_start:
  assumes "hss_wf hss" "length addr = 4"
  shows "node_inv 0 (Mme_new\<lparr>m_phase3_upf := Some addr, m_hss := hss\<rparr>, SessionManager_new)"
proof -
  have "world_wf World_new" by simp
  then have "identity World_new i = None" for i by (simp add: ecs_abs)
  then have "ip_zero World_new" by (simp add: ip_zero_def)
  moreover have "linked World_new SessionManager_new" by (simp add: linked_def teid_of_def)
  ultimately show ?thesis
    using assms mme_inv_start [where upf = "Some addr" and hss = hss] by (simp add: node_inv_def Mme_new_def)
qed

text \<open>
  C8. The node answers any sequence of PDUs the eNodeB may send, however malformed, below the
  limit of the identifier counters: no message makes it panic or fail to encode an answer.
  Afterwards the session records and the routes of the user plane agree, and the tunnel of
  every live subscriber has its user-plane session, recorded for that subscriber, with a route
  for its uplink packets.
\<close>

theorem node_run_linked:
  assumes "ctr_stream cr" "hmac_len cr" "aes_len cr" "hss_wf hss" "length addr = 4"
    and "length inputs < 4294967296 - 0x10000" "list_all (\<lambda>(rand, pdu). length rand = 16) inputs"
  shows "\<exists>outs m sm. node_run cr ay (Mme_new\<lparr>m_phase3_upf := Some addr, m_hss := hss\<rparr>, SessionManager_new) inputs
        = Some (outs, m, sm) \<and>
    (\<forall>t. rel_option (session_of t) (lookup_ul (sm_routing sm) t) (get_session sm t)) \<and>
    (\<forall>i t. teid_of (m_world m) i = Some t \<longrightarrow>
       (\<exists>s e. get_session sm t = Some s \<and> ups_entity_id s = i \<and> lookup_ul (sm_routing sm) t = Some e))"
proof -
  obtain outs m sm where "node_run cr ay (Mme_new\<lparr>m_phase3_upf := Some addr, m_hss := hss\<rparr>, SessionManager_new) inputs
      = Some (outs, m, sm)" "node_inv (0 + length inputs) (m, sm)"
    using node_run_inv [OF assms(1-3) node_inv_start [OF assms(4,5)], of inputs ay] assms(6,7) by auto
  then show ?thesis
    by (intro exI [of _ outs] exI [of _ m] exI [of _ sm])
       (simp add: node_inv_def sm_agree_def linked_def lookup_ul_def get_session_def)
qed


lemma node_run_linked_witness:
  "hss_wf (Map.empty(1 \<mapsto> \<lparr>sr_ctx = MilenageContext_new (replicate 16 1) (replicate 16 2), sr_sqn = 0\<rparr>)) \<and>
   (\<exists>outs m sm. node_run sample_crypto sample_aya
      (Mme_new\<lparr>m_phase3_upf := Some [10, 0, 0, 1],
         m_hss := Map.empty(1 \<mapsto> \<lparr>sr_ctx = MilenageContext_new (replicate 16 1) (replicate 16 2), sr_sqn = 0\<rparr>)\<rparr>,
       SessionManager_new) [(replicate 16 7, [0, 12, 64, 0])] = Some (outs, m, sm) \<and>
    (\<forall>t. rel_option (session_of t) (lookup_ul (sm_routing sm) t) (get_session sm t)) \<and>
    (\<forall>i t. teid_of (m_world m) i = Some t \<longrightarrow>
       (\<exists>s e. get_session sm t = Some s \<and> ups_entity_id s = i \<and> lookup_ul (sm_routing sm) t = Some e)))"
proof
  show h: "hss_wf (Map.empty(1 \<mapsto> \<lparr>sr_ctx = MilenageContext_new (replicate 16 1) (replicate 16 2), sr_sqn = 0\<rparr>))"
    by (simp add: hss_wf_def MilenageContext_new_def)
  show "\<exists>outs m sm. node_run sample_crypto sample_aya
      (Mme_new\<lparr>m_phase3_upf := Some [10, 0, 0, 1],
         m_hss := Map.empty(1 \<mapsto> \<lparr>sr_ctx = MilenageContext_new (replicate 16 1) (replicate 16 2), sr_sqn = 0\<rparr>)\<rparr>,
       SessionManager_new) [(replicate 16 7, [0, 12, 64, 0])] = Some (outs, m, sm) \<and>
    (\<forall>t. rel_option (session_of t) (lookup_ul (sm_routing sm) t) (get_session sm t)) \<and>
    (\<forall>i t. teid_of (m_world m) i = Some t \<longrightarrow>
       (\<exists>s e. get_session sm t = Some s \<and> ups_entity_id s = i \<and> lookup_ul (sm_routing sm) t = Some e))"
    by (rule node_run_linked [OF sample_crypto_ok(1,3,4) h]) simp_all
qed

section \<open>Events as table updates\<close>

fun spec_event :: "table \<Rightarrow> UpfEvent \<Rightarrow> table" where
  "spec_event tab (CreateSession t i imsi ip enb qci) = spec_create tab t ip 0 enb qci"
| "spec_event tab (UpdateBearer t dl enb) = spec_update tab t dl enb"
| "spec_event tab (RemoveSession t) = spec_remove tab t"

fun events_ok :: "table \<Rightarrow> UpfEvent list \<Rightarrow> bool" where
  "events_ok tab [] \<longleftrightarrow> True"
| "events_ok tab (e # es) \<longleftrightarrow>
     (case e of CreateSession t i imsi ip enb qci \<Rightarrow> may_create tab t ip | _ \<Rightarrow> True) \<and>
     events_ok (spec_event tab e) es"

lemma event_bpf: "sm_bpf sm \<noteq> None \<Longrightarrow> sm_bpf (apply_upf_event ay sm e) \<noteq> None"
  by (cases e) (auto simp: apply_upf_event.simps create_session_with_teid_def sm_install_def
      update_bearer_info_def remove_session_def Let_def split: option.splits)

lemma events_refine:
  assumes "aya_ok ay"
  shows "sm_rep tab sm \<Longrightarrow> events_ok tab es \<Longrightarrow>
    sm_rep (foldl spec_event tab es) (foldl (apply_upf_event ay) sm es)"
proof (induction es arbitrary: tab sm)
  case (Cons e es)
  have "sm_rep (spec_event tab e) (apply_upf_event ay sm e)"
    using Cons.prems create_refines [OF assms] update_refines(1) [OF assms] remove_refines(1) [OF assms]
    by (cases e) (auto simp: apply_upf_event.simps)
  with Cons show ?case by simp
qed simp

text \<open>
  C16. The session manager implements a table of bearers. For any sequence of user-plane events in
  which each session is created under a free TEID and a free address, the routing table, the
  session records and, when a BPF handle with empty maps was wired in, the two kernel maps are
  all views of the table the events describe.
\<close>

theorem upf_events_refine:
  assumes "aya_ok ay" "TEID_TO_ROUTE b = Map.empty" "UE_IP_TO_ROUTE b = Map.empty" "events_ok Map.empty es"
    and "tab = foldl spec_event Map.empty es"
    and "sm = foldl (apply_upf_event ay) (set_bpf_handle SessionManager_new b) es"
  shows "(\<forall>t. lookup_ul (sm_routing sm) t = tab t) \<and>
    (\<forall>ip e. lookup_dl (sm_routing sm) ip = Some e \<longleftrightarrow> (\<exists>t. tab t = Some e) \<and> re_ue_ip e = ip) \<and>
    (\<forall>t. rel_option (session_of t) (tab t) (get_session sm t)) \<and>
    (\<exists>b'. sm_bpf sm = Some b' \<and> (\<forall>t. TEID_TO_ROUTE b' t = map_option xdp_of (tab t)) \<and>
       (\<forall>ip. UE_IP_TO_ROUTE b' ip = map_option xdp_of (lookup_dl (sm_routing sm) ip)))"
proof -
  have "sm_rep Map.empty (set_bpf_handle SessionManager_new b)"
    using assms(2,3) by (auto simp: sm_rep_def set_bpf_handle_def SessionManager_new_def RoutingTable_new_def
        rt_inv_def bpf_rep_def)
  then have rep: "sm_rep tab sm" using events_refine [OF assms(1) _ assms(4)] assms(5,6) by blast
  have "sm_bpf sm \<noteq> None"
    unfolding assms(6)
    by (rule foldl_keeps [where P = "\<lambda>sm. sm_bpf sm \<noteq> None", OF _ event_bpf]) (simp add: set_bpf_handle_def)
  then obtain b' where b': "sm_bpf sm = Some b'" by auto
  note r = sm_repD [OF rep]
  have "lookup_dl (sm_routing sm) ip = Some e \<longleftrightarrow> (\<exists>t. tab t = Some e) \<and> re_ue_ip e = ip" for ip e
    using routes.dl_view [OF r(3)] r(1) by (simp add: lookup_ul_def)
  moreover have "\<forall>t. TEID_TO_ROUTE b' t = map_option xdp_of (tab t)"
    "\<forall>ip. UE_IP_TO_ROUTE b' ip = map_option xdp_of (lookup_dl (sm_routing sm) ip)"
    using r(5) [OF b'] r(1) by (simp_all add: bpf_rep_def lookup_dl_def)
  ultimately show ?thesis using r(1,4) b' by (simp add: lookup_ul_def get_session_def)
qed

definition sample_events :: "UpfEvent list" where
  "sample_events =
     [CreateSession 0x10000 0 1 [10, 0, 0, 1] [0, 0, 0, 0] 9, UpdateBearer 0x10000 77 [192, 168, 0, 5],
      CreateSession 0x10001 1 2 [10, 0, 0, 2] [0, 0, 0, 0] 9, RemoveSession 0x10000]"

definition sample_handle :: BpfHandle where
  "sample_handle = \<lparr>TEID_TO_ROUTE = Map.empty, UE_IP_TO_ROUTE = Map.empty,
     PDN_GW_CONFIG = PdnGwConfig_new (replicate 6 1) (replicate 6 2),
     DL_TUNNEL_CONFIG = DlTunnelConfig_new (replicate 6 3) (replicate 6 4) [10, 0, 0, 254] 2\<rparr>"

lemma upf_events_refine_witness:
  "events_ok Map.empty sample_events \<and>
   (\<forall>t. lookup_ul (sm_routing (foldl (apply_upf_event sample_aya) (set_bpf_handle SessionManager_new sample_handle) sample_events)) t
      = foldl spec_event Map.empty sample_events t)"
proof
  show ok: "events_ok Map.empty sample_events"
    by (simp add: sample_events_def may_create_def spec_create_def spec_update_def RouteEntry_new_def)
  show "\<forall>t. lookup_ul (sm_routing (foldl (apply_upf_event sample_aya) (set_bpf_handle SessionManager_new sample_handle) sample_events)) t
      = foldl spec_event Map.empty sample_events t"
    using upf_events_refine [OF sample_aya_ok _ _ ok refl refl, of sample_handle] by (simp add: sample_handle_def)
qed

section \<open>Addresses of LTE subscribers\<close>


lemma security_mode_event_ip:
  assumes "handle_security_mode_complete cr w enb i upf a = ((out, evts), w', a')"
    and "CreateSession t j imsi ip e q \<in> set evts" "ip_zero w"
  shows "ip = replicate 4 0"
  using assms unfolding handle_security_mode_complete_def Let_def
  by (auto simp: ip_zero_def split: option.splits prod.splits)

lemma process_s1ap_event_ip:
  assumes inv: "mme_inv n m" and z: "ip_zero (m_world m)"
    and res: "process_s1ap cr rand m msg = Some ((out, evts), m')"
    and ev: "CreateSession t j imsi ip e q \<in> set evts"
  shows "ip = replicate 4 0"
proof (cases msg)
  case (MInitialUeMessage u)
  with res ev show ?thesis
    by (auto simp: process_s1ap_def start_attach_def Let_def
        split: sum.splits NasPdu.splits option.splits prod.splits)
next
  case (MUplinkNasTransport u)
  let ?i = "unt_mme_ue_s1ap_id u" and ?e = "unt_enb_ue_s1ap_id u"
  have wf: "world_wf (m_world m)" by (rule mme_inv_wf [OF inv])
  obtain plain w where u: "unwrap_uplink cr (m_world m) ?i (unt_nas_pdu u) = (plain, w)" by fastforce
  have z': "ip_zero w" using unwrap_identity [OF wf, of cr ?i "unt_nas_pdu u"] u z by (simp add: ip_zero_def)
  have auth: "snd (fst (handle_auth_response w ?e ?i p)) = []" for p
    by (simp add: handle_auth_response_def Let_def split: sum.splits NasPdu.splits option.splits)
  have "dispatch_nas cr (m\<lparr>m_world := w\<rparr>) ?e ?i p = ((out, evts), m') \<Longrightarrow> ip = replicate 4 0" for p
    using ev auth [of p] security_mode_event_ip [OF _ ev z'] unfolding dispatch_nas_def
    by (auto simp: handle_attach_complete_def split: sum.splits NasPdu.splits prod.splits)
  with res u ev MUplinkNasTransport show ?thesis
    by (auto simp: process_s1ap_def handle_uplink_nas_def Let_def split: option.splits)
qed (use res ev in \<open>auto simp: process_s1ap_def handle_icsrsp_def handle_release_complete_def Let_def
    split: list.splits option.splits\<close>)

lemma mme_run_event_ip:
  "mme_inv n m \<Longrightarrow> n + length inputs < 4294967296 - 0x10000 \<Longrightarrow> ip_zero (m_world m) \<Longrightarrow>
   mme_run cr m inputs = Some (outs, m') \<Longrightarrow> (os, evts) \<in> set outs \<Longrightarrow>
   CreateSession t j imsi ip e q \<in> set evts \<Longrightarrow> ip = replicate 4 0"
proof (induction inputs arbitrary: n m outs)
  case (Cons x inputs)
  obtain rand msg where x: "x = (rand, msg)" by (cases x)
  from Cons.prems(4) x obtain o1 e1 m1 rest where s: "process_s1ap cr rand m msg = Some ((o1, e1), m1)"
    "mme_run cr m1 inputs = Some (rest, m')" "outs = (o1, e1) # rest"
    by (auto simp: bind_eq_Some_conv)
  have n: "n < 4294967296 - 0x10000 - 1" using Cons.prems(2) by simp
  have "mme_inv (Suc n) m1" using process_s1ap_inv [OF Cons.prems(1) n, of cr rand msg] s(1) by auto
  moreover have "ip_zero (m_world m1)" by (rule process_s1ap_ip_zero [OF Cons.prems(1) n Cons.prems(3) s(1)])
  ultimately show ?case
    using Cons.IH [of "Suc n" m1 rest] process_s1ap_event_ip [OF Cons.prems(1,3) s(1)] Cons.prems(2,5,6) s(2,3)
    by auto
qed simp

end
