(* ===== verification/Mme_Findings.thy ===== *)
theory Mme_Findings
  imports Mme_Node
begin

text \<open>
  Behaviours of the LTE core that its callers have to know about: what the MME leaves undone,
  and what follows for the user plane. Each is stated as a theorem about the model, in the
  generality in which the code has it.
\<close>

text \<open>
  The MME never gives a subscriber an address: whatever the sequence of messages, every session
  it announces to the user plane carries the address 0.0.0.0.
\<close>

theorem mme_announces_zero_address:
  assumes "length inputs < 4294967296 - 0x10000"
    and "mme_run cr (Mme_new\<lparr>m_phase3_upf := upf, m_hss := hss\<rparr>) inputs = Some (outs, m)"
    and "(responses, events) \<in> set outs" "CreateSession t i imsi ip enb qci \<in> set events"
  shows "ip = [0, 0, 0, 0]"
proof -
  have "world_wf World_new" by simp
  then have "ip_zero (m_world (Mme_new\<lparr>m_phase3_upf := upf, m_hss := hss\<rparr>))"
    by (simp add: ip_zero_def ecs_abs Mme_new_def)
  then have "ip = replicate 4 0"
    using mme_run_event_ip [OF mme_inv_start _ _ assms(2-4)] assms(1) by simp
  then show ?thesis by (simp add: numeral_eq_Suc)
qed

definition sample_hss :: Hss where
  "sample_hss = Map.empty(1 \<mapsto> \<lparr>sr_ctx = MilenageContext_new (replicate 16 1) (replicate 16 2), sr_sqn = 0\<rparr>)"

definition sample_inputs :: "(bytes \<times> S1apMessage) list" where
  "sample_inputs =
     [(replicate 16 7, MInitialUeMessage
        \<lparr>ium_enb_ue_s1ap_id = 5, ium_nas_pdu = encode_attach_request 1 1 0, ium_tai = [1, 2, 3, 4, 5],
         ium_eutran_cgi = replicate 7 0, ium_rrc_cause = 3\<rparr>),
      (replicate 16 7, MUplinkNasTransport
        \<lparr>unt_mme_ue_s1ap_id = 0, unt_enb_ue_s1ap_id = 5, unt_nas_pdu = encode_sec_mode_complete,
         unt_tai = [1, 2, 3, 4, 5], unt_eutran_cgi = replicate 7 0\<rparr>)]"

lemma sample_run:
  "map_option (\<lambda>(outs, m). (map snd outs, teid_of (m_world m) 0, m_phase3_upf m)) (mme_run sample_crypto
     (Mme_new\<lparr>m_phase3_upf := Some [10, 0, 0, 1], m_hss := sample_hss\<rparr>) sample_inputs) =
   Some ([[], [CreateSession 65536 0 1 [0, 0, 0, 0] [0, 0, 0, 0] 9]], Some 65536, Some [10, 0, 0, 1])"
  by code_simp

lemma mme_announces_zero_address_witness:
  "\<exists>outs m responses events t i imsi ip enb qci.
     mme_run sample_crypto (Mme_new\<lparr>m_phase3_upf := Some [10, 0, 0, 1], m_hss := sample_hss\<rparr>) sample_inputs = Some (outs, m) \<and>
     (responses, events) \<in> set outs \<and> CreateSession t i imsi ip enb qci \<in> set events \<and> ip = [0, 0, 0, 0]"
proof -
  obtain outs m where r: "mme_run sample_crypto (Mme_new\<lparr>m_phase3_upf := Some [10, 0, 0, 1], m_hss := sample_hss\<rparr>)
      sample_inputs = Some (outs, m)" "map snd outs = [[], [CreateSession 65536 0 1 [0, 0, 0, 0] [0, 0, 0, 0] 9]]"
    using sample_run by auto
  then obtain responses events t i imsi ip enb qci where
    e: "(responses, events) \<in> set outs" "CreateSession t i imsi ip enb qci \<in> set events"
    by (cases outs; cases "tl outs") fastforce+
  have "ip = [0, 0, 0, 0]"
    by (rule mme_announces_zero_address [OF _ r(1) e]) (simp add: sample_inputs_def)
  with r(1) e show ?thesis by blast
qed

text \<open>
  C29. Two sessions with the same address share one downlink route, and removing the first of them
  removes it: the second session keeps its uplink route and loses its downlink traffic.
\<close>

theorem shared_address_loses_downlink:
  assumes "t1 \<noteq> t2"
    and "sm = foldl (apply_upf_event ay) SessionManager_new
           [CreateSession t1 i1 imsi1 ip enb1 q1, CreateSession t2 i2 imsi2 ip enb2 q2, RemoveSession t1]"
  shows "get_session sm t2 \<noteq> None \<and> lookup_ul (sm_routing sm) t2 \<noteq> None \<and> lookup_dl (sm_routing sm) ip = None"
  using assms
  by (simp add: apply_upf_event.simps create_session_with_teid_def sm_install_def remove_session_def Let_def
      SessionManager_new_def RoutingTable_new_def get_session_def lookup_ul_def lookup_dl_def rt_remove_dl
      RouteEntry_new_def)

lemma shared_address_loses_downlink_witness:
  "lookup_dl (sm_routing (foldl (apply_upf_event sample_aya) SessionManager_new
     [CreateSession 65536 0 1 [0, 0, 0, 0] [0, 0, 0, 0] 9, CreateSession 65537 1 2 [0, 0, 0, 0] [0, 0, 0, 0] 9,
      RemoveSession 65536])) [0, 0, 0, 0] = None"
  using shared_address_loses_downlink [of 65536 65537, OF _ refl] by simp


lemma security_mode_session:
  assumes wf: "world_wf (m_world m)" and e: "abs_world (m_world m) i = Some e" and up: "m_phase3_upf m = Some addr"
    and u: "unt_mme_ue_s1ap_id u = i" "unt_nas_pdu u = encode_sec_mode_complete"
    and al: "teid_alloc (m_teids m) = (t, a)"
  shows "\<exists>req imsi ip m'. process_s1ap cr rand m (MUplinkNasTransport u) =
        Some (([MInitialContextSetupRequest req], [CreateSession t i imsi ip (replicate 4 0) 9]), m') \<and>
      auth_state (m_world m') i = Some (e_auth e) \<and> teid_of (m_world m') = (teid_of (m_world m))(i := Some t) \<and>
      m_teids m' = a"
proof -
  have un: "unwrap_uplink cr (m_world m) i encode_sec_mode_complete = (Some encode_sec_mode_complete, m_world m)"
    unfolding encode_sec_mode_complete_def by (rule sht_plain_pdus)
  have id: "identity (m_world m) i = Some (e_identity e)" "security (m_world m) i = Some (e_security e)"
    using e wf by (simp_all add: ecs_abs)
  let ?w = "\<lambda>c. set_tunnel (set_nas_security (security_mut (m_world m) i clear_post_kasme) i c) i
      \<lparr>tc_ul_teid = t, tc_dl_teid = 0, tc_enb_addr = replicate 4 0\<rparr>"
  have w: "auth_state (?w c) i = Some (e_auth e)" "teid_of (?w c) = (teid_of (m_world m))(i := Some t)" for c
    using e wf by (auto simp: ecs_abs ecs_wf teid_of_def fun_eq_iff)
  have "\<exists>req imsi ip c. process_s1ap cr rand m (MUplinkNasTransport u) =
        Some (([MInitialContextSetupRequest req], [CreateSession t i imsi ip (replicate 4 0) 9]),
          m\<lparr>m_world := ?w c, m_teids := a\<rparr>)"
    using u id up al by (simp add: process_s1ap_def handle_uplink_nas_def un dispatch_nas_def
        bare_messages_roundtrip handle_security_mode_complete_def Let_def split: prod.splits) blast
  with w show ?thesis by fastforce
qed

text \<open>
  C28. The security mode procedure does not look at the authentication state: a plain
  SecurityModeComplete from any live entity, authenticated or not, is answered with an initial
  context setup and a user-plane session for it, and its authentication state stays what it was.
\<close>

theorem session_without_authentication:
  assumes "world_wf (m_world m)" "auth_state (m_world m) i = Some a" "m_phase3_upf m = Some addr"
    and "unt_mme_ue_s1ap_id u = i" "unt_nas_pdu u = encode_sec_mode_complete"
  shows "\<exists>req t imsi ip m'. process_s1ap cr rand m (MUplinkNasTransport u) =
        Some (([MInitialContextSetupRequest req], [CreateSession t i imsi ip (replicate 4 0) 9]), m') \<and>
      auth_state (m_world m') i = Some a"
proof -
  obtain e where e: "abs_world (m_world m) i = Some e" "e_auth e = a"
    using assms(1,2) by (auto simp: ecs_abs)
  obtain t b where "teid_alloc (m_teids m) = (t, b)" by (cases "teid_alloc (m_teids m)")
  from security_mode_session [OF assms(1) e(1) assms(3-5) this] e(2) show ?thesis by blast
qed

lemma session_without_authentication_witness:
  "auth_state (m_world (with_phase3 (one_entity_mme sample_sec) [10, 0, 0, 1])) 0 = Some Unauthenticated \<and>
   (\<exists>req t imsi ip m'. process_s1ap sample_crypto [] (with_phase3 (one_entity_mme sample_sec) [10, 0, 0, 1])
        (MUplinkNasTransport (sample_uplink encode_sec_mode_complete)) =
        Some (([MInitialContextSetupRequest req], [CreateSession t 0 imsi ip (replicate 4 0) 9]), m') \<and>
      auth_state (m_world m') 0 = Some Unauthenticated)"
proof
  let ?m = "with_phase3 (one_entity_mme sample_sec) [10, 0, 0, 1]"
  have wf: "world_wf (m_world ?m)" using one_entity_mme_ok(1) by (simp add: with_phase3_def)
  show a: "auth_state (m_world ?m) 0 = Some Unauthenticated"
    using wf one_entity_mme_ok(3) [of sample_sec] by (simp add: ecs_abs with_phase3_def empty_entity_def)
  show "\<exists>req t imsi ip m'. process_s1ap sample_crypto [] ?m (MUplinkNasTransport (sample_uplink encode_sec_mode_complete)) =
        Some (([MInitialContextSetupRequest req], [CreateSession t 0 imsi ip (replicate 4 0) 9]), m') \<and>
      auth_state (m_world m') 0 = Some Unauthenticated"
    by (rule session_without_authentication [OF wf a]) (simp_all add: with_phase3_def sample_uplink_def)
qed

text \<open>
  A repeated SecurityModeComplete leaks the TEID of the first one: the entity gets a second
  TEID, no entity has the first any more, and the allocator still counts it as in use, so no
  release of that entity will ever return it.
\<close>

theorem repeated_security_mode_leaks_teid:
  assumes inv: "mme_inv n m" and n: "n < 4294967296 - 0x10000 - 1"
    and t: "teid_of (m_world m) i = Some t" and "m_phase3_upf m = Some addr"
    and "unt_mme_ue_s1ap_id u = i" "unt_nas_pdu u = encode_sec_mode_complete"
  shows "\<exists>out m'. process_s1ap cr rand m (MUplinkNasTransport u) = Some (out, m') \<and>
    (\<forall>j. teid_of (m_world m') j \<noteq> Some t) \<and> t \<in> teid_used (m_teids m') \<and> RemoveSession t \<notin> set (snd out)"
proof -
  have wf: "world_wf (m_world m)" by (rule mme_inv_wf [OF inv])
  have a: "teid_inv (m_teids m)" "teid_room (m_teids m)" "tunnels_ok (m_world m) (m_teids m)"
    using inv n by (auto simp: mme_inv_def teid_room_def)
  obtain e where e: "abs_world (m_world m) i = Some e" using t by (auto simp: teid_of_def bind_eq_Some_conv)
  obtain t' b where al: "teid_alloc (m_teids m) = (t', b)" by (cases "teid_alloc (m_teids m)")
  have f: "t' \<notin> teid_used (m_teids m)" "teid_used b = insert t' (teid_used (m_teids m))"
    using teid_ids.alloc_fresh [OF a(1,2)] al by auto
  have old: "t \<in> teid_used (m_teids m)" "\<And>j. teid_of (m_world m) j = Some t \<Longrightarrow> j = i"
    using a(3) t unfolding tunnels_ok_def by blast+
  obtain req imsi ip m' where s: "process_s1ap cr rand m (MUplinkNasTransport u) =
      Some (([MInitialContextSetupRequest req], [CreateSession t' i imsi ip (replicate 4 0) 9]), m')"
    "teid_of (m_world m') = (teid_of (m_world m))(i := Some t')" "m_teids m' = b"
    using security_mode_session [OF wf e assms(4-6) al] by blast
  have "t' \<noteq> t" using f(1) old(1) by blast
  then have "teid_of (m_world m') j \<noteq> Some t" for j using s(2) old(2) [of j] by auto
  with s f(2) old(1) show ?thesis by fastforce
qed


lemma repeated_security_mode_leaks_teid_witness:
  "\<exists>outs m out m'. mme_run sample_crypto (Mme_new\<lparr>m_phase3_upf := Some [10, 0, 0, 1], m_hss := sample_hss\<rparr>) sample_inputs
       = Some (outs, m) \<and> teid_of (m_world m) 0 = Some 65536 \<and>
     process_s1ap sample_crypto [] m (MUplinkNasTransport (sample_uplink encode_sec_mode_complete)) = Some (out, m') \<and>
     (\<forall>j. teid_of (m_world m') j \<noteq> Some 65536) \<and> 65536 \<in> teid_used (m_teids m') \<and> RemoveSession 65536 \<notin> set (snd out)"
proof -
  let ?m0 = "Mme_new\<lparr>m_phase3_upf := Some [10, 0, 0, 1], m_hss := sample_hss\<rparr>"
  obtain outs m where r: "mme_run sample_crypto ?m0 sample_inputs = Some (outs, m)" "teid_of (m_world m) 0 = Some 65536"
    "m_phase3_upf m = Some [10, 0, 0, 1]"
    using sample_run by auto
  have inv: "mme_inv 2 m"
    using mme_run_inv [OF mme_inv_start [where upf = "Some [10, 0, 0, 1]" and hss = sample_hss],
        of sample_inputs sample_crypto] r(1) by (simp add: sample_inputs_def numeral_2_eq_2)
  show ?thesis
    using repeated_security_mode_leaks_teid [OF inv _ r(2,3), of "sample_uplink encode_sec_mode_complete" sample_crypto "[]"]
      r(1,2) by (simp add: sample_uplink_def)
qed

end
