(* ===== verification/Xdp.thy ===== *)
theory Xdp
  imports Upf
begin

text \<open>
  The kernel fast path, \<open>crates/midn-userplane-ebpf/src\<close>: the uplink program (\<open>gtp_xdp.rs\<close>), the
  downlink program (\<open>gtp_dl_xdp.rs\<close>) and their entry points (\<open>main.rs\<close>), over the maps of \<open>maps.rs\<close>,
  whose value types are those of the user-space mirror. A packet is its bytes from \<open>data\<close> to
  \<open>data_end\<close>; an access out of these bounds is the error \<open>None\<close>. The helpers of the kernel are
  parameters: \<open>bpf_xdp_adjust_head\<close> maps a packet and a delta to the adjusted packet or fails,
  \<open>bpf_redirect\<close> yields an action.
\<close>

section \<open>Helpers and constants\<close>

datatype xdp_action = XDP_ABORTED | XDP_DROP | XDP_PASS | XDP_TX | XDP_REDIRECT

record bpf_helpers =
  bpf_xdp_adjust_head :: "bytes \<Rightarrow> int \<Rightarrow> bytes option"
  bpf_redirect :: "u32 \<Rightarrow> u64 \<Rightarrow> xdp_action"

definition ETH_P_IP :: u16 where "ETH_P_IP = 0x0800"
definition IPPROTO_UDP :: u8 where "IPPROTO_UDP = 17"
definition XDP_GTP_PORT :: u16 where "XDP_GTP_PORT = 2152"
definition GTP_MSG_GPDU :: u8 where "GTP_MSG_GPDU = 0xFF"
definition ETH_ETHERTYPE_OFF :: nat where "ETH_ETHERTYPE_OFF = 12"
definition ETH_HDR_LEN :: nat where "ETH_HDR_LEN = 14"
definition IP_VERSION_IHL_OFF :: nat where "IP_VERSION_IHL_OFF = 0"
definition IP_PROTOCOL_OFF :: nat where "IP_PROTOCOL_OFF = 9"
definition IPV4_MIN_HDR_LEN :: nat where "IPV4_MIN_HDR_LEN = 20"
definition UDP_DST_PORT_OFF :: nat where "UDP_DST_PORT_OFF = 2"
definition UDP_HDR_LEN :: nat where "UDP_HDR_LEN = 8"
definition GTP_FLAGS_OFF :: nat where "GTP_FLAGS_OFF = 0"
definition GTP_MSGTYPE_OFF :: nat where "GTP_MSGTYPE_OFF = 1"
definition GTP_TEID_OFF :: nat where "GTP_TEID_OFF = 4"
definition GTP_MANDATORY_LEN :: nat where "GTP_MANDATORY_LEN = 8"
definition GTP_OPT_FLAGS_MASK :: u8 where "GTP_OPT_FLAGS_MASK = 0x07"
definition GTP_FLAGS_STANDARD :: u8 where "GTP_FLAGS_STANDARD = 0x30"
definition IP_DST_OFF :: nat where "IP_DST_OFF = 16"
definition IP_OUTER_LEN :: nat where "IP_OUTER_LEN = 20"
definition GTP_HDR_LEN :: nat where "GTP_HDR_LEN = 8"
definition NEW_HDRS_LEN :: nat where "NEW_HDRS_LEN = ETH_HDR_LEN + IP_OUTER_LEN + UDP_HDR_LEN + GTP_HDR_LEN"
definition ADJUST_HEAD_GROW :: int where "ADJUST_HEAD_GROW = - int (NEW_HDRS_LEN - ETH_HDR_LEN)"

lemmas xdp_consts = ETH_P_IP_def IPPROTO_UDP_def XDP_GTP_PORT_def GTP_MSG_GPDU_def ETH_ETHERTYPE_OFF_def
  ETH_HDR_LEN_def IP_VERSION_IHL_OFF_def IP_PROTOCOL_OFF_def IPV4_MIN_HDR_LEN_def UDP_DST_PORT_OFF_def
  UDP_HDR_LEN_def GTP_FLAGS_OFF_def GTP_MSGTYPE_OFF_def GTP_TEID_OFF_def GTP_MANDATORY_LEN_def
  GTP_OPT_FLAGS_MASK_def GTP_FLAGS_STANDARD_def IP_DST_OFF_def IP_OUTER_LEN_def GTP_HDR_LEN_def
  NEW_HDRS_LEN_def ADJUST_HEAD_GROW_def

section \<open>Bounds-checked reads\<close>

definition bounds_check :: "bytes \<Rightarrow> nat \<Rightarrow> nat \<Rightarrow> bytes option" where
  "bounds_check pkt offset sz = (if offset + sz > length pkt then None else Some (drop offset pkt))"

definition read_u8 :: "bytes \<Rightarrow> nat \<Rightarrow> u8 option" where
  "read_u8 pkt offset = Option.bind (bounds_check pkt offset 1) (\<lambda>p. Some (p ! 0))"

definition read_u16_be :: "bytes \<Rightarrow> nat \<Rightarrow> u16 option" where
  "read_u16_be pkt offset = Option.bind (bounds_check pkt offset 2) (\<lambda>p. Some (from_be [p ! 0, p ! 1]))"

definition read_u32_be :: "bytes \<Rightarrow> nat \<Rightarrow> u32 option" where
  "read_u32_be pkt offset =
     Option.bind (bounds_check pkt offset 4) (\<lambda>p. Some (from_be [p ! 0, p ! 1, p ! 2, p ! 3]))"

definition read_ip4 :: "bytes \<Rightarrow> nat \<Rightarrow> bytes option" where
  "read_ip4 pkt offset =
     Option.bind (bounds_check pkt offset 4) (\<lambda>p. Some [p ! 0, p ! 1, p ! 2, p ! 3])"

section \<open>Uplink\<close>

text \<open>Steps 1 to 6: the IP header length, the GTP flags and the TEID of a G-PDU of a known session.\<close>

definition ul_classify :: "(u32 \<rightharpoonup> XdpRouteEntry) \<Rightarrow> bytes \<Rightarrow> (nat \<times> u8) option option" where
  "ul_classify teid_to_route pkt =
     Option.bind (read_u16_be pkt ETH_ETHERTYPE_OFF) (\<lambda>ether_type.
       if ether_type \<noteq> ETH_P_IP then Some None
       else let ip_start = ETH_HDR_LEN in
         Option.bind (read_u8 pkt (ip_start + IP_VERSION_IHL_OFF)) (\<lambda>version_ihl.
           let ihl = unat (version_ihl AND 0x0F) * 4 in
           if ihl < IPV4_MIN_HDR_LEN then Some None
           else Option.bind (read_u8 pkt (ip_start + IP_PROTOCOL_OFF)) (\<lambda>protocol.
             if protocol \<noteq> IPPROTO_UDP then Some None
             else let udp_start = ip_start + ihl in
               Option.bind (read_u16_be pkt (udp_start + UDP_DST_PORT_OFF)) (\<lambda>dst_port.
                 if dst_port \<noteq> XDP_GTP_PORT then Some None
                 else let gtp_start = udp_start + UDP_HDR_LEN in
                   Option.bind (read_u8 pkt (gtp_start + GTP_FLAGS_OFF)) (\<lambda>gtp_flags.
                   Option.bind (read_u8 pkt (gtp_start + GTP_MSGTYPE_OFF)) (\<lambda>msg_type.
                   Option.bind (read_u32_be pkt (gtp_start + GTP_TEID_OFF)) (\<lambda>td.
                     if msg_type \<noteq> GTP_MSG_GPDU then Some None
                     else case teid_to_route td of
                            Some _ \<Rightarrow> Some (Some (ihl, gtp_flags))
                          | None \<Rightarrow> Some None)))))))"

text \<open>Steps 7 and 8: strip the tunnel headers and write the Ethernet header.\<close>

definition ul_rewrite :: "bpf_helpers \<Rightarrow> PdnGwConfig \<Rightarrow> nat \<Rightarrow> u8 \<Rightarrow> bytes \<Rightarrow> xdp_action \<times> bytes" where
  "ul_rewrite h cfg ihl gtp_flags pkt =
     (let gtp_total = GTP_MANDATORY_LEN + (if gtp_flags AND GTP_OPT_FLAGS_MASK \<noteq> 0 then 4 else 0);
          outer_len = ETH_HDR_LEN + ihl + UDP_HDR_LEN + gtp_total;
          strip = int (outer_len - ETH_HDR_LEN)
      in case bpf_xdp_adjust_head h pkt strip of
           None \<Rightarrow> (XDP_PASS, pkt)
         | Some p \<Rightarrow>
             if ETH_HDR_LEN > length p then (XDP_PASS, p)
             else (XDP_TX, gw_mac cfg @ nic_mac cfg @ [0x08, 0x00] @ drop ETH_HDR_LEN p))"

definition process_ul ::
    "bpf_helpers \<Rightarrow> (u32 \<rightharpoonup> XdpRouteEntry) \<Rightarrow> PdnGwConfig option \<Rightarrow> bytes \<Rightarrow> (xdp_action \<times> bytes) option" where
  "process_ul h teid_to_route pdn_gw_config pkt =
     Option.bind (ul_classify teid_to_route pkt) (\<lambda>c.
       case c of
         None \<Rightarrow> Some (XDP_PASS, pkt)
       | Some (ihl, gtp_flags) \<Rightarrow>
           (case pdn_gw_config of
              None \<Rightarrow> Some (XDP_PASS, pkt)
            | Some cfg \<Rightarrow> Some (ul_rewrite h cfg ihl gtp_flags pkt)))"

definition midn_gtp_xdp ::
    "bpf_helpers \<Rightarrow> (u32 \<rightharpoonup> XdpRouteEntry) \<Rightarrow> PdnGwConfig option \<Rightarrow> bytes \<Rightarrow> xdp_action \<times> bytes" where
  "midn_gtp_xdp h teid_to_route pdn_gw_config pkt =
     (case process_ul h teid_to_route pdn_gw_config pkt of Some r \<Rightarrow> r | None \<Rightarrow> (XDP_PASS, pkt))"

section \<open>Downlink\<close>

definition be16_at :: "bytes \<Rightarrow> nat \<Rightarrow> u32" where
  "be16_at h i = ucast (from_be [h ! i, h ! (i + 1)] :: u16)"

definition fold_carry :: "u32 \<Rightarrow> u32" where
  "fold_carry s = (s AND 0xFFFF) + drop_bit 16 s"

definition ip_header_checksum :: "bytes \<Rightarrow> u16" where
  "ip_header_checksum h =
     (let s = be16_at h 0 + be16_at h 2 + be16_at h 4 + be16_at h 6 + be16_at h 8 + be16_at h 10 +
              be16_at h 12 + be16_at h 14 + be16_at h 16 + be16_at h 18;
          s = fold_carry s;
          s = fold_carry s
      in NOT (ucast s))"

text \<open>Step 7: the 50 bytes of new headers, with the checksum over the IP header.\<close>

definition outer_ip_header :: "u16 \<Rightarrow> u16 \<Rightarrow> bytes \<Rightarrow> bytes \<Rightarrow> bytes" where
  "outer_ip_header outer_len csum upf enb =
     [0x45, 0x00] @ to_be16 outer_len @ to_be16 0 @ to_be16 0x4000 @ [64, 17] @ to_be16 csum @ upf @ enb"

definition dl_headers :: "XdpRouteEntry \<Rightarrow> DlTunnelConfig \<Rightarrow> u16 \<Rightarrow> bytes" where
  "dl_headers route cfg inner_len =
     (let udp_len = of_nat UDP_HDR_LEN + of_nat GTP_HDR_LEN + inner_len;
          outer_len = of_nat IP_OUTER_LEN + udp_len;
          ip_csum = ip_header_checksum (outer_ip_header outer_len 0 (upf_ip cfg) (xr_enb_ip route))
      in eth_dst_mac cfg @ eth_src_mac cfg @ [0x08, 0x00] @
         outer_ip_header outer_len ip_csum (upf_ip cfg) (xr_enb_ip route) @
         to_be16 XDP_GTP_PORT @ to_be16 (xr_enb_port route) @ to_be16 udp_len @ to_be16 0 @
         [GTP_FLAGS_STANDARD, GTP_MSG_GPDU] @ to_be16 inner_len @ to_be32 (xr_dl_teid route))"

definition dl_rewrite :: "bpf_helpers \<Rightarrow> XdpRouteEntry \<Rightarrow> DlTunnelConfig \<Rightarrow> bytes \<Rightarrow> xdp_action \<times> bytes" where
  "dl_rewrite h route cfg pkt =
     (case bpf_xdp_adjust_head h pkt ADJUST_HEAD_GROW of
        None \<Rightarrow> (XDP_PASS, pkt)
      | Some p \<Rightarrow>
          if NEW_HDRS_LEN > length p then (XDP_PASS, p)
          else
            let inner_len = length p - NEW_HDRS_LEN in
            if inner_len > 65535 - (IP_OUTER_LEN + UDP_HDR_LEN + GTP_HDR_LEN) then (XDP_PASS, p)
            else (bpf_redirect h (redirect_ifindex cfg) 0,
                  dl_headers route cfg (of_nat inner_len) @ drop NEW_HDRS_LEN p))"

definition process_dl ::
    "bpf_helpers \<Rightarrow> (bytes \<rightharpoonup> XdpRouteEntry) \<Rightarrow> DlTunnelConfig option \<Rightarrow> bytes \<Rightarrow> (xdp_action \<times> bytes) option" where
  "process_dl h ue_ip_to_route dl_tunnel_config pkt =
     Option.bind (read_u16_be pkt ETH_ETHERTYPE_OFF) (\<lambda>ether_type.
       if ether_type \<noteq> ETH_P_IP then Some (XDP_PASS, pkt)
       else Option.bind (read_ip4 pkt (ETH_HDR_LEN + IP_DST_OFF)) (\<lambda>dst_ip.
         case ue_ip_to_route dst_ip of
           None \<Rightarrow> Some (XDP_PASS, pkt)
         | Some route \<Rightarrow>
             if xr_dl_teid route = 0 then Some (XDP_PASS, pkt)
             else (case dl_tunnel_config of
                     None \<Rightarrow> Some (XDP_PASS, pkt)
                   | Some cfg \<Rightarrow> Some (dl_rewrite h route cfg pkt))))"

definition midn_gtp_dl_xdp ::
    "bpf_helpers \<Rightarrow> (bytes \<rightharpoonup> XdpRouteEntry) \<Rightarrow> DlTunnelConfig option \<Rightarrow> bytes \<Rightarrow> xdp_action \<times> bytes" where
  "midn_gtp_dl_xdp h ue_ip_to_route dl_tunnel_config pkt =
     (case process_dl h ue_ip_to_route dl_tunnel_config pkt of Some r \<Rightarrow> r | None \<Rightarrow> (XDP_PASS, pkt))"

end
