(* ===== verification/Xdp_Fastpath.thy ===== *)
theory Xdp_Fastpath
  imports Xdp Upf_Sessions
begin

text \<open>
  The kernel programs against the forwarder in user space. Both see the same bearer table (the
  kernel maps mirror the routing table, \<open>bpf_rep\<close>), so a packet the kernel handles has to leave
  as the forwarder would have sent it. The checksum lemmas show that the outer IPv4 header
  verifies at a receiver. What the helper \<open>bpf_xdp_adjust_head\<close> promises is the hypothesis
  \<open>adjust_ok\<close>: moving the start forward drops bytes and leaves room for an Ethernet header,
  moving it back prepends bytes.
\<close>

definition adjust_ok :: "bpf_helpers \<Rightarrow> bool" where
  "adjust_ok h \<longleftrightarrow>
     (\<forall>p n q. bpf_xdp_adjust_head h p (int n) = Some q \<longrightarrow> n + 14 \<le> length p \<and> q = drop n p) \<and>
     (\<forall>p n q. bpf_xdp_adjust_head h p (- int n) = Some q \<longrightarrow> length q = n + length p \<and> drop n q = p)"

definition sample_helpers :: bpf_helpers where
  "sample_helpers = \<lparr>
     bpf_xdp_adjust_head = (\<lambda>p d.
       if d \<ge> 0 then (if nat d + 14 \<le> length p then Some (drop (nat d) p) else None)
       else Some (replicate (nat (- d)) 0 @ p)),
     bpf_redirect = (\<lambda>_ _. XDP_REDIRECT)\<rparr>"

lemma sample_helpers_ok [simp]: "adjust_ok sample_helpers"
  by (auto simp: adjust_ok_def sample_helpers_def split: if_splits)

section \<open>The Internet checksum\<close>

text \<open>One fold of the carry, over the natural numbers.\<close>

definition nfold :: "nat \<Rightarrow> nat" where
  "nfold s = s mod 65536 + s div 65536"

lemma nfold_mod: "nfold s mod 65535 = s mod 65535"
proof -
  have "s = s div 65536 * 65535 + nfold s"
    using div_mult_mod_eq [of s 65536] by (simp add: nfold_def)
  then show ?thesis by (metis mod_mult_self3)
qed

lemma nfold_0: "nfold s = 0 \<longleftrightarrow> s = 0"
  by (auto simp: nfold_def)

lemma nfold_nfold_le: "s < 1048576 \<Longrightarrow> nfold (nfold s) \<le> 65535"
proof -
  assume "s < 1048576"
  then have "s div 65536 \<le> 15" "s mod 65536 \<le> 65535" by auto
  then have n: "nfold s \<le> 65550" by (simp add: nfold_def)
  show ?thesis
  proof (cases "nfold s < 65536")
    case True
    then show ?thesis by (simp add: nfold_def)
  next
    case False
    then have "nfold s div 65536 = 1" "nfold s mod 65536 = nfold s - 65536"
      using n by (simp_all add: le_div_geq le_mod_geq)
    then show ?thesis using n by (subst nfold_def) linarith
  qed
qed

lemma unat_fold_carry: "unat (fold_carry s) = nfold (unat s)"
proof -
  have "s AND 0xFFFF = take_bit 16 s" by (simp add: take_bit_eq_mask mask_eq_exp_minus_1 del: take_bit_eq_mod)
  then have a: "unat (s AND 0xFFFF) = unat s mod 65536"
    by (simp only: unsigned_take_bit_eq) (simp add: take_bit_eq_mod)
  have d: "unat (drop_bit 16 s) = unat s div 65536"
    by (simp only: unat_drop_bit_eq) (simp add: drop_bit_eq_div)
  have "unat s < 4294967296" using unsigned_less [of s, where ?'a = nat] by simp
  then have "unat s div 65536 < 65536" "unat s mod 65536 < 65536" by auto
  then have "unat (s AND 0xFFFF) + unat (drop_bit 16 s) < 2 ^ LENGTH(32)"
    unfolding a d by simp
  then show ?thesis by (simp add: fold_carry_def unat_add_lem [THEN iffD1] a d nfold_def)
qed

lemma unat_be16_at: "unat (be16_at h i) = unat (from_be [h ! i, h ! (i + 1)] :: u16)"
  by (simp add: be16_at_def unsigned_ucast_eq take_bit_nat_eq_self_iff)
    (use unsigned_less [of "from_be [h ! i, h ! Suc i] :: u16", where ?'a = nat] in simp)

lemma unat_u16_less: "unat (x :: u16) < 65536"
  using unsigned_less [of x, where ?'a = nat] by simp

text \<open>The sum of the sixteen-bit words of a header, and what the checksum of ten words is.\<close>

definition word_sum :: "bytes \<Rightarrow> nat" where
  "word_sum h = (\<Sum>i<10. unat (from_be [h ! (2 * i), h ! (2 * i + 1)] :: u16))"

lemma unat_sum_list:
  "sum_list (map unat ws) < 2 ^ LENGTH('a) \<Longrightarrow> unat (sum_list ws :: 'a::len word) = sum_list (map unat ws)"
proof (induction ws)
  case (Cons w ws)
  then show ?case by (simp add: unat_add_lem [THEN iffD1])
qed simp

lemma word_sum_less: "word_sum h < 1048576"
proof -
  have "word_sum h \<le> (\<Sum>i<(10::nat). 65535)"
    unfolding word_sum_def by (intro sum_mono) (use unat_u16_less in \<open>simp add: less_Suc_eq_le [symmetric]\<close>)
  then show ?thesis by simp
qed

lemma unat_ip_header_checksum: "unat (ip_header_checksum h) = 65535 - nfold (nfold (word_sum h))"
proof -
  let ?ws = "map (be16_at h) [0, 2, 4, 6, 8, 10, 12, 14, 16, 18]"
  have s: "sum_list (map unat ?ws) = word_sum h"
    by (simp add: word_sum_def unat_be16_at eval_nat_numeral)
  then have u: "unat (sum_list ?ws) = word_sum h"
    using word_sum_less [of h] by (subst unat_sum_list) simp_all
  let ?f = "fold_carry (fold_carry (sum_list ?ws))"
  have f: "unat ?f = nfold (nfold (word_sum h))" by (simp only: unat_fold_carry u)
  have "nfold (nfold (word_sum h)) < 65536" using nfold_nfold_le [OF word_sum_less, of h] by simp
  then have "unat (ucast ?f :: u16) = nfold (nfold (word_sum h))"
    by (simp only: unsigned_ucast_eq f) (simp add: take_bit_eq_mod)
  moreover have "ip_header_checksum h = NOT (ucast ?f)"
    by (simp add: ip_header_checksum_def Let_def add.assoc)
  moreover have "unat (NOT x :: u16) = 65535 - unat x" for x
  proof -
    have "NOT x = - 1 - x" by (simp add: not_eq_complement)
    then show ?thesis by (simp only: unat_sub word_order.extremum) (simp add: unsigned_minus_1_eq_mask mask_eq_exp_minus_1)
  qed
  ultimately show ?thesis by simp
qed


lemma receiver_checksum:
  assumes "word_sum h' = word_sum h + unat (ip_header_checksum h)"
  shows "ip_header_checksum h' = 0"
proof -
  let ?S = "word_sum h" and ?f = "nfold (nfold (word_sum h))"
  have le: "?f \<le> 65535" by (rule nfold_nfold_le [OF word_sum_less])
  have S': "word_sum h' + ?f = ?S + 65535" using assms le by (simp add: unat_ip_header_checksum)
  have fm: "?f mod 65535 = ?S mod 65535" by (simp add: nfold_mod)
  have "(word_sum h' + ?f) mod 65535 = (0 + ?f) mod 65535" unfolding S' using fm by simp
  then have "word_sum h' mod 65535 = 0" 
    using mod_eq_dvd_iff_nat [of ?f "word_sum h' + ?f" 65535] by (simp add: dvd_eq_mod_eq_0)
  then have m: "nfold (nfold (word_sum h')) mod 65535 = 0" by (simp add: nfold_mod)
  have "word_sum h' \<noteq> 0"
  proof
    assume "word_sum h' = 0"
    then have "?S = 0" using S' le by simp
    then show False using S' \<open>word_sum h' = 0\<close> by (simp add: nfold_def)
  qed
  then have "nfold (nfold (word_sum h')) \<noteq> 0" by (simp add: nfold_0)
  moreover have "nfold (nfold (word_sum h')) \<le> 65535" by (rule nfold_nfold_le [OF word_sum_less])
  ultimately have "nfold (nfold (word_sum h')) = 65535" using m by (cases "nfold (nfold (word_sum h')) = 65535") auto
  then show ?thesis by (simp add: unat_ip_header_checksum unat_eq_zero [symmetric])
qed

lemma length_outer_ip_header [simp]:
  "length upf = 4 \<Longrightarrow> length enb = 4 \<Longrightarrow> length (outer_ip_header n c upf enb) = 20"
  by (simp add: outer_ip_header_def)

lemma word_sum_outer:
  assumes "length upf = 4" "length enb = 4"
  shows "word_sum (outer_ip_header n c upf enb) = word_sum (outer_ip_header n 0 upf enb) + unat c"
proof -
  obtain u0 u1 u2 u3 where u: "upf = [u0, u1, u2, u3]" using length4D [OF assms(1)] by blast
  obtain e0 e1 e2 e3 where e: "enb = [e0, e1, e2, e3]" using length4D [OF assms(2)] by blast
  have c: "from_be [to_be16 c ! 0, to_be16 c ! 1] = c" for c :: u16
    by simp
  have be: "to_be16 c = [to_be16 c ! 0, to_be16 c ! 1]" for c by (simp add: to_be16_def)
  define c0 c1 where "c0 = to_be16 c ! 0" and "c1 = to_be16 c ! 1"
  have tc: "to_be16 c = [c0, c1]" "from_be [c0, c1] = c" using be [of c] c [of c] by (simp_all add: c0_def c1_def)
  have t0: "to_be16 0 = [0, 0]" by (simp add: to_be16_def)
  obtain n0 n1 where tn: "to_be16 n = [n0, n1]" using be by blast
  obtain f0 f1 where tf: "to_be16 0x4000 = [f0, f1]" using be by blast
  have z: "unat (from_be [0, 0] :: u16) = 0" by (simp add: from_be_def)
  show ?thesis
    by (simp add: word_sum_def outer_ip_header_def u e tc t0 tn tf z eval_nat_numeral)
qed

lemma outer_header_verifies:
  assumes "length upf = 4" "length enb = 4"
  shows "ip_header_checksum
    (outer_ip_header n (ip_header_checksum (outer_ip_header n 0 upf enb)) upf enb) = 0"
  by (rule receiver_checksum) (rule word_sum_outer [OF assms])


section \<open>Downlink\<close>

lemma dl_headers_eq:
  "dl_headers (xdp_of e) cfg (of_nat n) =
     (let ip = outer_ip_header (of_nat (36 + n)) (ip_header_checksum
            (outer_ip_header (of_nat (36 + n)) 0 (upf_ip cfg) (re_enb_addr e))) (upf_ip cfg) (re_enb_addr e)
      in eth_dst_mac cfg @ eth_src_mac cfg @ [0x08, 0x00] @ ip @
         to_be16 2152 @ to_be16 (re_enb_port e) @ to_be16 (of_nat (16 + n)) @ to_be16 0 @
         to_bytes (new_gpdu (re_dl_teid e) (of_nat n)))"
  by (simp add: dl_headers_def Let_def xdp_consts xdp_of_def XdpRouteEntry_new_def to_bytes_eq new_gpdu_def
      gtp_consts add.assoc)

lemma read_u16_be_append:
  "length eth = 14 \<Longrightarrow> read_u16_be (eth @ inner) 12 = Some (from_be [eth ! 12, eth ! 13])"
  by (simp add: read_u16_be_def bounds_check_def nth_append)

lemma read_ip4_append:
  assumes "length eth = 14" "20 \<le> length inner"
  shows "read_ip4 (eth @ inner) 30 = Some (take 4 (drop 16 inner))"
proof -
  have "length (take 4 (drop 16 inner)) = 4" using assms by simp
  then obtain a b c d where l: "take 4 (drop 16 inner) = [a, b, c, d]" using length4D by blast
  then have "drop 16 inner = [a, b, c, d] @ drop 20 inner"
    using append_take_drop_id [of 4 "drop 16 inner"] by simp
  then show ?thesis using assms by (simp add: read_ip4_def bounds_check_def)
qed

lemma process_dl_bearer:
  assumes "length eth = 14" "drop 12 eth = [0x08, 0x00]" "20 \<le> length inner"
    and "routes (take 4 (drop 16 inner)) = Some r" "xr_dl_teid r \<noteq> 0"
  shows "process_dl h routes (Some cfg) (eth @ inner) = Some (dl_rewrite h r cfg (eth @ inner))"
proof -
  have "eth ! 12 = 0x08" "eth ! 13 = 0x00"
    using assms(1,2) nth_drop [of 12 eth 0] nth_drop [of 12 eth 1] by simp_all
  then have "read_u16_be (eth @ inner) 12 = Some 0x0800"
    using assms(1) by (simp add: read_u16_be_append from_be_def)
  then show ?thesis using assms by (simp add: process_dl_def xdp_consts read_ip4_append)
qed

lemma dl_rewrite_grown:
  assumes "adjust_ok h" "bpf_xdp_adjust_head h (eth @ inner) (- 36) = Some p"
    and "length eth = 14" "length inner \<le> 65499"
  shows "dl_rewrite h r cfg (eth @ inner) =
    (bpf_redirect h (redirect_ifindex cfg) 0, dl_headers r cfg (of_nat (length inner)) @ inner)"
proof -
  have "length p = 36 + length (eth @ inner)" "drop 36 p = eth @ inner"
    using assms(1,2) unfolding adjust_ok_def by (metis of_nat_numeral)+
  then have len: "length p = 50 + length inner" and "drop 14 (drop 36 p) = inner" using assms(3) by simp_all
  then have "drop 50 p = inner" by (simp only: drop_drop) simp
  with len show ?thesis using assms(2,4) by (simp add: dl_rewrite_def xdp_consts Let_def)
qed

text \<open>
  C12. A downlink packet for a confirmed bearer leaves the kernel program as the datagram the
  forwarder would have sent for it, to the same eNodeB address and port, behind an Ethernet, an
  IPv4 and a UDP header whose lengths are right and whose IPv4 checksum verifies; the receiver's
  parser finds the inner packet in it.
\<close>

theorem dl_fast_path_matches_forwarder:
  assumes "adjust_ok h" "bpf_rep rt b"
    and "length (upf_ip cfg) = 4" "length (re_enb_addr route) = 4"
    and "length eth = 14" "drop 12 eth = [0x08, 0x00]" "20 \<le> length inner" "length inner \<le> 65499"
    and "dst = take 4 (drop 16 inner)" "lookup_dl rt dst = Some route" "re_dl_teid route \<noteq> 0"
    and "bpf_xdp_adjust_head h (eth @ inner) (- 36) \<noteq> None"
  shows "\<exists>dgram ip. encapsulate_downlink \<lparr>dlp_inner_ip = inner, dlp_ue_ip = dst\<rparr> rt =
        Some (dgram, (re_enb_addr route, re_enb_port route)) \<and>
      midn_gtp_dl_xdp h (UE_IP_TO_ROUTE b) (Some cfg) (eth @ inner) =
        (bpf_redirect h (redirect_ifindex cfg) 0,
         eth_dst_mac cfg @ eth_src_mac cfg @ [0x08, 0x00] @ ip @ to_be16 2152 @ to_be16 (re_enb_port route) @
         to_be16 (of_nat (8 + length dgram)) @ [0, 0] @ dgram) \<and>
      (\<exists>csum. ip = outer_ip_header (of_nat (20 + 8 + length dgram)) csum (upf_ip cfg) (re_enb_addr route)) \<and>
      ip_header_checksum ip = 0 \<and>
      map_option payload (GtpuParser_parse dgram) = Some inner"
proof -
  let ?n = "length inner"
  let ?ip = "outer_ip_header (of_nat (36 + ?n)) (ip_header_checksum
      (outer_ip_header (of_nat (36 + ?n)) 0 (upf_ip cfg) (re_enb_addr route))) (upf_ip cfg) (re_enb_addr route)"
  let ?g = "to_bytes (new_gpdu (re_dl_teid route) (of_nat ?n)) @ inner"
  obtain p where p: "bpf_xdp_adjust_head h (eth @ inner) (- 36) = Some p" using assms(12) by blast
  have r: "UE_IP_TO_ROUTE b dst = Some (xdp_of route)"
    using assms(2,10) by (simp add: bpf_rep_def lookup_dl_def)
  have "xr_dl_teid (xdp_of route) \<noteq> 0" using assms(11) by (simp add: xdp_of_def XdpRouteEntry_new_def)
  then have "midn_gtp_dl_xdp h (UE_IP_TO_ROUTE b) (Some cfg) (eth @ inner) =
      (bpf_redirect h (redirect_ifindex cfg) 0, dl_headers (xdp_of route) cfg (of_nat ?n) @ inner)"
    using r assms(9) process_dl_bearer [OF assms(5,6,7)] dl_rewrite_grown [OF assms(1) p assms(5,8)]
    by (simp add: midn_gtp_dl_xdp_def)
  moreover have "encapsulate_downlink \<lparr>dlp_inner_ip = inner, dlp_ue_ip = dst\<rparr> rt =
      Some (?g, (re_enb_addr route, re_enb_port route))"
    using assms(10) by (simp add: encapsulate_downlink_def Let_def)
  moreover have "ip_header_checksum ?ip = 0" by (rule outer_header_verifies [OF assms(3,4)])
  moreover have "to_be16 0 = [0, 0]" by (simp add: to_be16_def)
  moreover have "map_option payload (GtpuParser_parse ?g) = Some inner"
    by (simp add: GtpuParser_parse_plain)
  ultimately show ?thesis
    by (intro exI [of _ ?g] exI [of _ ?ip]) (auto simp: dl_headers_eq Let_def)
qed


text \<open>A table with one confirmed bearer and its mirror in the kernel, for the witnesses.\<close>

definition sample_route :: RouteEntry where
  "sample_route = RouteEntry_new [10, 0, 0, 2] 7 [192, 168, 1, 9] 9"

definition sample_table :: RoutingTable where
  "sample_table = rt_install RoutingTable_new 5 sample_route"

definition sample_maps :: BpfHandle where
  "sample_maps = \<lparr>TEID_TO_ROUTE = map_option xdp_of \<circ> ul_map sample_table,
     UE_IP_TO_ROUTE = map_option xdp_of \<circ> dl_map sample_table,
     PDN_GW_CONFIG = PdnGwConfig_new [1, 2, 3, 4, 5, 6] [7, 8, 9, 10, 11, 12],
     DL_TUNNEL_CONFIG = DlTunnelConfig_new [1, 2, 3, 4, 5, 6] [7, 8, 9, 10, 11, 12] [192, 168, 1, 1] 3\<rparr>"

lemma sample_maps_rep: "bpf_rep sample_table sample_maps"
  by (simp add: bpf_rep_def sample_maps_def)

theorem dl_fast_path_matches_forwarder_witness:
  "\<exists>dgram ip. encapsulate_downlink \<lparr>dlp_inner_ip = replicate 16 0 @ [10, 0, 0, 2], dlp_ue_ip = [10, 0, 0, 2]\<rparr>
        sample_table = Some (dgram, ([192, 168, 1, 9], 2152)) \<and>
      snd (midn_gtp_dl_xdp sample_helpers (UE_IP_TO_ROUTE sample_maps) (Some (DL_TUNNEL_CONFIG sample_maps))
        (replicate 12 0 @ [8, 0] @ replicate 16 0 @ [10, 0, 0, 2])) =
        [1, 2, 3, 4, 5, 6, 7, 8, 9, 10, 11, 12, 8, 0] @ ip @ to_be16 2152 @ to_be16 2152 @ [0, 36, 0, 0] @ dgram \<and>
      ip_header_checksum ip = 0"
proof -
  have r: "lookup_dl sample_table [10, 0, 0, 2] = Some sample_route"
    by (simp add: sample_table_def sample_route_def lookup_dl_def rt_install_def RouteEntry_new_def)
  have a: "bpf_xdp_adjust_head sample_helpers ((replicate 12 0 @ [8, 0]) @ replicate 16 0 @ [10, 0, 0, 2]) (- 36) \<noteq> None"
    by (simp add: sample_helpers_def)
  from dl_fast_path_matches_forwarder [OF sample_helpers_ok sample_maps_rep, of "DL_TUNNEL_CONFIG sample_maps" sample_route
      "replicate 12 0 @ [8, 0]" "replicate 16 0 @ [10, 0, 0, 2]" "[10, 0, 0, 2]"] r a
  obtain dgram ip where d: "encapsulate_downlink \<lparr>dlp_inner_ip = replicate 16 0 @ [10, 0, 0, 2], dlp_ue_ip = [10, 0, 0, 2]\<rparr>
        sample_table = Some (dgram, ([192, 168, 1, 9], 2152))"
    "snd (midn_gtp_dl_xdp sample_helpers (UE_IP_TO_ROUTE sample_maps) (Some (DL_TUNNEL_CONFIG sample_maps))
        (replicate 12 0 @ [8, 0] @ replicate 16 0 @ [10, 0, 0, 2])) =
        [1, 2, 3, 4, 5, 6, 7, 8, 9, 10, 11, 12, 8, 0] @ ip @ to_be16 2152 @ to_be16 2152 @
        to_be16 (of_nat (8 + length dgram)) @ [0, 0] @ dgram" "ip_header_checksum ip = 0"
    by (auto simp: sample_maps_def sample_route_def RouteEntry_new_def DlTunnelConfig_new_def)
  have "length dgram = 28"
    using d(1) by (auto simp: encapsulate_downlink_def Let_def bind_eq_Some_conv)
  then have "to_be16 (of_nat (8 + length dgram)) = [0, 36]" by (simp add: to_be16_def)
  with d show ?thesis by auto
qed

text \<open>
  A packet whose destination has no confirmed bearer, because there is no session or because
  its eNodeB tunnel endpoint is still the placeholder, goes up the stack unchanged, whatever the
  packet is and whether or not the tunnel configuration is set.
\<close>

theorem dl_unconfirmed_passes:
  assumes "bpf_rep rt b"
    and "\<And>route. lookup_dl rt (take 4 (drop 30 pkt)) = Some route \<Longrightarrow> re_dl_teid route = 0"
  shows "midn_gtp_dl_xdp h (UE_IP_TO_ROUTE b) cfg pkt = (XDP_PASS, pkt)"
proof -
  have rd: "ip = take 4 (drop 30 pkt)" if "read_ip4 pkt 30 = Some ip" for ip
  proof -
    from that have len: "34 \<le> length pkt" and ip: "ip = [drop 30 pkt ! 0, drop 30 pkt ! 1, drop 30 pkt ! 2, drop 30 pkt ! 3]"
      by (auto simp: read_ip4_def bounds_check_def split: if_splits)
    show ?thesis unfolding ip using len by (intro nth_equalityI) (auto simp: less_Suc_eq numeral_eq_Suc)
  qed
  have "xr_dl_teid r = 0" if "UE_IP_TO_ROUTE b (take 4 (drop 30 pkt)) = Some r" for r
    using that assms by (auto simp: bpf_rep_def lookup_dl_def xdp_of_def XdpRouteEntry_new_def)
  then show ?thesis
    by (auto simp: midn_gtp_dl_xdp_def process_dl_def xdp_consts bind_eq_Some_conv dest!: rd
        split: option.splits Option.bind_splits if_splits)
qed

theorem dl_unconfirmed_passes_witness:
  "midn_gtp_dl_xdp sample_helpers (UE_IP_TO_ROUTE sample_maps) (Some (DL_TUNNEL_CONFIG sample_maps))
     (replicate 12 0 @ [8, 0] @ replicate 16 0 @ [10, 0, 0, 3]) =
   (XDP_PASS, replicate 12 0 @ [8, 0] @ replicate 16 0 @ [10, 0, 0, 3])"
  by (rule dl_unconfirmed_passes [OF sample_maps_rep])
     (simp add: sample_table_def sample_route_def lookup_dl_def rt_install_def RouteEntry_new_def RoutingTable_new_def)

section \<open>Uplink\<close>

text \<open>The UDP payload of a frame, and the frames whose GTP-U header has no extension headers behind it.\<close>

definition gtp_of_frame :: "bytes \<Rightarrow> bytes" where
  "gtp_of_frame pkt = drop (22 + unat (pkt ! 14 AND 0x0F) * 4) pkt"

definition no_extension :: "bytes \<Rightarrow> bool" where
  "no_extension gtp \<longleftrightarrow> gtp ! 0 AND 0x07 = 0 \<or> gtp ! 11 = 0"

lemma read_u32_beD:
  "read_u32_be pkt n = Some w \<Longrightarrow> n + 4 \<le> length pkt \<and> w = from_be [pkt ! n, pkt ! (n + 1), pkt ! (n + 2), pkt ! (n + 3)]"
  by (auto simp: read_u32_be_def bounds_check_def split: if_splits)

lemma read_u8D: "read_u8 pkt n = Some w \<Longrightarrow> n < length pkt \<and> w = pkt ! n"
  by (auto simp: read_u8_def bounds_check_def split: if_splits)

lemma ul_classifyD:
  assumes "ul_classify m pkt = Some (Some (ihl, fl))"
  obtains hdr rest where "GtpuHeader_parse (gtp_of_frame pkt) = Some (hdr, rest)" "flags hdr = fl" "is_gpdu hdr"
    "m (teid hdr) \<noteq> None" "gtp_of_frame pkt = drop (22 + ihl) pkt"
proof -
  from assms have ihl: "ihl = unat (pkt ! 14 AND 0x0F) * 4" and r: "read_u8 pkt (22 + ihl) = Some fl"
      "read_u8 pkt (23 + ihl) = Some 0xFF"
    and t: "\<exists>td. read_u32_be pkt (26 + ihl) = Some td \<and> m td \<noteq> None"
    by (auto simp: ul_classify_def xdp_consts Let_def bind_eq_Some_conv add.assoc dest!: read_u8D
        split: if_splits option.splits)
  have g: "gtp_of_frame pkt = drop (22 + ihl) pkt" by (simp add: gtp_of_frame_def ihl)
  from r t obtain td where d: "26 + ihl + 4 \<le> length pkt" "fl = pkt ! (22 + ihl)" "pkt ! (23 + ihl) = 0xFF"
    "td = from_be [pkt ! (26 + ihl), pkt ! (27 + ihl), pkt ! (28 + ihl), pkt ! (29 + ihl)]" "m td \<noteq> None"
    by (auto dest!: read_u8D read_u32_beD simp: add.commute add.left_commute)
  let ?hdr = "\<lparr>flags = pkt ! (22 + ihl), msg_type = pkt ! (23 + ihl),
    gtp_length = from_be [pkt ! (24 + ihl), pkt ! (25 + ihl)], teid = td\<rparr>"
  have "GtpuHeader_parse (gtp_of_frame pkt) = Some (?hdr, drop (30 + ihl) pkt)"
    using d by (simp add: GtpuHeader_parse_def GTPU_SIZE_def g add.commute)
  then show thesis
    by (rule that) (use d g in \<open>simp_all add: is_gpdu_def MSG_GPDU_def\<close>)
qed

lemma midn_gtp_xdp_TX:
  assumes "adjust_ok h" "midn_gtp_xdp h m cfg pkt = (XDP_TX, out)"
  obtains hdr rest c k where "GtpuHeader_parse (gtp_of_frame pkt) = Some (hdr, rest)" "is_gpdu hdr" "m (teid hdr) \<noteq> None"
    "cfg = Some c" "k = (if has_optional_fields hdr then 4 else 0)" "k \<le> length rest"
    "out = gw_mac c @ nic_mac c @ [0x08, 0x00] @ drop k rest"
proof -
  from assms(2) obtain ihl fl c where c: "ul_classify m pkt = Some (Some (ihl, fl))" "cfg = Some c"
      and w: "ul_rewrite h c ihl fl pkt = (XDP_TX, out)"
  proof -
    have "process_ul h m cfg pkt = Some (XDP_TX, out)"
      using assms(2) by (auto simp: midn_gtp_xdp_def split: option.splits)
    then obtain r where r: "ul_classify m pkt = Some r"
        "(case r of None \<Rightarrow> Some (XDP_PASS, pkt) | Some (ihl, fl) \<Rightarrow>
            (case cfg of None \<Rightarrow> Some (XDP_PASS, pkt) | Some c \<Rightarrow> Some (ul_rewrite h c ihl fl pkt))) = Some (XDP_TX, out)"
      unfolding process_ul_def bind_eq_Some_conv by blast
    then show thesis by (cases r; cases cfg) (auto intro: that)
  qed
  from ul_classifyD [OF c(1)] obtain hdr rest where hdr: "GtpuHeader_parse (gtp_of_frame pkt) = Some (hdr, rest)"
      "flags hdr = fl" "is_gpdu hdr" "m (teid hdr) \<noteq> None" and g: "gtp_of_frame pkt = drop (22 + ihl) pkt"
    by blast
  define k :: nat where "k = (if has_optional_fields hdr then 4 else 0)"
  have k: "(if fl AND 7 \<noteq> 0 then 4 else 0) = k"
    using hdr(2) by (simp add: k_def has_optional_fields_def gtp_consts)
  from w obtain p where p: "bpf_xdp_adjust_head h pkt (int (ihl + 16 + k)) = Some p"
      and out: "out = gw_mac c @ nic_mac c @ [0x08, 0x00] @ drop 14 p"
    by (auto simp: ul_rewrite_def Let_def xdp_consts k ac_simps split: option.splits if_splits)
  from p have q: "ihl + 16 + k + 14 \<le> length pkt" "p = drop (ihl + 16 + k) pkt"
    using assms(1) unfolding adjust_ok_def by blast+
  have rest: "rest = drop (30 + ihl) pkt"
    using hdr(1) g by (auto simp: GtpuHeader_parse_def GTPU_SIZE_def add.commute split: if_splits)
  show thesis
    by (rule that [OF hdr(1,3,4) c(2) k_def]) (use q out rest in \<open>simp_all add: add.commute add.left_commute\<close>)
qed

text \<open>
  C13. A frame the uplink program transmits, and whose GTP-U header has no extension headers, carries
  the inner packet that the forwarder extracts from the same UDP payload, for a session the
  forwarder knows, behind the Ethernet header of the gateway configuration.
\<close>

theorem ul_fast_path_matches_forwarder:
  assumes "adjust_ok h" "bpf_rep rt b" "midn_gtp_xdp h (TEID_TO_ROUTE b) cfg pkt = (XDP_TX, out)"
    and "no_extension (gtp_of_frame pkt)"
  shows "\<exists>c inner route. cfg = Some c \<and> out = gw_mac c @ nic_mac c @ [0x08, 0x00] @ inner \<and>
    process_uplink (gtp_of_frame pkt) rt src = ForwardUl \<lparr>ulp_inner_ip = inner, ulp_route = route\<rparr>"
proof -
  obtain hdr rest c k where h: "GtpuHeader_parse (gtp_of_frame pkt) = Some (hdr, rest)" "is_gpdu hdr"
      "TEID_TO_ROUTE b (teid hdr) \<noteq> None" "cfg = Some c"
    and k: "k = (if has_optional_fields hdr then 4 else 0)" "k \<le> length rest"
    and out: "out = gw_mac c @ nic_mac c @ [0x08, 0x00] @ drop k rest"
    using midn_gtp_xdp_TX [OF assms(1,3)] by metis
  obtain route where r: "lookup_ul rt (teid hdr) = Some route"
    using h(3) assms(2) by (auto simp: bpf_rep_def lookup_ul_def)
  have gtp: "gtp_of_frame pkt = to_bytes hdr @ rest" using GtpuHeader_parse_SomeD [OF h(1)] by simp
  have "GtpuParser_parse (gtp_of_frame pkt) = Some \<lparr>header = hdr, payload = drop k rest\<rparr>"
  proof (cases "has_optional_fields hdr")
    case False
    then show ?thesis by (simp add: gtp k GtpuParser_parse_plain)
  next
    case True
    then have "gtp_of_frame pkt ! 11 = 0"
      using assms(4) by (simp add: no_extension_def has_optional_fields_def gtp gtp_consts to_bytes_def Let_def)
    then have "rest ! 3 = 0" by (simp add: gtp nth_append)
    with True k show ?thesis by (simp add: GtpuParser_parse_def h(1))
  qed
  moreover have "msg_type hdr \<noteq> MSG_ECHO_REQ" using h(2) by (simp add: is_gpdu_def gtp_consts)
  ultimately show ?thesis using h(2,4) r out by (auto simp: process_uplink_def)
qed

text \<open>An Ethernet frame with an IPv4 and a UDP header for the GTP-U port.\<close>

definition ul_frame :: "bytes \<Rightarrow> bytes" where
  "ul_frame gtp = replicate 12 0 @ [0x08, 0x00, 0x45, 0, 0, 0, 0, 0, 0, 0, 64, 17] @ replicate 10 0 @
     [0, 0, 0x08, 0x68, 0, 0, 0, 0] @ gtp"

theorem ul_fast_path_matches_forwarder_witness:
  "\<exists>inner route. snd (midn_gtp_xdp sample_helpers (TEID_TO_ROUTE sample_maps) (Some (PDN_GW_CONFIG sample_maps))
       (ul_frame [0x30, 0xFF, 0, 2, 0, 0, 0, 5, 0xAA, 0xBB])) =
         [1, 2, 3, 4, 5, 6, 7, 8, 9, 10, 11, 12, 8, 0] @ inner \<and>
     process_uplink (gtp_of_frame (ul_frame [0x30, 0xFF, 0, 2, 0, 0, 0, 5, 0xAA, 0xBB])) sample_table ([], 0) =
       ForwardUl \<lparr>ulp_inner_ip = inner, ulp_route = route\<rparr>"
proof -
  let ?pkt = "ul_frame [0x30, 0xFF, 0, 2, 0, 0, 0, 5, 0xAA, 0xBB]"
  have m: "midn_gtp_xdp sample_helpers (TEID_TO_ROUTE sample_maps) (Some (PDN_GW_CONFIG sample_maps)) ?pkt =
      (XDP_TX, [1, 2, 3, 4, 5, 6, 7, 8, 9, 10, 11, 12, 8, 0, 0xAA, 0xBB])"
    by code_simp
  have n: "no_extension (gtp_of_frame ?pkt)" by code_simp
  from ul_fast_path_matches_forwarder [OF sample_helpers_ok sample_maps_rep m n, of "([], 0)"]
  obtain inner route where
    "[1, 2, 3, 4, 5, 6, 7, 8, 9, 10, 11, 12, 8, 0, 0xAA, 0xBB] = [1, 2, 3, 4, 5, 6, 7, 8, 9, 10, 11, 12, 8, 0] @ inner"
    "process_uplink (gtp_of_frame ?pkt) sample_table ([], 0) = ForwardUl \<lparr>ulp_inner_ip = inner, ulp_route = route\<rparr>"
    by (auto simp: sample_maps_def PdnGwConfig_new_def)
  with m show ?thesis by (intro exI [of _ inner] exI [of _ route]) simp
qed

text \<open>
  C30. Extension headers are where the two paths differ: when the GTP-U header announces extension
  headers, the frame the uplink program transmits has them in front of the inner packet that the
  forwarder would have extracted, so what leaves is not that packet.
\<close>

theorem ul_fast_path_keeps_extensions:
  assumes "adjust_ok h" "midn_gtp_xdp h m (Some c) pkt = (XDP_TX, out)" "\<not> no_extension (gtp_of_frame pkt)"
    and "process_uplink (gtp_of_frame pkt) rt src = ForwardUl p"
  shows "\<exists>ext. ext \<noteq> [] \<and> out = gw_mac c @ nic_mac c @ [0x08, 0x00] @ ext @ ulp_inner_ip p"
proof -
  obtain hdr rest k where h: "GtpuHeader_parse (gtp_of_frame pkt) = Some (hdr, rest)"
    and k: "k = (if has_optional_fields hdr then 4 else 0)" "k \<le> length rest"
    and out: "out = gw_mac c @ nic_mac c @ [0x08, 0x00] @ drop k rest"
    by (rule midn_gtp_xdp_TX [OF assms(1,2)]) simp
  have gtp: "gtp_of_frame pkt = to_bytes hdr @ rest" using GtpuHeader_parse_SomeD [OF h] by simp
  have o: "has_optional_fields hdr" "rest ! 3 \<noteq> 0"
    using assms(3) by (simp_all add: no_extension_def has_optional_fields_def gtp gtp_consts to_bytes_def Let_def)
  have "skip_ext_headers (drop 4 rest) = Some (ulp_inner_ip p)"
    using assms(4) o k(2) by (cases "skip_ext_headers (drop 4 rest)")
      (auto simp: process_uplink_def GtpuParser_parse_def h k(1) split: option.splits if_splits)
  then have "ext_chain (drop 4 rest) (ulp_inner_ip p)" by (simp only: skip_ext_headers_iff)
  from ext_chain_prefix [OF this] obtain ext where "ext \<noteq> []" "drop 4 rest = ext @ ulp_inner_ip p" by blast
  then show ?thesis using out k o(1) by auto
qed

theorem ul_fast_path_keeps_extensions_witness:
  "\<exists>ext p. ext \<noteq> [] \<and> snd (midn_gtp_xdp sample_helpers (TEID_TO_ROUTE sample_maps) (Some (PDN_GW_CONFIG sample_maps))
       (ul_frame [0x34, 0xFF, 0, 2, 0, 0, 0, 5, 0, 0, 0, 0x85, 1, 9, 9, 0, 0xAA, 0xBB])) =
         [1, 2, 3, 4, 5, 6, 7, 8, 9, 10, 11, 12, 8, 0] @ ext @ ulp_inner_ip p \<and>
     process_uplink (gtp_of_frame (ul_frame [0x34, 0xFF, 0, 2, 0, 0, 0, 5, 0, 0, 0, 0x85, 1, 9, 9, 0, 0xAA, 0xBB]))
       sample_table ([], 0) = ForwardUl p"
proof -
  let ?pkt = "ul_frame [0x34, 0xFF, 0, 2, 0, 0, 0, 5, 0, 0, 0, 0x85, 1, 9, 9, 0, 0xAA, 0xBB]"
  have m: "midn_gtp_xdp sample_helpers (TEID_TO_ROUTE sample_maps) (Some (PDN_GW_CONFIG sample_maps)) ?pkt =
      (XDP_TX, [1, 2, 3, 4, 5, 6, 7, 8, 9, 10, 11, 12, 8, 0, 1, 9, 9, 0, 0xAA, 0xBB])"
    by code_simp
  have n: "\<not> no_extension (gtp_of_frame ?pkt)" by code_simp
  have p: "process_uplink (gtp_of_frame ?pkt) sample_table ([], 0) =
      ForwardUl \<lparr>ulp_inner_ip = [0xAA, 0xBB], ulp_route = sample_route\<rparr>"
    by code_simp
  from ul_fast_path_keeps_extensions [OF sample_helpers_ok m n p] p show ?thesis
    unfolding m by (auto simp: sample_maps_def PdnGwConfig_new_def)
qed

end
