(* ===== verification/Proto_Properties.thy ===== *)
theory Proto_Properties
  imports Nas_Codec Per Upf
begin

text \<open>
  What the protocol libraries promise to the layers above them: protected NAS connections
  deliver in order, counts are reconstructed soundly, messages survive encoding and decoding,
  PER loops are bounded by what the wire can announce, and the GTP-U parser agrees with the datagram
  format of the standard up to stated differences. The last section states where decoders accept more, or encoders
  produce something else, than the formats allow.
\<close>

section \<open>NAS\<close>

text \<open>
  C19. In both directions of an LTE NAS connection whose ends hold the same keys and the same count,
  the receiver obtains exactly the delivered messages, in order, whatever is lost on the way, as
  long as fewer than 256 messages in a row are lost and the 32-bit count does not run out.
\<close>

theorem nas_connection_in_order:
  assumes "channel_ok cr sht" "same_keys s r" "gaps_ok 0 ms"
  shows "(dl_count s = dl_count r \<and> unat (dl_count s) + length ms < 4294967296 \<longrightarrow>
      transmit (encode_protected cr sht bearer) (decode_protected_downlink cr bearer) s r ms =
        map (Some \<circ> fst) (filter snd ms)) \<and>
    (ul_count s = ul_count r \<and> unat (ul_count s) + length ms < 4294967296 \<longrightarrow>
      transmit (encode_protected_uplink cr sht bearer) (decode_protected cr bearer) s r ms =
        map (Some \<circ> fst) (filter snd ms))"
  using lte_dl.transmit_in_order [OF assms(1,2) _ assms(3)] lte_ul.transmit_in_order [OF assms(1,2) _ assms(3)]
  by blast

definition sample_context :: NasSecurityContext where
  "sample_context = NasSecurityContext_new sample_crypto (replicate 32 7) Eea2 Eia2"

theorem nas_connection_in_order_witness:
  "transmit (encode_protected sample_crypto SHT_INTEGRITY_CIPHERED NAS_BEARER)
     (decode_protected_downlink sample_crypto NAS_BEARER) sample_context sample_context
     [([7, 0x42], True), ([7, 0x43], False), ([7, 0x44], True)] = [Some [7, 0x42], Some [7, 0x44]]"
proof -
  have "channel_ok sample_crypto SHT_INTEGRITY_CIPHERED" by (simp add: channel_ok_def SHT_INTEGRITY_CIPHERED_def)
  moreover have "unat (dl_count sample_context) = 0"
    by (simp add: sample_context_def NasSecurityContext_new_def Let_def split_beta)
  ultimately show ?thesis
    using nas_connection_in_order [of sample_crypto SHT_INTEGRITY_CIPHERED sample_context sample_context
        "[([7, 0x42], True), ([7, 0x43], False), ([7, 0x44], True)]" NAS_BEARER] by simp
qed



text \<open>
  C32. Each of the nine plain LTE NAS messages is decoded to the message it was built from: the
  identity, the challenge and its token, the response, the selected algorithms, the timer, the
  address and the access point name, the detach flags, and which message it is arrive as they were
  sent, three-bit fields in their three bits. A GUTI element behind an accept, which the codec reads
  and does not write, arrives too. The decoded structs have no field for the tracking area list of
  an accept, the replayed capability of a security mode command and the identity of a detach
  request: these are not in the decoded message, but the octets determine them. Every other
  message type is refused with that type.
\<close>

theorem nas_messages_roundtrip:
  assumes "imsi < 10 ^ 15" "length rand = 16" "length autn = 16" "length res = 8"
    and "list_all (\<lambda>t. length t = 5) tais" "length tais \<le> 50"
    and "\<forall>i. ip = Some i \<longrightarrow> length i = 4" "\<forall>a. apn = Some a \<longrightarrow> length a < 256 \<and> valid_utf8 a"
    and "length g = 10"
  shows "decode_nas (encode_attach_request imsi t k) =
      Inr (AttachRequest \<lparr>ar_eps_attach_type = t AND 7, ar_nas_ksi = k AND 7, ar_imsi = Some imsi,
        ar_ue_network_cap = [0x20, 0x40]\<rparr>) \<and>
    decode_nas (encode_auth_request k rand autn) =
      Inr (AuthenticationRequest \<lparr>aq_nas_ksi = k AND 7, aq_rand = rand, aq_autn = autn\<rparr>) \<and>
    decode_nas (encode_auth_response res) = Inr (AuthenticationResponse \<lparr>ap_res = res\<rparr>) \<and>
    decode_nas (encode_sec_mode_cmd eea eia k cap) =
      Inr (SecurityModeCommand \<lparr>smc_eea = eea, smc_eia = eia, smc_nas_ksi = k AND 7\<rparr>) \<and>
    decode_nas encode_sec_mode_complete = Inr SecurityModeComplete \<and>
    decode_nas (encode_attach_accept ar t3412 tais ip apn) =
      Inr (AttachAccept \<lparr>aa_attach_result = ar AND 7, aa_t3412_value = t3412, aa_guti = None,
        aa_ip_address = ip, aa_apn = apn\<rparr>) \<and>
    decode_nas (encode_attach_accept ar t3412 tais ip apn @ IEI_GUTI # 10 # g) =
      Inr (AttachAccept \<lparr>aa_attach_result = ar AND 7, aa_t3412_value = t3412, aa_guti = Some g,
        aa_ip_address = ip, aa_apn = apn\<rparr>) \<and>
    decode_nas encode_attach_complete = Inr AttachComplete \<and>
    decode_nas (encode_detach_request t so k guti) =
      Inr (DetachRequest \<lparr>dr_detach_type = t AND 7, dr_switch_off = so, dr_nas_ksi = k AND 7\<rparr>) \<and>
    decode_nas encode_detach_accept = Inr DetachAccept \<and>
    (\<forall>ar' t' tais' ip' apn'. list_all (\<lambda>t. length t = 5) tais' \<and> length tais' \<le> 50 \<and>
       (\<forall>i. ip' = Some i \<longrightarrow> length i = 4) \<and>
       encode_attach_accept ar t3412 tais ip apn = encode_attach_accept ar' t' tais' ip' apn' \<longrightarrow> tais' = tais) \<and>
    (\<forall>eea' eia' k' cap'. encode_sec_mode_cmd eea eia k cap = encode_sec_mode_cmd eea' eia' k' cap' \<longrightarrow> cap' = cap) \<and>
    (\<forall>t' so' k' guti'. encode_detach_request t so k guti = encode_detach_request t' so' k' guti' \<longrightarrow> guti' = guti) \<and>
    (mt \<notin> {MT_ATTACH_REQUEST, MT_AUTHENTICATION_REQUEST, MT_AUTHENTICATION_RESPONSE, MT_SECURITY_MODE_COMMAND,
        MT_SECURITY_MODE_COMPLETE, MT_ATTACH_ACCEPT, MT_ATTACH_COMPLETE, MT_DETACH_REQUEST, MT_DETACH_ACCEPT} \<longrightarrow>
       decode_nas (NAS_PLAIN_HEADER # mt # body) = Inl (UnknownGtpMsgType mt))"
proof (intro conjI allI impI)
  fix ar' t' tais' ip' apn'
  assume "list_all (\<lambda>t. length t = 5) tais' \<and> length tais' \<le> 50 \<and> (\<forall>i. ip' = Some i \<longrightarrow> length i = 4) \<and>
    encode_attach_accept ar t3412 tais ip apn = encode_attach_accept ar' t' tais' ip' apn'"
  then show "tais' = tais" using attach_accept_tais_inject [OF assms(5-7)] by metis
next
  fix eea' eia' k' cap' assume "encode_sec_mode_cmd eea eia k cap = encode_sec_mode_cmd eea' eia' k' cap'"
  then show "cap' = cap" by (rule unread_fields_inject(1) [symmetric])
next
  fix t' so' k' guti' assume "encode_detach_request t so k guti = encode_detach_request t' so' k' guti'"
  then show "guti' = guti" by (rule unread_fields_inject(2) [symmetric])
next
  assume "mt \<notin> {MT_ATTACH_REQUEST, MT_AUTHENTICATION_REQUEST, MT_AUTHENTICATION_RESPONSE, MT_SECURITY_MODE_COMMAND,
    MT_SECURITY_MODE_COMPLETE, MT_ATTACH_ACCEPT, MT_ATTACH_COMPLETE, MT_DETACH_REQUEST, MT_DETACH_ACCEPT}"
  then show "decode_nas (NAS_PLAIN_HEADER # mt # body) = Inl (UnknownGtpMsgType mt)"
    by (simp add: decode_nas_plain)
qed (simp_all add: assms(2-) attach_request_roundtrip [OF assms(1)] auth_request_roundtrip auth_response_roundtrip sec_mode_cmd_roundtrip
       attach_accept_roundtrip attach_accept_guti_roundtrip detach_request_roundtrip bare_messages_roundtrip)

theorem nas_messages_roundtrip_witness:
  "decode_nas (encode_attach_request 1010000000001 1 7) =
      Inr (AttachRequest \<lparr>ar_eps_attach_type = 1, ar_nas_ksi = 7, ar_imsi = Some 1010000000001,
        ar_ue_network_cap = [0x20, 0x40]\<rparr>) \<and>
   decode_nas (encode_attach_accept 1 0x49 [[0, 0xF1, 0x10, 0, 1]] (Some [10, 0, 0, 2]) (Some [97]) @
        IEI_GUTI # 10 # replicate 10 5) =
      Inr (AttachAccept \<lparr>aa_attach_result = 1, aa_t3412_value = 0x49, aa_guti = Some (replicate 10 5),
        aa_ip_address = Some [10, 0, 0, 2], aa_apn = Some [97]\<rparr>) \<and>
   decode_nas encode_detach_accept = Inr DetachAccept"
proof -
  have h: "(1010000000001 :: u64) < 10 ^ 15" "length (replicate 16 (1 :: u8)) = 16" "length (replicate 16 (2 :: u8)) = 16"
    "length (replicate 8 (3 :: u8)) = 8" "list_all (\<lambda>t. length t = 5) [[0, 0xF1, 0x10, 0, 1 :: u8]]"
    "length [[0, 0xF1, 0x10, 0, 1 :: u8]] \<le> 50" "\<forall>i. Some [10, 0, 0, 2 :: u8] = Some i \<longrightarrow> length i = 4"
    "\<forall>a. Some [97] = Some a \<longrightarrow> length a < 256 \<and> valid_utf8 a" "length (replicate 10 (5 :: u8)) = 10"
    by (simp_all add: valid_utf8.simps)
  have a: "(1 :: u8) AND 7 = 1" "(7 :: u8) AND 7 = 7" by simp_all
  show ?thesis
    using nas_messages_roundtrip [OF h, of 1 7 Eea0 Eia0 "[]" 1 "0x49" False "[]" 0 "[]"] unfolding a by blast
qed

section \<open>PER\<close>

lemma unat_shift_in:
  assumes "unat (v :: u64) < 2 ^ m" "m < 64"
  shows "unat (push_bit 1 v OR of_bool b) < 2 ^ Suc m"
proof -
  have h: "\<not> bit v j" if "m \<le> j" for j
    using take_bit_unat_less [OF assms(1)] that by (metis bit_take_bit_iff not_less)
  then have h: "j < m" if "bit v j" for j using that not_less by blast
  have "take_bit (Suc m) (push_bit 1 v OR of_bool b) = push_bit 1 v OR of_bool b"
    by (rule bit_word_eqI) (simp only: bit_simps, use h in \<open>force simp: bit_simps\<close>)
  then have "unat (push_bit 1 v OR of_bool b) = take_bit (Suc m) (unat (push_bit 1 v OR of_bool b))"
    by (metis unsigned_take_bit_eq)
  then show ?thesis by (metis take_bit_nat_less_exp)
qed

text \<open>A read of \<open>n\<close> bits yields a value of \<open>n\<close> bits and moves on by \<open>n\<close> bits inside the data.\<close>

lemma read_bits_loop_bounds:
  "read_bits_loop n v r = Some (x, r') \<Longrightarrow> unat v < 2 ^ m \<Longrightarrow> m + n \<le> 64 \<Longrightarrow> pr_bit_pos r \<le> 8 * length (pr_data r) \<Longrightarrow>
   unat x < 2 ^ (m + n) \<and> pr_data r' = pr_data r \<and> pr_bit_pos r' = pr_bit_pos r + n \<and>
   pr_bit_pos r' \<le> 8 * length (pr_data r)"
proof (induction n arbitrary: v r m)
  case 0
  then show ?case by simp
next
  case (Suc n)
  from Suc.prems(1) obtain b r1 where b: "read_bit r = Some (b, r1)"
    "read_bits_loop n (push_bit 1 v OR of_bool b) r1 = Some (x, r')" by (auto simp: bind_eq_Some_conv)
  from b(1) have r1: "r1 = r\<lparr>pr_bit_pos := pr_bit_pos r + 1\<rparr>" "pr_bit_pos r + 1 \<le> 8 * length (pr_data r)"
    by (auto simp: read_bit_eq split: if_splits)
  have "unat (push_bit 1 v OR of_bool b) < 2 ^ Suc m" using Suc.prems by (intro unat_shift_in) simp_all
  from Suc.IH [OF b(2) this] Suc.prems(3) r1 show ?case by simp
qed

lemma read_bits_bounds:
  assumes "read_bits r n = Some (x, r')" "n \<le> 64" "pr_bit_pos r \<le> 8 * length (pr_data r)"
  shows "unat x < 2 ^ n" "pr_data r' = pr_data r" "pr_bit_pos r' = pr_bit_pos r + n"
    "pr_bit_pos r' \<le> 8 * length (pr_data r)"
  using read_bits_loop_bounds [of n 0 r x r' 0] assms by (simp_all add: read_bits_def)

lemma read_align_bounds:
  assumes "pr_bit_pos r \<le> 8 * length (pr_data r)"
  shows "pr_bit_pos r \<le> pr_bit_pos (read_align r)" "pr_bit_pos (read_align r) \<le> 8 * length (pr_data r)"
    "pr_data (read_align r) = pr_data r"
proof -
  let ?p = "pr_bit_pos r" and ?n = "length (pr_data r)"
  show "pr_bit_pos (read_align r) \<le> 8 * ?n"
  proof (cases "?p mod 8 = 0")
    case False
    have e: "?p = 8 * (?p div 8) + ?p mod 8" by simp
    then have "?p div 8 < ?n" using assms False by linarith
    then have "8 * (?p div 8) + 8 \<le> 8 * ?n" by simp
    moreover have "?p + (8 - ?p mod 8) = 8 * (?p div 8) + 8"
      using e mod_less_divisor [of 8 ?p] by linarith
    ultimately show ?thesis using False by (simp add: read_align_def Let_def)
  qed (simp add: read_align_def assms Let_def)
qed (auto simp: read_align_def Let_def Nat.add_diff_assoc)

lemma read_bit_bounds:
  assumes "read_bit r = Some (b, r')"
  shows "pr_data r' = pr_data r" "pr_bit_pos r' = pr_bit_pos r + 1" "pr_bit_pos r' \<le> 8 * length (pr_data r)"
  using assms by (auto simp: read_bit_eq split: if_splits)

lemma read_length_determinant_bounds:
  assumes "read_length_determinant r = Some (n, r')" "pr_bit_pos r \<le> 8 * length (pr_data r)"
  shows "n < 16384 \<and> pr_data r' = pr_data r \<and> pr_bit_pos r + 8 \<le> pr_bit_pos r' \<and>
    pr_bit_pos r' \<le> 8 * length (pr_data r)"
proof -
  note al = read_align_bounds [OF assms(2)]
  obtain b0 r1 where r1: "read_bit (read_align r) = Some (b0, r1)"
    using assms(1) by (auto simp: read_length_determinant_def bind_eq_Some_conv)
  note b = read_bit_bounds [OF r1]
  show ?thesis
  proof (cases b0)
    case False
    with assms(1) r1 obtain x where "read_bits r1 7 = Some (x, r')" "n = unat x"
      by (auto simp: read_length_determinant_def bind_eq_Some_conv)
    with read_bits_bounds [of r1 7 x r'] b al show ?thesis by simp
  next
    case True
    with assms(1) r1 obtain r2 x where r2: "read_bit r1 = Some (False, r2)" "read_bits r2 14 = Some (x, r')" "n = unat x"
      by (auto simp: read_length_determinant_def bind_eq_Some_conv split: if_splits)
    note c = read_bit_bounds [OF r2(1)]
    show ?thesis using read_bits_bounds [OF r2(2)] c b al r2(3) by simp
  qed
qed

lemma read_octets_loop_bounds:
  "repeatM (\<lambda>r. Option.bind (read_bits r 8) (\<lambda>(v, r). Some (ucast v, r))) n r = Some (d, r') \<Longrightarrow>
   pr_bit_pos r \<le> 8 * length (pr_data r) \<Longrightarrow>
   length d = n \<and> pr_data r' = pr_data r \<and> pr_bit_pos r' = pr_bit_pos r + 8 * n \<and> pr_bit_pos r' \<le> 8 * length (pr_data r)"
  for d :: bytes
proof (induction n arbitrary: r d)
  case (Suc n)
  from Suc.prems(1) obtain v r1 xs where r1: "read_bits r 8 = Some (v, r1)"
    "repeatM (\<lambda>r. Option.bind (read_bits r 8) (\<lambda>(v, r). Some (ucast v, r))) n r1 = Some (xs, r')" "d = ucast v # xs"
    by (auto simp: bind_eq_Some_conv)
  note b = read_bits_bounds [OF r1(1) _ Suc.prems(2), simplified]
  show ?case using Suc.IH [OF r1(2)] b r1(3) by simp
qed simp

text \<open>
  C33. Whatever the bytes of a PDU are, a length determinant read from it is below 16384 and advances
  the reader, and an octet string read from it has that many bytes, all of which the PDU
  contains: the reader never leaves the data. So each loop of the decoders that is driven by
  a length determinant makes fewer than 16384 rounds.
\<close>

theorem per_reads_stay_inside:
  assumes "pr_bit_pos r \<le> 8 * length (pr_data r)"
  shows "(read_length_determinant r = Some (n, r1) \<longrightarrow>
       n < 16384 \<and> pr_bit_pos r + 8 \<le> pr_bit_pos r1 \<and> pr_bit_pos r1 \<le> 8 * length (pr_data r)) \<and>
    (read_octet_string r = Some (d, r2) \<longrightarrow>
       length d < 16384 \<and> pr_bit_pos r + 8 + 8 * length d \<le> pr_bit_pos r2 \<and> pr_bit_pos r2 \<le> 8 * length (pr_data r))"
proof (intro conjI impI)
  assume "read_length_determinant r = Some (n, r1)"
  from read_length_determinant_bounds [OF this assms]
  show "n < 16384" "pr_bit_pos r + 8 \<le> pr_bit_pos r1" "pr_bit_pos r1 \<le> 8 * length (pr_data r)" by simp_all
next
  assume "read_octet_string r = Some (d, r2)"
  then obtain m r' where m: "read_length_determinant r = Some (m, r')" "read_octets r' m = Some (d, r2)"
    by (auto simp: read_octet_string_def bind_eq_Some_conv)
  note l = read_length_determinant_bounds [OF m(1) assms]
  have "pr_bit_pos r' \<le> 8 * length (pr_data r')" using l by simp
  note al = read_align_bounds [OF this]
  note o = read_octets_loop_bounds [OF m(2) [unfolded read_octets_def]]
  show "length d < 16384" "pr_bit_pos r + 8 + 8 * length d \<le> pr_bit_pos r2" "pr_bit_pos r2 \<le> 8 * length (pr_data r)"
    using l al o by auto
qed

theorem per_reads_stay_inside_witness:
  "read_octet_string (PerReader_new [2, 0xAA, 0xBB, 0xCC]) =
     Some ([0xAA, 0xBB], \<lparr>pr_data = [2, 0xAA, 0xBB, 0xCC], pr_bit_pos = 24\<rparr>) \<and> (24 :: nat) \<le> 32"
proof -
  have r: "read_octet_string (PerReader_new [2, 0xAA, 0xBB, 0xCC]) =
     Some ([0xAA, 0xBB], \<lparr>pr_data = [2, 0xAA, 0xBB, 0xCC], pr_bit_pos = 24\<rparr>)" by code_simp
  with per_reads_stay_inside [of "PerReader_new [2, 0xAA, 0xBB, 0xCC]"] show ?thesis
    by (simp add: PerReader_new_def)
qed


section \<open>GTP-U\<close>

text \<open>
  C34. The parser against the datagram format of TS 29.281, which its documentation refers to. A datagram
  of the standard is parsed to its header and inner packet exactly when it has no stray extension
  type, that is, unless its E flag is clear, another of the three flags is set and the octet for the
  next extension header type, which the standard then leaves unevaluated, is not zero: then the
  parser returns something else than the inner packet, or nothing. Conversely, what the parser accepts
  is a datagram of the standard with that header and inner packet, unless the version, the
  protocol type or the length field are not as the standard demands, or there is such a stray
  type. The parser checks none of these three: the inner packet it returns depends on the E, S
  and PN flags and the octets after the header only.
\<close>

theorem gtpu_parser_against_standard:
  "(ts29281_datagram h inner buf \<longrightarrow>
      (GtpuParser_parse buf = Some \<lparr>header = h, payload = inner\<rparr> \<longleftrightarrow> \<not> stray_extension_type h buf)) \<and>
   (GtpuParser_parse buf = Some \<lparr>header = h, payload = inner\<rparr> \<longrightarrow>
      ts29281_datagram h inner buf \<or> \<not> ts29281_header h (length buf - 8) \<or> stray_extension_type h buf) \<and>
   (flags h AND 7 = flags h' AND 7 \<longrightarrow>
      map_option payload (GtpuParser_parse (to_bytes h @ body)) = map_option payload (GtpuParser_parse (to_bytes h' @ body)))"
proof (intro conjI impI)
  assume "ts29281_datagram h inner buf"
  then show "GtpuParser_parse buf = Some \<lparr>header = h, payload = inner\<rparr> \<longleftrightarrow> \<not> stray_extension_type h buf"
    using parse_body by (auto simp only: ts29281_datagram_def)
next
  assume "GtpuParser_parse buf = Some \<lparr>header = h, payload = inner\<rparr>"
  then show "ts29281_datagram h inner buf \<or> \<not> ts29281_header h (length buf - 8) \<or> stray_extension_type h buf"
    using body_of_parse [of buf h inner] by (auto simp: ts29281_datagram_def)
qed (rule parse_payload_flags)

definition sample_sequence_header :: GtpuHeader where
  "sample_sequence_header = \<lparr>flags = 0x32, msg_type = MSG_GPDU, gtp_length = 12, teid = 5\<rparr>"

theorem gtpu_parser_against_standard_witness:
  "GtpuParser_parse (to_bytes sample_sequence_header @ [0, 1, 0] @ 0 # [9, 9, 9, 9, 9, 9, 9, 9]) =
     Some \<lparr>header = sample_sequence_header, payload = [9, 9, 9, 9, 9, 9, 9, 9]\<rparr> \<and>
   GtpuParser_parse (to_bytes sample_sequence_header @ [0, 1, 0] @ 0x85 # [9, 9, 9, 9, 9, 9, 9, 9]) \<noteq>
     Some \<lparr>header = sample_sequence_header, payload = [9, 9, 9, 9, 9, 9, 9, 9]\<rparr>"
proof -
  let ?h = sample_sequence_header and ?p = "[9, 9, 9, 9, 9, 9, 9, 9]"
  have o: "has_optional_fields ?h" "\<not> has_ext_hdr ?h"
    by (simp_all add: has_optional_fields_def has_ext_hdr_def sample_sequence_header_def gtp_consts)
  have "ts29281_header ?h 12" by (simp add: ts29281_header_def gtp_version_def sample_sequence_header_def gtp_consts)
  then have d: "ts29281_datagram ?h ?p (to_bytes ?h @ [0, 1, 0] @ nx # ?p)" for nx
    using ts29281_body.type_not_evaluated [OF o, of "[0, 1, 0]" nx ?p] by (simp add: ts29281_datagram_def numeral_eq_Suc)
  have s: "stray_extension_type ?h (to_bytes ?h @ [0, 1, 0] @ nx # ?p) \<longleftrightarrow> nx \<noteq> 0" for nx
    using o nth_11 [of "[0, 1, 0]" ?h nx ?p] by (simp add: stray_extension_type_def)
  note t = gtpu_parser_against_standard [THEN conjunct1, rule_format, OF d]
  show ?thesis using t [of 0] t [of "0x85"] by (simp only: s) simp
qed

text \<open>
  The loop of \<open>skip_ext_headers\<close> with a bound on its rounds: \<open>None\<close> when the rounds are used up,
  otherwise what the loop returned.
\<close>

fun skip_ext_rounds :: "nat \<Rightarrow> bytes \<Rightarrow> bytes option option" where
  "skip_ext_rounds 0 buf = None"
| "skip_ext_rounds (Suc n) buf =
     (if buf = [] then Some None
      else
        let len_units = unat (buf ! 0) in
        if len_units = 0 then Some None
        else
          let total_bytes = len_units * 4 in
          if length buf < total_bytes then Some None
          else
            let next_type = buf ! (total_bytes - 1); buf' = drop total_bytes buf in
            if next_type = 0 then Some (Some buf') else skip_ext_rounds n buf')"

text \<open>
  C35. The loop over extension headers ends, on any buffer: a round for every four bytes and one more
  are always enough, because a header of length zero is refused and every other takes at least
  four bytes. Its result is that of the recursive function.
\<close>

theorem skip_ext_headers_rounds:
  "skip_ext_rounds (length buf div 4 + 1) buf = Some (skip_ext_headers buf)"
proof -
  have "length buf div 4 < n \<Longrightarrow> skip_ext_rounds n buf = Some (skip_ext_headers buf)" for n
  proof (induction n arbitrary: buf)
    case (Suc n)
    let ?k = "unat (buf ! 0) * 4"
    have "length (drop ?k buf) div 4 < n" if "unat (buf ! 0) \<noteq> 0" "\<not> length buf < ?k"
    proof -
      have "length (drop ?k buf) + 4 \<le> length buf" using that by simp
      then have "length (drop ?k buf) div 4 + 1 \<le> length buf div 4"
        using div_le_mono [of "length (drop ?k buf) + 4" "length buf" 4] by simp
      then show ?thesis using Suc.prems by linarith
    qed
    then show ?case
      using Suc.IH [of "drop ?k buf"]
      by (subst skip_ext_headers.simps) (simp add: Let_def del: unat_gt_0 unsigned_eq_0_iff)
  qed simp
  then show ?thesis by (metis less_add_one)
qed

section \<open>Where the formats and the code differ\<close>

text \<open>
  The echo response the forwarder builds has the version 1 and the type and TEID it should have,
  but its protocol type bit is clear, so it is a GTP' message to a receiver.
\<close>

theorem echo_response_protocol_type:
  "\<exists>h rest. GtpuHeader_parse (build_echo_response td) = Some (h, rest) \<and> gtp_version h = 1 \<and>
     msg_type h = MSG_ECHO_RSP \<and> teid h = td \<and> has_optional_fields h \<and> flags h AND PT_GTP = 0"
proof -
  let ?h = "\<lparr>flags = 0x22, msg_type = MSG_ECHO_RSP, gtp_length = 4, teid = td\<rparr>"
  have "build_echo_response td = to_bytes ?h @ [0, 0, 0, 0]"
    by (simp add: build_echo_response_def to_bytes_def Let_def to_be16_def)
  then have "GtpuHeader_parse (build_echo_response td) = Some (?h, [0, 0, 0, 0])"
    by (simp only: GtpuHeader_parse_to_bytes)
  then show ?thesis
    by (intro exI conjI, assumption) (simp_all add: gtp_version_def has_optional_fields_def gtp_consts)
qed

text \<open>
  The parser looks at the next extension header type even when the E flag, which is what says
  that the field is to be evaluated, is clear: a datagram with only a sequence number and a
  stray byte there loses the front of its inner packet, or is rejected.
\<close>

theorem next_extension_evaluated_without_flag:
  assumes "\<not> has_ext_hdr h" "flags h AND FLAG_S \<noteq> 0" "length opt = 3" "nx \<noteq> 0"
  shows "GtpuParser_parse (to_bytes h @ opt @ nx # inner) =
      map_option (\<lambda>i. \<lparr>header = h, payload = i\<rparr>) (skip_ext_headers inner) \<and>
    skip_ext_headers inner \<noteq> Some inner"
proof
  have "has_optional_fields h"
    using assms(2) by (auto simp: has_optional_fields_def bit.conj_disj_distrib or_eq_0_iff)
  with assms(3,4) show "GtpuParser_parse (to_bytes h @ opt @ nx # inner) =
      map_option (\<lambda>i. \<lparr>header = h, payload = i\<rparr>) (skip_ext_headers inner)"
    by (simp only: GtpuParser_parse_options if_True simp_thms)
  show "skip_ext_headers inner \<noteq> Some inner" by (rule skip_ext_headers_moves)
qed

theorem next_extension_evaluated_without_flag_witness:
  "GtpuParser_parse (to_bytes \<lparr>flags = 0x32, msg_type = MSG_GPDU, gtp_length = 12, teid = 5\<rparr> @ [0, 1, 0] @ 0x85 # [1, 0, 0, 0, 9, 9, 9, 9]) =
     Some \<lparr>header = \<lparr>flags = 0x32, msg_type = MSG_GPDU, gtp_length = 12, teid = 5\<rparr>, payload = [9, 9, 9, 9]\<rparr>"
proof -
  have "skip_ext_headers [1, 0, 0, 0, 9, 9, 9, 9] = Some [9, 9, 9, 9]" by code_simp
  with next_extension_evaluated_without_flag [of "\<lparr>flags = 0x32, msg_type = MSG_GPDU, gtp_length = 12, teid = 5\<rparr>"
      "[0, 1, 0]" "0x85" "[1, 0, 0, 0, 9, 9, 9, 9]"]
  show ?thesis by (simp add: has_ext_hdr_def gtp_consts)
qed

text \<open>
  A constrained integer is not checked against its upper bound when it is read: there are
  bytes from which the reader returns 3 for the range 0 to 2, a value that the writer refuses to
  write, whatever it has written before.
\<close>

theorem constrained_int_read_out_of_range:
  "\<exists>r. read_constrained_int (PerReader_new [0xC0]) 0 2 = Some (3, r) \<and> write_constrained_int w 3 0 2 = None"
proof -
  have "read_constrained_int (PerReader_new [0xC0]) 0 2 = Some (3, \<lparr>pr_data = [0xC0], pr_bit_pos = 2\<rparr>)" by code_simp
  moreover have "write_constrained_int w 3 0 2 = None" by (simp add: write_constrained_int_def)
  ultimately show ?thesis by blast
qed

end
