(* ===== verification/Core_Properties.thy ===== *)
theory Core_Properties
  imports Hss Kdf Mme_Invariant Upf_Sessions
begin

text \<open>
  What the libraries under the mobility management promise to it: the entity storage is a map
  of entities, the HSS hands out fresh vectors that the subscribers' cards accept, Milenage is the
  construction of the standard, derivation inputs determine their parameters, and the tunnel
  manager never gives one TEID to two tunnels.
\<close>

section \<open>Entity storage\<close>

lemma subscriber_count_card:
  assumes "world_wf w"
  shows "subscriber_count w = card (dom (abs_world w))"
proof -
  have n: "length (w_live w) < 4294967296"
    using world_shapeD(8) [OF assms] unat_u32_less by simp
  have "unat ` dom (abs_world w) = {k. k < length (w_live w) \<and> id (w_live w ! k)}"
  proof (intro equalityI subsetI)
    fix k assume "k \<in> {k. k < length (w_live w) \<and> id (w_live w ! k)}"
    then have "unat (of_nat k :: u32) = k" "is_live w (of_nat k)"
      using n by (simp_all add: is_live_def unat_of_nat take_bit_nat_eq_self)
    then show "k \<in> unat ` dom (abs_world w)" by (force simp: abs_world_def dom_def)
  qed (auto simp: abs_world_def dom_def is_live_def split: if_splits)
  moreover have "card (unat ` dom (abs_world w)) = card (dom (abs_world w))"
    by (rule card_image) (auto simp: inj_on_def unat_eq_iff)
  ultimately have "card (dom (abs_world w)) = length (filter id (w_live w))"
    by (simp add: length_filter_conv_card)
  then show ?thesis using assms by (simp add: subscriber_count_def world_wf_def)
qed

text \<open>
  C26. The entity storage, seven parallel vectors with a free list, implements a map from entity
  identifiers to entities: spawning yields an unused identifier with an empty entity, despawning
  removes the entity, an update changes that one component of that one entity if it is live and
  nothing otherwise, the accessors read the map, and the invariant is kept.
\<close>

theorem world_implements_entity_map:
  assumes "world_wf w"
  shows "(unat (next_id w) + 1 < 4294967296 \<longrightarrow>
      (\<exists>i w'. spawn w = Some (i, w') \<and> world_wf w' \<and> abs_world w i = None \<and>
         abs_world w' = (abs_world w)(i \<mapsto> empty_entity))) \<and>
    world_wf (despawn w i) \<and> abs_world (despawn w i) = (abs_world w)(i := None) \<and>
    world_wf (set_auth_state w i st) \<and>
    abs_world (set_auth_state w i st) = (abs_world w)(i := map_option (e_auth_update (\<lambda>_. st)) (abs_world w i)) \<and>
    world_wf (security_mut w i f) \<and>
    abs_world (security_mut w i f) = (abs_world w)(i := map_option (e_security_update f) (abs_world w i)) \<and>
    auth_state w i = map_option e_auth (abs_world w i) \<and>
    security w i = map_option e_security (abs_world w i) \<and>
    subscriber_count w = card (dom (abs_world w))"
proof -
  have "subscriber_count w = card (dom (abs_world w))" by (rule subscriber_count_card [OF assms])
  moreover have "unat (next_id w) + 1 < 4294967296 \<longrightarrow>
      (\<exists>i w'. spawn w = Some (i, w') \<and> world_wf w' \<and> abs_world w i = None \<and>
         abs_world w' = (abs_world w)(i \<mapsto> empty_entity))"
    using spawn_abs [OF assms] by metis
  ultimately show ?thesis using assms by (simp add: ecs_abs ecs_wf)
qed


theorem world_implements_entity_map_witness:
  "\<exists>i w'. spawn World_new = Some (i, w') \<and> abs_world w' i = Some empty_entity \<and> subscriber_count World_new = 0"
proof -
  have "unat (next_id World_new) + 1 < 4294967296" by (simp add: World_new_def)
  then obtain i w' where "spawn World_new = Some (i, w')" "abs_world w' = (abs_world World_new)(i \<mapsto> empty_entity)"
      "subscriber_count World_new = card (dom (abs_world World_new))"
    using world_implements_entity_map [OF world_wf_new, of 0 Unauthenticated id] by blast
  then show ?thesis by simp
qed

section \<open>Authentication\<close>

text \<open>
  C25. The authentication functions are those of the Milenage standard: the rotations and constants
  the code builds by writing into one buffer in place give the same vector as the construction
  with rotated blocks, for every key, operator constant, challenge, sequence number and field.
\<close>

theorem milenage_matches_standard:
  assumes "aes_len cr" "length rand = 16" "length (mc_opc ctx) = 16" "length sqn = 6" "length amf = 2"
  shows "milenage_compute cr ctx rand sqn amf = milenage_spec cr (mc_k ctx) (mc_opc ctx) rand sqn amf"
  using assms by (rule milenage_compute_spec)

theorem milenage_matches_standard_witness:
  "milenage_compute sample_crypto (MilenageContext_new (replicate 16 1) (replicate 16 2)) (replicate 16 3)
     (replicate 6 4) [0x80, 0] =
   milenage_spec sample_crypto (replicate 16 1) (replicate 16 2) (replicate 16 3) (replicate 6 4) [0x80, 0]"
  using milenage_matches_standard [of sample_crypto "replicate 16 3"
      "MilenageContext_new (replicate 16 1) (replicate 16 2)" "replicate 6 4" "[0x80, 0]"]
  by (simp add: MilenageContext_new_def)

text \<open>
  C36. Over any sequence of requests, in which those for different subscribers may be interleaved, the
  subscriber server answers exactly the requests for provisioned subscribers. The answer carries
  the challenge, the sequence number the subscriber's record started with plus its number of
  earlier requests, modulo \<open>2\<^sup>48\<close>, and the vector the Milenage standard gives for the subscriber's key,
  operator constant and that number; the subscriber's card, which knows only the key and the
  constant, accepts the token made from it and recovers the same number and vector. Within \<open>2\<^sup>48\<close>
  requests no subscriber is given a sequence number twice. Afterwards each record has moved on by
  its own number of requests and nothing else has changed.
\<close>

theorem hss_serves_fresh_vectors:
  assumes "aes_len cr" "hss_wf h" "length qs \<le> 2 ^ 48" "list_all (\<lambda>q. length (snd q) = 16) qs"
    and serve: "hss_serve cr h qs = (answers, h')"
  shows "(\<forall>i imsi rand. i < length qs \<longrightarrow> qs ! i = (imsi, rand) \<longrightarrow>
      (case h imsi of
         None \<Rightarrow> answers ! i = None
       | Some sub \<Rightarrow> (\<exists>sqn v. answers ! i = Some \<lparr>hi_rand = rand, hi_vector = v, hi_sqn_used = sqn\<rparr> \<and>
           unat (Sqn_from_bytes sqn) = (unat (sr_sqn sub) + requests_for imsi (take i qs)) mod 2 ^ 48 \<and>
           v = milenage_spec cr (mc_k (sr_ctx sub)) (mc_opc (sr_ctx sub)) rand sqn [0x80, 0x00] \<and>
           usim_answer cr (mc_k (sr_ctx sub)) (mc_opc (sr_ctx sub)) rand (autn v sqn [0x80, 0x00]) = Some (sqn, v)))) \<and>
    (\<forall>i j imsi. i < j \<longrightarrow> j < length qs \<longrightarrow> fst (qs ! i) = imsi \<longrightarrow> fst (qs ! j) = imsi \<longrightarrow> has_subscriber h imsi \<longrightarrow>
       map_option hi_sqn_used (answers ! i) \<noteq> map_option hi_sqn_used (answers ! j)) \<and>
    (\<forall>imsi. h' imsi = map_option (\<lambda>sub. sub\<lparr>sr_sqn := take_bit 48 (sr_sqn sub + of_nat (requests_for imsi qs))\<rparr>) (h imsi))"
proof (intro conjI allI impI)
  have n: "requests_for imsi (take i qs) < 281474976710656" if "i < length qs" for i imsi
    using requests_for_le [of imsi "take i qs"] that assms(3) by simp
  have a: "answers = fst (hss_serve cr h qs)" and h': "h' = snd (hss_serve cr h qs)" using serve by simp_all
  {
    fix i imsi rand assume i: "i < length qs" "qs ! i = (imsi, rand)"
    have "length (snd (qs ! i)) = 16" using assms(4) i(1) unfolding list_all_length by blast
    with i(2) have r: "length rand = 16" by simp
    show "case h imsi of
         None \<Rightarrow> answers ! i = None
       | Some sub \<Rightarrow> (\<exists>sqn v. answers ! i = Some \<lparr>hi_rand = rand, hi_vector = v, hi_sqn_used = sqn\<rparr> \<and>
           unat (Sqn_from_bytes sqn) = (unat (sr_sqn sub) + requests_for imsi (take i qs)) mod 2 ^ 48 \<and>
           v = milenage_spec cr (mc_k (sr_ctx sub)) (mc_opc (sr_ctx sub)) rand sqn [0x80, 0x00] \<and>
           usim_answer cr (mc_k (sr_ctx sub)) (mc_opc (sr_ctx sub)) rand (autn v sqn [0x80, 0x00]) = Some (sqn, v))"
      using hss_answer_vector [OF assms(1,2) i r _ n [OF i(1)]] hss_answer [OF assms(2) i, of cr]
      unfolding a by (simp split: option.split)
  next
    fix i j imsi assume ij: "i < j" "j < length qs" "fst (qs ! i) = imsi" "fst (qs ! j) = imsi" "has_subscriber h imsi"
    then obtain sub where "h imsi = Some sub" by (auto simp: has_subscriber_def)
    from hss_sqns_differ [OF assms(2) ij(1-4) this n [OF ij(2)]]
    show "map_option hi_sqn_used (answers ! i) \<noteq> map_option hi_sqn_used (answers ! j)" unfolding a .
  next
    fix imsi
    show "h' imsi = map_option (\<lambda>sub. sub\<lparr>sr_sqn := take_bit 48 (sr_sqn sub + of_nat (requests_for imsi qs))\<rparr>) (h imsi)"
      unfolding h' hss_serve_state [OF assms(2)] advance_sqn_def [abs_def] ..
  }
qed

definition two_subscribers :: Hss where
  "two_subscribers = provision (provision Hss_new 1 (replicate 16 1) (replicate 16 2)) 2 (replicate 16 5) (replicate 16 6)"

theorem hss_serves_fresh_vectors_witness:
  "let qs = [(1, replicate 16 3), (2, replicate 16 4), (1, replicate 16 3)];
       answers = fst (hss_serve sample_crypto two_subscribers qs)
   in answers ! 0 \<noteq> None \<and> map_option hi_sqn_used (answers ! 0) \<noteq> map_option hi_sqn_used (answers ! 2)"
proof -
  let ?qs = "[(1, replicate 16 3), (2, replicate 16 4), (1, replicate 16 3)] :: (u64 \<times> bytes) list"
  let ?a = "fst (hss_serve sample_crypto two_subscribers ?qs)"
  have wf: "hss_wf two_subscribers" unfolding two_subscribers_def by (intro hss_wf_provision hss_wf_new) simp_all
  have p: "two_subscribers 1 \<noteq> None" by (simp add: two_subscribers_def provision_def)
  note t = hss_serves_fresh_vectors [OF sample_crypto_ok(4) wf, of ?qs ?a "snd (hss_serve sample_crypto two_subscribers ?qs)"]
  have "map_option hi_sqn_used (?a ! 0) \<noteq> map_option hi_sqn_used (?a ! 2)"
    by (rule t [THEN conjunct2, THEN conjunct1, rule_format, of 0 2 1]) (simp_all add: p has_subscriber_def del: hss_serve.simps)
  moreover have "?a ! 0 \<noteq> None"
    using t [THEN conjunct1, rule_format, of 0 1 "replicate 16 3"] p
    by (auto simp del: hss_serve.simps split: option.splits)
  ultimately show ?thesis by (simp del: hss_serve.simps add: Let_def)
qed

text \<open>
  The input of a key derivation determines what the key is derived from: two derivations with the
  same function code and number of parameters have the same input only if all parameters are
  the same. In particular the session root keys of two serving networks, or of two sequence
  numbers, are derived from different inputs.
\<close>

theorem kdf_input_determines_parameters:
  assumes "length ps = length qs" "list_all (\<lambda>p. length p < 65536) (ps @ qs)"
  shows "kdf_input fc ps = kdf_input fc qs \<longleftrightarrow> ps = qs"
  using kdf_input_inject [OF assms] by auto

theorem kdf_input_determines_parameters_witness:
  "kdf_input FC_KASME_DERIVATION [[1, 2], [3]] \<noteq> kdf_input FC_KASME_DERIVATION [[1], [2, 3]]"
  using kdf_input_determines_parameters [of "[[1, 2], [3]]" "[[1], [2, 3]]" FC_KASME_DERIVATION] by simp

section \<open>Tunnels\<close>

text \<open>
  The tunnel manager's invariant: the TEIDs of live tunnels and those on the free list are
  disjoint, without repetition, and all were handed out before.
\<close>

definition tm_inv :: "TunnelManager \<Rightarrow> bool" where
  "tm_inv tm \<longleftrightarrow> 0x10000 \<le> unat (tm_next_ul_teid tm) \<and> distinct (tm_free_ul_teids tm) \<and>
     (\<forall>t \<in> set (tm_free_ul_teids tm) \<union> dom (ul_map (tm_routing tm)). 0x10000 \<le> unat t \<and> unat t < unat (tm_next_ul_teid tm)) \<and>
     set (tm_free_ul_teids tm) \<inter> dom (ul_map (tm_routing tm)) = {}"

definition tm_room :: "TunnelManager \<Rightarrow> bool" where
  "tm_room tm \<longleftrightarrow> unat (tm_next_ul_teid tm) + 1 < 4294967296"

interpretation tunnel_ids: id_allocator tm_inv "\<lambda>tm. dom (ul_map (tm_routing tm))" tm_room
    "\<lambda>tm. Some (create_tunnel tm ip dl enb qci)" destroy_tunnel for ip dl enb qci
proof
  fix tm assume inv: "tm_inv tm" and room: "tm_room tm"
  show "\<exists>i s'. Some (create_tunnel tm ip dl enb qci) = Some (i, s') \<and> tm_inv s' \<and>
      i \<notin> dom (ul_map (tm_routing tm)) \<and> dom (ul_map (tm_routing s')) = insert i (dom (ul_map (tm_routing tm)))"
  proof (cases "tm_free_ul_teids tm = []")
    case True
    have "unat (tm_next_ul_teid tm + 1) = Suc (unat (tm_next_ul_teid tm))"
      using room by (simp add: tm_room_def unat_word_ariths)
    then have n: "unat (tm_next_ul_teid tm + 1) = Suc (unat (tm_next_ul_teid tm))" "tm_next_ul_teid tm + 1 \<noteq> 0"
      by auto
    show ?thesis
      using True inv n by (auto simp: create_tunnel_def tm_alloc_ul_teid_def tm_inv_def Let_def less_Suc_eq dom_def)
  next
    case False
    have "distinct (tm_free_ul_teids tm)" using inv by (simp add: tm_inv_def)
    then show ?thesis
      using False inv last_notin_butlast [OF _ False] set_butlast_last [OF False]
      by (auto simp: create_tunnel_def tm_alloc_ul_teid_def tm_inv_def distinct_butlast)
  qed
next
  fix tm t assume "tm_inv tm" "t \<in> dom (ul_map (tm_routing tm))"
  then show "tm_inv (destroy_tunnel tm t) \<and>
      dom (ul_map (tm_routing (destroy_tunnel tm t))) = dom (ul_map (tm_routing tm)) - {t}"
    by (auto simp: destroy_tunnel_def rt_remove_def tm_inv_def split: if_splits)
qed


datatype tunnel_op = CreateTunnel bytes u32 bytes u8 | DestroyTunnel u32

fun tm_step :: "TunnelManager \<Rightarrow> tunnel_op \<Rightarrow> TunnelManager" where
  "tm_step tm (CreateTunnel ip dl enb qci) = snd (create_tunnel tm ip dl enb qci)"
| "tm_step tm (DestroyTunnel t) = destroy_tunnel tm t"

definition tm_bound :: "nat \<Rightarrow> TunnelManager \<Rightarrow> bool" where
  "tm_bound n tm \<longleftrightarrow> tm_inv tm \<and> unat (tm_next_ul_teid tm) \<le> 0x10000 + n \<and> finite (dom (ul_map (tm_routing tm)))"

lemma tm_bound_new: "tm_bound 0 TunnelManager_new"
  by (simp add: tm_bound_def tm_inv_def TunnelManager_new_def RoutingTable_new_def)

lemma create_tunnel_next:
  "tm_room tm \<Longrightarrow> unat (tm_next_ul_teid (snd (create_tunnel tm ip dl enb qci))) \<le> unat (tm_next_ul_teid tm) + 1"
proof -
  assume "tm_room tm"
  then have "unat (tm_next_ul_teid tm + 1) = Suc (unat (tm_next_ul_teid tm))"
    by (simp add: tm_room_def unat_word_ariths)
  moreover from this have "tm_next_ul_teid tm + 1 \<noteq> 0" by auto
  ultimately show ?thesis by (auto simp: create_tunnel_def tm_alloc_ul_teid_def Let_def)
qed

lemma destroy_tunnel_absent: "ul_map (tm_routing tm) t = None \<Longrightarrow> destroy_tunnel tm t = tm"
  by (simp add: destroy_tunnel_def rt_remove_def)

lemma tm_bound_step:
  assumes b: "tm_bound n tm" and n: "n + 0x10001 < 4294967296"
  shows "tm_bound (Suc n) (tm_step tm op)"
proof (cases op)
  case (CreateTunnel ip dl enb qci)
  obtain t tm' where c: "create_tunnel tm ip dl enb qci = (t, tm')" by fastforce
  have r: "tm_inv tm" "tm_room tm" using b n by (auto simp: tm_bound_def tm_room_def)
  have "tm_inv tm'" "dom (ul_map (tm_routing tm')) = insert t (dom (ul_map (tm_routing tm)))"
    using tunnel_ids.alloc_fresh [OF r, of ip dl enb qci t tm'] c by simp_all
  then show ?thesis using create_tunnel_next [OF r(2), of ip dl enb qci] b c CreateTunnel
    by (simp add: tm_bound_def)
next
  case (DestroyTunnel t)
  show ?thesis
  proof (cases "t \<in> dom (ul_map (tm_routing tm))")
    case True
    then show ?thesis
      using tunnel_ids.release_ok [of tm t] b DestroyTunnel
      by (auto simp: tm_bound_def destroy_tunnel_def rt_remove_def)
  next
    case False
    then have "ul_map (tm_routing tm) t = None" by blast
    then show ?thesis using b DestroyTunnel by (simp add: destroy_tunnel_absent tm_bound_def)
  qed
qed

lemma tm_bound_run:
  "tm_bound n tm \<Longrightarrow> n + length ops + 0x10000 < 4294967296 \<Longrightarrow> tm_bound (n + length ops) (foldl tm_step tm ops)"
proof (induction ops arbitrary: n tm)
  case (Cons op ops)
  then show ?case using Cons.IH [OF tm_bound_step [OF Cons.prems(1)], of op] by simp
qed simp

text \<open>
  After any sequence of tunnel creations and destructions, fewer than the 32-bit counter allows, a
  new tunnel gets a TEID that no live tunnel has, its routes are installed, every other uplink
  route stays as it was, and the count of tunnels goes up by one.
\<close>

theorem new_tunnel_gets_unused_teid:
  assumes "length ops + 0x10001 < 4294967296" "tm = foldl tm_step TunnelManager_new ops"
    and "create_tunnel tm ip dl enb qci = (t, tm')"
  shows "lookup_ul (tm_routing tm) t = None \<and>
    lookup_ul (tm_routing tm') t = Some (RouteEntry_new ip dl enb qci) \<and>
    lookup_dl (tm_routing tm') ip = Some (RouteEntry_new ip dl enb qci) \<and>
    (\<forall>u. u \<noteq> t \<longrightarrow> lookup_ul (tm_routing tm') u = lookup_ul (tm_routing tm) u) \<and>
    active_tunnel_count tm' = active_tunnel_count tm + 1"
proof -
  have b: "tm_bound (length ops) tm"
    using tm_bound_run [OF tm_bound_new, of ops] assms(1,2) by simp
  then have r: "tm_inv tm" "tm_room tm" "finite (dom (ul_map (tm_routing tm)))"
    using assms(1) by (auto simp: tm_bound_def tm_room_def)
  have f: "t \<notin> dom (ul_map (tm_routing tm))" "dom (ul_map (tm_routing tm')) = insert t (dom (ul_map (tm_routing tm)))"
    using tunnel_ids.alloc_fresh [OF r(1,2), of ip dl enb qci t tm'] assms(3) by simp_all
  obtain tm1 where a: "tm_alloc_ul_teid tm = (t, tm1)" "tm' = tm1\<lparr>tm_routing := rt_install (tm_routing tm1) t (RouteEntry_new ip dl enb qci)\<rparr>"
    using assms(3) by (auto simp: create_tunnel_def split: prod.splits)
  have "tm_routing tm1 = tm_routing tm"
    using a(1) by (auto simp: tm_alloc_ul_teid_def Let_def split: if_splits)
  then show ?thesis using f r(3) a(2)
    by (auto simp: lookup_ul_def lookup_dl_def active_tunnel_count_def rt_len_def RouteEntry_new_def)
qed

theorem new_tunnel_gets_unused_teid_witness:
  "lookup_ul (tm_routing (tm_step TunnelManager_new (CreateTunnel [10, 0, 0, 1] 7 [1, 1, 1, 1] 9))) 0x10001 = None"
proof -
  let ?tm = "foldl tm_step TunnelManager_new [CreateTunnel [10, 0, 0, 1] 7 [1, 1, 1, 1] 9]"
  have "create_tunnel ?tm [10, 0, 0, 2] 8 [1, 1, 1, 1] 9 = (0x10001, snd (create_tunnel ?tm [10, 0, 0, 2] 8 [1, 1, 1, 1] 9))"
    by (simp add: create_tunnel_def tm_alloc_ul_teid_def TunnelManager_new_def Let_def split_beta)
  from new_tunnel_gets_unused_teid [OF _ refl this] show ?thesis by simp
qed

end
