(* ===== verification/Nas5gs_Codec.thy ===== *)
theory Nas5gs_Codec
  imports Nas5gs_Security Nas_Codec
begin

text \<open>
  The 5G NAS codec, \<open>crates/midn-proto/src/nas5gs/codec.rs\<close>, with the identity type of
  \<open>messages.rs\<close>: the three-byte plain header, one encoder and decoder per message, and the
  protected envelope in both directions. A \<open>[u8; N]\<close> is a byte list of that length. The theory
  shows that every message survives encoding and decoding and that both directions of the
  envelope are instances of the channel interface of the LTE security theory.
\<close>

section \<open>Constants\<close>

definition NAS5GS_MM_EPD :: u8 where "NAS5GS_MM_EPD = 0x7E"
definition NAS5GS_SHT_PLAIN :: u8 where "NAS5GS_SHT_PLAIN = 0"
definition NAS5GS_SHT_INTEGRITY :: u8 where "NAS5GS_SHT_INTEGRITY = 1"
definition NAS5GS_SHT_INTEGRITY_CIPHERED :: u8 where "NAS5GS_SHT_INTEGRITY_CIPHERED = 2"
definition NAS5GS_SHT_INTEGRITY_NEW_CTX :: u8 where "NAS5GS_SHT_INTEGRITY_NEW_CTX = 3"
definition NAS5GS_SHT_INTEGRITY_CIPHERED_NEW_CTX :: u8 where "NAS5GS_SHT_INTEGRITY_CIPHERED_NEW_CTX = 4"
definition MT_REGISTRATION_REQUEST :: u8 where "MT_REGISTRATION_REQUEST = 0x41"
definition MT_REGISTRATION_ACCEPT :: u8 where "MT_REGISTRATION_ACCEPT = 0x42"
definition MT_REGISTRATION_COMPLETE :: u8 where "MT_REGISTRATION_COMPLETE = 0x43"
definition MT_REGISTRATION_REJECT :: u8 where "MT_REGISTRATION_REJECT = 0x44"
definition MT_DEREGISTRATION_REQUEST :: u8 where "MT_DEREGISTRATION_REQUEST = 0x45"
definition MT_DEREGISTRATION_ACCEPT :: u8 where "MT_DEREGISTRATION_ACCEPT = 0x46"
definition MT_AUTHENTICATION_REQUEST_5G :: u8 where "MT_AUTHENTICATION_REQUEST_5G = 0x56"
definition MT_AUTHENTICATION_RESPONSE_5G :: u8 where "MT_AUTHENTICATION_RESPONSE_5G = 0x57"
definition MT_AUTHENTICATION_REJECT_5G :: u8 where "MT_AUTHENTICATION_REJECT_5G = 0x58"
definition MT_IDENTITY_REQUEST :: u8 where "MT_IDENTITY_REQUEST = 0x5B"
definition MT_IDENTITY_RESPONSE :: u8 where "MT_IDENTITY_RESPONSE = 0x5C"
definition MT_SECURITY_MODE_COMMAND_5G :: u8 where "MT_SECURITY_MODE_COMMAND_5G = 0x5D"
definition MT_SECURITY_MODE_COMPLETE_5G :: u8 where "MT_SECURITY_MODE_COMPLETE_5G = 0x5E"
definition IDTYPE_SUCI :: u8 where "IDTYPE_SUCI = 1"
definition IDTYPE_5G_GUTI :: u8 where "IDTYPE_5G_GUTI = 2"
definition IDTYPE_PEI :: u8 where "IDTYPE_PEI = 3"

lemmas nas5gs_consts = NAS5GS_MM_EPD_def NAS5GS_SHT_PLAIN_def NAS5GS_SHT_INTEGRITY_def
  NAS5GS_SHT_INTEGRITY_CIPHERED_def NAS5GS_SHT_INTEGRITY_NEW_CTX_def
  NAS5GS_SHT_INTEGRITY_CIPHERED_NEW_CTX_def MT_REGISTRATION_REQUEST_def MT_REGISTRATION_ACCEPT_def
  MT_REGISTRATION_COMPLETE_def MT_REGISTRATION_REJECT_def MT_DEREGISTRATION_REQUEST_def
  MT_DEREGISTRATION_ACCEPT_def MT_AUTHENTICATION_REQUEST_5G_def MT_AUTHENTICATION_RESPONSE_5G_def
  MT_AUTHENTICATION_REJECT_5G_def MT_IDENTITY_REQUEST_def MT_IDENTITY_RESPONSE_def
  MT_SECURITY_MODE_COMMAND_5G_def MT_SECURITY_MODE_COMPLETE_5G_def IDTYPE_SUCI_def
  IDTYPE_5G_GUTI_def IDTYPE_PEI_def

section \<open>Messages\<close>

record Suci =
  mcc :: bytes
  mnc :: bytes
  routing_indicator :: u16
  protection_scheme :: u8
  home_network_pki :: u8
  msin :: bytes

record DecodedRegistrationRequest =
  rr_registration_type :: u8
  rr_ng_ksi :: u8
  rr_guti :: "bytes option"
  rr_ue_security_cap :: u16

record DecodedIdentityResponse =
  ir_suci :: "Suci option"
  ir_guti :: "bytes option"
  ir_pei :: "bytes option"

record DecodedAuthenticationRequest5g =
  aq5_ng_ksi :: u8
  aq5_rand :: bytes
  aq5_autn :: bytes

record DecodedAuthenticationResponse5g =
  ap5_res_star :: bytes

record DecodedSecurityModeCommand5g =
  smc5_nas_cipher_alg :: u8
  smc5_nas_integrity_alg :: u8
  smc5_replayed_ue_sec_cap :: u16

record DecodedRegistrationAccept =
  ra_registration_result :: u8
  ra_guti :: bytes
  ra_tai_list :: "bytes list"

datatype Nas5gsPdu =
    RegistrationRequest DecodedRegistrationRequest
  | IdentityRequest u8
  | IdentityResponse DecodedIdentityResponse
  | AuthenticationRequest5g DecodedAuthenticationRequest5g
  | AuthenticationResponse5g DecodedAuthenticationResponse5g
  | AuthenticationReject5g
  | SecurityModeCommand5g DecodedSecurityModeCommand5g
  | SecurityModeComplete5g
  | RegistrationAccept DecodedRegistrationAccept
  | RegistrationComplete
  | RegistrationReject u8
  | DeregistrationRequest bool
  | DeregistrationAccept

definition header_5g :: "u8 \<Rightarrow> bytes" where
  "header_5g msg_type = [NAS5GS_MM_EPD, NAS5GS_SHT_PLAIN, msg_type]"

section \<open>Registration request\<close>

text \<open>The capability field: the first two bytes of an LV element, or zero.\<close>

definition read_cap :: "bytes \<Rightarrow> u16" where
  "read_cap rest =
     (case read_lv rest of
        Some (cap, _) \<Rightarrow> if length cap \<ge> 2 then from_be [cap ! 0, cap ! 1] else 0
      | None \<Rightarrow> 0)"

definition decode_registration_request :: "bytes \<Rightarrow> Nas5gsPdu result" where
  "decode_registration_request body =
     (if body = [] then Inl (TooShort 1 0)
      else
        bind_res (ok_or (read_lv (drop 1 body)) (MalformedNas5gs ''missing 5GS mobile identity''))
          (\<lambda>(identity_bytes, rest).
             Inr (RegistrationRequest \<lparr>
               rr_registration_type = body ! 0 AND 0x07,
               rr_ng_ksi = drop_bit 4 (body ! 0) AND 0x07,
               rr_guti = (if length identity_bytes = 11 then Some identity_bytes else None),
               rr_ue_security_cap = read_cap rest\<rparr>)))"

definition encode_registration_request :: "u8 \<Rightarrow> u8 \<Rightarrow> bytes option \<Rightarrow> u16 \<Rightarrow> bytes" where
  "encode_registration_request registration_type ng_ksi guti ue_security_cap =
     (let buf = header_5g MT_REGISTRATION_REQUEST;
          buf = buf @ [push_bit 4 (ng_ksi AND 0x07) OR (registration_type AND 0x07)];
          buf = (case guti of Some g \<Rightarrow> write_lv buf g | None \<Rightarrow> write_lv buf [])
      in write_lv buf (to_be16 ue_security_cap))"

section \<open>Identity request and response\<close>

definition decode_identity_request :: "bytes \<Rightarrow> Nas5gsPdu result" where
  "decode_identity_request body =
     (if body = [] then Inl (TooShort 1 0) else Inr (IdentityRequest (body ! 0 AND 0x0F)))"

definition encode_identity_request :: "u8 \<Rightarrow> bytes" where
  "encode_identity_request identity_type = header_5g MT_IDENTITY_REQUEST @ [identity_type AND 0x0F]"

text \<open>The fifteen bytes behind the type byte of a SUCI.\<close>

definition suci_of :: "bytes \<Rightarrow> Suci" where
  "suci_of v = \<lparr>mcc = [v ! 0, v ! 1, v ! 2], mnc = [v ! 3, v ! 4, v ! 5],
     routing_indicator = from_be [v ! 6, v ! 7], protection_scheme = v ! 8, home_network_pki = v ! 9,
     msin = [v ! 10, v ! 11, v ! 12, v ! 13, v ! 14]\<rparr>"

definition decode_identity_response :: "bytes \<Rightarrow> Nas5gsPdu result" where
  "decode_identity_response body =
     bind_res (ok_or (read_lv body) (MalformedNas5gs ''missing 5GS mobile identity''))
       (\<lambda>(identity_bytes, _).
          if identity_bytes = [] then Inl (MalformedNas5gs ''empty 5GS mobile identity'')
          else
            let id_type = identity_bytes ! 0 AND 0x07 in
            if id_type = IDTYPE_SUCI then
              if length identity_bytes < 16 then Inl (MalformedNas5gs ''SUCI payload too short'')
              else Inr (IdentityResponse \<lparr>ir_suci = Some (suci_of (take 15 (drop 1 identity_bytes))),
                          ir_guti = None, ir_pei = None\<rparr>)
            else if id_type = IDTYPE_5G_GUTI then
              if length identity_bytes \<noteq> 11 then Inl (MalformedNas5gs ''5G-GUTI must be exactly 11 bytes'')
              else Inr (IdentityResponse \<lparr>ir_suci = None, ir_guti = Some identity_bytes, ir_pei = None\<rparr>)
            else Inr (IdentityResponse \<lparr>ir_suci = None, ir_guti = None, ir_pei = Some (drop 1 identity_bytes)\<rparr>))"

definition encode_identity_response_suci :: "Suci \<Rightarrow> bytes" where
  "encode_identity_response_suci s =
     write_lv (header_5g MT_IDENTITY_RESPONSE)
       ([IDTYPE_SUCI] @ mcc s @ mnc s @ to_be16 (routing_indicator s) @ [protection_scheme s] @
        [home_network_pki s] @ msin s)"

definition encode_identity_response_guti :: "bytes \<Rightarrow> bytes" where
  "encode_identity_response_guti guti = write_lv (header_5g MT_IDENTITY_RESPONSE) guti"

definition encode_identity_response_pei :: "bytes \<Rightarrow> bytes" where
  "encode_identity_response_pei pei = write_lv (header_5g MT_IDENTITY_RESPONSE) ([IDTYPE_PEI] @ pei)"

section \<open>Authentication\<close>

definition decode_auth_request_5g :: "bytes \<Rightarrow> Nas5gsPdu result" where
  "decode_auth_request_5g body =
     (if body = [] then Inl (TooShort 33 0)
      else
        bind_res (ok_or (read_lv (drop 1 body)) (MalformedNas5gs ''missing RAND'')) (\<lambda>(rand_bytes, rest).
          if length rand_bytes \<noteq> 16 then Inl (MalformedNas5gs ''RAND must be exactly 16 bytes'')
          else
            bind_res (ok_or (read_lv rest) (MalformedNas5gs ''missing AUTN'')) (\<lambda>(autn_bytes, _).
              if length autn_bytes \<noteq> 16 then Inl (MalformedNas5gs ''AUTN must be exactly 16 bytes'')
              else Inr (AuthenticationRequest5g \<lparr>aq5_ng_ksi = drop_bit 4 (body ! 0) AND 0x07,
                          aq5_rand = rand_bytes, aq5_autn = autn_bytes\<rparr>))))"

definition encode_auth_request_5g :: "u8 \<Rightarrow> bytes \<Rightarrow> bytes \<Rightarrow> bytes" where
  "encode_auth_request_5g ng_ksi rand autn =
     (let buf = header_5g MT_AUTHENTICATION_REQUEST_5G @ [push_bit 4 (ng_ksi AND 0x07)];
          buf = write_lv buf rand
      in write_lv buf autn)"

definition decode_auth_response_5g :: "bytes \<Rightarrow> Nas5gsPdu result" where
  "decode_auth_response_5g body =
     bind_res (ok_or (read_lv body) (MalformedNas5gs ''missing RES*'')) (\<lambda>(res_bytes, _).
       if length res_bytes \<noteq> 16 then Inl (MalformedNas5gs ''RES* must be exactly 16 bytes'')
       else Inr (AuthenticationResponse5g \<lparr>ap5_res_star = res_bytes\<rparr>))"

definition encode_auth_response_5g :: "bytes \<Rightarrow> bytes" where
  "encode_auth_response_5g res_star = write_lv (header_5g MT_AUTHENTICATION_RESPONSE_5G) res_star"

definition encode_auth_reject_5g :: bytes where
  "encode_auth_reject_5g = header_5g MT_AUTHENTICATION_REJECT_5G"

section \<open>Security mode\<close>

definition decode_sec_mode_cmd_5g :: "bytes \<Rightarrow> Nas5gsPdu result" where
  "decode_sec_mode_cmd_5g body =
     (if body = [] then Inl (TooShort 1 0)
      else Inr (SecurityModeCommand5g \<lparr>smc5_nas_cipher_alg = drop_bit 4 (body ! 0) AND 0x0F,
                  smc5_nas_integrity_alg = body ! 0 AND 0x0F,
                  smc5_replayed_ue_sec_cap = read_cap (drop 1 body)\<rparr>))"

definition encode_sec_mode_cmd_5g :: "u8 \<Rightarrow> u8 \<Rightarrow> u16 \<Rightarrow> bytes" where
  "encode_sec_mode_cmd_5g cipher_alg integrity_alg replayed_ue_sec_cap =
     write_lv (header_5g MT_SECURITY_MODE_COMMAND_5G @
         [push_bit 4 (cipher_alg AND 0x0F) OR (integrity_alg AND 0x0F)])
       (to_be16 replayed_ue_sec_cap)"

definition encode_sec_mode_complete_5g :: bytes where
  "encode_sec_mode_complete_5g = header_5g MT_SECURITY_MODE_COMPLETE_5G"

section \<open>Registration accept, complete and reject\<close>

fun read_tais :: "bytes \<Rightarrow> bytes list" where
  "read_tais (a # b # c # d # e # f # rest) = [a, b, c, d, e, f] # read_tais rest"
| "read_tais _ = []"

definition decode_registration_accept :: "bytes \<Rightarrow> Nas5gsPdu result" where
  "decode_registration_accept body =
     (if body = [] then Inl (TooShort 1 0)
      else
        bind_res (ok_or (read_lv (drop 1 body)) (MalformedNas5gs ''missing 5G-GUTI'')) (\<lambda>(guti_bytes, rest).
          if length guti_bytes \<noteq> 11 then Inl (MalformedNas5gs ''5G-GUTI must be exactly 11 bytes'')
          else
            bind_res (ok_or (read_lv rest) (MalformedNas5gs ''missing TAI list'')) (\<lambda>(tai_bytes, _).
              Inr (RegistrationAccept \<lparr>ra_registration_result = body ! 0 AND 0x07, ra_guti = guti_bytes,
                     ra_tai_list = (if tai_bytes \<noteq> [] then read_tais (drop 1 tai_bytes) else [])\<rparr>))))"

definition saturating_sub :: "u8 \<Rightarrow> u8 \<Rightarrow> u8" where
  "saturating_sub a b = (if a < b then 0 else a - b)"

definition encode_registration_accept :: "u8 \<Rightarrow> bytes \<Rightarrow> bytes list \<Rightarrow> bytes" where
  "encode_registration_accept registration_result guti tai_list =
     (let buf = header_5g MT_REGISTRATION_ACCEPT @ [registration_result AND 0x07];
          buf = write_lv buf guti
      in if tai_list = [] then write_lv buf []
         else write_lv buf ([saturating_sub (of_nat (length tai_list)) 1 OR 0x18] @ concat tai_list))"

definition encode_registration_complete :: bytes where
  "encode_registration_complete = header_5g MT_REGISTRATION_COMPLETE"

definition decode_registration_reject :: "bytes \<Rightarrow> Nas5gsPdu result" where
  "decode_registration_reject body =
     (if body = [] then Inl (TooShort 1 0) else Inr (RegistrationReject (body ! 0)))"

definition encode_registration_reject :: "u8 \<Rightarrow> bytes" where
  "encode_registration_reject cause = header_5g MT_REGISTRATION_REJECT @ [cause]"

section \<open>Deregistration\<close>

definition decode_deregistration_request :: "bytes \<Rightarrow> Nas5gsPdu result" where
  "decode_deregistration_request body =
     (if body = [] then Inl (TooShort 1 0) else Inr (DeregistrationRequest (body ! 0 AND 0x01 \<noteq> 0)))"

definition encode_deregistration_request :: "bool \<Rightarrow> bytes" where
  "encode_deregistration_request switch_off = header_5g MT_DEREGISTRATION_REQUEST @ [of_bool switch_off]"

definition encode_deregistration_accept :: bytes where
  "encode_deregistration_accept = header_5g MT_DEREGISTRATION_ACCEPT"

section \<open>Dispatch\<close>

definition decode_nas5gs :: "bytes \<Rightarrow> Nas5gsPdu result" where
  "decode_nas5gs buf =
     (if length buf < 3 then Inl (TooShort 3 (length buf))
      else if buf ! 0 \<noteq> NAS5GS_MM_EPD then Inl (MalformedNas5gs
          ''expected 5GS Mobility Management extended protocol discriminator 0x7E'')
      else if buf ! 1 AND 0x0F \<noteq> NAS5GS_SHT_PLAIN then Inl (MalformedNas5gs ''protected 5GS NAS not supported'')
      else
        let msg_type = buf ! 2; body = drop 3 buf in
        if msg_type = MT_REGISTRATION_REQUEST then decode_registration_request body
        else if msg_type = MT_IDENTITY_REQUEST then decode_identity_request body
        else if msg_type = MT_IDENTITY_RESPONSE then decode_identity_response body
        else if msg_type = MT_AUTHENTICATION_REQUEST_5G then decode_auth_request_5g body
        else if msg_type = MT_AUTHENTICATION_RESPONSE_5G then decode_auth_response_5g body
        else if msg_type = MT_AUTHENTICATION_REJECT_5G then Inr AuthenticationReject5g
        else if msg_type = MT_SECURITY_MODE_COMMAND_5G then decode_sec_mode_cmd_5g body
        else if msg_type = MT_SECURITY_MODE_COMPLETE_5G then Inr SecurityModeComplete5g
        else if msg_type = MT_REGISTRATION_ACCEPT then decode_registration_accept body
        else if msg_type = MT_REGISTRATION_COMPLETE then Inr RegistrationComplete
        else if msg_type = MT_REGISTRATION_REJECT then decode_registration_reject body
        else if msg_type = MT_DEREGISTRATION_REQUEST then decode_deregistration_request body
        else if msg_type = MT_DEREGISTRATION_ACCEPT then Inr DeregistrationAccept
        else Inl (UnknownGtpMsgType msg_type))"

section \<open>The protected envelope\<close>

definition envelope_5g :: "u8 \<Rightarrow> ProtectedNas \<Rightarrow> bytes" where
  "envelope_5g sht p =
     [NAS5GS_MM_EPD, sht AND 0x0F] @ pn_mac_i p @ [ucast (pn_count p AND 0xFF)] @ pn_payload p"

definition encode_protected_5g ::
    "crypto \<Rightarrow> u8 \<Rightarrow> Nas5gsSecurityContext \<Rightarrow> bytes \<Rightarrow> bytes \<times> Nas5gsSecurityContext" where
  "encode_protected_5g cr sht ctx inner_plain =
     (let (p, ctx) = protect_downlink_5g cr ctx inner_plain in (envelope_5g sht p, ctx))"

definition decode_protected_5g ::
    "crypto \<Rightarrow> Nas5gsSecurityContext \<Rightarrow> bytes \<Rightarrow> bytes option \<times> Nas5gsSecurityContext" where
  "decode_protected_5g cr ctx buf =
     (if length buf < 7 then (None, ctx)
      else if buf ! 0 \<noteq> NAS5GS_MM_EPD then (None, ctx)
      else if buf ! 1 AND 0x0F = NAS5GS_SHT_PLAIN then (None, ctx)
      else unprotect_uplink_5g cr ctx (buf ! 6) (take 4 (drop 2 buf)) (drop 7 buf))"

definition encode_protected_uplink_5g ::
    "crypto \<Rightarrow> u8 \<Rightarrow> Nas5gsSecurityContext \<Rightarrow> bytes \<Rightarrow> bytes \<times> Nas5gsSecurityContext" where
  "encode_protected_uplink_5g cr sht ctx inner_plain =
     (let (p, ctx) = protect_uplink_5g cr ctx inner_plain in (envelope_5g sht p, ctx))"

definition decode_protected_downlink_5g ::
    "crypto \<Rightarrow> Nas5gsSecurityContext \<Rightarrow> bytes \<Rightarrow> bytes option \<times> Nas5gsSecurityContext" where
  "decode_protected_downlink_5g cr ctx buf =
     (if length buf < 7 then (None, ctx)
      else if buf ! 0 \<noteq> NAS5GS_MM_EPD then (None, ctx)
      else if buf ! 1 AND 0x0F = NAS5GS_SHT_PLAIN then (None, ctx)
      else unprotect_downlink_5g cr ctx (buf ! 6) (take 4 (drop 2 buf)) (drop 7 buf))"


section \<open>Message round trips\<close>

lemma decode_nas5gs_plain:
  "decode_nas5gs (header_5g mt @ body) =
     (if mt = MT_REGISTRATION_REQUEST then decode_registration_request body
      else if mt = MT_IDENTITY_REQUEST then decode_identity_request body
      else if mt = MT_IDENTITY_RESPONSE then decode_identity_response body
      else if mt = MT_AUTHENTICATION_REQUEST_5G then decode_auth_request_5g body
      else if mt = MT_AUTHENTICATION_RESPONSE_5G then decode_auth_response_5g body
      else if mt = MT_AUTHENTICATION_REJECT_5G then Inr AuthenticationReject5g
      else if mt = MT_SECURITY_MODE_COMMAND_5G then decode_sec_mode_cmd_5g body
      else if mt = MT_SECURITY_MODE_COMPLETE_5G then Inr SecurityModeComplete5g
      else if mt = MT_REGISTRATION_ACCEPT then decode_registration_accept body
      else if mt = MT_REGISTRATION_COMPLETE then Inr RegistrationComplete
      else if mt = MT_REGISTRATION_REJECT then decode_registration_reject body
      else if mt = MT_DEREGISTRATION_REQUEST then decode_deregistration_request body
      else if mt = MT_DEREGISTRATION_ACCEPT then Inr DeregistrationAccept
      else Inl (UnknownGtpMsgType mt))"
  by (simp add: decode_nas5gs_def header_5g_def NAS5GS_MM_EPD_def NAS5GS_SHT_PLAIN_def Let_def)

lemma decode_nas5gs_dispatch:
  "decode_nas5gs (header_5g MT_REGISTRATION_REQUEST @ body) = decode_registration_request body"
  "decode_nas5gs (header_5g MT_IDENTITY_REQUEST @ body) = decode_identity_request body"
  "decode_nas5gs (header_5g MT_IDENTITY_RESPONSE @ body) = decode_identity_response body"
  "decode_nas5gs (header_5g MT_AUTHENTICATION_REQUEST_5G @ body) = decode_auth_request_5g body"
  "decode_nas5gs (header_5g MT_AUTHENTICATION_RESPONSE_5G @ body) = decode_auth_response_5g body"
  "decode_nas5gs (header_5g MT_AUTHENTICATION_REJECT_5G @ body) = Inr AuthenticationReject5g"
  "decode_nas5gs (header_5g MT_SECURITY_MODE_COMMAND_5G @ body) = decode_sec_mode_cmd_5g body"
  "decode_nas5gs (header_5g MT_SECURITY_MODE_COMPLETE_5G @ body) = Inr SecurityModeComplete5g"
  "decode_nas5gs (header_5g MT_REGISTRATION_ACCEPT @ body) = decode_registration_accept body"
  "decode_nas5gs (header_5g MT_REGISTRATION_COMPLETE @ body) = Inr RegistrationComplete"
  "decode_nas5gs (header_5g MT_REGISTRATION_REJECT @ body) = decode_registration_reject body"
  "decode_nas5gs (header_5g MT_DEREGISTRATION_REQUEST @ body) = decode_deregistration_request body"
  "decode_nas5gs (header_5g MT_DEREGISTRATION_ACCEPT @ body) = Inr DeregistrationAccept"
  unfolding decode_nas5gs_plain by (simp_all add: nas5gs_consts)

lemma read_cap_to_be16 [simp]: "read_cap (2 # to_be16 c) = c"
proof -
  have "read_lv (2 # to_be16 c) = Some (to_be16 c, [])" by (rule read_lv_numeral_end) simp
  then show ?thesis by (simp add: read_cap_def)
qed

lemma registration_request_roundtrip:
  assumes "\<And>g. guti = Some g \<Longrightarrow> length g = 11"
  shows "decode_nas5gs (encode_registration_request t k guti cap) =
    Inr (RegistrationRequest \<lparr>rr_registration_type = t AND 7, rr_ng_ksi = k AND 7, rr_guti = guti,
      rr_ue_security_cap = cap\<rparr>)"
proof -
  let ?g = "case guti of Some g \<Rightarrow> g | None \<Rightarrow> []"
  have g: "length ?g < 256" "(if length ?g = 11 then Some ?g else None) = guti"
    using assms by (auto split: option.splits)
  have "encode_registration_request t k guti cap = header_5g MT_REGISTRATION_REQUEST @
      (push_bit 4 (k AND 7) OR (t AND 7)) # of_nat (length ?g) # ?g @ 2 # to_be16 cap"
    by (simp add: encode_registration_request_def write_lv_def Let_def split: option.splits)
  moreover have "decode_registration_request (b # of_nat (length ?g) # ?g @ 2 # to_be16 cap) =
      Inr (RegistrationRequest \<lparr>rr_registration_type = b AND 7, rr_ng_ksi = drop_bit 4 b AND 7, rr_guti = guti,
        rr_ue_security_cap = cap\<rparr>)" for b
    using g by (simp add: decode_registration_request_def)
  ultimately show ?thesis by (simp only: decode_nas5gs_dispatch ksi_type_fields)
qed

lemma identity_request_roundtrip:
  "decode_nas5gs (encode_identity_request t) = Inr (IdentityRequest (t AND 0x0F))"
  by (simp add: encode_identity_request_def decode_nas5gs_dispatch decode_identity_request_def and.assoc)

definition suci_wf :: "Suci \<Rightarrow> bool" where
  "suci_wf s \<longleftrightarrow> length (mcc s) = 3 \<and> length (mnc s) = 3 \<and> length (msin s) = 5"

lemma length3D: "length xs = 3 \<Longrightarrow> \<exists>a b c. xs = [a, b, c]"
  by (auto simp: length_Suc_conv numeral_eq_Suc)

lemma length5D: "length xs = 5 \<Longrightarrow> \<exists>a b c d e. xs = [a, b, c, d, e]"
  by (auto simp: length_Suc_conv numeral_eq_Suc)

lemma suci_of_bytes:
  assumes "suci_wf s"
  shows "suci_of (mcc s @ mnc s @ to_be16 (routing_indicator s) @ [protection_scheme s, home_network_pki s] @ msin s) = s"
proof -
  obtain a b c d e f where m: "mcc s = [a, b, c]" "mnc s = [d, e, f]"
    using assms length3D unfolding suci_wf_def by metis
  obtain g h i j k where n: "msin s = [g, h, i, j, k]" using assms length5D unfolding suci_wf_def by metis
  obtain r0 r1 where r: "to_be16 (routing_indicator s) = [r0, r1]" by (simp add: to_be16_def)
  then have "from_be [r0, r1] = routing_indicator s" by (metis from_be_to_be16)
  then show ?thesis by (cases s) (use m n r in \<open>simp add: suci_of_def numeral_eq_Suc\<close>)
qed

lemma identity_response_suci_roundtrip:
  assumes "suci_wf s"
  shows "decode_nas5gs (encode_identity_response_suci s) =
    Inr (IdentityResponse \<lparr>ir_suci = Some s, ir_guti = None, ir_pei = None\<rparr>)"
proof -
  let ?v = "mcc s @ mnc s @ to_be16 (routing_indicator s) @ [protection_scheme s, home_network_pki s] @ msin s"
  have len: "length ?v = 15" using assms by (simp add: suci_wf_def)
  have "encode_identity_response_suci s = header_5g MT_IDENTITY_RESPONSE @ 16 # IDTYPE_SUCI # ?v"
    using assms by (simp add: encode_identity_response_suci_def write_lv_def suci_wf_def)
  moreover have "read_lv (16 # IDTYPE_SUCI # ?v) = Some (IDTYPE_SUCI # ?v, [])"
    by (rule read_lv_numeral_end) (simp only: list.size len, simp)
  moreover have "take 15 ?v = ?v" using len by simp
  ultimately show ?thesis
    using suci_of_bytes [OF assms] len
    by (simp add: decode_nas5gs_dispatch decode_identity_response_def Let_def IDTYPE_SUCI_def)
qed

lemma identity_response_guti_roundtrip:
  assumes "length g = 11" "g ! 0 AND 0x07 = IDTYPE_5G_GUTI"
  shows "decode_nas5gs (encode_identity_response_guti g) =
    Inr (IdentityResponse \<lparr>ir_suci = None, ir_guti = Some g, ir_pei = None\<rparr>)"
proof -
  have "encode_identity_response_guti g = header_5g MT_IDENTITY_RESPONSE @ 11 # g"
    using assms by (simp add: encode_identity_response_guti_def write_lv_def)
  moreover have "read_lv (11 # g) = Some (g, [])" by (rule read_lv_numeral_end) (simp add: assms)
  ultimately show ?thesis using assms
    by (auto simp: decode_nas5gs_dispatch decode_identity_response_def Let_def IDTYPE_SUCI_def IDTYPE_5G_GUTI_def)
qed

lemma identity_response_pei_roundtrip:
  assumes "length p < 255"
  shows "decode_nas5gs (encode_identity_response_pei p) =
    Inr (IdentityResponse \<lparr>ir_suci = None, ir_guti = None, ir_pei = Some p\<rparr>)"
proof -
  have "encode_identity_response_pei p =
      header_5g MT_IDENTITY_RESPONSE @ of_nat (length (IDTYPE_PEI # p)) # (IDTYPE_PEI # p) @ []"
    by (simp add: encode_identity_response_pei_def write_lv_def)
  moreover have "length (IDTYPE_PEI # p) < 256" using assms by simp
  ultimately show ?thesis
    by (simp only: decode_nas5gs_dispatch decode_identity_response_def read_lv_write)
       (simp add: Let_def IDTYPE_SUCI_def IDTYPE_5G_GUTI_def IDTYPE_PEI_def)
qed


lemma auth_request_5g_roundtrip:
  assumes "length rand = 16" "length autn = 16"
  shows "decode_nas5gs (encode_auth_request_5g k rand autn) =
    Inr (AuthenticationRequest5g \<lparr>aq5_ng_ksi = k AND 7, aq5_rand = rand, aq5_autn = autn\<rparr>)"
proof -
  have "encode_auth_request_5g k rand autn =
      header_5g MT_AUTHENTICATION_REQUEST_5G @ push_bit 4 (k AND 7) # 16 # rand @ 16 # autn"
    using assms by (simp add: encode_auth_request_5g_def write_lv_def)
  moreover have "decode_auth_request_5g (b # 16 # rand @ 16 # autn) =
      Inr (AuthenticationRequest5g \<lparr>aq5_ng_ksi = drop_bit 4 b AND 7, aq5_rand = rand, aq5_autn = autn\<rparr>)" for b
    using assms read_lv_numeral [of rand 16 "16 # autn"] read_lv_numeral_end [of autn 16]
    by (simp add: decode_auth_request_5g_def)
  ultimately show ?thesis by (simp only: decode_nas5gs_dispatch ksi_type_fields)
qed

lemma auth_response_5g_roundtrip:
  assumes "length res = 16"
  shows "decode_nas5gs (encode_auth_response_5g res) = Inr (AuthenticationResponse5g \<lparr>ap5_res_star = res\<rparr>)"
  using assms read_lv_numeral_end [of res 16]
  by (simp add: encode_auth_response_5g_def write_lv_def decode_nas5gs_dispatch decode_auth_response_5g_def)

lemma nibble_fields:
  "(push_bit 4 (a AND 0x0F) OR (b AND 0x0F)) AND 0x0F = (b AND 0x0F :: u8)"
  "drop_bit 4 (push_bit 4 (a AND 0x0F) OR (b AND 0x0F)) AND 0x0F = (a AND 0x0F :: u8)"
  unfolding u8_low_nibble by (rule bit_word_eqI; auto simp: bit_simps)+

lemma sec_mode_cmd_5g_roundtrip:
  "decode_nas5gs (encode_sec_mode_cmd_5g c i cap) =
    Inr (SecurityModeCommand5g \<lparr>smc5_nas_cipher_alg = c AND 0x0F, smc5_nas_integrity_alg = i AND 0x0F,
      smc5_replayed_ue_sec_cap = cap\<rparr>)"
proof -
  have "encode_sec_mode_cmd_5g c i cap = header_5g MT_SECURITY_MODE_COMMAND_5G @
      (push_bit 4 (c AND 0x0F) OR (i AND 0x0F)) # 2 # to_be16 cap"
    by (simp add: encode_sec_mode_cmd_5g_def write_lv_def)
  moreover have "decode_sec_mode_cmd_5g (b # 2 # to_be16 cap) =
      Inr (SecurityModeCommand5g \<lparr>smc5_nas_cipher_alg = drop_bit 4 b AND 0x0F, smc5_nas_integrity_alg = b AND 0x0F,
        smc5_replayed_ue_sec_cap = cap\<rparr>)" for b
    by (simp add: decode_sec_mode_cmd_5g_def)
  ultimately show ?thesis by (simp only: decode_nas5gs_dispatch nibble_fields)
qed

lemma read_tais_concat: "list_all (\<lambda>t. length t = 6) tais \<Longrightarrow> read_tais (concat tais) = tais"
proof (induction tais)
  case (Cons t tais)
  then obtain a b c d e f where "t = [a, b, c, d, e, f]" by (auto simp: length_Suc_conv numeral_eq_Suc)
  with Cons show ?case by simp
qed simp

lemma length_concat_tais: "list_all (\<lambda>t. length t = 6) tais \<Longrightarrow> length (concat tais) = 6 * length tais"
  by (induction tais) auto

lemma registration_accept_roundtrip:
  assumes "length guti = 11" "list_all (\<lambda>t. length t = 6) tais" "length tais \<le> 42"
  shows "decode_nas5gs (encode_registration_accept r guti tais) =
    Inr (RegistrationAccept \<lparr>ra_registration_result = r AND 7, ra_guti = guti, ra_tai_list = tais\<rparr>)"
proof -
  let ?t = "if tais = [] then [] else (saturating_sub (of_nat (length tais)) 1 OR 0x18) # concat tais"
  have t: "length ?t < 256" "(if ?t \<noteq> [] then read_tais (drop 1 ?t) else []) = tais"
    using assms(2,3) by (auto simp: length_concat_tais read_tais_concat simp del: length_concat)
  have "encode_registration_accept r guti tais =
      header_5g MT_REGISTRATION_ACCEPT @ (r AND 7) # 11 # guti @ of_nat (length ?t) # ?t @ []"
    using assms(1) by (simp add: encode_registration_accept_def write_lv_def Let_def)
  moreover have "decode_registration_accept (b # 11 # guti @ of_nat (length ?t) # ?t @ []) =
      Inr (RegistrationAccept \<lparr>ra_registration_result = b AND 7, ra_guti = guti, ra_tai_list = tais\<rparr>)" for b
  proof -
    have "read_lv (11 # guti @ of_nat (length ?t) # ?t @ []) = Some (guti, of_nat (length ?t) # ?t @ [])"
      by (rule read_lv_numeral) (simp add: assms(1))
    moreover have "read_lv (of_nat (length ?t) # ?t @ []) = Some (?t, [])" by (rule read_lv_write [OF t(1)])
    ultimately show ?thesis using t(2) assms(1)
      by (simp only: decode_registration_accept_def list.distinct if_False drop_Suc_Cons drop_0 One_nat_def
          ok_or_simps bind_res_simps prod.case nth_Cons_0 simp_thms)
  qed
  ultimately show ?thesis by (simp only: decode_nas5gs_dispatch and.assoc and.idem)
qed

lemma bare_messages_5g_roundtrip:
  "decode_nas5gs encode_auth_reject_5g = Inr AuthenticationReject5g"
  "decode_nas5gs encode_sec_mode_complete_5g = Inr SecurityModeComplete5g"
  "decode_nas5gs encode_registration_complete = Inr RegistrationComplete"
  "decode_nas5gs encode_deregistration_accept = Inr DeregistrationAccept"
  "decode_nas5gs (encode_registration_reject c) = Inr (RegistrationReject c)"
  "decode_nas5gs (encode_deregistration_request so) = Inr (DeregistrationRequest so)"
  using decode_nas5gs_dispatch [of "[]"]
  by (simp_all add: encode_auth_reject_5g_def encode_sec_mode_complete_5g_def encode_registration_complete_def
      encode_deregistration_accept_def encode_registration_reject_def encode_deregistration_request_def
      decode_nas5gs_dispatch decode_registration_reject_def decode_deregistration_request_def)

section \<open>Protected connections\<close>

lemma envelope_5g_fields:
  assumes "length (pn_mac_i p) = 4"
  shows "\<not> length (envelope_5g sht p) < 7" "envelope_5g sht p ! 0 = NAS5GS_MM_EPD"
    "envelope_5g sht p ! 1 AND 0x0F = sht AND 0x0F"
    "envelope_5g sht p ! 6 = ucast (pn_count p)"
    "take 4 (drop 2 (envelope_5g sht p)) = pn_mac_i p"
    "drop 7 (envelope_5g sht p) = pn_payload p"
proof -
  have "(ucast (pn_count p AND 0xFF) :: u8) = ucast (pn_count p)"
  proof -
    have m: "(0xFF :: u32) = mask 8" by (simp add: mask_eq_exp_minus_1)
    show ?thesis unfolding m by (rule bit_word_eqI) (auto simp: bit_simps)
  qed
  with assms show "envelope_5g sht p ! 6 = ucast (pn_count p)"
    by (simp add: envelope_5g_def nth_append numeral_eq_Suc)
qed (use assms in \<open>simp_all add: envelope_5g_def and.assoc\<close>)

lemma decode_protected_downlink_5g_enc:
  assumes "channel_ok cr sht" "same_keys_5g s r" "dl5_count r \<le> dl5_count s"
    "unat (dl5_count s) < unat (dl5_count r) + 256"
  shows "decode_protected_downlink_5g cr r (fst (encode_protected_5g cr sht s p)) =
    (Some p, r\<lparr>dl5_count := dl5_count s + 1\<rparr>)"
  using assms envelope_5g_fields [OF length_protect_5g_mac, of cr sht]
  by (simp add: channel_ok_def decode_protected_downlink_5g_def encode_protected_5g_def protect_downlink_5g_def
      unprotect_downlink_5g_def reconstruct_count_eq unprotect_protect_5g Let_def NAS5GS_SHT_PLAIN_def)

lemma decode_protected_5g_enc:
  assumes "channel_ok cr sht" "same_keys_5g s r" "ul5_count r \<le> ul5_count s"
    "unat (ul5_count s) < unat (ul5_count r) + 256"
  shows "decode_protected_5g cr r (fst (encode_protected_uplink_5g cr sht s p)) =
    (Some p, r\<lparr>ul5_count := ul5_count s + 1\<rparr>)"
  using assms envelope_5g_fields [OF length_protect_5g_mac, of cr sht]
  by (simp add: channel_ok_def decode_protected_5g_def encode_protected_uplink_5g_def protect_uplink_5g_def
      unprotect_uplink_5g_def reconstruct_count_eq unprotect_protect_5g Let_def NAS5GS_SHT_PLAIN_def)

interpretation nr_dl: nas_channel "channel_ok cr sht" "encode_protected_5g cr sht"
    "decode_protected_downlink_5g cr" dl5_count same_keys_5g for cr sht
  by unfold_locales
     (auto simp: decode_protected_downlink_5g_enc, auto simp: encode_protected_5g_def protect_downlink_5g_def
       decode_protected_downlink_5g_def unprotect_downlink_5g_def Let_def split: if_splits option.splits)

interpretation nr_ul: nas_channel "channel_ok cr sht" "encode_protected_uplink_5g cr sht"
    "decode_protected_5g cr" ul5_count same_keys_5g for cr sht
  by unfold_locales
     (auto simp: decode_protected_5g_enc, auto simp: encode_protected_uplink_5g_def protect_uplink_5g_def
       decode_protected_5g_def unprotect_uplink_5g_def Let_def split: if_splits option.splits)

end
