(* ===== verification/Nas5gs_Properties.thy ===== *)
theory Nas5gs_Properties
  imports Nas5gs_Codec
begin

text \<open>
  The properties of the 5G NAS layer: protected connections deliver in order, and the codec's
  messages round trip.
\<close>

text \<open>
  C20. In both directions of a 5G NAS connection whose ends hold the same keys and the same count,
  the receiver obtains exactly the delivered messages, in order, whatever is lost on the way, as
  long as fewer than 256 messages in a row are lost and the 32-bit count does not run out. This
  holds for every choice of algorithms, the null algorithms included.
\<close>

theorem nas5gs_connection_in_order:
  assumes "channel_ok cr sht" "same_keys_5g s r" "gaps_ok 0 ms"
  shows "(dl5_count s = dl5_count r \<and> unat (dl5_count s) + length ms < 4294967296 \<longrightarrow>
      transmit (encode_protected_5g cr sht) (decode_protected_downlink_5g cr) s r ms =
        map (Some \<circ> fst) (filter snd ms)) \<and>
    (ul5_count s = ul5_count r \<and> unat (ul5_count s) + length ms < 4294967296 \<longrightarrow>
      transmit (encode_protected_uplink_5g cr sht) (decode_protected_5g cr) s r ms =
        map (Some \<circ> fst) (filter snd ms))"
  using nr_dl.transmit_in_order [OF assms(1,2) _ assms(3)] nr_ul.transmit_in_order [OF assms(1,2) _ assms(3)]
  by blast

definition sample_context_5g :: Nas5gsSecurityContext where
  "sample_context_5g = Nas5gsSecurityContext_new sample_crypto (replicate 32 7) 2 2"

theorem nas5gs_connection_in_order_witness:
  "transmit (encode_protected_uplink_5g sample_crypto NAS5GS_SHT_INTEGRITY_CIPHERED)
     (decode_protected_5g sample_crypto) sample_context_5g sample_context_5g
     [([0x7E, 0, 0x43], True), ([0x7E, 0, 0x41], False), ([0x7E, 0, 0x45], True)] =
   [Some [0x7E, 0, 0x43], Some [0x7E, 0, 0x45]]"
proof -
  have "channel_ok sample_crypto NAS5GS_SHT_INTEGRITY_CIPHERED"
    by (simp add: channel_ok_def NAS5GS_SHT_INTEGRITY_CIPHERED_def)
  moreover have "unat (ul5_count sample_context_5g) = 0"
    by (simp add: sample_context_5g_def Nas5gsSecurityContext_new_def Let_def split_beta)
  ultimately show ?thesis
    using nas5gs_connection_in_order [of sample_crypto NAS5GS_SHT_INTEGRITY_CIPHERED sample_context_5g sample_context_5g
        "[([0x7E, 0, 0x43], True), ([0x7E, 0, 0x41], False), ([0x7E, 0, 0x45], True)]"] by simp
qed

text \<open>
  C38. Each of the thirteen plain 5G NAS messages is decoded to the message it was built from, with all
  of its fields: the temporary, the concealed and the equipment identity, the identity type asked
  for, the challenge and its token, the response, the selected algorithms and the replayed
  capability, the accepted identity with its tracking areas, the cause of a reject, the
  deregistration flag, and which of the messages without a body it is. Fields of three and of
  four bits arrive in their bits. Every other message type is refused with that type.
\<close>

theorem nas5gs_messages_roundtrip:
  assumes "\<forall>g. guti = Some g \<longrightarrow> length g = 11" "suci_wf s" "length pei < 255"
    and "length g = 11" "g ! 0 AND 0x07 = IDTYPE_5G_GUTI"
    and "length rand = 16" "length autn = 16" "length res = 16"
    and "list_all (\<lambda>t. length t = 6) tais" "length tais \<le> 42"
  shows "decode_nas5gs (encode_registration_request t k guti cap) =
      Inr (RegistrationRequest \<lparr>rr_registration_type = t AND 7, rr_ng_ksi = k AND 7, rr_guti = guti,
        rr_ue_security_cap = cap\<rparr>) \<and>
    decode_nas5gs (encode_identity_request idt) = Inr (IdentityRequest (idt AND 0x0F)) \<and>
    decode_nas5gs (encode_identity_response_suci s) =
      Inr (IdentityResponse \<lparr>ir_suci = Some s, ir_guti = None, ir_pei = None\<rparr>) \<and>
    decode_nas5gs (encode_identity_response_guti g) =
      Inr (IdentityResponse \<lparr>ir_suci = None, ir_guti = Some g, ir_pei = None\<rparr>) \<and>
    decode_nas5gs (encode_identity_response_pei pei) =
      Inr (IdentityResponse \<lparr>ir_suci = None, ir_guti = None, ir_pei = Some pei\<rparr>) \<and>
    decode_nas5gs (encode_auth_request_5g k rand autn) =
      Inr (AuthenticationRequest5g \<lparr>aq5_ng_ksi = k AND 7, aq5_rand = rand, aq5_autn = autn\<rparr>) \<and>
    decode_nas5gs (encode_auth_response_5g res) = Inr (AuthenticationResponse5g \<lparr>ap5_res_star = res\<rparr>) \<and>
    decode_nas5gs encode_auth_reject_5g = Inr AuthenticationReject5g \<and>
    decode_nas5gs (encode_sec_mode_cmd_5g ca ia cap) =
      Inr (SecurityModeCommand5g \<lparr>smc5_nas_cipher_alg = ca AND 0x0F, smc5_nas_integrity_alg = ia AND 0x0F,
        smc5_replayed_ue_sec_cap = cap\<rparr>) \<and>
    decode_nas5gs encode_sec_mode_complete_5g = Inr SecurityModeComplete5g \<and>
    decode_nas5gs (encode_registration_accept r g tais) =
      Inr (RegistrationAccept \<lparr>ra_registration_result = r AND 7, ra_guti = g, ra_tai_list = tais\<rparr>) \<and>
    decode_nas5gs encode_registration_complete = Inr RegistrationComplete \<and>
    decode_nas5gs (encode_registration_reject cause) = Inr (RegistrationReject cause) \<and>
    decode_nas5gs (encode_deregistration_request so) = Inr (DeregistrationRequest so) \<and>
    decode_nas5gs encode_deregistration_accept = Inr DeregistrationAccept \<and>
    (mt \<notin> {MT_REGISTRATION_REQUEST, MT_IDENTITY_REQUEST, MT_IDENTITY_RESPONSE, MT_AUTHENTICATION_REQUEST_5G,
        MT_AUTHENTICATION_RESPONSE_5G, MT_AUTHENTICATION_REJECT_5G, MT_SECURITY_MODE_COMMAND_5G,
        MT_SECURITY_MODE_COMPLETE_5G, MT_REGISTRATION_ACCEPT, MT_REGISTRATION_COMPLETE, MT_REGISTRATION_REJECT,
        MT_DEREGISTRATION_REQUEST, MT_DEREGISTRATION_ACCEPT} \<longrightarrow>
       decode_nas5gs (header_5g mt @ body) = Inl (UnknownGtpMsgType mt))"
proof (intro conjI impI)
  assume "mt \<notin> {MT_REGISTRATION_REQUEST, MT_IDENTITY_REQUEST, MT_IDENTITY_RESPONSE, MT_AUTHENTICATION_REQUEST_5G,
        MT_AUTHENTICATION_RESPONSE_5G, MT_AUTHENTICATION_REJECT_5G, MT_SECURITY_MODE_COMMAND_5G,
        MT_SECURITY_MODE_COMPLETE_5G, MT_REGISTRATION_ACCEPT, MT_REGISTRATION_COMPLETE, MT_REGISTRATION_REJECT,
        MT_DEREGISTRATION_REQUEST, MT_DEREGISTRATION_ACCEPT}"
  then show "decode_nas5gs (header_5g mt @ body) = Inl (UnknownGtpMsgType mt)"
    by (simp add: decode_nas5gs_plain)
qed (use assms in \<open>simp_all add: registration_request_roundtrip identity_request_roundtrip identity_response_suci_roundtrip
       identity_response_guti_roundtrip identity_response_pei_roundtrip auth_request_5g_roundtrip
       auth_response_5g_roundtrip sec_mode_cmd_5g_roundtrip registration_accept_roundtrip bare_messages_5g_roundtrip\<close>)

theorem nas5gs_messages_roundtrip_witness:
  "decode_nas5gs (encode_registration_accept 1 (2 # replicate 10 0) [[0, 1, 1, 0, 0, 1]]) =
     Inr (RegistrationAccept \<lparr>ra_registration_result = 1, ra_guti = 2 # replicate 10 0, ra_tai_list = [[0, 1, 1, 0, 0, 1]]\<rparr>) \<and>
   decode_nas5gs (encode_registration_reject 3) = Inr (RegistrationReject 3)"
  using nas5gs_messages_roundtrip [of None "\<lparr>mcc = [0, 0, 1], mnc = [0, 1, 0], routing_indicator = 0, protection_scheme = 0,
      home_network_pki = 0, msin = replicate 5 0\<rparr>" "[]" "2 # replicate 10 0" "replicate 16 1" "replicate 16 2" "replicate 16 3"
      "[[0, 1, 1, 0, 0, 1]]" 1 0 0 1 2 2 1 3 False]
  by (simp add: suci_wf_def IDTYPE_5G_GUTI_def)

end
