(* ===== verification/Ngap_Codec.thy ===== *)
theory Ngap_Codec
  imports S1ap_Roundtrip
begin

text \<open>
  The NGAP messages (\<open>crates/midn-proto/src/ngap/messages.rs\<close>), identifiers (\<open>ie_ids.rs\<close>) and PDU
  codec (\<open>codec.rs\<close>), laid out as the S1AP theories: an encoder yields \<open>None\<close> when the PER engine
  panics. The container and wrapper functions are the module's own; they are shown equal to
  those of the S1AP codec, so that the lemmas about items, fields and sizes serve both.
\<close>

section \<open>Messages\<close>

datatype NgapCause =
    NgRadioNetworkUnspecified
  | NgTransportUnspecified
  | NgNasNormalRelease
  | NgNasDeregister
  | NgNasAuthFailure
  | NgProtocolUnspecified
  | NgMiscUnspecified

record NgapInitialUeMessage =
  nium_ran_ue_ngap_id :: u32
  nium_nas_pdu :: bytes
  nium_tai :: bytes
  nium_nr_cgi :: bytes
  nium_rrc_establishment_cause :: u8

record NgapDownlinkNasTransport =
  ndnt_amf_ue_ngap_id :: u32
  ndnt_ran_ue_ngap_id :: u32
  ndnt_nas_pdu :: bytes

record NgapUplinkNasTransport =
  nunt_amf_ue_ngap_id :: u32
  nunt_ran_ue_ngap_id :: u32
  nunt_nas_pdu :: bytes
  nunt_tai :: bytes
  nunt_nr_cgi :: bytes

record PduSessionToSetup =
  pts_pdu_session_id :: u8
  pts_qfi :: u8
  pts_gtp_teid :: bytes
  pts_transport_layer_addr :: bytes

record NgapInitialContextSetupRequest =
  nicq_amf_ue_ngap_id :: u32
  nicq_ran_ue_ngap_id :: u32
  nicq_pdu_sessions :: "PduSessionToSetup list"
  nicq_nas_pdu :: "bytes option"
  nicq_ue_ambr :: "u64 \<times> u64"
  nicq_security_key :: bytes

record PduSessionSetupItem =
  psi_pdu_session_id :: u8
  psi_transport_layer_addr :: bytes
  psi_gtp_teid :: bytes

record NgapInitialContextSetupResponse =
  nicp_amf_ue_ngap_id :: u32
  nicp_ran_ue_ngap_id :: u32
  nicp_pdu_sessions_setup :: "PduSessionSetupItem list"
  nicp_pdu_sessions_failed :: "u8 list"

record NgapUeContextReleaseComplete =
  ncrc_amf_ue_ngap_id :: u32
  ncrc_ran_ue_ngap_id :: u32

datatype NgapMessage =
    NgSetupRequest
  | NgSetupResponse
  | NInitialUeMessage NgapInitialUeMessage
  | NDownlinkNasTransport NgapDownlinkNasTransport
  | NUplinkNasTransport NgapUplinkNasTransport
  | NInitialContextSetupRequest NgapInitialContextSetupRequest
  | NInitialContextSetupResponse NgapInitialContextSetupResponse
  | NInitialContextSetupFailure NgapCause
  | PduSessionResourceSetupRequest
  | PduSessionResourceSetupResponse
  | PduSessionResourceSetupFailure
  | NUeContextReleaseCommand u32 u32 NgapCause
  | NUeContextReleaseComplete NgapUeContextReleaseComplete

section \<open>Identifiers\<close>

definition NGAP_CRITICALITY_REJECT :: u8 where "NGAP_CRITICALITY_REJECT = 0"
definition NGAP_CRITICALITY_IGNORE :: u8 where "NGAP_CRITICALITY_IGNORE = 1"
definition NGAP_CRITICALITY_NOTIFY :: u8 where "NGAP_CRITICALITY_NOTIFY = 2"
definition NGAP_PROC_DOWNLINK_NAS_TRANSPORT :: u32 where "NGAP_PROC_DOWNLINK_NAS_TRANSPORT = 4"
definition NGAP_PROC_INITIAL_UE_MESSAGE :: u32 where "NGAP_PROC_INITIAL_UE_MESSAGE = 15"
definition NGAP_PROC_UPLINK_NAS_TRANSPORT :: u32 where "NGAP_PROC_UPLINK_NAS_TRANSPORT = 46"
definition NGAP_PROC_INITIAL_CONTEXT_SETUP :: u32 where "NGAP_PROC_INITIAL_CONTEXT_SETUP = 14"
definition NGAP_PROC_UE_CONTEXT_RELEASE :: u32 where "NGAP_PROC_UE_CONTEXT_RELEASE = 41"
definition ID_AMF_UE_NGAP_ID :: u32 where "ID_AMF_UE_NGAP_ID = 10"
definition ID_RAN_UE_NGAP_ID :: u32 where "ID_RAN_UE_NGAP_ID = 85"
definition NGAP_ID_NAS_PDU :: u32 where "NGAP_ID_NAS_PDU = 38"
definition ID_USER_LOCATION_INFO :: u32 where "ID_USER_LOCATION_INFO = 121"
definition NGAP_ID_RRC_ESTABLISHMENT_CAUSE :: u32 where "NGAP_ID_RRC_ESTABLISHMENT_CAUSE = 90"
definition NGAP_ID_SECURITY_KEY :: u32 where "NGAP_ID_SECURITY_KEY = 94"
definition ID_UE_AGGREGATE_MAX_BIT_RATE :: u32 where "ID_UE_AGGREGATE_MAX_BIT_RATE = 110"
definition ID_PDU_SESSION_RESOURCE_SETUP_LIST_CTXT_REQ :: u32 where
  "ID_PDU_SESSION_RESOURCE_SETUP_LIST_CTXT_REQ = 71"
definition ID_PDU_SESSION_RESOURCE_SETUP_LIST_CTXT_RES :: u32 where
  "ID_PDU_SESSION_RESOURCE_SETUP_LIST_CTXT_RES = 72"
definition ID_PDU_SESSION_RESOURCE_FAILED_TO_SETUP_LIST_CTXT_RES :: u32 where
  "ID_PDU_SESSION_RESOURCE_FAILED_TO_SETUP_LIST_CTXT_RES = 55"
definition NGAP_ID_CAUSE :: u32 where "NGAP_ID_CAUSE = 15"
definition RAN_UE_NGAP_ID_MAX :: u64 where "RAN_UE_NGAP_ID_MAX = 4294967295"
definition AMF_UE_NGAP_ID_MAX :: u64 where "AMF_UE_NGAP_ID_MAX = 4294967295"
definition NGAP_RRC_ESTABLISHMENT_CAUSE_MAX :: u64 where "NGAP_RRC_ESTABLISHMENT_CAUSE_MAX = 15"
definition PDU_SESSION_ID_MAX :: u64 where "PDU_SESSION_ID_MAX = 255"
definition QFI_MAX :: u64 where "QFI_MAX = 63"
definition NGAP_BIT_RATE_MAX :: u64 where "NGAP_BIT_RATE_MAX = 4000000000000"
definition NGAP_PROTOCOL_IE_ID_MAX :: u64 where "NGAP_PROTOCOL_IE_ID_MAX = 65535"
definition NGAP_PROCEDURE_CODE_MAX :: u64 where "NGAP_PROCEDURE_CODE_MAX = 255"
definition NGAP_CAUSE_MAX :: u64 where "NGAP_CAUSE_MAX = 6"
definition NGAP_PDU_CHOICE_INITIATING_MESSAGE :: u64 where "NGAP_PDU_CHOICE_INITIATING_MESSAGE = 0"
definition NGAP_PDU_CHOICE_SUCCESSFUL_OUTCOME :: u64 where "NGAP_PDU_CHOICE_SUCCESSFUL_OUTCOME = 1"

lemmas ngap_crits = NGAP_CRITICALITY_REJECT_def NGAP_CRITICALITY_IGNORE_def NGAP_CRITICALITY_NOTIFY_def
lemmas ngap_procs = NGAP_PROC_DOWNLINK_NAS_TRANSPORT_def NGAP_PROC_INITIAL_UE_MESSAGE_def
  NGAP_PROC_UPLINK_NAS_TRANSPORT_def NGAP_PROC_INITIAL_CONTEXT_SETUP_def NGAP_PROC_UE_CONTEXT_RELEASE_def
  NGAP_PDU_CHOICE_INITIATING_MESSAGE_def NGAP_PDU_CHOICE_SUCCESSFUL_OUTCOME_def
lemmas ngap_ids = ID_AMF_UE_NGAP_ID_def ID_RAN_UE_NGAP_ID_def NGAP_ID_NAS_PDU_def ID_USER_LOCATION_INFO_def
  NGAP_ID_RRC_ESTABLISHMENT_CAUSE_def NGAP_ID_SECURITY_KEY_def ID_UE_AGGREGATE_MAX_BIT_RATE_def
  ID_PDU_SESSION_RESOURCE_SETUP_LIST_CTXT_REQ_def ID_PDU_SESSION_RESOURCE_SETUP_LIST_CTXT_RES_def
  ID_PDU_SESSION_RESOURCE_FAILED_TO_SETUP_LIST_CTXT_RES_def NGAP_ID_CAUSE_def
lemmas ngap_maxs = RAN_UE_NGAP_ID_MAX_def AMF_UE_NGAP_ID_MAX_def NGAP_RRC_ESTABLISHMENT_CAUSE_MAX_def
  PDU_SESSION_ID_MAX_def QFI_MAX_def NGAP_BIT_RATE_MAX_def NGAP_PROTOCOL_IE_ID_MAX_def
  NGAP_PROCEDURE_CODE_MAX_def NGAP_CAUSE_MAX_def

section \<open>Causes\<close>

fun ngap_cause_to_u64 :: "NgapCause \<Rightarrow> u64" where
  "ngap_cause_to_u64 NgRadioNetworkUnspecified = 0"
| "ngap_cause_to_u64 NgTransportUnspecified = 1"
| "ngap_cause_to_u64 NgNasNormalRelease = 2"
| "ngap_cause_to_u64 NgNasDeregister = 3"
| "ngap_cause_to_u64 NgNasAuthFailure = 4"
| "ngap_cause_to_u64 NgProtocolUnspecified = 5"
| "ngap_cause_to_u64 NgMiscUnspecified = 6"

definition ngap_cause_from_u64 :: "u64 \<Rightarrow> NgapCause option" where
  "ngap_cause_from_u64 v =
     (if v = 0 then Some NgRadioNetworkUnspecified
      else if v = 1 then Some NgTransportUnspecified
      else if v = 2 then Some NgNasNormalRelease
      else if v = 3 then Some NgNasDeregister
      else if v = 4 then Some NgNasAuthFailure
      else if v = 5 then Some NgProtocolUnspecified
      else if v = 6 then Some NgMiscUnspecified
      else None)"

section \<open>IE container and PDU wrapper\<close>

definition ngap_write_ie_entry :: "PerWriter \<Rightarrow> IeEntry \<Rightarrow> PerWriter option" where
  "ngap_write_ie_entry w e = (case e of (i, crit, val) \<Rightarrow>
     Option.bind (write_constrained_int w (ucast i) 0 NGAP_PROTOCOL_IE_ID_MAX) (\<lambda>w.
       Option.bind (write_constrained_int w (ucast crit) 0 2) (\<lambda>w. write_octet_string w val)))"

definition ngap_write_ie_container :: "PerWriter \<Rightarrow> IeEntry list \<Rightarrow> PerWriter option" where
  "ngap_write_ie_container w entries =
     Option.bind (write_length_determinant w (length entries)) (\<lambda>w. foldM ngap_write_ie_entry w entries)"

definition ngap_read_ie_entry :: "PerReader \<Rightarrow> (IeEntry \<times> PerReader) option" where
  "ngap_read_ie_entry r =
     Option.bind (read_constrained_int r 0 NGAP_PROTOCOL_IE_ID_MAX) (\<lambda>(i, r).
       Option.bind (read_constrained_int r 0 2) (\<lambda>(crit, r).
         Option.bind (read_octet_string r) (\<lambda>(val, r). Some ((ucast i, ucast crit, val), r))))"

definition ngap_read_ie_container :: "PerReader \<Rightarrow> (IeEntry list \<times> PerReader) option" where
  "ngap_read_ie_container r =
     Option.bind (read_length_determinant r) (\<lambda>(count, r). repeatM ngap_read_ie_entry count r)"

definition ngap_encode_pdu_wrapper :: "u64 \<Rightarrow> u32 \<Rightarrow> u8 \<Rightarrow> bytes \<Rightarrow> bytes option" where
  "ngap_encode_pdu_wrapper choice procedure_code criticality value_bytes =
     Option.bind (write_constrained_int PerWriter_new choice 0 2) (\<lambda>w.
       Option.bind (write_constrained_int w (ucast procedure_code) 0 NGAP_PROCEDURE_CODE_MAX) (\<lambda>w.
         Option.bind (write_constrained_int w (ucast criticality) 0 2) (\<lambda>w.
           Option.bind (write_octet_string w value_bytes) (\<lambda>w. Some (into_bytes w)))))"

definition ngap_decode_pdu_wrapper :: "bytes \<Rightarrow> (u64 \<times> u32 \<times> u8 \<times> bytes) option" where
  "ngap_decode_pdu_wrapper buf =
     Option.bind (read_constrained_int (PerReader_new buf) 0 2) (\<lambda>(choice, r).
       Option.bind (read_constrained_int r 0 NGAP_PROCEDURE_CODE_MAX) (\<lambda>(pc, r).
         Option.bind (read_constrained_int r 0 2) (\<lambda>(crit, r).
           Option.bind (read_octet_string r) (\<lambda>(val, r). Some (choice, ucast pc, ucast crit, val)))))"

text \<open>The pushed entries, written as a container and wrapped.\<close>

definition ngap_encode_entries :: "u64 \<Rightarrow> u32 \<Rightarrow> u8 \<Rightarrow> IeEntry option list \<Rightarrow> bytes option" where
  "ngap_encode_entries choice pc crit ies =
     Option.bind (those ies) (\<lambda>entries.
       Option.bind (ngap_write_ie_container PerWriter_new entries) (\<lambda>value_w.
         ngap_encode_pdu_wrapper choice pc crit (into_bytes value_w)))"

section \<open>Structured values\<close>

definition write_user_location_info :: "PerWriter \<Rightarrow> bytes \<Rightarrow> bytes \<Rightarrow> PerWriter" where
  "write_user_location_info w nr_cgi tai = write_octets (write_octets w nr_cgi) tai"

definition read_user_location_info :: "PerReader \<Rightarrow> ((bytes \<times> bytes) \<times> PerReader) option" where
  "read_user_location_info r =
     Option.bind (read_octets r 9) (\<lambda>(cgi, r). Option.bind (read_octets r 6) (\<lambda>(tai, r). Some ((cgi, tai), r)))"

definition write_pdu_session_to_setup :: "PerWriter \<Rightarrow> PduSessionToSetup \<Rightarrow> PerWriter option" where
  "write_pdu_session_to_setup w s =
     Option.bind (write_constrained_int w (ucast (pts_pdu_session_id s)) 0 PDU_SESSION_ID_MAX) (\<lambda>w.
       Option.bind (write_constrained_int w (ucast (pts_qfi s)) 0 QFI_MAX) (\<lambda>w.
         Some (write_octets (write_octets (write_align w) (pts_gtp_teid s)) (pts_transport_layer_addr s))))"

definition write_pdu_sessions_to_setup :: "PerWriter \<Rightarrow> PduSessionToSetup list \<Rightarrow> PerWriter option" where
  "write_pdu_sessions_to_setup w sessions =
     Option.bind (write_length_determinant w (length sessions)) (\<lambda>w. foldM write_pdu_session_to_setup w sessions)"

definition read_pdu_session_to_setup :: "PerReader \<Rightarrow> (PduSessionToSetup \<times> PerReader) option" where
  "read_pdu_session_to_setup r =
     Option.bind (read_constrained_int r 0 PDU_SESSION_ID_MAX) (\<lambda>(i, r).
       Option.bind (read_constrained_int r 0 QFI_MAX) (\<lambda>(q, r).
         Option.bind (read_octets r 4) (\<lambda>(t, r).
           Option.bind (read_octets r 4) (\<lambda>(a, r).
             Some (\<lparr>pts_pdu_session_id = ucast i, pts_qfi = ucast q, pts_gtp_teid = t,
                    pts_transport_layer_addr = a\<rparr>, r)))))"

definition read_pdu_sessions_to_setup :: "PerReader \<Rightarrow> (PduSessionToSetup list \<times> PerReader) option" where
  "read_pdu_sessions_to_setup r =
     Option.bind (read_length_determinant r) (\<lambda>(count, r). repeatM read_pdu_session_to_setup count r)"

definition write_pdu_session_setup :: "PerWriter \<Rightarrow> PduSessionSetupItem \<Rightarrow> PerWriter option" where
  "write_pdu_session_setup w it =
     Option.bind (write_constrained_int w (ucast (psi_pdu_session_id it)) 0 PDU_SESSION_ID_MAX) (\<lambda>w.
       Some (write_octets (write_octets (write_align w) (psi_transport_layer_addr it)) (psi_gtp_teid it)))"

definition write_pdu_sessions_setup :: "PerWriter \<Rightarrow> PduSessionSetupItem list \<Rightarrow> PerWriter option" where
  "write_pdu_sessions_setup w items =
     Option.bind (write_length_determinant w (length items)) (\<lambda>w. foldM write_pdu_session_setup w items)"

definition read_pdu_session_setup :: "PerReader \<Rightarrow> (PduSessionSetupItem \<times> PerReader) option" where
  "read_pdu_session_setup r =
     Option.bind (read_constrained_int r 0 PDU_SESSION_ID_MAX) (\<lambda>(i, r).
       Option.bind (read_octets r 4) (\<lambda>(a, r).
         Option.bind (read_octets r 4) (\<lambda>(t, r).
           Some (\<lparr>psi_pdu_session_id = ucast i, psi_transport_layer_addr = a, psi_gtp_teid = t\<rparr>, r))))"

definition read_pdu_sessions_setup :: "PerReader \<Rightarrow> (PduSessionSetupItem list \<times> PerReader) option" where
  "read_pdu_sessions_setup r =
     Option.bind (read_length_determinant r) (\<lambda>(count, r). repeatM read_pdu_session_setup count r)"

definition write_pdu_session_id :: "PerWriter \<Rightarrow> u8 \<Rightarrow> PerWriter option" where
  "write_pdu_session_id w i = write_constrained_int w (ucast i) 0 PDU_SESSION_ID_MAX"

definition write_pdu_session_ids :: "PerWriter \<Rightarrow> u8 list \<Rightarrow> PerWriter option" where
  "write_pdu_session_ids w ids =
     Option.bind (write_length_determinant w (length ids)) (\<lambda>w. foldM write_pdu_session_id w ids)"

definition read_pdu_session_id :: "PerReader \<Rightarrow> (u8 \<times> PerReader) option" where
  "read_pdu_session_id r = Option.bind (read_constrained_int r 0 PDU_SESSION_ID_MAX) (\<lambda>(i, r). Some (ucast i, r))"

definition read_pdu_session_ids :: "PerReader \<Rightarrow> (u8 list \<times> PerReader) option" where
  "read_pdu_session_ids r =
     Option.bind (read_length_determinant r) (\<lambda>(count, r). repeatM read_pdu_session_id count r)"

abbreviation ng_missing :: "string \<Rightarrow> ProtoError" where
  "ng_missing what \<equiv> MalformedNgap what"

text \<open>The two identifiers that almost every message starts with, and the location block.\<close>

abbreviation ie_amf_id :: "u8 \<Rightarrow> u32 \<Rightarrow> IeEntry option" where
  "ie_amf_id crit i \<equiv> ie_int ID_AMF_UE_NGAP_ID crit (ucast i) AMF_UE_NGAP_ID_MAX"

abbreviation ie_ran_id :: "u8 \<Rightarrow> u32 \<Rightarrow> IeEntry option" where
  "ie_ran_id crit i \<equiv> ie_int ID_RAN_UE_NGAP_ID crit (ucast i) RAN_UE_NGAP_ID_MAX"

definition ie_location :: "bytes \<Rightarrow> bytes \<Rightarrow> IeEntry option" where
  "ie_location nr_cgi tai =
     Some (ID_USER_LOCATION_INFO, NGAP_CRITICALITY_IGNORE,
       into_bytes (write_user_location_info PerWriter_new nr_cgi tai))"

section \<open>Initial UE message\<close>

definition ngap_encode_initial_ue_message :: "NgapInitialUeMessage \<Rightarrow> bytes option" where
  "ngap_encode_initial_ue_message msg =
     ngap_encode_entries NGAP_PDU_CHOICE_INITIATING_MESSAGE NGAP_PROC_INITIAL_UE_MESSAGE NGAP_CRITICALITY_IGNORE
       [ie_ran_id NGAP_CRITICALITY_REJECT (nium_ran_ue_ngap_id msg),
        ie_octet_string NGAP_ID_NAS_PDU NGAP_CRITICALITY_REJECT (nium_nas_pdu msg),
        ie_location (nium_nr_cgi msg) (nium_tai msg),
        ie_int NGAP_ID_RRC_ESTABLISHMENT_CAUSE NGAP_CRITICALITY_IGNORE (ucast (nium_rrc_establishment_cause msg))
          NGAP_RRC_ESTABLISHMENT_CAUSE_MAX]"

record ngap_nas_fields =
  ng_amf :: "u32 option"
  ng_ran :: "u32 option"
  ng_nas :: "bytes option"
  ng_location :: "(bytes \<times> bytes) option"
  ng_rrc :: "u8 option"

definition no_nas_fields :: ngap_nas_fields where
  "no_nas_fields = \<lparr>ng_amf = None, ng_ran = None, ng_nas = None, ng_location = None, ng_rrc = None\<rparr>"

definition ngap_initial_ue_ie :: "ngap_nas_fields \<Rightarrow> IeEntry \<Rightarrow> ngap_nas_fields" where
  "ngap_initial_ue_ie f e = (case e of (i, _, val) \<Rightarrow>
     if i = ID_RAN_UE_NGAP_ID then f\<lparr>ng_ran := map_option ucast (get_int RAN_UE_NGAP_ID_MAX val)\<rparr>
     else if i = NGAP_ID_NAS_PDU then f\<lparr>ng_nas := get_octet_string val\<rparr>
     else if i = ID_USER_LOCATION_INFO then f\<lparr>ng_location := rd_value read_user_location_info val\<rparr>
     else if i = NGAP_ID_RRC_ESTABLISHMENT_CAUSE then
       f\<lparr>ng_rrc := map_option ucast (get_int NGAP_RRC_ESTABLISHMENT_CAUSE_MAX val)\<rparr>
     else f)"

definition ngap_decode_initial_ue_message :: "IeEntry list \<Rightarrow> NgapMessage result" where
  "ngap_decode_initial_ue_message entries =
     (let f = foldl ngap_initial_ue_ie no_nas_fields entries in
      bind_res (ok_or (ng_location f) (ng_missing ''missing UserLocationInformation'')) (\<lambda>(nr_cgi, tai).
      bind_res (ok_or (ng_ran f) (ng_missing ''missing RAN-UE-NGAP-ID'')) (\<lambda>ran.
      bind_res (ok_or (ng_nas f) (ng_missing ''missing NAS-PDU'')) (\<lambda>nas.
      bind_res (ok_or (ng_rrc f) (ng_missing ''missing RRCEstablishmentCause'')) (\<lambda>rrc.
        Inr (NInitialUeMessage \<lparr>nium_ran_ue_ngap_id = ran, nium_nas_pdu = nas, nium_tai = tai,
               nium_nr_cgi = nr_cgi, nium_rrc_establishment_cause = rrc\<rparr>))))))"

section \<open>NAS transport\<close>

definition ngap_encode_uplink_nas_transport :: "NgapUplinkNasTransport \<Rightarrow> bytes option" where
  "ngap_encode_uplink_nas_transport msg =
     ngap_encode_entries NGAP_PDU_CHOICE_INITIATING_MESSAGE NGAP_PROC_UPLINK_NAS_TRANSPORT NGAP_CRITICALITY_IGNORE
       [ie_amf_id NGAP_CRITICALITY_REJECT (nunt_amf_ue_ngap_id msg),
        ie_ran_id NGAP_CRITICALITY_REJECT (nunt_ran_ue_ngap_id msg),
        ie_octet_string NGAP_ID_NAS_PDU NGAP_CRITICALITY_REJECT (nunt_nas_pdu msg),
        ie_location (nunt_nr_cgi msg) (nunt_tai msg)]"

definition ngap_uplink_nas_ie :: "ngap_nas_fields \<Rightarrow> IeEntry \<Rightarrow> ngap_nas_fields" where
  "ngap_uplink_nas_ie f e = (case e of (i, _, val) \<Rightarrow>
     if i = ID_AMF_UE_NGAP_ID then f\<lparr>ng_amf := map_option ucast (get_int AMF_UE_NGAP_ID_MAX val)\<rparr>
     else if i = ID_RAN_UE_NGAP_ID then f\<lparr>ng_ran := map_option ucast (get_int RAN_UE_NGAP_ID_MAX val)\<rparr>
     else if i = NGAP_ID_NAS_PDU then f\<lparr>ng_nas := get_octet_string val\<rparr>
     else if i = ID_USER_LOCATION_INFO then f\<lparr>ng_location := rd_value read_user_location_info val\<rparr>
     else f)"

definition ngap_decode_uplink_nas_transport :: "IeEntry list \<Rightarrow> NgapMessage result" where
  "ngap_decode_uplink_nas_transport entries =
     (let f = foldl ngap_uplink_nas_ie no_nas_fields entries in
      bind_res (ok_or (ng_location f) (ng_missing ''missing UserLocationInformation'')) (\<lambda>(nr_cgi, tai).
      bind_res (ok_or (ng_amf f) (ng_missing ''missing AMF-UE-NGAP-ID'')) (\<lambda>amf.
      bind_res (ok_or (ng_ran f) (ng_missing ''missing RAN-UE-NGAP-ID'')) (\<lambda>ran.
      bind_res (ok_or (ng_nas f) (ng_missing ''missing NAS-PDU'')) (\<lambda>nas.
        Inr (NUplinkNasTransport \<lparr>nunt_amf_ue_ngap_id = amf, nunt_ran_ue_ngap_id = ran, nunt_nas_pdu = nas,
               nunt_tai = tai, nunt_nr_cgi = nr_cgi\<rparr>))))))"

definition ngap_encode_downlink_nas_transport :: "NgapDownlinkNasTransport \<Rightarrow> bytes option" where
  "ngap_encode_downlink_nas_transport msg =
     ngap_encode_entries NGAP_PDU_CHOICE_INITIATING_MESSAGE NGAP_PROC_DOWNLINK_NAS_TRANSPORT NGAP_CRITICALITY_IGNORE
       [ie_amf_id NGAP_CRITICALITY_REJECT (ndnt_amf_ue_ngap_id msg),
        ie_ran_id NGAP_CRITICALITY_REJECT (ndnt_ran_ue_ngap_id msg),
        ie_octet_string NGAP_ID_NAS_PDU NGAP_CRITICALITY_REJECT (ndnt_nas_pdu msg)]"

definition ngap_downlink_nas_ie :: "ngap_nas_fields \<Rightarrow> IeEntry \<Rightarrow> ngap_nas_fields" where
  "ngap_downlink_nas_ie f e = (case e of (i, _, val) \<Rightarrow>
     if i = ID_AMF_UE_NGAP_ID then f\<lparr>ng_amf := map_option ucast (get_int AMF_UE_NGAP_ID_MAX val)\<rparr>
     else if i = ID_RAN_UE_NGAP_ID then f\<lparr>ng_ran := map_option ucast (get_int RAN_UE_NGAP_ID_MAX val)\<rparr>
     else if i = NGAP_ID_NAS_PDU then f\<lparr>ng_nas := get_octet_string val\<rparr>
     else f)"

definition ngap_decode_downlink_nas_transport :: "IeEntry list \<Rightarrow> NgapMessage result" where
  "ngap_decode_downlink_nas_transport entries =
     (let f = foldl ngap_downlink_nas_ie no_nas_fields entries in
      bind_res (ok_or (ng_amf f) (ng_missing ''missing AMF-UE-NGAP-ID'')) (\<lambda>amf.
      bind_res (ok_or (ng_ran f) (ng_missing ''missing RAN-UE-NGAP-ID'')) (\<lambda>ran.
      bind_res (ok_or (ng_nas f) (ng_missing ''missing NAS-PDU'')) (\<lambda>nas.
        Inr (NDownlinkNasTransport \<lparr>ndnt_amf_ue_ngap_id = amf, ndnt_ran_ue_ngap_id = ran,
               ndnt_nas_pdu = nas\<rparr>)))))"

section \<open>Initial context setup\<close>

definition ngap_encode_initial_context_setup_request :: "NgapInitialContextSetupRequest \<Rightarrow> bytes option" where
  "ngap_encode_initial_context_setup_request msg =
     ngap_encode_entries NGAP_PDU_CHOICE_INITIATING_MESSAGE NGAP_PROC_INITIAL_CONTEXT_SETUP NGAP_CRITICALITY_REJECT
       ([ie_amf_id NGAP_CRITICALITY_REJECT (nicq_amf_ue_ngap_id msg),
         ie_ran_id NGAP_CRITICALITY_REJECT (nicq_ran_ue_ngap_id msg),
         ie_octets NGAP_ID_SECURITY_KEY NGAP_CRITICALITY_REJECT (nicq_security_key msg),
         map_option (\<lambda>w. (ID_UE_AGGREGATE_MAX_BIT_RATE, NGAP_CRITICALITY_IGNORE, into_bytes w))
           (Option.bind (write_constrained_int PerWriter_new (fst (nicq_ue_ambr msg)) 0 NGAP_BIT_RATE_MAX)
              (\<lambda>w. write_constrained_int w (snd (nicq_ue_ambr msg)) 0 NGAP_BIT_RATE_MAX))] @
        (if nicq_pdu_sessions msg \<noteq> [] then
           [map_option (\<lambda>w. (ID_PDU_SESSION_RESOURCE_SETUP_LIST_CTXT_REQ, NGAP_CRITICALITY_REJECT, into_bytes w))
              (write_pdu_sessions_to_setup PerWriter_new (nicq_pdu_sessions msg))]
         else []) @
        (case nicq_nas_pdu msg of
           Some nas \<Rightarrow> [ie_octet_string NGAP_ID_NAS_PDU NGAP_CRITICALITY_REJECT nas] | None \<Rightarrow> []))"

record ngap_icsr_fields =
  nq_amf :: "u32 option"
  nq_ran :: "u32 option"
  nq_key :: "bytes option"
  nq_ambr :: "(u64 \<times> u64) option"
  nq_sessions :: "PduSessionToSetup list"
  nq_nas :: "bytes option"

definition ngap_get_ambr :: "bytes \<Rightarrow> (u64 \<times> u64) option" where
  "ngap_get_ambr = rd_value (rd_seq (\<lambda>r. read_constrained_int r 0 NGAP_BIT_RATE_MAX)
     (\<lambda>r. read_constrained_int r 0 NGAP_BIT_RATE_MAX))"

definition ngap_icsr_ie :: "ngap_icsr_fields \<Rightarrow> IeEntry \<Rightarrow> ngap_icsr_fields" where
  "ngap_icsr_ie f e = (case e of (i, _, val) \<Rightarrow>
     if i = ID_AMF_UE_NGAP_ID then f\<lparr>nq_amf := map_option ucast (get_int AMF_UE_NGAP_ID_MAX val)\<rparr>
     else if i = ID_RAN_UE_NGAP_ID then f\<lparr>nq_ran := map_option ucast (get_int RAN_UE_NGAP_ID_MAX val)\<rparr>
     else if i = NGAP_ID_SECURITY_KEY then
       (case get_octets 32 val of Some v \<Rightarrow> f\<lparr>nq_key := Some v\<rparr> | None \<Rightarrow> f)
     else if i = ID_UE_AGGREGATE_MAX_BIT_RATE then
       (case ngap_get_ambr val of Some x \<Rightarrow> f\<lparr>nq_ambr := Some x\<rparr> | None \<Rightarrow> f)
     else if i = ID_PDU_SESSION_RESOURCE_SETUP_LIST_CTXT_REQ then
       (case rd_value read_pdu_sessions_to_setup val of Some v \<Rightarrow> f\<lparr>nq_sessions := v\<rparr> | None \<Rightarrow> f)
     else if i = NGAP_ID_NAS_PDU then f\<lparr>nq_nas := get_octet_string val\<rparr>
     else f)"

definition ngap_decode_initial_context_setup_request :: "IeEntry list \<Rightarrow> NgapMessage result" where
  "ngap_decode_initial_context_setup_request entries =
     (let f = foldl ngap_icsr_ie \<lparr>nq_amf = None, nq_ran = None, nq_key = None, nq_ambr = None,
                nq_sessions = [], nq_nas = None\<rparr> entries in
      bind_res (ok_or (nq_amf f) (ng_missing ''missing AMF-UE-NGAP-ID'')) (\<lambda>amf.
      bind_res (ok_or (nq_ran f) (ng_missing ''missing RAN-UE-NGAP-ID'')) (\<lambda>ran.
      bind_res (ok_or (nq_ambr f) (ng_missing ''missing UEAggregateMaximumBitRate'')) (\<lambda>ambr.
      bind_res (ok_or (nq_key f) (ng_missing ''missing SecurityKey'')) (\<lambda>key.
        Inr (NInitialContextSetupRequest \<lparr>nicq_amf_ue_ngap_id = amf, nicq_ran_ue_ngap_id = ran,
               nicq_pdu_sessions = nq_sessions f, nicq_nas_pdu = nq_nas f, nicq_ue_ambr = ambr,
               nicq_security_key = key\<rparr>))))))"

definition ngap_encode_initial_context_setup_response :: "NgapInitialContextSetupResponse \<Rightarrow> bytes option" where
  "ngap_encode_initial_context_setup_response msg =
     ngap_encode_entries NGAP_PDU_CHOICE_SUCCESSFUL_OUTCOME NGAP_PROC_INITIAL_CONTEXT_SETUP NGAP_CRITICALITY_REJECT
       ([ie_amf_id NGAP_CRITICALITY_REJECT (nicp_amf_ue_ngap_id msg),
         ie_ran_id NGAP_CRITICALITY_REJECT (nicp_ran_ue_ngap_id msg)] @
        (if nicp_pdu_sessions_setup msg \<noteq> [] then
           [map_option (\<lambda>w. (ID_PDU_SESSION_RESOURCE_SETUP_LIST_CTXT_RES, NGAP_CRITICALITY_IGNORE, into_bytes w))
              (write_pdu_sessions_setup PerWriter_new (nicp_pdu_sessions_setup msg))]
         else []) @
        (if nicp_pdu_sessions_failed msg \<noteq> [] then
           [map_option (\<lambda>w. (ID_PDU_SESSION_RESOURCE_FAILED_TO_SETUP_LIST_CTXT_RES, NGAP_CRITICALITY_IGNORE, into_bytes w))
              (write_pdu_session_ids PerWriter_new (nicp_pdu_sessions_failed msg))]
         else []))"

record ngap_icsp_fields =
  np_amf :: "u32 option"
  np_ran :: "u32 option"
  np_setup :: "PduSessionSetupItem list"
  np_failed :: "u8 list"

definition ngap_icsp_ie :: "ngap_icsp_fields \<Rightarrow> IeEntry \<Rightarrow> ngap_icsp_fields" where
  "ngap_icsp_ie f e = (case e of (i, _, val) \<Rightarrow>
     if i = ID_AMF_UE_NGAP_ID then f\<lparr>np_amf := map_option ucast (get_int AMF_UE_NGAP_ID_MAX val)\<rparr>
     else if i = ID_RAN_UE_NGAP_ID then f\<lparr>np_ran := map_option ucast (get_int RAN_UE_NGAP_ID_MAX val)\<rparr>
     else if i = ID_PDU_SESSION_RESOURCE_SETUP_LIST_CTXT_RES then
       (case rd_value read_pdu_sessions_setup val of Some v \<Rightarrow> f\<lparr>np_setup := v\<rparr> | None \<Rightarrow> f)
     else if i = ID_PDU_SESSION_RESOURCE_FAILED_TO_SETUP_LIST_CTXT_RES then
       (case rd_value read_pdu_session_ids val of Some v \<Rightarrow> f\<lparr>np_failed := v\<rparr> | None \<Rightarrow> f)
     else f)"

definition ngap_decode_initial_context_setup_response :: "IeEntry list \<Rightarrow> NgapMessage result" where
  "ngap_decode_initial_context_setup_response entries =
     (let f = foldl ngap_icsp_ie \<lparr>np_amf = None, np_ran = None, np_setup = [], np_failed = []\<rparr> entries in
      bind_res (ok_or (np_amf f) (ng_missing ''missing AMF-UE-NGAP-ID'')) (\<lambda>amf.
      bind_res (ok_or (np_ran f) (ng_missing ''missing RAN-UE-NGAP-ID'')) (\<lambda>ran.
        Inr (NInitialContextSetupResponse \<lparr>nicp_amf_ue_ngap_id = amf, nicp_ran_ue_ngap_id = ran,
               nicp_pdu_sessions_setup = np_setup f, nicp_pdu_sessions_failed = np_failed f\<rparr>))))"

section \<open>UE context release\<close>

definition ngap_encode_ue_context_release_command :: "u32 \<Rightarrow> u32 \<Rightarrow> NgapCause \<Rightarrow> bytes option" where
  "ngap_encode_ue_context_release_command amf_id ran_id cause =
     ngap_encode_entries NGAP_PDU_CHOICE_INITIATING_MESSAGE NGAP_PROC_UE_CONTEXT_RELEASE NGAP_CRITICALITY_IGNORE
       [ie_amf_id NGAP_CRITICALITY_REJECT amf_id, ie_ran_id NGAP_CRITICALITY_REJECT ran_id,
        ie_int NGAP_ID_CAUSE NGAP_CRITICALITY_IGNORE (ngap_cause_to_u64 cause) NGAP_CAUSE_MAX]"

record ngap_release_fields =
  nr_amf :: "u32 option"
  nr_ran :: "u32 option"
  nr_cause :: "NgapCause option"

definition ngap_release_command_ie :: "ngap_release_fields \<Rightarrow> IeEntry \<Rightarrow> ngap_release_fields" where
  "ngap_release_command_ie f e = (case e of (i, _, val) \<Rightarrow>
     if i = ID_AMF_UE_NGAP_ID then f\<lparr>nr_amf := map_option ucast (get_int AMF_UE_NGAP_ID_MAX val)\<rparr>
     else if i = ID_RAN_UE_NGAP_ID then f\<lparr>nr_ran := map_option ucast (get_int RAN_UE_NGAP_ID_MAX val)\<rparr>
     else if i = NGAP_ID_CAUSE then f\<lparr>nr_cause := Option.bind (get_int NGAP_CAUSE_MAX val) ngap_cause_from_u64\<rparr>
     else f)"

definition ngap_decode_ue_context_release_command :: "IeEntry list \<Rightarrow> NgapMessage result" where
  "ngap_decode_ue_context_release_command entries =
     (let f = foldl ngap_release_command_ie \<lparr>nr_amf = None, nr_ran = None, nr_cause = None\<rparr> entries in
      bind_res (ok_or (nr_amf f) (ng_missing ''missing AMF-UE-NGAP-ID'')) (\<lambda>amf.
      bind_res (ok_or (nr_ran f) (ng_missing ''missing RAN-UE-NGAP-ID'')) (\<lambda>ran.
      bind_res (ok_or (nr_cause f) (ng_missing ''missing or invalid Cause'')) (\<lambda>cause.
        Inr (NUeContextReleaseCommand amf ran cause)))))"

definition ngap_encode_ue_context_release_complete :: "NgapUeContextReleaseComplete \<Rightarrow> bytes option" where
  "ngap_encode_ue_context_release_complete msg =
     ngap_encode_entries NGAP_PDU_CHOICE_SUCCESSFUL_OUTCOME NGAP_PROC_UE_CONTEXT_RELEASE NGAP_CRITICALITY_IGNORE
       [ie_amf_id NGAP_CRITICALITY_IGNORE (ncrc_amf_ue_ngap_id msg),
        ie_ran_id NGAP_CRITICALITY_IGNORE (ncrc_ran_ue_ngap_id msg)]"

definition ngap_release_complete_ie :: "ngap_release_fields \<Rightarrow> IeEntry \<Rightarrow> ngap_release_fields" where
  "ngap_release_complete_ie f e = (case e of (i, _, val) \<Rightarrow>
     if i = ID_AMF_UE_NGAP_ID then f\<lparr>nr_amf := map_option ucast (get_int AMF_UE_NGAP_ID_MAX val)\<rparr>
     else if i = ID_RAN_UE_NGAP_ID then f\<lparr>nr_ran := map_option ucast (get_int RAN_UE_NGAP_ID_MAX val)\<rparr>
     else f)"

definition ngap_decode_ue_context_release_complete :: "IeEntry list \<Rightarrow> NgapMessage result" where
  "ngap_decode_ue_context_release_complete entries =
     (let f = foldl ngap_release_complete_ie \<lparr>nr_amf = None, nr_ran = None, nr_cause = None\<rparr> entries in
      bind_res (ok_or (nr_amf f) (ng_missing ''missing AMF-UE-NGAP-ID'')) (\<lambda>amf.
      bind_res (ok_or (nr_ran f) (ng_missing ''missing RAN-UE-NGAP-ID'')) (\<lambda>ran.
        Inr (NUeContextReleaseComplete \<lparr>ncrc_amf_ue_ngap_id = amf, ncrc_ran_ue_ngap_id = ran\<rparr>))))"

section \<open>Dispatch\<close>

definition encode_ngap_pdu :: "NgapMessage \<Rightarrow> bytes result option" where
  "encode_ngap_pdu msg =
     (case msg of
        NInitialUeMessage m \<Rightarrow> map_option Inr (ngap_encode_initial_ue_message m)
      | NUplinkNasTransport m \<Rightarrow> map_option Inr (ngap_encode_uplink_nas_transport m)
      | NDownlinkNasTransport m \<Rightarrow> map_option Inr (ngap_encode_downlink_nas_transport m)
      | NInitialContextSetupRequest m \<Rightarrow> map_option Inr (ngap_encode_initial_context_setup_request m)
      | NInitialContextSetupResponse m \<Rightarrow> map_option Inr (ngap_encode_initial_context_setup_response m)
      | NUeContextReleaseCommand amf_id ran_id cause \<Rightarrow>
          map_option Inr (ngap_encode_ue_context_release_command amf_id ran_id cause)
      | NUeContextReleaseComplete m \<Rightarrow> map_option Inr (ngap_encode_ue_context_release_complete m)
      | _ \<Rightarrow> Some (Inl (MalformedNgap ''PER encoding not yet implemented for this NGAP message'')))"

definition decode_ngap_pdu :: "bytes \<Rightarrow> NgapMessage result" where
  "decode_ngap_pdu buf =
     bind_res (ok_or (ngap_decode_pdu_wrapper buf) (MalformedNgap ''failed to decode PDU wrapper''))
       (\<lambda>(choice, proc_code, crit, val).
          bind_res (ok_or (rd_value ngap_read_ie_container val) (MalformedNgap ''failed to decode IE container''))
            (\<lambda>entries.
               if proc_code = NGAP_PROC_INITIAL_UE_MESSAGE then ngap_decode_initial_ue_message entries
               else if proc_code = NGAP_PROC_UPLINK_NAS_TRANSPORT then ngap_decode_uplink_nas_transport entries
               else if proc_code = NGAP_PROC_DOWNLINK_NAS_TRANSPORT then ngap_decode_downlink_nas_transport entries
               else if proc_code = NGAP_PROC_INITIAL_CONTEXT_SETUP \<and> choice = NGAP_PDU_CHOICE_INITIATING_MESSAGE then
                 ngap_decode_initial_context_setup_request entries
               else if proc_code = NGAP_PROC_INITIAL_CONTEXT_SETUP \<and> choice = NGAP_PDU_CHOICE_SUCCESSFUL_OUTCOME then
                 ngap_decode_initial_context_setup_response entries
               else if proc_code = NGAP_PROC_UE_CONTEXT_RELEASE \<and> choice = NGAP_PDU_CHOICE_INITIATING_MESSAGE then
                 ngap_decode_ue_context_release_command entries
               else if proc_code = NGAP_PROC_UE_CONTEXT_RELEASE \<and> choice = NGAP_PDU_CHOICE_SUCCESSFUL_OUTCOME then
                 ngap_decode_ue_context_release_complete entries
               else Inl (MalformedNgap ''unsupported procedure code (or PDU choice)'')))"

end
