(* ===== verification/Amf.thy ===== *)
theory Amf
  imports Mme_Attach Nas5gs_Codec Ngap_Codec
begin

text \<open>
  The 5G control plane, \<open>crates/midn-core/src/amf/state_machine.rs\<close>, \<open>registration.rs\<close> and
  \<open>deregistration.rs\<close>: the registration and deregistration handlers and the dispatcher
  \<open>process_ngap\<close>, in the style of the MME theory. Names that the two control planes share carry
  the prefix \<open>amf_\<close> here. A handler maps the state and a message to the messages for the gNodeB,
  the events for the user plane and the new state; \<open>None\<close> is a panic, which only \<open>spawn\<close>
  could raise. The random challenge is an argument; log output is not modelled.
\<close>

section \<open>State\<close>

datatype N3Event =
    N3CreateSession u32 u32 u64 u8 u8 bytes bytes
  | N3UpdateBearer u32 u32 bytes
  | N3RemoveSession u32

type_synonym amf_output = "NgapMessage list \<times> N3Event list"

record Amf =
  a_world :: World
  a_registry :: ImsiRegistry
  a_hss :: Hss
  a_phase_b_upf :: "bytes option"
  a_teids :: TeidAllocator

definition Amf_new :: Amf where
  "Amf_new = \<lparr>a_world = World_new, a_registry = ImsiRegistry_new, a_hss = Hss_new,
     a_phase_b_upf = None, a_teids = TeidAllocator_new 0x00020000\<rparr>"

definition with_phase_b :: "Amf \<Rightarrow> bytes \<Rightarrow> Amf" where
  "with_phase_b m upf_addr = m\<lparr>a_phase_b_upf := Some upf_addr\<rparr>"

definition amf_alloc_ul_teid :: "Amf \<Rightarrow> u32 \<times> Amf" where
  "amf_alloc_ul_teid m = (let (t, a) = teid_alloc (a_teids m) in (t, m\<lparr>a_teids := a\<rparr>))"

definition amf_release_ul_teid :: "Amf \<Rightarrow> u32 \<Rightarrow> Amf" where
  "amf_release_ul_teid m t = m\<lparr>a_teids := teid_release (a_teids m) t\<rparr>"

definition amf_free_teid_count :: "Amf \<Rightarrow> nat" where
  "amf_free_teid_count m = teid_free_count (a_teids m)"

definition amf_subscriber_count :: "Amf \<Rightarrow> nat" where
  "amf_subscriber_count m = subscriber_count (a_world m)"

section \<open>Registration\<close>

definition MILENAGE_AMF_FIELD :: bytes where "MILENAGE_AMF_FIELD = [0x80, 0x00]"
definition SELECTED_NAS_CIPHER_ALG :: u8 where "SELECTED_NAS_CIPHER_ALG = 2"
definition SELECTED_NAS_INTEGRITY_ALG :: u8 where "SELECTED_NAS_INTEGRITY_ALG = 2"
definition DEFAULT_ABBA :: bytes where "DEFAULT_ABBA = [0x00, 0x00]"
definition DEFAULT_PDU_SESSION_ID :: u8 where "DEFAULT_PDU_SESSION_ID = 1"
definition DEFAULT_QFI :: u8 where "DEFAULT_QFI = 1"

definition resolve_suci_to_imsi :: "Suci \<Rightarrow> u64 option" where
  "resolve_suci_to_imsi s =
     (if protection_scheme s \<noteq> 0 then None else Some (from_be (replicate 3 0 @ msin s)))"

definition ct_eq_16 :: "bytes \<Rightarrow> bytes \<Rightarrow> bool" where
  "ct_eq_16 a b = (foldl (\<lambda>diff (x, y). diff OR (x XOR y)) 0 (zip a b) = 0)"

definition placeholder_guti :: "u32 \<Rightarrow> bytes" where
  "placeholder_guti amf_ue_ngap_id = [IDTYPE_5G_GUTI] @ replicate 6 0 @ to_be32 amf_ue_ngap_id"

text \<open>\<open>u64::to_string\<close>: the decimal digits, without leading zeros.\<close>

fun decimal_digits :: "nat \<Rightarrow> bytes" where
  "decimal_digits n =
     (if n < 10 then [48 + of_nat n] else decimal_digits (n div 10) @ [48 + of_nat (n mod 10)])"

declare decimal_digits.simps [simp del]

definition supi_of :: "u64 \<Rightarrow> bytes" where
  "supi_of imsi = decimal_digits (unat imsi)"

definition start_registration ::
    "World \<Rightarrow> u32 \<Rightarrow> bytes \<Rightarrow> bytes \<Rightarrow> (amf_output \<times> World) option" where
  "start_registration world ran_ue_ngap_id nas_pdu tai =
     (let plmn = take 3 tai in
      case decode_nas5gs nas_pdu of
        Inr (RegistrationRequest inner) \<Rightarrow>
          if rr_guti inner \<noteq> None then Some (([], []), world)
          else
            (case spawn world of
               None \<Rightarrow> None
             | Some (amf_ue_ngap_id, world) \<Rightarrow>
                 let world = insert_identity world amf_ue_ngap_id
                       \<lparr>id_imsi = 0, id_enb_ue_s1ap_id = ran_ue_ngap_id, id_ue_ip = replicate 4 0\<rparr>;
                     aka = Nas5gsAkaContext_new_empty\<lparr>sc5_plmn := plmn\<rparr>;
                     world = insert_security5g world amf_ue_ngap_id aka;
                     nas = encode_identity_request IDTYPE_SUCI
                 in Some (([NDownlinkNasTransport
                             \<lparr>ndnt_amf_ue_ngap_id = amf_ue_ngap_id,
                              ndnt_ran_ue_ngap_id = ran_ue_ngap_id, ndnt_nas_pdu = nas\<rparr>], []), world))
      | _ \<Rightarrow> Some (([], []), world))"

definition handle_identity_response ::
    "crypto \<Rightarrow> bytes \<Rightarrow> World \<Rightarrow> ImsiRegistry \<Rightarrow> Hss \<Rightarrow> u32 \<Rightarrow> u32 \<Rightarrow> bytes \<Rightarrow>
     amf_output \<times> World \<times> ImsiRegistry \<times> Hss" where
  "handle_identity_response cr rand world registry hss ran_ue_ngap_id amf_ue_ngap_id nas_pdu =
     (case decode_nas5gs nas_pdu of
        Inr (IdentityResponse inner) \<Rightarrow>
          (case ir_suci inner of
             None \<Rightarrow> (([], []), world, registry, hss)
           | Some suci \<Rightarrow>
               (case resolve_suci_to_imsi suci of
                  None \<Rightarrow> (([], []), world, registry, hss)
                | Some imsi \<Rightarrow>
                    (case generate_auth_vector cr rand hss imsi of
                       (None, hss) \<Rightarrow> (([], []), world, registry, hss)
                     | (Some auth_info, hss) \<Rightarrow>
                         (case security5g world amf_ue_ngap_id of
                            None \<Rightarrow> (([], []), world, registry, hss)
                          | Some aka \<Rightarrow>
                              let plmn = sc5_plmn aka;
                                  tok = autn (hi_vector auth_info) (hi_sqn_used auth_info) MILENAGE_AMF_FIELD;
                                  snn = serving_network_name plmn;
                                  xres_star = derive_res_star cr (av_ck (hi_vector auth_info))
                                    (av_ik (hi_vector auth_info)) snn (hi_rand auth_info)
                                    (av_res (hi_vector auth_info));
                                  registry = snd (register registry imsi amf_ue_ngap_id);
                                  world = insert_identity world amf_ue_ngap_id
                                    \<lparr>id_imsi = imsi, id_enb_ue_s1ap_id = ran_ue_ngap_id,
                                     id_ue_ip = replicate 4 0\<rparr>;
                                  world = insert_security5g world amf_ue_ngap_id
                                    \<lparr>pending_rand5 = hi_rand auth_info, pending_xres_star = xres_star,
                                     sc5_ck = av_ck (hi_vector auth_info),
                                     sc5_ik = av_ik (hi_vector auth_info),
                                     sc5_ak = av_ak (hi_vector auth_info), sc5_plmn = plmn,
                                     sc5_sqn_used = hi_sqn_used auth_info\<rparr>;
                                  world = set_auth_state world amf_ue_ngap_id ChallengeIssued;
                                  nas = encode_auth_request_5g 0 (hi_rand auth_info) tok
                              in (([NDownlinkNasTransport
                                     \<lparr>ndnt_amf_ue_ngap_id = amf_ue_ngap_id,
                                      ndnt_ran_ue_ngap_id = ran_ue_ngap_id, ndnt_nas_pdu = nas\<rparr>], []),
                                  world, registry, hss)))))
      | _ \<Rightarrow> (([], []), world, registry, hss))"

definition amf_handle_auth_response :: "World \<Rightarrow> u32 \<Rightarrow> u32 \<Rightarrow> bytes \<Rightarrow> amf_output \<times> World" where
  "amf_handle_auth_response world ran_ue_ngap_id amf_ue_ngap_id nas_pdu =
     (case decode_nas5gs nas_pdu of
        Inr (AuthenticationResponse5g inner) \<Rightarrow>
          (case security5g world amf_ue_ngap_id of
             None \<Rightarrow> (([], []), world)
           | Some aka \<Rightarrow>
               let matched = ct_eq_16 (pending_xres_star aka) (ap5_res_star inner);
                   world = security5g_mut world amf_ue_ngap_id clear_pending_challenge_5g
               in if \<not> matched then
                    (([], []), set_auth_state world amf_ue_ngap_id (Failed ResMismatch))
                  else
                    let world = set_auth_state world amf_ue_ngap_id Authenticated;
                        nas = encode_sec_mode_cmd_5g SELECTED_NAS_CIPHER_ALG SELECTED_NAS_INTEGRITY_ALG 0x2040
                    in (([NDownlinkNasTransport
                           \<lparr>ndnt_amf_ue_ngap_id = amf_ue_ngap_id,
                            ndnt_ran_ue_ngap_id = ran_ue_ngap_id, ndnt_nas_pdu = nas\<rparr>], []), world))
      | _ \<Rightarrow> (([], []), world))"

text \<open>The address made from the entity id: two bytes of it behind 10.45.\<close>

definition synth_ue_ip :: "u32 \<Rightarrow> bytes" where
  "synth_ue_ip amf_ue_ngap_id = [10, 45, ucast (drop_bit 8 amf_ue_ngap_id), ucast amf_ue_ngap_id]"

definition amf_handle_security_mode_complete ::
    "crypto \<Rightarrow> World \<Rightarrow> u32 \<Rightarrow> u32 \<Rightarrow> bytes option \<Rightarrow> TeidAllocator \<Rightarrow> amf_output \<times> World \<times> TeidAllocator" where
  "amf_handle_security_mode_complete cr world ran_ue_ngap_id amf_ue_ngap_id phase_b_upf teids =
     (case identity world amf_ue_ngap_id of
        None \<Rightarrow> (([], []), world, teids)
      | Some ident \<Rightarrow>
          (case security5g world amf_ue_ngap_id of
             None \<Rightarrow> (([], []), world, teids)
           | Some aka \<Rightarrow>
               let imsi = id_imsi ident;
                   sqn_xor_ak = xor_bytes (sc5_sqn_used aka) (sc5_ak aka);
                   snn = serving_network_name (sc5_plmn aka);
                   kausf = derive_kausf cr (sc5_ck aka) (sc5_ik aka) snn sqn_xor_ak;
                   kseaf = derive_kseaf cr kausf snn;
                   supi = supi_of imsi;
                   kamf = derive_kamf cr kseaf supi DEFAULT_ABBA;
                   world = security5g_mut world amf_ue_ngap_id clear_post_kamf;
                   nas_sec = Nas5gsSecurityContext_new cr kamf SELECTED_NAS_CIPHER_ALG
                     SELECTED_NAS_INTEGRITY_ALG;
                   guti = placeholder_guti amf_ue_ngap_id;
                   registration_accept_plain = encode_registration_accept 1 guti [];
                   (registration_accept_nas, nas_sec) =
                     encode_protected_5g cr NAS5GS_SHT_INTEGRITY_CIPHERED nas_sec registration_accept_plain
               in case phase_b_upf of
                    Some upf_addr \<Rightarrow>
                      let (ul_teid, teids) = teid_alloc teids;
                          world = set_nas_security5g world amf_ue_ngap_id nas_sec;
                          world = set_tunnel world amf_ue_ngap_id
                            \<lparr>tc_ul_teid = ul_teid, tc_dl_teid = 0, tc_enb_addr = replicate 4 0\<rparr>;
                          icsr = NInitialContextSetupRequest
                            \<lparr>nicq_amf_ue_ngap_id = amf_ue_ngap_id,
                             nicq_ran_ue_ngap_id = ran_ue_ngap_id,
                             nicq_pdu_sessions = [\<lparr>pts_pdu_session_id = DEFAULT_PDU_SESSION_ID,
                                pts_qfi = DEFAULT_QFI, pts_gtp_teid = to_be32 ul_teid,
                                pts_transport_layer_addr = upf_addr\<rparr>],
                             nicq_nas_pdu = Some registration_accept_nas,
                             nicq_ue_ambr = (50000000, 50000000),
                             nicq_security_key = kamf\<rparr>;
                          evt = N3CreateSession ul_teid amf_ue_ngap_id imsi DEFAULT_PDU_SESSION_ID
                            DEFAULT_QFI (synth_ue_ip amf_ue_ngap_id) (replicate 4 0)
                      in (([icsr], [evt]), world, teids)
                  | None \<Rightarrow>
                      (([NDownlinkNasTransport
                          \<lparr>ndnt_amf_ue_ngap_id = amf_ue_ngap_id,
                           ndnt_ran_ue_ngap_id = ran_ue_ngap_id,
                           ndnt_nas_pdu = registration_accept_nas\<rparr>], []),
                       set_nas_security5g world amf_ue_ngap_id nas_sec, teids)))"

definition handle_registration_complete :: "World \<Rightarrow> u32 \<Rightarrow> amf_output \<times> World" where
  "handle_registration_complete world amf_ue_ngap_id = (([], []), world)"

section \<open>Deregistration\<close>

definition handle_deregistration_request ::
    "crypto \<Rightarrow> World \<Rightarrow> u32 \<Rightarrow> u32 \<Rightarrow> bytes \<Rightarrow> NgapMessage list \<times> World" where
  "handle_deregistration_request cr world ran_ue_ngap_id amf_ue_ngap_id nas_pdu =
     (case decode_nas5gs nas_pdu of
        Inr (DeregistrationRequest switch_off) \<Rightarrow>
          if \<not> is_live world amf_ue_ngap_id then ([], world)
          else
            let (out, world) =
              (if \<not> switch_off then
                 let (nas_pdu_out, world) =
                   (case nas_security5g world amf_ue_ngap_id of
                      Some nas_ctx \<Rightarrow>
                        let (pdu, nas_ctx') =
                          encode_protected_5g cr NAS5GS_SHT_INTEGRITY_CIPHERED nas_ctx
                            encode_deregistration_accept
                        in (pdu, nas_security5g_mut world amf_ue_ngap_id (\<lambda>_. nas_ctx'))
                    | None \<Rightarrow> (encode_deregistration_accept, world))
                 in ([NDownlinkNasTransport
                        \<lparr>ndnt_amf_ue_ngap_id = amf_ue_ngap_id, ndnt_ran_ue_ngap_id = ran_ue_ngap_id,
                         ndnt_nas_pdu = nas_pdu_out\<rparr>], world)
               else ([], world))
            in (out @ [NUeContextReleaseCommand amf_ue_ngap_id ran_ue_ngap_id NgNasDeregister], world)
      | _ \<Rightarrow> ([], world))"

section \<open>Dispatch\<close>

text \<open>
  The two halves of \<open>handle_uplink_nas\<close>: recovering the plain PDU, with the security context of
  the entity when the security header type in the second byte is not plain, and the dispatch
  on the message type.
\<close>

definition amf_unwrap_uplink :: "crypto \<Rightarrow> World \<Rightarrow> u32 \<Rightarrow> bytes \<Rightarrow> bytes option \<times> World" where
  "amf_unwrap_uplink cr world amf_ue_ngap_id nas_pdu =
     (let sht = (if length nas_pdu \<le> 1 then 0 else nas_pdu ! 1 AND 0x0F) in
      if sht = NAS5GS_SHT_PLAIN then (Some nas_pdu, world)
      else
        case nas_security5g world amf_ue_ngap_id of
          None \<Rightarrow> (None, world)
        | Some ctx \<Rightarrow>
            let (inner, ctx') = decode_protected_5g cr ctx nas_pdu
            in (inner, nas_security5g_mut world amf_ue_ngap_id (\<lambda>_. ctx')))"

definition amf_dispatch_nas :: "crypto \<Rightarrow> bytes \<Rightarrow> Amf \<Rightarrow> u32 \<Rightarrow> u32 \<Rightarrow> bytes \<Rightarrow> amf_output \<times> Amf" where
  "amf_dispatch_nas cr rand m ran_ue_ngap_id amf_ue_ngap_id plain_pdu =
     (case decode_nas5gs plain_pdu of
        Inr (IdentityResponse _) \<Rightarrow>
          let (out, world, registry, hss) =
            handle_identity_response cr rand (a_world m) (a_registry m) (a_hss m) ran_ue_ngap_id
              amf_ue_ngap_id plain_pdu
          in (out, m\<lparr>a_world := world, a_registry := registry, a_hss := hss\<rparr>)
      | Inr (AuthenticationResponse5g _) \<Rightarrow>
          let (out, world) =
            amf_handle_auth_response (a_world m) ran_ue_ngap_id amf_ue_ngap_id plain_pdu
          in (out, m\<lparr>a_world := world\<rparr>)
      | Inr SecurityModeComplete5g \<Rightarrow>
          let (out, world, teids) =
            amf_handle_security_mode_complete cr (a_world m) ran_ue_ngap_id amf_ue_ngap_id
              (a_phase_b_upf m) (a_teids m)
          in (out, m\<lparr>a_world := world, a_teids := teids\<rparr>)
      | Inr RegistrationComplete \<Rightarrow>
          let (out, world) = handle_registration_complete (a_world m) amf_ue_ngap_id
          in (out, m\<lparr>a_world := world\<rparr>)
      | Inr (DeregistrationRequest _) \<Rightarrow>
          let (responses, world) =
            handle_deregistration_request cr (a_world m) ran_ue_ngap_id amf_ue_ngap_id plain_pdu
          in ((responses, []), m\<lparr>a_world := world\<rparr>)
      | _ \<Rightarrow> (([], []), m))"

definition amf_handle_uplink_nas :: "crypto \<Rightarrow> bytes \<Rightarrow> Amf \<Rightarrow> u32 \<Rightarrow> u32 \<Rightarrow> bytes \<Rightarrow> amf_output \<times> Amf" where
  "amf_handle_uplink_nas cr rand m ran_ue_ngap_id amf_ue_ngap_id nas_pdu =
     (let (plain, world) = amf_unwrap_uplink cr (a_world m) amf_ue_ngap_id nas_pdu;
          m = m\<lparr>a_world := world\<rparr>
      in case plain of
           None \<Rightarrow> (([], []), m)
         | Some plain_pdu \<Rightarrow> amf_dispatch_nas cr rand m ran_ue_ngap_id amf_ue_ngap_id plain_pdu)"

definition handle_ics_response :: "Amf \<Rightarrow> NgapInitialContextSetupResponse \<Rightarrow> amf_output \<times> Amf" where
  "handle_ics_response m resp =
     (let ent = nicp_amf_ue_ngap_id resp in
      case nicp_pdu_sessions_setup resp of
        [] \<Rightarrow> (([], []), m)
      | s # _ \<Rightarrow>
          let dl_teid = from_be (psi_gtp_teid s); gnb_addr = psi_transport_layer_addr s in
          (case tunnel (a_world m) ent of
             Some t \<Rightarrow>
               (([], [N3UpdateBearer (tc_ul_teid t) dl_teid gnb_addr]),
                m\<lparr>a_world := tunnel_mut (a_world m) ent
                    (\<lambda>t. t\<lparr>tc_dl_teid := dl_teid, tc_enb_addr := gnb_addr\<rparr>)\<rparr>)
           | None \<Rightarrow> (([], []), m)))"

definition amf_handle_release_complete :: "Amf \<Rightarrow> NgapUeContextReleaseComplete \<Rightarrow> amf_output \<times> Amf" where
  "amf_handle_release_complete m msg =
     (let ent = ncrc_amf_ue_ngap_id msg;
          ul_teid = map_option tc_ul_teid (tunnel (a_world m) ent);
          m = (case identity (a_world m) ent of
                 Some ident \<Rightarrow> m\<lparr>a_registry := snd (deregister (a_registry m) (id_imsi ident))\<rparr>
               | None \<Rightarrow> m);
          m = m\<lparr>a_world := despawn (a_world m) ent\<rparr>
      in case ul_teid of
           Some t \<Rightarrow> (([], [N3RemoveSession t]), m\<lparr>a_teids := teid_release (a_teids m) t\<rparr>)
         | None \<Rightarrow> (([], []), m))"

definition process_ngap :: "crypto \<Rightarrow> bytes \<Rightarrow> Amf \<Rightarrow> NgapMessage \<Rightarrow> (amf_output \<times> Amf) option" where
  "process_ngap cr rand m msg =
     (case msg of
        NInitialUeMessage u \<Rightarrow>
          map_option (\<lambda>(out, world). (out, m\<lparr>a_world := world\<rparr>))
            (start_registration (a_world m) (nium_ran_ue_ngap_id u) (nium_nas_pdu u) (nium_tai u))
      | NUplinkNasTransport u \<Rightarrow>
          Some (amf_handle_uplink_nas cr rand m (nunt_ran_ue_ngap_id u) (nunt_amf_ue_ngap_id u) (nunt_nas_pdu u))
      | NInitialContextSetupResponse r \<Rightarrow> Some (handle_ics_response m r)
      | NUeContextReleaseComplete r \<Rightarrow> Some (amf_handle_release_complete m r)
      | _ \<Rightarrow> Some (([], []), m))"

section \<open>Helpers\<close>

lemma ct_eq_fold:
  "length a = length b \<Longrightarrow>
   foldl (\<lambda>diff (x, y). diff OR (x XOR y)) d (zip a b) = (0 :: u8) \<longleftrightarrow> d = 0 \<and> a = b"
proof (induction a b arbitrary: d rule: list_induct2)
  case (Cons x xs y ys)
  have "d OR (x XOR y) = 0 \<longleftrightarrow> d = 0 \<and> x = y"
    by (metis or_eq_0_iff xor_self_eq bit.xor_cancel_right xor.right_neutral xor.left_commute)
  with Cons show ?case by auto
qed simp

lemma ct_eq_16_eq: "length a = length b \<Longrightarrow> ct_eq_16 a b \<longleftrightarrow> a = b"
  by (simp add: ct_eq_16_def ct_eq_fold)

lemma length_placeholder_guti [simp]: "length (placeholder_guti i) = 11"
  by (simp add: placeholder_guti_def)

end
