(* ===== verification/Amf_Invariant.thy ===== *)
theory Amf_Invariant
  imports Amf
begin

text \<open>
  The invariant of the AMF, over the same notions as the MME's: the entity storage, the TEID
  allocator as an identifier allocator, and tunnels that no two entities share; and the
  expected response of every entity has its 16 bytes. It holds after any sequence of
  messages.
\<close>

section \<open>Handlers that leave the tunnels alone\<close>

lemma setters5g_keep_tunnels [simp]:
  assumes "world_wf w"
  shows "keeps_tunnels w (insert_security5g w i x5)" "keeps_tunnels w (security5g_mut w i f5)"
    "keeps_tunnels w (set_nas_security5g w i x6)" "keeps_tunnels w (nas_security5g_mut w i f6)"
  using assms
  by (simp_all add: keeps_tunnels_def ecs_wf teid_of_def ecs_abs fun_eq_iff split: Option.bind_split)

lemma keeps_wf: "keeps_tunnels w w' \<Longrightarrow> world_wf w'"
  by (simp add: keeps_tunnels_def)

lemma amf_handle_auth_response_keeps:
  assumes "world_wf w"
  shows "keeps_tunnels w (snd (amf_handle_auth_response w gnb i pdu))"
proof -
  have "keeps_tunnels w (set_auth_state (security5g_mut w i f) i st)" for f st
    using assms by (meson keeps_wf keeps_tunnels_trans setters_keep_tunnels(2) setters5g_keep_tunnels(2))
  with assms show ?thesis
    by (auto simp: amf_handle_auth_response_def Let_def split: sum.splits Nas5gsPdu.splits option.splits)
qed

lemma handle_identity_response_keeps:
  assumes "world_wf w"
  shows "keeps_tunnels w (fst (snd (handle_identity_response cr rand w reg hss gnb i pdu)))"
proof -
  have "keeps_tunnels w (set_auth_state (insert_security5g (insert_identity w i x) i y) i st)" for x y st
    using assms
    by (meson keeps_wf keeps_tunnels_trans setters_keep_tunnels(1,2) setters5g_keep_tunnels(1))
  with assms show ?thesis
    by (auto simp: handle_identity_response_def Let_def
        split: sum.splits Nas5gsPdu.splits option.splits prod.splits)
qed

lemma handle_deregistration_request_keeps:
  assumes "world_wf w"
  shows "keeps_tunnels w (snd (handle_deregistration_request cr w gnb i pdu))"
  using assms
  by (auto simp: handle_deregistration_request_def Let_def
      split: sum.splits Nas5gsPdu.splits option.splits prod.splits if_splits)

lemma amf_unwrap_uplink_keeps: "world_wf w \<Longrightarrow> keeps_tunnels w (snd (amf_unwrap_uplink cr w i pdu))"
  by (auto simp: amf_unwrap_uplink_def Let_def split: option.splits prod.splits)

section \<open>Handlers that change them\<close>

text \<open>The first message adds one entity without a tunnel, or nothing.\<close>

lemma start_registration_keeps:
  assumes wf: "world_wf w" and room: "unat (next_id w) + 1 < 4294967296"
  obtains out w' where "start_registration w gnb pdu tai = Some (out, w')"
    "world_wf w'" "unat (next_id w') \<le> unat (next_id w) + 1" "teid_of w' = teid_of w" "snd out = []"
proof -
  obtain e w1 where sp: "spawn w = Some (e, w1)" "world_wf w1" "abs_world w e = None"
    "abs_world w1 = (abs_world w)(e \<mapsto> empty_entity)" "unat (next_id w1) \<le> unat (next_id w) + 1"
    using spawn_abs [OF wf room] by blast
  have t1: "teid_of w1 = teid_of w"
    using sp(3,4) by (auto simp: teid_of_def fun_eq_iff empty_entity_def)
  have k: "keeps_tunnels w1 (insert_security5g (insert_identity w1 e x) e y)" for x y
    using sp(2) by (meson keeps_wf keeps_tunnels_trans setters_keep_tunnels(1) setters5g_keep_tunnels(1))
  have "\<exists>out w'. start_registration w gnb pdu tai = Some (out, w') \<and>
      (w' = w \<or> keeps_tunnels w1 w') \<and> snd out = []"
    using sp(1) k unfolding start_registration_def Let_def
    by (auto split: sum.splits Nas5gsPdu.splits option.splits prod.splits)
  then obtain out w' where r: "start_registration w gnb pdu tai = Some (out, w')"
    "w' = w \<or> keeps_tunnels w1 w'" "snd out = []" by blast
  from r(2) have "world_wf w' \<and> unat (next_id w') \<le> unat (next_id w) + 1 \<and> teid_of w' = teid_of w"
    using wf sp(5) t1 by (auto simp: keeps_tunnels_def)
  then show ?thesis using that r(1,3) by blast
qed

lemma amf_security_mode_complete_world:
  assumes wf: "world_wf w" and i: "identity w i = Some x"
  shows "keeps_tunnels w (set_nas_security5g (security5g_mut w i f) i c)"
    "teid_of (set_tunnel (set_nas_security5g (security5g_mut w i f) i c) i tu) = (teid_of w)(i \<mapsto> tc_ul_teid tu)"
proof -
  show k: "keeps_tunnels w (set_nas_security5g (security5g_mut w i f) i c)"
    using wf by (meson keeps_wf keeps_tunnels_trans setters5g_keep_tunnels(2,3))
  have "abs_world w i \<noteq> None" using wf i by (auto simp: ecs_abs)
  then show "teid_of (set_tunnel (set_nas_security5g (security5g_mut w i f) i c) i tu) = (teid_of w)(i \<mapsto> tc_ul_teid tu)"
    using k wf by (auto simp: teid_of_set_tunnel keeps_tunnels_def ecs_wf ecs_abs)
qed

lemma amf_handle_security_mode_complete_ok:
  assumes wf: "world_wf w" and a: "teid_inv a" "teid_room a" "tunnels_ok w a"
    and res: "amf_handle_security_mode_complete cr w gnb i upf a = (out, w', a')"
  shows "world_wf w' \<and> unat (next_id w') = unat (next_id w) \<and> teid_inv a' \<and>
    unat (ta_next a') \<le> unat (ta_next a) + 1 \<and> tunnels_ok w' a'"
proof -
  obtain t b where al: "teid_alloc a = (t, b)" by (cases "teid_alloc a")
  have b: "teid_inv b" "unat (ta_next b) \<le> unat (ta_next a) + 1"
    using teid_ids.alloc_fresh(3) [OF a(1,2)] teid_alloc_next [OF a(2)] al by auto
  let ?w = "\<lambda>f c. set_nas_security5g (security5g_mut w i f) i c"
  let ?t = "\<lparr>tc_ul_teid = t, tc_dl_teid = 0, tc_enb_addr = replicate 4 0\<rparr>"
  have k2: "world_wf (set_tunnel (?w f c) i ?t) \<and> unat (next_id (set_tunnel (?w f c) i ?t)) = unat (next_id w) \<and>
      tunnels_ok (set_tunnel (?w f c) i ?t) b" if "identity w i = Some x" for f c x
    using amf_security_mode_complete_world(2) [OF wf that, of f c ?t]
      tunnels_ok_alloc [OF a(3,1,2) al, of "set_tunnel (?w f c) i ?t" i] wf
    by (simp add: ecs_wf)
  have k1: "world_wf (?w f c) \<and> unat (next_id (?w f c)) = unat (next_id w) \<and> tunnels_ok (?w f c) a"
    if "identity w i = Some x" for f c x
    using amf_security_mode_complete_world(1) [OF wf that, of f c] a(3)
    by (simp add: keeps_tunnels_def tunnels_ok_def)
  show ?thesis
    using res wf a b k1 k2 al unfolding amf_handle_security_mode_complete_def Let_def
    by (auto split: option.splits prod.splits)
qed

section \<open>The invariant of the AMF\<close>

definition amf_inv :: "nat \<Rightarrow> Amf \<Rightarrow> bool" where
  "amf_inv n m \<longleftrightarrow> world_wf (a_world m) \<and> unat (next_id (a_world m)) \<le> n \<and>
     teid_inv (a_teids m) \<and> unat (ta_next (a_teids m)) \<le> 0x20000 + n \<and>
     tunnels_ok (a_world m) (a_teids m)"

definition amf_room :: "nat \<Rightarrow> bool" where
  "amf_room n \<longleftrightarrow> n < 4294967296 - 0x20000 - 1"

lemma amf_inv_start: "amf_inv 0 (Amf_new\<lparr>a_phase_b_upf := upf, a_hss := hss\<rparr>)"
  by (simp add: amf_inv_def Amf_new_def tunnels_ok_def teid_of_def TeidAllocator_new_def teid_inv_def)
     (simp add: World_new_def)

lemma amf_inv_keeps:
  "amf_inv n m \<Longrightarrow> keeps_tunnels (a_world m) w' \<Longrightarrow> amf_inv (Suc n) (m\<lparr>a_world := w'\<rparr>)"
  "amf_inv n m \<Longrightarrow> keeps_tunnels (a_world m) w' \<Longrightarrow> amf_inv n (m\<lparr>a_world := w'\<rparr>)"
  by (simp_all add: amf_inv_def keeps_tunnels_def tunnels_ok_def)

lemma amf_inv_mono: "amf_inv n m \<Longrightarrow> amf_inv (Suc n) m"
  by (simp add: amf_inv_def)

lemma amf_inv_wf: "amf_inv n m \<Longrightarrow> world_wf (a_world m)"
  by (simp add: amf_inv_def)

lemma amf_inv_irrelevant [simp]:
  "amf_inv n (m\<lparr>a_registry := r\<rparr>) = amf_inv n m" "amf_inv n (m\<lparr>a_hss := h\<rparr>) = amf_inv n m"
  by (simp_all add: amf_inv_def)

lemma handle_ics_response_inv: "amf_inv n m \<Longrightarrow> amf_inv (Suc n) (snd (handle_ics_response m r))"
proof -
  assume inv: "amf_inv n m"
  have "keeps_tunnels (a_world m) (tunnel_mut (a_world m) i (\<lambda>t. t\<lparr>tc_dl_teid := d, tc_enb_addr := e\<rparr>))"
    for i d e using amf_inv_wf [OF inv] by (simp add: keeps_tunnels_def ecs_wf teid_of_tunnel_mut)
  then show ?thesis
    using inv by (auto simp: handle_ics_response_def Let_def amf_inv_keeps amf_inv_mono split: list.splits option.splits)
qed

lemma tunnel_teid_of: "world_wf w \<Longrightarrow> map_option tc_ul_teid (tunnel w i) = teid_of w i"
  by (simp add: ecs_abs teid_of_def map_option_bind comp_def)

lemma amf_handle_release_complete_inv:
  assumes inv: "amf_inv n m"
  shows "amf_inv (Suc n) (snd (amf_handle_release_complete m r))"
proof -
  let ?i = "ncrc_amf_ue_ngap_id r" and ?w = "a_world m"
  have wf: "world_wf ?w" using inv by (rule amf_inv_wf)
  note td = teid_of_despawn [OF wf, of ?i] and tun = tunnel_teid_of [OF wf, of ?i]
  show ?thesis
  proof (cases "teid_of ?w ?i")
    case None
    then have "teid_of (despawn ?w ?i) = teid_of ?w" using td by auto
    moreover have "tunnel ?w ?i = None" using tun None by (metis map_option_is_None)
    ultimately show ?thesis
      using inv by (auto simp: amf_handle_release_complete_def Let_def amf_inv_def ecs_wf tunnels_ok_def
          split: option.splits)
  next
    case (Some t)
    have "tunnels_ok (despawn ?w ?i) (teid_release (a_teids m) t)"
      using tunnels_ok_release [OF _ _ Some td] inv by (simp add: amf_inv_def)
    moreover have "teid_inv (teid_release (a_teids m) t)"
      using teid_ids.release_ok inv Some by (auto simp: amf_inv_def tunnels_ok_def)
    moreover obtain tu where "tunnel ?w ?i = Some tu" "tc_ul_teid tu = t" using tun Some by auto
    ultimately show ?thesis
      using inv Some by (auto simp: amf_handle_release_complete_def Let_def amf_inv_def ecs_wf
          split: option.splits)
  qed
qed

lemma amf_dispatch_nas_inv:
  assumes inv: "amf_inv n m" and n: "amf_room n"
  shows "amf_inv (Suc n) (snd (amf_dispatch_nas cr rand m gnb i p))"
proof -
  have wf: "world_wf (a_world m)" using inv by (rule amf_inv_wf)
  have a: "teid_inv (a_teids m)" "teid_room (a_teids m)" "tunnels_ok (a_world m) (a_teids m)"
    using inv n by (auto simp: amf_inv_def teid_room_def amf_room_def)
  have smc: "amf_inv (Suc n) (m\<lparr>a_world := w', a_teids := a'\<rparr>)"
    if "amf_handle_security_mode_complete cr (a_world m) gnb i (a_phase_b_upf m) (a_teids m) = (out, w', a')"
    for out w' a'
    using amf_handle_security_mode_complete_ok [OF wf a that] inv by (simp add: amf_inv_def)
  show ?thesis
    using smc amf_handle_auth_response_keeps [OF wf, of gnb i p]
      handle_identity_response_keeps [OF wf, of cr rand "a_registry m" "a_hss m" gnb i p]
      handle_deregistration_request_keeps [OF wf, of cr gnb i p] inv unfolding amf_dispatch_nas_def
    by (auto simp: handle_registration_complete_def amf_inv_keeps amf_inv_mono
        split: sum.splits Nas5gsPdu.splits prod.splits)
qed

lemma amf_handle_uplink_nas_inv:
  assumes inv: "amf_inv n m" and n: "amf_room n"
  shows "amf_inv (Suc n) (snd (amf_handle_uplink_nas cr rand m gnb i pdu))"
proof -
  obtain plain w where u: "amf_unwrap_uplink cr (a_world m) i pdu = (plain, w)" by fastforce
  then have "keeps_tunnels (a_world m) w"
    using amf_unwrap_uplink_keeps [OF amf_inv_wf [OF inv], of cr i pdu] by simp
  then have "amf_inv n (m\<lparr>a_world := w\<rparr>)" by (rule amf_inv_keeps(2) [OF inv])
  with n show ?thesis
    by (auto simp: amf_handle_uplink_nas_def u Let_def amf_dispatch_nas_inv amf_inv_mono split: option.splits)
qed

lemma process_ngap_inv:
  assumes inv: "amf_inv n m" and n: "amf_room n"
  shows "\<exists>out m'. process_ngap cr rand m msg = Some (out, m') \<and> amf_inv (Suc n) m'"
proof (cases msg)
  case (NInitialUeMessage u)
  have "unat (next_id (a_world m)) + 1 < 4294967296" using inv n by (simp add: amf_inv_def amf_room_def)
  from start_registration_keeps [OF amf_inv_wf [OF inv] this]
  obtain out w' where
    "start_registration (a_world m) (nium_ran_ue_ngap_id u) (nium_nas_pdu u) (nium_tai u) = Some (out, w')"
    "world_wf w'" "unat (next_id w') \<le> unat (next_id (a_world m)) + 1" "teid_of w' = teid_of (a_world m)"
    by metis
  with NInitialUeMessage inv show ?thesis
    by (simp add: process_ngap_def amf_inv_def tunnels_ok_def)
next
  case (NUplinkNasTransport u)
  then show ?thesis
    using amf_handle_uplink_nas_inv [OF inv n, of cr rand "nunt_ran_ue_ngap_id u" "nunt_amf_ue_ngap_id u" "nunt_nas_pdu u"]
    by (cases "amf_handle_uplink_nas cr rand m (nunt_ran_ue_ngap_id u) (nunt_amf_ue_ngap_id u) (nunt_nas_pdu u)")
       (simp add: process_ngap_def)
next
  case (NInitialContextSetupResponse r)
  then show ?thesis
    using handle_ics_response_inv [OF inv, of r] by (cases "handle_ics_response m r") (simp add: process_ngap_def)
next
  case (NUeContextReleaseComplete r)
  then show ?thesis
    using amf_handle_release_complete_inv [OF inv, of r]
    by (cases "amf_handle_release_complete m r") (simp add: process_ngap_def)
qed (use amf_inv_mono [OF inv] in \<open>simp_all add: process_ngap_def\<close>)

section \<open>Sequences of messages\<close>

fun amf_run :: "crypto \<Rightarrow> Amf \<Rightarrow> (bytes \<times> NgapMessage) list \<Rightarrow> (amf_output list \<times> Amf) option" where
  "amf_run cr m [] = Some ([], m)"
| "amf_run cr m ((rand, msg) # inputs) =
     Option.bind (process_ngap cr rand m msg) (\<lambda>(out, m).
       Option.bind (amf_run cr m inputs) (\<lambda>(outs, m). Some (out # outs, m)))"

lemma amf_run_inv:
  "amf_inv n m \<Longrightarrow> n + length inputs < 4294967296 - 0x20000 \<Longrightarrow>
   \<exists>outs m'. amf_run cr m inputs = Some (outs, m') \<and> amf_inv (n + length inputs) m'"
proof (induction inputs arbitrary: n m)
  case Nil
  then show ?case by simp
next
  case (Cons x inputs)
  obtain rand msg where x: "x = (rand, msg)" by (cases x)
  obtain out m1 where s: "process_ngap cr rand m msg = Some (out, m1)" "amf_inv (Suc n) m1"
    using process_ngap_inv [OF Cons.prems(1)] Cons.prems(2) by (fastforce simp: amf_room_def)
  obtain outs m' where r: "amf_run cr m1 inputs = Some (outs, m')" "amf_inv (Suc n + length inputs) m'"
    using Cons.IH [OF s(2)] Cons.prems(2) by auto
  with s(1) x show ?case by simp
qed

lemma amf_inv_teids:
  assumes "amf_inv n m"
  shows "teid_of (a_world m) i = Some t \<Longrightarrow> t \<notin> set (ta_free (a_teids m))"
    "teid_of (a_world m) i = Some t \<Longrightarrow> teid_of (a_world m) j = Some t \<Longrightarrow> i = j"
    "distinct (ta_free (a_teids m))"
  using assms by (auto simp: amf_inv_def tunnels_ok_def teid_used_def teid_inv_def)

end
