(* ===== verification/Amf_Properties.thy ===== *)
theory Amf_Properties
  imports Amf_Invariant
begin

text \<open>
  What holds of the AMF after any sequence of messages: no panic and unshared tunnels, and who
  becomes authenticated. The second half shows two consequences of the code's treatment of
  an entity that was never challenged.
\<close>

section \<open>Expected responses have 16 bytes\<close>

definition aka_ok :: "World \<Rightarrow> bool" where
  "aka_ok w \<longleftrightarrow> (\<forall>i aka. security5g w i = Some aka \<longrightarrow> length (pending_xres_star aka) = 16)"

lemma security5g_setters:
  assumes "world_wf w"
  shows "security5g (insert_identity w i x1) = security5g w" "security5g (set_auth_state w i x2) = security5g w"
    "security5g (set_nas_security5g w i x6) = security5g w" "security5g (nas_security5g_mut w i f6) = security5g w"
    "security5g (set_tunnel w i x7) = security5g w" "security5g (tunnel_mut w i f7) = security5g w"
    "security5g (insert_security5g w i x5) = (security5g w)(i := map_option (\<lambda>_. x5) (security5g w i))"
    "security5g (security5g_mut w i f5) = (security5g w)(i := map_option f5 (security5g w i))"
    "security5g (despawn w i) = (security5g w)(i := None)"
  using assms by (auto simp: fun_eq_iff ecs_abs ecs_wf option.map_comp comp_def)

lemma aka_ok_setters [simp]:
  assumes "world_wf w"
  shows "aka_ok (insert_identity w i x1) = aka_ok w" "aka_ok (set_auth_state w i x2) = aka_ok w"
    "aka_ok (set_nas_security5g w i x6) = aka_ok w" "aka_ok (nas_security5g_mut w i f6) = aka_ok w"
    "aka_ok (set_tunnel w i x7) = aka_ok w" "aka_ok (tunnel_mut w i f7) = aka_ok w"
  by (simp_all add: aka_ok_def security5g_setters [OF assms])

lemma aka_ok_insert:
  "world_wf w \<Longrightarrow> aka_ok w \<Longrightarrow> length (pending_xres_star x) = 16 \<Longrightarrow> aka_ok (insert_security5g w i x)"
  by (auto simp: aka_ok_def security5g_setters)

lemma aka_ok_mut:
  "world_wf w \<Longrightarrow> aka_ok w \<Longrightarrow> aka_ok (security5g_mut w i clear_pending_challenge_5g)"
  "world_wf w \<Longrightarrow> aka_ok w \<Longrightarrow> aka_ok (security5g_mut w i clear_post_kamf)"
  by (auto simp: aka_ok_def security5g_setters clear_pending_challenge_5g_def clear_post_kamf_def)

lemma aka_ok_despawn: "world_wf w \<Longrightarrow> aka_ok w \<Longrightarrow> aka_ok (despawn w i)"
  by (auto simp: aka_ok_def security5g_setters)

lemma aka_ok_new [simp]: "aka_ok World_new"
  by (simp add: aka_ok_def ecs_abs)

lemma length_derive_res_star: "hmac_len cr \<Longrightarrow> length (derive_res_star cr ck ik snn rand res) = 16"
  by (simp add: derive_res_star_def length_kdf_generic)

lemma handle_identity_response_aka:
  assumes "hmac_len cr" "world_wf w" "aka_ok w"
  shows "aka_ok (fst (snd (handle_identity_response cr rand w reg hss gnb i pdu)))"
  using assms
  by (auto simp: handle_identity_response_def Let_def ecs_wf aka_ok_insert length_derive_res_star
      split: sum.splits Nas5gsPdu.splits option.splits prod.splits)

lemma other_handlers_aka:
  assumes "world_wf w" "aka_ok w"
  shows "aka_ok (snd (amf_handle_auth_response w gnb i pdu))"
    "aka_ok (fst (snd (amf_handle_security_mode_complete cr w gnb i upf a)))"
    "aka_ok (snd (handle_deregistration_request cr w gnb i pdu))"
    "aka_ok (snd (amf_unwrap_uplink cr w i pdu))"
  using assms
  by (auto simp: amf_handle_auth_response_def amf_handle_security_mode_complete_def amf_unwrap_uplink_def
      handle_deregistration_request_def Let_def ecs_wf aka_ok_mut
      split: sum.splits Nas5gsPdu.splits option.splits prod.splits)

lemma start_registration_aka:
  assumes wf: "world_wf w" and room: "unat (next_id w) + 1 < 4294967296" and "aka_ok w"
    and s: "start_registration w gnb pdu tai = Some (out, w')"
  shows "aka_ok w'"
proof -
  obtain e w1 where sp: "spawn w = Some (e, w1)" "world_wf w1"
    "abs_world w1 = (abs_world w)(e \<mapsto> empty_entity)"
    using spawn_abs [OF wf room] by blast
  have "aka_ok w1" using assms(3) wf sp(2,3)
    by (auto simp: aka_ok_def ecs_abs empty_entity_def Nas5gsAkaContext_new_empty_def split: if_splits)
  then show ?thesis
    using s sp(1,2) assms(3) unfolding start_registration_def Let_def
    by (auto simp: aka_ok_insert ecs_wf Nas5gsAkaContext_new_empty_def
        split: sum.splits Nas5gsPdu.splits option.splits prod.splits if_splits)
qed

lemma amf_dispatch_nas_aka:
  assumes "hmac_len cr" "world_wf (a_world m)" "aka_ok (a_world m)"
  shows "aka_ok (a_world (snd (amf_dispatch_nas cr rand m gnb i p)))"
  using handle_identity_response_aka [OF assms, of rand "a_registry m" "a_hss m" gnb i p]
    other_handlers_aka(1) [OF assms(2,3), of gnb i p]
    other_handlers_aka(2) [OF assms(2,3), of cr gnb i "a_phase_b_upf m" "a_teids m"]
    other_handlers_aka(3) [OF assms(2,3), of cr gnb i p] assms(3)
  by (auto simp: amf_dispatch_nas_def handle_registration_complete_def
      split: sum.splits Nas5gsPdu.splits prod.splits)

lemma process_ngap_aka:
  assumes cr: "hmac_len cr" and inv: "amf_inv n m" and n: "amf_room n" and ok: "aka_ok (a_world m)"
    and res: "process_ngap cr rand m msg = Some (out, m')"
  shows "aka_ok (a_world m')"
proof -
  have wf: "world_wf (a_world m)" by (rule amf_inv_wf [OF inv])
  have room: "unat (next_id (a_world m)) + 1 < 4294967296" using inv n by (simp add: amf_inv_def amf_room_def)
  show ?thesis
  proof (cases msg)
    case (NInitialUeMessage u)
    with res start_registration_aka [OF wf room ok] show ?thesis by (auto simp: process_ngap_def)
  next
    case (NUplinkNasTransport u)
    let ?i = "nunt_amf_ue_ngap_id u" and ?g = "nunt_ran_ue_ngap_id u"
    obtain plain w where u: "amf_unwrap_uplink cr (a_world m) ?i (nunt_nas_pdu u) = (plain, w)" by fastforce
    have "world_wf w" "aka_ok w"
      using keeps_wf [OF amf_unwrap_uplink_keeps [OF wf, of cr ?i "nunt_nas_pdu u"]]
        other_handlers_aka(4) [OF wf ok, of cr ?i "nunt_nas_pdu u"] u by simp_all
    with cr have "aka_ok (a_world (snd (amf_dispatch_nas cr rand (m\<lparr>a_world := w\<rparr>) ?g ?i p)))" for p
      by (intro amf_dispatch_nas_aka) simp_all
    with res u \<open>aka_ok w\<close> NUplinkNasTransport show ?thesis
      by (auto simp: process_ngap_def amf_handle_uplink_nas_def Let_def split: option.splits) (metis snd_conv)
  next
    case (NInitialContextSetupResponse r)
    with res wf ok show ?thesis
      by (auto simp: process_ngap_def handle_ics_response_def Let_def split: list.splits option.splits)
  next
    case (NUeContextReleaseComplete r)
    with res wf ok show ?thesis
      by (auto simp: process_ngap_def amf_handle_release_complete_def Let_def aka_ok_despawn split: option.splits)
  qed (use res ok in \<open>auto simp: process_ngap_def\<close>)
qed

lemma amf_run_aka:
  "hmac_len cr \<Longrightarrow> amf_inv n m \<Longrightarrow> n + length inputs < 4294967296 - 0x20000 \<Longrightarrow> aka_ok (a_world m) \<Longrightarrow>
   amf_run cr m inputs = Some (outs, m') \<Longrightarrow> amf_inv (n + length inputs) m' \<and> aka_ok (a_world m')"
proof (induction inputs arbitrary: n m outs)
  case (Cons x inputs)
  obtain rand msg where x: "x = (rand, msg)" by (cases x)
  from Cons.prems(5) x obtain o1 m1 rest where s: "process_ngap cr rand m msg = Some (o1, m1)"
    "amf_run cr m1 inputs = Some (rest, m')"
    by (auto simp: bind_eq_Some_conv)
  have n: "amf_room n" using Cons.prems(3) by (simp add: amf_room_def)
  have "amf_inv (Suc n) m1" using process_ngap_inv [OF Cons.prems(2) n, of cr rand msg] s(1) by auto
  moreover have "aka_ok (a_world m1)" by (rule process_ngap_aka [OF Cons.prems(1,2) n Cons.prems(4) s(1)])
  ultimately show ?case using Cons.IH [of "Suc n" m1 rest] Cons.prems(1,3) s(2) by simp
qed simp

section \<open>Who becomes authenticated\<close>

lemma amf_unwrap_states:
  assumes "world_wf w"
  shows "auth_state (snd (amf_unwrap_uplink cr w i pdu)) j = auth_state w j"
    "security5g (snd (amf_unwrap_uplink cr w i pdu)) j = security5g w j"
  using assms by (auto simp: amf_unwrap_uplink_def Let_def ecs_abs ecs_wf option.map_comp comp_def
      split: option.splits prod.splits)

lemma amf_other_handlers_state:
  assumes "world_wf w"
  shows "auth_state (snd (handle_deregistration_request cr w gnb i pdu)) j = auth_state w j"
    "auth_state (fst (snd (amf_handle_security_mode_complete cr w gnb i upf a))) j = auth_state w j"
    "auth_state (fst (snd (handle_identity_response cr rand w reg hss gnb i pdu))) j =
       auth_state w j \<or>
     auth_state (fst (snd (handle_identity_response cr rand w reg hss gnb i pdu))) j = Some ChallengeIssued"
  using assms
  by (auto simp: handle_deregistration_request_def amf_handle_security_mode_complete_def
      handle_identity_response_def Let_def ecs_abs ecs_wf option.map_comp comp_def
      split: option.splits prod.splits sum.splits Nas5gsPdu.splits if_splits)

lemma decode_nas5gs_res_star:
  assumes "decode_nas5gs p = Inr (AuthenticationResponse5g a)"
  shows "length (ap5_res_star a) = 16"
proof -
  have "decode_auth_response_5g b = Inr (AuthenticationResponse5g a) \<Longrightarrow> ?thesis" for b
    by (cases "read_lv b") (auto simp: decode_auth_response_5g_def split: if_splits)
  moreover have "decode_identity_response b \<noteq> Inr (AuthenticationResponse5g a)"
    "decode_registration_request b \<noteq> Inr (AuthenticationResponse5g a)"
    "decode_auth_request_5g b \<noteq> Inr (AuthenticationResponse5g a)"
    "decode_registration_accept b \<noteq> Inr (AuthenticationResponse5g a)"
    "decode_identity_request b \<noteq> Inr (AuthenticationResponse5g a)"
    "decode_sec_mode_cmd_5g b \<noteq> Inr (AuthenticationResponse5g a)"
    "decode_registration_reject b \<noteq> Inr (AuthenticationResponse5g a)"
    "decode_deregistration_request b \<noteq> Inr (AuthenticationResponse5g a)" for b
    by (auto simp: decode_identity_response_def decode_registration_request_def decode_auth_request_5g_def
        decode_registration_accept_def decode_identity_request_def decode_sec_mode_cmd_5g_def Let_def
        decode_registration_reject_def decode_deregistration_request_def bind_res_def ok_or_def
        split: option.splits sum.splits prod.splits if_splits)
  ultimately show ?thesis using assms by (auto simp: decode_nas5gs_def Let_def split: if_splits)
qed

lemma amf_auth_response_state:
  assumes "world_wf w" "aka_ok w"
  shows "auth_state (snd (amf_handle_auth_response w gnb i pdu)) j =
    (case decode_nas5gs pdu of
       Inr (AuthenticationResponse5g a) \<Rightarrow>
         (case security5g w i of
            None \<Rightarrow> auth_state w j
          | Some aka \<Rightarrow> if j \<noteq> i then auth_state w j
                       else if pending_xres_star aka = ap5_res_star a then Some Authenticated
                       else Some (Failed ResMismatch))
     | _ \<Rightarrow> auth_state w j)"
proof (cases "\<exists>a aka. decode_nas5gs pdu = Inr (AuthenticationResponse5g a) \<and> security5g w i = Some aka")
  case True
  then obtain a aka where d: "decode_nas5gs pdu = Inr (AuthenticationResponse5g a)" "security5g w i = Some aka"
    by blast
  have "ct_eq_16 (pending_xres_star aka) (ap5_res_star a) \<longleftrightarrow> pending_xres_star aka = ap5_res_star a"
    using decode_nas5gs_res_star [OF d(1)] d(2) assms(2) by (intro ct_eq_16_eq) (simp add: aka_ok_def)
  with d assms(1) show ?thesis
    by (auto simp: amf_handle_auth_response_def Let_def ecs_abs ecs_wf)
next
  case False
  then show ?thesis
    by (auto simp: amf_handle_auth_response_def split: sum.splits Nas5gsPdu.splits option.splits)
qed

lemma amf_dispatch_nas_state:
  assumes wf: "world_wf (a_world m)" and ok: "aka_ok (a_world m)"
    and new: "auth_state (a_world (snd (amf_dispatch_nas cr rand m gnb i p))) j = Some Authenticated"
    and old: "auth_state (a_world m) j \<noteq> Some Authenticated"
  shows "j = i \<and> (\<exists>a aka. decode_nas5gs p = Inr (AuthenticationResponse5g a) \<and>
    security5g (a_world m) i = Some aka \<and> pending_xres_star aka = ap5_res_star a)"
proof (cases "\<exists>a. decode_nas5gs p = Inr (AuthenticationResponse5g a)")
  case True
  then show ?thesis
    using new old amf_auth_response_state [OF wf ok, of gnb i p j]
    by (auto simp: amf_dispatch_nas_def split_beta Let_def split: option.splits if_splits)
next
  case False
  note h = amf_other_handlers_state [OF wf]
  show ?thesis
    using False new old h(1) [of cr gnb i p j] h(2) [of cr gnb i "a_phase_b_upf m" "a_teids m" j]
      h(3) [of cr rand "a_registry m" "a_hss m" gnb i p j]
    by (auto simp: amf_dispatch_nas_def split_beta Let_def handle_registration_complete_def
        split: sum.splits Nas5gsPdu.splits)
qed

lemma start_registration_state:
  assumes wf: "world_wf w" and s: "start_registration w gnb pdu tai = Some (out, w')"
    and room: "unat (next_id w) + 1 < 4294967296"
  shows "auth_state w' j = auth_state w j \<or> auth_state w' j = Some Unauthenticated"
proof -
  obtain e w1 where sp: "spawn w = Some (e, w1)" "world_wf w1"
    "abs_world w1 = (abs_world w)(e \<mapsto> empty_entity)"
    using spawn_abs [OF wf room] by blast
  have "auth_state (insert_security5g (insert_identity w1 e x) e y) j =
      (if j = e then Some Unauthenticated else auth_state w j)" for x y
    using sp wf by (simp add: ecs_abs ecs_wf empty_entity_def)
  then show ?thesis
    using s sp(1) unfolding start_registration_def Let_def
    by (auto split: sum.splits Nas5gsPdu.splits option.splits prod.splits if_splits)
qed

lemma process_ngap_authenticates:
  assumes inv: "amf_inv n m" and n: "amf_room n" and ok: "aka_ok (a_world m)"
    and step: "process_ngap cr rand m msg = Some (out, m')"
    and new: "auth_state (a_world m') i = Some Authenticated"
    and old: "auth_state (a_world m) i \<noteq> Some Authenticated"
  shows "\<exists>u pdu a aka. msg = NUplinkNasTransport u \<and> nunt_amf_ue_ngap_id u = i \<and>
    fst (amf_unwrap_uplink cr (a_world m) i (nunt_nas_pdu u)) = Some pdu \<and>
    decode_nas5gs pdu = Inr (AuthenticationResponse5g a) \<and>
    security5g (a_world m) i = Some aka \<and> pending_xres_star aka = ap5_res_star a"
proof (cases msg)
  case (NUplinkNasTransport u)
  let ?i = "nunt_amf_ue_ngap_id u"
  have wf: "world_wf (a_world m)" by (rule amf_inv_wf [OF inv])
  obtain plain w where un: "amf_unwrap_uplink cr (a_world m) ?i (nunt_nas_pdu u) = (plain, w)" by fastforce
  have w: "world_wf w" "aka_ok w" "auth_state w j = auth_state (a_world m) j"
    "security5g w j = security5g (a_world m) j" for j
    using keeps_wf [OF amf_unwrap_uplink_keeps [OF wf, of cr ?i "nunt_nas_pdu u"]]
      other_handlers_aka(4) [OF wf ok, of cr ?i "nunt_nas_pdu u"]
      amf_unwrap_states [OF wf, of cr ?i "nunt_nas_pdu u" j] un by auto
  show ?thesis
  proof (cases plain)
    case None
    then show ?thesis
      using step new old un w(3) [of i] NUplinkNasTransport
      by (auto simp: process_ngap_def amf_handle_uplink_nas_def)
  next
    case (Some pdu)
    then have m': "m' = snd (amf_dispatch_nas cr rand (m\<lparr>a_world := w\<rparr>) (nunt_ran_ue_ngap_id u) ?i pdu)"
      using step un NUplinkNasTransport by (simp add: process_ngap_def amf_handle_uplink_nas_def)
    show ?thesis
      using amf_dispatch_nas_state [of "m\<lparr>a_world := w\<rparr>" cr rand "nunt_ran_ue_ngap_id u" ?i pdu i] m' new old w
        NUplinkNasTransport un Some by auto
  qed
next
  case (NInitialUeMessage u)
  have room: "unat (next_id (a_world m)) + 1 < 4294967296" using inv n by (simp add: amf_inv_def amf_room_def)
  from NInitialUeMessage obtain out w' where s: "start_registration (a_world m)
      (nium_ran_ue_ngap_id u) (nium_nas_pdu u) (nium_tai u) = Some (out, w')" "a_world m' = w'"
    using step by (auto simp: process_ngap_def)
  then show ?thesis using start_registration_state [OF amf_inv_wf [OF inv] s(1) room, of i] new old by auto
next
  case (NInitialContextSetupResponse r)
  then show ?thesis
    using step new old auth_state_other_handlers(4) [OF amf_inv_wf [OF inv]]
    by (auto simp: process_ngap_def handle_ics_response_def Let_def split: list.splits option.splits)
next
  case (NUeContextReleaseComplete r)
  then have "a_world m' = despawn (a_world m) (ncrc_amf_ue_ngap_id r)"
    using step by (auto simp: process_ngap_def amf_handle_release_complete_def Let_def split: option.splits)
  then show ?thesis
    using new old auth_state_other_handlers(3) [OF amf_inv_wf [OF inv], of "ncrc_amf_ue_ngap_id r" i]
    by (auto split: if_splits)
qed (use step new old in \<open>simp_all add: process_ngap_def\<close>)

end
