(* ===== verification/Amf_Steps.thy ===== *)
theory Amf_Steps
  imports Amf_Properties
begin

text \<open>
  The steps of the registration and deregistration procedures, one lemma per message: what the
  AMF answers, which events it announces, and what becomes of the entity. The storage is seen
  as the map \<open>abs_world\<close>, so every lemma also says that no other entity changes.
\<close>

lemma amf_unwrap_plain [simp]:
  "amf_unwrap_uplink cr w i (header_5g mt @ body) = (Some (header_5g mt @ body), w)"
  by (simp add: amf_unwrap_uplink_def header_5g_def NAS5GS_SHT_PLAIN_def)

lemmas plain_pdus = encode_registration_request_def encode_identity_response_suci_def
  encode_auth_response_5g_def encode_sec_mode_complete_5g_def encode_registration_complete_def
  encode_deregistration_request_def

lemma unwrap_plain_pdus [simp]:
  "amf_unwrap_uplink cr w i (encode_identity_response_suci s) = (Some (encode_identity_response_suci s), w)"
  "amf_unwrap_uplink cr w i (encode_auth_response_5g r) = (Some (encode_auth_response_5g r), w)"
  "amf_unwrap_uplink cr w i encode_sec_mode_complete_5g = (Some encode_sec_mode_complete_5g, w)"
  "amf_unwrap_uplink cr w i encode_registration_complete = (Some encode_registration_complete, w)"
  "amf_unwrap_uplink cr w i (encode_deregistration_request so) = (Some (encode_deregistration_request so), w)"
  using amf_unwrap_plain [of cr w i MT_SECURITY_MODE_COMPLETE_5G "[]"]
    amf_unwrap_plain [of cr w i MT_REGISTRATION_COMPLETE "[]"]
  by (simp_all add: plain_pdus write_lv_def)

section \<open>Registration\<close>

definition fresh_5g_entity :: "u32 \<Rightarrow> bytes \<Rightarrow> entity" where
  "fresh_5g_entity gnb plmn =
     empty_entity\<lparr>e_identity := \<lparr>id_imsi = 0, id_enb_ue_s1ap_id = gnb, id_ue_ip = replicate 4 0\<rparr>,
       e_security5g := Nas5gsAkaContext_new_empty\<lparr>sc5_plmn := plmn\<rparr>\<rparr>"

lemma reg_step1:
  assumes wf: "world_wf (a_world m)" and room: "unat (next_id (a_world m)) + 1 < 4294967296"
    and u: "decode_nas5gs (nium_nas_pdu u) = Inr (RegistrationRequest q)" "rr_guti q = None"
  obtains ent w' where "process_ngap cr rand m (NInitialUeMessage u) =
      Some (([NDownlinkNasTransport \<lparr>ndnt_amf_ue_ngap_id = ent,
        ndnt_ran_ue_ngap_id = nium_ran_ue_ngap_id u,
        ndnt_nas_pdu = encode_identity_request IDTYPE_SUCI\<rparr>], []), m\<lparr>a_world := w'\<rparr>)"
    "world_wf w'" "abs_world (a_world m) ent = None"
    "abs_world w' = (abs_world (a_world m))
       (ent \<mapsto> fresh_5g_entity (nium_ran_ue_ngap_id u) (take 3 (nium_tai u)))"
    "unat (next_id w') \<le> unat (next_id (a_world m)) + 1"
    "fst (the (spawn (a_world m))) = ent"
proof -
  obtain ent w1 where sp: "spawn (a_world m) = Some (ent, w1)" "world_wf w1" "abs_world (a_world m) ent = None"
    "abs_world w1 = (abs_world (a_world m))(ent \<mapsto> empty_entity)"
    "unat (next_id w1) \<le> unat (next_id (a_world m)) + 1"
    using spawn_abs [OF wf room] by blast
  let ?w = "insert_security5g (insert_identity w1 ent \<lparr>id_imsi = 0,
      id_enb_ue_s1ap_id = nium_ran_ue_ngap_id u, id_ue_ip = replicate 4 0\<rparr>) ent
      (Nas5gsAkaContext_new_empty\<lparr>sc5_plmn := take 3 (nium_tai u)\<rparr>)"
  show ?thesis
  proof (rule that [of ent ?w])
    show "process_ngap cr rand m (NInitialUeMessage u) =
      Some (([NDownlinkNasTransport \<lparr>ndnt_amf_ue_ngap_id = ent,
        ndnt_ran_ue_ngap_id = nium_ran_ue_ngap_id u,
        ndnt_nas_pdu = encode_identity_request IDTYPE_SUCI\<rparr>], []), m\<lparr>a_world := ?w\<rparr>)"
      using sp(1) u by (simp add: process_ngap_def start_registration_def Let_def)
    show "abs_world ?w = (abs_world (a_world m))
       (ent \<mapsto> fresh_5g_entity (nium_ran_ue_ngap_id u) (take 3 (nium_tai u)))"
      using sp(2,4) by (simp add: ecs_abs ecs_wf fresh_5g_entity_def)
  qed (use sp in \<open>simp_all add: ecs_wf\<close>)
qed

text \<open>The entity once it has been challenged for a subscriber.\<close>

definition challenged_5g ::
    "crypto \<Rightarrow> entity \<Rightarrow> u64 \<Rightarrow> u32 \<Rightarrow> bytes \<Rightarrow> AuthVector \<Rightarrow> bytes \<Rightarrow> entity" where
  "challenged_5g cr e imsi gnb rand av sqn =
     (let plmn = sc5_plmn (e_security5g e) in
      e\<lparr>e_identity := \<lparr>id_imsi = imsi, id_enb_ue_s1ap_id = gnb, id_ue_ip = replicate 4 0\<rparr>,
        e_security5g := \<lparr>pending_rand5 = rand,
          pending_xres_star = derive_res_star cr (av_ck av) (av_ik av) (serving_network_name plmn) rand (av_res av),
          sc5_ck = av_ck av, sc5_ik = av_ik av, sc5_ak = av_ak av, sc5_plmn = plmn, sc5_sqn_used = sqn\<rparr>,
        e_auth := ChallengeIssued\<rparr>)"

lemma reg_step2:
  fixes m :: Amf and cr :: crypto and rand :: bytes
  assumes wf: "world_wf (a_world m)" and e: "abs_world (a_world m) i = Some e"
    and sub: "a_hss m imsi = Some sub" and s: "suci_wf s" "resolve_suci_to_imsi s = Some imsi"
    and u: "nunt_amf_ue_ngap_id u = i" "nunt_nas_pdu u = encode_identity_response_suci s"
  defines "sqn \<equiv> Sqn_to_bytes (sr_sqn sub)"
  defines "av \<equiv> milenage_compute cr (sr_ctx sub) rand sqn MILENAGE_AMF_FIELD"
  obtains w' where "process_ngap cr rand m (NUplinkNasTransport u) =
      Some (([NDownlinkNasTransport \<lparr>ndnt_amf_ue_ngap_id = i,
        ndnt_ran_ue_ngap_id = nunt_ran_ue_ngap_id u,
        ndnt_nas_pdu = encode_auth_request_5g 0 rand (autn av sqn MILENAGE_AMF_FIELD)\<rparr>], []),
        m\<lparr>a_world := w', a_registry := (a_registry m)(imsi \<mapsto> i),
          a_hss := (a_hss m)(imsi \<mapsto> sub\<lparr>sr_sqn := take_bit 48 (sr_sqn sub + 1)\<rparr>)\<rparr>)"
    "world_wf w'" "next_id w' = next_id (a_world m)"
    "abs_world w' = (abs_world (a_world m))(i \<mapsto> challenged_5g cr e imsi (nunt_ran_ue_ngap_id u) rand av sqn)"
proof -
  let ?plmn = "sc5_plmn (e_security5g e)"
  let ?w = "set_auth_state (insert_security5g (insert_identity (a_world m) i
      \<lparr>id_imsi = imsi, id_enb_ue_s1ap_id = nunt_ran_ue_ngap_id u, id_ue_ip = replicate 4 0\<rparr>) i
      \<lparr>pending_rand5 = rand,
       pending_xres_star = derive_res_star cr (av_ck av) (av_ik av) (serving_network_name ?plmn) rand (av_res av),
       sc5_ck = av_ck av, sc5_ik = av_ik av, sc5_ak = av_ak av, sc5_plmn = ?plmn, sc5_sqn_used = sqn\<rparr>) i ChallengeIssued"
  have gen: "generate_auth_vector cr rand (a_hss m) imsi =
      (Some \<lparr>hi_rand = rand, hi_vector = av, hi_sqn_used = sqn\<rparr>,
       (a_hss m)(imsi \<mapsto> sub\<lparr>sr_sqn := take_bit 48 (sr_sqn sub + 1)\<rparr>))"
    using generate_auth_vector_Some [of "a_hss m" imsi sub cr rand] sub
    by (simp add: av_def sqn_def MILENAGE_AMF_FIELD_def)
  have sec: "security5g (a_world m) i = Some (e_security5g e)" using wf e by (simp add: ecs_abs)
  show ?thesis
  proof (rule that [of ?w])
    show "process_ngap cr rand m (NUplinkNasTransport u) =
      Some (([NDownlinkNasTransport \<lparr>ndnt_amf_ue_ngap_id = i,
        ndnt_ran_ue_ngap_id = nunt_ran_ue_ngap_id u,
        ndnt_nas_pdu = encode_auth_request_5g 0 rand (autn av sqn MILENAGE_AMF_FIELD)\<rparr>], []),
        m\<lparr>a_world := ?w, a_registry := (a_registry m)(imsi \<mapsto> i),
          a_hss := (a_hss m)(imsi \<mapsto> sub\<lparr>sr_sqn := take_bit 48 (sr_sqn sub + 1)\<rparr>)\<rparr>)"
      using identity_response_suci_roundtrip [OF s(1)] s(2) gen sec u
      by (simp add: process_ngap_def amf_handle_uplink_nas_def amf_dispatch_nas_def
          handle_identity_response_def Let_def register_def)
    show "abs_world ?w = (abs_world (a_world m))(i \<mapsto> challenged_5g cr e imsi (nunt_ran_ue_ngap_id u) rand av sqn)"
      using wf e by (simp add: ecs_abs ecs_wf challenged_5g_def Let_def)
  qed (use wf in \<open>simp_all add: ecs_wf\<close>)
qed

lemma reg_step3:
  assumes wf: "world_wf (a_world m)" and e: "abs_world (a_world m) i = Some e"
    and res: "pending_xres_star (e_security5g e) = res" "length res = 16"
    and u: "nunt_amf_ue_ngap_id u = i" "nunt_nas_pdu u = encode_auth_response_5g res"
  obtains w' where "process_ngap cr rand m (NUplinkNasTransport u) =
      Some (([NDownlinkNasTransport \<lparr>ndnt_amf_ue_ngap_id = i,
        ndnt_ran_ue_ngap_id = nunt_ran_ue_ngap_id u,
        ndnt_nas_pdu = encode_sec_mode_cmd_5g SELECTED_NAS_CIPHER_ALG SELECTED_NAS_INTEGRITY_ALG 0x2040\<rparr>], []),
        m\<lparr>a_world := w'\<rparr>)"
    "world_wf w'" "next_id w' = next_id (a_world m)"
    "abs_world w' = (abs_world (a_world m))
      (i \<mapsto> e\<lparr>e_security5g := clear_pending_challenge_5g (e_security5g e), e_auth := Authenticated\<rparr>)"
proof -
  let ?w = "set_auth_state (security5g_mut (a_world m) i clear_pending_challenge_5g) i Authenticated"
  have sec: "security5g (a_world m) i = Some (e_security5g e)" using wf e by (simp add: ecs_abs)
  show ?thesis
  proof (rule that [of ?w])
    show "process_ngap cr rand m (NUplinkNasTransport u) =
      Some (([NDownlinkNasTransport \<lparr>ndnt_amf_ue_ngap_id = i,
        ndnt_ran_ue_ngap_id = nunt_ran_ue_ngap_id u,
        ndnt_nas_pdu = encode_sec_mode_cmd_5g SELECTED_NAS_CIPHER_ALG SELECTED_NAS_INTEGRITY_ALG 0x2040\<rparr>], []),
        m\<lparr>a_world := ?w\<rparr>)"
      using auth_response_5g_roundtrip [OF res(2)] res sec u
      by (simp add: process_ngap_def amf_handle_uplink_nas_def amf_dispatch_nas_def
          amf_handle_auth_response_def ct_eq_16_eq Let_def)
    show "abs_world ?w = (abs_world (a_world m))
      (i \<mapsto> e\<lparr>e_security5g := clear_pending_challenge_5g (e_security5g e), e_auth := Authenticated\<rparr>)"
      using wf e by (cases e) (simp add: ecs_abs ecs_wf)
  qed (use wf in \<open>simp_all add: ecs_wf\<close>)
qed

text \<open>The key and the protected accept message of step 4.\<close>

definition kamf_of :: "crypto \<Rightarrow> entity \<Rightarrow> bytes" where
  "kamf_of cr e =
     (let s = e_security5g e; snn = serving_network_name (sc5_plmn s);
          kausf = derive_kausf cr (sc5_ck s) (sc5_ik s) snn (xor_bytes (sc5_sqn_used s) (sc5_ak s))
      in derive_kamf cr (derive_kseaf cr kausf snn) (supi_of (id_imsi (e_identity e))) DEFAULT_ABBA)"

definition accept_5g :: "crypto \<Rightarrow> u32 \<Rightarrow> entity \<Rightarrow> bytes \<times> Nas5gsSecurityContext" where
  "accept_5g cr i e =
     encode_protected_5g cr NAS5GS_SHT_INTEGRITY_CIPHERED
       (Nas5gsSecurityContext_new cr (kamf_of cr e) SELECTED_NAS_CIPHER_ALG SELECTED_NAS_INTEGRITY_ALG)
       (encode_registration_accept 1 (placeholder_guti i) [])"

definition accept_request :: "crypto \<Rightarrow> u32 \<Rightarrow> u32 \<Rightarrow> entity \<Rightarrow> u32 \<Rightarrow> bytes \<Rightarrow> NgapInitialContextSetupRequest" where
  "accept_request cr i gnb e t upf =
     \<lparr>nicq_amf_ue_ngap_id = i, nicq_ran_ue_ngap_id = gnb,
      nicq_pdu_sessions = [\<lparr>pts_pdu_session_id = DEFAULT_PDU_SESSION_ID, pts_qfi = DEFAULT_QFI,
        pts_gtp_teid = to_be32 t, pts_transport_layer_addr = upf\<rparr>],
      nicq_nas_pdu = Some (fst (accept_5g cr i e)), nicq_ue_ambr = (50000000, 50000000),
      nicq_security_key = kamf_of cr e\<rparr>"

lemma reg_step4:
  assumes wf: "world_wf (a_world m)" and e: "abs_world (a_world m) i = Some e"
    and upf: "a_phase_b_upf m = Some upf" and al: "teid_alloc (a_teids m) = (t, a')"
    and u: "nunt_amf_ue_ngap_id u = i" "nunt_nas_pdu u = encode_sec_mode_complete_5g"
  obtains w' where "process_ngap cr rand m (NUplinkNasTransport u) =
      Some (([NInitialContextSetupRequest (accept_request cr i (nunt_ran_ue_ngap_id u) e t upf)],
        [N3CreateSession t i (id_imsi (e_identity e)) DEFAULT_PDU_SESSION_ID DEFAULT_QFI (synth_ue_ip i)
          (replicate 4 0)]), m\<lparr>a_world := w', a_teids := a'\<rparr>)"
    "world_wf w'" "next_id w' = next_id (a_world m)"
    "abs_world w' = (abs_world (a_world m))
      (i \<mapsto> e\<lparr>e_security5g := clear_post_kamf (e_security5g e),
         e_nas_security5g := Some (snd (accept_5g cr i e)),
         e_tunnel := Some \<lparr>tc_ul_teid = t, tc_dl_teid = 0, tc_enb_addr = replicate 4 0\<rparr>\<rparr>)"
proof -
  obtain pdu ctx where ap: "accept_5g cr i e = (pdu, ctx)" by (cases "accept_5g cr i e")
  note ap' = ap [unfolded accept_5g_def kamf_of_def Let_def]
  let ?w = "set_tunnel (set_nas_security5g (security5g_mut (a_world m) i clear_post_kamf) i ctx) i
      \<lparr>tc_ul_teid = t, tc_dl_teid = 0, tc_enb_addr = replicate 4 0\<rparr>"
  have g: "identity (a_world m) i = Some (e_identity e)" "security5g (a_world m) i = Some (e_security5g e)"
    using wf e by (simp_all add: ecs_abs)
  show ?thesis
  proof (rule that [of ?w])
    show "process_ngap cr rand m (NUplinkNasTransport u) =
      Some (([NInitialContextSetupRequest (accept_request cr i (nunt_ran_ue_ngap_id u) e t upf)],
        [N3CreateSession t i (id_imsi (e_identity e)) DEFAULT_PDU_SESSION_ID DEFAULT_QFI (synth_ue_ip i)
          (replicate 4 0)]), m\<lparr>a_world := ?w, a_teids := a'\<rparr>)"
      using ap' g u upf al
      by (simp add: process_ngap_def amf_handle_uplink_nas_def amf_dispatch_nas_def bare_messages_5g_roundtrip
          amf_handle_security_mode_complete_def Let_def accept_request_def ap kamf_of_def)
    show "abs_world ?w = (abs_world (a_world m))
      (i \<mapsto> e\<lparr>e_security5g := clear_post_kamf (e_security5g e),
         e_nas_security5g := Some (snd (accept_5g cr i e)),
         e_tunnel := Some \<lparr>tc_ul_teid = t, tc_dl_teid = 0, tc_enb_addr = replicate 4 0\<rparr>\<rparr>)"
      using wf e ap by (cases e) (simp add: ecs_abs ecs_wf)
  qed (use wf in \<open>simp_all add: ecs_wf\<close>)
qed

section \<open>After the registration\<close>

lemma reg_step5:
  assumes wf: "world_wf (a_world m)" and e: "abs_world (a_world m) i = Some e" "e_tunnel e = Some tu"
    and r: "nicp_amf_ue_ngap_id r = i" "nicp_pdu_sessions_setup r = it # its"
  defines "dl \<equiv> from_be (psi_gtp_teid it)" and "addr \<equiv> psi_transport_layer_addr it"
  obtains w' where "process_ngap cr rand m (NInitialContextSetupResponse r) =
      Some (([], [N3UpdateBearer (tc_ul_teid tu) dl addr]), m\<lparr>a_world := w'\<rparr>)"
    "world_wf w'" "next_id w' = next_id (a_world m)"
    "abs_world w' = (abs_world (a_world m))
      (i \<mapsto> e\<lparr>e_tunnel := Some (tu\<lparr>tc_dl_teid := dl, tc_enb_addr := addr\<rparr>)\<rparr>)"
proof -
  let ?w = "tunnel_mut (a_world m) i (\<lambda>t. t\<lparr>tc_dl_teid := dl, tc_enb_addr := addr\<rparr>)"
  have t: "tunnel (a_world m) i = Some tu" using wf e by (simp add: ecs_abs)
  show ?thesis
  proof (rule that [of ?w])
    show "process_ngap cr rand m (NInitialContextSetupResponse r) =
      Some (([], [N3UpdateBearer (tc_ul_teid tu) dl addr]), m\<lparr>a_world := ?w\<rparr>)"
      using r t by (simp add: process_ngap_def handle_ics_response_def Let_def dl_def addr_def)
    show "abs_world ?w = (abs_world (a_world m))
      (i \<mapsto> e\<lparr>e_tunnel := Some (tu\<lparr>tc_dl_teid := dl, tc_enb_addr := addr\<rparr>)\<rparr>)"
      using wf e by (cases e) (simp add: ecs_abs)
  qed (use wf in \<open>simp_all add: ecs_wf\<close>)
qed

lemma reg_step6:
  assumes u: "nunt_nas_pdu u = encode_registration_complete"
  shows "process_ngap cr rand m (NUplinkNasTransport u) = Some (([], []), m)"
  using u by (simp add: process_ngap_def amf_handle_uplink_nas_def amf_dispatch_nas_def
      bare_messages_5g_roundtrip handle_registration_complete_def)

lemma dereg_step1:
  fixes m :: Amf and cr :: crypto
  assumes wf: "world_wf (a_world m)" and e: "abs_world (a_world m) i = Some e" "e_nas_security5g e = Some ctx"
    and u: "nunt_amf_ue_ngap_id u = i" "nunt_nas_pdu u = encode_deregistration_request False"
  defines "prot \<equiv> encode_protected_5g cr NAS5GS_SHT_INTEGRITY_CIPHERED ctx encode_deregistration_accept"
  obtains w' where "process_ngap cr rand m (NUplinkNasTransport u) =
      Some (([NDownlinkNasTransport \<lparr>ndnt_amf_ue_ngap_id = i, ndnt_ran_ue_ngap_id = nunt_ran_ue_ngap_id u,
          ndnt_nas_pdu = fst prot\<rparr>,
        NUeContextReleaseCommand i (nunt_ran_ue_ngap_id u) NgNasDeregister], []), m\<lparr>a_world := w'\<rparr>)"
    "world_wf w'" "next_id w' = next_id (a_world m)"
    "abs_world w' = (abs_world (a_world m))(i \<mapsto> e\<lparr>e_nas_security5g := Some (snd prot)\<rparr>)"
proof -
  obtain pdu ctx' where p: "prot = (pdu, ctx')" by (cases prot)
  let ?w = "nas_security5g_mut (a_world m) i (\<lambda>_. ctx')"
  have g: "nas_security5g (a_world m) i = Some ctx" "is_live (a_world m) i"
    using wf e by (simp_all add: ecs_abs is_live_abs)
  show ?thesis
  proof (rule that [of ?w])
    show "process_ngap cr rand m (NUplinkNasTransport u) =
      Some (([NDownlinkNasTransport \<lparr>ndnt_amf_ue_ngap_id = i, ndnt_ran_ue_ngap_id = nunt_ran_ue_ngap_id u,
          ndnt_nas_pdu = fst prot\<rparr>,
        NUeContextReleaseCommand i (nunt_ran_ue_ngap_id u) NgNasDeregister], []), m\<lparr>a_world := ?w\<rparr>)"
      using u g p by (simp add: process_ngap_def amf_handle_uplink_nas_def amf_dispatch_nas_def
          bare_messages_5g_roundtrip handle_deregistration_request_def Let_def prot_def)
    show "abs_world ?w = (abs_world (a_world m))(i \<mapsto> e\<lparr>e_nas_security5g := Some (snd prot)\<rparr>)"
      using wf e p by (cases e) (simp add: ecs_abs)
  qed (use wf in \<open>simp_all add: ecs_wf\<close>)
qed

lemma dereg_step2:
  assumes wf: "world_wf (a_world m)" and e: "abs_world (a_world m) i = Some e" "e_tunnel e = Some tu"
    and r: "ncrc_amf_ue_ngap_id r = i"
  shows "process_ngap cr rand m (NUeContextReleaseComplete r) =
      Some (([], [N3RemoveSession (tc_ul_teid tu)]),
        m\<lparr>a_registry := (a_registry m)(id_imsi (e_identity e) := None), a_world := despawn (a_world m) i,
          a_teids := teid_release (a_teids m) (tc_ul_teid tu)\<rparr>)"
    "world_wf (despawn (a_world m) i)"
    "abs_world (despawn (a_world m) i) = (abs_world (a_world m))(i := None)"
proof -
  have "tunnel (a_world m) i = Some tu" "identity (a_world m) i = Some (e_identity e)"
    using wf e by (simp_all add: ecs_abs)
  then show "process_ngap cr rand m (NUeContextReleaseComplete r) =
      Some (([], [N3RemoveSession (tc_ul_teid tu)]),
        m\<lparr>a_registry := (a_registry m)(id_imsi (e_identity e) := None), a_world := despawn (a_world m) i,
          a_teids := teid_release (a_teids m) (tc_ul_teid tu)\<rparr>)"
    using r by (simp add: process_ngap_def amf_handle_release_complete_def Let_def deregister_def)
qed (use wf in \<open>simp_all add: ecs_wf ecs_abs\<close>)

end
