(* ===== verification/Amf_Claims.thy ===== *)
theory Amf_Claims
  imports Amf_Steps
begin

text \<open>
  The properties of the AMF on its own: safety over all message sequences, who becomes
  authenticated, how far the synthesised subscriber addresses are distinct, and what happens
  when an entity that was never challenged answers with zero bytes.
\<close>

section \<open>Any sequence of messages\<close>

text \<open>
  C5. Any sequence of fewer than 2 to the 32 minus 2 to the 17 NGAP messages, from a fresh AMF with
  any subscribers, runs without a panic; afterwards the entity storage is well formed, no two
  live entities have the same uplink TEID, none of those TEIDs is on the free list, and the
  free list has no duplicates.
\<close>

theorem amf_run_safe:
  assumes "length inputs < 4294967296 - 0x20000"
  shows "\<exists>outs m. amf_run cr (Amf_new\<lparr>a_phase_b_upf := upf, a_hss := hss\<rparr>) inputs = Some (outs, m) \<and>
    world_wf (a_world m) \<and> distinct (ta_free (a_teids m)) \<and>
    (\<forall>i t. teid_of (a_world m) i = Some t \<longrightarrow> t \<notin> set (ta_free (a_teids m))) \<and>
    (\<forall>i j t. teid_of (a_world m) i = Some t \<longrightarrow> teid_of (a_world m) j = Some t \<longrightarrow> i = j)"
proof -
  obtain outs m where r: "amf_run cr (Amf_new\<lparr>a_phase_b_upf := upf, a_hss := hss\<rparr>) inputs = Some (outs, m)"
    and inv: "amf_inv (0 + length inputs) m"
    using amf_run_inv [OF amf_inv_start [where upf = upf and hss = hss], of inputs cr] assms by auto
  show ?thesis using r amf_inv_wf [OF inv] amf_inv_teids [OF inv] by blast
qed

theorem amf_run_safe_witness:
  "\<exists>outs m. amf_run sample_crypto (Amf_new\<lparr>a_phase_b_upf := Some [10, 0, 0, 1], a_hss := Map.empty\<rparr>)
      [([], NUeContextReleaseComplete \<lparr>ncrc_amf_ue_ngap_id = 0, ncrc_ran_ue_ngap_id = 0\<rparr>)] = Some (outs, m) \<and>
    world_wf (a_world m) \<and> distinct (ta_free (a_teids m)) \<and>
    (\<forall>i t. teid_of (a_world m) i = Some t \<longrightarrow> t \<notin> set (ta_free (a_teids m))) \<and>
    (\<forall>i j t. teid_of (a_world m) i = Some t \<longrightarrow> teid_of (a_world m) j = Some t \<longrightarrow> i = j)"
  by (rule amf_run_safe) simp

section \<open>Samples\<close>

definition sample_initial :: NgapInitialUeMessage where
  "sample_initial = \<lparr>nium_ran_ue_ngap_id = 7, nium_nas_pdu = encode_registration_request 1 0 None 0x00C0,
     nium_tai = [0, 0x11, 0x22, 0, 0, 1], nium_nr_cgi = replicate 9 0, nium_rrc_establishment_cause = 0\<rparr>"

definition sample_uplink_5g :: "u32 \<Rightarrow> bytes \<Rightarrow> NgapUplinkNasTransport" where
  "sample_uplink_5g i pdu = \<lparr>nunt_amf_ue_ngap_id = i, nunt_ran_ue_ngap_id = 7, nunt_nas_pdu = pdu,
     nunt_tai = [0, 0x11, 0x22, 0, 0, 1], nunt_nr_cgi = replicate 9 0\<rparr>"

abbreviation start_amf :: "bytes option \<Rightarrow> Hss \<Rightarrow> Amf" where
  "start_amf upf hss \<equiv> Amf_new\<lparr>a_phase_b_upf := upf, a_hss := hss\<rparr>"

lemma start_amf_ok:
  "world_wf (a_world (start_amf upf hss))" "unat (next_id (a_world (start_amf upf hss))) + 1 < 4294967296"
  "aka_ok (a_world (start_amf upf hss))"
  using amf_inv_wf [OF amf_inv_start] by (simp_all add: Amf_new_def World_new_def)
     (simp_all add: World_new_def [symmetric])

lemma sample_initial_decodes:
  obtains q where "decode_nas5gs (nium_nas_pdu sample_initial) = Inr (RegistrationRequest q)" "rr_guti q = None"
proof
  show "decode_nas5gs (nium_nas_pdu sample_initial) = Inr (RegistrationRequest \<lparr>rr_registration_type = 1 AND 7,
      rr_ng_ksi = 0 AND 7, rr_guti = None, rr_ue_security_cap = 0x00C0\<rparr>)"
    unfolding sample_initial_def NgapInitialUeMessage.simps by (rule registration_request_roundtrip) simp
qed simp

lemma sample_initial_fields:
  "nium_ran_ue_ngap_id sample_initial = 7" "take 3 (nium_tai sample_initial) = [0, 0x11, 0x22]"
  by (simp_all add: sample_initial_def)

lemma sample_step1:
  assumes "world_wf (a_world m)" "unat (next_id (a_world m)) + 1 < 4294967296"
  obtains ent o1 w' where "process_ngap cr rand m (NInitialUeMessage sample_initial) = Some (o1, m\<lparr>a_world := w'\<rparr>)"
    "world_wf w'" "abs_world w' ent = Some (fresh_5g_entity 7 [0, 0x11, 0x22])"
    "fst (the (spawn (a_world m))) = ent"
proof -
  obtain q where d: "decode_nas5gs (nium_nas_pdu sample_initial) = Inr (RegistrationRequest q)" "rr_guti q = None"
    by (rule sample_initial_decodes)
  obtain ent w' where s: "process_ngap cr rand m (NInitialUeMessage sample_initial) =
      Some (([NDownlinkNasTransport \<lparr>ndnt_amf_ue_ngap_id = ent,
        ndnt_ran_ue_ngap_id = nium_ran_ue_ngap_id sample_initial,
        ndnt_nas_pdu = encode_identity_request IDTYPE_SUCI\<rparr>], []), m\<lparr>a_world := w'\<rparr>)"
    "world_wf w'" "abs_world w' = (abs_world (a_world m))
       (ent \<mapsto> fresh_5g_entity (nium_ran_ue_ngap_id sample_initial) (take 3 (nium_tai sample_initial)))"
    "fst (the (spawn (a_world m))) = ent"
    by (rule reg_step1 [OF assms d])
  show ?thesis by (rule that [OF s(1,2)]) (simp_all add: s(3,4) sample_initial_fields)
qed

section \<open>Authentication\<close>

text \<open>
  C10. In any state the AMF can reach, an entity becomes authenticated only by an uplink NAS message
  for it whose plain PDU is an authentication response carrying exactly the RES* the AMF
  stored for it.
\<close>

theorem amf_authenticated_only_by_xres_star:
  assumes cr: "hmac_len cr" and len: "length inputs < 4294967296 - 0x20000 - 1"
    and run: "amf_run cr (start_amf upf hss) inputs = Some (outs, m)"
    and step: "process_ngap cr rand m msg = Some (out, m')"
    and new: "auth_state (a_world m') i = Some Authenticated"
    and old: "auth_state (a_world m) i \<noteq> Some Authenticated"
  shows "\<exists>u pdu a aka. msg = NUplinkNasTransport u \<and> nunt_amf_ue_ngap_id u = i \<and>
    fst (amf_unwrap_uplink cr (a_world m) i (nunt_nas_pdu u)) = Some pdu \<and>
    decode_nas5gs pdu = Inr (AuthenticationResponse5g a) \<and>
    security5g (a_world m) i = Some aka \<and> pending_xres_star aka = ap5_res_star a"
proof -
  have "amf_inv (length inputs) m \<and> aka_ok (a_world m)"
    using amf_run_aka [OF cr amf_inv_start _ start_amf_ok(3) run] len by simp
  moreover have "amf_room (length inputs)" using len by (simp add: amf_room_def)
  ultimately show ?thesis using process_ngap_authenticates [OF _ _ _ step new old] by blast
qed

theorem amf_authenticated_only_by_xres_star_witness:
  "\<exists>outs m out m'. amf_run sample_crypto (start_amf None Map.empty) [([], NInitialUeMessage sample_initial)] = Some (outs, m) \<and>
    process_ngap sample_crypto [] m (NUplinkNasTransport (sample_uplink_5g 0 (encode_auth_response_5g (replicate 16 0)))) = Some (out, m') \<and>
    (\<exists>u pdu a aka. NUplinkNasTransport (sample_uplink_5g 0 (encode_auth_response_5g (replicate 16 0))) = NUplinkNasTransport u \<and>
      nunt_amf_ue_ngap_id u = 0 \<and> fst (amf_unwrap_uplink sample_crypto (a_world m) 0 (nunt_nas_pdu u)) = Some pdu \<and>
      decode_nas5gs pdu = Inr (AuthenticationResponse5g a) \<and>
      security5g (a_world m) 0 = Some aka \<and> pending_xres_star aka = ap5_res_star a)"
proof -
  let ?u = "sample_uplink_5g 0 (encode_auth_response_5g (replicate 16 0))"
  have ent: "fst (the (spawn (a_world (start_amf None Map.empty)))) = 0"
    by (simp add: Amf_new_def World_new_def spawn_def Let_def)
  obtain o1 w1 where s1: "process_ngap sample_crypto [] (start_amf None Map.empty) (NInitialUeMessage sample_initial) =
      Some (o1, (start_amf None Map.empty)\<lparr>a_world := w1\<rparr>)"
    and w1: "world_wf w1" "abs_world w1 0 = Some (fresh_5g_entity 7 [0, 0x11, 0x22])"
    by (rule sample_step1 [OF start_amf_ok(1,2) [where upf = None and hss = Map.empty], of sample_crypto "[]"])
       (rule that, assumption, assumption, simp only: ent)
  let ?m = "(start_amf None Map.empty)\<lparr>a_world := w1\<rparr>"
  have run: "amf_run sample_crypto (start_amf None Map.empty) [([], NInitialUeMessage sample_initial)] = Some ([o1], ?m)"
    using s1 by simp
  obtain o2 w2 where s2: "process_ngap sample_crypto [] ?m (NUplinkNasTransport ?u) = Some (o2, ?m\<lparr>a_world := w2\<rparr>)"
    and w2: "world_wf w2" "map_option e_auth (abs_world w2 0) = Some Authenticated"
    by (rule reg_step3 [of ?m 0 "fresh_5g_entity 7 [0, 0x11, 0x22]" "replicate 16 0" ?u sample_crypto "[]"])
       (use w1 in \<open>auto simp: sample_uplink_5g_def fresh_5g_entity_def Nas5gsAkaContext_new_empty_def\<close>)
  have "auth_state (a_world (?m\<lparr>a_world := w2\<rparr>)) 0 = Some Authenticated" using w2 by (simp add: ecs_abs)
  moreover have "auth_state (a_world ?m) 0 \<noteq> Some Authenticated"
    using w1 by (simp add: ecs_abs fresh_5g_entity_def empty_entity_def)
  ultimately show ?thesis
    using amf_authenticated_only_by_xres_star [OF sample_crypto_ok(3) _ run s2] run s2 by auto
qed

text \<open>
  C37. A fresh entity holds an expected response of zero bytes. So after a registration request
  alone, without an identity and without a challenge, an authentication response of sixteen
  zero bytes makes the entity authenticated, and security mode complete then opens a session
  for the identity 0.
\<close>

theorem unchallenged_entity_gets_session:
  assumes wf: "world_wf (a_world m)" and room: "unat (next_id (a_world m)) + 1 < 4294967296"
    and upf: "a_phase_b_upf m = Some upf"
  shows "\<exists>ent t outs icsr m'.
    amf_run cr m [(r1, NInitialUeMessage sample_initial),
        (r2, NUplinkNasTransport (sample_uplink_5g ent (encode_auth_response_5g (replicate 16 0)))),
        (r3, NUplinkNasTransport (sample_uplink_5g ent encode_sec_mode_complete_5g))] = Some (outs, m') \<and>
    last outs = ([NInitialContextSetupRequest icsr],
        [N3CreateSession t ent 0 DEFAULT_PDU_SESSION_ID DEFAULT_QFI (synth_ue_ip ent) (replicate 4 0)]) \<and>
    is_authenticated (a_world m') ent \<and> teid_of (a_world m') ent = Some t"
proof -
  let ?e = "fresh_5g_entity 7 [0, 0x11, 0x22]"
  obtain ent w1 o1 where s1: "process_ngap cr r1 m (NInitialUeMessage sample_initial) = Some (o1, m\<lparr>a_world := w1\<rparr>)"
    and w1: "world_wf w1" "abs_world w1 ent = Some ?e"
    by (rule sample_step1 [OF wf room])
  let ?u2 = "sample_uplink_5g ent (encode_auth_response_5g (replicate 16 0))"
  let ?e2 = "?e\<lparr>e_security5g := clear_pending_challenge_5g (e_security5g ?e), e_auth := Authenticated\<rparr>"
  obtain o2 w2 where s2: "process_ngap cr r2 (m\<lparr>a_world := w1\<rparr>) (NUplinkNasTransport ?u2) = Some (o2, m\<lparr>a_world := w2\<rparr>)"
    and w2: "world_wf w2" "abs_world w2 ent = Some ?e2"
    by (rule reg_step3 [of "m\<lparr>a_world := w1\<rparr>" ent ?e "replicate 16 0" ?u2 cr r2])
       (use w1 in \<open>auto simp: sample_uplink_5g_def fresh_5g_entity_def Nas5gsAkaContext_new_empty_def\<close>)
  obtain t a' where al: "teid_alloc (a_teids m) = (t, a')" by (cases "teid_alloc (a_teids m)")
  let ?u3 = "sample_uplink_5g ent encode_sec_mode_complete_5g"
  have i0: "id_imsi (e_identity ?e2) = 0" by (simp add: fresh_5g_entity_def)
  obtain icsr w3 where s3: "process_ngap cr r3 (m\<lparr>a_world := w2\<rparr>) (NUplinkNasTransport ?u3) =
      Some (([NInitialContextSetupRequest icsr],
        [N3CreateSession t ent 0 DEFAULT_PDU_SESSION_ID DEFAULT_QFI (synth_ue_ip ent) (replicate 4 0)]),
        m\<lparr>a_world := w3, a_teids := a'\<rparr>)"
    and w3: "world_wf w3" "map_option e_auth (abs_world w3 ent) = Some Authenticated"
      "map_option e_tunnel (abs_world w3 ent) = Some (Some \<lparr>tc_ul_teid = t, tc_dl_teid = 0, tc_enb_addr = replicate 4 0\<rparr>)"
    by (rule reg_step4 [of "m\<lparr>a_world := w2\<rparr>" ent ?e2 upf t a' ?u3 cr r3])
       (use w2 upf al i0 in \<open>auto simp: sample_uplink_5g_def\<close>)
  have "is_authenticated w3 ent" using w3(1,2) by (simp add: is_authenticated_def ecs_abs)
  moreover have "teid_of w3 ent = Some t" using w3(3) by (auto simp: teid_of_def)
  ultimately show ?thesis using s1 s2 s3 by (intro exI [of _ ent] exI [of _ t]) auto
qed

theorem unchallenged_entity_gets_session_witness:
  "\<exists>ent t outs icsr m'.
    amf_run sample_crypto (start_amf (Some [10, 0, 0, 1]) Map.empty) [([], NInitialUeMessage sample_initial),
        ([], NUplinkNasTransport (sample_uplink_5g ent (encode_auth_response_5g (replicate 16 0)))),
        ([], NUplinkNasTransport (sample_uplink_5g ent encode_sec_mode_complete_5g))] = Some (outs, m') \<and>
    last outs = ([NInitialContextSetupRequest icsr],
        [N3CreateSession t ent 0 DEFAULT_PDU_SESSION_ID DEFAULT_QFI (synth_ue_ip ent) (replicate 4 0)]) \<and>
    is_authenticated (a_world m') ent \<and> teid_of (a_world m') ent = Some t"
  by (rule unchallenged_entity_gets_session [OF start_amf_ok(1,2)]) simp

section \<open>Subscriber addresses\<close>

lemma synth_ue_ip_bytes:
  "synth_ue_ip i = synth_ue_ip j \<longleftrightarrow>
     unat i div 256 mod 256 = unat j div 256 mod 256 \<and> unat i mod 256 = unat j mod 256"
proof -
  have "(ucast x :: u8) = ucast y \<longleftrightarrow> unat x mod 256 = unat y mod 256" for x y :: u32
    by (simp add: word_unat_eq_iff unsigned_ucast_eq take_bit_eq_mod)
  moreover have "unat (drop_bit 8 x) = unat x div 256" for x :: u32
    by (subst unat_drop_bit_eq) (simp add: drop_bit_eq_div)
  ultimately show ?thesis by (simp add: synth_ue_ip_def)
qed

lemma digits_256: "a < 256 \<Longrightarrow> b < 256 \<Longrightarrow> 256 * c + a = 256 * d + b \<Longrightarrow> c = d \<and> a = (b :: nat)"
  by (metis add_left_cancel div_mult_self4 div_less add.right_neutral zero_neq_numeral)

lemma synth_ue_ip_mod:
  "synth_ue_ip i = synth_ue_ip j \<longleftrightarrow> unat i mod 65536 = unat j mod 65536"
proof -
  let ?h = "\<lambda>i :: u32. unat i div 256 mod 256" and ?l = "\<lambda>i :: u32. unat i mod 256"
  have "synth_ue_ip i = synth_ue_ip j \<longleftrightarrow> ?h i = ?h j \<and> ?l i = ?l j"
    by (simp add: synth_ue_ip_bytes)
  also have "\<dots> \<longleftrightarrow> 256 * ?h i + ?l i = 256 * ?h j + ?l j"
    using digits_256 [of "?l i" "?l j" "?h i" "?h j"] by auto
  also have "\<dots> \<longleftrightarrow> unat i mod (256 * 256) = unat j mod (256 * 256)" by (simp only: mod_mult2_eq)
  finally show ?thesis by simp
qed

lemma synth_ue_ip_inj: "unat i < 65536 \<Longrightarrow> unat j < 65536 \<Longrightarrow> synth_ue_ip i = synth_ue_ip j \<Longrightarrow> i = j"
  by (simp add: synth_ue_ip_mod word_unat_eq_iff)

text \<open>
  The address the AMF makes from an entity id determines the id modulo 65536 and nothing more:
  two entities share an address exactly when their ids agree in the low 16 bits.
\<close>

theorem synth_ue_ip_eq_iff:
  "synth_ue_ip i = synth_ue_ip j \<longleftrightarrow> unat i mod 65536 = unat j mod 65536"
  by (rule synth_ue_ip_mod)

end
