(* ===== verification/Ngap_Roundtrip.thy ===== *)
theory Ngap_Roundtrip
  imports Ngap_Codec
begin

text \<open>
  Decoding inverts encoding for the NGAP codec, and the encoder does not panic on messages
  whose fields are in range. The container and wrapper functions agree with those of S1AP;
  the PDU session items are further interpretations of the item contract of the PER engine.
\<close>

section \<open>Container and wrapper\<close>

lemma ngap_container_eq:
  "ngap_write_ie_container = write_ie_container" "ngap_read_ie_container = read_ie_container"
proof -
  have e: "ngap_write_ie_entry = write_ie_entry" "ngap_read_ie_entry = read_ie_entry"
    by (simp_all add: fun_eq_iff ngap_write_ie_entry_def write_ie_entry_def ngap_read_ie_entry_def
        read_ie_entry_def ngap_maxs s1ap_maxs)
  show "ngap_write_ie_container = write_ie_container" "ngap_read_ie_container = read_ie_container"
    unfolding ngap_write_ie_container_def [abs_def] write_ie_container_def [abs_def]
      ngap_read_ie_container_def [abs_def] read_ie_container_def [abs_def] e by (rule refl)+
qed

lemma ngap_wrapper_eq:
  "ngap_encode_pdu_wrapper = encode_pdu_wrapper" "ngap_decode_pdu_wrapper = decode_pdu_wrapper"
  by (simp_all add: fun_eq_iff ngap_encode_pdu_wrapper_def encode_pdu_wrapper_def ngap_decode_pdu_wrapper_def
      decode_pdu_wrapper_def ngap_maxs s1ap_maxs)

lemma ngap_encode_entries_eq: "ngap_encode_entries = encode_entries"
  by (simp add: fun_eq_iff ngap_encode_entries_def encode_entries_def ngap_container_eq ngap_wrapper_eq)

section \<open>Items\<close>

definition session_to_setup_ok :: "PduSessionToSetup \<Rightarrow> bool" where
  "session_to_setup_ok s \<longleftrightarrow> unat (pts_qfi s) \<le> 63 \<and> length (pts_gtp_teid s) = 4 \<and>
     length (pts_transport_layer_addr s) = 4"

definition session_setup_ok :: "PduSessionSetupItem \<Rightarrow> bool" where
  "session_setup_ok s \<longleftrightarrow> length (psi_transport_layer_addr s) = 4 \<and> length (psi_gtp_teid s) = 4"

lemma write_pdu_session_to_setup_seq:
  "write_pdu_session_to_setup = (\<lambda>w e.
     wr_seq (\<lambda>w v. write_constrained_int w v 0 PDU_SESSION_ID_MAX)
       (wr_seq (\<lambda>w v. write_constrained_int w v 0 QFI_MAX)
         (wr_seq write_aligned_octets write_aligned_octets)) w
       (ucast (pts_pdu_session_id e), ucast (pts_qfi e), pts_gtp_teid e, pts_transport_layer_addr e))"
  by (simp add: write_pdu_session_to_setup_def wr_seq_def [where w = w for w] write_octets_twice fun_eq_iff
      cong: option.case_cong)

lemma read_pdu_session_to_setup_seq:
  "read_pdu_session_to_setup = rd_map (\<lambda>(i, q, t, a). \<lparr>pts_pdu_session_id = ucast i, pts_qfi = ucast q,
       pts_gtp_teid = t, pts_transport_layer_addr = a\<rparr>)
     (rd_seq (\<lambda>r. read_constrained_int r 0 PDU_SESSION_ID_MAX)
       (rd_seq (\<lambda>r. read_constrained_int r 0 QFI_MAX)
         (rd_seq (\<lambda>r. read_octets r 4) (\<lambda>r. read_octets r 4))))"
  by (auto simp: read_pdu_session_to_setup_def rd_map_def rd_seq_def fun_eq_iff split: Option.bind_splits)

interpretation session_to_setup: per_item write_pdu_session_to_setup read_pdu_session_to_setup session_to_setup_ok
  unfolding write_pdu_session_to_setup_seq read_pdu_session_to_setup_seq
  by (rule per_item_map [OF per_item_seq [OF constrained_int_item per_item_seq [OF constrained_int_item
        per_item_seq [OF aligned_octets_item aligned_octets_item]]]])
     (auto simp: session_to_setup_ok_def ngap_maxs word_ucast_back unat_widen unat_u8_le)

lemma write_pdu_session_setup_seq:
  "write_pdu_session_setup = (\<lambda>w e.
     wr_seq (\<lambda>w v. write_constrained_int w v 0 PDU_SESSION_ID_MAX)
       (wr_seq write_aligned_octets write_aligned_octets) w
       (ucast (psi_pdu_session_id e), psi_transport_layer_addr e, psi_gtp_teid e))"
  by (simp add: write_pdu_session_setup_def write_octets_twice fun_eq_iff wr_seq_def)

lemma read_pdu_session_setup_seq:
  "read_pdu_session_setup = rd_map (\<lambda>(i, a, t). \<lparr>psi_pdu_session_id = ucast i,
       psi_transport_layer_addr = a, psi_gtp_teid = t\<rparr>)
     (rd_seq (\<lambda>r. read_constrained_int r 0 PDU_SESSION_ID_MAX)
       (rd_seq (\<lambda>r. read_octets r 4) (\<lambda>r. read_octets r 4)))"
  by (auto simp: read_pdu_session_setup_def rd_map_def rd_seq_def fun_eq_iff split: Option.bind_splits)

interpretation session_setup: per_item write_pdu_session_setup read_pdu_session_setup session_setup_ok
  unfolding write_pdu_session_setup_seq read_pdu_session_setup_seq
  by (rule per_item_map [OF per_item_seq [OF constrained_int_item
        per_item_seq [OF aligned_octets_item aligned_octets_item]]])
     (auto simp: session_setup_ok_def ngap_maxs word_ucast_back unat_widen unat_u8_le)

interpretation session_id: per_item write_pdu_session_id read_pdu_session_id "\<lambda>_. True"
proof -
  have "read_pdu_session_id = rd_map ucast (\<lambda>r. read_constrained_int r 0 PDU_SESSION_ID_MAX)"
    by (auto simp: read_pdu_session_id_def rd_map_def fun_eq_iff)
  moreover have "write_pdu_session_id = (\<lambda>w i. write_constrained_int w (ucast i) 0 PDU_SESSION_ID_MAX)"
    by (simp add: write_pdu_session_id_def fun_eq_iff)
  moreover have "per_item (\<lambda>w i. write_constrained_int w (ucast i) 0 PDU_SESSION_ID_MAX)
      (rd_map ucast (\<lambda>r. read_constrained_int r 0 PDU_SESSION_ID_MAX)) (\<lambda>_ :: u8. True)"
    by (rule per_item_map [OF constrained_int_item]) (auto simp: ngap_maxs word_ucast_back unat_widen unat_u8_le)
  ultimately show "per_item write_pdu_session_id read_pdu_session_id (\<lambda>_. True)" by simp
qed

interpretation sessions_to_setup: per_item write_pdu_sessions_to_setup read_pdu_sessions_to_setup
  "\<lambda>es. list_all session_to_setup_ok es \<and> length es < 16384"
  using session_to_setup.list_item
  by (simp add: write_pdu_sessions_to_setup_def [abs_def] read_pdu_sessions_to_setup_def [abs_def])

interpretation sessions_setup: per_item write_pdu_sessions_setup read_pdu_sessions_setup
  "\<lambda>es. list_all session_setup_ok es \<and> length es < 16384"
  using session_setup.list_item
  by (simp add: write_pdu_sessions_setup_def [abs_def] read_pdu_sessions_setup_def [abs_def])

interpretation session_ids: per_item write_pdu_session_ids read_pdu_session_ids
  "\<lambda>is. list_all (\<lambda>_. True) is \<and> length is < 16384"
  using session_id.list_item
  by (simp add: write_pdu_session_ids_def [abs_def] read_pdu_session_ids_def [abs_def])

section \<open>Fields\<close>

lemma ie_location_back:
  assumes "ie_location cgi tai = Some e" "length cgi = 9" "length tai = 6"
  shows "\<exists>val. e = (ID_USER_LOCATION_INFO, NGAP_CRITICALITY_IGNORE, val) \<and>
    rd_value read_user_location_info val = Some (cgi, tai)"
proof -
  let ?w = "write_user_location_info PerWriter_new cgi tai"
  have "write_align PerWriter_new = PerWriter_new" by (simp add: write_align_aligned PerWriter_new_def)
  then have "wr_seq write_aligned_octets write_aligned_octets PerWriter_new (cgi, tai) = Some ?w"
    using write_octets_twice [of PerWriter_new cgi tai] by (simp add: write_user_location_info_def)
  moreover have "read_user_location_info = rd_seq (\<lambda>r. read_octets r 9) (\<lambda>r. read_octets r 6)"
    by (simp add: read_user_location_info_def rd_seq_def fun_eq_iff)
  ultimately have "rd_value read_user_location_info (into_bytes ?w) = Some (cgi, tai)"
    using rd_value_written [OF per_item_seq [OF aligned_octets_item aligned_octets_item, of 9 6], of "(cgi, tai)" ?w]
      assms(2,3) by simp
  then show ?thesis using assms(1) by (auto simp: ie_location_def)
qed

lemma ngap_cause_back [simp]:
  "ngap_cause_from_u64 (ngap_cause_to_u64 c) = Some c" "ngap_cause_to_u64 c \<le> NGAP_CAUSE_MAX"
  by (cases c; simp add: ngap_cause_from_u64_def ngap_maxs)+

lemma ngap_max_nonzero:
  "RAN_UE_NGAP_ID_MAX + 1 \<noteq> 0" "AMF_UE_NGAP_ID_MAX + 1 \<noteq> 0" "NGAP_RRC_ESTABLISHMENT_CAUSE_MAX + 1 \<noteq> 0"
  "NGAP_CAUSE_MAX + 1 \<noteq> 0"
  by (simp_all add: ngap_maxs)

lemmas ngap_backs = ie_int_back [OF _ ngap_max_nonzero(1)] ie_int_back [OF _ ngap_max_nonzero(2)]
  ie_int_back [OF _ ngap_max_nonzero(3)] ie_int_back [OF _ ngap_max_nonzero(4)]
  ie_octet_string_back ie_octets_back ie_location_back

lemma ngap_ambr_back:
  assumes "map_option (\<lambda>w. (i, crit, into_bytes w))
      (Option.bind (write_constrained_int PerWriter_new (fst x) 0 NGAP_BIT_RATE_MAX)
         (\<lambda>w. write_constrained_int w (snd x) 0 NGAP_BIT_RATE_MAX)) = Some e"
  shows "\<exists>val. e = (i, crit, val) \<and> ngap_get_ambr val = Some x"
proof -
  let ?wr = "wr_seq (\<lambda>w v. write_constrained_int w v 0 NGAP_BIT_RATE_MAX) (\<lambda>w v. write_constrained_int w v 0 NGAP_BIT_RATE_MAX)"
  from assms obtain w where w: "?wr PerWriter_new x = Some w" "e = (i, crit, into_bytes w)"
    by (auto simp: wr_seq_def bind_eq_Some_conv)
  have "rd_value (rd_seq (\<lambda>r. read_constrained_int r 0 NGAP_BIT_RATE_MAX) (\<lambda>r. read_constrained_int r 0 NGAP_BIT_RATE_MAX))
      (into_bytes w) = Some x"
    using w(1) by (intro rd_value_written [OF per_item_seq [OF constrained_int_item constrained_int_item]])
      (auto simp: ngap_maxs wr_seq_def bind_eq_Some_conv dest: write_constrained_int_SomeD)
  with w(2) show ?thesis by (simp add: ngap_get_ambr_def)
qed

section \<open>Messages\<close>

lemma decode_ngap_pduI:
  assumes "ngap_encode_entries choice pc crit ies = Some b"
    and "\<And>entries. those ies = Some entries \<Longrightarrow>
      (if pc = NGAP_PROC_INITIAL_UE_MESSAGE then ngap_decode_initial_ue_message entries
       else if pc = NGAP_PROC_UPLINK_NAS_TRANSPORT then ngap_decode_uplink_nas_transport entries
       else if pc = NGAP_PROC_DOWNLINK_NAS_TRANSPORT then ngap_decode_downlink_nas_transport entries
       else if pc = NGAP_PROC_INITIAL_CONTEXT_SETUP \<and> choice = NGAP_PDU_CHOICE_INITIATING_MESSAGE then
         ngap_decode_initial_context_setup_request entries
       else if pc = NGAP_PROC_INITIAL_CONTEXT_SETUP \<and> choice = NGAP_PDU_CHOICE_SUCCESSFUL_OUTCOME then
         ngap_decode_initial_context_setup_response entries
       else if pc = NGAP_PROC_UE_CONTEXT_RELEASE \<and> choice = NGAP_PDU_CHOICE_INITIATING_MESSAGE then
         ngap_decode_ue_context_release_command entries
       else if pc = NGAP_PROC_UE_CONTEXT_RELEASE \<and> choice = NGAP_PDU_CHOICE_SUCCESSFUL_OUTCOME then
         ngap_decode_ue_context_release_complete entries
       else Inl (MalformedNgap ''unsupported procedure code (or PDU choice)'')) = Inr m"
  shows "decode_ngap_pdu b = Inr m"
proof -
  from assms(1) obtain entries val where "those ies = Some entries"
    "decode_pdu_wrapper b = Some (choice, pc, crit, val)" "rd_value read_ie_container val = Some entries"
    unfolding ngap_encode_entries_eq by (rule encode_entries_back)
  then show ?thesis using assms(2) by (simp add: decode_ngap_pdu_def ngap_container_eq ngap_wrapper_eq)
qed

lemma ngap_initial_ue_back:
  assumes "ngap_encode_initial_ue_message m = Some b" "length (nium_tai m) = 6" "length (nium_nr_cgi m) = 9"
  shows "decode_ngap_pdu b = Inr (NInitialUeMessage m)"
  using assms(1) unfolding ngap_encode_initial_ue_message_def
proof (rule decode_ngap_pduI, goal_cases)
  case (1 entries)
  then show ?case using assms(2,3)
    by (auto simp only: those_Some dest!: ngap_backs)
       (simp add: ngap_procs ngap_decode_initial_ue_message_def ngap_initial_ue_ie_def no_nas_fields_def ngap_ids
         word_ucast_back)
qed

lemma ngap_uplink_nas_back:
  assumes "ngap_encode_uplink_nas_transport m = Some b" "length (nunt_tai m) = 6" "length (nunt_nr_cgi m) = 9"
  shows "decode_ngap_pdu b = Inr (NUplinkNasTransport m)"
  using assms(1) unfolding ngap_encode_uplink_nas_transport_def
proof (rule decode_ngap_pduI, goal_cases)
  case (1 entries)
  then show ?case using assms(2,3)
    by (auto simp only: those_Some dest!: ngap_backs)
       (simp add: ngap_procs ngap_decode_uplink_nas_transport_def ngap_uplink_nas_ie_def no_nas_fields_def ngap_ids
         word_ucast_back)
qed

lemma ngap_downlink_nas_back:
  assumes "ngap_encode_downlink_nas_transport m = Some b"
  shows "decode_ngap_pdu b = Inr (NDownlinkNasTransport m)"
  using assms(1) unfolding ngap_encode_downlink_nas_transport_def
proof (rule decode_ngap_pduI, goal_cases)
  case (1 entries)
  then show ?case
    by (auto simp only: those_Some dest!: ngap_backs)
       (simp add: ngap_procs ngap_decode_downlink_nas_transport_def ngap_downlink_nas_ie_def no_nas_fields_def
         ngap_ids word_ucast_back)
qed

lemma ngap_release_command_back:
  assumes "ngap_encode_ue_context_release_command a r c = Some b"
  shows "decode_ngap_pdu b = Inr (NUeContextReleaseCommand a r c)"
  using assms(1) unfolding ngap_encode_ue_context_release_command_def
proof (rule decode_ngap_pduI, goal_cases)
  case (1 entries)
  then show ?case
    by (auto simp only: those_Some dest!: ngap_backs)
       (simp add: ngap_procs ngap_decode_ue_context_release_command_def ngap_release_command_ie_def ngap_ids
         word_ucast_back)
qed

lemma ngap_release_complete_back:
  assumes "ngap_encode_ue_context_release_complete m = Some b"
  shows "decode_ngap_pdu b = Inr (NUeContextReleaseComplete m)"
  using assms(1) unfolding ngap_encode_ue_context_release_complete_def
proof (rule decode_ngap_pduI, goal_cases)
  case (1 entries)
  then show ?case
    by (auto simp only: those_Some dest!: ngap_backs)
       (simp add: ngap_procs ngap_decode_ue_context_release_complete_def ngap_release_complete_ie_def ngap_ids
         word_ucast_back)
qed

lemma ngap_context_setup_request_back:
  assumes "ngap_encode_initial_context_setup_request m = Some b" "length (nicq_security_key m) = 32"
    "list_all session_to_setup_ok (nicq_pdu_sessions m)" "length (nicq_pdu_sessions m) < 16384"
  shows "decode_ngap_pdu b = Inr (NInitialContextSetupRequest m)"
  using assms(1) unfolding ngap_encode_initial_context_setup_request_def
proof (rule decode_ngap_pduI, goal_cases)
  case (1 entries)
  have ok: "list_all session_to_setup_ok (nicq_pdu_sessions m) \<and> length (nicq_pdu_sessions m) < 16384"
    using assms(3,4) by simp
  note backs = ngap_backs ngap_ambr_back ie_list_back [OF sessions_to_setup.per_item_axioms ok]
  show ?case
    using 1 assms(2)
    by (cases "nicq_pdu_sessions m = []"; cases "nicq_nas_pdu m")
       ((auto simp only: those_Some append.simps option.simps if_True if_False not_not simp_thms dest!: backs)?,
        simp add: ngap_procs ngap_decode_initial_context_setup_request_def ngap_icsr_ie_def ngap_ids word_ucast_back)+
qed

lemma ngap_context_setup_response_back:
  assumes "ngap_encode_initial_context_setup_response m = Some b"
    "list_all session_setup_ok (nicp_pdu_sessions_setup m)" "length (nicp_pdu_sessions_setup m) < 16384"
    "length (nicp_pdu_sessions_failed m) < 16384"
  shows "decode_ngap_pdu b = Inr (NInitialContextSetupResponse m)"
  using assms(1) unfolding ngap_encode_initial_context_setup_response_def
proof (rule decode_ngap_pduI, goal_cases)
  case (1 entries)
  have ok: "list_all session_setup_ok (nicp_pdu_sessions_setup m) \<and> length (nicp_pdu_sessions_setup m) < 16384"
    "list_all (\<lambda>_. True) (nicp_pdu_sessions_failed m) \<and> length (nicp_pdu_sessions_failed m) < 16384"
    using assms(2-4) by (simp_all add: list_all_iff)
  note backs = ngap_backs ie_list_back [OF sessions_setup.per_item_axioms ok(1)]
    ie_list_back [OF session_ids.per_item_axioms ok(2)]
  show ?case
    using 1
    by (cases "nicp_pdu_sessions_setup m = []"; cases "nicp_pdu_sessions_failed m = []")
       ((auto simp only: those_Some append.simps if_True if_False not_not simp_thms dest!: backs)?,
        simp add: ngap_procs ngap_decode_initial_context_setup_response_def ngap_icsp_ie_def ngap_ids word_ucast_back)+
qed


section \<open>The encoder does not panic\<close>

lemma ie_location_fits: "ie_fits (ie_location cgi tai) (length cgi + length tai)"
  using length_into_bytes [of "write_user_location_info PerWriter_new cgi tai"]
  by (auto simp: ie_fits_def ie_location_def write_user_location_info_def used_octets ngap_ids ngap_crits)

lemma used_session_to_setup:
  assumes "write_pdu_session_to_setup w e = Some w'" "session_to_setup_ok e"
  shows "used w' \<le> used w + 8 * 27"
proof -
  from assms(1) obtain w1 w2 where w: "write_constrained_int w (ucast (pts_pdu_session_id e)) 0 PDU_SESSION_ID_MAX = Some w1"
      "write_constrained_int w1 (ucast (pts_qfi e)) 0 QFI_MAX = Some w2"
      "w' = write_octets (write_octets (write_align w2) (pts_gtp_teid e)) (pts_transport_layer_addr e)"
    by (auto simp: write_pdu_session_to_setup_def bind_eq_Some_conv)
  then show ?thesis
    using used_constrained_int [OF w(1)] used_constrained_int [OF w(2)] assms(2)
      used_erab_tail [of w2 "pts_gtp_teid e" "pts_transport_layer_addr e"]
    by (simp add: session_to_setup_ok_def)
qed

lemma used_session_setup:
  assumes "write_pdu_session_setup w e = Some w'" "session_setup_ok e"
  shows "used w' \<le> used w + 8 * 18"
proof -
  from assms(1) obtain w1 where w: "write_constrained_int w (ucast (psi_pdu_session_id e)) 0 PDU_SESSION_ID_MAX = Some w1"
      "w' = write_octets (write_octets (write_align w1) (psi_transport_layer_addr e)) (psi_gtp_teid e)"
    by (auto simp: write_pdu_session_setup_def bind_eq_Some_conv)
  then show ?thesis
    using used_constrained_int [OF w(1)] assms(2)
      used_erab_tail [of w1 "psi_transport_layer_addr e" "psi_gtp_teid e"]
    by (simp add: session_setup_ok_def)
qed

lemma used_session_id: "write_pdu_session_id w n = Some w' \<Longrightarrow> used w' \<le> used w + 8 * 9"
  by (auto simp: write_pdu_session_id_def dest!: used_constrained_int)

lemma sessions_to_setup_fits:
  assumes "list_all session_to_setup_ok es" "length es < 16384" "unat i \<le> 65535" "unat crit \<le> 2"
  shows "ie_fits (map_option (\<lambda>w. (i, crit, into_bytes w)) (write_pdu_sessions_to_setup PerWriter_new es))
    (3 + 27 * length es)"
  unfolding write_pdu_sessions_to_setup_def
  by (rule ie_list_fits [OF session_to_setup.list_item])
     (use assms used_session_to_setup in \<open>auto simp: list_all_iff\<close>)

lemma sessions_setup_fits:
  assumes "list_all session_setup_ok es" "length es < 16384" "unat i \<le> 65535" "unat crit \<le> 2"
  shows "ie_fits (map_option (\<lambda>w. (i, crit, into_bytes w)) (write_pdu_sessions_setup PerWriter_new es))
    (3 + 18 * length es)"
  unfolding write_pdu_sessions_setup_def
  by (rule ie_list_fits [OF session_setup.list_item])
     (use assms used_session_setup in \<open>auto simp: list_all_iff\<close>)

lemma session_ids_fits:
  assumes "length is < 16384" "unat i \<le> 65535" "unat crit \<le> 2"
  shows "ie_fits (map_option (\<lambda>w. (i, crit, into_bytes w)) (write_pdu_session_ids PerWriter_new is)) (3 + 9 * length is)"
  unfolding write_pdu_session_ids_def
  by (rule ie_list_fits [OF session_id.list_item])
     (use assms used_session_id in \<open>auto simp: list_all_iff\<close>)

lemma ngap_ambr_fits:
  assumes "fst x \<le> NGAP_BIT_RATE_MAX" "snd x \<le> NGAP_BIT_RATE_MAX" "unat i \<le> 65535" "unat crit \<le> 2"
  shows "ie_fits (map_option (\<lambda>w. (i, crit, into_bytes w))
      (Option.bind (write_constrained_int PerWriter_new (fst x) 0 NGAP_BIT_RATE_MAX)
         (\<lambda>w. write_constrained_int w (snd x) 0 NGAP_BIT_RATE_MAX))) 18"
proof -
  obtain w1 w2 where w: "write_constrained_int PerWriter_new (fst x) 0 NGAP_BIT_RATE_MAX = Some w1"
    "write_constrained_int w1 (snd x) 0 NGAP_BIT_RATE_MAX = Some w2"
    using write_constrained_int_Some assms(1,2) by (metis word_zero_le)
  then show ?thesis
    using used_constrained_int [OF w(1)] used_constrained_int [OF w(2)] assms(3,4)
    by (intro ie_fits_bits [of _ w2 142]) auto
qed

text \<open>
  The messages the codec carries. Both UE identifiers use their full 32 bits, so only the
  establishment cause, the flow identifiers, the bit rates and the sizes are constrained.
\<close>

fun ngap_fits :: "NgapMessage \<Rightarrow> bool" where
  "ngap_fits (NInitialUeMessage m) \<longleftrightarrow> unat (nium_rrc_establishment_cause m) \<le> 15 \<and>
     length (nium_tai m) = 6 \<and> length (nium_nr_cgi m) = 9 \<and> length (nium_nas_pdu m) \<le> 16000"
| "ngap_fits (NUplinkNasTransport m) \<longleftrightarrow>
     length (nunt_tai m) = 6 \<and> length (nunt_nr_cgi m) = 9 \<and> length (nunt_nas_pdu m) \<le> 16000"
| "ngap_fits (NDownlinkNasTransport m) \<longleftrightarrow> length (ndnt_nas_pdu m) \<le> 16000"
| "ngap_fits (NInitialContextSetupRequest m) \<longleftrightarrow>
     fst (nicq_ue_ambr m) \<le> 4000000000000 \<and> snd (nicq_ue_ambr m) \<le> 4000000000000 \<and>
     length (nicq_security_key m) = 32 \<and> list_all session_to_setup_ok (nicq_pdu_sessions m) \<and>
     27 * length (nicq_pdu_sessions m) + (case nicq_nas_pdu m of Some nas \<Rightarrow> length nas | None \<Rightarrow> 0) \<le> 16000"
| "ngap_fits (NInitialContextSetupResponse m) \<longleftrightarrow>
     list_all session_setup_ok (nicp_pdu_sessions_setup m) \<and>
     18 * length (nicp_pdu_sessions_setup m) + 9 * length (nicp_pdu_sessions_failed m) \<le> 16000"
| "ngap_fits (NUeContextReleaseCommand _ _ _) \<longleftrightarrow> True"
| "ngap_fits (NUeContextReleaseComplete _) \<longleftrightarrow> True"
| "ngap_fits _ \<longleftrightarrow> False"

lemma ngap_id_range:
  "(ucast (i :: u32) :: u64) \<le> AMF_UE_NGAP_ID_MAX" "(ucast (i :: u32) :: u64) \<le> RAN_UE_NGAP_ID_MAX"
  using mme_id_range [of i] by (simp_all add: ngap_maxs MME_UE_S1AP_ID_MAX_def)

lemma ngap_rrc_range: "unat (i :: u8) \<le> 15 \<Longrightarrow> (ucast i :: u64) \<le> NGAP_RRC_ESTABLISHMENT_CAUSE_MAX"
  by (simp add: ngap_maxs unat_widen)

lemmas ngap_field_fits = ie_int_fits [OF ngap_id_range(1)] ie_int_fits [OF ngap_id_range(2)]
  ie_int_fits [OF ngap_rrc_range] ie_int_fits [OF ngap_cause_back(2)] ie_octet_string_fits ie_octets_fits

lemma ngap_initial_ue_encodes:
  assumes "ngap_fits (NInitialUeMessage m)"
  shows "\<exists>b. ngap_encode_initial_ue_message m = Some b"
  unfolding ngap_encode_initial_ue_message_def ngap_encode_entries_eq
  by (rule encode_entries_fits [where ns = "[9, 3 + length (nium_nas_pdu m), 9 + 6, 9]"])
     (use assms ie_location_fits [of "nium_nr_cgi m" "nium_tai m"] in
       \<open>simp_all add: ngap_field_fits ngap_ids ngap_crits ngap_procs\<close>)

lemma ngap_uplink_nas_encodes:
  assumes "ngap_fits (NUplinkNasTransport m)"
  shows "\<exists>b. ngap_encode_uplink_nas_transport m = Some b"
  unfolding ngap_encode_uplink_nas_transport_def ngap_encode_entries_eq
  by (rule encode_entries_fits [where ns = "[9, 9, 3 + length (nunt_nas_pdu m), 9 + 6]"])
     (use assms ie_location_fits [of "nunt_nr_cgi m" "nunt_tai m"] in
       \<open>simp_all add: ngap_field_fits ngap_ids ngap_crits ngap_procs\<close>)

lemma ngap_downlink_nas_encodes:
  assumes "ngap_fits (NDownlinkNasTransport m)"
  shows "\<exists>b. ngap_encode_downlink_nas_transport m = Some b"
  unfolding ngap_encode_downlink_nas_transport_def ngap_encode_entries_eq
  by (rule encode_entries_fits [where ns = "[9, 9, 3 + length (ndnt_nas_pdu m)]"])
     (use assms in \<open>simp_all add: ngap_field_fits ngap_ids ngap_crits ngap_procs\<close>)

lemma ngap_release_encodes:
  "\<exists>b. ngap_encode_ue_context_release_command a r c = Some b"
  "\<exists>b. ngap_encode_ue_context_release_complete m = Some b"
  unfolding ngap_encode_ue_context_release_command_def ngap_encode_ue_context_release_complete_def
    ngap_encode_entries_eq
  by (rule encode_entries_fits [where ns = "[9, 9, 9]"] encode_entries_fits [where ns = "[9, 9]"];
      simp add: ngap_field_fits ngap_ids ngap_crits ngap_procs)+

lemma ngap_context_setup_request_encodes:
  assumes "ngap_fits (NInitialContextSetupRequest m)"
  shows "\<exists>b. ngap_encode_initial_context_setup_request m = Some b"
  unfolding ngap_encode_initial_context_setup_request_def ngap_encode_entries_eq
proof (rule encode_entries_fits [where ns = "[9, 9, 32, 18] @
        (if nicq_pdu_sessions m \<noteq> [] then [3 + 27 * length (nicq_pdu_sessions m)] else []) @
        (case nicq_nas_pdu m of Some nas \<Rightarrow> [3 + length nas] | None \<Rightarrow> [])"], goal_cases)
  case 1
  have "fst (nicq_ue_ambr m) \<le> NGAP_BIT_RATE_MAX" "snd (nicq_ue_ambr m) \<le> NGAP_BIT_RATE_MAX"
    using assms by (simp_all add: NGAP_BIT_RATE_MAX_def)
  then show ?case
    using assms ie_octets_fits [of _ _ "nicq_security_key m"]
    by (auto simp: ngap_field_fits ngap_ambr_fits sessions_to_setup_fits ngap_ids ngap_crits
        split: option.splits)
qed (use assms in \<open>auto simp: ngap_procs ngap_crits split: option.splits\<close>)

lemma ngap_context_setup_response_encodes:
  assumes "ngap_fits (NInitialContextSetupResponse m)"
  shows "\<exists>b. ngap_encode_initial_context_setup_response m = Some b"
  unfolding ngap_encode_initial_context_setup_response_def ngap_encode_entries_eq
proof (rule encode_entries_fits [where ns = "[9, 9] @
        (if nicp_pdu_sessions_setup m \<noteq> [] then [3 + 18 * length (nicp_pdu_sessions_setup m)] else []) @
        (if nicp_pdu_sessions_failed m \<noteq> [] then [3 + 9 * length (nicp_pdu_sessions_failed m)] else [])"], goal_cases)
  case 1
  show ?case
    using assms by (auto simp: ngap_field_fits sessions_setup_fits session_ids_fits ngap_ids ngap_crits)
qed (use assms in \<open>auto simp: ngap_procs ngap_crits\<close>)

lemma ngap_fits_roundtrip:
  assumes "ngap_fits m"
  shows "\<exists>b. encode_ngap_pdu m = Some (Inr b) \<and> decode_ngap_pdu b = Inr m"
proof (cases m)
  case (NInitialUeMessage x)
  with assms ngap_initial_ue_encodes [of x] ngap_initial_ue_back [of x] show ?thesis
    by (auto simp: encode_ngap_pdu_def)
next
  case (NUplinkNasTransport x)
  with assms ngap_uplink_nas_encodes [of x] ngap_uplink_nas_back [of x] show ?thesis
    by (auto simp: encode_ngap_pdu_def)
next
  case (NDownlinkNasTransport x)
  with assms ngap_downlink_nas_encodes [of x] ngap_downlink_nas_back [of x] show ?thesis
    by (auto simp: encode_ngap_pdu_def)
next
  case (NInitialContextSetupRequest x)
  with assms ngap_context_setup_request_encodes [of x] ngap_context_setup_request_back [of x] show ?thesis
    by (auto simp: encode_ngap_pdu_def)
next
  case (NInitialContextSetupResponse x)
  with assms ngap_context_setup_response_encodes [of x] ngap_context_setup_response_back [of x] show ?thesis
    by (auto simp: encode_ngap_pdu_def)
next
  case (NUeContextReleaseCommand a r c)
  with ngap_release_encodes(1) [of a r c] ngap_release_command_back [of a r c] show ?thesis
    by (auto simp: encode_ngap_pdu_def)
next
  case (NUeContextReleaseComplete x)
  with ngap_release_encodes(2) [of x] ngap_release_complete_back [of x] show ?thesis
    by (auto simp: encode_ngap_pdu_def)
qed (use assms in auto)

text \<open>
  C17. For every NGAP message the codec supports whose fields are in range, encoding does not
  panic and decoding the bytes returns the message. The two context release messages are among them,
  although the comment at the head of \<open>ngap/codec.rs\<close> says that they are not implemented.
\<close>

theorem decode_ngap_pdu_encode:
  assumes "ngap_fits m"
  shows "\<exists>b. encode_ngap_pdu m = Some (Inr b) \<and> decode_ngap_pdu b = Inr m"
  using assms by (rule ngap_fits_roundtrip)

definition sample_icsr :: NgapMessage where
  "sample_icsr = NInitialContextSetupRequest
     \<lparr>nicq_amf_ue_ngap_id = 4294967295, nicq_ran_ue_ngap_id = 9,
      nicq_pdu_sessions = [\<lparr>pts_pdu_session_id = 1, pts_qfi = 9, pts_gtp_teid = [0, 2, 0, 0],
                            pts_transport_layer_addr = [10, 0, 0, 1]\<rparr>],
      nicq_nas_pdu = Some [0x7E, 0, 0x42], nicq_ue_ambr = (50000000, 50000000),
      nicq_security_key = replicate 32 3\<rparr>"

theorem decode_ngap_pdu_encode_witness:
  "\<exists>b. encode_ngap_pdu sample_icsr = Some (Inr b) \<and> decode_ngap_pdu b = Inr sample_icsr"
  by (rule decode_ngap_pdu_encode) (simp add: sample_icsr_def session_to_setup_ok_def)

end
