(* ===== verification/Amf_Node.thy ===== *)
theory Amf_Node
  imports Amf_Claims Mme_Node Ngap_Roundtrip
begin

text \<open>
  The 5G core as one node: the AMF and the user plane together, as the message loop \<open>run_amf\<close> of
  \<open>crates/midn-sim/src/main.rs\<close> connects them. A PDU from the gNodeB is decoded, processed, its N3
  events are applied to the session manager and the responses are encoded. The theory shows
  that the node answers every PDU and that the two components stay linked in both directions:
  a tunnel has its session and its uplink route, and, as long as the synthesised addresses are
  distinct, a downlink route of its own.
\<close>

section \<open>The node\<close>

fun apply_n3_event :: "aya \<Rightarrow> SessionManager \<Rightarrow> N3Event \<Rightarrow> SessionManager" where
  "apply_n3_event ay sm (N3CreateSession ul_teid entity_id imsi pdu_session_id qfi ue_ip gnb_addr) =
     create_session_with_teid ay sm ul_teid entity_id imsi ue_ip gnb_addr qfi"
| "apply_n3_event ay sm (N3UpdateBearer ul_teid dl_teid gnb_addr) =
     snd (update_bearer_info ay sm ul_teid dl_teid gnb_addr)"
| "apply_n3_event ay sm (N3RemoveSession ul_teid) = snd (remove_session ay sm ul_teid)"

fun ngap_encode_all :: "NgapMessage list \<Rightarrow> bytes list result option" where
  "ngap_encode_all [] = Some (Inr [])"
| "ngap_encode_all (m # ms) =
     (case encode_ngap_pdu m of
        None \<Rightarrow> None
      | Some (Inl e) \<Rightarrow> Some (Inl e)
      | Some (Inr b) \<Rightarrow> map_option (\<lambda>r. bind_res r (\<lambda>bs. Inr (b # bs))) (ngap_encode_all ms))"

text \<open>
  One turn of the loop: a PDU that does not decode is skipped; \<open>None\<close> is a panic; an encoding
  error ends the loop, the left summand.
\<close>

definition amf_node_turn ::
    "crypto \<Rightarrow> aya \<Rightarrow> bytes \<Rightarrow> Amf \<times> SessionManager \<Rightarrow> bytes \<Rightarrow>
     (bytes list \<times> Amf \<times> SessionManager) result option" where
  "amf_node_turn cr ay rand st pdu =
     (case decode_ngap_pdu pdu of
        Inl _ \<Rightarrow> Some (Inr ([], st))
      | Inr msg \<Rightarrow>
          Option.bind (process_ngap cr rand (fst st) msg) (\<lambda>((responses, events), amf).
            let sm = foldl (apply_n3_event ay) (snd st) events in
            map_option (\<lambda>r. bind_res r (\<lambda>outs. Inr (outs, amf, sm))) (ngap_encode_all responses)))"

section \<open>N3 events as user-plane events\<close>

fun upf_event_of :: "N3Event \<Rightarrow> UpfEvent" where
  "upf_event_of (N3CreateSession t i imsi psi qfi ip gnb) = CreateSession t i imsi ip gnb qfi"
| "upf_event_of (N3UpdateBearer t dl gnb) = UpdateBearer t dl gnb"
| "upf_event_of (N3RemoveSession t) = RemoveSession t"

lemma apply_n3_event_upf: "apply_n3_event ay sm e = apply_upf_event ay sm (upf_event_of e)"
  by (cases e) (simp_all add: apply_upf_event.simps)

lemma foldl_apply_n3_event: "foldl (apply_n3_event ay) sm es = foldl (apply_upf_event ay) sm (map upf_event_of es)"
  by (induction es arbitrary: sm) (simp_all add: apply_n3_event_upf)

declare apply_n3_event.simps [simp del]

section \<open>What a message does to the tunnels\<close>

inductive n3_step :: "TeidAllocator \<Rightarrow> World \<Rightarrow> N3Event list \<Rightarrow> World \<Rightarrow> bool" where
  quiet: "teid_of w' = teid_of w \<Longrightarrow> n3_step a w [] w'"
| opened: "t \<notin> teid_used a \<Longrightarrow> teid_of w' = (teid_of w)(i := Some t) \<Longrightarrow>
    n3_step a w [N3CreateSession t i imsi psi qfi (synth_ue_ip i) gnb] w'"
| confirmed: "teid_of w i = Some t \<Longrightarrow> teid_of w' = teid_of w \<Longrightarrow> n3_step a w [N3UpdateBearer t dl gnb] w'"
| closed: "teid_of w i = Some t \<Longrightarrow> teid_of w' = (teid_of w)(i := None) \<Longrightarrow>
    n3_step a w [N3RemoveSession t] w'"

lemma n3_step_tunnel_step: "n3_step a w evts w' \<Longrightarrow> tunnel_step a w (map upf_event_of evts) w'"
  by (induction rule: n3_step.induct) (auto intro: tunnel_step.intros)

lemma keeps_n3_quiet: "keeps_tunnels w w' \<Longrightarrow> n3_step a w [] w'"
  by (simp add: keeps_tunnels_def n3_step.quiet)

lemma amf_security_mode_complete_step:
  assumes wf: "world_wf w" and a: "teid_inv a" "teid_room a"
    and res: "amf_handle_security_mode_complete cr w gnb i upf a = ((out, evts), w', a')"
  shows "n3_step a w evts w'"
proof -
  obtain t b where al: "teid_alloc a = (t, b)" by (cases "teid_alloc a")
  have fresh: "t \<notin> teid_used a" using teid_ids.alloc_fresh(1) [OF a] al by auto
  show ?thesis
    using res fresh al amf_security_mode_complete_world [OF wf]
    unfolding amf_handle_security_mode_complete_def Let_def
    by (auto intro: n3_step.opened n3_step.quiet keeps_n3_quiet split: option.splits prod.splits)
qed

lemma amf_silent_handlers:
  "snd (fst (amf_handle_auth_response w gnb i p)) = []"
  "snd (fst (handle_identity_response cr rand w reg hss gnb i p)) = []"
  by (simp_all add: amf_handle_auth_response_def handle_identity_response_def Let_def
      split: sum.splits Nas5gsPdu.splits option.splits prod.splits)

lemma amf_dispatch_step:
  assumes inv: "amf_inv n m" and n: "amf_room n"
    and res: "amf_dispatch_nas cr rand m gnb i p = ((out, evts), m')"
  shows "n3_step (a_teids m) (a_world m) evts (a_world m')"
proof -
  have wf: "world_wf (a_world m)" using inv by (rule amf_inv_wf)
  have a: "teid_inv (a_teids m)" "teid_room (a_teids m)"
    using inv n by (auto simp: amf_inv_def teid_room_def amf_room_def)
  show ?thesis
    using res amf_silent_handlers(1) [of "a_world m" gnb i p]
      amf_silent_handlers(2) [of cr rand "a_world m" "a_registry m" "a_hss m" gnb i p]
      amf_handle_auth_response_keeps [OF wf, of gnb i p]
      handle_identity_response_keeps [OF wf, of cr rand "a_registry m" "a_hss m" gnb i p]
      handle_deregistration_request_keeps [OF wf, of cr gnb i p] amf_security_mode_complete_step [OF wf a]
    unfolding amf_dispatch_nas_def
    by (auto simp: handle_registration_complete_def intro: keeps_n3_quiet n3_step.quiet
        split: sum.splits Nas5gsPdu.splits prod.splits)
qed

lemma amf_uplink_step:
  assumes inv: "amf_inv n m" and n: "amf_room n"
    and res: "amf_handle_uplink_nas cr rand m gnb i pdu = ((out, evts), m')"
  shows "n3_step (a_teids m) (a_world m) evts (a_world m')"
proof -
  obtain plain w where u: "amf_unwrap_uplink cr (a_world m) i pdu = (plain, w)" by fastforce
  then have k: "keeps_tunnels (a_world m) w"
    using amf_unwrap_uplink_keeps [OF amf_inv_wf [OF inv], of cr i pdu] by simp
  then have inv': "amf_inv n (m\<lparr>a_world := w\<rparr>)" by (rule amf_inv_keeps(2) [OF inv])
  have t: "teid_of w = teid_of (a_world m)" using k by (simp add: keeps_tunnels_def)
  show ?thesis
  proof (cases plain)
    case None
    with res u t show ?thesis by (auto simp: amf_handle_uplink_nas_def intro: n3_step.quiet)
  next
    case (Some p)
    with res u have "amf_dispatch_nas cr rand (m\<lparr>a_world := w\<rparr>) gnb i p = ((out, evts), m')"
      by (simp add: amf_handle_uplink_nas_def)
    then have "n3_step (a_teids m) w evts (a_world m')" using amf_dispatch_step [OF inv' n] by fastforce
    then show ?thesis using t by (cases rule: n3_step.cases) (auto intro: n3_step.intros)
  qed
qed

lemma process_ngap_step:
  assumes inv: "amf_inv n m" and n: "amf_room n"
    and res: "process_ngap cr rand m msg = Some ((out, evts), m')"
  shows "n3_step (a_teids m) (a_world m) evts (a_world m')"
proof (cases msg)
  case (NInitialUeMessage u)
  have "unat (next_id (a_world m)) + 1 < 4294967296" using inv n by (simp add: amf_inv_def amf_room_def)
  from start_registration_keeps [OF amf_inv_wf [OF inv] this]
  obtain o' w' where
    s: "start_registration (a_world m) (nium_ran_ue_ngap_id u) (nium_nas_pdu u) (nium_tai u) = Some (o', w')"
      "teid_of w' = teid_of (a_world m)" "snd o' = []" by metis
  with NInitialUeMessage res show ?thesis by (auto simp: process_ngap_def intro: n3_step.quiet)
next
  case (NUplinkNasTransport u)
  with res show ?thesis using amf_uplink_step [OF inv n] by (auto simp: process_ngap_def)
next
  case (NInitialContextSetupResponse r)
  have wf: "world_wf (a_world m)" by (rule amf_inv_wf [OF inv])
  have "teid_of (tunnel_mut (a_world m) i (\<lambda>t. t\<lparr>tc_dl_teid := d, tc_enb_addr := e\<rparr>)) = teid_of (a_world m)"
    for i d e by (rule teid_of_tunnel_mut [OF wf]) simp
  moreover have "teid_of (a_world m) i = Some (tc_ul_teid tu)" if "tunnel (a_world m) i = Some tu" for i tu
    using tunnel_teid_of [OF wf, of i] that by simp
  ultimately show ?thesis using NInitialContextSetupResponse res
    by (auto simp: process_ngap_def handle_ics_response_def Let_def intro: n3_step.quiet
        intro!: n3_step.confirmed [where i = "nicp_amf_ue_ngap_id r"] split: list.splits option.splits)
next
  case (NUeContextReleaseComplete r)
  let ?i = "ncrc_amf_ue_ngap_id r"
  have wf: "world_wf (a_world m)" by (rule amf_inv_wf [OF inv])
  note td = teid_of_despawn [OF wf, of ?i] and tun = tunnel_teid_of [OF wf, of ?i]
  show ?thesis
  proof (cases "teid_of (a_world m) ?i")
    case None
    with tun have "tunnel (a_world m) ?i = None" by (metis map_option_is_None)
    with None td NUeContextReleaseComplete res show ?thesis
      by (auto simp: process_ngap_def amf_handle_release_complete_def Let_def intro!: n3_step.quiet
          split: option.splits)
  next
    case (Some t)
    with tun obtain tu where "tunnel (a_world m) ?i = Some tu" "tc_ul_teid tu = t" by auto
    with Some td NUeContextReleaseComplete res show ?thesis
      by (auto simp: process_ngap_def amf_handle_release_complete_def Let_def intro!: n3_step.closed
          split: option.splits)
  qed
qed (use res in \<open>auto simp: process_ngap_def intro: n3_step.quiet\<close>)

section \<open>Downlink routes\<close>

definition dl_linked :: "World \<Rightarrow> SessionManager \<Rightarrow> bool" where
  "dl_linked w sm \<longleftrightarrow> (\<forall>i t. teid_of w i = Some t \<longrightarrow>
     (\<exists>e. ul_map (sm_routing sm) t = Some e \<and> re_ue_ip e = synth_ue_ip i \<and>
       dl_map (sm_routing sm) (synth_ue_ip i) = Some e))"

definition few_entities :: "World \<Rightarrow> bool" where
  "few_entities w \<longleftrightarrow> (\<forall>i j t t'. teid_of w i = Some t \<longrightarrow> teid_of w j = Some t' \<longrightarrow>
     synth_ue_ip i = synth_ue_ip j \<longrightarrow> i = j)"

lemma few_entities_bound:
  assumes wf: "world_wf w" and "unat (next_id w) \<le> 65536"
  shows "few_entities w"
proof -
  have "unat i < 65536" if "teid_of w i = Some t" for i t
    using that assms(2) world_shapeD(8) [OF wf]
    by (auto simp: teid_of_def abs_world_def is_live_def bind_eq_Some_conv split: if_splits)
  then show ?thesis
    unfolding few_entities_def using synth_ue_ip_inj by blast
qed

lemma event_dl_map:
  "dl_map (sm_routing (apply_upf_event ay sm e)) =
     (case e of
        CreateSession t i imsi ip enb qci \<Rightarrow> (dl_map (sm_routing sm))(ip \<mapsto> RouteEntry_new ip 0 enb qci)
      | UpdateBearer t dl enb \<Rightarrow>
          (case ul_map (sm_routing sm) t of
             None \<Rightarrow> dl_map (sm_routing sm)
           | Some c \<Rightarrow> (dl_map (sm_routing sm))(re_ue_ip c \<mapsto> RouteEntry_new (re_ue_ip c) dl enb (re_qci c)))
      | RemoveSession t \<Rightarrow>
          (case ul_map (sm_routing sm) t of
             None \<Rightarrow> dl_map (sm_routing sm)
           | Some c \<Rightarrow> (dl_map (sm_routing sm))(re_ue_ip c := None)))"
  by (cases e; cases "sm_bpf sm")
     (auto simp: apply_upf_event.simps create_session_with_teid_def sm_install_def update_bearer_info_def
       remove_session_def lookup_ul_def rt_install_def rt_remove_def Let_def RouteEntry_new_def split: option.splits)

lemma dl_linked_step:
  assumes step: "n3_step a w evts w'" and ok: "tunnels_ok w a" and l: "dl_linked w sm"
    and few: "few_entities w" "few_entities w'"
  shows "dl_linked w' (foldl (apply_n3_event ay) sm evts)"
  using step
proof (cases rule: n3_step.cases)
  case quiet
  with l show ?thesis by (simp add: dl_linked_def)
next
  case (opened t i imsi psi qfi gnb)
  have fresh: "teid_of w j \<noteq> Some t" for j using opened(2) ok by (auto simp: tunnels_ok_def)
  have other: "synth_ue_ip j \<noteq> synth_ue_ip i" if "j \<noteq> i" "teid_of w j = Some t'" for j t'
  proof
    assume "synth_ue_ip j = synth_ue_ip i"
    moreover have "teid_of w' j = Some t'" "teid_of w' i = Some t" using that opened(3) by auto
    ultimately show False using few(2) that(1) unfolding few_entities_def by blast
  qed
  show ?thesis unfolding dl_linked_def
  proof (intro allI impI)
    fix j t' assume j: "teid_of w' j = Some t'"
    show "\<exists>e. ul_map (sm_routing (foldl (apply_n3_event ay) sm evts)) t' = Some e \<and> re_ue_ip e = synth_ue_ip j \<and>
       dl_map (sm_routing (foldl (apply_n3_event ay) sm evts)) (synth_ue_ip j) = Some e"
    proof (cases "j = i")
      case True
      with j opened(1,3) show ?thesis by (simp add: apply_n3_event_upf event_maps event_dl_map RouteEntry_new_def)
    next
      case False
      with j opened(3) have jw: "teid_of w j = Some t'" by simp
      moreover have "t' \<noteq> t" using fresh [of j] jw by auto
      ultimately show ?thesis
        using l opened(1) other [OF False jw] by (auto simp: dl_linked_def apply_n3_event_upf event_maps event_dl_map)
    qed
  qed
next
  case (confirmed i t dl gnb)
  from confirmed(2) l obtain c where c: "ul_map (sm_routing sm) t = Some c" "re_ue_ip c = synth_ue_ip i"
    "dl_map (sm_routing sm) (synth_ue_ip i) = Some c" by (auto simp: dl_linked_def)
  show ?thesis unfolding dl_linked_def
  proof (intro allI impI)
    fix j t' assume "teid_of w' j = Some t'"
    then have j: "teid_of w j = Some t'" using confirmed(3) by simp
    show "\<exists>e. ul_map (sm_routing (foldl (apply_n3_event ay) sm evts)) t' = Some e \<and> re_ue_ip e = synth_ue_ip j \<and>
       dl_map (sm_routing (foldl (apply_n3_event ay) sm evts)) (synth_ue_ip j) = Some e"
    proof (cases "j = i")
      case True
      with j confirmed(1,2) c show ?thesis
        by (simp add: apply_n3_event_upf event_maps event_dl_map RouteEntry_new_def spec_update_def)
    next
      case False
      then have "synth_ue_ip j \<noteq> synth_ue_ip i" using few(1) j confirmed(2) by (auto simp: few_entities_def)
      moreover have "t' \<noteq> t" using False j confirmed(2) ok by (auto simp: tunnels_ok_def)
      moreover obtain e where "ul_map (sm_routing sm) t' = Some e" "re_ue_ip e = synth_ue_ip j"
        "dl_map (sm_routing sm) (synth_ue_ip j) = Some e" using l j by (auto simp: dl_linked_def)
      ultimately show ?thesis using confirmed(1) c
        by (simp add: apply_n3_event_upf event_maps event_dl_map spec_update_def)
    qed
  qed
next
  case (closed i t)
  from closed(2) l obtain c where c: "ul_map (sm_routing sm) t = Some c" "re_ue_ip c = synth_ue_ip i"
    by (auto simp: dl_linked_def)
  show ?thesis unfolding dl_linked_def
  proof (intro allI impI)
    fix j t' assume "teid_of w' j = Some t'"
    then have j: "j \<noteq> i" "teid_of w j = Some t'" using closed(3) by (auto split: if_splits)
    then have "synth_ue_ip j \<noteq> synth_ue_ip i" using few(1) closed(2) by (auto simp: few_entities_def)
    moreover have "t' \<noteq> t" using j closed(2) ok by (auto simp: tunnels_ok_def)
    moreover obtain e where "ul_map (sm_routing sm) t' = Some e" "re_ue_ip e = synth_ue_ip j"
      "dl_map (sm_routing sm) (synth_ue_ip j) = Some e" using l j by (auto simp: dl_linked_def)
    ultimately show "\<exists>e. ul_map (sm_routing (foldl (apply_n3_event ay) sm evts)) t' = Some e \<and> re_ue_ip e = synth_ue_ip j \<and>
       dl_map (sm_routing (foldl (apply_n3_event ay) sm evts)) (synth_ue_ip j) = Some e"
      using closed(1) c by (simp add: apply_n3_event_upf event_maps event_dl_map)
  qed
qed

section \<open>The node answers every PDU\<close>

lemma length_encode_protected_5g:
  "encode_protected_5g cr sht c p = (x, c') \<Longrightarrow> ctr_stream cr \<Longrightarrow> length x \<le> 7 + length p"
  by (auto simp: encode_protected_5g_def protect_downlink_5g_def envelope_5g_def protect_5g_def Let_def
      eea2_apply_def eia2_compute_mac_def ctr_stream_length)

lemma length_auth_request_5g:
  "length (encode_auth_request_5g k rand tok) = 6 + length rand + length tok"
  by (simp add: encode_auth_request_5g_def write_lv_def header_5g_def)

lemma length_registration_accept: "length (encode_registration_accept r (placeholder_guti i) []) = 17"
  by (simp add: encode_registration_accept_def write_lv_def header_5g_def)

lemma start_registration_fits:
  "start_registration w gnb pdu tai = Some (out, w') \<Longrightarrow> list_all ngap_fits (fst out)"
  by (auto simp: start_registration_def Let_def encode_identity_request_def header_5g_def
      split: sum.splits Nas5gsPdu.splits option.splits prod.splits if_splits)

lemma identity_response_fits:
  assumes "aes_len cr" "hss_wf hss" "length rand = 16"
  shows "list_all ngap_fits (fst (fst (handle_identity_response cr rand w reg hss gnb i p)))"
proof -
  have tok: "length (autn (milenage_compute cr (sr_ctx sub) rand (Sqn_to_bytes q) [0x80, 0x00]) (Sqn_to_bytes q)
      MILENAGE_AMF_FIELD) \<le> 16"
    if "hss imsi = Some sub" for imsi sub q
    using that assms length_milenage_compute [of cr rand "sr_ctx sub" "Sqn_to_bytes q" "[0x80, 0x00]"]
    by (simp add: autn_def MILENAGE_AMF_FIELD_def hss_wf_def)
  have "list_all ngap_fits (fst (fst (handle_identity_response cr rand w reg hss gnb i p)))"
    if "decode_nas5gs p = Inr (IdentityResponse q)" "ir_suci q = Some s" "resolve_suci_to_imsi s = Some imsi" for q s imsi
  proof (cases "hss imsi")
    case None
    then have "generate_auth_vector cr rand hss imsi = (None, hss)" by (simp add: generate_auth_vector_def)
    with that show ?thesis by (simp add: handle_identity_response_def)
  next
    case (Some sub)
    from that tok [OF Some, of "sr_sqn sub"] assms(3) show ?thesis
      by (simp add: handle_identity_response_def Let_def generate_auth_vector_Some [of hss imsi sub, OF Some]
          length_auth_request_5g split: option.splits)
  qed
  then show ?thesis
    by (auto simp: handle_identity_response_def split: sum.splits Nas5gsPdu.splits option.splits)
qed

lemma security_mode_complete_fits:
  assumes cr: "ctr_stream cr" "hmac_len cr" and upf: "\<And>a. upf = Some a \<Longrightarrow> length a = 4"
  shows "list_all ngap_fits (fst (fst (amf_handle_security_mode_complete cr w gnb i upf a)))"
proof -
  have l: "length y \<le> 24" if "encode_protected_5g cr NAS5GS_SHT_INTEGRITY_CIPHERED c
      (encode_registration_accept 1 (placeholder_guti i) []) = (y, c')" for c y c'
    using length_encode_protected_5g [OF that cr(1)] by (simp add: length_registration_accept)
  have k: "length (derive_kamf cr a b c) = 32" for a b c
    using length_kdf_generic [OF cr(2)] by (simp add: derive_kamf_def)
  show ?thesis
    using k upf
    by (auto simp: amf_handle_security_mode_complete_def Let_def session_to_setup_ok_def DEFAULT_QFI_def
        split: option.splits prod.splits dest!: l)
qed

lemma amf_dispatch_fits:
  assumes cr: "ctr_stream cr" "hmac_len cr" "aes_len cr" and h: "hss_wf (a_hss m)" "length rand = 16"
    and upf: "\<And>a. a_phase_b_upf m = Some a \<Longrightarrow> length a = 4"
  shows "list_all ngap_fits (fst (fst (amf_dispatch_nas cr rand m gnb i p)))"
proof -
  have auth: "list_all ngap_fits (fst (fst (amf_handle_auth_response w gnb i p)))" for w
    by (simp add: amf_handle_auth_response_def Let_def encode_sec_mode_cmd_5g_def write_lv_def header_5g_def
        split: sum.splits Nas5gsPdu.splits option.splits)
  have det: "list_all ngap_fits (fst (handle_deregistration_request cr w gnb i p))" for w
    using cr(1) length_encode_protected_5g [of cr NAS5GS_SHT_INTEGRITY_CIPHERED _ encode_deregistration_accept]
    by (fastforce simp: handle_deregistration_request_def Let_def encode_deregistration_accept_def header_5g_def
        split: sum.splits Nas5gsPdu.splits option.splits prod.splits if_splits)
  show ?thesis
    using auth [of "a_world m"] det [of "a_world m"]
      security_mode_complete_fits [OF cr(1,2), of "a_phase_b_upf m" "a_world m" gnb i "a_teids m", OF upf]
      identity_response_fits [OF cr(3) h, of "a_world m" "a_registry m" gnb i p]
    by (auto simp: amf_dispatch_nas_def handle_registration_complete_def
        split: sum.splits Nas5gsPdu.splits prod.splits)
qed

lemma process_ngap_fits:
  assumes cr: "ctr_stream cr" "hmac_len cr" "aes_len cr" and h: "hss_wf (a_hss m)" "length rand = 16"
    and upf: "\<And>a. a_phase_b_upf m = Some a \<Longrightarrow> length a = 4"
    and res: "process_ngap cr rand m msg = Some ((out, evts), m')"
  shows "list_all ngap_fits out"
proof (cases msg)
  case (NInitialUeMessage u)
  with res start_registration_fits show ?thesis by (fastforce simp: process_ngap_def)
next
  case (NUplinkNasTransport u)
  have "list_all ngap_fits (fst (fst (amf_dispatch_nas cr rand (m\<lparr>a_world := w\<rparr>) gnb i p)))" for w gnb i p
    using h upf by (intro amf_dispatch_fits [OF cr]) simp_all
  with res NUplinkNasTransport show ?thesis
    by (auto simp: process_ngap_def amf_handle_uplink_nas_def Let_def split: option.splits prod.splits) (metis fst_conv)
qed (use res in \<open>auto simp: process_ngap_def handle_ics_response_def amf_handle_release_complete_def Let_def
    split: list.splits option.splits\<close>)

lemma ngap_encode_all_fits:
  "list_all ngap_fits ms \<Longrightarrow> \<exists>bs. ngap_encode_all ms = Some (Inr bs) \<and> map decode_ngap_pdu bs = map Inr ms"
proof (induction ms)
  case (Cons m ms)
  then obtain b bs where "encode_ngap_pdu m = Some (Inr b)" "decode_ngap_pdu b = Inr m"
    "ngap_encode_all ms = Some (Inr bs)" "map decode_ngap_pdu bs = map Inr ms"
    using ngap_fits_roundtrip [of m] by auto
  then show ?case by simp
qed simp

section \<open>Runs of the node\<close>

definition amf_node_inv :: "nat \<Rightarrow> Amf \<times> SessionManager \<Rightarrow> bool" where
  "amf_node_inv n st \<longleftrightarrow> amf_inv n (fst st) \<and> hss_wf (a_hss (fst st)) \<and>
     (\<forall>a. a_phase_b_upf (fst st) = Some a \<longrightarrow> length a = 4) \<and>
     sm_agree (snd st) \<and> linked (a_world (fst st)) (snd st) \<and>
     (n \<le> 65536 \<longrightarrow> dl_linked (a_world (fst st)) (snd st))"

lemma identity_response_hss:
  "hss_wf hss \<Longrightarrow> hss_wf (snd (snd (snd (handle_identity_response cr rand w reg hss gnb i p))))"
  using hss_wf_generate [of hss cr rand]
  by (auto simp: handle_identity_response_def Let_def
      split: sum.splits Nas5gsPdu.splits option.splits prod.splits) (metis snd_conv)+

lemma amf_dispatch_hss:
  "hss_wf (a_hss m) \<Longrightarrow> hss_wf (a_hss (snd (amf_dispatch_nas cr rand m gnb i p)))"
  "a_phase_b_upf (snd (amf_dispatch_nas cr rand m gnb i p)) = a_phase_b_upf m"
  using identity_response_hss [of "a_hss m" cr rand "a_world m" "a_registry m" gnb i p]
  by (auto simp: amf_dispatch_nas_def split: sum.splits Nas5gsPdu.splits prod.splits)

lemma process_ngap_hss:
  assumes "process_ngap cr rand m msg = Some (out, m')" "hss_wf (a_hss m)"
  shows "hss_wf (a_hss m') \<and> a_phase_b_upf m' = a_phase_b_upf m"
proof (cases msg)
  case (NUplinkNasTransport u)
  have "hss_wf (a_hss (snd (amf_dispatch_nas cr rand (m\<lparr>a_world := w\<rparr>) gnb i p))) \<and>
      a_phase_b_upf (snd (amf_dispatch_nas cr rand (m\<lparr>a_world := w\<rparr>) gnb i p)) = a_phase_b_upf m" for w gnb i p
    using amf_dispatch_hss [where m = "m\<lparr>a_world := w\<rparr>"] assms(2) by simp
  with assms NUplinkNasTransport show ?thesis
    by (auto simp: process_ngap_def amf_handle_uplink_nas_def Let_def split: option.splits prod.splits)
       (metis snd_conv)+
qed (use assms in \<open>auto simp: process_ngap_def handle_ics_response_def amf_handle_release_complete_def Let_def
    split: list.splits option.splits\<close>)

lemma amf_few_entities: "amf_inv n m \<Longrightarrow> n \<le> 65536 \<Longrightarrow> few_entities (a_world m)"
  by (rule few_entities_bound) (simp_all add: amf_inv_def)

lemma amf_node_events:
  assumes inv: "amf_node_inv n st" and n: "amf_room n"
    and p: "process_ngap cr rand (fst st) msg = Some ((out, evts), m')"
  shows "amf_node_inv (Suc n) (m', foldl (apply_n3_event ay) (snd st) evts)"
proof -
  let ?sm = "foldl (apply_n3_event ay) (snd st) evts"
  have m: "amf_inv n (fst st)" and l: "linked (a_world (fst st)) (snd st)" using inv by (simp_all add: amf_node_inv_def)
  have m': "amf_inv (Suc n) m'" using process_ngap_inv [OF m n, of cr rand msg] p by auto
  have ok: "tunnels_ok (a_world (fst st)) (a_teids (fst st))" using m by (simp add: amf_inv_def)
  have step: "n3_step (a_teids (fst st)) (a_world (fst st)) evts (a_world m')"
    by (rule process_ngap_step [OF m n p])
  have "linked (a_world m') ?sm"
    unfolding foldl_apply_n3_event by (rule linked_step [OF n3_step_tunnel_step [OF step] ok l])
  moreover have "sm_agree ?sm"
    unfolding foldl_apply_n3_event
    by (rule foldl_keeps [where P = sm_agree]) (use inv in \<open>simp_all add: amf_node_inv_def sm_agree_event\<close>)
  moreover have "dl_linked (a_world m') ?sm" if "Suc n \<le> 65536"
  proof (rule dl_linked_step [OF step ok])
    show "dl_linked (a_world (fst st)) (snd st)" using inv that by (simp add: amf_node_inv_def)
  qed (use that m m' amf_few_entities in \<open>auto intro: amf_few_entities [of n]\<close>)
  moreover have "hss_wf (a_hss m') \<and> a_phase_b_upf m' = a_phase_b_upf (fst st)"
    using process_ngap_hss [OF p] inv by (simp add: amf_node_inv_def)
  ultimately show ?thesis using m' inv by (simp add: amf_node_inv_def)
qed

lemma amf_node_turn_ok:
  assumes cr: "ctr_stream cr" "hmac_len cr" "aes_len cr" and inv: "amf_node_inv n st"
    and n: "amf_room n" and rand: "length rand = 16"
  shows "\<exists>outs st'. amf_node_turn cr ay rand st pdu = Some (Inr (outs, st')) \<and> amf_node_inv (Suc n) st'"
proof (cases "decode_ngap_pdu pdu")
  case (Inl e)
  then show ?thesis using inv amf_inv_mono [of n "fst st"] by (auto simp: amf_node_turn_def amf_node_inv_def)
next
  case (Inr msg)
  have m: "amf_inv n (fst st)" using inv by (simp add: amf_node_inv_def)
  obtain out evts m' where p: "process_ngap cr rand (fst st) msg = Some ((out, evts), m')"
    using process_ngap_inv [OF m n, of cr rand msg] by auto
  have "list_all ngap_fits out"
    using process_ngap_fits [OF cr _ rand _ p] inv by (simp add: amf_node_inv_def)
  then obtain bs where "ngap_encode_all out = Some (Inr bs)" using ngap_encode_all_fits by blast
  with Inr p amf_node_events [OF inv n p] show ?thesis by (simp add: amf_node_turn_def Let_def)
qed

text \<open>A sequence of PDUs, each with the challenge available while it is processed.\<close>

fun amf_node_run ::
    "crypto \<Rightarrow> aya \<Rightarrow> Amf \<times> SessionManager \<Rightarrow> (bytes \<times> bytes) list \<Rightarrow> (bytes list list \<times> Amf \<times> SessionManager) option" where
  "amf_node_run cr ay st [] = Some ([], st)"
| "amf_node_run cr ay st ((rand, pdu) # inputs) =
     (case amf_node_turn cr ay rand st pdu of
        Some (Inr (outs, st)) \<Rightarrow> map_option (\<lambda>(rest, st). (outs # rest, st)) (amf_node_run cr ay st inputs)
      | _ \<Rightarrow> None)"

lemma amf_node_run_inv:
  assumes cr: "ctr_stream cr" "hmac_len cr" "aes_len cr"
  shows "amf_node_inv n st \<Longrightarrow> n + length inputs < 4294967296 - 0x20000 \<Longrightarrow>
    list_all (\<lambda>(r, _). length r = 16) inputs \<Longrightarrow>
    \<exists>outs st'. amf_node_run cr ay st inputs = Some (outs, st') \<and> amf_node_inv (n + length inputs) st'"
proof (induction inputs arbitrary: n st)
  case (Cons x inputs)
  obtain rand pdu where x: "x = (rand, pdu)" by (cases x)
  obtain outs st1 where t: "amf_node_turn cr ay rand st pdu = Some (Inr (outs, st1))" "amf_node_inv (Suc n) st1"
    using amf_node_turn_ok [OF cr Cons.prems(1), of rand ay pdu] Cons.prems(2,3) x by (auto simp: amf_room_def)
  obtain rest st' where "amf_node_run cr ay st1 inputs = Some (rest, st')" "amf_node_inv (Suc n + length inputs) st'"
    using Cons.IH [OF t(2)] Cons.prems(2,3) by auto
  with t(1) x show ?case by simp
qed simp

lemma amf_node_inv_start:
  assumes "hss_wf hss" "length addr = 4"
  shows "amf_node_inv 0 (start_amf (Some addr) hss, SessionManager_new)"
  using assms amf_inv_start [where upf = "Some addr" and hss = hss]
  by (simp add: amf_node_inv_def Amf_new_def linked_def dl_linked_def teid_of_def)

text \<open>
  C7. The 5G node answers any sequence of PDUs the gNodeB may send, however malformed, below the
  limit of the identifier counters: no message makes it panic or fail to encode an answer.
  Afterwards the session records and the routes of the user plane agree, and the tunnel of
  every live subscriber has its user-plane session, recorded for that subscriber, with a route
  for its uplink packets. For the first 65536 messages the subscriber's address is its own and
  the downlink route under it is the route of that tunnel.
\<close>

theorem amf_node_run_linked:
  assumes "ctr_stream cr" "hmac_len cr" "aes_len cr" "hss_wf hss" "length addr = 4"
    and "length inputs < 4294967296 - 0x20000" "list_all (\<lambda>(rand, pdu). length rand = 16) inputs"
  shows "\<exists>outs m sm. amf_node_run cr ay (start_amf (Some addr) hss, SessionManager_new) inputs = Some (outs, m, sm) \<and>
    (\<forall>t. rel_option (session_of t) (lookup_ul (sm_routing sm) t) (get_session sm t)) \<and>
    (\<forall>i t. teid_of (a_world m) i = Some t \<longrightarrow>
       (\<exists>s e. get_session sm t = Some s \<and> ups_entity_id s = i \<and> lookup_ul (sm_routing sm) t = Some e \<and>
         (length inputs \<le> 65536 \<longrightarrow>
           ups_ue_ip s = synth_ue_ip i \<and> lookup_dl (sm_routing sm) (synth_ue_ip i) = Some e)))"
proof -
  obtain outs m sm where r: "amf_node_run cr ay (start_amf (Some addr) hss, SessionManager_new) inputs = Some (outs, m, sm)"
    and inv: "amf_node_inv (0 + length inputs) (m, sm)"
    using amf_node_run_inv [OF assms(1-3) amf_node_inv_start [OF assms(4,5)], of inputs ay] assms(6,7) by auto
  have agree: "rel_option (session_of t) (lookup_ul (sm_routing sm) t) (get_session sm t)" for t
    using inv by (simp add: amf_node_inv_def sm_agree_def lookup_ul_def get_session_def)
  have "\<exists>s e. get_session sm t = Some s \<and> ups_entity_id s = i \<and> lookup_ul (sm_routing sm) t = Some e \<and>
      (length inputs \<le> 65536 \<longrightarrow> ups_ue_ip s = synth_ue_ip i \<and> lookup_dl (sm_routing sm) (synth_ue_ip i) = Some e)"
    if t: "teid_of (a_world m) i = Some t" for i t
  proof -
    obtain s e where s: "get_session sm t = Some s" "ups_entity_id s = i" "lookup_ul (sm_routing sm) t = Some e"
    proof -
      have "linked (a_world m) sm" using inv by (simp add: amf_node_inv_def)
      then show ?thesis using t that unfolding linked_def get_session_def by blast
    qed
    have "ups_ue_ip s = re_ue_ip e" using agree [of t] s by (simp add: session_of_def)
    moreover have "re_ue_ip e = synth_ue_ip i \<and> lookup_dl (sm_routing sm) (synth_ue_ip i) = Some e"
      if "length inputs \<le> 65536"
    proof -
      have "dl_linked (a_world m) sm" using inv that by (simp add: amf_node_inv_def)
      then show ?thesis using t s(3) unfolding dl_linked_def lookup_dl_def lookup_ul_def by fastforce
    qed
    ultimately show ?thesis using s by auto
  qed
  with r agree show ?thesis by blast
qed

theorem amf_node_run_linked_witness:
  "\<exists>outs m sm. amf_node_run sample_crypto sample_aya (start_amf (Some [10, 0, 0, 1])
      (provision Hss_new 1 (replicate 16 1) (replicate 16 2)), SessionManager_new)
      [(replicate 16 7, [0, 12, 64, 0])] = Some (outs, m, sm) \<and>
    (\<forall>t. rel_option (session_of t) (lookup_ul (sm_routing sm) t) (get_session sm t)) \<and>
    (\<forall>i t. teid_of (a_world m) i = Some t \<longrightarrow>
       (\<exists>s e. get_session sm t = Some s \<and> ups_entity_id s = i \<and> lookup_ul (sm_routing sm) t = Some e \<and>
         (length [(replicate 16 (7 :: u8), [0, 12, 64, 0 :: u8])] \<le> 65536 \<longrightarrow>
           ups_ue_ip s = synth_ue_ip i \<and> lookup_dl (sm_routing sm) (synth_ue_ip i) = Some e)))"
  by (rule amf_node_run_linked [OF sample_crypto_ok(1,3,4)]) (simp_all add: hss_wf_provision)

end
