(* ===== verification/Ue_Sim.thy ===== *)
theory Ue_Sim
  imports Amf_Node
begin

text \<open>
  The subscriber and gNodeB side of \<open>crates/midn-sim/src/main.rs\<close>: \<open>run_one_ue\<close> as a state machine
  over the NGAP messages it receives, the user-plane check \<open>user_plane_round_trip\<close> over the
  replies it gets, the demultiplexer of downlink packets, and the echo the simulated UPF
  answers uplink packets with. A turn of the UE yields the messages it sends; \<open>send_initial\<close>
  and \<open>send_uplink\<close> encode a message before queueing it, which is left to the composition
  in the next theory. The key and OPc of the USIM, constants of the source given as
  hexadecimal text, are an argument. Printing is not modelled.
\<close>

section \<open>Constants\<close>

definition TEST_IMSI :: u64 where "TEST_IMSI = 901700000001"
definition TEST_PLMN :: bytes where "TEST_PLMN = [0x00, 0x11, 0x22]"
definition TEST_TAI :: bytes where "TEST_TAI = [0x00, 0x11, 0x22, 0x00, 0x00, 0x01]"
definition RAN_UE_NGAP_ID_BASE :: u32 where "RAN_UE_NGAP_ID_BASE = 7"
definition MOCK_DL_TEID_BASE :: u32 where "MOCK_DL_TEID_BASE = 0xAABBCCDD"

definition SIM_PAYLOAD :: bytes where
  "SIM_PAYLOAD = map of_char ''real user data over a real GTP-U tunnel''"

section \<open>Messages\<close>

definition ran_ue_ngap_id_of :: "NgapMessage \<Rightarrow> u32 option" where
  "ran_ue_ngap_id_of msg =
     (case msg of
        NDownlinkNasTransport dl \<Rightarrow> Some (ndnt_ran_ue_ngap_id dl)
      | NInitialContextSetupRequest icsr \<Rightarrow> Some (nicq_ran_ue_ngap_id icsr)
      | NUeContextReleaseCommand _ ran_ue_ngap_id _ \<Rightarrow> Some ran_ue_ngap_id
      | _ \<Rightarrow> None)"

definition suci_for_imsi :: "u64 \<Rightarrow> Suci" where
  "suci_for_imsi imsi =
     \<lparr>mcc = [0, 0, 0], mnc = [0, 0, 0], routing_indicator = 0, protection_scheme = 0,
      home_network_pki = 0, msin = drop 3 (to_be64 imsi)\<rparr>"

definition send_initial :: "u32 \<Rightarrow> bytes \<Rightarrow> NgapMessage" where
  "send_initial ran_ue_ngap_id nas_pdu = NInitialUeMessage
     \<lparr>nium_ran_ue_ngap_id = ran_ue_ngap_id, nium_nas_pdu = nas_pdu, nium_tai = TEST_TAI,
      nium_nr_cgi = replicate 9 0, nium_rrc_establishment_cause = 0\<rparr>"

definition send_uplink :: "u32 \<Rightarrow> u32 \<Rightarrow> bytes \<Rightarrow> NgapMessage" where
  "send_uplink amf_ue_ngap_id ran_ue_ngap_id nas_pdu = NUplinkNasTransport
     \<lparr>nunt_amf_ue_ngap_id = amf_ue_ngap_id, nunt_ran_ue_ngap_id = ran_ue_ngap_id,
      nunt_nas_pdu = nas_pdu, nunt_tai = TEST_TAI, nunt_nr_cgi = replicate 9 0\<rparr>"

section \<open>The UE\<close>

text \<open>
  The arguments of \<open>run_one_ue\<close> and the variables of its loop. A turn continues the loop, starts
  the user-plane check with the address and TEID it was given (and the AMF's identifier, a local
  variable that outlives the check), ends, or fails.
\<close>

record UeState =
  ue_ran_id :: u32
  ue_dl_teid :: u32
  ue_imsi :: u64
  ue_my_ip :: bytes
  ue_amf_id :: "u32 option"
  ue_kamf :: "bytes option"

datatype UeError = UeDecode ProtoError | UeReason string

datatype UeOutcome =
    UeContinue UeState "NgapMessage list"
  | UeRoundTrip UeState "NgapMessage list" u32 bytes u32
  | UeDone "NgapMessage list"
  | UeFailed UeError

definition ue_start :: "UeState \<Rightarrow> NgapMessage" where
  "ue_start ue = send_initial (ue_ran_id ue) (encode_registration_request 1 0 None 0x00C0)"

definition get_or_insert :: "u32 option \<Rightarrow> u32 \<Rightarrow> u32" where
  "get_or_insert a v = (case a of Some x \<Rightarrow> x | None \<Rightarrow> v)"

text \<open>The answer to an authentication request: RES* and the key KAMF.\<close>

definition ue_authenticate :: "crypto \<Rightarrow> MilenageContext \<Rightarrow> u64 \<Rightarrow> bytes \<Rightarrow> bytes \<times> bytes" where
  "ue_authenticate cr usim imsi rand =
     (let sqn_used = replicate 6 0;
          vec = generate_vector_with_rand cr usim (Sqn_from_bytes sqn_used) [0x80, 0x00] rand;
          snn = serving_network_name TEST_PLMN;
          res_star = derive_res_star cr (av_ck vec) (av_ik vec) snn rand (av_res vec);
          sqn_xor_ak = xor_bytes sqn_used (av_ak vec);
          kausf = derive_kausf cr (av_ck vec) (av_ik vec) snn sqn_xor_ak;
          kseaf = derive_kseaf cr kausf snn
      in (res_star, derive_kamf cr kseaf (supi_of imsi) [0x00, 0x00]))"

definition ue_downlink_nas :: "crypto \<Rightarrow> MilenageContext \<Rightarrow> UeState \<Rightarrow> NgapDownlinkNasTransport \<Rightarrow> UeOutcome" where
  "ue_downlink_nas cr usim ue dl =
     (let amf = get_or_insert (ue_amf_id ue) (ndnt_amf_ue_ngap_id dl);
          ue = ue\<lparr>ue_amf_id := Some amf\<rparr>;
          nas_pdu = ndnt_nas_pdu dl;
          sht = (if length nas_pdu \<le> 1 then 0 else nas_pdu ! 1 AND 0x0F)
      in if sht \<noteq> NAS5GS_SHT_PLAIN then
           (case ue_kamf ue of
              None \<Rightarrow> UeFailed (UeReason ''received a protected PDU before KAMF was derived'')
            | Some kamf \<Rightarrow>
                (case fst (decode_protected_downlink_5g cr (Nas5gsSecurityContext_new cr kamf 2 2) nas_pdu) of
                   None \<Rightarrow> UeFailed (UeReason ''failed to decrypt/verify DeregistrationAccept'')
                 | Some plain \<Rightarrow>
                     (case decode_nas5gs plain of
                        Inl e \<Rightarrow> UeFailed (UeDecode e)
                      | Inr DeregistrationAccept \<Rightarrow> UeContinue ue []
                      | Inr _ \<Rightarrow> UeFailed (UeReason ''expected DeregistrationAccept''))))
         else
           (case decode_nas5gs nas_pdu of
              Inl e \<Rightarrow> UeFailed (UeDecode e)
            | Inr (IdentityRequest _) \<Rightarrow>
                UeContinue ue [send_uplink amf (ue_ran_id ue)
                  (encode_identity_response_suci (suci_for_imsi (ue_imsi ue)))]
            | Inr (AuthenticationRequest5g req) \<Rightarrow>
                let (res_star, kamf) = ue_authenticate cr usim (ue_imsi ue) (aq5_rand req) in
                UeContinue (ue\<lparr>ue_kamf := Some kamf\<rparr>)
                  [send_uplink amf (ue_ran_id ue) (encode_auth_response_5g res_star)]
            | Inr (SecurityModeCommand5g _) \<Rightarrow>
                UeContinue ue [send_uplink amf (ue_ran_id ue) encode_sec_mode_complete_5g]
            | Inr _ \<Rightarrow> UeFailed (UeReason ''unexpected plain NAS PDU'')))"

text \<open>
  The context setup: both answers are sent before the user-plane check starts, and the request
  to deregister after it succeeded.
\<close>

definition ue_context_setup :: "crypto \<Rightarrow> UeState \<Rightarrow> NgapInitialContextSetupRequest \<Rightarrow> UeOutcome" where
  "ue_context_setup cr ue icsr =
     (let amf = get_or_insert (ue_amf_id ue) (nicq_amf_ue_ngap_id icsr);
          ue = ue\<lparr>ue_amf_id := Some amf\<rparr>
      in case ue_kamf ue of
           None \<Rightarrow> UeFailed (UeReason ''received InitialContextSetupRequest before KAMF was derived'')
         | Some kamf \<Rightarrow>
             (case nicq_nas_pdu icsr of
                None \<Rightarrow> UeFailed (UeReason ''InitialContextSetupRequest with no piggybacked NAS PDU'')
              | Some nas_pdu \<Rightarrow>
                  (case fst (decode_protected_downlink_5g cr (Nas5gsSecurityContext_new cr kamf 2 2) nas_pdu) of
                     None \<Rightarrow> UeFailed (UeReason ''failed to decrypt/verify RegistrationAccept'')
                   | Some plain \<Rightarrow>
                       (case decode_nas5gs plain of
                          Inl e \<Rightarrow> UeFailed (UeDecode e)
                        | Inr (RegistrationAccept acc) \<Rightarrow>
                            (case nicq_pdu_sessions icsr of
                               [] \<Rightarrow> UeFailed (UeReason ''InitialContextSetupRequest with no PDU session to set up'')
                             | s # _ \<Rightarrow>
                                 let icrsp = NInitialContextSetupResponse
                                       \<lparr>nicp_amf_ue_ngap_id = amf, nicp_ran_ue_ngap_id = ue_ran_id ue,
                                        nicp_pdu_sessions_setup =
                                          [\<lparr>psi_pdu_session_id = pts_pdu_session_id s,
                                            psi_transport_layer_addr = ue_my_ip ue,
                                            psi_gtp_teid = to_be32 (ue_dl_teid ue)\<rparr>],
                                        nicp_pdu_sessions_failed = []\<rparr>
                                 in UeRoundTrip ue
                                      [icrsp, send_uplink amf (ue_ran_id ue) encode_registration_complete]
                                      amf (pts_transport_layer_addr s) (from_be (pts_gtp_teid s)))
                        | Inr _ \<Rightarrow> UeFailed (UeReason ''expected RegistrationAccept'')))))"

definition ue_after_round_trip :: "UeState \<Rightarrow> u32 \<Rightarrow> UeOutcome" where
  "ue_after_round_trip ue amf =
     UeContinue ue [send_uplink amf (ue_ran_id ue) (encode_deregistration_request False)]"

definition ue_turn :: "crypto \<Rightarrow> MilenageContext \<Rightarrow> UeState \<Rightarrow> NgapMessage \<Rightarrow> UeOutcome" where
  "ue_turn cr usim ue msg =
     (if ran_ue_ngap_id_of msg \<noteq> None \<and> ran_ue_ngap_id_of msg \<noteq> Some (ue_ran_id ue)
      then UeFailed (UeReason ''dispatcher routed to the wrong UE task'')
      else
        (case msg of
           NDownlinkNasTransport dl \<Rightarrow> ue_downlink_nas cr usim ue dl
         | NInitialContextSetupRequest icsr \<Rightarrow> ue_context_setup cr ue icsr
         | NUeContextReleaseCommand cmd_amf_id cmd_ran_id _ \<Rightarrow>
             UeDone [NUeContextReleaseComplete
               \<lparr>ncrc_amf_ue_ngap_id = cmd_amf_id, ncrc_ran_ue_ngap_id = cmd_ran_id\<rparr>]
         | _ \<Rightarrow> UeFailed (UeReason ''unexpected NGAP message from AMF'')))"

section \<open>The user plane\<close>

definition sim_gpdu :: "u32 \<Rightarrow> bytes" where
  "sim_gpdu ul_teid = to_bytes (new_gpdu ul_teid (of_nat (length SIM_PAYLOAD))) @ SIM_PAYLOAD"

text \<open>
  The check over the replies to its attempts, \<open>None\<close> where the wait timed out: the first reply
  decides, and after five attempts without one it fails.
\<close>

fun round_trip_attempts :: "bytes option list \<Rightarrow> string + unit" where
  "round_trip_attempts [] = Inl ''no DL G-PDU echo received after 5 attempts''"
| "round_trip_attempts (None # rs) = round_trip_attempts rs"
| "round_trip_attempts (Some dl_payload # rs) =
     (if dl_payload \<noteq> SIM_PAYLOAD then Inl ''DL G-PDU payload mismatch'' else Inr ())"

definition user_plane_round_trip :: "bytes option list \<Rightarrow> string + unit" where
  "user_plane_round_trip replies = round_trip_attempts (take 5 replies)"

text \<open>The receive buffer of the demultiplexer has 512 bytes; a longer datagram is cut.\<close>

definition gtp_demux :: "(u32 \<rightharpoonup> 'q) \<Rightarrow> bytes \<Rightarrow> ('q \<times> bytes) option" where
  "gtp_demux dl_routes dgram =
     (case GtpuHeader_parse (take 512 dgram) of
        None \<Rightarrow> None
      | Some (dl_hdr, dl_payload) \<Rightarrow> map_option (\<lambda>q. (q, dl_payload)) (dl_routes (teid dl_hdr)))"

text \<open>The UPF's answer to an uplink datagram: forwarding, the echo task, and the send loop.\<close>

definition upf_echo :: "RoutingTable \<Rightarrow> bytes \<Rightarrow> SocketAddr \<Rightarrow> (bytes \<times> SocketAddr) option" where
  "upf_echo routing dgram src =
     (case process_uplink dgram routing src of
        ForwardUl pkt \<Rightarrow>
          encapsulate_downlink \<lparr>dlp_inner_ip = ulp_inner_ip pkt, dlp_ue_ip = re_ue_ip (ulp_route pkt)\<rparr> routing
      | _ \<Rightarrow> None)"

section \<open>Lemmas\<close>

lemma suci_for_imsi_wf: "suci_wf (suci_for_imsi imsi)"
  by (simp add: suci_wf_def suci_for_imsi_def)

lemma resolve_suci_for_imsi:
  assumes "imsi < 2 ^ 40"
  shows "resolve_suci_to_imsi (suci_for_imsi imsi) = Some imsi"
proof -
  have "unat imsi < 2 ^ 40" using assms by (simp add: word_less_nat_alt)
  then have t: "take_bit 40 imsi = imsi"
    by (simp add: word_unat_eq_iff unsigned_take_bit_eq take_bit_nat_eq_self)
  have "to_be64 imsi = replicate 3 0 @ drop 3 (to_be64 imsi)"
  proof -
    have "(ucast (drop_bit k imsi) :: u8) = 0" if "40 \<le> k" for k
      by (subst t [symmetric], rule bit_word_eqI) (use that in \<open>auto simp: bit_simps\<close>)
    then show ?thesis by (simp add: to_be64_def numeral_eq_Suc)
  qed
  then have "from_be (replicate 3 0 @ drop 3 (to_be64 imsi)) = imsi" by (metis from_be_to_be64)
  then show ?thesis by (simp only: resolve_suci_to_imsi_def suci_for_imsi_def Suci.simps if_False simp_thms)
qed

lemma length_SIM_PAYLOAD [simp]: "length SIM_PAYLOAD = 39"
  by (simp add: SIM_PAYLOAD_def)

lemma upf_echo_route:
  assumes "lookup_ul rt t = Some e" "lookup_dl rt (re_ue_ip e) = Some e"
  shows "upf_echo rt (sim_gpdu t) src =
    Some (to_bytes (new_gpdu (re_dl_teid e) (of_nat (length SIM_PAYLOAD))) @ SIM_PAYLOAD, (re_enb_addr e, re_enb_port e))"
proof -
  let ?h = "new_gpdu t (of_nat (length SIM_PAYLOAD))"
  have "\<not> has_optional_fields ?h"
    by (simp add: new_gpdu_def has_optional_fields_def FLAGS_STANDARD_def VERSION_1_def PT_GTP_def FLAG_E_def
        FLAG_S_def FLAG_PN_def)
  then have "GtpuParser_parse (sim_gpdu t) = Some \<lparr>header = ?h, payload = SIM_PAYLOAD\<rparr>"
    unfolding sim_gpdu_def by (rule GtpuParser_parse_plain)
  with assms show ?thesis
    by (simp add: upf_echo_def process_uplink_def encapsulate_downlink_def new_gpdu_def is_gpdu_def MSG_GPDU_def
        MSG_ECHO_REQ_def Let_def)
qed

lemma gtp_demux_gpdu:
  "gtp_demux routes (to_bytes (new_gpdu t (of_nat (length SIM_PAYLOAD))) @ SIM_PAYLOAD) =
     map_option (\<lambda>q. (q, SIM_PAYLOAD)) (routes t)"
proof -
  have "take 512 (to_bytes h @ SIM_PAYLOAD) = to_bytes h @ SIM_PAYLOAD" for h
    by (simp add: to_bytes_def Let_def)
  then show ?thesis by (simp add: gtp_demux_def GtpuHeader_parse_to_bytes new_gpdu_def)
qed

lemma round_trip_after_losses:
  "k < 5 \<Longrightarrow> user_plane_round_trip (replicate k None @ [Some SIM_PAYLOAD]) = Inr ()"
proof -
  have "round_trip_attempts (replicate k None @ [Some SIM_PAYLOAD]) = Inr ()" by (induction k) simp_all
  moreover assume "k < 5"
  ultimately show ?thesis by (simp add: user_plane_round_trip_def)
qed

end
