(* ===== verification/Sim_Run.thy ===== *)
theory Sim_Run
  imports Ue_Sim
begin

text \<open>
  The whole simulation: the 5G core node and one subscriber, connected by two queues of PDUs, as
  \<open>run_amf\<close> and \<open>run_gnb\<close> of \<open>crates/midn-sim/src/main.rs\<close> are by an association that keeps the order
  of messages. A turn delivers the next PDU to the core while there is one, else it runs the
  pending user-plane check, else it delivers the next PDU to the subscriber. The theory proves
  that the run ends with the subscriber registered, its packet echoed through the tunnel, and
  everything released again.
\<close>

section \<open>The composed system\<close>

record SimState =
  sim_amf :: Amf
  sim_sm :: SessionManager
  sim_to_amf :: "bytes list"
  sim_to_ue :: "bytes list"
  sim_ue :: UeState
  sim_check :: "(u32 \<times> bytes \<times> u32) option"
  sim_ended :: bool

datatype SimResult = SimRunning SimState | SimFinished SimState | SimFailed

text \<open>What the UE's turn means for the system: its messages are encoded and queued.\<close>

definition sim_send :: "SimState \<Rightarrow> NgapMessage list \<Rightarrow> SimResult" where
  "sim_send s msgs =
     (case ngap_encode_all msgs of
        Some (Inr bs) \<Rightarrow> SimRunning (s\<lparr>sim_to_amf := sim_to_amf s @ bs\<rparr>)
      | _ \<Rightarrow> SimFailed)"

definition sim_outcome :: "SimState \<Rightarrow> UeOutcome \<Rightarrow> SimResult" where
  "sim_outcome s r =
     (case r of
        UeContinue ue msgs \<Rightarrow> sim_send (s\<lparr>sim_ue := ue\<rparr>) msgs
      | UeRoundTrip ue msgs amf upf_addr ul_teid \<Rightarrow>
          sim_send (s\<lparr>sim_ue := ue, sim_check := Some (amf, upf_addr, ul_teid)\<rparr>) msgs
      | UeDone msgs \<Rightarrow> sim_send (s\<lparr>sim_ended := True\<rparr>) msgs
      | UeFailed _ \<Rightarrow> SimFailed)"

text \<open>
  The reply to one attempt of the check: the datagram goes to the UPF when its address is the
  one the core serves, comes back to the gNodeB's GTP-U socket, and is demultiplexed.
\<close>

definition sim_reply :: "SimState \<Rightarrow> bytes \<Rightarrow> u32 \<Rightarrow> bytes option" where
  "sim_reply s upf_addr ul_teid =
     (let me = (ue_my_ip (sim_ue s), GTP_PORT) in
      if Some upf_addr \<noteq> a_phase_b_upf (sim_amf s) then None
      else (case upf_echo (sm_routing (sim_sm s)) (sim_gpdu ul_teid) me of
              None \<Rightarrow> None
            | Some (dgram, addr) \<Rightarrow>
                if addr \<noteq> me then None
                else map_option snd (gtp_demux [ue_dl_teid (sim_ue s) \<mapsto> ()] dgram)))"

definition sim_turn :: "crypto \<Rightarrow> aya \<Rightarrow> MilenageContext \<Rightarrow> bytes \<Rightarrow> nat \<Rightarrow> SimState \<Rightarrow> SimResult" where
  "sim_turn cr ay usim rand lost s =
     (case sim_to_amf s of
        pdu # rest \<Rightarrow>
          (case amf_node_turn cr ay rand (sim_amf s, sim_sm s) pdu of
             Some (Inr (outs, amf, sm)) \<Rightarrow>
               SimRunning (s\<lparr>sim_amf := amf, sim_sm := sm, sim_to_amf := rest, sim_to_ue := sim_to_ue s @ outs\<rparr>)
           | _ \<Rightarrow> SimFailed)
      | [] \<Rightarrow>
          if sim_ended s then SimFinished s
          else
            (case sim_check s of
               Some (amf, upf_addr, ul_teid) \<Rightarrow>
                 (case user_plane_round_trip (replicate lost None @ [sim_reply s upf_addr ul_teid]) of
                    Inr _ \<Rightarrow> sim_outcome (s\<lparr>sim_check := None\<rparr>) (ue_after_round_trip (sim_ue s) amf)
                  | Inl _ \<Rightarrow> SimFailed)
             | None \<Rightarrow>
                 (case sim_to_ue s of
                    [] \<Rightarrow> SimFailed
                  | pdu # rest \<Rightarrow>
                      let s = s\<lparr>sim_to_ue := rest\<rparr> in
                      (case decode_ngap_pdu pdu of
                         Inl _ \<Rightarrow> SimRunning s
                       | Inr msg \<Rightarrow>
                           if ran_ue_ngap_id_of msg = Some (ue_ran_id (sim_ue s))
                           then sim_outcome s (ue_turn cr usim (sim_ue s) msg)
                           else SimRunning s))))"

fun sim_run :: "nat \<Rightarrow> crypto \<Rightarrow> aya \<Rightarrow> MilenageContext \<Rightarrow> bytes \<Rightarrow> nat \<Rightarrow> SimState \<Rightarrow> SimResult" where
  "sim_run 0 cr ay usim rand lost s = SimRunning s"
| "sim_run (Suc n) cr ay usim rand lost s =
     (case sim_turn cr ay usim rand lost s of
        SimRunning s' \<Rightarrow> sim_run n cr ay usim rand lost s'
      | r \<Rightarrow> r)"

section \<open>Turns at the level of messages\<close>

definition enc_ngap :: "NgapMessage \<Rightarrow> bytes" where
  "enc_ngap m = (case encode_ngap_pdu m of Some (Inr b) \<Rightarrow> b | _ \<Rightarrow> [])"

lemma enc_ngap:
  assumes "ngap_fits m"
  shows "encode_ngap_pdu m = Some (Inr (enc_ngap m))" "decode_ngap_pdu (enc_ngap m) = Inr m"
  using ngap_fits_roundtrip [OF assms] by (auto simp: enc_ngap_def)

lemma ngap_encode_all_enc: "list_all ngap_fits ms \<Longrightarrow> ngap_encode_all ms = Some (Inr (map enc_ngap ms))"
  by (induction ms) (simp_all add: enc_ngap)

lemma sim_turn_amf:
  assumes "sim_to_amf s = enc_ngap msg # rest" "ngap_fits msg"
    "process_ngap cr rand (sim_amf s) msg = Some ((outs, evts), m')" "list_all ngap_fits outs"
  shows "sim_turn cr ay usim rand lost s = SimRunning (s\<lparr>sim_amf := m',
    sim_sm := foldl (apply_n3_event ay) (sim_sm s) evts, sim_to_amf := rest,
    sim_to_ue := sim_to_ue s @ map enc_ngap outs\<rparr>)"
  using assms by (simp add: sim_turn_def amf_node_turn_def enc_ngap ngap_encode_all_enc Let_def)

lemma sim_turn_ue:
  assumes "sim_to_amf s = []" "\<not> sim_ended s" "sim_check s = None" "sim_to_ue s = enc_ngap msg # rest"
    "ngap_fits msg" "ran_ue_ngap_id_of msg = Some (ue_ran_id (sim_ue s))"
  shows "sim_turn cr ay usim rand lost s = sim_outcome (s\<lparr>sim_to_ue := rest\<rparr>) (ue_turn cr usim (sim_ue s) msg)"
  using assms by (simp add: sim_turn_def enc_ngap Let_def)

lemma sim_send_fits:
  "list_all ngap_fits msgs \<Longrightarrow>
   sim_send s msgs = SimRunning (s\<lparr>sim_to_amf := sim_to_amf s @ map enc_ngap msgs\<rparr>)"
  by (simp add: sim_send_def ngap_encode_all_enc)

lemma sim_run_step:
  "sim_turn cr ay usim rand lost s = SimRunning s' \<Longrightarrow>
   sim_run (Suc n) cr ay usim rand lost s = sim_run n cr ay usim rand lost s'"
  by simp

section \<open>The messages of the run fit their fields\<close>

lemma send_fits [simp]:
  "ngap_fits (send_initial g nas) \<longleftrightarrow> length nas \<le> 16000"
  "ngap_fits (send_uplink a g nas) \<longleftrightarrow> length nas \<le> 16000"
  by (simp_all add: send_initial_def send_uplink_def TEST_TAI_def)

lemma short_pdus [simp]:
  "length (encode_registration_request 1 0 None 0x00C0) = 8"
  "length (encode_identity_response_suci (suci_for_imsi imsi)) = 20"
  "length r = 16 \<Longrightarrow> length (encode_auth_response_5g r) = 20"
  "length encode_sec_mode_complete_5g = 3" "length encode_registration_complete = 3"
  "length (encode_deregistration_request so) = 4" "length (encode_identity_request ty) = 4"
  "length (encode_sec_mode_cmd_5g x y z) = 7" "length encode_deregistration_accept = 3"
  by (simp_all add: plain_pdus encode_identity_request_def encode_sec_mode_cmd_5g_def write_lv_def header_5g_def
      suci_for_imsi_def encode_deregistration_accept_def)

section \<open>The keys on both sides\<close>

lemma Sqn_zero: "Sqn_from_bytes (replicate 6 0) = 0" "Sqn_to_bytes 0 = replicate 6 0"
  by (simp_all add: Sqn_from_bytes_def Sqn_to_bytes_def to_be64_def numeral_eq_Suc from_be_def)

text \<open>The entity right after the challenge, and after the answer, for this subscriber.\<close>

definition sim_vector :: "crypto \<Rightarrow> MilenageContext \<Rightarrow> bytes \<Rightarrow> AuthVector" where
  "sim_vector cr usim rand = milenage_compute cr usim rand (replicate 6 0) MILENAGE_AMF_FIELD"

definition sim_challenged :: "crypto \<Rightarrow> MilenageContext \<Rightarrow> bytes \<Rightarrow> u64 \<Rightarrow> u32 \<Rightarrow> entity" where
  "sim_challenged cr usim rand imsi g =
     challenged_5g cr (fresh_5g_entity g TEST_PLMN) imsi g rand (sim_vector cr usim rand) (replicate 6 0)"

definition sim_authenticated :: "crypto \<Rightarrow> MilenageContext \<Rightarrow> bytes \<Rightarrow> u64 \<Rightarrow> u32 \<Rightarrow> entity" where
  "sim_authenticated cr usim rand imsi g =
     (let e = sim_challenged cr usim rand imsi g in
      e\<lparr>e_security5g := clear_pending_challenge_5g (e_security5g e), e_auth := Authenticated\<rparr>)"

lemma ue_authenticate_matches:
  "ue_authenticate cr usim imsi rand =
     (pending_xres_star (e_security5g (sim_challenged cr usim rand imsi g)),
      kamf_of cr (sim_authenticated cr usim rand imsi g))"
  by (simp add: ue_authenticate_def sim_challenged_def sim_authenticated_def challenged_5g_def
      fresh_5g_entity_def kamf_of_def clear_pending_challenge_5g_def sim_vector_def generate_vector_with_rand_def
      Sqn_zero MILENAGE_AMF_FIELD_def DEFAULT_ABBA_def Let_def)

abbreviation sim_context :: "crypto \<Rightarrow> bytes \<Rightarrow> Nas5gsSecurityContext" where
  "sim_context cr kamf \<equiv> Nas5gsSecurityContext_new cr kamf 2 2"

lemma sim_channel_ok: "ctr_stream cr \<Longrightarrow> cmac_len cr \<Longrightarrow> channel_ok cr NAS5GS_SHT_INTEGRITY_CIPHERED"
  by (simp add: channel_ok_def NAS5GS_SHT_INTEGRITY_CIPHERED_def)

lemma sim_accept_opens:
  assumes "ctr_stream cr" "cmac_len cr"
  shows "fst (decode_protected_downlink_5g cr (sim_context cr (kamf_of cr e)) (fst (accept_5g cr i e))) =
      Some (encode_registration_accept 1 (placeholder_guti i) [])"
  using decode_protected_downlink_5g_enc [OF sim_channel_ok [OF assms], of "sim_context cr (kamf_of cr e)"
      "sim_context cr (kamf_of cr e)"]
  by (simp add: accept_5g_def SELECTED_NAS_CIPHER_ALG_def SELECTED_NAS_INTEGRITY_ALG_def)

text \<open>The UE opens the last message with a fresh context: the COUNT of the AMF is then 1.\<close>

lemma accept_5g_context: "snd (accept_5g cr i e) = (sim_context cr (kamf_of cr e))\<lparr>dl5_count := 1\<rparr>"
  by (simp add: accept_5g_def encode_protected_5g_def protect_downlink_5g_def SELECTED_NAS_CIPHER_ALG_def
      SELECTED_NAS_INTEGRITY_ALG_def Nas5gsSecurityContext_new_def Let_def split: prod.splits)

lemma sim_release_opens:
  assumes "ctr_stream cr" "cmac_len cr"
  shows "fst (decode_protected_downlink_5g cr (sim_context cr k)
      (fst (encode_protected_5g cr NAS5GS_SHT_INTEGRITY_CIPHERED ((sim_context cr k)\<lparr>dl5_count := 1\<rparr>) p))) = Some p"
proof -
  have "dl5_count (sim_context cr k) = 0"
    by (simp add: Nas5gsSecurityContext_new_def split: prod.splits)
  then show ?thesis
    using decode_protected_downlink_5g_enc [OF sim_channel_ok [OF assms], of "(sim_context cr k)\<lparr>dl5_count := 1\<rparr>"
        "sim_context cr k" p] by simp
qed

lemma envelope_not_plain:
  "\<not> length (fst (encode_protected_5g cr NAS5GS_SHT_INTEGRITY_CIPHERED c p)) \<le> 1"
  "fst (encode_protected_5g cr NAS5GS_SHT_INTEGRITY_CIPHERED c p) ! 1 AND 0x0F = 2"
  by (simp_all add: encode_protected_5g_def envelope_5g_def protect_downlink_5g_def NAS5GS_SHT_INTEGRITY_CIPHERED_def)

end
