(* ===== verification/Sim_Proof.thy ===== *)
theory Sim_Proof
  imports Sim_Run
begin

text \<open>
  The run of the simulation, in three phases: up to the accepted answer, the session with its
  user-plane check, and the release. Each phase is a lemma about \<open>sim_run\<close>, so that the phases
  compose by adding their numbers of turns.
\<close>

definition sim_st ::
    "Amf \<Rightarrow> SessionManager \<Rightarrow> NgapMessage list \<Rightarrow> NgapMessage list \<Rightarrow> UeState \<Rightarrow> (u32 \<times> bytes \<times> u32) option \<Rightarrow> bool \<Rightarrow> SimState" where
  "sim_st m sm ta tu ue ck ended =
     \<lparr>sim_amf = m, sim_sm = sm, sim_to_amf = map enc_ngap ta, sim_to_ue = map enc_ngap tu, sim_ue = ue,
      sim_check = ck, sim_ended = ended\<rparr>"

lemma sim_st_amf:
  assumes "ngap_fits msg" "process_ngap cr rand m msg = Some ((outs, evts), m')" "list_all ngap_fits outs"
  shows "sim_run (Suc n) cr ay usim rand lost (sim_st m sm (msg # ta) tu ue ck ended) =
    sim_run n cr ay usim rand lost
      (sim_st m' (foldl (apply_n3_event ay) sm evts) ta (tu @ outs) ue ck ended)"
  using sim_turn_amf [of "sim_st m sm (msg # ta) tu ue ck ended" msg "map enc_ngap ta" cr rand outs evts m' ay usim lost] assms
  by (simp add: sim_st_def)

lemma sim_st_ue:
  assumes "ngap_fits msg" "ran_ue_ngap_id_of msg = Some (ue_ran_id ue)"
    "ue_turn cr usim ue msg = UeContinue ue' outs" "list_all ngap_fits outs"
  shows "sim_run (Suc n) cr ay usim rand lost (sim_st m sm [] (msg # tu) ue None False) =
    sim_run n cr ay usim rand lost (sim_st m sm outs tu ue' None False)"
  using sim_turn_ue [of "sim_st m sm [] (msg # tu) ue None False" msg "map enc_ngap tu" cr ay usim rand lost] assms
  by (simp add: sim_st_def sim_outcome_def sim_send_fits)

lemma sim_st_ue_check:
  assumes "ngap_fits msg" "ran_ue_ngap_id_of msg = Some (ue_ran_id ue)"
    "ue_turn cr usim ue msg = UeRoundTrip ue' outs amf addr t" "list_all ngap_fits outs"
  shows "sim_run (Suc n) cr ay usim rand lost (sim_st m sm [] (msg # tu) ue None False) =
    sim_run n cr ay usim rand lost (sim_st m sm outs tu ue' (Some (amf, addr, t)) False)"
  using sim_turn_ue [of "sim_st m sm [] (msg # tu) ue None False" msg "map enc_ngap tu" cr ay usim rand lost] assms
  by (simp add: sim_st_def sim_outcome_def sim_send_fits)

lemma sim_st_ue_done:
  assumes "ngap_fits msg" "ran_ue_ngap_id_of msg = Some (ue_ran_id ue)"
    "ue_turn cr usim ue msg = UeDone outs" "list_all ngap_fits outs"
  shows "sim_run (Suc n) cr ay usim rand lost (sim_st m sm [] (msg # tu) ue None False) =
    sim_run n cr ay usim rand lost (sim_st m sm outs tu ue None True)"
  using sim_turn_ue [of "sim_st m sm [] (msg # tu) ue None False" msg "map enc_ngap tu" cr ay usim rand lost] assms
  by (simp add: sim_st_def sim_outcome_def sim_send_fits)

lemma sim_st_round_trip:
  assumes "sim_reply (sim_st m sm [] tu ue (Some (amf, addr, t)) False) addr t = Some SIM_PAYLOAD" "lost < 5"
  shows "sim_run (Suc n) cr ay usim rand lost (sim_st m sm [] tu ue (Some (amf, addr, t)) False) =
    sim_run n cr ay usim rand lost
      (sim_st m sm [send_uplink amf (ue_ran_id ue) (encode_deregistration_request False)] tu ue None False)"
proof -
  let ?s = "sim_st m sm [] tu ue (Some (amf, addr, t)) False"
  have f: "sim_to_amf ?s = []" "\<not> sim_ended ?s" "sim_check ?s = Some (amf, addr, t)" "sim_ue ?s = ue"
    by (simp_all add: sim_st_def)
  have "sim_turn cr ay usim rand lost ?s = sim_outcome (?s\<lparr>sim_check := None\<rparr>) (ue_after_round_trip ue amf)"
    using f assms(1) round_trip_after_losses [OF assms(2)] by (simp add: sim_turn_def)
  then show ?thesis
    by (simp add: ue_after_round_trip_def sim_outcome_def sim_send_fits) (simp add: sim_st_def)
qed

lemma sim_st_finished: "sim_run (Suc n) cr ay usim rand lost (sim_st m sm [] tu ue None True) =
    SimFinished (sim_st m sm [] tu ue None True)"
  by (simp add: sim_st_def sim_turn_def)

section \<open>The subscriber's turns\<close>

lemma plain_sht:
  "encode_identity_request ty ! Suc 0 AND 0x0F = NAS5GS_SHT_PLAIN"
  "encode_auth_request_5g k r tok ! Suc 0 AND 0x0F = NAS5GS_SHT_PLAIN"
  "encode_sec_mode_cmd_5g x y z ! Suc 0 AND 0x0F = NAS5GS_SHT_PLAIN"
  by (simp_all add: encode_identity_request_def encode_auth_request_5g_def encode_sec_mode_cmd_5g_def
      write_lv_def header_5g_def NAS5GS_SHT_PLAIN_def)

lemma ue_turn_identity:
  "ue_turn cr usim ue (NDownlinkNasTransport \<lparr>ndnt_amf_ue_ngap_id = i, ndnt_ran_ue_ngap_id = ue_ran_id ue,
      ndnt_nas_pdu = encode_identity_request IDTYPE_SUCI\<rparr>) =
    (let amf = get_or_insert (ue_amf_id ue) i in
     UeContinue (ue\<lparr>ue_amf_id := Some amf\<rparr>)
       [send_uplink amf (ue_ran_id ue) (encode_identity_response_suci (suci_for_imsi (ue_imsi ue)))])"
  by (simp add: ue_turn_def ran_ue_ngap_id_of_def ue_downlink_nas_def Let_def identity_request_roundtrip plain_sht)

lemma ue_turn_challenge:
  assumes "length rand = 16" "length tok = 16" "ue_amf_id ue = Some i"
    "ue_authenticate cr usim (ue_imsi ue) rand = (res, kamf)"
  shows "ue_turn cr usim ue (NDownlinkNasTransport \<lparr>ndnt_amf_ue_ngap_id = i, ndnt_ran_ue_ngap_id = ue_ran_id ue,
      ndnt_nas_pdu = encode_auth_request_5g 0 rand tok\<rparr>) =
    UeContinue (ue\<lparr>ue_amf_id := Some i, ue_kamf := Some kamf\<rparr>)
      [send_uplink i (ue_ran_id ue) (encode_auth_response_5g res)]"
  using assms(3,4) auth_request_5g_roundtrip [OF assms(1,2), of 0]
  by (simp add: ue_turn_def ran_ue_ngap_id_of_def ue_downlink_nas_def Let_def get_or_insert_def plain_sht
      length_auth_request_5g)

lemma ue_turn_security_mode:
  assumes "ue_amf_id ue = Some i"
  shows "ue_turn cr usim ue (NDownlinkNasTransport \<lparr>ndnt_amf_ue_ngap_id = i, ndnt_ran_ue_ngap_id = ue_ran_id ue,
      ndnt_nas_pdu = encode_sec_mode_cmd_5g a b c\<rparr>) =
    UeContinue (ue\<lparr>ue_amf_id := Some i\<rparr>) [send_uplink i (ue_ran_id ue) encode_sec_mode_complete_5g]"
  using assms
  by (simp add: ue_turn_def ran_ue_ngap_id_of_def ue_downlink_nas_def Let_def get_or_insert_def plain_sht
      sec_mode_cmd_5g_roundtrip)

lemma ue_turn_context_setup:
  assumes cr: "ctr_stream cr" "cmac_len cr" and ue: "ue_amf_id ue = Some i" "ue_kamf ue = Some (kamf_of cr e)"
  shows "ue_turn cr usim ue (NInitialContextSetupRequest (accept_request cr i (ue_ran_id ue) e t upf)) =
    UeRoundTrip (ue\<lparr>ue_amf_id := Some i\<rparr>)
      [NInitialContextSetupResponse
         \<lparr>nicp_amf_ue_ngap_id = i, nicp_ran_ue_ngap_id = ue_ran_id ue,
          nicp_pdu_sessions_setup = [\<lparr>psi_pdu_session_id = DEFAULT_PDU_SESSION_ID,
            psi_transport_layer_addr = ue_my_ip ue, psi_gtp_teid = to_be32 (ue_dl_teid ue)\<rparr>],
          nicp_pdu_sessions_failed = []\<rparr>,
       send_uplink i (ue_ran_id ue) encode_registration_complete] i upf t"
  using ue sim_accept_opens [OF cr, of e i] registration_accept_roundtrip [of "placeholder_guti i" "[]" 1]
  by (simp add: ue_turn_def ran_ue_ngap_id_of_def ue_context_setup_def accept_request_def Let_def get_or_insert_def)

lemma ue_turn_release_accept:
  assumes cr: "ctr_stream cr" "cmac_len cr" and ue: "ue_amf_id ue = Some i" "ue_kamf ue = Some k"
  shows "ue_turn cr usim ue (NDownlinkNasTransport \<lparr>ndnt_amf_ue_ngap_id = i, ndnt_ran_ue_ngap_id = ue_ran_id ue,
      ndnt_nas_pdu = fst (encode_protected_5g cr NAS5GS_SHT_INTEGRITY_CIPHERED ((sim_context cr k)\<lparr>dl5_count := 1\<rparr>)
        encode_deregistration_accept)\<rparr>) = UeContinue (ue\<lparr>ue_amf_id := Some i\<rparr>) []"
  using ue sim_release_opens [OF cr, of k encode_deregistration_accept]
    envelope_not_plain [of cr "(sim_context cr k)\<lparr>dl5_count := 1\<rparr>" encode_deregistration_accept]
  by (simp add: ue_turn_def ran_ue_ngap_id_of_def ue_downlink_nas_def Let_def get_or_insert_def
      bare_messages_5g_roundtrip NAS5GS_SHT_PLAIN_def)

lemma ue_turn_release:
  "ue_turn cr usim ue (NUeContextReleaseCommand i (ue_ran_id ue) c) =
     UeDone [NUeContextReleaseComplete \<lparr>ncrc_amf_ue_ngap_id = i, ncrc_ran_ue_ngap_id = ue_ran_id ue\<rparr>]"
  by (simp add: ue_turn_def ran_ue_ngap_id_of_def)

section \<open>The phases\<close>

lemma TEST_TAI_plmn: "take 3 TEST_TAI = TEST_PLMN"
  by (simp add: TEST_TAI_def TEST_PLMN_def)

lemma ran_of_messages [simp]:
  "ran_ue_ngap_id_of (NDownlinkNasTransport d) = Some (ndnt_ran_ue_ngap_id d)"
  "ran_ue_ngap_id_of (NInitialContextSetupRequest r) = Some (nicq_ran_ue_ngap_id r)"
  "ran_ue_ngap_id_of (NUeContextReleaseCommand a g c) = Some g"
  by (simp_all add: ran_ue_ngap_id_of_def)

text \<open>The AMF's side of the first phase: identity, challenge, answer.\<close>

lemma sim_amf_phase1:
  fixes m :: Amf
  assumes wf: "world_wf (a_world m)" and room: "unat (next_id (a_world m)) + 1 < 4294967296"
    and sub: "a_hss m imsi = Some \<lparr>sr_ctx = usim, sr_sqn = 0\<rparr>" "imsi < 2 ^ 40" and cr: "hmac_len cr"
  obtains i m1 m2 w3 where
    "process_ngap cr rand m (send_initial g (encode_registration_request 1 0 None 0x00C0)) =
      Some (([NDownlinkNasTransport \<lparr>ndnt_amf_ue_ngap_id = i, ndnt_ran_ue_ngap_id = g,
        ndnt_nas_pdu = encode_identity_request IDTYPE_SUCI\<rparr>], []), m1)"
    "process_ngap cr rand m1 (send_uplink i g (encode_identity_response_suci (suci_for_imsi imsi))) =
      Some (([NDownlinkNasTransport \<lparr>ndnt_amf_ue_ngap_id = i, ndnt_ran_ue_ngap_id = g,
        ndnt_nas_pdu = encode_auth_request_5g 0 rand
          (autn (sim_vector cr usim rand) (replicate 6 0) MILENAGE_AMF_FIELD)\<rparr>], []), m2)"
    "process_ngap cr rand m2 (send_uplink i g
        (encode_auth_response_5g (pending_xres_star (e_security5g (sim_challenged cr usim rand imsi g))))) =
      Some (([NDownlinkNasTransport \<lparr>ndnt_amf_ue_ngap_id = i, ndnt_ran_ue_ngap_id = g,
        ndnt_nas_pdu = encode_sec_mode_cmd_5g SELECTED_NAS_CIPHER_ALG SELECTED_NAS_INTEGRITY_ALG 0x2040\<rparr>], []),
        m\<lparr>a_world := w3, a_registry := (a_registry m)(imsi \<mapsto> i),
          a_hss := (a_hss m)(imsi \<mapsto> \<lparr>sr_ctx = usim, sr_sqn = 1\<rparr>)\<rparr>)"
    "world_wf w3" "abs_world (a_world m) i = None"
    "abs_world w3 = (abs_world (a_world m))(i \<mapsto> sim_authenticated cr usim rand imsi g)"
proof -
  let ?u1 = "\<lparr>nium_ran_ue_ngap_id = g, nium_nas_pdu = encode_registration_request 1 0 None 0x00C0,
    nium_tai = TEST_TAI, nium_nr_cgi = replicate 9 0, nium_rrc_establishment_cause = 0\<rparr>"
  let ?up = "\<lambda>i pdu. \<lparr>nunt_amf_ue_ngap_id = i, nunt_ran_ue_ngap_id = g, nunt_nas_pdu = pdu,
    nunt_tai = TEST_TAI, nunt_nr_cgi = replicate 9 0\<rparr>"
  let ?e1 = "fresh_5g_entity g TEST_PLMN" and ?e2 = "sim_challenged cr usim rand imsi g"
  let ?res = "pending_xres_star (e_security5g ?e2)"
  let ?sub = "\<lparr>sr_ctx = usim, sr_sqn = 0\<rparr>"
  obtain q where q: "decode_nas5gs (nium_nas_pdu ?u1) = Inr (RegistrationRequest q)" "rr_guti q = None"
    using registration_request_roundtrip [of None 1 0 "0x00C0"] by auto
  obtain i w1 where s1: "process_ngap cr rand m (NInitialUeMessage ?u1) =
      Some (([NDownlinkNasTransport \<lparr>ndnt_amf_ue_ngap_id = i, ndnt_ran_ue_ngap_id = nium_ran_ue_ngap_id ?u1,
        ndnt_nas_pdu = encode_identity_request IDTYPE_SUCI\<rparr>], []), m\<lparr>a_world := w1\<rparr>)"
    and w1: "world_wf w1" "abs_world (a_world m) i = None"
      "abs_world w1 = (abs_world (a_world m))(i \<mapsto> fresh_5g_entity (nium_ran_ue_ngap_id ?u1) (take 3 (nium_tai ?u1)))"
    by (rule reg_step1 [OF wf room q, of cr rand])
  note w1' = w1(3) [simplified NgapInitialUeMessage.simps TEST_TAI_plmn]
  let ?m1 = "m\<lparr>a_world := w1\<rparr>" and ?u2 = "?up i (encode_identity_response_suci (suci_for_imsi imsi))"
  have h2: "world_wf (a_world ?m1)" "abs_world (a_world ?m1) i = Some ?e1" "a_hss ?m1 imsi = Some ?sub"
    "nunt_amf_ue_ngap_id ?u2 = i" "nunt_nas_pdu ?u2 = encode_identity_response_suci (suci_for_imsi imsi)"
    using w1(1) w1' sub(1) by simp_all
  obtain w2 where s2: "process_ngap cr rand ?m1 (NUplinkNasTransport ?u2) =
      Some (([NDownlinkNasTransport \<lparr>ndnt_amf_ue_ngap_id = i, ndnt_ran_ue_ngap_id = nunt_ran_ue_ngap_id ?u2,
        ndnt_nas_pdu = encode_auth_request_5g 0 rand
          (autn (milenage_compute cr (sr_ctx ?sub) rand (Sqn_to_bytes (sr_sqn ?sub)) MILENAGE_AMF_FIELD)
            (Sqn_to_bytes (sr_sqn ?sub)) MILENAGE_AMF_FIELD)\<rparr>], []),
        ?m1\<lparr>a_world := w2, a_registry := (a_registry ?m1)(imsi \<mapsto> i),
          a_hss := (a_hss ?m1)(imsi \<mapsto> ?sub\<lparr>sr_sqn := take_bit 48 (sr_sqn ?sub + 1)\<rparr>)\<rparr>)"
    and w2: "world_wf w2"
      "abs_world w2 = (abs_world (a_world ?m1))(i \<mapsto> challenged_5g cr ?e1 imsi (nunt_ran_ue_ngap_id ?u2) rand
        (milenage_compute cr (sr_ctx ?sub) rand (Sqn_to_bytes (sr_sqn ?sub)) MILENAGE_AMF_FIELD)
        (Sqn_to_bytes (sr_sqn ?sub)))"
    by (rule reg_step2 [OF h2(1-3) suci_for_imsi_wf resolve_suci_for_imsi [OF sub(2)] h2(4,5)])
  let ?m2 = "m\<lparr>a_world := w2, a_registry := (a_registry m)(imsi \<mapsto> i),
      a_hss := (a_hss m)(imsi \<mapsto> \<lparr>sr_ctx = usim, sr_sqn = 1\<rparr>)\<rparr>"
  have w2': "abs_world w2 = (abs_world w1)(i \<mapsto> ?e2)"
    using w2(2) by (simp add: Sqn_zero sim_challenged_def sim_vector_def)
  let ?u3 = "?up i (encode_auth_response_5g ?res)"
  have res: "length ?res = 16"
    using length_derive_res_star [OF cr] by (simp add: sim_challenged_def challenged_5g_def Let_def)
  have h3: "world_wf (a_world ?m2)" "abs_world (a_world ?m2) i = Some ?e2" "nunt_amf_ue_ngap_id ?u3 = i"
    "nunt_nas_pdu ?u3 = encode_auth_response_5g ?res"
    using w2(1) w2' by simp_all
  obtain w3 where s3: "process_ngap cr rand ?m2 (NUplinkNasTransport ?u3) =
      Some (([NDownlinkNasTransport \<lparr>ndnt_amf_ue_ngap_id = i, ndnt_ran_ue_ngap_id = nunt_ran_ue_ngap_id ?u3,
        ndnt_nas_pdu = encode_sec_mode_cmd_5g SELECTED_NAS_CIPHER_ALG SELECTED_NAS_INTEGRITY_ALG 0x2040\<rparr>], []),
        ?m2\<lparr>a_world := w3\<rparr>)"
    and w3: "world_wf w3" "abs_world w3 = (abs_world (a_world ?m2))
      (i \<mapsto> ?e2\<lparr>e_security5g := clear_pending_challenge_5g (e_security5g ?e2), e_auth := Authenticated\<rparr>)"
    by (rule reg_step3 [OF h3(1,2) refl res h3(3,4)])
  show ?thesis
  proof (rule that [of i ?m1 ?m2 w3])
    show "abs_world w3 = (abs_world (a_world m))(i \<mapsto> sim_authenticated cr usim rand imsi g)"
      using w3(2) w2' w1' by (simp add: sim_authenticated_def Let_def)
  qed (use s1 s2 s3 w1 w3(1) in
    \<open>simp_all add: send_initial_def send_uplink_def Sqn_zero sim_vector_def\<close>)
qed

text \<open>The AMF's side of the session: the context setup, its confirmation, and its release.\<close>

definition sim_ics_response :: "u32 \<Rightarrow> u32 \<Rightarrow> bytes \<Rightarrow> u32 \<Rightarrow> NgapInitialContextSetupResponse" where
  "sim_ics_response i g ip dl = \<lparr>nicp_amf_ue_ngap_id = i, nicp_ran_ue_ngap_id = g,
     nicp_pdu_sessions_setup = [\<lparr>psi_pdu_session_id = DEFAULT_PDU_SESSION_ID, psi_transport_layer_addr = ip,
       psi_gtp_teid = to_be32 dl\<rparr>], nicp_pdu_sessions_failed = []\<rparr>"

lemma sim_amf_phase2:
  assumes wf: "world_wf (a_world m)" and e: "abs_world (a_world m) i = Some e"
    and upf: "a_phase_b_upf m = Some upf" and al: "teid_alloc (a_teids m) = (t, a')"
  obtains m4 w5 e5 where
    "process_ngap cr rand m (send_uplink i g encode_sec_mode_complete_5g) =
      Some (([NInitialContextSetupRequest (accept_request cr i g e t upf)],
        [N3CreateSession t i (id_imsi (e_identity e)) DEFAULT_PDU_SESSION_ID DEFAULT_QFI (synth_ue_ip i)
          (replicate 4 0)]), m4)"
    "process_ngap cr rand m4 (NInitialContextSetupResponse (sim_ics_response i g ip dl)) =
      Some (([], [N3UpdateBearer t dl ip]), m\<lparr>a_world := w5, a_teids := a'\<rparr>)"
    "world_wf w5" "abs_world w5 = (abs_world (a_world m))(i \<mapsto> e5)"
    "e_nas_security5g e5 = Some (snd (accept_5g cr i e))" "map_option tc_ul_teid (e_tunnel e5) = Some t"
    "e_identity e5 = e_identity e"
proof -
  let ?u = "\<lparr>nunt_amf_ue_ngap_id = i, nunt_ran_ue_ngap_id = g, nunt_nas_pdu = encode_sec_mode_complete_5g,
    nunt_tai = TEST_TAI, nunt_nr_cgi = replicate 9 0\<rparr>"
  let ?tu = "\<lparr>tc_ul_teid = t, tc_dl_teid = 0, tc_enb_addr = replicate 4 0\<rparr>"
  let ?e4 = "e\<lparr>e_security5g := clear_post_kamf (e_security5g e),
    e_nas_security5g := Some (snd (accept_5g cr i e)), e_tunnel := Some ?tu\<rparr>"
  have u: "nunt_amf_ue_ngap_id ?u = i" "nunt_nas_pdu ?u = encode_sec_mode_complete_5g" by simp_all
  obtain w4 where s4: "process_ngap cr rand m (NUplinkNasTransport ?u) =
      Some (([NInitialContextSetupRequest (accept_request cr i (nunt_ran_ue_ngap_id ?u) e t upf)],
        [N3CreateSession t i (id_imsi (e_identity e)) DEFAULT_PDU_SESSION_ID DEFAULT_QFI (synth_ue_ip i)
          (replicate 4 0)]), m\<lparr>a_world := w4, a_teids := a'\<rparr>)"
    and w4: "world_wf w4" "abs_world w4 = (abs_world (a_world m))(i \<mapsto> ?e4)"
    by (rule reg_step4 [OF wf e upf al u])
  let ?m4 = "m\<lparr>a_world := w4, a_teids := a'\<rparr>" and ?r = "sim_ics_response i g ip dl"
  have h5: "world_wf (a_world ?m4)" "abs_world (a_world ?m4) i = Some ?e4" "e_tunnel ?e4 = Some ?tu"
    "nicp_amf_ue_ngap_id ?r = i" "nicp_pdu_sessions_setup ?r = [\<lparr>psi_pdu_session_id = DEFAULT_PDU_SESSION_ID,
      psi_transport_layer_addr = ip, psi_gtp_teid = to_be32 dl\<rparr>]"
    using w4 by (simp_all add: sim_ics_response_def)
  obtain w5 where s5: "process_ngap cr rand ?m4 (NInitialContextSetupResponse ?r) =
      Some (([], [N3UpdateBearer t dl ip]), ?m4\<lparr>a_world := w5\<rparr>)"
    and w5: "world_wf w5" "abs_world w5 = (abs_world w4)(i \<mapsto> ?e4\<lparr>e_tunnel := Some (?tu\<lparr>tc_dl_teid := dl, tc_enb_addr := ip\<rparr>)\<rparr>)"
    by (rule reg_step5 [OF h5, of cr rand]) simp
  show ?thesis
    by (rule that [of ?m4 w5 "?e4\<lparr>e_tunnel := Some (?tu\<lparr>tc_dl_teid := dl, tc_enb_addr := ip\<rparr>)\<rparr>"])
       (use s4 s5 w4 w5 in \<open>simp_all add: send_uplink_def\<close>)
qed

lemma sim_amf_phase3:
  assumes wf: "world_wf (a_world m)" and e: "abs_world (a_world m) i = Some e" "e_nas_security5g e = Some ctx"
    "map_option tc_ul_teid (e_tunnel e) = Some t"
  obtains m6 w7 where
    "process_ngap cr rand m (send_uplink i g (encode_deregistration_request False)) =
      Some (([NDownlinkNasTransport \<lparr>ndnt_amf_ue_ngap_id = i, ndnt_ran_ue_ngap_id = g,
          ndnt_nas_pdu = fst (encode_protected_5g cr NAS5GS_SHT_INTEGRITY_CIPHERED ctx encode_deregistration_accept)\<rparr>,
        NUeContextReleaseCommand i g NgNasDeregister], []), m6)"
    "process_ngap cr rand m6 (NUeContextReleaseComplete \<lparr>ncrc_amf_ue_ngap_id = i, ncrc_ran_ue_ngap_id = g\<rparr>) =
      Some (([], [N3RemoveSession t]),
        m\<lparr>a_registry := (a_registry m)(id_imsi (e_identity e) := None), a_world := w7,
          a_teids := teid_release (a_teids m) t\<rparr>)"
    "world_wf w7" "abs_world w7 = (abs_world (a_world m))(i := None)"
proof -
  let ?u = "\<lparr>nunt_amf_ue_ngap_id = i, nunt_ran_ue_ngap_id = g, nunt_nas_pdu = encode_deregistration_request False,
    nunt_tai = TEST_TAI, nunt_nr_cgi = replicate 9 0\<rparr>"
  let ?p = "encode_protected_5g cr NAS5GS_SHT_INTEGRITY_CIPHERED ctx encode_deregistration_accept"
  let ?e6 = "e\<lparr>e_nas_security5g := Some (snd ?p)\<rparr>"
  have u: "nunt_amf_ue_ngap_id ?u = i" "nunt_nas_pdu ?u = encode_deregistration_request False" by simp_all
  obtain w6 where s6: "process_ngap cr rand m (NUplinkNasTransport ?u) =
      Some (([NDownlinkNasTransport \<lparr>ndnt_amf_ue_ngap_id = i, ndnt_ran_ue_ngap_id = nunt_ran_ue_ngap_id ?u,
          ndnt_nas_pdu = fst ?p\<rparr>,
        NUeContextReleaseCommand i (nunt_ran_ue_ngap_id ?u) NgNasDeregister], []), m\<lparr>a_world := w6\<rparr>)"
    and w6: "world_wf w6" "abs_world w6 = (abs_world (a_world m))(i \<mapsto> ?e6)"
    by (rule dereg_step1 [OF wf e(1,2) u])
  obtain tu where tu: "e_tunnel ?e6 = Some tu" "tc_ul_teid tu = t" using e(3) by auto
  let ?m6 = "m\<lparr>a_world := w6\<rparr>"
  have h7: "world_wf (a_world ?m6)" "abs_world (a_world ?m6) i = Some ?e6" using w6 by simp_all
  note s7 = dereg_step2(1) [OF h7 tu(1), of "\<lparr>ncrc_amf_ue_ngap_id = i, ncrc_ran_ue_ngap_id = g\<rparr>" cr rand, simplified]
  show ?thesis
    by (rule that [of ?m6 "despawn w6 i"])
       (use s6 s7 w6 tu in \<open>simp_all add: send_uplink_def ecs_wf ecs_abs\<close>)
qed

section \<open>The user plane during the session\<close>

definition session_opened ::
    "aya \<Rightarrow> SessionManager \<Rightarrow> u32 \<Rightarrow> u32 \<Rightarrow> u64 \<Rightarrow> u32 \<Rightarrow> bytes \<Rightarrow> SessionManager" where
  "session_opened ay sm t i imsi dl ip =
     apply_n3_event ay (apply_n3_event ay sm
       (N3CreateSession t i imsi DEFAULT_PDU_SESSION_ID DEFAULT_QFI (synth_ue_ip i) (replicate 4 0)))
       (N3UpdateBearer t dl ip)"

lemma session_routes:
  "lookup_ul (sm_routing (session_opened ay sm t i imsi dl ip)) t =
     Some (RouteEntry_new (synth_ue_ip i) dl ip DEFAULT_QFI)"
  "lookup_dl (sm_routing (session_opened ay sm t i imsi dl ip)) (synth_ue_ip i) =
     Some (RouteEntry_new (synth_ue_ip i) dl ip DEFAULT_QFI)"
  by (simp_all add: session_opened_def apply_n3_event_upf lookup_ul_def lookup_dl_def event_maps event_dl_map
      spec_update_def RouteEntry_new_def)

lemma session_removed:
  "get_session (apply_n3_event ay (session_opened ay sm t i imsi dl ip) (N3RemoveSession t)) =
     (get_session sm)(t := None)"
  "lookup_ul (sm_routing (apply_n3_event ay (session_opened ay sm t i imsi dl ip) (N3RemoveSession t))) =
     (lookup_ul (sm_routing sm))(t := None)"
  by (auto simp: session_opened_def fun_eq_iff apply_n3_event_upf lookup_ul_def get_session_def event_maps
      event_sessions spec_update_def)

lemma sim_reply_echo:
  assumes "a_phase_b_upf m = Some upf" "lookup_ul (sm_routing sm) t = Some (RouteEntry_new uip dl ip qfi)"
    "lookup_dl (sm_routing sm) uip = Some (RouteEntry_new uip dl ip qfi)" "ue_my_ip ue = ip" "ue_dl_teid ue = dl"
  shows "sim_reply (sim_st m sm ta tu ue ck ended) upf t = Some SIM_PAYLOAD"
  using assms upf_echo_route [of "sm_routing sm" t "RouteEntry_new uip dl ip qfi" "(ip, GTP_PORT)"]
  by (simp add: sim_reply_def sim_st_def Let_def GTP_PORT_def RouteEntry_new_def gtp_demux_gpdu [simplified])

section \<open>The whole run\<close>

lemma length_kamf_of: "hmac_len cr \<Longrightarrow> length (kamf_of cr e) = 32"
  by (simp add: kamf_of_def derive_kamf_def length_kdf_generic Let_def)

lemma accept_request_fits:
  assumes "ctr_stream cr" "hmac_len cr" "length upf = 4"
  shows "ngap_fits (NInitialContextSetupRequest (accept_request cr i g e t upf))"
proof -
  obtain pdu c where p: "accept_5g cr i e = (pdu, c)" by (cases "accept_5g cr i e")
  then have "length pdu \<le> 24"
    using length_encode_protected_5g [OF p [unfolded accept_5g_def] assms(1)] by (simp add: length_registration_accept)
  with p assms show ?thesis
    by (simp add: accept_request_def session_to_setup_ok_def DEFAULT_QFI_def length_kamf_of)
qed

lemma protected_accept_fits:
  assumes "ctr_stream cr"
  shows "ngap_fits (NDownlinkNasTransport \<lparr>ndnt_amf_ue_ngap_id = i, ndnt_ran_ue_ngap_id = g,
    ndnt_nas_pdu = fst (encode_protected_5g cr sht c encode_deregistration_accept)\<rparr>)"
proof -
  obtain x c' where p: "encode_protected_5g cr sht c encode_deregistration_accept = (x, c')"
    by (cases "encode_protected_5g cr sht c encode_deregistration_accept")
  with length_encode_protected_5g [OF p assms] show ?thesis by simp
qed

definition sim_ue0 :: "u32 \<Rightarrow> u32 \<Rightarrow> u64 \<Rightarrow> bytes \<Rightarrow> UeState" where
  "sim_ue0 g dl imsi ip = \<lparr>ue_ran_id = g, ue_dl_teid = dl, ue_imsi = imsi, ue_my_ip = ip, ue_amf_id = None, ue_kamf = None\<rparr>"

text \<open>The first six turns: the subscriber is authenticated and holds KAMF.\<close>

lemma sim_run_phase1:
  fixes m :: Amf
  assumes wf: "world_wf (a_world m)" and room: "unat (next_id (a_world m)) + 1 < 4294967296"
    and sub: "a_hss m imsi = Some \<lparr>sr_ctx = usim, sr_sqn = 0\<rparr>" "imsi < 2 ^ 40" "length (mc_opc usim) = 16"
    and cr: "aes_len cr" "hmac_len cr" and rand: "length rand = 16"
  obtains i w3 where
    "\<forall>n. sim_run (n + 6) cr ay usim rand lost (sim_st m sm [ue_start (sim_ue0 g dl imsi ip)] [] (sim_ue0 g dl imsi ip) None False) =
      sim_run n cr ay usim rand lost
        (sim_st (m\<lparr>a_world := w3, a_registry := (a_registry m)(imsi \<mapsto> i),
            a_hss := (a_hss m)(imsi \<mapsto> \<lparr>sr_ctx = usim, sr_sqn = 1\<rparr>)\<rparr>) sm
          [send_uplink i g encode_sec_mode_complete_5g] []
          ((sim_ue0 g dl imsi ip)\<lparr>ue_amf_id := Some i, ue_kamf := Some (kamf_of cr (sim_authenticated cr usim rand imsi g))\<rparr>)
          None False)"
    "world_wf w3" "abs_world (a_world m) i = None"
    "abs_world w3 = (abs_world (a_world m))(i \<mapsto> sim_authenticated cr usim rand imsi g)"
proof -
  let ?ue0 = "sim_ue0 g dl imsi ip" and ?e2 = "sim_challenged cr usim rand imsi g"
  let ?k = "kamf_of cr (sim_authenticated cr usim rand imsi g)" and ?res = "pending_xres_star (e_security5g ?e2)"
  let ?tok = "autn (sim_vector cr usim rand) (replicate 6 0) MILENAGE_AMF_FIELD"
  obtain i m1 m2 w3 where s:
    "process_ngap cr rand m (send_initial g (encode_registration_request 1 0 None 0x00C0)) =
      Some (([NDownlinkNasTransport \<lparr>ndnt_amf_ue_ngap_id = i, ndnt_ran_ue_ngap_id = g,
        ndnt_nas_pdu = encode_identity_request IDTYPE_SUCI\<rparr>], []), m1)"
    "process_ngap cr rand m1 (send_uplink i g (encode_identity_response_suci (suci_for_imsi imsi))) =
      Some (([NDownlinkNasTransport \<lparr>ndnt_amf_ue_ngap_id = i, ndnt_ran_ue_ngap_id = g,
        ndnt_nas_pdu = encode_auth_request_5g 0 rand ?tok\<rparr>], []), m2)"
    "process_ngap cr rand m2 (send_uplink i g (encode_auth_response_5g ?res)) =
      Some (([NDownlinkNasTransport \<lparr>ndnt_amf_ue_ngap_id = i, ndnt_ran_ue_ngap_id = g,
        ndnt_nas_pdu = encode_sec_mode_cmd_5g SELECTED_NAS_CIPHER_ALG SELECTED_NAS_INTEGRITY_ALG 0x2040\<rparr>], []),
        m\<lparr>a_world := w3, a_registry := (a_registry m)(imsi \<mapsto> i),
          a_hss := (a_hss m)(imsi \<mapsto> \<lparr>sr_ctx = usim, sr_sqn = 1\<rparr>)\<rparr>)"
    and w: "world_wf w3" "abs_world (a_world m) i = None"
      "abs_world w3 = (abs_world (a_world m))(i \<mapsto> sim_authenticated cr usim rand imsi g)"
    by (rule sim_amf_phase1 [OF wf room sub(1,2) cr(2)])
  have amf: "length (MILENAGE_AMF_FIELD) = 2" "length (replicate 6 0 :: bytes) = 6"
    by (simp_all add: MILENAGE_AMF_FIELD_def)
  note lav = length_milenage_compute [OF cr(1) rand sub(3) amf(2,1)]
  have tok: "length ?tok = 16" by (simp add: sim_vector_def length_autn lav amf)
  have res: "length ?res = 16"
    using length_derive_res_star [OF cr(2)] by (simp add: sim_challenged_def challenged_5g_def Let_def)
  have au: "ue_authenticate cr usim (ue_imsi u) rand = (?res, ?k)" if "ue_imsi u = imsi" for u
    unfolding that by (rule ue_authenticate_matches)
  let ?ue1 = "?ue0\<lparr>ue_amf_id := Some i\<rparr>" and ?ue2 = "?ue0\<lparr>ue_amf_id := Some i, ue_kamf := Some ?k\<rparr>"
  have g: "g = ue_ran_id ?ue0" "g = ue_ran_id ?ue1" "g = ue_ran_id ?ue2" by (simp_all add: sim_ue0_def)
  have t1: "ue_turn cr usim ?ue0 (NDownlinkNasTransport \<lparr>ndnt_amf_ue_ngap_id = i, ndnt_ran_ue_ngap_id = g,
      ndnt_nas_pdu = encode_identity_request IDTYPE_SUCI\<rparr>) =
      UeContinue ?ue1 [send_uplink i g (encode_identity_response_suci (suci_for_imsi imsi))]"
    by (subst (1) g(1), subst ue_turn_identity) (simp add: sim_ue0_def get_or_insert_def)
  have t2: "ue_turn cr usim ?ue1 (NDownlinkNasTransport \<lparr>ndnt_amf_ue_ngap_id = i, ndnt_ran_ue_ngap_id = g,
      ndnt_nas_pdu = encode_auth_request_5g 0 rand ?tok\<rparr>) =
      UeContinue ?ue2 [send_uplink i g (encode_auth_response_5g ?res)]"
    by (subst (1) g(2), subst ue_turn_challenge [OF rand tok _ au]) (simp_all add: sim_ue0_def)
  have t3: "ue_turn cr usim ?ue2 (NDownlinkNasTransport \<lparr>ndnt_amf_ue_ngap_id = i, ndnt_ran_ue_ngap_id = g,
      ndnt_nas_pdu = encode_sec_mode_cmd_5g SELECTED_NAS_CIPHER_ALG SELECTED_NAS_INTEGRITY_ALG 0x2040\<rparr>) =
      UeContinue ?ue2 [send_uplink i g encode_sec_mode_complete_5g]"
    by (subst (1) g(3), subst ue_turn_security_mode) (simp_all add: sim_ue0_def)
  have run: "sim_run (n + 6) cr ay usim rand lost (sim_st m sm [ue_start ?ue0] [] ?ue0 None False) =
      sim_run n cr ay usim rand lost
        (sim_st (m\<lparr>a_world := w3, a_registry := (a_registry m)(imsi \<mapsto> i),
            a_hss := (a_hss m)(imsi \<mapsto> \<lparr>sr_ctx = usim, sr_sqn = 1\<rparr>)\<rparr>) sm
          [send_uplink i g encode_sec_mode_complete_5g] [] ?ue2 None False)" for n
  proof -
    have st: "ue_start ?ue0 = send_initial g (encode_registration_request 1 0 None 0x00C0)"
      by (simp add: ue_start_def sim_ue0_def)
    note a = sim_st_amf [OF _ s(1)] sim_st_amf [OF _ s(2)] sim_st_amf [OF _ s(3)]
      sim_st_ue [OF _ _ t1] sim_st_ue [OF _ _ t2] sim_st_ue [OF _ _ t3]
    have n: "n + 6 = Suc (Suc (Suc (Suc (Suc (Suc n)))))" by simp
    show ?thesis unfolding n st
      using rand tok res by (simp add: a length_auth_request_5g g(1) [symmetric] g(2) [symmetric] g(3) [symmetric] del: sim_run.simps)
  qed
  show ?thesis by (rule that [OF allI [OF run] w])
qed

end
