(* ===== verification/Sim_Complete.thy ===== *)
theory Sim_Complete
  imports Sim_Proof
begin

text \<open>
  The rest of the run of the simulation - the session with its user-plane check, and the release -
  and the theorem about the whole run.
\<close>

lemma accept_request_ran: "nicq_ran_ue_ngap_id (accept_request cr i g e t upf) = g"
  by (simp add: accept_request_def)

lemma sim_run_phase2:
  fixes m :: Amf
  assumes wf: "world_wf (a_world m)" and e: "abs_world (a_world m) i = Some e"
    and upf: "a_phase_b_upf m = Some upf" "length upf = 4" "length (ue_my_ip ue) = 4"
    and al: "teid_alloc (a_teids m) = (t, a')" and cr: "ctr_stream cr" "cmac_len cr" "hmac_len cr"
    and lost: "lost < 5" and ue: "ue_amf_id ue = Some i" "ue_kamf ue = Some (kamf_of cr e)"
  obtains w5 e5 where
    "\<forall>n. sim_run (n + 5) cr ay usim rand lost
        (sim_st m sm [send_uplink i (ue_ran_id ue) encode_sec_mode_complete_5g] [] ue None False) =
      sim_run n cr ay usim rand lost
        (sim_st (m\<lparr>a_world := w5, a_teids := a'\<rparr>)
          (session_opened ay sm t i (id_imsi (e_identity e)) (ue_dl_teid ue) (ue_my_ip ue))
          [send_uplink i (ue_ran_id ue) (encode_deregistration_request False)] [] ue None False)"
    "world_wf w5" "abs_world w5 = (abs_world (a_world m))(i \<mapsto> e5)"
    "e_nas_security5g e5 = Some ((sim_context cr (kamf_of cr e))\<lparr>dl5_count := 1\<rparr>)"
    "map_option tc_ul_teid (e_tunnel e5) = Some t" "e_identity e5 = e_identity e"
proof -
  let ?g = "ue_ran_id ue" and ?r = "accept_request cr i (ue_ran_id ue) e t upf"
  let ?rsp = "sim_ics_response i (ue_ran_id ue) (ue_my_ip ue) (ue_dl_teid ue)"
  let ?sm = "session_opened ay sm t i (id_imsi (e_identity e)) (ue_dl_teid ue) (ue_my_ip ue)"
  obtain m4 w5 e5 where s:
    "process_ngap cr rand m (send_uplink i ?g encode_sec_mode_complete_5g) =
      Some (([NInitialContextSetupRequest ?r],
        [N3CreateSession t i (id_imsi (e_identity e)) DEFAULT_PDU_SESSION_ID DEFAULT_QFI (synth_ue_ip i)
          (replicate 4 0)]), m4)"
    "process_ngap cr rand m4 (NInitialContextSetupResponse ?rsp) =
      Some (([], [N3UpdateBearer t (ue_dl_teid ue) (ue_my_ip ue)]), m\<lparr>a_world := w5, a_teids := a'\<rparr>)"
    and w: "world_wf w5" "abs_world w5 = (abs_world (a_world m))(i \<mapsto> e5)"
    "e_nas_security5g e5 = Some (snd (accept_5g cr i e))" "map_option tc_ul_teid (e_tunnel e5) = Some t"
    "e_identity e5 = e_identity e"
    by (rule sim_amf_phase2 [OF wf e upf(1) al])
  let ?m5 = "m\<lparr>a_world := w5, a_teids := a'\<rparr>"
  have s6: "process_ngap cr rand ?m5 (send_uplink i ?g encode_registration_complete) = Some (([], []), ?m5)"
    unfolding send_uplink_def by (rule reg_step6) simp
  have ue': "ue\<lparr>ue_amf_id := Some i\<rparr> = ue" using ue(1) by simp
  note t8 = ue_turn_context_setup [OF cr(1,2) ue, of usim t upf, folded sim_ics_response_def, unfolded ue']
  have fits: "ngap_fits (NInitialContextSetupRequest ?r)" "ngap_fits (NInitialContextSetupResponse ?rsp)"
    using accept_request_fits [OF cr(1,3) upf(2)] upf(3) by (simp_all add: sim_ics_response_def session_setup_ok_def)
  have echo: "sim_reply (sim_st ?m5 ?sm [] [] ue (Some (i, upf, t)) False) upf t = Some SIM_PAYLOAD"
    by (rule sim_reply_echo [OF _ session_routes]) (simp_all add: upf)
  have run: "sim_run (n + 5) cr ay usim rand lost
        (sim_st m sm [send_uplink i ?g encode_sec_mode_complete_5g] [] ue None False) =
      sim_run n cr ay usim rand lost
        (sim_st ?m5 ?sm [send_uplink i ?g (encode_deregistration_request False)] [] ue None False)" for n
  proof -
    have n: "n + 5 = Suc (Suc (Suc (Suc (Suc n))))" by simp
    show ?thesis unfolding n
      using fits by (simp add: sim_st_amf [OF _ s(1)] sim_st_ue_check [OF _ _ t8] sim_st_amf [OF _ s(2)]
          sim_st_amf [OF _ s6] session_opened_def [symmetric] sim_st_round_trip [OF echo lost]
          accept_request_ran del: sim_run.simps ngap_fits.simps(4,5))
  qed
  show ?thesis by (rule that [OF allI [OF run] w(1,2) w(3) [unfolded accept_5g_context] w(4,5)])
qed

lemma sim_run_phase3:
  fixes m :: Amf
  assumes wf: "world_wf (a_world m)" and e: "abs_world (a_world m) i = Some e"
    "e_nas_security5g e = Some ((sim_context cr k)\<lparr>dl5_count := 1\<rparr>)" "map_option tc_ul_teid (e_tunnel e) = Some t"
    and cr: "ctr_stream cr" "cmac_len cr" and ue: "ue_amf_id ue = Some i" "ue_kamf ue = Some k"
  obtains w7 where
    "sim_run (n + 5) cr ay usim rand lost
        (sim_st m sm [send_uplink i (ue_ran_id ue) (encode_deregistration_request False)] [] ue None False) =
      SimFinished
        (sim_st (m\<lparr>a_registry := (a_registry m)(id_imsi (e_identity e) := None), a_world := w7,
            a_teids := teid_release (a_teids m) t\<rparr>) (apply_n3_event ay sm (N3RemoveSession t)) [] [] ue None True)"
    "world_wf w7" "abs_world w7 = (abs_world (a_world m))(i := None)"
proof -
  let ?g = "ue_ran_id ue"
  let ?acc = "NDownlinkNasTransport \<lparr>ndnt_amf_ue_ngap_id = i, ndnt_ran_ue_ngap_id = ?g,
          ndnt_nas_pdu = fst (encode_protected_5g cr NAS5GS_SHT_INTEGRITY_CIPHERED ((sim_context cr k)\<lparr>dl5_count := 1\<rparr>)
            encode_deregistration_accept)\<rparr>"
  obtain m6 w7 where s:
    "process_ngap cr rand m (send_uplink i ?g (encode_deregistration_request False)) =
      Some (([?acc, NUeContextReleaseCommand i ?g NgNasDeregister], []), m6)"
    "process_ngap cr rand m6 (NUeContextReleaseComplete \<lparr>ncrc_amf_ue_ngap_id = i, ncrc_ran_ue_ngap_id = ?g\<rparr>) =
      Some (([], [N3RemoveSession t]),
        m\<lparr>a_registry := (a_registry m)(id_imsi (e_identity e) := None), a_world := w7,
          a_teids := teid_release (a_teids m) t\<rparr>)"
    and w: "world_wf w7" "abs_world w7 = (abs_world (a_world m))(i := None)"
    by (rule sim_amf_phase3 [OF wf e])
  have ue': "ue\<lparr>ue_amf_id := Some i\<rparr> = ue" using ue(1) by simp
  note t13 = ue_turn_release_accept [OF cr ue, of usim, unfolded ue']
  have f: "ngap_fits ?acc" by (rule protected_accept_fits [OF cr(1)])
  have n: "n + 5 = Suc (Suc (Suc (Suc (Suc n))))" by simp
  have "sim_run (n + 5) cr ay usim rand lost
        (sim_st m sm [send_uplink i ?g (encode_deregistration_request False)] [] ue None False) =
      SimFinished
        (sim_st (m\<lparr>a_registry := (a_registry m)(id_imsi (e_identity e) := None), a_world := w7,
            a_teids := teid_release (a_teids m) t\<rparr>) (apply_n3_event ay sm (N3RemoveSession t)) [] [] ue None True)"
    unfolding n using f
    by (simp add: sim_st_amf [OF _ s(1)] sim_st_ue [OF _ _ t13] sim_st_ue_done [OF _ _ ue_turn_release]
        sim_st_amf [OF _ s(2)] sim_st_finished del: sim_run.simps)
  then show ?thesis by (rule that [OF _ w])
qed

definition sim_start :: "Amf \<Rightarrow> SessionManager \<Rightarrow> UeState \<Rightarrow> SimState" where
  "sim_start m sm ue =
     \<lparr>sim_amf = m, sim_sm = sm, sim_to_amf = [enc_ngap (ue_start ue)], sim_to_ue = [], sim_ue = ue,
      sim_check = None, sim_ended = False\<rparr>"

text \<open>
  C1: the simulation reaches its end. Take an AMF in a well-formed state with room for an entity,
  that serves a UPF and knows the subscriber; take the subscriber of the simulator with the same
  key. With 16 turns or more the run is finished: the subscriber sent its requests, was challenged and answered,
  opened the protected accept message, got its packet back through the session's tunnel (fewer
  than five datagrams were lost), deregistered, and was released. Afterwards the AMF
  has the same entities as before, the subscriber is not registered, its sequence number has
  advanced by one, its TEID is back in the allocator and its session and uplink route are gone.
\<close>

theorem simulation_completes:
  fixes m :: Amf
  assumes wf: "world_wf (a_world m)" and room: "unat (next_id (a_world m)) + 1 < 4294967296"
    and sub: "a_hss m imsi = Some \<lparr>sr_ctx = usim, sr_sqn = 0\<rparr>" "imsi < 2 ^ 40" "length (mc_opc usim) = 16"
    and upf: "a_phase_b_upf m = Some upf" "length upf = 4" "length ip = 4"
    and al: "teid_alloc (a_teids m) = (t, a')" and lost: "lost < 5" and rand: "length rand = 16"
    and cr: "aes_len cr" "hmac_len cr" "ctr_stream cr" "cmac_len cr" and n: "16 \<le> n"
  shows "\<exists>s. sim_run n cr ay usim rand lost (sim_start m sm (sim_ue0 g dl imsi ip)) = SimFinished s \<and>
    abs_world (a_world (sim_amf s)) = abs_world (a_world m) \<and>
    a_registry (sim_amf s) = (a_registry m)(imsi := None) \<and>
    a_hss (sim_amf s) = (a_hss m)(imsi \<mapsto> \<lparr>sr_ctx = usim, sr_sqn = 1\<rparr>) \<and>
    a_teids (sim_amf s) = teid_release a' t \<and>
    get_session (sim_sm s) = (get_session sm)(t := None) \<and>
    lookup_ul (sm_routing (sim_sm s)) = (lookup_ul (sm_routing sm))(t := None) \<and>
    sim_to_amf s = [] \<and> sim_to_ue s = []"
proof -
  let ?e = "sim_authenticated cr usim rand imsi g" and ?ue0 = "sim_ue0 g dl imsi ip"
  obtain k where k: "n = ((k + 5) + 5) + 6" using le_Suc_ex [OF n] by (auto intro: that)
  have start: "sim_start m sm ?ue0 = sim_st m sm [ue_start ?ue0] [] ?ue0 None False"
    by (simp add: sim_start_def sim_st_def)
  obtain i w3 where r1: "\<forall>n. sim_run (n + 6) cr ay usim rand lost (sim_st m sm [ue_start ?ue0] [] ?ue0 None False) =
      sim_run n cr ay usim rand lost
        (sim_st (m\<lparr>a_world := w3, a_registry := (a_registry m)(imsi \<mapsto> i),
            a_hss := (a_hss m)(imsi \<mapsto> \<lparr>sr_ctx = usim, sr_sqn = 1\<rparr>)\<rparr>) sm
          [send_uplink i g encode_sec_mode_complete_5g] []
          (?ue0\<lparr>ue_amf_id := Some i, ue_kamf := Some (kamf_of cr ?e)\<rparr>) None False)"
    and w3: "world_wf w3" "abs_world (a_world m) i = None" "abs_world w3 = (abs_world (a_world m))(i \<mapsto> ?e)"
    by (rule sim_run_phase1 [where ay = ay and lost = lost and sm = sm and g = g and dl = dl and ip = ip, OF wf room sub cr(1,2) rand])
  let ?m3 = "m\<lparr>a_world := w3, a_registry := (a_registry m)(imsi \<mapsto> i),
            a_hss := (a_hss m)(imsi \<mapsto> \<lparr>sr_ctx = usim, sr_sqn = 1\<rparr>)\<rparr>"
  let ?ue = "?ue0\<lparr>ue_amf_id := Some i, ue_kamf := Some (kamf_of cr ?e)\<rparr>"
  have h: "world_wf (a_world ?m3)" "abs_world (a_world ?m3) i = Some ?e" "a_phase_b_upf ?m3 = Some upf"
    "length (ue_my_ip ?ue) = 4" "teid_alloc (a_teids ?m3) = (t, a')" "ue_amf_id ?ue = Some i"
    "ue_kamf ?ue = Some (kamf_of cr ?e)" "ue_ran_id ?ue = g" "id_imsi (e_identity ?e) = imsi"
    using w3 upf al
    by (simp_all add: sim_ue0_def sim_authenticated_def sim_challenged_def challenged_5g_def Let_def)
  obtain w5 e5 where r2: "\<forall>n. sim_run (n + 5) cr ay usim rand lost
        (sim_st ?m3 sm [send_uplink i (ue_ran_id ?ue) encode_sec_mode_complete_5g] [] ?ue None False) =
      sim_run n cr ay usim rand lost
        (sim_st (?m3\<lparr>a_world := w5, a_teids := a'\<rparr>)
          (session_opened ay sm t i (id_imsi (e_identity ?e)) (ue_dl_teid ?ue) (ue_my_ip ?ue))
          [send_uplink i (ue_ran_id ?ue) (encode_deregistration_request False)] [] ?ue None False)"
    and w5: "world_wf w5" "abs_world w5 = (abs_world (a_world ?m3))(i \<mapsto> e5)"
      "e_nas_security5g e5 = Some ((sim_context cr (kamf_of cr ?e))\<lparr>dl5_count := 1\<rparr>)"
      "map_option tc_ul_teid (e_tunnel e5) = Some t" "e_identity e5 = e_identity ?e"
    by (rule sim_run_phase2 [where ay = ay and usim = usim and rand = rand and sm = sm, OF h(1-3) upf(2) h(4,5) cr(3,4,2) lost h(6,7)])
  let ?m5 = "?m3\<lparr>a_world := w5, a_teids := a'\<rparr>"
  have h5: "world_wf (a_world ?m5)" "abs_world (a_world ?m5) i = Some e5" using w5 by simp_all
  obtain w7 where r3: "sim_run (k + 5) cr ay usim rand lost
        (sim_st ?m5 (session_opened ay sm t i (id_imsi (e_identity ?e)) (ue_dl_teid ?ue) (ue_my_ip ?ue))
          [send_uplink i (ue_ran_id ?ue) (encode_deregistration_request False)] [] ?ue None False) =
      SimFinished
        (sim_st (?m5\<lparr>a_registry := (a_registry ?m5)(id_imsi (e_identity e5) := None), a_world := w7,
            a_teids := teid_release (a_teids ?m5) t\<rparr>)
          (apply_n3_event ay (session_opened ay sm t i (id_imsi (e_identity ?e)) (ue_dl_teid ?ue) (ue_my_ip ?ue))
            (N3RemoveSession t)) [] [] ?ue None True)"
    and w7: "world_wf w7" "abs_world w7 = (abs_world (a_world ?m5))(i := None)"
    by (rule sim_run_phase3 [where ay = ay and usim = usim and rand = rand and lost = lost and n = k, OF h5 w5(3,4) cr(3,4) h(6,7)])
  have same: "abs_world w7 = abs_world (a_world m)" using w7(2) w5(2) w3 by (auto simp: fun_eq_iff)
  show ?thesis
    unfolding k start r1 [rule_format] r2 [rule_format, unfolded h(8)] r3 [unfolded h(8)]
    using same w5(5) h(9) by (simp add: sim_st_def session_removed fun_eq_iff)
qed

theorem simulation_completes_witness:
  "\<exists>s. sim_run 16 sample_crypto sample_aya (MilenageContext_new (replicate 16 1) (replicate 16 2)) (replicate 16 7) 4
      (sim_start (start_amf (Some [10, 0, 0, 1]) (provision Hss_new TEST_IMSI (replicate 16 1) (replicate 16 2)))
        SessionManager_new (sim_ue0 RAN_UE_NGAP_ID_BASE MOCK_DL_TEID_BASE TEST_IMSI [10, 0, 0, 2])) = SimFinished s \<and>
    a_registry (sim_amf s) = ImsiRegistry_new \<and> lookup_ul (sm_routing (sim_sm s)) = Map.empty"
proof -
  let ?m = "start_amf (Some [10, 0, 0, 1]) (provision Hss_new TEST_IMSI (replicate 16 1) (replicate 16 2))"
  obtain t a' where al: "teid_alloc (a_teids ?m) = (t, a')" by (cases "teid_alloc (a_teids ?m)")
  have m: "world_wf (a_world ?m)" "unat (next_id (a_world ?m)) + 1 < 4294967296"
    "a_hss ?m TEST_IMSI = Some \<lparr>sr_ctx = MilenageContext_new (replicate 16 1) (replicate 16 2), sr_sqn = 0\<rparr>"
    "TEST_IMSI < 2 ^ 40" "length (mc_opc (MilenageContext_new (replicate 16 1) (replicate 16 2))) = 16"
    "a_phase_b_upf ?m = Some [10, 0, 0, 1]" "length [10, 0, 0, 1 :: u8] = 4" "length [10, 0, 0, 2 :: u8] = 4"
    using start_amf_ok by (simp_all add: provision_def TEST_IMSI_def MilenageContext_new_def)
  have none: "(lookup_ul (sm_routing SessionManager_new))(t := None) = Map.empty"
    by (simp add: fun_eq_iff lookup_ul_def SessionManager_new_def RoutingTable_new_def)
  show ?thesis
    using simulation_completes [OF m al _ _ sample_crypto_ok(4,3,1,2), of 4 "replicate 16 7" 16 sample_aya
        SessionManager_new RAN_UE_NGAP_ID_BASE MOCK_DL_TEID_BASE]
    by (auto simp: Amf_new_def ImsiRegistry_new_def none)
qed

end
