(* ===== verification/Mme_Steps.thy ===== *)
theory Mme_Steps
  imports Mme_Node
begin

text \<open>
  The steps of attach and detach, one lemma per message: what the MME answers, which events it
  announces, and what becomes of the entity. The storage is seen as the map \<open>abs_world\<close>, so every
  lemma also says that no other entity changes.
\<close>

lemma unwrap_plain_lte [simp]:
  "unwrap_uplink cr w i (encode_auth_response r) = (Some (encode_auth_response r), w)"
  "unwrap_uplink cr w i encode_sec_mode_complete = (Some encode_sec_mode_complete, w)"
  "unwrap_uplink cr w i encode_attach_complete = (Some encode_attach_complete, w)"
  "unwrap_uplink cr w i (encode_detach_request ty so k guti) = (Some (encode_detach_request ty so k guti), w)"
  by (simp_all add: unwrap_uplink_def encode_auth_response_def encode_sec_mode_complete_def
      encode_attach_complete_def encode_detach_request_def write_lv_def NAS_PLAIN_HEADER_def NAS_EPS_MM_PD_def SHT_PLAIN_def Let_def)

lemma lte_step1:
  fixes m :: Mme and cr :: crypto and rand :: bytes
  assumes wf: "world_wf (m_world m)" and room: "unat (next_id (m_world m)) + 1 < 4294967296"
    and sub: "m_hss m imsi = Some sub" and imsi: "imsi < 10 ^ 15"
    and u: "ium_nas_pdu u = encode_attach_request imsi ty ksi"
  defines "sqn \<equiv> Sqn_to_bytes (sr_sqn sub)"
  defines "av \<equiv> milenage_compute cr (sr_ctx sub) rand sqn MME_AMF"
  obtains ent w' where "process_s1ap cr rand m (MInitialUeMessage u) =
       Some (([MDownlinkNasTransport \<lparr>dnt_mme_ue_s1ap_id = ent,
         dnt_enb_ue_s1ap_id = ium_enb_ue_s1ap_id u,
         dnt_nas_pdu = encode_auth_request 0 rand (autn av sqn MME_AMF)\<rparr>], []),
         m\<lparr>m_world := w', m_registry := (m_registry m)(imsi \<mapsto> ent),
           m_hss := (m_hss m)(imsi \<mapsto> sub\<lparr>sr_sqn := take_bit 48 (sr_sqn sub + 1)\<rparr>)\<rparr>)"
    "world_wf w'" "abs_world (m_world m) ent = None"
    "abs_world w' = (abs_world (m_world m))
       (ent \<mapsto> challenged_entity imsi (ium_enb_ue_s1ap_id u) rand av (take 3 (ium_tai u)) sqn)"
proof -
  obtain ent w1 where sp: "spawn (m_world m) = Some (ent, w1)" "world_wf w1" "abs_world (m_world m) ent = None"
    "abs_world w1 = (abs_world (m_world m))(ent \<mapsto> empty_entity)"
    using spawn_abs [OF wf room] by blast
  define sec where "sec = SecurityContext_new_empty\<lparr>pending_rand := rand, pending_xres := av_res av,
    sc_ck := av_ck av, sc_ik := av_ik av, sc_ak := av_ak av, sc_plmn := take 3 (ium_tai u), sc_sqn_used := sqn\<rparr>"
  let ?w = "set_auth_state (insert_security (insert_identity w1 ent
    \<lparr>id_imsi = imsi, id_enb_ue_s1ap_id = ium_enb_ue_s1ap_id u, id_ue_ip = replicate 4 0\<rparr>) ent sec) ent ChallengeIssued"
  have gen: "generate_auth_vector cr rand (m_hss m) imsi =
      (Some \<lparr>hi_rand = rand, hi_vector = av, hi_sqn_used = sqn\<rparr>,
       (m_hss m)(imsi \<mapsto> sub\<lparr>sr_sqn := take_bit 48 (sr_sqn sub + 1)\<rparr>))"
    using generate_auth_vector_Some [of "m_hss m" imsi sub cr rand] sub by (simp add: av_def sqn_def MME_AMF_def)
  show ?thesis
  proof (rule that [of ent ?w])
    show "process_s1ap cr rand m (MInitialUeMessage u) =
       Some (([MDownlinkNasTransport \<lparr>dnt_mme_ue_s1ap_id = ent,
         dnt_enb_ue_s1ap_id = ium_enb_ue_s1ap_id u,
         dnt_nas_pdu = encode_auth_request 0 rand (autn av sqn MME_AMF)\<rparr>], []),
         m\<lparr>m_world := ?w, m_registry := (m_registry m)(imsi \<mapsto> ent),
           m_hss := (m_hss m)(imsi \<mapsto> sub\<lparr>sr_sqn := take_bit 48 (sr_sqn sub + 1)\<rparr>)\<rparr>)"
      using sp(1) gen attach_request_roundtrip [OF imsi, of ty ksi]
      by (simp add: process_s1ap_def start_attach_def Let_def u register_def sec_def)
    show "abs_world ?w = (abs_world (m_world m))
       (ent \<mapsto> challenged_entity imsi (ium_enb_ue_s1ap_id u) rand av (take 3 (ium_tai u)) sqn)"
      using sp(2,4) by (simp add: ecs_wf ecs_abs challenged_entity_def sec_def SecurityContext_new_empty_def empty_entity_def)
  qed (use sp in \<open>simp_all add: ecs_wf\<close>)
qed

lemma lte_step2:
  assumes wf: "world_wf (m_world m)" and e: "abs_world (m_world m) i = Some e"
    and res: "pending_xres (e_security e) = res" "length res = 8"
    and u: "unt_mme_ue_s1ap_id u = i" "unt_nas_pdu u = encode_auth_response res"
  obtains w' where "process_s1ap cr rand m (MUplinkNasTransport u) =
       Some (([MDownlinkNasTransport \<lparr>dnt_mme_ue_s1ap_id = i, dnt_enb_ue_s1ap_id = unt_enb_ue_s1ap_id u,
         dnt_nas_pdu = encode_sec_mode_cmd SELECTED_EEA SELECTED_EIA 0 [0x20, 0x40]\<rparr>], []), m\<lparr>m_world := w'\<rparr>)"
    "world_wf w'" "abs_world w' = (abs_world (m_world m))
       (i \<mapsto> e\<lparr>e_security := clear_pending_challenge (e_security e), e_auth := Authenticated\<rparr>)"
proof -
  let ?w = "set_auth_state (security_mut (m_world m) i clear_pending_challenge) i Authenticated"
  have sec: "security (m_world m) i = Some (e_security e)" using wf e by (simp add: ecs_abs)
  show ?thesis
  proof (rule that [of ?w])
    show "process_s1ap cr rand m (MUplinkNasTransport u) =
       Some (([MDownlinkNasTransport \<lparr>dnt_mme_ue_s1ap_id = i, dnt_enb_ue_s1ap_id = unt_enb_ue_s1ap_id u,
         dnt_nas_pdu = encode_sec_mode_cmd SELECTED_EEA SELECTED_EIA 0 [0x20, 0x40]\<rparr>], []), m\<lparr>m_world := ?w\<rparr>)"
      using auth_response_roundtrip [OF res(2)] res(1) u sec
      by (simp add: process_s1ap_def handle_uplink_nas_def dispatch_nas_def handle_auth_response_def verify_res_def Let_def)
    show "abs_world ?w = (abs_world (m_world m))
       (i \<mapsto> e\<lparr>e_security := clear_pending_challenge (e_security e), e_auth := Authenticated\<rparr>)"
      using wf e by (cases e) (simp add: ecs_wf ecs_abs)
  qed (use wf in \<open>simp_all add: ecs_wf\<close>)
qed

definition kasme_of :: "crypto \<Rightarrow> entity \<Rightarrow> bytes" where
  "kasme_of cr e = (let s = e_security e in
     derive_kasme cr (sc_ck s) (sc_ik s) (sc_plmn s) (xor_bytes (sc_sqn_used s) (sc_ak s)))"

definition lte_accept_request :: "crypto \<Rightarrow> u32 \<Rightarrow> u32 \<Rightarrow> entity \<Rightarrow> u32 \<Rightarrow> bytes \<Rightarrow> InitialContextSetupRequest" where
  "lte_accept_request cr i enb e t upf =
     \<lparr>icq_mme_ue_s1ap_id = i, icq_enb_ue_s1ap_id = enb,
      icq_e_rabs = [\<lparr>ets_erab_id = 5, ets_qci = 9, ets_gtp_teid = to_be32 t, ets_transport_layer_addr = upf\<rparr>],
      icq_nas_pdu = Some (fst (accept_pdu cr e)), icq_ue_ambr = (50000000, 50000000), icq_security_key = kasme_of cr e\<rparr>"

lemma lte_step3:
  assumes wf: "world_wf (m_world m)" and e: "abs_world (m_world m) i = Some e"
    and upf: "m_phase3_upf m = Some upf" and al: "teid_alloc (m_teids m) = (t, a')"
    and u: "unt_mme_ue_s1ap_id u = i" "unt_nas_pdu u = encode_sec_mode_complete"
  obtains w' where "process_s1ap cr rand m (MUplinkNasTransport u) =
      Some (([MInitialContextSetupRequest (lte_accept_request cr i (unt_enb_ue_s1ap_id u) e t upf)],
        [CreateSession t i (id_imsi (e_identity e)) (id_ue_ip (e_identity e)) (replicate 4 0) 9]),
        m\<lparr>m_world := w', m_teids := a'\<rparr>)"
    "world_wf w'" "abs_world w' = (abs_world (m_world m))
      (i \<mapsto> e\<lparr>e_security := clear_post_kasme (e_security e), e_nas_security := Some (snd (accept_pdu cr e)),
         e_tunnel := Some \<lparr>tc_ul_teid = t, tc_dl_teid = 0, tc_enb_addr = replicate 4 0\<rparr>\<rparr>)"
proof -
  obtain pdu ctx where ap: "accept_pdu cr e = (pdu, ctx)" by (cases "accept_pdu cr e")
  note ap' = ap [unfolded accept_pdu_def Let_def]
  let ?w = "set_tunnel (set_nas_security (security_mut (m_world m) i clear_post_kasme) i ctx) i
      \<lparr>tc_ul_teid = t, tc_dl_teid = 0, tc_enb_addr = replicate 4 0\<rparr>"
  have g: "identity (m_world m) i = Some (e_identity e)" "security (m_world m) i = Some (e_security e)"
    using wf e by (simp_all add: ecs_abs)
  show ?thesis
  proof (rule that [of ?w])
    show "process_s1ap cr rand m (MUplinkNasTransport u) =
      Some (([MInitialContextSetupRequest (lte_accept_request cr i (unt_enb_ue_s1ap_id u) e t upf)],
        [CreateSession t i (id_imsi (e_identity e)) (id_ue_ip (e_identity e)) (replicate 4 0) 9]),
        m\<lparr>m_world := ?w, m_teids := a'\<rparr>)"
      using ap' g u upf al
      by (simp add: process_s1ap_def handle_uplink_nas_def dispatch_nas_def bare_messages_roundtrip
          handle_security_mode_complete_def Let_def lte_accept_request_def ap kasme_of_def)
    show "abs_world ?w = (abs_world (m_world m))
      (i \<mapsto> e\<lparr>e_security := clear_post_kasme (e_security e), e_nas_security := Some (snd (accept_pdu cr e)),
         e_tunnel := Some \<lparr>tc_ul_teid = t, tc_dl_teid = 0, tc_enb_addr = replicate 4 0\<rparr>\<rparr>)"
      using wf e ap by (cases e) (simp add: ecs_abs ecs_wf)
  qed (use wf in \<open>simp_all add: ecs_wf\<close>)
qed

lemma lte_step4:
  assumes wf: "world_wf (m_world m)" and e: "abs_world (m_world m) i = Some e" "e_tunnel e = Some tu"
    and r: "icp_mme_ue_s1ap_id r = i" "icp_e_rabs_setup r = it # its"
  defines "dl \<equiv> from_be (esi_gtp_teid it)" and "addr \<equiv> esi_transport_layer_addr it"
  obtains w' where "process_s1ap cr rand m (MInitialContextSetupResponse r) =
      Some (([], [UpdateBearer (tc_ul_teid tu) dl addr]), m\<lparr>m_world := w'\<rparr>)"
    "world_wf w'" "abs_world w' = (abs_world (m_world m))
      (i \<mapsto> e\<lparr>e_tunnel := Some (tu\<lparr>tc_dl_teid := dl, tc_enb_addr := addr\<rparr>)\<rparr>)"
proof -
  let ?w = "tunnel_mut (m_world m) i (\<lambda>t. t\<lparr>tc_dl_teid := dl, tc_enb_addr := addr\<rparr>)"
  have t: "tunnel (m_world m) i = Some tu" using wf e by (simp add: ecs_abs)
  show ?thesis
  proof (rule that [of ?w])
    show "process_s1ap cr rand m (MInitialContextSetupResponse r) =
      Some (([], [UpdateBearer (tc_ul_teid tu) dl addr]), m\<lparr>m_world := ?w\<rparr>)"
      using r t by (simp add: process_s1ap_def handle_icsrsp_def Let_def dl_def addr_def)
    show "abs_world ?w = (abs_world (m_world m))
      (i \<mapsto> e\<lparr>e_tunnel := Some (tu\<lparr>tc_dl_teid := dl, tc_enb_addr := addr\<rparr>)\<rparr>)"
      using wf e by (cases e) (simp add: ecs_abs)
  qed (use wf in \<open>simp_all add: ecs_wf\<close>)
qed

lemma lte_step5:
  assumes "unt_nas_pdu u = encode_attach_complete"
  shows "process_s1ap cr rand m (MUplinkNasTransport u) = Some (([], []), m)"
  using assms by (simp add: process_s1ap_def handle_uplink_nas_def dispatch_nas_def
      bare_messages_roundtrip handle_attach_complete_def)

lemma lte_step6:
  fixes m :: Mme and cr :: crypto
  assumes wf: "world_wf (m_world m)" and e: "abs_world (m_world m) i = Some e" "e_nas_security e = Some ctx"
    and u: "unt_mme_ue_s1ap_id u = i" "unt_nas_pdu u = encode_detach_request ty False k guti"
  defines "prot \<equiv> encode_protected cr SHT_INTEGRITY_CIPHERED NAS_BEARER ctx encode_detach_accept"
  obtains w' where "process_s1ap cr rand m (MUplinkNasTransport u) =
      Some (([MDownlinkNasTransport \<lparr>dnt_mme_ue_s1ap_id = i, dnt_enb_ue_s1ap_id = unt_enb_ue_s1ap_id u,
          dnt_nas_pdu = fst prot\<rparr>,
        MUeContextReleaseCommand i (unt_enb_ue_s1ap_id u) NasDetach], []), m\<lparr>m_world := w'\<rparr>)"
    "world_wf w'" "abs_world w' = (abs_world (m_world m))(i \<mapsto> e\<lparr>e_nas_security := Some (snd prot)\<rparr>)"
proof -
  obtain pdu ctx' where p: "prot = (pdu, ctx')" by (cases prot)
  let ?w = "nas_security_mut (m_world m) i (\<lambda>_. ctx')"
  have g: "nas_security (m_world m) i = Some ctx" "is_live (m_world m) i"
    using wf e by (simp_all add: ecs_abs is_live_abs)
  show ?thesis
  proof (rule that [of ?w])
    show "process_s1ap cr rand m (MUplinkNasTransport u) =
      Some (([MDownlinkNasTransport \<lparr>dnt_mme_ue_s1ap_id = i, dnt_enb_ue_s1ap_id = unt_enb_ue_s1ap_id u,
          dnt_nas_pdu = fst prot\<rparr>,
        MUeContextReleaseCommand i (unt_enb_ue_s1ap_id u) NasDetach], []), m\<lparr>m_world := ?w\<rparr>)"
      using u g p detach_request_roundtrip [of ty False k guti]
      by (simp add: process_s1ap_def handle_uplink_nas_def dispatch_nas_def handle_detach_request_def Let_def prot_def)
    show "abs_world ?w = (abs_world (m_world m))(i \<mapsto> e\<lparr>e_nas_security := Some (snd prot)\<rparr>)"
      using wf e p by (cases e) (simp add: ecs_abs)
  qed (use wf in \<open>simp_all add: ecs_wf\<close>)
qed

lemma lte_step7:
  assumes wf: "world_wf (m_world m)" and e: "abs_world (m_world m) i = Some e" "e_tunnel e = Some tu"
    and r: "crc_mme_ue_s1ap_id r = i"
  shows "process_s1ap cr rand m (MUeContextReleaseComplete r) =
      Some (([], [RemoveSession (tc_ul_teid tu)]),
        m\<lparr>m_registry := (m_registry m)(id_imsi (e_identity e) := None), m_world := despawn (m_world m) i,
          m_teids := teid_release (m_teids m) (tc_ul_teid tu)\<rparr>)"
    "world_wf (despawn (m_world m) i)"
    "abs_world (despawn (m_world m) i) = (abs_world (m_world m))(i := None)"
proof -
  have "tunnel (m_world m) i = Some tu" "identity (m_world m) i = Some (e_identity e)"
    using wf e by (simp_all add: ecs_abs)
  then show "process_s1ap cr rand m (MUeContextReleaseComplete r) =
      Some (([], [RemoveSession (tc_ul_teid tu)]),
        m\<lparr>m_registry := (m_registry m)(id_imsi (e_identity e) := None), m_world := despawn (m_world m) i,
          m_teids := teid_release (m_teids m) (tc_ul_teid tu)\<rparr>)"
    using r by (simp add: process_s1ap_def handle_release_complete_def Let_def deregister_def)
qed (use wf in \<open>simp_all add: ecs_wf ecs_abs\<close>)

end
