(* ===== verification/Lte_Sim.thy ===== *)
theory Lte_Sim
  imports Ue_Sim Mme_Steps
begin

text \<open>
  The subscriber and eNodeB side of \<open>crates/mme-sim/src/main.rs\<close>: \<open>run_ue\<close> as a state machine over
  the S1AP messages it receives and the user-plane check \<open>user_plane_round_trip\<close>, and the composition of
  the subscriber with the LTE core node over two queues of PDUs. The packet and the echo
  of the UPF are those of the 5G simulator (\<open>sim_gpdu\<close>, \<open>upf_echo\<close>), as the two sources have the same text.
  The key and OPc of the USIM are an argument, as in \<open>Ue_Sim\<close>.
\<close>

section \<open>Constants and messages\<close>

definition LTE_TEST_IMSI :: u64 where "LTE_TEST_IMSI = 901700000002"
definition LTE_TEST_PLMN :: bytes where "LTE_TEST_PLMN = [0x00, 0x11, 0x22]"
definition LTE_TEST_TAI :: bytes where "LTE_TEST_TAI = [0x00, 0x11, 0x22, 0x00, 0x01]"
definition TEST_EUTRAN_CGI :: bytes where "TEST_EUTRAN_CGI = replicate 7 0"
definition ENB_UE_S1AP_ID :: u32 where "ENB_UE_S1AP_ID = 7"
definition UE_SELECTED_EEA :: NasEeaAlgorithm where "UE_SELECTED_EEA = Eea2"
definition UE_SELECTED_EIA :: NasEiaAlgorithm where "UE_SELECTED_EIA = Eia2"
definition MOCK_DL_TEID :: u32 where "MOCK_DL_TEID = 0xAABBCCDD"

definition lte_send_initial :: "bytes \<Rightarrow> S1apMessage" where
  "lte_send_initial nas_pdu = MInitialUeMessage
     \<lparr>ium_enb_ue_s1ap_id = ENB_UE_S1AP_ID, ium_nas_pdu = nas_pdu, ium_tai = LTE_TEST_TAI,
      ium_eutran_cgi = TEST_EUTRAN_CGI, ium_rrc_cause = 0\<rparr>"

definition lte_send_uplink :: "u32 \<Rightarrow> bytes \<Rightarrow> S1apMessage" where
  "lte_send_uplink mme_ue_s1ap_id nas_pdu = MUplinkNasTransport
     \<lparr>unt_mme_ue_s1ap_id = mme_ue_s1ap_id, unt_enb_ue_s1ap_id = ENB_UE_S1AP_ID, unt_nas_pdu = nas_pdu,
      unt_tai = LTE_TEST_TAI, unt_eutran_cgi = TEST_EUTRAN_CGI\<rparr>"

section \<open>The UE\<close>

record LteUe =
  lu_my_ip :: bytes
  lu_mme_id :: "u32 option"
  lu_kasme :: "bytes option"

datatype LteOutcome =
    LteContinue LteUe "S1apMessage list"
  | LteRoundTrip LteUe "S1apMessage list" u32 bytes u32
  | LteDone "S1apMessage list"
  | LteFail UeError

definition lte_start :: S1apMessage where
  "lte_start = lte_send_initial (encode_attach_request LTE_TEST_IMSI 1 0)"

text \<open>The answer to an authentication request: RES and the key Kasme.\<close>

definition lte_authenticate :: "crypto \<Rightarrow> MilenageContext \<Rightarrow> bytes \<Rightarrow> bytes \<times> bytes" where
  "lte_authenticate cr usim rand =
     (let sqn_used = replicate 6 0;
          vec = generate_vector_with_rand cr usim (Sqn_from_bytes sqn_used) [0x80, 0x00] rand;
          sqn_xor_ak = xor_bytes sqn_used (av_ak vec)
      in (av_res vec, derive_kasme cr (av_ck vec) (av_ik vec) LTE_TEST_PLMN sqn_xor_ak))"

definition lte_downlink_nas :: "crypto \<Rightarrow> MilenageContext \<Rightarrow> LteUe \<Rightarrow> DownlinkNasTransport \<Rightarrow> LteOutcome" where
  "lte_downlink_nas cr usim ue dl =
     (let mme = get_or_insert (lu_mme_id ue) (dnt_mme_ue_s1ap_id dl);
          ue = ue\<lparr>lu_mme_id := Some mme\<rparr>;
          nas_pdu = dnt_nas_pdu dl;
          sht = (if nas_pdu = [] then 0 else drop_bit 4 (nas_pdu ! 0) AND 0x0F)
      in if sht \<noteq> SHT_PLAIN then
           (case lu_kasme ue of
              None \<Rightarrow> LteFail (UeReason ''received a protected PDU before Kasme was derived'')
            | Some kasme \<Rightarrow>
                (case fst (decode_protected_downlink cr NAS_BEARER
                        (NasSecurityContext_new cr kasme UE_SELECTED_EEA UE_SELECTED_EIA) nas_pdu) of
                   None \<Rightarrow> LteFail (UeReason ''failed to decrypt/verify DetachAccept'')
                 | Some plain \<Rightarrow>
                     (case decode_nas plain of
                        Inl e \<Rightarrow> LteFail (UeDecode e)
                      | Inr DetachAccept \<Rightarrow> LteContinue ue []
                      | Inr _ \<Rightarrow> LteFail (UeReason ''expected DetachAccept''))))
         else
           (case decode_nas nas_pdu of
              Inl e \<Rightarrow> LteFail (UeDecode e)
            | Inr (AuthenticationRequest req) \<Rightarrow>
                let (res, kasme) = lte_authenticate cr usim (aq_rand req) in
                LteContinue (ue\<lparr>lu_kasme := Some kasme\<rparr>) [lte_send_uplink mme (encode_auth_response res)]
            | Inr (SecurityModeCommand _) \<Rightarrow> LteContinue ue [lte_send_uplink mme encode_sec_mode_complete]
            | Inr _ \<Rightarrow> LteFail (UeReason ''unexpected plain NAS PDU'')))"

definition lte_context_setup :: "crypto \<Rightarrow> LteUe \<Rightarrow> InitialContextSetupRequest \<Rightarrow> LteOutcome" where
  "lte_context_setup cr ue icsr =
     (let mme = get_or_insert (lu_mme_id ue) (icq_mme_ue_s1ap_id icsr);
          ue = ue\<lparr>lu_mme_id := Some mme\<rparr>
      in case lu_kasme ue of
           None \<Rightarrow> LteFail (UeReason ''received InitialContextSetupRequest before Kasme was derived'')
         | Some kasme \<Rightarrow>
             (case icq_nas_pdu icsr of
                None \<Rightarrow> LteFail (UeReason ''InitialContextSetupRequest with no piggybacked NAS PDU'')
              | Some nas_pdu \<Rightarrow>
                  (case fst (decode_protected_downlink cr NAS_BEARER
                          (NasSecurityContext_new cr kasme UE_SELECTED_EEA UE_SELECTED_EIA) nas_pdu) of
                     None \<Rightarrow> LteFail (UeReason ''failed to decrypt/verify AttachAccept'')
                   | Some plain \<Rightarrow>
                       (case decode_nas plain of
                          Inl e \<Rightarrow> LteFail (UeDecode e)
                        | Inr (AttachAccept acc) \<Rightarrow>
                            (case icq_e_rabs icsr of
                               [] \<Rightarrow> LteFail (UeReason ''InitialContextSetupRequest with no E-RAB to set up'')
                             | erab # _ \<Rightarrow>
                                 LteRoundTrip ue
                                   [MInitialContextSetupResponse
                                      \<lparr>icp_mme_ue_s1ap_id = mme, icp_enb_ue_s1ap_id = icq_enb_ue_s1ap_id icsr,
                                       icp_e_rabs_setup =
                                         [\<lparr>esi_e_rab_id = ets_erab_id erab,
                                           esi_transport_layer_addr = lu_my_ip ue,
                                           esi_gtp_teid = to_be32 MOCK_DL_TEID\<rparr>],
                                       icp_e_rabs_failed = []\<rparr>,
                                    lte_send_uplink mme encode_attach_complete]
                                   mme (ets_transport_layer_addr erab) (from_be (ets_gtp_teid erab)))
                        | Inr _ \<Rightarrow> LteFail (UeReason ''expected AttachAccept'')))))"

definition lte_after_round_trip :: "LteUe \<Rightarrow> u32 \<Rightarrow> LteOutcome" where
  "lte_after_round_trip ue mme =
     LteContinue ue [lte_send_uplink mme (encode_detach_request 1 False 0 (replicate 10 0))]"

definition lte_turn :: "crypto \<Rightarrow> MilenageContext \<Rightarrow> LteUe \<Rightarrow> bytes \<Rightarrow> LteOutcome" where
  "lte_turn cr usim ue pdu =
     (case decode_s1ap_pdu pdu of
        Inl e \<Rightarrow> LteFail (UeDecode e)
      | Inr (MDownlinkNasTransport dl) \<Rightarrow> lte_downlink_nas cr usim ue dl
      | Inr (MInitialContextSetupRequest icsr) \<Rightarrow> lte_context_setup cr ue icsr
      | Inr (MUeContextReleaseCommand cmd_mme_id cmd_enb_id _) \<Rightarrow>
          LteDone [MUeContextReleaseComplete
            \<lparr>crc_mme_ue_s1ap_id = cmd_mme_id, crc_enb_ue_s1ap_id = cmd_enb_id\<rparr>]
      | Inr _ \<Rightarrow> LteFail (UeReason ''unexpected S1AP message from MME''))"

text \<open>
  The check over the datagrams that answer its attempts, \<open>None\<close> where the wait timed out. A datagram
  that is no GTP-U packet counts as a lost one; the first packet decides.
\<close>

fun lte_attempts :: "bytes option list \<Rightarrow> string + unit" where
  "lte_attempts [] = Inl ''no DL G-PDU echo received after 5 attempts''"
| "lte_attempts (None # rs) = lte_attempts rs"
| "lte_attempts (Some dgram # rs) =
     (case GtpuHeader_parse (take 512 dgram) of
        None \<Rightarrow> lte_attempts rs
      | Some (_, dl_payload) \<Rightarrow>
          if dl_payload \<noteq> SIM_PAYLOAD then Inl ''DL G-PDU payload mismatch'' else Inr ())"

definition lte_user_plane_round_trip :: "bytes option list \<Rightarrow> string + unit" where
  "lte_user_plane_round_trip replies = lte_attempts (take 5 replies)"

section \<open>The composed system\<close>

record LteSim =
  ls_mme :: Mme
  ls_sm :: SessionManager
  ls_to_mme :: "bytes list"
  ls_to_ue :: "bytes list"
  ls_ue :: LteUe
  ls_check :: "(u32 \<times> bytes \<times> u32) option"
  ls_ended :: bool

datatype LteResult = LteRunning LteSim | LteFinished LteSim | LteFailed

definition lte_send :: "LteSim \<Rightarrow> S1apMessage list \<Rightarrow> LteResult" where
  "lte_send s msgs =
     (case encode_all msgs of
        Some (Inr bs) \<Rightarrow> LteRunning (s\<lparr>ls_to_mme := ls_to_mme s @ bs\<rparr>)
      | _ \<Rightarrow> LteFailed)"

definition lte_outcome :: "LteSim \<Rightarrow> LteOutcome \<Rightarrow> LteResult" where
  "lte_outcome s r =
     (case r of
        LteContinue ue msgs \<Rightarrow> lte_send (s\<lparr>ls_ue := ue\<rparr>) msgs
      | LteRoundTrip ue msgs mme upf_addr ul_teid \<Rightarrow>
          lte_send (s\<lparr>ls_ue := ue, ls_check := Some (mme, upf_addr, ul_teid)\<rparr>) msgs
      | LteDone msgs \<Rightarrow> lte_send (s\<lparr>ls_ended := True\<rparr>) msgs
      | LteFail _ \<Rightarrow> LteFailed)"

text \<open>The datagram that comes back to the eNodeB's socket, if one does.\<close>

definition lte_reply :: "LteSim \<Rightarrow> bytes \<Rightarrow> u32 \<Rightarrow> bytes option" where
  "lte_reply s upf_addr ul_teid =
     (let me = (lu_my_ip (ls_ue s), GTP_PORT) in
      if Some upf_addr \<noteq> m_phase3_upf (ls_mme s) then None
      else (case upf_echo (sm_routing (ls_sm s)) (sim_gpdu ul_teid) me of
              None \<Rightarrow> None
            | Some (dgram, addr) \<Rightarrow> if addr \<noteq> me then None else Some dgram))"

text \<open>
  A turn delivers the next PDU to the core while there is one, else it runs the pending
  user-plane check, else it delivers the next PDU to the subscriber.
\<close>

definition lte_sim_turn :: "crypto \<Rightarrow> aya \<Rightarrow> MilenageContext \<Rightarrow> bytes \<Rightarrow> nat \<Rightarrow> LteSim \<Rightarrow> LteResult" where
  "lte_sim_turn cr ay usim rand lost s =
     (case ls_to_mme s of
        pdu # rest \<Rightarrow>
          (case node_turn cr ay rand (ls_mme s, ls_sm s) pdu of
             Some (Inr (outs, mme, sm)) \<Rightarrow>
               LteRunning (s\<lparr>ls_mme := mme, ls_sm := sm, ls_to_mme := rest, ls_to_ue := ls_to_ue s @ outs\<rparr>)
           | _ \<Rightarrow> LteFailed)
      | [] \<Rightarrow>
          if ls_ended s then LteFinished s
          else
            (case ls_check s of
               Some (mme, upf_addr, ul_teid) \<Rightarrow>
                 (case lte_user_plane_round_trip (replicate lost None @ [lte_reply s upf_addr ul_teid]) of
                    Inr _ \<Rightarrow> lte_outcome (s\<lparr>ls_check := None\<rparr>) (lte_after_round_trip (ls_ue s) mme)
                  | Inl _ \<Rightarrow> LteFailed)
             | None \<Rightarrow>
                 (case ls_to_ue s of
                    [] \<Rightarrow> LteFailed
                  | pdu # rest \<Rightarrow> lte_outcome (s\<lparr>ls_to_ue := rest\<rparr>) (lte_turn cr usim (ls_ue s) pdu))))"

fun lte_sim_run :: "nat \<Rightarrow> crypto \<Rightarrow> aya \<Rightarrow> MilenageContext \<Rightarrow> bytes \<Rightarrow> nat \<Rightarrow> LteSim \<Rightarrow> LteResult" where
  "lte_sim_run 0 cr ay usim rand lost s = LteRunning s"
| "lte_sim_run (Suc n) cr ay usim rand lost s =
     (case lte_sim_turn cr ay usim rand lost s of
        LteRunning s' \<Rightarrow> lte_sim_run n cr ay usim rand lost s'
      | r \<Rightarrow> r)"

end
