(* ===== verification/Lte_Run.thy ===== *)
theory Lte_Run
  imports Lte_Sim
begin

text \<open>
  The run of the LTE simulation: lemmas for a turn at the level of messages, for the answers of
  the subscriber, and for the three phases of the run - up to the authenticated entity, the session with
  its user-plane check, and the release - and the theorem about the whole run.
\<close>

section \<open>Turns at the level of messages\<close>

definition enc_s1ap :: "S1apMessage \<Rightarrow> bytes" where
  "enc_s1ap m = (case encode_s1ap_pdu m of Some (Inr b) \<Rightarrow> b | _ \<Rightarrow> [])"

lemma enc_s1ap:
  assumes "s1ap_fits m"
  shows "encode_s1ap_pdu m = Some (Inr (enc_s1ap m))" "decode_s1ap_pdu (enc_s1ap m) = Inr m"
  using s1ap_fits_roundtrip [OF assms] by (auto simp: enc_s1ap_def)

lemma encode_all_enc: "list_all s1ap_fits ms \<Longrightarrow> encode_all ms = Some (Inr (map enc_s1ap ms))"
  by (induction ms) (simp_all add: enc_s1ap)

lemma lte_send_fits:
  "list_all s1ap_fits msgs \<Longrightarrow>
   lte_send s msgs = LteRunning (s\<lparr>ls_to_mme := ls_to_mme s @ map enc_s1ap msgs\<rparr>)"
  by (simp add: lte_send_def encode_all_enc)

definition lte_st ::
    "Mme \<Rightarrow> SessionManager \<Rightarrow> S1apMessage list \<Rightarrow> S1apMessage list \<Rightarrow> LteUe \<Rightarrow> (u32 \<times> bytes \<times> u32) option \<Rightarrow> bool \<Rightarrow> LteSim" where
  "lte_st m sm ta tu ue ck ended =
     \<lparr>ls_mme = m, ls_sm = sm, ls_to_mme = map enc_s1ap ta, ls_to_ue = map enc_s1ap tu, ls_ue = ue,
      ls_check = ck, ls_ended = ended\<rparr>"

text \<open>What the UE does with a decoded message.\<close>

definition lte_answer :: "crypto \<Rightarrow> MilenageContext \<Rightarrow> LteUe \<Rightarrow> S1apMessage \<Rightarrow> LteOutcome" where
  "lte_answer cr usim ue msg =
     (case msg of
        MDownlinkNasTransport dl \<Rightarrow> lte_downlink_nas cr usim ue dl
      | MInitialContextSetupRequest icsr \<Rightarrow> lte_context_setup cr ue icsr
      | MUeContextReleaseCommand cmd_mme_id cmd_enb_id _ \<Rightarrow>
          LteDone [MUeContextReleaseComplete \<lparr>crc_mme_ue_s1ap_id = cmd_mme_id, crc_enb_ue_s1ap_id = cmd_enb_id\<rparr>]
      | _ \<Rightarrow> LteFail (UeReason ''unexpected S1AP message from MME''))"

lemma lte_turn_enc: "s1ap_fits msg \<Longrightarrow> lte_turn cr usim ue (enc_s1ap msg) = lte_answer cr usim ue msg"
  by (simp add: lte_turn_def enc_s1ap lte_answer_def split: S1apMessage.split)

lemma lte_st_mme:
  assumes "s1ap_fits msg" "process_s1ap cr rand m msg = Some ((outs, evts), m')" "list_all s1ap_fits outs"
  shows "lte_sim_run (Suc n) cr ay usim rand lost (lte_st m sm (msg # ta) tu ue ck ended) =
    lte_sim_run n cr ay usim rand lost
      (lte_st m' (foldl (apply_upf_event ay) sm evts) ta (tu @ outs) ue ck ended)"
  using assms by (simp add: lte_st_def lte_sim_turn_def node_turn_def enc_s1ap encode_all_enc Let_def)

lemma lte_st_ue:
  assumes "s1ap_fits msg" "lte_answer cr usim ue msg = LteContinue ue' outs" "list_all s1ap_fits outs"
  shows "lte_sim_run (Suc n) cr ay usim rand lost (lte_st m sm [] (msg # tu) ue None False) =
    lte_sim_run n cr ay usim rand lost (lte_st m sm outs tu ue' None False)"
  using assms by (simp add: lte_st_def lte_sim_turn_def lte_turn_enc lte_outcome_def lte_send_fits)

lemma lte_st_ue_check:
  assumes "s1ap_fits msg" "lte_answer cr usim ue msg = LteRoundTrip ue' outs mme addr t" "list_all s1ap_fits outs"
  shows "lte_sim_run (Suc n) cr ay usim rand lost (lte_st m sm [] (msg # tu) ue None False) =
    lte_sim_run n cr ay usim rand lost (lte_st m sm outs tu ue' (Some (mme, addr, t)) False)"
  using assms by (simp add: lte_st_def lte_sim_turn_def lte_turn_enc lte_outcome_def lte_send_fits)

lemma lte_st_ue_done:
  assumes "s1ap_fits msg" "lte_answer cr usim ue msg = LteDone outs" "list_all s1ap_fits outs"
  shows "lte_sim_run (Suc n) cr ay usim rand lost (lte_st m sm [] (msg # tu) ue None False) =
    lte_sim_run n cr ay usim rand lost (lte_st m sm outs tu ue None True)"
  using assms by (simp add: lte_st_def lte_sim_turn_def lte_turn_enc lte_outcome_def lte_send_fits)

lemma lte_st_finished: "lte_sim_run (Suc n) cr ay usim rand lost (lte_st m sm [] tu ue None True) =
    LteFinished (lte_st m sm [] tu ue None True)"
  by (simp add: lte_st_def lte_sim_turn_def)

lemma lte_sends_fit [simp]:
  "s1ap_fits (lte_send_initial nas) \<longleftrightarrow> length nas \<le> 16000"
  "s1ap_fits (lte_send_uplink i nas) \<longleftrightarrow> length nas \<le> 16000"
  by (simp_all add: lte_send_initial_def lte_send_uplink_def ENB_UE_S1AP_ID_def LTE_TEST_TAI_def TEST_EUTRAN_CGI_def)

lemma length_detach_request [simp]:
  "length (encode_detach_request ty so k (replicate 10 0)) = 14"
  by (simp add: encode_detach_request_def write_lv_def)

lemma lte_short_pdus [simp]:
  "length encode_sec_mode_complete = 2" "length encode_attach_complete = 2" "length encode_detach_accept = 2"
  "length r = 8 \<Longrightarrow> length (encode_auth_response r) = 11"
  "length (encode_sec_mode_cmd eea eia k [0x20, 0x40]) = 7"
  by (simp_all add: encode_sec_mode_complete_def encode_attach_complete_def encode_detach_accept_def
      encode_auth_response_def encode_sec_mode_cmd_def write_lv_def)

section \<open>The user plane\<close>

lemma lte_round_trip_ok:
  assumes "GtpuHeader_parse (take 512 dgram) = Some (h, SIM_PAYLOAD)" "k < 5"
  shows "lte_user_plane_round_trip (replicate k None @ [Some dgram]) = Inr ()"
proof -
  have "lte_attempts (replicate k None @ [Some dgram]) = Inr ()" using assms(1) by (induction k) simp_all
  with assms(2) show ?thesis by (simp add: lte_user_plane_round_trip_def)
qed

lemma lte_reply_echo:
  assumes "m_phase3_upf m = Some upf" "lookup_ul (sm_routing sm) t = Some (RouteEntry_new uip dl ip qci)"
    "lookup_dl (sm_routing sm) uip = Some (RouteEntry_new uip dl ip qci)" "lu_my_ip ue = ip"
  shows "lte_reply (lte_st m sm ta tu ue ck ended) upf t =
    Some (to_bytes (new_gpdu dl (of_nat (length SIM_PAYLOAD))) @ SIM_PAYLOAD)"
  using assms upf_echo_route [of "sm_routing sm" t "RouteEntry_new uip dl ip qci" "(ip, GTP_PORT)"]
  by (simp add: lte_reply_def lte_st_def Let_def GTP_PORT_def RouteEntry_new_def)

lemma gpdu_parse: "\<exists>h. GtpuHeader_parse (take 512 (to_bytes (new_gpdu t (of_nat (length SIM_PAYLOAD))) @ SIM_PAYLOAD)) =
    Some (h, SIM_PAYLOAD)"
proof -
  have "take 512 (to_bytes h @ SIM_PAYLOAD) = to_bytes h @ SIM_PAYLOAD" for h
    by (simp add: to_bytes_def Let_def)
  then show ?thesis by (simp add: GtpuHeader_parse_to_bytes)
qed

lemma lte_st_round_trip:
  assumes "lte_reply (lte_st m sm [] tu ue (Some (mme, addr, t)) False) addr t =
      Some (to_bytes (new_gpdu dl (of_nat (length SIM_PAYLOAD))) @ SIM_PAYLOAD)" "lost < 5"
  shows "lte_sim_run (Suc n) cr ay usim rand lost (lte_st m sm [] tu ue (Some (mme, addr, t)) False) =
    lte_sim_run n cr ay usim rand lost
      (lte_st m sm [lte_send_uplink mme (encode_detach_request 1 False 0 (replicate 10 0))] tu ue None False)"
proof -
  let ?s = "lte_st m sm [] tu ue (Some (mme, addr, t)) False"
  obtain h where h: "GtpuHeader_parse (take 512 (to_bytes (new_gpdu dl (of_nat (length SIM_PAYLOAD))) @ SIM_PAYLOAD)) =
    Some (h, SIM_PAYLOAD)" using gpdu_parse by blast
  have f: "ls_to_mme ?s = []" "\<not> ls_ended ?s" "ls_check ?s = Some (mme, addr, t)" "ls_ue ?s = ue"
    by (simp_all add: lte_st_def)
  have "lte_sim_turn cr ay usim rand lost ?s = lte_outcome (?s\<lparr>ls_check := None\<rparr>) (lte_after_round_trip ue mme)"
    using f assms(1) lte_round_trip_ok [OF h assms(2)] by (simp add: lte_sim_turn_def)
  then show ?thesis
    by (simp add: lte_after_round_trip_def lte_outcome_def lte_send_fits) (simp add: lte_st_def)
qed

definition lte_session_opened ::
    "aya \<Rightarrow> SessionManager \<Rightarrow> u32 \<Rightarrow> u32 \<Rightarrow> u64 \<Rightarrow> bytes \<Rightarrow> u32 \<Rightarrow> bytes \<Rightarrow> SessionManager" where
  "lte_session_opened ay sm t i imsi uip dl ip =
     apply_upf_event ay (apply_upf_event ay sm (CreateSession t i imsi uip (replicate 4 0) 9)) (UpdateBearer t dl ip)"

lemma lte_session_routes:
  "lookup_ul (sm_routing (lte_session_opened ay sm t i imsi uip dl ip)) t = Some (RouteEntry_new uip dl ip 9)"
  "lookup_dl (sm_routing (lte_session_opened ay sm t i imsi uip dl ip)) uip = Some (RouteEntry_new uip dl ip 9)"
  by (simp_all add: lte_session_opened_def lookup_ul_def lookup_dl_def event_maps event_dl_map
      spec_update_def RouteEntry_new_def)

lemma lte_session_removed:
  "get_session (apply_upf_event ay (lte_session_opened ay sm t i imsi uip dl ip) (RemoveSession t)) =
     (get_session sm)(t := None)"
  "lookup_ul (sm_routing (apply_upf_event ay (lte_session_opened ay sm t i imsi uip dl ip) (RemoveSession t))) =
     (lookup_ul (sm_routing sm))(t := None)"
  by (auto simp: lte_session_opened_def fun_eq_iff lookup_ul_def get_session_def event_maps
      event_sessions spec_update_def)

section \<open>The keys on both sides\<close>

definition lte_vector :: "crypto \<Rightarrow> MilenageContext \<Rightarrow> bytes \<Rightarrow> AuthVector" where
  "lte_vector cr usim rand = milenage_compute cr usim rand (replicate 6 0) MME_AMF"

definition lte_challenged :: "crypto \<Rightarrow> MilenageContext \<Rightarrow> bytes \<Rightarrow> entity" where
  "lte_challenged cr usim rand =
     challenged_entity LTE_TEST_IMSI ENB_UE_S1AP_ID rand (lte_vector cr usim rand) LTE_TEST_PLMN (replicate 6 0)"

definition lte_authenticated :: "crypto \<Rightarrow> MilenageContext \<Rightarrow> bytes \<Rightarrow> entity" where
  "lte_authenticated cr usim rand =
     (let e = lte_challenged cr usim rand in
      e\<lparr>e_security := clear_pending_challenge (e_security e), e_auth := Authenticated\<rparr>)"

lemma lte_sqn_zero: "Sqn_from_bytes (replicate 6 0) = 0" "Sqn_to_bytes 0 = replicate 6 0"
  by (simp_all add: Sqn_from_bytes_def Sqn_to_bytes_def to_be64_def numeral_eq_Suc from_be_def)

lemma lte_authenticate_matches:
  "lte_authenticate cr usim rand =
     (pending_xres (e_security (lte_challenged cr usim rand)), kasme_of cr (lte_authenticated cr usim rand))"
  by (simp add: lte_authenticate_def lte_challenged_def lte_authenticated_def challenged_entity_def kasme_of_def
      clear_pending_challenge_def lte_vector_def generate_vector_with_rand_def lte_sqn_zero MME_AMF_def Let_def)

lemma lte_authenticated_identity:
  "e_identity (lte_authenticated cr usim rand) =
     \<lparr>id_imsi = LTE_TEST_IMSI, id_enb_ue_s1ap_id = ENB_UE_S1AP_ID, id_ue_ip = replicate 4 0\<rparr>"
  by (simp add: lte_authenticated_def lte_challenged_def challenged_entity_def Let_def)

abbreviation lte_context :: "crypto \<Rightarrow> bytes \<Rightarrow> NasSecurityContext" where
  "lte_context cr kasme \<equiv> NasSecurityContext_new cr kasme Eea2 Eia2"

lemma lte_channel_ok: "ctr_stream cr \<Longrightarrow> cmac_len cr \<Longrightarrow> channel_ok cr SHT_INTEGRITY_CIPHERED"
  by (simp add: channel_ok_def SHT_INTEGRITY_CIPHERED_def)

lemma dl_count_new [simp]: "dl_count (NasSecurityContext_new cr k a b) = 0"
  by (simp add: NasSecurityContext_new_def Let_def split_beta)

lemma dl_count_zero: "(NasSecurityContext_new cr k a b)\<lparr>dl_count := 0\<rparr> = NasSecurityContext_new cr k a b"
  by (simp add: NasSecurityContext_new_def Let_def split_beta)

lemma accept_pdu_context:
  "accept_pdu cr e = encode_protected cr SHT_INTEGRITY_CIPHERED NAS_BEARER (lte_context cr (kasme_of cr e))
     (encode_attach_accept 1 0x54 [] (Some (id_ue_ip (e_identity e))) None)"
  "snd (accept_pdu cr e) = (lte_context cr (kasme_of cr e))\<lparr>dl_count := 1\<rparr>"
  by (simp_all add: accept_pdu_def kasme_of_def Let_def SELECTED_EEA_def SELECTED_EIA_def encode_protected_def
      protect_downlink_def split_beta)

lemma lte_protected_opens:
  assumes "ctr_stream cr" "cmac_len cr" "k \<le> 1"
  shows "fst (decode_protected_downlink cr NAS_BEARER (lte_context cr key)
      (fst (encode_protected cr SHT_INTEGRITY_CIPHERED NAS_BEARER ((lte_context cr key)\<lparr>dl_count := k\<rparr>) p))) = Some p"
proof -
  have "unat k < 256" using assms(3) by (simp add: word_le_nat_alt)
  then show ?thesis
    using decode_protected_downlink_enc [OF lte_channel_ok [OF assms(1,2)], of "(lte_context cr key)\<lparr>dl_count := k\<rparr>"
        "lte_context cr key" NAS_BEARER p] by simp
qed

section \<open>The subscriber's answers\<close>

lemma lte_plain_sht:
  "encode_auth_request k r tok \<noteq> []" "drop_bit 4 (encode_auth_request k r tok ! 0) AND 0x0F = SHT_PLAIN"
  "encode_sec_mode_cmd x y k z \<noteq> []" "drop_bit 4 (encode_sec_mode_cmd x y k z ! 0) AND 0x0F = SHT_PLAIN"
  by (simp_all add: encode_auth_request_def encode_sec_mode_cmd_def write_lv_def NAS_PLAIN_HEADER_def
      NAS_EPS_MM_PD_def SHT_PLAIN_def)

lemma lte_answer_challenge:
  assumes "length rand = 16" "length tok = 16" "lu_mme_id ue = None \<or> lu_mme_id ue = Some i"
    "lte_authenticate cr usim rand = (res, kasme)"
  shows "lte_answer cr usim ue (MDownlinkNasTransport \<lparr>dnt_mme_ue_s1ap_id = i, dnt_enb_ue_s1ap_id = enb,
      dnt_nas_pdu = encode_auth_request 0 rand tok\<rparr>) =
    LteContinue (ue\<lparr>lu_mme_id := Some i, lu_kasme := Some kasme\<rparr>) [lte_send_uplink i (encode_auth_response res)]"
  using assms(3,4) auth_request_roundtrip [OF assms(1,2), of 0] lte_plain_sht(1,2) [of 0 rand tok]
  by (auto simp: lte_answer_def lte_downlink_nas_def Let_def get_or_insert_def simp del: One_nat_def)

lemma lte_answer_security_mode:
  assumes "lu_mme_id ue = Some i"
  shows "lte_answer cr usim ue (MDownlinkNasTransport \<lparr>dnt_mme_ue_s1ap_id = i, dnt_enb_ue_s1ap_id = enb,
      dnt_nas_pdu = encode_sec_mode_cmd eea eia 0 cap\<rparr>) = LteContinue ue [lte_send_uplink i encode_sec_mode_complete]"
  using assms sec_mode_cmd_roundtrip [of eea eia 0 cap] lte_plain_sht(3,4) [of eea eia 0 cap]
  by (simp add: lte_answer_def lte_downlink_nas_def Let_def get_or_insert_def)

definition lte_ics_response :: "u32 \<Rightarrow> bytes \<Rightarrow> InitialContextSetupResponse" where
  "lte_ics_response i ip = \<lparr>icp_mme_ue_s1ap_id = i, icp_enb_ue_s1ap_id = ENB_UE_S1AP_ID,
     icp_e_rabs_setup = [\<lparr>esi_e_rab_id = 5, esi_transport_layer_addr = ip, esi_gtp_teid = to_be32 MOCK_DL_TEID\<rparr>],
     icp_e_rabs_failed = []\<rparr>"

lemma lte_answer_context_setup:
  assumes cr: "ctr_stream cr" "cmac_len cr" and ue: "lu_mme_id ue = Some i" "lu_kasme ue = Some (kasme_of cr e)"
    and ip: "length (id_ue_ip (e_identity e)) = 4"
  shows "lte_answer cr usim ue (MInitialContextSetupRequest (lte_accept_request cr i ENB_UE_S1AP_ID e t upf)) =
    LteRoundTrip ue [MInitialContextSetupResponse (lte_ics_response i (lu_my_ip ue)),
      lte_send_uplink i encode_attach_complete] i upf t"
proof -
  let ?p = "encode_attach_accept 1 0x54 [] (Some (id_ue_ip (e_identity e))) None"
  have "fst (decode_protected_downlink cr NAS_BEARER (lte_context cr (kasme_of cr e)) (fst (accept_pdu cr e))) = Some ?p"
    using lte_protected_opens [OF cr, of 0 "kasme_of cr e" ?p] by (simp add: accept_pdu_context(1) dl_count_zero)
  moreover have "\<exists>acc. decode_nas ?p = Inr (AttachAccept acc)"
    using attach_accept_roundtrip [of "[]" "Some (id_ue_ip (e_identity e))" None 1 "0x54"] ip by simp
  ultimately show ?thesis using ue
    by (auto simp: lte_answer_def lte_context_setup_def lte_accept_request_def Let_def get_or_insert_def
        UE_SELECTED_EEA_def UE_SELECTED_EIA_def lte_ics_response_def)
qed

lemma lte_envelope_sht:
  "fst (encode_protected cr SHT_INTEGRITY_CIPHERED b c p) \<noteq> []"
  "drop_bit 4 (fst (encode_protected cr SHT_INTEGRITY_CIPHERED b c p) ! 0) AND 0x0F \<noteq> SHT_PLAIN"
  by (simp_all add: encode_protected_def nas_envelope_def split_beta SHT_INTEGRITY_CIPHERED_def NAS_EPS_MM_PD_def
      SHT_PLAIN_def)

lemma lte_answer_detach_accept:
  assumes cr: "ctr_stream cr" "cmac_len cr" and ue: "lu_mme_id ue = Some i" "lu_kasme ue = Some k"
  shows "lte_answer cr usim ue (MDownlinkNasTransport \<lparr>dnt_mme_ue_s1ap_id = i, dnt_enb_ue_s1ap_id = enb,
      dnt_nas_pdu = fst (encode_protected cr SHT_INTEGRITY_CIPHERED NAS_BEARER ((lte_context cr k)\<lparr>dl_count := 1\<rparr>)
        encode_detach_accept)\<rparr>) = LteContinue ue []"
  using ue lte_protected_opens [OF cr, of 1 k encode_detach_accept]
    lte_envelope_sht [of cr NAS_BEARER "(lte_context cr k)\<lparr>dl_count := 1\<rparr>" encode_detach_accept]
  by (simp add: lte_answer_def lte_downlink_nas_def Let_def get_or_insert_def UE_SELECTED_EEA_def UE_SELECTED_EIA_def
      bare_messages_roundtrip)

lemma lte_answer_release:
  "lte_answer cr usim ue (MUeContextReleaseCommand i enb c) =
     LteDone [MUeContextReleaseComplete \<lparr>crc_mme_ue_s1ap_id = i, crc_enb_ue_s1ap_id = enb\<rparr>]"
  by (simp add: lte_answer_def)

section \<open>The phases\<close>

lemma lte_tai_plmn: "take 3 LTE_TEST_TAI = LTE_TEST_PLMN"
  by (simp add: LTE_TEST_TAI_def LTE_TEST_PLMN_def)

lemma enb_fits [simp]: "unat ENB_UE_S1AP_ID \<le> 16777215"
  by (simp add: ENB_UE_S1AP_ID_def)

abbreviation lte_ue0 :: "bytes \<Rightarrow> LteUe" where
  "lte_ue0 ip \<equiv> \<lparr>lu_my_ip = ip, lu_mme_id = None, lu_kasme = None\<rparr>"

abbreviation lte_ue1 :: "bytes \<Rightarrow> u32 \<Rightarrow> bytes \<Rightarrow> LteUe" where
  "lte_ue1 ip i k \<equiv> \<lparr>lu_my_ip = ip, lu_mme_id = Some i, lu_kasme = Some k\<rparr>"

lemma lte_run_phase1:
  fixes m :: Mme
  assumes wf: "world_wf (m_world m)" and room: "unat (next_id (m_world m)) + 1 < 4294967296"
    and sub: "m_hss m LTE_TEST_IMSI = Some \<lparr>sr_ctx = usim, sr_sqn = 0\<rparr>" "length (mc_opc usim) = 16"
    and cr: "aes_len cr" and rand: "length rand = 16"
  obtains i w2 where
    "\<forall>n. lte_sim_run (n + 4) cr ay usim rand lost (lte_st m sm [lte_start] [] (lte_ue0 ip) None False) =
      lte_sim_run n cr ay usim rand lost
        (lte_st (m\<lparr>m_world := w2, m_registry := (m_registry m)(LTE_TEST_IMSI \<mapsto> i),
            m_hss := (m_hss m)(LTE_TEST_IMSI \<mapsto> \<lparr>sr_ctx = usim, sr_sqn = 1\<rparr>)\<rparr>) sm
          [lte_send_uplink i encode_sec_mode_complete] []
          (lte_ue1 ip i (kasme_of cr (lte_authenticated cr usim rand))) None False)"
    "world_wf w2" "abs_world (m_world m) i = None"
    "abs_world w2 = (abs_world (m_world m))(i \<mapsto> lte_authenticated cr usim rand)"
proof -
  let ?sub = "\<lparr>sr_ctx = usim, sr_sqn = 0\<rparr>" and ?e = "lte_challenged cr usim rand"
  let ?k = "kasme_of cr (lte_authenticated cr usim rand)" and ?res = "pending_xres (e_security (lte_challenged cr usim rand))"
  let ?tok = "autn (lte_vector cr usim rand) (replicate 6 0) MME_AMF"
  let ?u = "\<lparr>ium_enb_ue_s1ap_id = ENB_UE_S1AP_ID, ium_nas_pdu = encode_attach_request LTE_TEST_IMSI 1 0,
    ium_tai = LTE_TEST_TAI, ium_eutran_cgi = TEST_EUTRAN_CGI, ium_rrc_cause = 0\<rparr>"
  have imsi: "LTE_TEST_IMSI < 10 ^ 15" by (simp add: LTE_TEST_IMSI_def)
  have u: "ium_nas_pdu ?u = encode_attach_request LTE_TEST_IMSI 1 0" by simp
  obtain i w1 where s1: "process_s1ap cr rand m (MInitialUeMessage ?u) =
       Some (([MDownlinkNasTransport \<lparr>dnt_mme_ue_s1ap_id = i, dnt_enb_ue_s1ap_id = ium_enb_ue_s1ap_id ?u,
         dnt_nas_pdu = encode_auth_request 0 rand
           (autn (milenage_compute cr (sr_ctx ?sub) rand (Sqn_to_bytes (sr_sqn ?sub)) MME_AMF) (Sqn_to_bytes (sr_sqn ?sub)) MME_AMF)\<rparr>], []),
         m\<lparr>m_world := w1, m_registry := (m_registry m)(LTE_TEST_IMSI \<mapsto> i),
           m_hss := (m_hss m)(LTE_TEST_IMSI \<mapsto> ?sub\<lparr>sr_sqn := take_bit 48 (sr_sqn ?sub + 1)\<rparr>)\<rparr>)"
    and w1: "world_wf w1" "abs_world (m_world m) i = None" "abs_world w1 = (abs_world (m_world m))
       (i \<mapsto> challenged_entity LTE_TEST_IMSI (ium_enb_ue_s1ap_id ?u) rand
         (milenage_compute cr (sr_ctx ?sub) rand (Sqn_to_bytes (sr_sqn ?sub)) MME_AMF) (take 3 (ium_tai ?u)) (Sqn_to_bytes (sr_sqn ?sub)))"
    by (rule lte_step1 [OF wf room sub(1) imsi u])
  let ?m1 = "m\<lparr>m_world := w1, m_registry := (m_registry m)(LTE_TEST_IMSI \<mapsto> i),
    m_hss := (m_hss m)(LTE_TEST_IMSI \<mapsto> \<lparr>sr_ctx = usim, sr_sqn = 1\<rparr>)\<rparr>"
  have s1': "process_s1ap cr rand m lte_start =
      Some (([MDownlinkNasTransport \<lparr>dnt_mme_ue_s1ap_id = i, dnt_enb_ue_s1ap_id = ENB_UE_S1AP_ID,
        dnt_nas_pdu = encode_auth_request 0 rand ?tok\<rparr>], []), ?m1)"
    using s1 by (simp add: lte_start_def lte_send_initial_def lte_sqn_zero lte_vector_def)
  have w1': "abs_world w1 = (abs_world (m_world m))(i \<mapsto> ?e)"
    using w1(3) by (simp add: lte_sqn_zero lte_challenged_def lte_vector_def lte_tai_plmn)
  have amf: "length MME_AMF = 2" "length (replicate 6 0 :: bytes) = 6" by (simp_all add: MME_AMF_def)
  note lav = length_milenage_compute [OF cr rand sub(2) amf(2,1)]
  have tok: "length ?tok = 16" by (simp add: lte_vector_def length_autn lav amf)
  have res: "length ?res = 8" by (simp add: lte_challenged_def challenged_entity_def lte_vector_def lav)
  let ?u2 = "\<lparr>unt_mme_ue_s1ap_id = i, unt_enb_ue_s1ap_id = ENB_UE_S1AP_ID, unt_nas_pdu = encode_auth_response ?res,
    unt_tai = LTE_TEST_TAI, unt_eutran_cgi = TEST_EUTRAN_CGI\<rparr>"
  have h2: "world_wf (m_world ?m1)" "abs_world (m_world ?m1) i = Some ?e" "unt_mme_ue_s1ap_id ?u2 = i"
    "unt_nas_pdu ?u2 = encode_auth_response ?res" using w1(1) w1' by simp_all
  obtain w2 where s2: "process_s1ap cr rand ?m1 (MUplinkNasTransport ?u2) =
       Some (([MDownlinkNasTransport \<lparr>dnt_mme_ue_s1ap_id = i, dnt_enb_ue_s1ap_id = unt_enb_ue_s1ap_id ?u2,
         dnt_nas_pdu = encode_sec_mode_cmd SELECTED_EEA SELECTED_EIA 0 [0x20, 0x40]\<rparr>], []), ?m1\<lparr>m_world := w2\<rparr>)"
    and w2: "world_wf w2" "abs_world w2 = (abs_world (m_world ?m1))
       (i \<mapsto> ?e\<lparr>e_security := clear_pending_challenge (e_security ?e), e_auth := Authenticated\<rparr>)"
    by (rule lte_step2 [OF h2(1,2) refl res h2(3,4)])
  let ?m2 = "m\<lparr>m_world := w2, m_registry := (m_registry m)(LTE_TEST_IMSI \<mapsto> i),
    m_hss := (m_hss m)(LTE_TEST_IMSI \<mapsto> \<lparr>sr_ctx = usim, sr_sqn = 1\<rparr>)\<rparr>"
  have s2': "process_s1ap cr rand ?m1 (lte_send_uplink i (encode_auth_response ?res)) =
       Some (([MDownlinkNasTransport \<lparr>dnt_mme_ue_s1ap_id = i, dnt_enb_ue_s1ap_id = ENB_UE_S1AP_ID,
         dnt_nas_pdu = encode_sec_mode_cmd SELECTED_EEA SELECTED_EIA 0 [0x20, 0x40]\<rparr>], []), ?m2)"
    using s2 by (simp add: lte_send_uplink_def)
  have t1: "lte_answer cr usim (lte_ue0 ip) (MDownlinkNasTransport \<lparr>dnt_mme_ue_s1ap_id = i,
      dnt_enb_ue_s1ap_id = ENB_UE_S1AP_ID, dnt_nas_pdu = encode_auth_request 0 rand ?tok\<rparr>) =
    LteContinue (lte_ue1 ip i ?k) [lte_send_uplink i (encode_auth_response ?res)]"
    using lte_answer_challenge [OF rand tok _ lte_authenticate_matches, of "lte_ue0 ip" i cr usim] by simp
  have t2: "lte_answer cr usim (lte_ue1 ip i ?k) (MDownlinkNasTransport \<lparr>dnt_mme_ue_s1ap_id = i,
      dnt_enb_ue_s1ap_id = ENB_UE_S1AP_ID, dnt_nas_pdu = encode_sec_mode_cmd SELECTED_EEA SELECTED_EIA 0 [0x20, 0x40]\<rparr>) =
    LteContinue (lte_ue1 ip i ?k) [lte_send_uplink i encode_sec_mode_complete]"
    by (rule lte_answer_security_mode) simp
  have run: "lte_sim_run (n + 4) cr ay usim rand lost (lte_st m sm [lte_start] [] (lte_ue0 ip) None False) =
      lte_sim_run n cr ay usim rand lost (lte_st ?m2 sm
        [lte_send_uplink i encode_sec_mode_complete] [] (lte_ue1 ip i ?k) None False)" for n
  proof -
    have n: "n + 4 = Suc (Suc (Suc (Suc n)))" by simp
    have st: "s1ap_fits lte_start" by (simp add: lte_start_def encode_attach_request_def write_lv_def Let_def)
    show ?thesis unfolding n using rand tok res st
      by (simp add: lte_st_mme [OF _ s1'] lte_st_mme [OF _ s2'] lte_st_ue [OF _ t1] lte_st_ue [OF _ t2]
          length_auth_request del: lte_sim_run.simps)
  qed
  have "abs_world w2 = (abs_world (m_world m))(i \<mapsto> lte_authenticated cr usim rand)"
    using w2 w1' by (simp add: lte_authenticated_def Let_def)
  then show ?thesis by (rule that [OF allI [OF run] w2(1) w1(2)])
qed

lemma lte_run_phase2:
  fixes m :: Mme
  assumes wf: "world_wf (m_world m)" and e: "abs_world (m_world m) i = Some e"
    and upf: "m_phase3_upf m = Some upf" "length upf = 4" "length ip = 4" "length (id_ue_ip (e_identity e)) = 4"
    and al: "teid_alloc (m_teids m) = (t, a')" and cr: "ctr_stream cr" "cmac_len cr" "hmac_len cr" and lost: "lost < 5"
  obtains w4 e4 where
    "\<forall>n. lte_sim_run (n + 5) cr ay usim rand lost
        (lte_st m sm [lte_send_uplink i encode_sec_mode_complete] [] (lte_ue1 ip i (kasme_of cr e)) None False) =
      lte_sim_run n cr ay usim rand lost
        (lte_st (m\<lparr>m_world := w4, m_teids := a'\<rparr>)
          (lte_session_opened ay sm t i (id_imsi (e_identity e)) (id_ue_ip (e_identity e)) MOCK_DL_TEID ip)
          [lte_send_uplink i (encode_detach_request 1 False 0 (replicate 10 0))] [] (lte_ue1 ip i (kasme_of cr e)) None False)"
    "world_wf w4" "abs_world w4 = (abs_world (m_world m))(i \<mapsto> e4)"
    "e_nas_security e4 = Some ((lte_context cr (kasme_of cr e))\<lparr>dl_count := 1\<rparr>)"
    "map_option tc_ul_teid (e_tunnel e4) = Some t" "e_identity e4 = e_identity e"
proof -
  let ?ue = "lte_ue1 ip i (kasme_of cr e)" and ?r = "lte_accept_request cr i ENB_UE_S1AP_ID e t upf"
  let ?rsp = "lte_ics_response i ip" and ?tu = "\<lparr>tc_ul_teid = t, tc_dl_teid = 0, tc_enb_addr = replicate 4 0\<rparr>"
  let ?sm = "lte_session_opened ay sm t i (id_imsi (e_identity e)) (id_ue_ip (e_identity e)) MOCK_DL_TEID ip"
  let ?up = "\<lambda>pdu. \<lparr>unt_mme_ue_s1ap_id = i, unt_enb_ue_s1ap_id = ENB_UE_S1AP_ID, unt_nas_pdu = pdu,
    unt_tai = LTE_TEST_TAI, unt_eutran_cgi = TEST_EUTRAN_CGI\<rparr>"
  let ?e3 = "e\<lparr>e_security := clear_post_kasme (e_security e), e_nas_security := Some (snd (accept_pdu cr e)),
    e_tunnel := Some ?tu\<rparr>"
  have u3: "unt_mme_ue_s1ap_id (?up encode_sec_mode_complete) = i"
    "unt_nas_pdu (?up encode_sec_mode_complete) = encode_sec_mode_complete" by simp_all
  obtain w3 where s3: "process_s1ap cr rand m (MUplinkNasTransport (?up encode_sec_mode_complete)) =
      Some (([MInitialContextSetupRequest (lte_accept_request cr i (unt_enb_ue_s1ap_id (?up encode_sec_mode_complete)) e t upf)],
        [CreateSession t i (id_imsi (e_identity e)) (id_ue_ip (e_identity e)) (replicate 4 0) 9]),
        m\<lparr>m_world := w3, m_teids := a'\<rparr>)"
    and w3: "world_wf w3" "abs_world w3 = (abs_world (m_world m))(i \<mapsto> ?e3)"
    by (rule lte_step3 [OF wf e upf(1) al u3])
  let ?m3 = "m\<lparr>m_world := w3, m_teids := a'\<rparr>"
  have h4: "world_wf (m_world ?m3)" "abs_world (m_world ?m3) i = Some ?e3" "e_tunnel ?e3 = Some ?tu"
    "icp_mme_ue_s1ap_id ?rsp = i" "icp_e_rabs_setup ?rsp = [\<lparr>esi_e_rab_id = 5, esi_transport_layer_addr = ip,
      esi_gtp_teid = to_be32 MOCK_DL_TEID\<rparr>]" using w3 by (simp_all add: lte_ics_response_def)
  obtain w4 where s4: "process_s1ap cr rand ?m3 (MInitialContextSetupResponse ?rsp) =
      Some (([], [UpdateBearer t MOCK_DL_TEID ip]), ?m3\<lparr>m_world := w4\<rparr>)"
    and w4: "world_wf w4" "abs_world w4 = (abs_world w3)
      (i \<mapsto> ?e3\<lparr>e_tunnel := Some (?tu\<lparr>tc_dl_teid := MOCK_DL_TEID, tc_enb_addr := ip\<rparr>)\<rparr>)"
    by (rule lte_step4 [OF h4, of cr rand]) simp
  let ?e4 = "?e3\<lparr>e_tunnel := Some (?tu\<lparr>tc_dl_teid := MOCK_DL_TEID, tc_enb_addr := ip\<rparr>)\<rparr>"
    and ?m4 = "m\<lparr>m_world := w4, m_teids := a'\<rparr>"
  have s4': "process_s1ap cr rand ?m3 (MInitialContextSetupResponse ?rsp) = Some (([], [UpdateBearer t MOCK_DL_TEID ip]), ?m4)"
    using s4 by simp
  have s3': "process_s1ap cr rand m (lte_send_uplink i encode_sec_mode_complete) =
      Some (([MInitialContextSetupRequest ?r],
        [CreateSession t i (id_imsi (e_identity e)) (id_ue_ip (e_identity e)) (replicate 4 0) 9]), ?m3)"
    using s3 by (simp add: lte_send_uplink_def)
  have s5: "process_s1ap cr rand ?m4 (lte_send_uplink i encode_attach_complete) = Some (([], []), ?m4)"
    unfolding lte_send_uplink_def by (rule lte_step5) simp
  have t6: "lte_answer cr usim ?ue (MInitialContextSetupRequest ?r) =
      LteRoundTrip ?ue [MInitialContextSetupResponse ?rsp, lte_send_uplink i encode_attach_complete] i upf t"
    using lte_answer_context_setup [OF cr(1,2), of ?ue i e usim t upf] upf(4) by simp
  have fits: "s1ap_fits (MInitialContextSetupRequest ?r)" "s1ap_fits (MInitialContextSetupResponse ?rsp)"
  proof -
    obtain pdu c where p: "accept_pdu cr e = (pdu, c)" by (cases "accept_pdu cr e")
    have "length pdu \<le> 100"
      using length_encode_protected [OF p [unfolded accept_pdu_context(1)] cr(1)] upf(4)
      by (simp add: encode_attach_accept_def write_lv_def write_tlv_def Let_def)
    moreover have "length (kasme_of cr e) = 32"
      using cr(3) by (simp add: kasme_of_def derive_kasme_def length_kdf_generic Let_def)
    ultimately show "s1ap_fits (MInitialContextSetupRequest ?r)"
      using p upf(2) by (simp add: lte_accept_request_def erab_to_setup_ok_def)
    show "s1ap_fits (MInitialContextSetupResponse ?rsp)"
      using upf(3) by (simp add: lte_ics_response_def erab_setup_ok_def)
  qed
  have echo: "lte_reply (lte_st ?m4 ?sm [] [] ?ue (Some (i, upf, t)) False) upf t =
      Some (to_bytes (new_gpdu MOCK_DL_TEID (of_nat (length SIM_PAYLOAD))) @ SIM_PAYLOAD)"
    by (rule lte_reply_echo [OF _ lte_session_routes]) (simp_all add: upf)
  have run: "lte_sim_run (n + 5) cr ay usim rand lost
        (lte_st m sm [lte_send_uplink i encode_sec_mode_complete] [] ?ue None False) =
      lte_sim_run n cr ay usim rand lost (lte_st ?m4 ?sm
        [lte_send_uplink i (encode_detach_request 1 False 0 (replicate 10 0))] [] ?ue None False)" for n
  proof -
    have n: "n + 5 = Suc (Suc (Suc (Suc (Suc n))))" by simp
    show ?thesis unfolding n using fits
      by (simp add: lte_st_mme [OF _ s3'] lte_st_ue_check [OF _ t6] lte_st_mme [OF _ s4'] lte_st_mme [OF _ s5]
          lte_session_opened_def [symmetric] lte_st_round_trip [OF echo lost]
          del: lte_sim_run.simps s1ap_fits.simps(4,5))
  qed
  show ?thesis
    by (rule that [OF allI [OF run] w4(1), of ?e4]) (use w4 w3 in \<open>simp_all add: accept_pdu_context(2)\<close>)
qed

lemma lte_run_phase3:
  fixes m :: Mme
  assumes wf: "world_wf (m_world m)" and e: "abs_world (m_world m) i = Some e"
    "e_nas_security e = Some ((lte_context cr k)\<lparr>dl_count := 1\<rparr>)" "map_option tc_ul_teid (e_tunnel e) = Some t"
    and cr: "ctr_stream cr" "cmac_len cr"
  obtains w6 where
    "lte_sim_run (n + 5) cr ay usim rand lost
        (lte_st m sm [lte_send_uplink i (encode_detach_request 1 False 0 (replicate 10 0))] [] (lte_ue1 ip i k) None False) =
      LteFinished
        (lte_st (m\<lparr>m_registry := (m_registry m)(id_imsi (e_identity e) := None), m_world := w6,
            m_teids := teid_release (m_teids m) t\<rparr>) (apply_upf_event ay sm (RemoveSession t)) [] [] (lte_ue1 ip i k) None True)"
    "world_wf w6" "abs_world w6 = (abs_world (m_world m))(i := None)"
proof -
  let ?ctx = "(lte_context cr k)\<lparr>dl_count := 1\<rparr>"
  let ?p = "encode_protected cr SHT_INTEGRITY_CIPHERED NAS_BEARER ?ctx encode_detach_accept"
  let ?d = "encode_detach_request 1 False 0 (replicate 10 0)" and ?ue = "lte_ue1 ip i k"
  let ?u = "\<lparr>unt_mme_ue_s1ap_id = i, unt_enb_ue_s1ap_id = ENB_UE_S1AP_ID, unt_nas_pdu = ?d,
    unt_tai = LTE_TEST_TAI, unt_eutran_cgi = TEST_EUTRAN_CGI\<rparr>"
  let ?acc = "MDownlinkNasTransport \<lparr>dnt_mme_ue_s1ap_id = i, dnt_enb_ue_s1ap_id = ENB_UE_S1AP_ID, dnt_nas_pdu = fst ?p\<rparr>"
  let ?e5 = "e\<lparr>e_nas_security := Some (snd ?p)\<rparr>"
  have u: "unt_mme_ue_s1ap_id ?u = i" "unt_nas_pdu ?u = ?d" by simp_all
  obtain w5 where s5: "process_s1ap cr rand m (MUplinkNasTransport ?u) =
      Some (([MDownlinkNasTransport \<lparr>dnt_mme_ue_s1ap_id = i, dnt_enb_ue_s1ap_id = unt_enb_ue_s1ap_id ?u,
          dnt_nas_pdu = fst ?p\<rparr>,
        MUeContextReleaseCommand i (unt_enb_ue_s1ap_id ?u) NasDetach], []), m\<lparr>m_world := w5\<rparr>)"
    and w5: "world_wf w5" "abs_world w5 = (abs_world (m_world m))(i \<mapsto> ?e5)"
    by (rule lte_step6 [OF wf e(1,2) u])
  have s5': "process_s1ap cr rand m (lte_send_uplink i ?d) =
      Some (([?acc, MUeContextReleaseCommand i ENB_UE_S1AP_ID NasDetach], []), m\<lparr>m_world := w5\<rparr>)"
    using s5 by (simp add: lte_send_uplink_def)
  obtain tu where tu: "e_tunnel ?e5 = Some tu" "tc_ul_teid tu = t" using e(3) by auto
  let ?m5 = "m\<lparr>m_world := w5\<rparr>" and ?c = "\<lparr>crc_mme_ue_s1ap_id = i, crc_enb_ue_s1ap_id = ENB_UE_S1AP_ID\<rparr>"
  have h6: "world_wf (m_world ?m5)" "abs_world (m_world ?m5) i = Some ?e5" "crc_mme_ue_s1ap_id ?c = i" using w5 by simp_all
  let ?m6 = "m\<lparr>m_registry := (m_registry m)(id_imsi (e_identity e) := None), m_world := despawn w5 i,
    m_teids := teid_release (m_teids m) t\<rparr>"
  have s6: "process_s1ap cr rand ?m5 (MUeContextReleaseComplete ?c) = Some (([], [RemoveSession t]), ?m6)"
    using lte_step7(1) [OF h6(1,2) tu(1) h6(3), of cr rand] tu(2) by simp
  have f: "s1ap_fits ?acc"
  proof -
    obtain x c where p: "?p = (x, c)" by (cases ?p)
    with length_encode_protected [OF p cr(1)] show ?thesis by simp
  qed
  have t5: "lte_answer cr usim ?ue ?acc = LteContinue ?ue []"
    by (rule lte_answer_detach_accept [OF cr]) simp_all
  have n: "n + 5 = Suc (Suc (Suc (Suc (Suc n))))" by simp
  have "lte_sim_run (n + 5) cr ay usim rand lost (lte_st m sm [lte_send_uplink i ?d] [] ?ue None False) =
      LteFinished (lte_st ?m6 (apply_upf_event ay sm (RemoveSession t)) [] [] ?ue None True)"
    unfolding n using f
    by (simp add: lte_st_mme [OF _ s5'] lte_st_ue [OF _ t5] lte_st_ue_done [OF _ lte_answer_release]
        lte_st_mme [OF _ s6] lte_st_finished del: lte_sim_run.simps)
  then show ?thesis by (rule that) (use w5 in \<open>simp_all add: ecs_wf ecs_abs\<close>)
qed

section \<open>The whole run\<close>

definition lte_sim_start :: "Mme \<Rightarrow> SessionManager \<Rightarrow> bytes \<Rightarrow> LteSim" where
  "lte_sim_start m sm ip =
     \<lparr>ls_mme = m, ls_sm = sm, ls_to_mme = [enc_s1ap lte_start], ls_to_ue = [], ls_ue = lte_ue0 ip,
      ls_check = None, ls_ended = False\<rparr>"

text \<open>
  C2: the LTE simulation reaches its end. Take an MME in a well-formed state with room for an
  entity, that serves a UPF and knows the test subscriber; take the subscriber of the simulator with
  the same key. With 14 turns or more the run is finished: the subscriber attached, was challenged and
  answered, opened the protected accept message, got its packet back through the tunnel of its session
  (fewer than five datagrams were lost), detached, and was released. Afterwards the MME has the
  same entities as before, the subscriber is not registered, its sequence number has advanced by one,
  its TEID is back in the allocator, and its session and uplink route are gone.
\<close>

theorem lte_simulation_completes:
  fixes m :: Mme
  assumes wf: "world_wf (m_world m)" and room: "unat (next_id (m_world m)) + 1 < 4294967296"
    and sub: "m_hss m LTE_TEST_IMSI = Some \<lparr>sr_ctx = usim, sr_sqn = 0\<rparr>" "length (mc_opc usim) = 16"
    and upf: "m_phase3_upf m = Some upf" "length upf = 4" "length ip = 4"
    and al: "teid_alloc (m_teids m) = (t, a')" and lost: "lost < 5" and rand: "length rand = 16"
    and cr: "aes_len cr" "hmac_len cr" "ctr_stream cr" "cmac_len cr" and n: "14 \<le> n"
  shows "\<exists>s. lte_sim_run n cr ay usim rand lost (lte_sim_start m sm ip) = LteFinished s \<and>
    abs_world (m_world (ls_mme s)) = abs_world (m_world m) \<and>
    m_registry (ls_mme s) = (m_registry m)(LTE_TEST_IMSI := None) \<and>
    m_hss (ls_mme s) = (m_hss m)(LTE_TEST_IMSI \<mapsto> \<lparr>sr_ctx = usim, sr_sqn = 1\<rparr>) \<and>
    m_teids (ls_mme s) = teid_release a' t \<and>
    get_session (ls_sm s) = (get_session sm)(t := None) \<and>
    lookup_ul (sm_routing (ls_sm s)) = (lookup_ul (sm_routing sm))(t := None) \<and>
    ls_to_mme s = [] \<and> ls_to_ue s = []"
proof -
  let ?e = "lte_authenticated cr usim rand"
  let ?k = "kasme_of cr ?e"
  let ?d = "encode_detach_request 1 False 0 (replicate 10 0)"
  obtain k where k: "n = ((k + 5) + 5) + 4" using le_Suc_ex [OF n] by (auto intro: that)
  have start: "lte_sim_start m sm ip = lte_st m sm [lte_start] [] (lte_ue0 ip) None False"
    by (simp add: lte_sim_start_def lte_st_def)
  obtain i w2 where r1: "\<forall>n. lte_sim_run (n + 4) cr ay usim rand lost (lte_st m sm [lte_start] [] (lte_ue0 ip) None False) =
      lte_sim_run n cr ay usim rand lost
        (lte_st (m\<lparr>m_world := w2, m_registry := (m_registry m)(LTE_TEST_IMSI \<mapsto> i),
            m_hss := (m_hss m)(LTE_TEST_IMSI \<mapsto> \<lparr>sr_ctx = usim, sr_sqn = 1\<rparr>)\<rparr>) sm
          [lte_send_uplink i encode_sec_mode_complete] [] (lte_ue1 ip i ?k) None False)"
    and w2: "world_wf w2" "abs_world (m_world m) i = None" "abs_world w2 = (abs_world (m_world m))(i \<mapsto> ?e)"
    by (rule lte_run_phase1 [where ay = ay and lost = lost and sm = sm and ip = ip, OF wf room sub cr(1) rand])
  let ?m2 = "m\<lparr>m_world := w2, m_registry := (m_registry m)(LTE_TEST_IMSI \<mapsto> i),
            m_hss := (m_hss m)(LTE_TEST_IMSI \<mapsto> \<lparr>sr_ctx = usim, sr_sqn = 1\<rparr>)\<rparr>"
  have h: "world_wf (m_world ?m2)" "abs_world (m_world ?m2) i = Some ?e" "m_phase3_upf ?m2 = Some upf"
    "length (id_ue_ip (e_identity ?e)) = 4" "teid_alloc (m_teids ?m2) = (t, a')"
    using w2 upf al by (simp_all add: lte_authenticated_identity)
  let ?sm = "lte_session_opened ay sm t i (id_imsi (e_identity ?e)) (id_ue_ip (e_identity ?e)) MOCK_DL_TEID ip"
  obtain w4 e4 where r2: "\<forall>n. lte_sim_run (n + 5) cr ay usim rand lost
        (lte_st ?m2 sm [lte_send_uplink i encode_sec_mode_complete] [] (lte_ue1 ip i ?k) None False) =
      lte_sim_run n cr ay usim rand lost
        (lte_st (?m2\<lparr>m_world := w4, m_teids := a'\<rparr>) ?sm [lte_send_uplink i ?d] [] (lte_ue1 ip i ?k) None False)"
    and w4: "world_wf w4" "abs_world w4 = (abs_world (m_world ?m2))(i \<mapsto> e4)"
      "e_nas_security e4 = Some ((lte_context cr ?k)\<lparr>dl_count := 1\<rparr>)"
      "map_option tc_ul_teid (e_tunnel e4) = Some t" "e_identity e4 = e_identity ?e"
    by (rule lte_run_phase2 [where ay = ay and usim = usim and rand = rand and sm = sm, OF h(1-3) upf(2,3) h(4,5) cr(3,4,2) lost])
  let ?m4 = "?m2\<lparr>m_world := w4, m_teids := a'\<rparr>"
  have h4: "world_wf (m_world ?m4)" "abs_world (m_world ?m4) i = Some e4" using w4 by simp_all
  obtain w6 where r3: "lte_sim_run (k + 5) cr ay usim rand lost
        (lte_st ?m4 ?sm [lte_send_uplink i ?d] [] (lte_ue1 ip i ?k) None False) =
      LteFinished
        (lte_st (?m4\<lparr>m_registry := (m_registry ?m4)(id_imsi (e_identity e4) := None), m_world := w6,
            m_teids := teid_release (m_teids ?m4) t\<rparr>) (apply_upf_event ay ?sm (RemoveSession t)) [] []
          (lte_ue1 ip i ?k) None True)"
    and w6: "world_wf w6" "abs_world w6 = (abs_world (m_world ?m4))(i := None)"
    by (rule lte_run_phase3 [where ay = ay and usim = usim and rand = rand and lost = lost and n = k and ip = ip and sm = ?sm,
        OF h4 w4(3,4) cr(3,4)])
  have same: "abs_world w6 = abs_world (m_world m)" using w6(2) w4(2) w2 by (auto simp: fun_eq_iff)
  show ?thesis
    unfolding k start r1 [rule_format] r2 [rule_format] r3
    using same w4(5) by (simp add: lte_st_def lte_session_removed lte_authenticated_identity fun_eq_iff)
qed

theorem lte_simulation_completes_witness:
  "\<exists>s. lte_sim_run 14 sample_crypto sample_aya (MilenageContext_new (replicate 16 1) (replicate 16 2)) (replicate 16 7) 4
      (lte_sim_start (Mme_new\<lparr>m_phase3_upf := Some [10, 0, 0, 1],
          m_hss := provision Hss_new LTE_TEST_IMSI (replicate 16 1) (replicate 16 2)\<rparr>)
        SessionManager_new [10, 0, 0, 2]) = LteFinished s \<and>
    m_registry (ls_mme s) = ImsiRegistry_new \<and> lookup_ul (sm_routing (ls_sm s)) = Map.empty"
proof -
  let ?m = "Mme_new\<lparr>m_phase3_upf := Some [10, 0, 0, 1],
    m_hss := provision Hss_new LTE_TEST_IMSI (replicate 16 1) (replicate 16 2)\<rparr>"
  obtain t a' where al: "teid_alloc (m_teids ?m) = (t, a')" by (cases "teid_alloc (m_teids ?m)")
  have m: "world_wf (m_world ?m)" "unat (next_id (m_world ?m)) + 1 < 4294967296"
    "m_hss ?m LTE_TEST_IMSI = Some \<lparr>sr_ctx = MilenageContext_new (replicate 16 1) (replicate 16 2), sr_sqn = 0\<rparr>"
    "length (mc_opc (MilenageContext_new (replicate 16 1) (replicate 16 2))) = 16"
    "m_phase3_upf ?m = Some [10, 0, 0, 1]" "length [10, 0, 0, 1 :: u8] = 4" "length [10, 0, 0, 2 :: u8] = 4"
    by (simp_all add: Mme_new_def provision_def MilenageContext_new_def) (simp add: World_new_def)
  have none: "(lookup_ul (sm_routing SessionManager_new))(t := None) = Map.empty"
    by (simp add: fun_eq_iff lookup_ul_def SessionManager_new_def RoutingTable_new_def)
  show ?thesis
    using lte_simulation_completes [OF m al _ _ sample_crypto_ok(4,3,1,2), of 4 "replicate 16 7" 14 sample_aya SessionManager_new]
    by (auto simp: Mme_new_def ImsiRegistry_new_def none)
qed

end
