(* ===== verification/Keccak_Sponge.thy ===== *)
theory Keccak_Sponge
  imports Midn_Prelude
begin

text \<open>
  The Keccak sponge of \<open>crates/midn-auth/src/tuak/sponge.rs\<close> over the permutation of
  \<open>tuak/keccak_p.rs\<close>, which an external library computes: it is the argument \<open>f\<close> of the operations,
  a function on the 25 lanes of the state. A failed assertion, an index out of range and a loop
  that does not end are \<open>None\<close>. The debug assertions of the source state lengths that the lemmas
  below prove.

  The reference is the sponge of FIPS 202 on byte strings, with the padding rule given on bits.
\<close>

section \<open>The code\<close>

type_synonym lanes = "u64 list"

definition STATE_LANES :: nat where "STATE_LANES = 25"
definition STATE_BYTES :: nat where "STATE_BYTES = STATE_LANES * 8"

definition keccak_f1600 :: "(lanes \<Rightarrow> lanes) \<Rightarrow> lanes \<Rightarrow> lanes" where
  "keccak_f1600 f state = f state"

record KeccakSponge =
  ks_state :: lanes
  ks_rate_bytes :: nat
  ks_squeeze_pos :: nat
  ks_squeezing :: bool

definition KeccakSponge_new :: "nat \<Rightarrow> KeccakSponge option" where
  "KeccakSponge_new rate_bytes =
     (if 1 \<le> rate_bytes \<and> rate_bytes \<le> STATE_BYTES
      then Some \<lparr>ks_state = replicate STATE_LANES 0, ks_rate_bytes = rate_bytes, ks_squeeze_pos = 0,
                 ks_squeezing = False\<rparr>
      else None)"

text \<open>\<open>slice::chunks\<close>: pieces of \<open>n\<close> elements, the last one possibly shorter.\<close>

function chunks :: "nat \<Rightarrow> 'a list \<Rightarrow> 'a list list" where
  "chunks n xs = (if n = 0 \<or> xs = [] then [] else take n xs # chunks n (drop n xs))"
  by pat_completeness auto
termination by (relation "measure (length \<circ> snd)") auto

declare chunks.simps [simp del]

text \<open>\<open>u64::from_le_bytes\<close> and \<open>u64::to_le_bytes\<close>.\<close>

definition from_le :: "bytes \<Rightarrow> u64" where
  "from_le bs = from_be (rev bs)"

definition to_le64 :: "u64 \<Rightarrow> bytes" where
  "to_le64 w = rev (to_be64 w)"

definition pad10_star_1 :: "bytes \<Rightarrow> nat \<Rightarrow> bytes" where
  "pad10_star_1 input rate_bytes =
     (let rem = length input mod rate_bytes;
          pad_len = rate_bytes - rem
      in if pad_len = 1 then input @ [0x81]
         else input @ [0x01] @ replicate (pad_len - 2) 0 @ [0x80])"

definition xor_block_into_state :: "lanes \<Rightarrow> bytes \<Rightarrow> lanes option" where
  "xor_block_into_state state block =
     foldM (\<lambda>st (i, chunk).
         if i < length st
         then Some (st[i := st ! i XOR from_le (chunk @ replicate (8 - length chunk) 0)])
         else None)
       state (enumerate 0 (chunks 8 block))"

definition state_as_bytes :: "lanes \<Rightarrow> bytes" where
  "state_as_bytes state = concat (map to_le64 state)"

definition absorb :: "(lanes \<Rightarrow> lanes) \<Rightarrow> KeccakSponge \<Rightarrow> bytes \<Rightarrow> KeccakSponge option" where
  "absorb f s input =
     (if ks_squeezing s then None
      else
        let padded = pad10_star_1 input (ks_rate_bytes s) in
        map_option (\<lambda>st. s\<lparr>ks_state := st\<rparr>)
          (foldM (\<lambda>st block. map_option (keccak_f1600 f) (xor_block_into_state st block))
            (ks_state s) (chunks (ks_rate_bytes s) padded)))"

text \<open>The loop of \<open>squeeze\<close>, with the number of bytes still to come.\<close>

partial_function (option) squeeze_loop ::
    "(lanes \<Rightarrow> lanes) \<Rightarrow> nat \<Rightarrow> lanes \<Rightarrow> nat \<Rightarrow> nat \<Rightarrow> (bytes \<times> lanes \<times> nat) option" where
  "squeeze_loop f rate st pos n =
     (if n = 0 then Some ([], st, pos)
      else
        let st' = (if pos = rate then keccak_f1600 f st else st);
            pos' = (if pos = rate then 0 else pos);
            tk = min (rate - pos') n
        in if rate < pos' \<or> length (state_as_bytes st') < pos' + tk then None
           else Option.bind (squeeze_loop f rate st' (pos' + tk) (n - tk))
                  (\<lambda>(out, r). Some (take tk (drop pos' (state_as_bytes st')) @ out, r)))"

definition squeeze :: "(lanes \<Rightarrow> lanes) \<Rightarrow> KeccakSponge \<Rightarrow> nat \<Rightarrow> (bytes \<times> KeccakSponge) option" where
  "squeeze f s len =
     map_option (\<lambda>(out, st, pos). (out, s\<lparr>ks_state := st, ks_squeeze_pos := pos, ks_squeezing := True\<rparr>))
       (squeeze_loop f (ks_rate_bytes s) (ks_state s) (ks_squeeze_pos s) len)"

definition absorb_and_squeeze :: "(lanes \<Rightarrow> lanes) \<Rightarrow> nat \<Rightarrow> bytes \<Rightarrow> nat \<Rightarrow> bytes option" where
  "absorb_and_squeeze f rate_bytes input output_len =
     Option.bind (KeccakSponge_new rate_bytes) (\<lambda>s.
       Option.bind (absorb f s input) (\<lambda>s. map_option fst (squeeze f s output_len)))"

text \<open>A caller that asks for several outputs in a row.\<close>

fun squeeze_all :: "(lanes \<Rightarrow> lanes) \<Rightarrow> KeccakSponge \<Rightarrow> nat list \<Rightarrow> (bytes list \<times> KeccakSponge) option" where
  "squeeze_all f s [] = Some ([], s)"
| "squeeze_all f s (n # ns) =
     Option.bind (squeeze f s n) (\<lambda>(out, s').
       map_option (\<lambda>(outs, s''). (out # outs, s'')) (squeeze_all f s' ns))"

section \<open>The reference\<close>

text \<open>The bits of a byte string, least significant first, and the padding rule on bits.\<close>

definition bits_of_bytes :: "bytes \<Rightarrow> bool list" where
  "bits_of_bytes bs = concat (map (\<lambda>b. map (bit b) [0..<8]) bs)"

definition pad101 :: "nat \<Rightarrow> nat \<Rightarrow> bool list" where
  "pad101 x m = True # replicate (nat ((- int m - 2) mod int x)) False @ [True]"

text \<open>Absorbing the padded string block by block, and squeezing \<open>d\<close> bytes.\<close>

definition fips_absorb :: "(bytes \<Rightarrow> bytes) \<Rightarrow> nat \<Rightarrow> bytes \<Rightarrow> bytes" where
  "fips_absorb g r p =
     foldl (\<lambda>s block. g (xor_bytes s (block @ replicate (200 - r) 0))) (replicate 200 0) (chunks r p)"

fun fips_squeeze :: "(bytes \<Rightarrow> bytes) \<Rightarrow> nat \<Rightarrow> bytes \<Rightarrow> nat \<Rightarrow> bytes" where
  "fips_squeeze g r s d =
     (if d \<le> r \<or> r = 0 then take d s else take r s @ fips_squeeze g r (g s) (d - r))"

declare fips_squeeze.simps [simp del]

definition byte_permutation :: "(lanes \<Rightarrow> lanes) \<Rightarrow> bytes \<Rightarrow> bytes" where
  "byte_permutation f s = state_as_bytes (f (map from_le (chunks 8 s)))"

definition keeps_lanes :: "(lanes \<Rightarrow> lanes) \<Rightarrow> bool" where
  "keeps_lanes f \<longleftrightarrow> (\<forall>s. length s = STATE_LANES \<longrightarrow> length (f s) = STATE_LANES)"

section \<open>Chunks and lanes\<close>

lemma chunks_nil [simp]: "chunks n [] = []"
  by (subst chunks.simps) simp

lemma chunks_step: "0 < n \<Longrightarrow> xs \<noteq> [] \<Longrightarrow> chunks n xs = take n xs # chunks n (drop n xs)"
  by (subst chunks.simps) simp

lemma concat_chunks: "0 < n \<Longrightarrow> concat (chunks n xs) = xs"
  by (induction n xs rule: chunks.induct) (subst chunks.simps, simp)

lemma chunks_length: "0 < n \<Longrightarrow> c \<in> set (chunks n xs) \<Longrightarrow> length c \<le> n"
  by (induction n xs rule: chunks.induct) (subst (asm) (2) chunks.simps, auto split: if_splits)

lemma chunks_exact:
  "n dvd length xs \<Longrightarrow> c \<in> set (chunks n xs) \<Longrightarrow> length c = n"
proof (induction n xs rule: chunks.induct)
  case (1 n xs)
  show ?case
  proof (cases "n = 0 \<or> xs = []")
    case False
    then have n: "n \<le> length xs" using 1(2) by (auto dest: dvd_imp_le)
    with False 1 show ?thesis by (auto simp: chunks_step dvd_diff_nat)
  qed (use 1 in \<open>auto simp: chunks.simps\<close>)
qed

lemma chunks_count_le: "0 < n \<Longrightarrow> length xs \<le> n * m \<Longrightarrow> length (chunks n xs) \<le> m"
proof (induction m arbitrary: xs)
  case (Suc m)
  then show ?case by (cases "xs = []") (auto simp: chunks_step)
qed simp

lemma length_concat_exact: "\<forall>c \<in> set cs. length c = n \<Longrightarrow> length (concat cs) = n * length cs"
  by (induction cs) auto

lemma chunks_count: "0 < n \<Longrightarrow> n dvd length xs \<Longrightarrow> n * length (chunks n xs) = length xs"
  using length_concat_exact [of "chunks n xs" n] chunks_exact [of n xs] by (simp add: concat_chunks)

lemma length_le64 [simp]: "length (to_le64 w) = 8"
  by (simp add: to_le64_def)

lemma from_le_to_le64 [simp]: "from_le (to_le64 w) = w"
  by (simp add: from_le_def to_le64_def)

lemma to_le64_from_le: "length bs = 8 \<Longrightarrow> to_le64 (from_le bs) = bs"
  by (simp add: from_le_def to_le64_def to_be64_from_be)

lemma to_le64_eq: "to_le64 w = map (\<lambda>i. ucast (drop_bit (8 * i) w)) [0..<8]"
  by (simp add: to_le64_def to_be64_to_be to_be_def rev_map)

lemma to_le64_xor: "to_le64 (a XOR b) = xor_bytes (to_le64 a) (to_le64 b)"
proof -
  have "(ucast (drop_bit k (a XOR b)) :: u8) = ucast (drop_bit k a) XOR ucast (drop_bit k b)" for k
    by (rule bit_word_eqI) (auto simp: bit_simps)
  then show ?thesis by (simp add: to_le64_eq xor_bytes_def zip_map_map zip_same_conv_map)
qed

lemma length_state_as_bytes [simp]: "length (state_as_bytes st) = 8 * length st"
  by (induction st) (simp_all add: state_as_bytes_def)

lemma lanes_of_state_bytes: "map from_le (chunks 8 (state_as_bytes st)) = st"
proof (induction st)
  case (Cons w st)
  have "chunks 8 (to_le64 w @ state_as_bytes st) = to_le64 w # chunks 8 (state_as_bytes st)"
    by (subst chunks_step) (auto simp del: length_0_conv dest: arg_cong [of _ _ length])
  with Cons show ?case by (simp add: state_as_bytes_def)
qed (simp add: state_as_bytes_def)

lemma byte_permutation_state: "byte_permutation f (state_as_bytes st) = state_as_bytes (f st)"
  by (simp add: byte_permutation_def lanes_of_state_bytes)

section \<open>Absorbing\<close>

text \<open>What the loop over the lanes does, as one recursion over the lanes.\<close>

fun xor_lanes :: "lanes \<Rightarrow> bytes \<Rightarrow> lanes" where
  "xor_lanes [] block = []"
| "xor_lanes (w # st) block =
     (w XOR from_le (take 8 block @ replicate (8 - length (take 8 block)) 0)) # xor_lanes st (drop 8 block)"

lemma from_le_zero: "from_le (replicate 8 0) = 0"
  by (simp add: from_le_def from_be_def numeral_eq_Suc)

lemma xor_lanes_nil [simp]: "xor_lanes st [] = st"
  by (induction st) (simp_all add: from_le_zero)

lemma length_xor_lanes [simp]: "length (xor_lanes st block) = length st"
  by (induction st block rule: xor_lanes.induct) simp_all

lemma xor_block_loop:
  "length (chunks 8 block) \<le> length st \<Longrightarrow>
   foldM (\<lambda>st (i, chunk). if i < length st
       then Some (st[i := st ! i XOR from_le (chunk @ replicate (8 - length chunk) 0)]) else None)
     (pre @ st) (enumerate (length pre) (chunks 8 block)) = Some (pre @ xor_lanes st block)"
proof (induction st arbitrary: pre block)
  case Nil
  then show ?case by simp
next
  case (Cons w st)
  show ?case
  proof (cases "block = []")
    case False
    let ?w = "w XOR from_le (take 8 block @ replicate (8 - length (take 8 block)) 0)"
    have c: "chunks 8 block = take 8 block # chunks 8 (drop 8 block)" using False by (simp add: chunks_step)
    have "length (chunks 8 (drop 8 block)) \<le> length st" using Cons.prems c by simp
    from Cons.IH [OF this, of "pre @ [?w]"] show ?thesis by (simp add: c list_update_append)
  qed simp
qed

lemma xor_block_lanes:
  "length block \<le> 8 * length st \<Longrightarrow> xor_block_into_state st block = Some (xor_lanes st block)"
  using xor_block_loop [of block st "[]"] chunks_count_le [of 8 block "length st"]
  by (simp add: xor_block_into_state_def)

lemma xor_bytes_append:
  "length xs = length ys \<Longrightarrow> xor_bytes (xs @ xs') (ys @ ys') = xor_bytes xs ys @ xor_bytes xs' ys'"
  by (simp add: xor_bytes_def)

lemma state_bytes_xor_lanes:
  "length block \<le> 8 * length st \<Longrightarrow>
   state_as_bytes (xor_lanes st block) =
     xor_bytes (state_as_bytes st) (block @ replicate (8 * length st - length block) 0)"
proof (induction st arbitrary: block)
  case Nil
  then show ?case by (simp add: state_as_bytes_def xor_bytes_def)
next
  case (Cons w st)
  let ?p = "take 8 block @ replicate (8 - length (take 8 block)) 0"
  let ?q = "drop 8 block @ replicate (8 * length st - length (drop 8 block)) 0"
  have split: "block @ replicate (8 * length (w # st) - length block) 0 = ?p @ ?q"
  proof (cases "length block \<le> 8")
    case True
    then have "8 * length (w # st) - length block = (8 - length block) + 8 * length st" by simp
    then show ?thesis using True by (simp only: replicate_add) simp
  qed (use Cons.prems in \<open>simp add: append_assoc [symmetric] del: append_assoc\<close>)
  have "state_as_bytes (xor_lanes (w # st) block) =
      xor_bytes (to_le64 w) ?p @ xor_bytes (state_as_bytes st) ?q"
    using Cons by (simp add: state_as_bytes_def to_le64_xor to_le64_from_le)
  also have "\<dots> = xor_bytes (to_le64 w @ state_as_bytes st) (?p @ ?q)"
    by (rule xor_bytes_append [symmetric]) simp
  finally show ?case using split by (simp add: state_as_bytes_def)
qed

section \<open>Padding\<close>

lemma gap_pos: "0 < r \<Longrightarrow> 1 \<le> r - n mod (r :: nat)"
  using mod_less_divisor [of r n] by linarith

lemma pad_length: "0 < r \<Longrightarrow> length (pad10_star_1 input r) = length input + (r - length input mod r)"
proof -
  assume "0 < r"
  then have "1 \<le> r - length input mod r" by (rule gap_pos)
  then show ?thesis by (auto simp: pad10_star_1_def Let_def)
qed

lemma pad_dvd: "0 < r \<Longrightarrow> r dvd length (pad10_star_1 input r)"
proof -
  assume r: "0 < r"
  have "length input + (r - length input mod r) = (length input div r) * r + r"
    using r mod_less_divisor [OF r, of "length input"] div_mult_mod_eq [of "length input" r] by linarith
  with r show ?thesis by (simp add: pad_length)
qed

lemma bits_append [simp]: "bits_of_bytes (xs @ ys) = bits_of_bytes xs @ bits_of_bytes ys"
  by (simp add: bits_of_bytes_def)

lemma bits_zeros: "bits_of_bytes (replicate n 0) = replicate (8 * n) False"
  by (induction n) (simp_all add: bits_of_bytes_def numeral_eq_Suc upt_rec)

lemma bits_ends:
  "bits_of_bytes [0x81] = True # replicate 6 False @ [True]"
  "bits_of_bytes [0x01] = True # replicate 7 False"
  "bits_of_bytes [0x80] = replicate 7 False @ [True]"
  by (simp_all add: bits_of_bytes_def upt_rec numeral_eq_Suc)

lemma pad_gap:
  assumes "0 < r"
  shows "(- int (8 * n) - 2) mod int (8 * r) = int (8 * (r - n mod r) - 2)"
proof -
  let ?k = "r - n mod r"
  have k: "1 \<le> ?k" "?k \<le> r" using gap_pos [OF assms] by simp_all
  have "int n = int (n div r) * int r + int (n mod r)" by (metis div_mult_mod_eq of_nat_add of_nat_mult)
  then have "- int (8 * n) - 2 = int (8 * ?k - 2) + int (8 * r) * (- int (n div r) - 1)"
    using k assms by (simp add: of_nat_diff algebra_simps)
  moreover have "int (8 * ?k - 2) < int (8 * r)" using k by simp
  ultimately show ?thesis using k
    by (simp only: mod_mult_self2) (simp add: mod_pos_pos_trivial)
qed

lemma pad_bits:
  assumes "0 < r"
  shows "bits_of_bytes (pad10_star_1 input r) = bits_of_bytes input @ pad101 (8 * r) (8 * length input)"
proof -
  let ?k = "r - length input mod r"
  have gap: "nat ((- int (8 * length input) - 2) mod int (8 * r)) = 8 * ?k - 2"
    unfolding pad_gap [OF assms] by simp
  show ?thesis
  proof (cases "?k = 1")
    case True
    then show ?thesis by (simp only: pad10_star_1_def pad101_def gap Let_def if_True bits_append) (simp add: bits_ends)
  next
    case False
    then have "2 \<le> ?k" using gap_pos [OF assms, of "length input"] by linarith
    then have k: "8 * ?k - 2 = 7 + (8 * (?k - 2) + 7)" by simp
    show ?thesis using False
      by (simp only: pad10_star_1_def pad101_def gap Let_def if_False bits_append bits_ends bits_zeros k
          replicate_add) simp
  qed
qed

section \<open>The sponge\<close>

text \<open>Byte \<open>k\<close> of the output that the state \<open>s\<close> yields.\<close>

definition sponge_byte :: "(bytes \<Rightarrow> bytes) \<Rightarrow> nat \<Rightarrow> bytes \<Rightarrow> nat \<Rightarrow> u8" where
  "sponge_byte g r s k = ((g ^^ (k div r)) s) ! (k mod r)"

lemma sponge_byte_shift: "0 < r \<Longrightarrow> sponge_byte g r (g s) k = sponge_byte g r s (r + k)"
  by (simp add: sponge_byte_def funpow_swap1 div_add_self1)

lemma take_as_map: "n \<le> length xs \<Longrightarrow> take n xs = map (nth xs) [0..<n]"
  by (rule nth_equalityI) simp_all

lemma fips_squeeze_bytes:
  assumes r: "0 < r" "r \<le> 200" and g: "\<And>s. length s = 200 \<Longrightarrow> length (g s) = 200"
  shows "length s = 200 \<Longrightarrow> fips_squeeze g r s d = map (sponge_byte g r s) [0..<d]"
proof (induction d arbitrary: s rule: less_induct)
  case (less d)
  have first: "take n s = map (sponge_byte g r s) [0..<n]" if "n \<le> r" for n
    using that r less.prems by (simp add: take_as_map sponge_byte_def)
  show ?case
  proof (cases "d \<le> r")
    case True
    then show ?thesis using first [OF True] by (simp add: fips_squeeze.simps)
  next
    case False
    have "fips_squeeze g r s d = take r s @ map (sponge_byte g r (g s)) [0..<d - r]"
      using False r less.IH [of "d - r" "g s"] g [OF less.prems] by (simp add: fips_squeeze.simps [of g r s d])
    also have "map (sponge_byte g r (g s)) [0..<d - r] = map (sponge_byte g r s) [r..<d]"
      using False r by (auto simp: sponge_byte_shift intro: nth_equalityI)
    also have "take r s @ map (sponge_byte g r s) [r..<d] = map (sponge_byte g r s) [0..<d]"
      using False upt_add_eq_append [of 0 r "d - r"] by (simp add: first)
    finally show ?thesis .
  qed
qed

text \<open>The state and the position in it, after \<open>k\<close> bytes of the output of \<open>s0\<close> were taken.\<close>

definition sponge_at :: "(lanes \<Rightarrow> lanes) \<Rightarrow> bytes \<Rightarrow> nat \<Rightarrow> nat \<Rightarrow> lanes \<Rightarrow> nat \<Rightarrow> bool" where
  "sponge_at f s0 r k st pos \<longleftrightarrow>
     length st = 25 \<and> pos \<le> r \<and> (\<exists>q. state_as_bytes st = (byte_permutation f ^^ q) s0 \<and> k = q * r + pos)"

lemma sponge_at_next:
  assumes "keeps_lanes f" "sponge_at f s0 r k st r"
  shows "sponge_at f s0 r k (keccak_f1600 f st) 0"
proof -
  obtain q where q: "state_as_bytes st = (byte_permutation f ^^ q) s0" "k = q * r + r" "length st = 25"
    using assms(2) unfolding sponge_at_def by blast
  then have "state_as_bytes (f st) = (byte_permutation f ^^ Suc q) s0" "k = Suc q * r"
    using byte_permutation_state [of f st] by simp_all
  then show ?thesis using assms(1) q(3) unfolding sponge_at_def keeps_lanes_def keccak_f1600_def STATE_LANES_def
    by (metis add.right_neutral zero_le)
qed

lemma sponge_at_take:
  assumes at: "sponge_at f s0 r k st pos" and tk: "pos + tk \<le> r" "r \<le> 200" "0 < tk"
  shows "take tk (drop pos (state_as_bytes st)) = map (sponge_byte (byte_permutation f) r s0) [k..<k + tk]"
    "sponge_at f s0 r (k + tk) st (pos + tk)"
proof -
  obtain q where q: "state_as_bytes st = (byte_permutation f ^^ q) s0" "k = q * r + pos" "length st = 25"
    using at unfolding sponge_at_def by blast
  then show "sponge_at f s0 r (k + tk) st (pos + tk)" using tk by (auto simp: sponge_at_def)
  have idx: "(k + i) div r = q \<and> (k + i) mod r = pos + i" if "i < tk" for i
  proof -
    have "k + i = (pos + i) + q * r" "pos + i < r" using that tk q(2) by simp_all
    then show ?thesis by (simp only: div_mult_self1 mod_mult_self1) simp
  qed
  show "take tk (drop pos (state_as_bytes st)) = map (sponge_byte (byte_permutation f) r s0) [k..<k + tk]"
  proof (rule nth_equalityI)
    show "length (take tk (drop pos (state_as_bytes st))) =
        length (map (sponge_byte (byte_permutation f) r s0) [k..<k + tk])" using q(3) tk by simp
  next
    fix i assume "i < length (take tk (drop pos (state_as_bytes st)))"
    then have i: "i < tk" by simp
    have "sponge_byte (byte_permutation f) r s0 (k + i) = state_as_bytes st ! (pos + i)"
      using idx [OF i] q(1) by (simp add: sponge_byte_def)
    then show "take tk (drop pos (state_as_bytes st)) ! i =
        map (sponge_byte (byte_permutation f) r s0) [k..<k + tk] ! i"
      using i q(3) tk by simp
  qed
qed

lemma squeeze_loop_stream:
  assumes f: "keeps_lanes f" and r: "0 < r" "r \<le> 200"
  shows "sponge_at f s0 r k st pos \<Longrightarrow>
    \<exists>st' pos'. squeeze_loop f r st pos n =
        Some (map (sponge_byte (byte_permutation f) r s0) [k..<k + n], st', pos') \<and>
      sponge_at f s0 r (k + n) st' pos'"
proof (induction n arbitrary: k st pos rule: less_induct)
  case (less n)
  show ?case
  proof (cases "n = 0")
    case False
    let ?st = "if pos = r then keccak_f1600 f st else st" and ?pos = "if pos = r then 0 else pos"
    let ?tk = "min (r - ?pos) n" and ?out = "map (sponge_byte (byte_permutation f) r s0)"
    have at: "sponge_at f s0 r k ?st ?pos" using less.prems sponge_at_next [OF f, of s0 r k st] by auto
    have pos: "?pos < r" using less.prems r unfolding sponge_at_def by auto
    then have tk: "?pos + ?tk \<le> r" "0 < ?tk" "?tk \<le> n" using False by auto
    have len: "length (state_as_bytes ?st) = 200" using at by (simp add: sponge_at_def)
    note piece = sponge_at_take [OF at tk(1) r(2) tk(2)]
    have "n - ?tk < n" using tk by linarith
    from less.IH [OF this piece(2)] obtain st' pos' where
      rest: "squeeze_loop f r ?st (?pos + ?tk) (n - ?tk) = Some (?out [k + ?tk..<k + n], st', pos')"
        "sponge_at f s0 r (k + n) st' pos'"
      using tk(3) by auto
    have "?out [k..<k + n] = ?out [k..<k + ?tk] @ ?out [k + ?tk..<k + n]"
      unfolding map_append [symmetric] using tk(3) upt_add_eq_append [of k "k + ?tk" "n - ?tk"] by simp
    then have "squeeze_loop f r st pos n = Some (?out [k..<k + n], st', pos')"
      using False pos tk len r piece(1) rest(1) by (subst squeeze_loop.simps) (simp add: Let_def)
    with rest(2) show ?thesis by blast
  qed (use less.prems in \<open>simp add: squeeze_loop.simps\<close>)
qed

lemma absorb_state:
  assumes f: "keeps_lanes f" and r: "0 < r" "r \<le> 200"
  shows "length st = 25 \<Longrightarrow> \<forall>c \<in> set blocks. length c = r \<Longrightarrow>
    \<exists>st'. foldM (\<lambda>st block. map_option (keccak_f1600 f) (xor_block_into_state st block)) st blocks = Some st' \<and>
      length st' = 25 \<and> state_as_bytes st' =
        foldl (\<lambda>s block. byte_permutation f (xor_bytes s (block @ replicate (200 - r) 0))) (state_as_bytes st) blocks"
proof (induction blocks arbitrary: st)
  case (Cons c blocks)
  let ?st = "f (xor_lanes st c)"
  have len: "length ?st = 25" using f Cons.prems(1) by (simp add: keeps_lanes_def STATE_LANES_def)
  have c: "length c = r" using Cons.prems(2) by simp
  have "state_as_bytes ?st = byte_permutation f (xor_bytes (state_as_bytes st) (c @ replicate (200 - r) 0))"
    using state_bytes_xor_lanes [of c st] Cons.prems(1) c r(2) byte_permutation_state [of f "xor_lanes st c"] by simp
  with Cons.IH [OF len] Cons.prems c r show ?case
    by (simp add: xor_block_lanes keccak_f1600_def)
qed simp

lemma squeeze_all_stream:
  assumes f: "keeps_lanes f" and r: "0 < r" "r \<le> 200"
  shows "sponge_at f s0 r k (ks_state s) (ks_squeeze_pos s) \<Longrightarrow> ks_rate_bytes s = r \<Longrightarrow>
    \<exists>outs s'. squeeze_all f s ns = Some (outs, s') \<and> map length outs = ns \<and>
      concat outs = map (sponge_byte (byte_permutation f) r s0) [k..<k + sum_list ns] \<and>
      (ks_squeezing s \<or> ns \<noteq> [] \<longrightarrow> ks_squeezing s')"
proof (induction ns arbitrary: k s)
  case (Cons n ns)
  obtain st' pos' where l: "squeeze_loop f r (ks_state s) (ks_squeeze_pos s) n =
      Some (map (sponge_byte (byte_permutation f) r s0) [k..<k + n], st', pos')" "sponge_at f s0 r (k + n) st' pos'"
    using squeeze_loop_stream [OF f r Cons.prems(1)] by blast
  let ?s = "s\<lparr>ks_state := st', ks_squeeze_pos := pos', ks_squeezing := True\<rparr>"
  obtain outs s' where rest: "squeeze_all f ?s ns = Some (outs, s')" "map length outs = ns"
      "concat outs = map (sponge_byte (byte_permutation f) r s0) [k + n..<k + n + sum_list ns]" "ks_squeezing s'"
    using Cons.IH [of "k + n" ?s] l(2) Cons.prems(2) by auto
  have "[k..<k + sum_list (n # ns)] = [k..<k + n] @ [k + n..<k + n + sum_list ns]"
    using upt_add_eq_append [of k "k + n" "sum_list ns"] by (simp add: add.assoc)
  with l(1) rest Cons.prems(2) show ?case by (simp add: squeeze_def)
qed simp

lemma state_bytes_zero: "state_as_bytes (replicate 25 0) = replicate 200 0"
  by (simp add: state_as_bytes_def to_le64_eq numeral_eq_Suc)

text \<open>
  C24. The sponge is the one of FIPS 202. For a rate from 1 to 200 bytes, absorbing an input
  succeeds, and squeezing any sequence of lengths succeeds and returns, put together, the output
  of the standard's sponge on the input with the padding rule applied to its bits. So several calls of
  \<open>squeeze\<close> give what one call would, and after a call the sponge accepts no more input.
\<close>

theorem sponge_matches_fips202:
  assumes "keeps_lanes f" "1 \<le> r" "r \<le> 200"
  shows "\<exists>p s0 s outs s'. bits_of_bytes p = bits_of_bytes input @ pad101 (8 * r) (8 * length input) \<and>
    KeccakSponge_new r = Some s0 \<and> absorb f s0 input = Some s \<and> squeeze_all f s ns = Some (outs, s') \<and>
    map length outs = ns \<and>
    concat outs = fips_squeeze (byte_permutation f) r (fips_absorb (byte_permutation f) r p) (sum_list ns) \<and>
    (ns \<noteq> [] \<longrightarrow> absorb f s' later = None)"
proof -
  let ?p = "pad10_star_1 input r" and ?g = "byte_permutation f"
  let ?ini = "\<lparr>ks_state = replicate 25 0, ks_rate_bytes = r, ks_squeeze_pos = 0, ks_squeezing = False\<rparr>"
  have r: "0 < r" using assms(2) by simp
  have new: "KeccakSponge_new r = Some ?ini"
    using assms by (simp add: KeccakSponge_new_def STATE_BYTES_def STATE_LANES_def)
  have "\<forall>c \<in> set (chunks r ?p). length c = r" using chunks_exact [OF pad_dvd [OF r]] by blast
  from absorb_state [OF assms(1) r assms(3) _ this, of "replicate 25 0"] obtain st where
    st: "foldM (\<lambda>st block. map_option (keccak_f1600 f) (xor_block_into_state st block)) (replicate 25 0) (chunks r ?p) = Some st"
      "length st = 25" "state_as_bytes st = fips_absorb ?g r ?p"
    by (auto simp: fips_absorb_def state_bytes_zero)
  let ?s = "?ini\<lparr>ks_state := st\<rparr>"
  have ab: "absorb f ?ini input = Some ?s" using st(1) by (simp add: absorb_def)
  have at: "sponge_at f (fips_absorb ?g r ?p) r 0 (ks_state ?s) (ks_squeeze_pos ?s)"
    using st(2,3) by (auto simp: sponge_at_def intro: exI [of _ 0])
  obtain outs s' where sq: "squeeze_all f ?s ns = Some (outs, s')" "map length outs = ns"
    "concat outs = map (sponge_byte ?g r (fips_absorb ?g r ?p)) [0..<0 + sum_list ns]" "ns \<noteq> [] \<longrightarrow> ks_squeezing s'"
    using squeeze_all_stream [OF assms(1) r assms(3) at, of ns] by auto
  have g: "length (?g x) = 200" if "length x = 200" for x
  proof -
    have "length (chunks 8 x) = 25" using chunks_count [of 8 x] that by simp
    then show ?thesis using assms(1) by (simp add: byte_permutation_def keeps_lanes_def STATE_LANES_def)
  qed
  have "length (fips_absorb ?g r ?p) = 200" using st(2) length_state_as_bytes [of st] unfolding st(3) by simp
  with sq(3) fips_squeeze_bytes [OF r assms(3) g] have
    "concat outs = fips_squeeze ?g r (fips_absorb ?g r ?p) (sum_list ns)" by simp
  moreover have "ns \<noteq> [] \<longrightarrow> absorb f s' later = None" using sq(4) by (simp add: absorb_def)
  ultimately show ?thesis using pad_bits [OF r] new ab sq(1,2) by blast
qed

theorem sponge_matches_fips202_witness:
  "\<exists>p s0 s outs s'. bits_of_bytes p = bits_of_bytes [1, 2, 3] @ pad101 (8 * 136) 24 \<and>
    KeccakSponge_new 136 = Some s0 \<and> absorb rev s0 [1, 2, 3] = Some s \<and> squeeze_all rev s [20, 20] = Some (outs, s') \<and>
    concat outs = fips_squeeze (byte_permutation rev) 136 (fips_absorb (byte_permutation rev) 136 p) 40 \<and>
    absorb rev s' [] = None"
  using sponge_matches_fips202 [of rev 136 "[1, 2, 3]" "[20, 20]" "[]"] by (auto simp: keeps_lanes_def)

end
