(* ===== verification/Milenage_Ffi.thy ===== *)
theory Milenage_Ffi
  imports Milenage
begin

text \<open>
  The C interface of \<open>crates/midn-auth/src/ffi.rs\<close>. The caller's memory is a partial map from
  addresses to bytes, defined where an access is valid; address 0 is the null pointer. Each
  function copies its input buffers to the stack, calls the Milenage functions and copies the
  results out; a copy that touches an invalid address is undefined behaviour, \<open>None\<close>. What a
  copy must satisfy is the interface \<open>byte_memory\<close>, from which the lemma about a row of copies
  is proved.
\<close>

section \<open>Memory\<close>

type_synonym memory = "nat \<rightharpoonup> u8"
type_synonym i32 = "32 word"

definition is_null :: "nat \<Rightarrow> bool" where
  "is_null p \<longleftrightarrow> p = 0"

definition valid_for :: "memory \<Rightarrow> nat \<Rightarrow> nat \<Rightarrow> bool" where
  "valid_for m p n \<longleftrightarrow> list_all (\<lambda>a. m a \<noteq> None) [p..<p + n]"

text \<open>\<open>copy_nonoverlapping\<close> into and out of a local array.\<close>

definition copy_in :: "memory \<Rightarrow> nat \<Rightarrow> nat \<Rightarrow> bytes option" where
  "copy_in m p n = (if valid_for m p n then Some (map (\<lambda>a. the (m a)) [p..<p + n]) else None)"

definition copy_out :: "memory \<Rightarrow> nat \<Rightarrow> bytes \<Rightarrow> memory option" where
  "copy_out m p bs =
     (if valid_for m p (length bs)
      then Some (\<lambda>a. if p \<le> a \<and> a < p + length bs then Some (bs ! (a - p)) else m a)
      else None)"

section \<open>The functions\<close>

definition midn_milenage_generate_vector ::
    "crypto \<Rightarrow> memory \<Rightarrow> nat \<Rightarrow> nat \<Rightarrow> nat \<Rightarrow> nat \<Rightarrow> nat \<Rightarrow> nat \<Rightarrow> nat \<Rightarrow> nat \<Rightarrow> nat \<Rightarrow> nat \<Rightarrow> nat \<Rightarrow> nat \<Rightarrow>
     (i32 \<times> memory) option" where
  "midn_milenage_generate_vector cr m ki_ptr opc_ptr rand_ptr sqn_ptr amf_ptr
       mac_a_out mac_s_out res_out ck_out ik_out ak_out ak_star_out =
     (if is_null ki_ptr \<or> is_null opc_ptr \<or> is_null rand_ptr \<or> is_null sqn_ptr \<or> is_null amf_ptr \<or>
         is_null mac_a_out \<or> is_null mac_s_out \<or> is_null res_out \<or> is_null ck_out \<or> is_null ik_out \<or>
         is_null ak_out \<or> is_null ak_star_out
      then Some (- 1, m)
      else
        Option.bind (copy_in m ki_ptr 16) (\<lambda>ki_buf.
        Option.bind (copy_in m opc_ptr 16) (\<lambda>opc_buf.
        Option.bind (copy_in m rand_ptr 16) (\<lambda>rand_buf.
        Option.bind (copy_in m sqn_ptr 6) (\<lambda>sqn_buf.
        Option.bind (copy_in m amf_ptr 2) (\<lambda>amf_buf.
          let ctx = MilenageContext_new ki_buf opc_buf;
              v = generate_vector_with_rand cr ctx (Sqn_from_bytes sqn_buf) amf_buf rand_buf
          in map_option (Pair 0)
               (foldM (\<lambda>m (p, bs). copy_out m p bs) m
                 [(mac_a_out, mac_a v), (mac_s_out, mac_s v), (res_out, av_res v), (ck_out, av_ck v),
                  (ik_out, av_ik v), (ak_out, av_ak v), (ak_star_out, av_ak_star v)])))))))"

definition midn_milenage_compute_opc ::
    "crypto \<Rightarrow> memory \<Rightarrow> nat \<Rightarrow> nat \<Rightarrow> nat \<Rightarrow> (i32 \<times> memory) option" where
  "midn_milenage_compute_opc cr m ki_ptr op_ptr opc_out =
     (if is_null ki_ptr \<or> is_null op_ptr \<or> is_null opc_out then Some (- 1, m)
      else
        Option.bind (copy_in m ki_ptr 16) (\<lambda>ki_buf.
        Option.bind (copy_in m op_ptr 16) (\<lambda>op_buf.
          let ctx = MilenageContext_with_op cr ki_buf op_buf
          in map_option (Pair 0) (copy_out m opc_out (mc_opc ctx)))))"

definition midn_milenage_verify_res :: "memory \<Rightarrow> nat \<Rightarrow> nat \<Rightarrow> (i32 \<times> memory) option" where
  "midn_milenage_verify_res m expected_ptr received_ptr =
     (if is_null expected_ptr \<or> is_null received_ptr then Some (- 1, m)
      else
        Option.bind (copy_in m expected_ptr 8) (\<lambda>expected.
        Option.bind (copy_in m received_ptr 8) (\<lambda>received.
          Some (if verify_res expected received then 1 else 0, m))))"

section \<open>A row of copies\<close>

definition apart :: "nat \<Rightarrow> nat \<Rightarrow> nat \<Rightarrow> nat \<Rightarrow> bool" where
  "apart p n q k \<longleftrightarrow> p + n \<le> q \<or> q + k \<le> p"

locale byte_memory =
  fixes valid :: "'m \<Rightarrow> nat \<Rightarrow> nat \<Rightarrow> bool"
    and load :: "'m \<Rightarrow> nat \<Rightarrow> nat \<Rightarrow> bytes option"
    and store :: "'m \<Rightarrow> nat \<Rightarrow> bytes \<Rightarrow> 'm option"
  assumes store_Some: "valid m p (length bs) \<Longrightarrow> store m p bs \<noteq> None"
    and valid_store: "store m p bs = Some m' \<Longrightarrow> valid m' q n = valid m q n"
    and load_same: "store m p bs = Some m' \<Longrightarrow> load m' p (length bs) = Some bs"
    and load_apart: "store m p bs = Some m' \<Longrightarrow> apart p (length bs) q n \<Longrightarrow> load m' q n = load m q n"
begin

lemma store_row:
  "\<forall>(p, bs) \<in> set row. valid m p (length bs) \<Longrightarrow>
   sorted_wrt (\<lambda>(p, bs) (q, cs). apart p (length bs) q (length cs)) row \<Longrightarrow>
   \<exists>m'. foldM (\<lambda>m (p, bs). store m p bs) m row = Some m' \<and>
     (\<forall>(p, bs) \<in> set row. load m' p (length bs) = Some bs) \<and>
     (\<forall>q n. (\<forall>(p, bs) \<in> set row. apart p (length bs) q n) \<longrightarrow> load m' q n = load m q n)"
proof (induction row arbitrary: m)
  case (Cons x row)
  obtain p bs where x: "x = (p, bs)" by (cases x)
  obtain m1 where m1: "store m p bs = Some m1" using Cons.prems(1) x store_Some by fastforce
  have "\<forall>(p, bs) \<in> set row. valid m1 p (length bs)" using Cons.prems(1) valid_store [OF m1] by auto
  then obtain m' where m': "foldM (\<lambda>m (p, bs). store m p bs) m1 row = Some m'"
    "\<forall>(p, bs) \<in> set row. load m' p (length bs) = Some bs"
    "\<And>q n. \<forall>(p, bs) \<in> set row. apart p (length bs) q n \<Longrightarrow> load m' q n = load m1 q n"
    using Cons.IH [of m1] Cons.prems(2) by auto
  have "\<forall>(q, cs) \<in> set row. apart q (length cs) p (length bs)"
    using Cons.prems(2) x by (auto simp: apart_def)
  then have "load m' p (length bs) = Some bs" using m'(3) load_same [OF m1] by simp
  moreover have "load m' q n = load m q n"
    if "\<forall>(p, bs) \<in> set (x # row). apart p (length bs) q n" for q n
    using that m'(3) [of q n] load_apart [OF m1, of q n] x by simp
  ultimately show ?case using m' m1 x by auto
qed simp

end

lemma valid_for_nth: "valid_for m p n \<longleftrightarrow> (\<forall>i<n. m (p + i) \<noteq> None)"
proof -
  have "[p..<p + n] = map (\<lambda>i. p + i) [0..<n]" by (simp add: map_add_upt add.commute)
  then show ?thesis by (simp add: valid_for_def list_all_iff del: set_upt) (simp add: image_def Ball_def)
qed

lemma copy_in_nth:
  "copy_in m p n = (if \<forall>i<n. m (p + i) \<noteq> None then Some (map (\<lambda>i. the (m (p + i))) [0..<n]) else None)"
proof -
  have "[p..<p + n] = map (\<lambda>i. p + i) [0..<n]" by (simp add: map_add_upt add.commute)
  then show ?thesis by (simp add: copy_in_def valid_for_nth comp_def)
qed

lemma length_copy_in: "copy_in m p n = Some bs \<Longrightarrow> length bs = n"
  by (auto simp: copy_in_def split: if_splits)

interpretation ffi_memory: byte_memory valid_for copy_in copy_out
proof
  fix m :: memory and p :: nat and bs :: bytes
  assume "valid_for m p (length bs)"
  then show "copy_out m p bs \<noteq> None" by (simp add: copy_out_def)
next
  fix m m' :: memory and p q n :: nat and bs :: bytes
  assume st: "copy_out m p bs = Some m'"
  then have v: "valid_for m p (length bs)"
    and m': "m' = (\<lambda>a. if p \<le> a \<and> a < p + length bs then Some (bs ! (a - p)) else m a)"
    by (auto simp: copy_out_def split: if_splits)
  have "m a \<noteq> None" if "p \<le> a" "a < p + length bs" for a
    using that v valid_for_nth [of m p "length bs"] by (metis le_Suc_ex nat_add_left_cancel_less)
  then have "m' a = None \<longleftrightarrow> m a = None" for a by (auto simp: m')
  then show "valid_for m' q n = valid_for m q n" by (simp add: valid_for_def)
next
  fix m m' :: memory and p :: nat and bs :: bytes
  assume "copy_out m p bs = Some m'"
  then have "m' = (\<lambda>a. if p \<le> a \<and> a < p + length bs then Some (bs ! (a - p)) else m a)"
    by (auto simp: copy_out_def split: if_splits)
  then show "copy_in m' p (length bs) = Some bs"
    by (auto simp: copy_in_nth intro: nth_equalityI)
next
  fix m m' :: memory and p q n :: nat and bs :: bytes
  assume st: "copy_out m p bs = Some m'" "apart p (length bs) q n"
  then have "m' (q + i) = m (q + i)" if "i < n" for i
    using that by (auto simp: copy_out_def apart_def split: if_splits)
  then show "copy_in m' q n = copy_in m q n" by (simp add: copy_in_nth cong: if_cong)
qed

section \<open>Correctness\<close>

text \<open>What the safety comment asks of a caller: buffers not null and valid, results not overlapping.\<close>

definition buffers_ok :: "memory \<Rightarrow> (nat \<times> nat) list \<Rightarrow> (nat \<times> nat) list \<Rightarrow> bool" where
  "buffers_ok m ins outs \<longleftrightarrow>
     list_all (\<lambda>(p, n). \<not> is_null p \<and> valid_for m p n) (ins @ outs) \<and>
     sorted_wrt (\<lambda>(p, n) (q, k). apart p n q k) outs"

lemma valid_copy_in: "valid_for m p n \<Longrightarrow> \<exists>bs. copy_in m p n = Some bs \<and> length bs = n"
  by (simp add: copy_in_def)

lemma Sqn_to_from_bytes: "length b = 6 \<Longrightarrow> Sqn_to_bytes (Sqn_from_bytes b) = b"
proof -
  assume b: "length b = 6"
  then have "b = [b ! 0, b ! 1, b ! 2, b ! 3, b ! 4, b ! 5]"
    by (auto simp: length_Suc_conv numeral_eq_Suc)
  then have "Sqn_from_bytes b = from_be ([0, 0] @ b)" by (simp add: Sqn_from_bytes_def)
  also have "\<dots> = from_be b" by (simp add: from_be_def)
  finally show ?thesis using b by (simp add: Sqn_to_bytes_to_be to_be_from_be)
qed

lemma length_milenage_spec:
  assumes "aes_len cr" "length opc = 16"
  shows "length (mac_a (milenage_spec cr k opc rand sqn amf)) = 8" "length (mac_s (milenage_spec cr k opc rand sqn amf)) = 8"
    "length (av_res (milenage_spec cr k opc rand sqn amf)) = 8" "length (av_ck (milenage_spec cr k opc rand sqn amf)) = 16"
    "length (av_ik (milenage_spec cr k opc rand sqn amf)) = 16" "length (av_ak (milenage_spec cr k opc rand sqn amf)) = 6"
    "length (av_ak_star (milenage_spec cr k opc rand sqn amf)) = 6"
proof -
  have aes: "length (aes128 cr k b) = 16" for b using assms(1) by (simp add: aes128_def aes_len_def)
  show "length (mac_a (milenage_spec cr k opc rand sqn amf)) = 8" "length (mac_s (milenage_spec cr k opc rand sqn amf)) = 8"
    "length (av_res (milenage_spec cr k opc rand sqn amf)) = 8" "length (av_ck (milenage_spec cr k opc rand sqn amf)) = 16"
    "length (av_ik (milenage_spec cr k opc rand sqn amf)) = 16" "length (av_ak (milenage_spec cr k opc rand sqn amf)) = 6"
    "length (av_ak_star (milenage_spec cr k opc rand sqn amf)) = 6"
    using assms(2) aes by (simp_all add: milenage_spec_def spec_out_def Let_def)
qed

text \<open>The result of a row of copies, with the lengths of the buffers in place of the contents.\<close>

lemma copies_ok:
  assumes "list_all (\<lambda>(p, n). valid_for m p n) outs" "sorted_wrt (\<lambda>(p, n) (q, k). apart p n q k) outs"
    and vals: "map length vals = map snd outs"
  shows "\<exists>m'. foldM (\<lambda>m (p, bs). copy_out m p bs) m (zip (map fst outs) vals) = Some m' \<and>
    map (\<lambda>(p, n). copy_in m' p n) outs = map Some vals \<and>
    (\<forall>q n. list_all (\<lambda>(p, k). apart p k q n) outs \<longrightarrow> copy_in m' q n = copy_in m q n)"
proof -
  let ?row = "zip (map fst outs) vals"
  have len: "length vals = length outs" using vals by (metis length_map)
  have nth: "?row ! i = (fst (outs ! i), vals ! i)" "length (vals ! i) = snd (outs ! i)" if "i < length outs" for i
    using that len vals by (simp_all, metis length_map nth_map)
  have "\<forall>(p, bs) \<in> set ?row. valid_for m p (length bs)"
    using assms(1) len nth by (auto simp: list_all_length set_conv_nth split: prod.splits)
  moreover have "sorted_wrt (\<lambda>(p, bs) (q, cs). apart p (length bs) q (length cs)) ?row"
    using assms(2) len nth by (auto simp: sorted_wrt_iff_nth_less split: prod.splits)
  ultimately obtain m' where m': "foldM (\<lambda>m (p, bs). copy_out m p bs) m ?row = Some m'"
    "\<forall>(p, bs) \<in> set ?row. copy_in m' p (length bs) = Some bs"
    "\<forall>q n. (\<forall>(p, bs) \<in> set ?row. apart p (length bs) q n) \<longrightarrow> copy_in m' q n = copy_in m q n"
    using ffi_memory.store_row by blast
  have "map (\<lambda>(p, n). copy_in m' p n) outs = map Some vals"
  proof (rule nth_equalityI)
    fix i assume "i < length (map (\<lambda>(p, n). copy_in m' p n) outs)"
    then have i: "i < length outs" by simp
    then have "?row ! i \<in> set ?row" using len by (intro nth_mem) simp
    with m'(2) nth [OF i] have "copy_in m' (fst (outs ! i)) (snd (outs ! i)) = Some (vals ! i)" by auto
    with i len show "map (\<lambda>(p, n). copy_in m' p n) outs ! i = map Some vals ! i" by (simp add: split_beta)
  qed (simp add: len)
  moreover have "\<forall>(p, bs) \<in> set ?row. apart p (length bs) q n" if "list_all (\<lambda>(p, k). apart p k q n) outs" for q n
    using that len nth by (auto simp: list_all_length set_conv_nth split_beta)
  ultimately show ?thesis using m' by blast
qed

text \<open>
  C27. The C function for authentication vectors. With a null pointer among its arguments it
  returns -1 and leaves the memory alone. With valid buffers and result buffers that do not
  overlap each other it returns 0, the result buffers hold the vector of the Milenage standard
  for the bytes of the input buffers, and no byte outside the result buffers changes; the input
  buffers may overlap the results, since they are copied first.
\<close>

theorem generate_vector_c_interface:
  assumes cr: "aes_len cr"
    and ins: "ins = [(ki_ptr, 16), (opc_ptr, 16), (rand_ptr, 16), (sqn_ptr, 6), (amf_ptr, 2)]"
    and outs: "outs = [(mac_a_out, 8), (mac_s_out, 8), (res_out, 8), (ck_out, 16), (ik_out, 16), (ak_out, 6), (ak_star_out, 6)]"
  shows "(list_ex (is_null \<circ> fst) (ins @ outs) \<longrightarrow>
      midn_milenage_generate_vector cr m ki_ptr opc_ptr rand_ptr sqn_ptr amf_ptr
        mac_a_out mac_s_out res_out ck_out ik_out ak_out ak_star_out = Some (- 1, m)) \<and>
    (buffers_ok m ins outs \<longrightarrow>
      (\<exists>m' ki opc rand sqn amf v. midn_milenage_generate_vector cr m ki_ptr opc_ptr rand_ptr sqn_ptr amf_ptr
        mac_a_out mac_s_out res_out ck_out ik_out ak_out ak_star_out = Some (0, m') \<and>
        map (\<lambda>(p, n). copy_in m p n) ins = map Some [ki, opc, rand, sqn, amf] \<and>
        v = milenage_spec cr ki opc rand sqn amf \<and>
        map (\<lambda>(p, n). copy_in m' p n) outs =
          map Some [mac_a v, mac_s v, av_res v, av_ck v, av_ik v, av_ak v, av_ak_star v] \<and>
        (\<forall>q n. list_all (\<lambda>(p, k). apart p k q n) outs \<longrightarrow> copy_in m' q n = copy_in m q n)))"
proof (intro conjI impI)
  assume "list_ex (is_null \<circ> fst) (ins @ outs)"
  then show "midn_milenage_generate_vector cr m ki_ptr opc_ptr rand_ptr sqn_ptr amf_ptr
        mac_a_out mac_s_out res_out ck_out ik_out ak_out ak_star_out = Some (- 1, m)"
    by (auto simp: ins outs midn_milenage_generate_vector_def)
next
  assume ok: "buffers_ok m ins outs"
  then have v: "valid_for m ki_ptr 16" "valid_for m opc_ptr 16" "valid_for m rand_ptr 16" "valid_for m sqn_ptr 6"
    "valid_for m amf_ptr 2" and nn: "list_all (\<lambda>(p, n). \<not> is_null p) (ins @ outs)"
    and vo: "list_all (\<lambda>(p, n). valid_for m p n) outs"
    and ap: "sorted_wrt (\<lambda>(p, n) (q, k). apart p n q k) outs"
    by (auto simp: buffers_ok_def ins outs)
  obtain ki opc rand sqn amf where b: "copy_in m ki_ptr 16 = Some ki" "copy_in m opc_ptr 16 = Some opc"
    "copy_in m rand_ptr 16 = Some rand" "copy_in m sqn_ptr 6 = Some sqn" "copy_in m amf_ptr 2 = Some amf"
    and len: "length opc = 16" "length rand = 16" "length sqn = 6" "length amf = 2"
    using v [THEN valid_copy_in] by blast
  define w where "w = milenage_spec cr ki opc rand sqn amf"
  have gen: "generate_vector_with_rand cr (MilenageContext_new ki opc) (Sqn_from_bytes sqn) amf rand = w"
    using milenage_compute_spec [OF cr, of rand "MilenageContext_new ki opc" sqn amf] len
    by (simp add: generate_vector_with_rand_def Sqn_to_from_bytes MilenageContext_new_def w_def)
  let ?vals = "[mac_a w, mac_s w, av_res w, av_ck w, av_ik w, av_ak w, av_ak_star w]"
  have "map length ?vals = map snd outs" using length_milenage_spec [OF cr len(1)] by (simp add: outs w_def)
  from copies_ok [OF vo ap this] obtain m' where
    m': "foldM (\<lambda>m (p, bs). copy_out m p bs) m (zip (map fst outs) ?vals) = Some m'"
      "map (\<lambda>(p, n). copy_in m' p n) outs = map Some ?vals"
      "\<forall>q n. list_all (\<lambda>(p, k). apart p k q n) outs \<longrightarrow> copy_in m' q n = copy_in m q n" by blast
  have "midn_milenage_generate_vector cr m ki_ptr opc_ptr rand_ptr sqn_ptr amf_ptr
        mac_a_out mac_s_out res_out ck_out ik_out ak_out ak_star_out = Some (0, m')"
    using nn m'(1) by (simp add: midn_milenage_generate_vector_def b gen ins outs Let_def)
  moreover have "map (\<lambda>(p, n). copy_in m p n) ins = map Some [ki, opc, rand, sqn, amf]" by (simp add: ins b)
  ultimately show "\<exists>m' ki opc rand sqn amf v. midn_milenage_generate_vector cr m ki_ptr opc_ptr rand_ptr sqn_ptr amf_ptr
        mac_a_out mac_s_out res_out ck_out ik_out ak_out ak_star_out = Some (0, m') \<and>
        map (\<lambda>(p, n). copy_in m p n) ins = map Some [ki, opc, rand, sqn, amf] \<and>
        v = milenage_spec cr ki opc rand sqn amf \<and>
        map (\<lambda>(p, n). copy_in m' p n) outs =
          map Some [mac_a v, mac_s v, av_res v, av_ck v, av_ik v, av_ak v, av_ak_star v] \<and>
        (\<forall>q n. list_all (\<lambda>(p, k). apart p k q n) outs \<longrightarrow> copy_in m' q n = copy_in m q n)"
    using m'(2,3) w_def by blast
qed

definition sample_memory :: memory where
  "sample_memory a = (if 0 < a \<and> a < 200 then Some (of_nat a) else None)"

theorem generate_vector_c_interface_witness:
  "midn_milenage_generate_vector sample_crypto sample_memory 0 17 33 49 55 100 108 116 124 140 156 162 =
     Some (- 1, sample_memory) \<and>
   (\<exists>m'. midn_milenage_generate_vector sample_crypto sample_memory 1 17 33 49 55 100 108 116 124 140 156 162 =
      Some (0, m') \<and> copy_in m' 1 56 = copy_in sample_memory 1 56)"
proof -
  let ?ins = "\<lambda>k. [(k, 16), (17, 16), (33, 16), (49, 6), (55, 2)] :: (nat \<times> nat) list"
  let ?outs = "[(100, 8), (108, 8), (116, 8), (124, 16), (140, 16), (156, 6), (162, 6)] :: (nat \<times> nat) list"
  have "valid_for sample_memory p n" if "0 < p" "p + n \<le> 200" for p n
    using that by (simp add: valid_for_nth sample_memory_def)
  then have ok: "buffers_ok sample_memory (?ins 1) ?outs" by (simp add: buffers_ok_def is_null_def apart_def)
  have null: "list_ex (is_null \<circ> fst) (?ins 0 @ ?outs)" by (simp add: is_null_def)
  have far: "list_all (\<lambda>(p, k). apart p k 1 56) ?outs" by (simp add: apart_def)
  show ?thesis
    using generate_vector_c_interface [OF sample_crypto_ok(4) refl refl, of 0 17 33 49 55 100 108 116 124 140 156 162
        sample_memory, THEN conjunct1, rule_format, OF null]
      generate_vector_c_interface [OF sample_crypto_ok(4) refl refl, of 1 17 33 49 55 100 108 116 124 140 156 162
        sample_memory, THEN conjunct2, rule_format, OF ok] far by blast
qed

text \<open>The other two functions.\<close>

lemma compute_opc_c_interface:
  assumes cr: "aes_len cr" and ok: "buffers_ok m [(ki_ptr, 16), (op_ptr, 16)] [(opc_out, 16)]"
  obtains ki opv m' where "copy_in m ki_ptr 16 = Some ki" "copy_in m op_ptr 16 = Some opv"
    "midn_milenage_compute_opc cr m ki_ptr op_ptr opc_out = Some (0, m')"
    "copy_in m' opc_out 16 = Some (xor_bytes (aes128 cr ki opv) opv)"
proof -
  have v: "valid_for m ki_ptr 16" "valid_for m op_ptr 16" "valid_for m opc_out 16"
    "\<not> is_null ki_ptr" "\<not> is_null op_ptr" "\<not> is_null opc_out" using ok by (simp_all add: buffers_ok_def)
  obtain ki opv where b: "copy_in m ki_ptr 16 = Some ki" "copy_in m op_ptr 16 = Some opv" "length opv = 16"
    using v(1,2) [THEN valid_copy_in] by blast
  let ?opc = "xor_bytes (aes128 cr ki opv) opv"
  have len: "length ?opc = 16" using cr b(3) by (simp add: aes128_def aes_len_def)
  then obtain m' where m': "copy_out m opc_out ?opc = Some m'" using v(3) by (simp add: copy_out_def)
  show ?thesis
    by (rule that [of ki opv m'])
       (use b v m' ffi_memory.load_same [OF m'] len in \<open>simp_all add: midn_milenage_compute_opc_def MilenageContext_with_op_def\<close>)
qed

lemma verify_res_c_interface:
  "\<not> is_null p \<Longrightarrow> \<not> is_null q \<Longrightarrow> copy_in m p 8 = Some x \<Longrightarrow> copy_in m q 8 = Some y \<Longrightarrow>
   midn_milenage_verify_res m p q = Some (of_bool (x = y), m)"
  by (simp add: midn_milenage_verify_res_def verify_res_def)

end
