(* ===== verification/Upf_Run.thy ===== *)
theory Upf_Run
  imports Ue_Sim
begin

text \<open>
  The user plane at run time: \<open>GtpForwarder::run\<close> of \<open>crates/midn-userplane/src/upf/forwarder.rs\<close> with its
  receive task and its send task, and the echo task of \<open>run_amf\<close> and \<open>run_mme\<close> between them. The
  tasks share the routing table, which the control plane changes at any time, and are connected by
  two bounded channels. A step takes one task from one point where it may wait to the next: the
  receive task looks a datagram up and then sends the packet into its channel, the echo task takes a
  packet and then sends its echo, the send task takes a packet and then looks it up and hands it to
  the socket, which may fail; in between, a task holds its packet. The sequence of steps is arbitrary. A
  step that would wait, on an empty or a full channel, is not possible: \<open>None\<close>. An error of the
  socket ends the receive task, and with it \<open>run\<close>; the other two tasks go on with what is in the
  channels. The branches for a closed channel are not reached while both ends live in these tasks.
\<close>

section \<open>The tasks\<close>

definition UL_CHANNEL :: nat where "UL_CHANNEL = 64"
definition DL_CHANNEL :: nat where "DL_CHANNEL = 1024"

text \<open>
  The state of the tasks: the two channels and the packet each task holds, what was handed to the
  socket, and a history: the packets the receive task accepted, and those the send task was done with,
  together with the routing table it saw and whether the socket took the datagram.
\<close>

record UpfState =
  u_routing :: RoutingTable
  u_ul_held :: "UlPacket option"
  u_ul :: "UlPacket list"
  u_echo_held :: "DlPacket option"
  u_dl :: "DlPacket list"
  u_dl_held :: "DlPacket option"
  u_sent :: "(bytes \<times> SocketAddr) list"
  u_echoed :: "(bytes \<times> SocketAddr) list"
  u_stopped :: bool
  u_accepted :: "UlPacket list"
  u_taken :: "(DlPacket \<times> RoutingTable \<times> bool) list"

definition GtpForwarder_new :: "RoutingTable \<Rightarrow> UpfState" where
  "GtpForwarder_new routing = \<lparr>u_routing = routing, u_ul_held = None, u_ul = [], u_echo_held = None, u_dl = [],
     u_dl_held = None, u_sent = [], u_echoed = [], u_stopped = False, u_accepted = [], u_taken = []\<rparr>"

text \<open>What a step may be; the argument of a send on the socket says whether it succeeds.\<close>

datatype UpfInput =
    UlDatagram bytes SocketAddr
  | UlRecvError
  | UlSend
  | EchoTake
  | EchoSend
  | DlTake
  | DlSend bool
  | RouteChange RoutingTable

text \<open>The receive task: a datagram is looked up, an echo request answered, a packet held for the channel.\<close>

definition ul_task :: "bytes \<Rightarrow> SocketAddr \<Rightarrow> UpfState \<Rightarrow> UpfState option" where
  "ul_task buf src s =
     (if u_stopped s \<or> u_ul_held s \<noteq> None then None
      else Some (case process_uplink buf (u_routing s) src of
          ForwardUl pkt \<Rightarrow> s\<lparr>u_ul_held := Some pkt, u_accepted := u_accepted s @ [pkt]\<rparr>
        | EchoRequest dst td \<Rightarrow> s\<lparr>u_echoed := u_echoed s @ [(build_echo_response td, dst)]\<rparr>
        | UnknownSession _ \<Rightarrow> s
        | ControlMessage _ \<Rightarrow> s
        | Discard \<Rightarrow> s))"

definition ul_recv_error :: "UpfState \<Rightarrow> UpfState option" where
  "ul_recv_error s = (if u_stopped s \<or> u_ul_held s \<noteq> None then None else Some (s\<lparr>u_stopped := True\<rparr>))"

definition ul_send :: "UpfState \<Rightarrow> UpfState option" where
  "ul_send s =
     (case u_ul_held s of
        None \<Rightarrow> None
      | Some pkt \<Rightarrow>
          if length (u_ul s) < UL_CHANNEL then Some (s\<lparr>u_ul_held := None, u_ul := u_ul s @ [pkt]\<rparr>) else None)"

definition echo_of :: "UlPacket \<Rightarrow> DlPacket" where
  "echo_of pkt = \<lparr>dlp_inner_ip = ulp_inner_ip pkt, dlp_ue_ip = re_ue_ip (ulp_route pkt)\<rparr>"

definition echo_take :: "UpfState \<Rightarrow> UpfState option" where
  "echo_take s =
     (case (u_echo_held s, u_ul s) of
        (None, pkt # rest) \<Rightarrow> Some (s\<lparr>u_ul := rest, u_echo_held := Some (echo_of pkt)\<rparr>)
      | _ \<Rightarrow> None)"

definition echo_send :: "UpfState \<Rightarrow> UpfState option" where
  "echo_send s =
     (case u_echo_held s of
        None \<Rightarrow> None
      | Some pkt \<Rightarrow>
          if length (u_dl s) < DL_CHANNEL then Some (s\<lparr>u_echo_held := None, u_dl := u_dl s @ [pkt]\<rparr>) else None)"

definition dl_take :: "UpfState \<Rightarrow> UpfState option" where
  "dl_take s =
     (case (u_dl_held s, u_dl s) of
        (None, pkt # rest) \<Rightarrow> Some (s\<lparr>u_dl := rest, u_dl_held := Some pkt\<rparr>)
      | _ \<Rightarrow> None)"

text \<open>A send that fails is only logged, and so is a packet without a route.\<close>

definition dl_send :: "bool \<Rightarrow> UpfState \<Rightarrow> UpfState option" where
  "dl_send success s =
     (case u_dl_held s of
        None \<Rightarrow> None
      | Some pkt \<Rightarrow>
          Some (s\<lparr>u_dl_held := None, u_taken := u_taken s @ [(pkt, u_routing s, success)],
            u_sent := u_sent s @ (case encapsulate_downlink pkt (u_routing s) of
                                    Some dgram \<Rightarrow> if success then [dgram] else [] | None \<Rightarrow> [])\<rparr>))"

definition upf_step :: "UpfInput \<Rightarrow> UpfState \<Rightarrow> UpfState option" where
  "upf_step inp s =
     (case inp of
        UlDatagram buf src \<Rightarrow> ul_task (take 65535 buf) src s
      | UlRecvError \<Rightarrow> ul_recv_error s
      | UlSend \<Rightarrow> ul_send s
      | EchoTake \<Rightarrow> echo_take s
      | EchoSend \<Rightarrow> echo_send s
      | DlTake \<Rightarrow> dl_take s
      | DlSend success \<Rightarrow> dl_send success s
      | RouteChange rt \<Rightarrow> Some (s\<lparr>u_routing := rt\<rparr>))"

fun upf_run :: "UpfInput list \<Rightarrow> UpfState \<Rightarrow> UpfState option" where
  "upf_run [] s = Some s"
| "upf_run (inp # inputs) s = Option.bind (upf_step inp s) (upf_run inputs)"

lemmas upf_steps = upf_step_def ul_task_def ul_recv_error_def ul_send_def echo_take_def echo_send_def dl_take_def dl_send_def

section \<open>Conservation of packets\<close>

definition held :: "'a option \<Rightarrow> 'a list" where
  "held x = (case x of None \<Rightarrow> [] | Some a \<Rightarrow> [a])"

lemma held_simps [simp]: "held None = []" "held (Some a) = [a]"
  by (simp_all add: held_def)

text \<open>The packets under way, those accepted first in front, and the datagrams of those that are done.\<close>

definition under_way :: "UpfState \<Rightarrow> DlPacket list" where
  "under_way s = held (u_dl_held s) @ u_dl s @ held (u_echo_held s) @ map echo_of (u_ul s @ held (u_ul_held s))"

definition datagrams_of :: "(DlPacket \<times> RoutingTable \<times> bool) list \<Rightarrow> (bytes \<times> SocketAddr) list" where
  "datagrams_of taken = concat (map (\<lambda>(pkt, rt, success).
     case encapsulate_downlink pkt rt of Some dgram \<Rightarrow> if success then [dgram] else [] | None \<Rightarrow> []) taken)"

definition upf_inv :: "UpfState \<Rightarrow> bool" where
  "upf_inv s \<longleftrightarrow> map echo_of (u_accepted s) = map fst (u_taken s) @ under_way s \<and>
     u_sent s = datagrams_of (u_taken s) \<and> length (u_ul s) \<le> UL_CHANNEL \<and> length (u_dl s) \<le> DL_CHANNEL"

lemma upf_inv_new [simp]: "upf_inv (GtpForwarder_new rt)"
  by (simp add: upf_inv_def GtpForwarder_new_def under_way_def datagrams_of_def)

lemma upf_inv_step: "upf_step inp s = Some s' \<Longrightarrow> upf_inv s \<Longrightarrow> upf_inv s'"
  by (cases inp)
     (auto simp: upf_steps upf_inv_def under_way_def datagrams_of_def
       split: if_splits option.splits list.splits ForwardAction.splits)

lemma upf_inv_run: "upf_run inputs s = Some s' \<Longrightarrow> upf_inv s \<Longrightarrow> upf_inv s'"
  by (induction inputs arbitrary: s) (auto simp: bind_eq_Some_conv intro: upf_inv_step)

section \<open>No deadlock\<close>

text \<open>
  The steps the tasks make on their own, on what is under way, and how many of them are left: the
  further a packet has come, the fewer.
\<close>

fun own_step :: "UpfInput \<Rightarrow> bool" where
  "own_step (UlDatagram _ _) = False"
| "own_step UlRecvError = False"
| "own_step (RouteChange _) = False"
| "own_step _ = True"

definition steps_left :: "UpfState \<Rightarrow> nat" where
  "steps_left s = length (held (u_dl_held s)) + 2 * length (u_dl s) + 3 * length (held (u_echo_held s)) +
     4 * length (u_ul s) + 5 * length (held (u_ul_held s))"

lemma own_step_counts:
  "upf_step inp s = Some s' \<Longrightarrow> own_step inp \<Longrightarrow>
   steps_left s = Suc (steps_left s') \<and> u_accepted s' = u_accepted s \<and> u_routing s' = u_routing s"
  by (cases inp) (auto simp: upf_steps steps_left_def split: if_splits option.splits list.splits)

lemma own_steps_count:
  "upf_run ins s = Some s' \<Longrightarrow> list_all own_step ins \<Longrightarrow>
   steps_left s = length ins + steps_left s' \<and> u_accepted s' = u_accepted s \<and> u_routing s' = u_routing s"
proof (induction ins arbitrary: s)
  case (Cons inp ins)
  then obtain s1 where s1: "upf_step inp s = Some s1" "upf_run ins s1 = Some s'" by (auto simp: bind_eq_Some_conv)
  with Cons.IH [OF s1(2)] own_step_counts [OF s1(1)] Cons.prems(2) show ?case by simp
qed simp

lemma own_step_possible:
  assumes "steps_left s \<noteq> 0"
  shows "\<exists>inp s'. own_step inp \<and> upf_step inp s = Some s'"
proof -
  consider "u_dl_held s \<noteq> None" | "u_dl_held s = None" "u_dl s \<noteq> []" | "u_dl s = []" "u_echo_held s \<noteq> None"
    | "u_echo_held s = None" "u_ul s \<noteq> []" | "u_ul s = []" "u_ul_held s \<noteq> None"
    using assms
    by (cases "u_dl_held s"; cases "u_echo_held s"; cases "u_ul_held s"; cases "u_dl s"; cases "u_ul s")
       (simp_all add: steps_left_def)
  then show ?thesis
  proof cases
    case 1
    then show ?thesis by (intro exI [of _ "DlSend True"]) (auto simp: upf_steps)
  next
    case 2
    then show ?thesis by (intro exI [of _ DlTake]) (auto simp: upf_steps neq_Nil_conv)
  next
    case 3
    then show ?thesis by (intro exI [of _ EchoSend]) (auto simp: upf_steps DL_CHANNEL_def)
  next
    case 4
    then show ?thesis by (intro exI [of _ EchoTake]) (auto simp: upf_steps neq_Nil_conv)
  next
    case 5
    then show ?thesis by (intro exI [of _ UlSend]) (auto simp: upf_steps UL_CHANNEL_def)
  qed
qed

lemma upf_run_append: "upf_run (xs @ ys) s = Option.bind (upf_run xs s) (upf_run ys)"
  by (induction xs arbitrary: s) (auto split: bind_split)

lemma upf_drains:
  "\<exists>rest s'. list_all own_step rest \<and> upf_run rest s = Some s' \<and> steps_left s' = 0"
proof (induction "steps_left s" arbitrary: s)
  case 0
  then show ?case by (intro exI [of _ "[]"]) simp
next
  case (Suc n)
  then obtain inp s1 where i: "own_step inp" "upf_step inp s = Some s1" using own_step_possible [of s] by auto
  with own_step_counts [OF i(2,1)] Suc(2) have "n = steps_left s1" by simp
  from Suc(1) [OF this] obtain rest s' where "list_all own_step rest" "upf_run rest s1 = Some s'" "steps_left s' = 0"
    by blast
  with i show ?case by (intro exI [of _ "inp # rest"] exI [of _ s']) simp
qed

lemma nothing_left: "steps_left s = 0 \<Longrightarrow> under_way s = []"
  by (cases "u_dl_held s"; cases "u_echo_held s"; cases "u_ul_held s") (simp_all add: steps_left_def under_way_def)

text \<open>The echo of one datagram, as the simulations use it, is a run of the three tasks.\<close>

abbreviation echo_schedule :: "bytes \<Rightarrow> SocketAddr \<Rightarrow> UpfInput list" where
  "echo_schedule dgram src \<equiv> [UlDatagram dgram src, UlSend, EchoTake, EchoSend, DlTake, DlSend True]"

lemma upf_echo_run:
  assumes "length dgram \<le> 65535" "upf_echo rt dgram src = Some out"
  shows "\<exists>s. upf_run (echo_schedule dgram src) (GtpForwarder_new rt) = Some s \<and> u_sent s = [out] \<and> under_way s = []"
  using assms
  by (auto simp: upf_echo_def GtpForwarder_new_def upf_steps UL_CHANNEL_def DL_CHANNEL_def echo_of_def under_way_def
      split: ForwardAction.splits)

text \<open>
  C15. The user plane loses no packet between its tasks and reorders none, however the tasks
  interleave, wherever they wait, and whenever the control plane changes the routes. The packets
  accepted uplink are, in order, those the send task is done with and those under way: held by a task
  or waiting in one of the two channels, which stay within their bounds. What went out is what the
  encapsulation made of the former with the routing table of that moment, so a packet is dropped
  only where there was no route or the socket refused the datagram. And the tasks never block
  each other: whatever they have done on their own, from any state, they can go on until every
  accepted packet is done, after as many steps as are counted in that state, however they are
  scheduled, and also after the receive task has stopped.
\<close>

theorem forwarder_conserves_packets:
  assumes "upf_run inputs (GtpForwarder_new rt) = Some s"
  shows "map echo_of (u_accepted s) = map fst (u_taken s) @ under_way s \<and>
    u_sent s = datagrams_of (u_taken s) \<and> length (u_ul s) \<le> UL_CHANNEL \<and> length (u_dl s) \<le> DL_CHANNEL \<and>
    (\<forall>more s1. list_all own_step more \<longrightarrow> upf_run more s = Some s1 \<longrightarrow>
      (\<exists>rest s2. list_all own_step rest \<and> upf_run (inputs @ more @ rest) (GtpForwarder_new rt) = Some s2 \<and>
         length more + length rest = steps_left s \<and> map fst (u_taken s2) = map echo_of (u_accepted s) \<and>
         u_routing s2 = u_routing s))"
proof -
  have i: "upf_inv s" by (rule upf_inv_run [OF assms]) simp
  have "\<exists>rest s2. list_all own_step rest \<and> upf_run (inputs @ more @ rest) (GtpForwarder_new rt) = Some s2 \<and>
      length more + length rest = steps_left s \<and> map fst (u_taken s2) = map echo_of (u_accepted s) \<and>
      u_routing s2 = u_routing s" if m: "list_all own_step more" "upf_run more s = Some s1" for more s1
  proof -
    obtain rest s2 where r: "list_all own_step rest" "upf_run rest s1 = Some s2" "steps_left s2 = 0"
      using upf_drains [of s1] by blast
    then have t: "upf_run (more @ rest) s = Some s2" "upf_run (inputs @ more @ rest) (GtpForwarder_new rt) = Some s2"
      using m(2) assms by (simp_all add: upf_run_append)
    have c: "steps_left s = length (more @ rest)" "u_accepted s2 = u_accepted s" "u_routing s2 = u_routing s"
      using own_steps_count [OF t(1)] m(1) r(1,3) by simp_all
    have "map fst (u_taken s2) = map echo_of (u_accepted s)"
      using upf_inv_run [OF t(1) i] nothing_left [OF r(3)] c(2) by (simp add: upf_inv_def)
    with r(1) t(2) c show ?thesis by auto
  qed
  with i show ?thesis unfolding upf_inv_def by blast
qed

theorem forwarder_conserves_packets_witness:
  "\<exists>s. upf_run (echo_schedule (sim_gpdu 7) ([10, 0, 0, 2], GTP_PORT))
      (GtpForwarder_new (rt_install RoutingTable_new 7 (RouteEntry_new [10, 1, 0, 1] 9 [10, 0, 0, 2] 9))) = Some s \<and>
    length (u_sent s) = 1 \<and> map echo_of (u_accepted s) = map fst (u_taken s)"
proof -
  let ?e = "RouteEntry_new [10, 1, 0, 1] 9 [10, 0, 0, 2] 9"
  have "upf_echo (rt_install RoutingTable_new 7 ?e) (sim_gpdu 7) ([10, 0, 0, 2], GTP_PORT) =
      Some (to_bytes (new_gpdu (re_dl_teid ?e) (of_nat (length SIM_PAYLOAD))) @ SIM_PAYLOAD, (re_enb_addr ?e, re_enb_port ?e))"
    by (rule upf_echo_route) (simp_all add: rt_install_def lookup_ul_def lookup_dl_def)
  from upf_echo_run [OF _ this] obtain s where
    s: "upf_run (echo_schedule (sim_gpdu 7) ([10, 0, 0, 2], GTP_PORT))
      (GtpForwarder_new (rt_install RoutingTable_new 7 ?e)) = Some s" "length (u_sent s) = 1" "under_way s = []"
    by (auto simp: sim_gpdu_def to_bytes_def Let_def)
  have "map echo_of (u_accepted s) = map fst (u_taken s)"
    using conjunct1 [OF forwarder_conserves_packets [OF s(1)]] s(3) by simp
  with s show ?thesis by blast
qed

end
