(* ===== verification/Slot_Family.thy ===== *)
theory Slot_Family
  imports Main
begin

text \<open>
  A map shared by a family of components, each of which owns at most one entry: the entities of the
  subscribers in the store of the AMF, their registrations, and the routes of their tunnels. A
  component that moves exchanges its own slot and leaves those of the others alone.
\<close>

definition slot_upd :: "('a \<times> 'b) option \<Rightarrow> ('a \<times> 'b) option \<Rightarrow> ('a \<rightharpoonup> 'b) \<Rightarrow> ('a \<rightharpoonup> 'b)" where
  "slot_upd old new M =
     (let M = (case old of Some (i, _) \<Rightarrow> M(i := None) | None \<Rightarrow> M)
      in case new of Some (i, e) \<Rightarrow> M(i \<mapsto> e) | None \<Rightarrow> M)"

definition slot_in :: "('a \<times> 'b) option \<Rightarrow> ('a \<rightharpoonup> 'b) \<Rightarrow> bool" where
  "slot_in x M \<longleftrightarrow> (\<forall>i e. x = Some (i, e) \<longrightarrow> M i = Some e)"

definition slot_new :: "('a \<times> 'b) option \<Rightarrow> ('a \<times> 'b) option \<Rightarrow> ('a \<rightharpoonup> 'b) \<Rightarrow> bool" where
  "slot_new old new M \<longleftrightarrow> (\<forall>i e. new = Some (i, e) \<longrightarrow> map_option fst old = Some i \<or> M i = None)"

definition family :: "nat \<Rightarrow> (nat \<Rightarrow> ('a \<times> 'b) option) \<Rightarrow> ('a \<rightharpoonup> 'b) \<Rightarrow> bool" where
  "family n f M \<longleftrightarrow>
     (\<forall>k < n. slot_in (f k) M) \<and>
     (\<forall>i e. M i = Some e \<longrightarrow> (\<exists>k < n. f k = Some (i, e))) \<and>
     (\<forall>k < n. \<forall>l < n. \<forall>i. k \<noteq> l \<longrightarrow> map_option fst (f k) = Some i \<longrightarrow> map_option fst (f l) \<noteq> Some i)"

lemma slot_simps [simp]:
  "slot_upd None None M = M" "slot_upd None (Some (i, e)) M = M(i \<mapsto> e)"
  "slot_upd (Some (i, e)) None M = M(i := None)" "slot_upd (Some (i, e)) (Some (i, e')) M = M(i \<mapsto> e')"
  "slot_in None M" "slot_in (Some (i, e)) M \<longleftrightarrow> M i = Some e"
  "slot_new old None M" "slot_new (Some (i, e)) (Some (i, e')) M" "slot_new None (Some (i, e)) M \<longleftrightarrow> M i = None"
  by (auto simp: slot_upd_def slot_in_def slot_new_def)

lemma slot_upd_same: "slot_in x M \<Longrightarrow> slot_upd x x M = M"
  by (cases x) (auto simp: fun_upd_idem)

lemma slot_new_same: "slot_new x x M"
  by (auto simp: slot_new_def)

lemma familyD:
  "family n f M \<Longrightarrow> k < n \<Longrightarrow> slot_in (f k) M"
  "family n f M \<Longrightarrow> M i = Some e \<Longrightarrow> \<exists>k < n. f k = Some (i, e)"
  "family n f M \<Longrightarrow> k < n \<Longrightarrow> l < n \<Longrightarrow> k \<noteq> l \<Longrightarrow> f k = Some (i, e) \<Longrightarrow> f l = Some (j, d) \<Longrightarrow> i \<noteq> j"
proof -
  assume "family n f M"
  note F = this [unfolded family_def]
  show "k < n \<Longrightarrow> slot_in (f k) M" and "M i = Some e \<Longrightarrow> \<exists>k < n. f k = Some (i, e)" using F by blast+
  assume "k < n" "l < n" "k \<noteq> l" "f k = Some (i, e)" "f l = Some (j, d)"
  moreover from this have "map_option fst (f k) = Some i" "map_option fst (f l) = Some j" by simp_all
  ultimately show "i \<noteq> j" using F by metis
qed

lemma slot_upd_other:
  "map_option fst old \<noteq> Some j \<Longrightarrow> map_option fst new \<noteq> Some j \<Longrightarrow> slot_upd old new M j = M j"
  by (auto simp: slot_upd_def split: option.split)

lemma slot_upd_Some:
  "slot_upd old new M j = Some d \<Longrightarrow> new = Some (j, d) \<or> map_option fst old \<noteq> Some j \<and> M j = Some d"
  by (auto simp: slot_upd_def Let_def split: option.splits if_splits)

lemma family_step:
  assumes F: "family n f M" and k: "k < n" and new: "slot_new (f k) x M"
  shows "family n (f(k := x)) (slot_upd (f k) x M)"
proof -
  have other: "map_option fst (f k) \<noteq> Some j \<and> map_option fst x \<noteq> Some j" if "l < n" "l \<noteq> k" "f l = Some (j, d)" for l j d
  proof
    show *: "map_option fst (f k) \<noteq> Some j" using familyD(3) [OF F that(1) k that(2,3)] by auto
    show "map_option fst x \<noteq> Some j"
    proof
      assume "map_option fst x = Some j"
      then have "map_option fst (f k) = Some j \<or> M j = None" using new by (auto simp: slot_new_def)
      with * familyD(1) [OF F that(1)] that(3) show False by simp
    qed
  qed
  have "slot_in (if l = k then x else f l) (slot_upd (f k) x M)" if "l < n" for l
  proof (cases "l = k")
    case True
    then show ?thesis by (auto simp: slot_in_def slot_upd_def)
  next
    case False
    show ?thesis unfolding slot_in_def
    proof (intro allI impI)
      fix j d assume "(if l = k then x else f l) = Some (j, d)"
      then have l: "f l = Some (j, d)" using False by simp
      then show "slot_upd (f k) x M j = Some d"
        using familyD(1) [OF F that] other [OF that False l] by (simp add: slot_upd_other)
    qed
  qed
  moreover have "\<exists>l < n. (if l = k then x else f l) = Some (j, d)" if "slot_upd (f k) x M j = Some d" for j d
    using slot_upd_Some [OF that]
  proof
    assume "x = Some (j, d)"
    with k show ?thesis by auto
  next
    assume a: "map_option fst (f k) \<noteq> Some j \<and> M j = Some d"
    then obtain l where "l < n" "f l = Some (j, d)" using familyD(2) [OF F] by blast
    with a show ?thesis by (intro exI [of _ l]) auto
  qed
  moreover have "map_option fst (if l' = k then x else f l') \<noteq> Some j"
    if "l < n" "l' < n" "l \<noteq> l'" "map_option fst (if l = k then x else f l) = Some j" for l l' j
  proof -
    note ls = that
    obtain d where d: "(if l = k then x else f l) = Some (j, d)" using ls(4) by auto
    show ?thesis
    proof (cases "l = k")
      case True
      then have "map_option fst (f l') \<noteq> Some j" using other [of l'] ls(2,3) d by (cases "f l'") auto
      with True ls(3) show ?thesis by auto
    next
      case False
      then have l: "f l = Some (j, d)" using d by simp
      show ?thesis using other [OF ls(1) False l] familyD(3) [OF F ls(1,2,3) l] by (cases "f l'") auto
    qed
  qed
  ultimately show ?thesis unfolding family_def by (simp add: fun_upd_def)
qed

lemma family_empty: "(\<And>k. k < n \<Longrightarrow> f k = None) \<Longrightarrow> family n f M \<longleftrightarrow> M = Map.empty"
proof -
  assume none: "\<And>k. k < n \<Longrightarrow> f k = None"
  have "M i = None" if "family n f M" for i
    using familyD(2) [OF that, of i] none by (cases "M i") auto
  then show ?thesis using none by (auto simp: family_def)
qed

end
