(* ===== verification/Sctp_Link.thy ===== *)
theory Sctp_Link
  imports Midn_Prelude
begin

text \<open>
  The SCTP link of \<open>crates/midn-transport/src/link.rs\<close>: the task that drives one association over a
  UDP socket. The SCTP library (\<open>rtc_sctp\<close>) is outside of the repository; its operations are the
  fields of the parameter \<open>sctp\<close>, over types of associations, endpoints and events that are left
  open. The driver is a state machine: a turn is one branch of its \<open>select!\<close>, labelled with what
  made it ready, and then the pump. The loops of the pump are partial functions, because nothing in
  the code bounds them; what they need of the library to end is the hypothesis \<open>sctp_ok\<close>.
\<close>

section \<open>The SCTP library\<close>

datatype StreamEvent = Readable nat | OtherStreamEvent

datatype SctpEvent =
    EvConnected
  | AssociationLost string
  | HandshakeFailed string
  | EvStream StreamEvent
  | EvDatagramReceived
  | EvOther

datatype ('a, 'i) DatagramEvent = NewAssociation 'a | AssociationEvent 'i

record ('a, 'e, 'c, 'i, 'o) sctp =
  sc_poll :: "'a \<Rightarrow> SctpEvent option \<times> 'a"
  sc_open_stream :: "'a \<Rightarrow> nat \<Rightarrow> (string + unit) \<times> 'a"
  sc_stream :: "'a \<Rightarrow> nat \<Rightarrow> string + unit"
  sc_read_sctp :: "'a \<Rightarrow> nat \<Rightarrow> (string + 'c option) \<times> 'a"
  sc_to_payload :: "'c \<Rightarrow> nat \<Rightarrow> string + bytes"
  sc_write :: "'a \<Rightarrow> nat \<Rightarrow> bytes \<Rightarrow> (string + nat) \<times> 'a"
  sc_handle_event :: "'a \<Rightarrow> 'i \<Rightarrow> 'a"
  sc_handle_timeout :: "'a \<Rightarrow> nat \<Rightarrow> 'a"
  sc_poll_timeout :: "'a \<Rightarrow> nat option"
  sc_poll_endpoint_event :: "'a \<Rightarrow> 'o option \<times> 'a"
  sc_poll_transmit :: "'a \<Rightarrow> nat \<Rightarrow> (SocketAddr \<times> bytes list option) option \<times> 'a"
  sc_is_drained :: "'a \<Rightarrow> bool"
  ep_connect :: "'e \<Rightarrow> SocketAddr \<Rightarrow> string + ((nat \<times> 'a) \<times> 'e)"
  ep_handle :: "'e \<Rightarrow> nat \<Rightarrow> SocketAddr \<Rightarrow> bytes \<Rightarrow> (nat \<times> ('a, 'i) DatagramEvent) option \<times> 'e"
  ep_handle_event :: "'e \<Rightarrow> nat \<Rightarrow> 'o \<Rightarrow> 'e"

section \<open>The link\<close>

definition DEFAULT_STREAM_ID :: nat where "DEFAULT_STREAM_ID = 0"
definition RECV_BUF_LEN :: nat where "RECV_BUF_LEN = 65536"
definition MAX_MESSAGE_LEN :: nat where "MAX_MESSAGE_LEN = RECV_BUF_LEN"

datatype TransportError = TIo string | TConnect string | TSctp string | NotReady | Closed

datatype LinkEvent = Connected | Message bytes | Lost string

text \<open>
  The variables of the driver task, with what it sent to the application and to the socket
  since it was spawned.
\<close>

record ('a, 'e) Driver =
  d_association :: 'a
  d_endpoint :: 'e
  d_handle :: nat
  d_stream_ready :: bool
  d_inbound :: "LinkEvent list"
  d_sent :: "(SocketAddr \<times> bytes) list"

definition emit :: "LinkEvent \<Rightarrow> ('a, 'e) Driver \<Rightarrow> ('a, 'e) Driver" where
  "emit ev d = d\<lparr>d_inbound := d_inbound d @ [ev]\<rparr>"

partial_function (option) read_messages ::
    "('a, 'e, 'c, 'i, 'o) sctp \<Rightarrow> nat \<Rightarrow> ('a, 'e) Driver \<Rightarrow> ('a, 'e) Driver option" where
  "read_messages sc sid d =
     (case sc_read_sctp sc (d_association d) sid of
        (Inr (Some chunks), a) \<Rightarrow>
          read_messages sc sid
            (case sc_to_payload sc chunks MAX_MESSAGE_LEN of
               Inr buf \<Rightarrow> emit (Message buf) (d\<lparr>d_association := a\<rparr>)
             | Inl _ \<Rightarrow> d\<lparr>d_association := a\<rparr>)
      | (_, a) \<Rightarrow> Some (d\<lparr>d_association := a\<rparr>))"

definition pump_event ::
    "('a, 'e, 'c, 'i, 'o) sctp \<Rightarrow> SctpEvent \<Rightarrow> ('a, 'e) Driver \<Rightarrow> ('a, 'e) Driver option" where
  "pump_event sc event d =
     (case event of
        EvConnected \<Rightarrow>
          (case sc_open_stream sc (d_association d) DEFAULT_STREAM_ID of
             (Inr _, a) \<Rightarrow> Some (emit Connected (d\<lparr>d_association := a, d_stream_ready := True\<rparr>))
           | (Inl _, a) \<Rightarrow> Some (emit Connected (d\<lparr>d_association := a\<rparr>)))
      | AssociationLost reason \<Rightarrow> Some (emit (Lost reason) d)
      | HandshakeFailed reason \<Rightarrow> Some (emit (Lost (''handshake failed: '' @ reason)) d)
      | EvStream (Readable sid) \<Rightarrow>
          (case sc_stream sc (d_association d) sid of
             Inr _ \<Rightarrow> read_messages sc sid d
           | Inl _ \<Rightarrow> Some d)
      | EvStream OtherStreamEvent \<Rightarrow> Some d
      | EvDatagramReceived \<Rightarrow> Some d
      | EvOther \<Rightarrow> Some d)"

partial_function (option) pump_events ::
    "('a, 'e, 'c, 'i, 'o) sctp \<Rightarrow> ('a, 'e) Driver \<Rightarrow> ('a, 'e) Driver option" where
  "pump_events sc d =
     (case sc_poll sc (d_association d) of
        (None, a) \<Rightarrow> Some (d\<lparr>d_association := a\<rparr>)
      | (Some event, a) \<Rightarrow> Option.bind (pump_event sc event (d\<lparr>d_association := a\<rparr>)) (pump_events sc))"

partial_function (option) pump_endpoint_events ::
    "('a, 'e, 'c, 'i, 'o) sctp \<Rightarrow> ('a, 'e) Driver \<Rightarrow> ('a, 'e) Driver option" where
  "pump_endpoint_events sc d =
     (case sc_poll_endpoint_event sc (d_association d) of
        (None, a) \<Rightarrow> Some (d\<lparr>d_association := a\<rparr>)
      | (Some ep_event, a) \<Rightarrow>
          pump_endpoint_events sc
            (d\<lparr>d_association := a, d_endpoint := ep_handle_event sc (d_endpoint d) (d_handle d) ep_event\<rparr>))"

partial_function (option) pump_transmits ::
    "('a, 'e, 'c, 'i, 'o) sctp \<Rightarrow> nat \<Rightarrow> ('a, 'e) Driver \<Rightarrow> ('a, 'e) Driver option" where
  "pump_transmits sc now d =
     (case sc_poll_transmit sc (d_association d) now of
        (None, a) \<Rightarrow> Some (d\<lparr>d_association := a\<rparr>)
      | (Some (peer_addr, message), a) \<Rightarrow>
          pump_transmits sc now
            (d\<lparr>d_association := a,
               d_sent := d_sent d @ (case message of Some bufs \<Rightarrow> map (Pair peer_addr) bufs | None \<Rightarrow> [])\<rparr>))"

definition pump :: "('a, 'e, 'c, 'i, 'o) sctp \<Rightarrow> nat \<Rightarrow> ('a, 'e) Driver \<Rightarrow> ('a, 'e) Driver option" where
  "pump sc now d =
     Option.bind (pump_events sc d) (\<lambda>d. Option.bind (pump_endpoint_events sc d) (pump_transmits sc now))"

section \<open>The driver\<close>

text \<open>The three branches of the driver that go on to the pump.\<close>

definition on_datagram ::
    "('a, 'e, 'c, 'i, 'o) sctp \<Rightarrow> nat \<Rightarrow> SocketAddr \<Rightarrow> bytes \<Rightarrow> ('a, 'e) Driver \<Rightarrow> ('a, 'e) Driver" where
  "on_datagram sc now from_addr data d =
     (case ep_handle sc (d_endpoint d) now from_addr data of
        (Some (_, AssociationEvent ev), e) \<Rightarrow>
          d\<lparr>d_endpoint := e, d_association := sc_handle_event sc (d_association d) ev\<rparr>
      | (_, e) \<Rightarrow> d\<lparr>d_endpoint := e\<rparr>)"

definition on_timeout :: "('a, 'e, 'c, 'i, 'o) sctp \<Rightarrow> nat \<Rightarrow> ('a, 'e) Driver \<Rightarrow> ('a, 'e) Driver" where
  "on_timeout sc now d = d\<lparr>d_association := sc_handle_timeout sc (d_association d) now\<rparr>"

definition on_outbound ::
    "('a, 'e, 'c, 'i, 'o) sctp \<Rightarrow> bytes \<Rightarrow> ('a, 'e) Driver \<Rightarrow> (TransportError + unit) \<times> ('a, 'e) Driver" where
  "on_outbound sc data d =
     (if \<not> d_stream_ready d then (Inl NotReady, d)
      else case sc_stream sc (d_association d) DEFAULT_STREAM_ID of
        Inl e \<Rightarrow> (Inl (TSctp e), d)
      | Inr _ \<Rightarrow>
          (case sc_write sc (d_association d) DEFAULT_STREAM_ID data of
             (Inl e, a) \<Rightarrow> (Inl (TSctp e), d\<lparr>d_association := a\<rparr>)
           | (Inr _, a) \<Rightarrow> (Inr (), d\<lparr>d_association := a\<rparr>)))"

definition spawn_driver :: "'e \<Rightarrow> 'a \<Rightarrow> nat \<Rightarrow> ('a, 'e) Driver" where
  "spawn_driver e a h =
     \<lparr>d_association = a, d_endpoint = e, d_handle = h, d_stream_ready = False, d_inbound = [], d_sent = []\<rparr>"

definition link_connect ::
    "('a, 'e, 'c, 'i, 'o) sctp \<Rightarrow> 'e \<Rightarrow> SocketAddr \<Rightarrow> TransportError + ('a, 'e) Driver" where
  "link_connect sc e remote_addr =
     (case ep_connect sc e remote_addr of
        Inl err \<Rightarrow> Inl (TConnect err)
      | Inr ((h, a), e) \<Rightarrow> Inr (spawn_driver e a h))"

text \<open>
  \<open>accept\<close> over what the socket receives, a datagram or an error: \<open>None\<close> is that it still waits after
  that.
\<close>

fun link_accept ::
    "('a, 'e, 'c, 'i, 'o) sctp \<Rightarrow> 'e \<Rightarrow> (string + nat \<times> SocketAddr \<times> bytes) list \<Rightarrow>
     (TransportError + ('a, 'e) Driver) option" where
  "link_accept sc e [] = None"
| "link_accept sc e (Inl err # rest) = Some (Inl (TIo err))"
| "link_accept sc e (Inr (now, from_addr, data) # rest) =
     (case ep_handle sc e now from_addr data of
        (Some (h, NewAssociation a), e) \<Rightarrow> Some (Inr (spawn_driver e a h))
      | (_, e) \<Rightarrow> link_accept sc e rest)"

datatype Stimulus =
    Datagram SocketAddr bytes
  | RecvError string
  | Timer
  | Outbound bytes "TransportError + unit"
  | Dropped
  | Drained

datatype ('a, 'e) LinkState = Driving "('a, 'e) Driver" | Gone "('a, 'e) Driver"

primrec driver_of :: "('a, 'e) LinkState \<Rightarrow> ('a, 'e) Driver" where
  "driver_of (Driving d) = d"
| "driver_of (Gone d) = d"

inductive drive_step ::
    "('a, 'e, 'c, 'i, 'o) sctp \<Rightarrow> ('a, 'e) LinkState \<Rightarrow> Stimulus \<Rightarrow> ('a, 'e) LinkState \<Rightarrow> bool"
  for sc where
  drained: "sc_is_drained sc (d_association d) \<Longrightarrow> drive_step sc (Driving d) Drained (Gone d)"
| recv_error: "\<not> sc_is_drained sc (d_association d) \<Longrightarrow>
    drive_step sc (Driving d) (RecvError e) (Gone (emit (Lost (''socket recv error: '' @ e)) d))"
| datagram: "\<not> sc_is_drained sc (d_association d) \<Longrightarrow> length data \<le> RECV_BUF_LEN \<Longrightarrow>
    pump sc now' (on_datagram sc now from_addr data d) = Some d' \<Longrightarrow>
    drive_step sc (Driving d) (Datagram from_addr data) (Driving d')"
| timer: "\<not> sc_is_drained sc (d_association d) \<Longrightarrow>
    sc_poll_timeout sc (d_association d) = Some deadline \<Longrightarrow> deadline \<le> now \<Longrightarrow>
    pump sc now' (on_timeout sc now d) = Some d' \<Longrightarrow> drive_step sc (Driving d) Timer (Driving d')"
| outbound: "\<not> sc_is_drained sc (d_association d) \<Longrightarrow> on_outbound sc data d = (r, d1) \<Longrightarrow>
    pump sc now d1 = Some d' \<Longrightarrow> drive_step sc (Driving d) (Outbound data r) (Driving d')"
| dropped: "\<not> sc_is_drained sc (d_association d) \<Longrightarrow> drive_step sc (Driving d) Dropped (Gone d)"
| closed: "drive_step sc (Gone d) (Outbound data (Inl Closed)) (Gone d)"

text \<open>A run from the start of the driver task, which pumps once before its loop.\<close>

inductive drive ::
    "('a, 'e, 'c, 'i, 'o) sctp \<Rightarrow> ('a, 'e) Driver \<Rightarrow> Stimulus list \<Rightarrow> ('a, 'e) LinkState \<Rightarrow> bool"
  for sc d0 where
  start: "pump sc now d0 = Some d \<Longrightarrow> drive sc d0 [] (Driving d)"
| turn: "drive sc d0 tr s \<Longrightarrow> drive_step sc s l s' \<Longrightarrow> drive sc d0 (tr @ [l]) s'"

inductive_cases drive_step_from_gone: "drive_step sc (Gone d) l s'"
inductive_cases drive_step_from_driving: "drive_step sc (Driving d) l s'"

section \<open>Invariants of the driver\<close>

text \<open>
  The interface of an invariant: a predicate on drivers that every use the driver makes of the
  library keeps. It then holds in every state of every run.
\<close>

locale driver_invariant =
  fixes sc :: "('a, 'e, 'c, 'i, 'o) sctp" and inv :: "('a, 'e) Driver \<Rightarrow> bool"
  assumes keep_emit: "inv d \<Longrightarrow> inv (emit ev d)"
    and keep_poll: "inv d \<Longrightarrow> inv (d\<lparr>d_association := snd (sc_poll sc (d_association d))\<rparr>)"
    and keep_read: "inv d \<Longrightarrow> inv (d\<lparr>d_association := snd (sc_read_sctp sc (d_association d) sid)\<rparr>)"
    and keep_opened: "inv d \<Longrightarrow> sc_open_stream sc (d_association d) DEFAULT_STREAM_ID = (Inr u, a) \<Longrightarrow>
      inv (emit Connected (d\<lparr>d_association := a, d_stream_ready := True\<rparr>))"
    and keep_not_opened: "inv d \<Longrightarrow> sc_open_stream sc (d_association d) DEFAULT_STREAM_ID = (Inl err, a) \<Longrightarrow>
      inv (d\<lparr>d_association := a\<rparr>)"
    and keep_endpoint_event: "inv d \<Longrightarrow> inv (d\<lparr>d_association := snd (sc_poll_endpoint_event sc (d_association d))\<rparr>)"
    and keep_transmit: "inv d \<Longrightarrow> inv (d\<lparr>d_association := snd (sc_poll_transmit sc (d_association d) now)\<rparr>)"
    and keep_handle_event: "inv d \<Longrightarrow> inv (d\<lparr>d_association := sc_handle_event sc (d_association d) i\<rparr>)"
    and keep_timeout: "inv d \<Longrightarrow> inv (d\<lparr>d_association := sc_handle_timeout sc (d_association d) now\<rparr>)"
    and keep_write: "inv d \<Longrightarrow> d_stream_ready d \<Longrightarrow>
      inv (d\<lparr>d_association := snd (sc_write sc (d_association d) DEFAULT_STREAM_ID data)\<rparr>)"
    and keep_endpoint: "inv d \<Longrightarrow> inv (d\<lparr>d_endpoint := e\<rparr>)"
    and keep_sent: "inv d \<Longrightarrow> inv (d\<lparr>d_sent := ds\<rparr>)"
begin

lemma read_messages_keeps: "read_messages sc sid d = Some d' \<Longrightarrow> inv d \<Longrightarrow> inv d'"
proof -
  assume "read_messages sc sid d = Some d'" "inv d"
  moreover have "s = sc \<longrightarrow> inv d \<longrightarrow> inv d'" if "read_messages s i d = Some d'" for s i d d'
  proof (rule read_messages.raw_induct [where P = "\<lambda>s i d d'. s = sc \<longrightarrow> inv d \<longrightarrow> inv d'", OF _ that], goal_cases)
    case (1 f s i d d')
    then show ?case using keep_read [of d i] keep_emit
      by (auto split: prod.splits sum.splits option.splits if_splits)
  qed
  ultimately show ?thesis by blast
qed

lemma pump_event_keeps: "pump_event sc ev d = Some d' \<Longrightarrow> inv d \<Longrightarrow> inv d'"
  using keep_opened [of d] keep_emit [OF keep_not_opened, of d] keep_emit [of d] read_messages_keeps [of _ d d']
  by (auto simp: pump_event_def split: SctpEvent.splits StreamEvent.splits prod.splits sum.splits)

lemma pump_events_keeps: "pump_events sc d = Some d' \<Longrightarrow> inv d \<Longrightarrow> inv d'"
proof -
  assume "pump_events sc d = Some d'" "inv d"
  moreover have "s = sc \<longrightarrow> inv d \<longrightarrow> inv d'" if "pump_events s d = Some d'" for s d d'
  proof (rule pump_events.raw_induct [where P = "\<lambda>s d d'. s = sc \<longrightarrow> inv d \<longrightarrow> inv d'", OF _ that], goal_cases)
    case (1 f s d d')
    then show ?case using keep_poll [of d] pump_event_keeps
      by (auto simp: bind_eq_Some_conv split: prod.splits option.splits)
  qed
  ultimately show ?thesis by blast
qed

lemma pump_endpoint_events_keeps: "pump_endpoint_events sc d = Some d' \<Longrightarrow> inv d \<Longrightarrow> inv d'"
proof -
  assume "pump_endpoint_events sc d = Some d'" "inv d"
  moreover have "s = sc \<longrightarrow> inv d \<longrightarrow> inv d'" if "pump_endpoint_events s d = Some d'" for s d d'
  proof (rule pump_endpoint_events.raw_induct [where P = "\<lambda>s d d'. s = sc \<longrightarrow> inv d \<longrightarrow> inv d'", OF _ that], goal_cases)
    case (1 f s d d')
    then show ?case using keep_endpoint_event [of d] keep_endpoint [OF keep_endpoint_event, of d]
      by (auto split: prod.splits option.splits)
  qed
  ultimately show ?thesis by blast
qed

lemma pump_transmits_keeps: "pump_transmits sc now d = Some d' \<Longrightarrow> inv d \<Longrightarrow> inv d'"
proof -
  assume "pump_transmits sc now d = Some d'" "inv d"
  moreover have "s = sc \<longrightarrow> inv d \<longrightarrow> inv d'" if "pump_transmits s n d = Some d'" for s n d d'
  proof (rule pump_transmits.raw_induct [where P = "\<lambda>s n d d'. s = sc \<longrightarrow> inv d \<longrightarrow> inv d'", OF _ that], goal_cases)
    case (1 f s n d d')
    then show ?case using keep_transmit [of d n] keep_sent [of "d\<lparr>d_association := snd (sc_poll_transmit sc (d_association d) n)\<rparr>"]
      by (auto split: prod.splits option.splits)
  qed
  ultimately show ?thesis by blast
qed

lemma pump_keeps: "pump sc now d = Some d' \<Longrightarrow> inv d \<Longrightarrow> inv d'"
  using pump_events_keeps pump_endpoint_events_keeps pump_transmits_keeps
  by (fastforce simp: pump_def bind_eq_Some_conv)

lemma drive_step_keeps:
  "drive_step sc s l s' \<Longrightarrow> inv (driver_of s) \<Longrightarrow> inv (driver_of s')"
proof (induction rule: drive_step.induct)
  case (datagram d data now' now from_addr d')
  have "inv (on_datagram sc now from_addr data d)"
    using datagram.prems keep_handle_event [OF keep_endpoint, of d]
    by (auto simp: on_datagram_def keep_endpoint split: prod.split option.split DatagramEvent.split)
  then show ?case using pump_keeps datagram by simp
next
  case (timer d deadline now now' d')
  then show ?case using pump_keeps [OF timer.hyps(4)] keep_timeout by (simp add: on_timeout_def)
next
  case (outbound d data r d1 now d')
  then have "inv d1" using keep_write [of d data]
    by (auto simp: on_outbound_def split: if_splits sum.splits prod.splits)
  then show ?case using pump_keeps outbound by simp
qed (simp_all add: keep_emit)

lemma drive_keeps:
  "drive sc d0 tr s \<Longrightarrow> inv d0 \<Longrightarrow> inv (driver_of s)"
proof (induction rule: drive.induct)
  case (turn tr s l s')
  then show ?case using drive_step_keeps by blast
qed (use pump_keeps in simp)

end

definition ready_announced :: "('a, 'e) Driver \<Rightarrow> bool" where
  "ready_announced d \<longleftrightarrow> (d_stream_ready d \<longrightarrow> Connected \<in> set (d_inbound d))"

interpretation announced: driver_invariant sc ready_announced for sc
  by unfold_locales (auto simp: ready_announced_def emit_def)

text \<open>The events sent to the application are never taken back.\<close>

interpretation grows: driver_invariant sc "\<lambda>d. \<exists>new. d_inbound d = old @ new" for sc old
  by unfold_locales (auto simp: emit_def)

lemma drive_step_grows:
  "drive_step sc s l s' \<Longrightarrow> \<exists>new. d_inbound (driver_of s') = d_inbound (driver_of s) @ new"
  using grows.drive_step_keeps [of sc s l s' "d_inbound (driver_of s)"]
  by simp

lemma drive_split:
  "drive sc d0 (tr1 @ tr2) s \<Longrightarrow>
   \<exists>s1. drive sc d0 tr1 s1 \<and> (\<exists>new. d_inbound (driver_of s) = d_inbound (driver_of s1) @ new)"
proof (induction tr2 arbitrary: s rule: rev_induct)
  case (snoc l tr2)
  from snoc.prems obtain s' where s': "drive sc d0 (tr1 @ tr2) s'" "drive_step sc s' l s"
    by (cases rule: drive.cases) (auto simp flip: append_assoc)
  from snoc.IH [OF s'(1)] obtain s1 new where
    "drive sc d0 tr1 s1" "d_inbound (driver_of s') = d_inbound (driver_of s1) @ new" by blast
  with drive_step_grows [OF s'(2)] show ?case by auto
qed auto

lemma drive_snoc: "drive sc d0 (tr @ [l]) s \<Longrightarrow> \<exists>s'. drive sc d0 tr s' \<and> drive_step sc s' l s"
  by (auto elim: drive.cases)

section \<open>What the pump delivers\<close>

text \<open>
  What the pump needs of the library: a queue of events, a queue of complete messages for each
  stream, and finitely many endpoint events and transmissions. \<open>v\<close> reads these off an association;
  the operations the pump uses take from the front, and otherwise leave them alone.
\<close>

record view =
  v_events :: "SctpEvent list"
  v_messages :: "nat \<Rightarrow> bytes list"
  v_endpoint_events :: nat
  v_transmits :: "(SocketAddr \<times> bytes list) list"

definition polls_ok :: "('a, 'e, 'c, 'i, 'o) sctp \<Rightarrow> ('a \<Rightarrow> view) \<Rightarrow> 'a \<Rightarrow> bool" where
  "polls_ok sc v a \<longleftrightarrow>
     (case v_events (v a) of
        [] \<Rightarrow> \<exists>a'. sc_poll sc a = (None, a') \<and> v a' = v a
      | ev # evs \<Rightarrow> \<exists>a'. sc_poll sc a = (Some ev, a') \<and> v a' = (v a)\<lparr>v_events := evs\<rparr>)"

definition reads_ok :: "('a, 'e, 'c, 'i, 'o) sctp \<Rightarrow> ('a \<Rightarrow> view) \<Rightarrow> 'a \<Rightarrow> nat \<Rightarrow> bool" where
  "reads_ok sc v a sid \<longleftrightarrow>
     (case v_messages (v a) sid of
        [] \<Rightarrow> \<exists>a'. sc_read_sctp sc a sid = (Inr None, a') \<and> v a' = v a
      | m # ms \<Rightarrow> sc_stream sc a sid = Inr () \<and>
          (\<exists>c a'. sc_read_sctp sc a sid = (Inr (Some c), a') \<and>
            v a' = (v a)\<lparr>v_messages := (v_messages (v a))(sid := ms)\<rparr> \<and>
            (\<forall>n. if length m \<le> n then sc_to_payload sc c n = Inr m else isl (sc_to_payload sc c n))))"

definition endpoint_ok :: "('a, 'e, 'c, 'i, 'o) sctp \<Rightarrow> ('a \<Rightarrow> view) \<Rightarrow> 'a \<Rightarrow> bool" where
  "endpoint_ok sc v a \<longleftrightarrow>
     (case v_endpoint_events (v a) of
        0 \<Rightarrow> \<exists>a'. sc_poll_endpoint_event sc a = (None, a') \<and> v a' = v a
      | Suc n \<Rightarrow> \<exists>ep a'. sc_poll_endpoint_event sc a = (Some ep, a') \<and> v a' = (v a)\<lparr>v_endpoint_events := n\<rparr>)"

definition transmits_ok :: "('a, 'e, 'c, 'i, 'o) sctp \<Rightarrow> ('a \<Rightarrow> view) \<Rightarrow> 'a \<Rightarrow> nat \<Rightarrow> bool" where
  "transmits_ok sc v a now \<longleftrightarrow>
     (case v_transmits (v a) of
        [] \<Rightarrow> \<exists>a'. sc_poll_transmit sc a now = (None, a') \<and> v a' = v a
      | (p, bufs) # ts \<Rightarrow>
          \<exists>a'. sc_poll_transmit sc a now = (Some (p, Some bufs), a') \<and> v a' = (v a)\<lparr>v_transmits := ts\<rparr>)"

definition sctp_ok :: "('a, 'e, 'c, 'i, 'o) sctp \<Rightarrow> ('a \<Rightarrow> view) \<Rightarrow> bool" where
  "sctp_ok sc v \<longleftrightarrow>
     (\<forall>a sid now. polls_ok sc v a \<and> reads_ok sc v a sid \<and> endpoint_ok sc v a \<and> transmits_ok sc v a now \<and>
        v (snd (sc_open_stream sc a sid)) = v a)"

text \<open>The events for the application, from the queues, and the messages that are left.\<close>

fun link_events :: "(nat \<Rightarrow> bytes list) \<Rightarrow> SctpEvent list \<Rightarrow> LinkEvent list \<times> (nat \<Rightarrow> bytes list)" where
  "link_events ms [] = ([], ms)"
| "link_events ms (EvConnected # evs) = apfst ((#) Connected) (link_events ms evs)"
| "link_events ms (AssociationLost r # evs) = apfst ((#) (Lost r)) (link_events ms evs)"
| "link_events ms (HandshakeFailed r # evs) = apfst ((#) (Lost (''handshake failed: '' @ r))) (link_events ms evs)"
| "link_events ms (EvStream (Readable sid) # evs) =
     apfst ((@) (map Message (filter (\<lambda>m. length m \<le> MAX_MESSAGE_LEN) (ms sid)))) (link_events (ms(sid := [])) evs)"
| "link_events ms (_ # evs) = link_events ms evs"

lemma sctp_okD:
  assumes "sctp_ok sc v"
  shows "polls_ok sc v a" "reads_ok sc v a sid" "endpoint_ok sc v a" "transmits_ok sc v a now"
    "v (snd (sc_open_stream sc a sid)) = v a"
  using assms by (simp_all add: sctp_ok_def)

lemma read_messages_delivers:
  assumes ok: "sctp_ok sc v"
  shows "\<exists>d'. read_messages sc sid d = Some d' \<and>
    d_inbound d' = d_inbound d @ map Message (filter (\<lambda>m. length m \<le> MAX_MESSAGE_LEN) (v_messages (v (d_association d)) sid)) \<and>
    v (d_association d') = (v (d_association d))\<lparr>v_messages := (v_messages (v (d_association d)))(sid := [])\<rparr> \<and>
    d_sent d' = d_sent d"
proof (induction "v_messages (v (d_association d)) sid" arbitrary: d)
  case Nil
  then show ?case using sctp_okD(2) [OF ok, of "d_association d" sid]
    by (auto simp: reads_ok_def read_messages.simps fun_upd_idem)
next
  case (Cons m ms)
  obtain c a' where r: "sc_read_sctp sc (d_association d) sid = (Inr (Some c), a')"
    "v a' = (v (d_association d))\<lparr>v_messages := (v_messages (v (d_association d)))(sid := ms)\<rparr>"
    "\<And>n. if length m \<le> n then sc_to_payload sc c n = Inr m else isl (sc_to_payload sc c n)"
    using sctp_okD(2) [OF ok, of "d_association d" sid] Cons(2) [symmetric] by (auto simp: reads_ok_def)
  let ?d = "if length m \<le> MAX_MESSAGE_LEN then emit (Message m) (d\<lparr>d_association := a'\<rparr>) else d\<lparr>d_association := a'\<rparr>"
  have "read_messages sc sid d = read_messages sc sid ?d"
    using r(1) r(3) [of MAX_MESSAGE_LEN] by (subst read_messages.simps) (auto simp: isl_def split: if_splits)
  moreover have "ms = v_messages (v (d_association ?d)) sid" using r(2) by (simp add: emit_def)
  from Cons(1) [OF this] show ?case using calculation r(2) Cons(2) [symmetric]
    by (auto simp: emit_def)
qed

lemma pump_event_delivers:
  assumes ok: "sctp_ok sc v"
  shows "\<exists>d' new ms. pump_event sc ev d = Some d' \<and> d_inbound d' = d_inbound d @ new \<and>
    v (d_association d') = (v (d_association d))\<lparr>v_messages := ms\<rparr> \<and> d_sent d' = d_sent d \<and>
    (\<forall>evs. link_events (v_messages (v (d_association d))) (ev # evs) = apfst ((@) new) (link_events ms evs))"
proof (cases "\<exists>sid. ev = EvStream (Readable sid)")
  case True
  then obtain sid where ev: "ev = EvStream (Readable sid)" by blast
  have "pump_event sc ev d = (if isl (sc_stream sc (d_association d) sid) then Some d else read_messages sc sid d)"
    by (auto simp: pump_event_def ev split: sum.split)
  moreover have "v_messages (v (d_association d)) sid = []" if "isl (sc_stream sc (d_association d) sid)"
    using sctp_okD(2) [OF ok, of "d_association d" sid] that by (auto simp: reads_ok_def split: list.splits)
  moreover obtain d' where "read_messages sc sid d = Some d'" "d_sent d' = d_sent d"
    "d_inbound d' = d_inbound d @ map Message (filter (\<lambda>m. length m \<le> MAX_MESSAGE_LEN) (v_messages (v (d_association d)) sid))"
    "v (d_association d') = (v (d_association d))\<lparr>v_messages := (v_messages (v (d_association d)))(sid := [])\<rparr>"
    using read_messages_delivers [OF ok, of sid d] by blast
  ultimately show ?thesis using ev
    by (intro exI [of _ "if isl (sc_stream sc (d_association d) sid) then d else d'"]
        exI [of _ "map Message (filter (\<lambda>m. length m \<le> MAX_MESSAGE_LEN) (v_messages (v (d_association d)) sid))"]
        exI [of _ "(v_messages (v (d_association d)))(sid := [])"]) (auto simp: fun_upd_idem)
next
  case False
  have "v (d_association d) = (v (d_association d))\<lparr>v_messages := v_messages (v (d_association d))\<rparr>" by simp
  with False show ?thesis
    using sctp_okD(5) [OF ok, of "d_association d" DEFAULT_STREAM_ID]
    by (cases ev)
      (auto simp: pump_event_def emit_def apfst_def map_prod_def split: prod.split sum.split StreamEvent.split
        intro!: exI [of _ "v_messages (v (d_association d))"])
qed

lemma pump_events_delivers:
  assumes ok: "sctp_ok sc v"
  shows "\<exists>d'. pump_events sc d = Some d' \<and>
    d_inbound d' = d_inbound d @ fst (link_events (v_messages (v (d_association d))) (v_events (v (d_association d)))) \<and>
    v (d_association d') = (v (d_association d))\<lparr>v_events := [],
      v_messages := snd (link_events (v_messages (v (d_association d))) (v_events (v (d_association d))))\<rparr> \<and>
    d_sent d' = d_sent d"
proof (induction "v_events (v (d_association d))" arbitrary: d)
  case Nil
  then show ?case using sctp_okD(1) [OF ok, of "d_association d"]
    by (auto simp: polls_ok_def pump_events.simps)
next
  case (Cons ev evs)
  obtain a where p: "sc_poll sc (d_association d) = (Some ev, a)" "v a = (v (d_association d))\<lparr>v_events := evs\<rparr>"
    using sctp_okD(1) [OF ok, of "d_association d"] Cons(2) [symmetric] by (auto simp: polls_ok_def)
  let ?e = "\<lambda>evs. link_events (v_messages (v (d_association d))) evs"
  have "\<exists>d1 new ms. pump_event sc ev (d\<lparr>d_association := a\<rparr>) = Some d1 \<and> d_inbound d1 = d_inbound d @ new \<and>
      v (d_association d1) = (v (d_association d))\<lparr>v_events := evs, v_messages := ms\<rparr> \<and> d_sent d1 = d_sent d \<and>
      ?e (ev # evs) = apfst ((@) new) (link_events ms evs)"
    using pump_event_delivers [OF ok, of ev "d\<lparr>d_association := a\<rparr>"] p(2) by auto
  then obtain d1 new ms where d1: "pump_event sc ev (d\<lparr>d_association := a\<rparr>) = Some d1" "d_inbound d1 = d_inbound d @ new"
    "v (d_association d1) = (v (d_association d))\<lparr>v_events := evs, v_messages := ms\<rparr>" "d_sent d1 = d_sent d"
    "?e (ev # evs) = apfst ((@) new) (link_events ms evs)" by blast
  have "pump_events sc d = pump_events sc d1" using p(1) d1(1) by (subst pump_events.simps) simp
  with Cons(1) [of d1] Cons(2) [symmetric] d1 show ?case by (auto simp: apfst_def)
qed

lemma pump_endpoint_events_ends:
  assumes ok: "sctp_ok sc v"
  shows "\<exists>d'. pump_endpoint_events sc d = Some d' \<and> d_inbound d' = d_inbound d \<and> d_sent d' = d_sent d \<and>
    v (d_association d') = (v (d_association d))\<lparr>v_endpoint_events := 0\<rparr>"
proof (induction "v_endpoint_events (v (d_association d))" arbitrary: d)
  case 0
  then show ?case using sctp_okD(3) [OF ok, of "d_association d"]
    by (auto simp: endpoint_ok_def pump_endpoint_events.simps)
next
  case (Suc n)
  obtain ep a where p: "sc_poll_endpoint_event sc (d_association d) = (Some ep, a)"
    "v a = (v (d_association d))\<lparr>v_endpoint_events := n\<rparr>"
    using sctp_okD(3) [OF ok, of "d_association d"] Suc(2) [symmetric] by (auto simp: endpoint_ok_def)
  let ?d = "d\<lparr>d_association := a, d_endpoint := ep_handle_event sc (d_endpoint d) (d_handle d) ep\<rparr>"
  have "pump_endpoint_events sc d = pump_endpoint_events sc ?d"
    using p(1) by (subst pump_endpoint_events.simps) simp
  then show ?case using Suc(1) [of ?d] p(2) by auto
qed

abbreviation datagrams :: "(SocketAddr \<times> bytes list) list \<Rightarrow> (SocketAddr \<times> bytes) list" where
  "datagrams ts \<equiv> concat (map (\<lambda>(p, bufs). map (Pair p) bufs) ts)"

lemma pump_transmits_sends:
  assumes ok: "sctp_ok sc v"
  shows "\<exists>d'. pump_transmits sc now d = Some d' \<and> d_inbound d' = d_inbound d \<and>
    d_sent d' = d_sent d @ datagrams (v_transmits (v (d_association d))) \<and>
    v (d_association d') = (v (d_association d))\<lparr>v_transmits := []\<rparr>"
proof (induction "v_transmits (v (d_association d))" arbitrary: d)
  case Nil
  then show ?case using sctp_okD(4) [OF ok, of "d_association d" now]
    by (auto simp: transmits_ok_def pump_transmits.simps)
next
  case (Cons t ts)
  obtain p bufs where t: "t = (p, bufs)" by (cases t)
  obtain a where a: "sc_poll_transmit sc (d_association d) now = (Some (p, Some bufs), a)"
    "v a = (v (d_association d))\<lparr>v_transmits := ts\<rparr>"
    using sctp_okD(4) [OF ok, of "d_association d" now] Cons(2) [symmetric] t by (auto simp: transmits_ok_def)
  let ?d = "d\<lparr>d_association := a, d_sent := d_sent d @ map (Pair p) bufs\<rparr>"
  have "pump_transmits sc now d = pump_transmits sc now ?d"
    using a(1) by (subst pump_transmits.simps) simp
  then show ?case using Cons(1) [of ?d] Cons(2) [symmetric] a(2) t by auto
qed

lemma pump_total:
  assumes ok: "sctp_ok sc v"
  shows "\<exists>d'. pump sc now d = Some d' \<and>
    d_inbound d' = d_inbound d @ fst (link_events (v_messages (v (d_association d))) (v_events (v (d_association d)))) \<and>
    d_sent d' = d_sent d @ datagrams (v_transmits (v (d_association d))) \<and>
    v (d_association d') = \<lparr>v_events = [],
      v_messages = snd (link_events (v_messages (v (d_association d))) (v_events (v (d_association d)))),
      v_endpoint_events = 0, v_transmits = []\<rparr>"
proof -
  obtain d1 where d1: "pump_events sc d = Some d1" "d_sent d1 = d_sent d"
    "d_inbound d1 = d_inbound d @ fst (link_events (v_messages (v (d_association d))) (v_events (v (d_association d))))"
    "v (d_association d1) = (v (d_association d))\<lparr>v_events := [],
      v_messages := snd (link_events (v_messages (v (d_association d))) (v_events (v (d_association d))))\<rparr>"
    using pump_events_delivers [OF ok, of d] by blast
  obtain d2 where d2: "pump_endpoint_events sc d1 = Some d2" "d_inbound d2 = d_inbound d1" "d_sent d2 = d_sent d1"
    "v (d_association d2) = (v (d_association d1))\<lparr>v_endpoint_events := 0\<rparr>"
    using pump_endpoint_events_ends [OF ok, of d1] by blast
  show ?thesis using pump_transmits_sends [OF ok, of now d2] d1 d2 by (auto simp: pump_def)
qed

section \<open>A link that never gets ready\<close>

text \<open>
  The default stream exists already: \<open>open_stream\<close> reports an error, as it does for a stream that
  inbound data has created, and it goes on existing. For the events that come in this says more than
  the library documents: the peer does not reset that stream, which is the only way to lose it
  again.
\<close>

definition stream_taken :: "('a, 'e, 'c, 'i, 'o) sctp \<Rightarrow> ('a \<Rightarrow> bool) \<Rightarrow> bool" where
  "stream_taken sc taken \<longleftrightarrow>
     (\<forall>a. taken a \<longrightarrow> isl (fst (sc_open_stream sc a DEFAULT_STREAM_ID)) \<and>
        taken (snd (sc_open_stream sc a DEFAULT_STREAM_ID)) \<and> taken (snd (sc_poll sc a)) \<and>
        (\<forall>sid. taken (snd (sc_read_sctp sc a sid))) \<and> taken (snd (sc_poll_endpoint_event sc a)) \<and>
        (\<forall>now. taken (snd (sc_poll_transmit sc a now)) \<and> taken (sc_handle_timeout sc a now)) \<and>
        (\<forall>i. taken (sc_handle_event sc a i)))"

lemma never_ready_invariant:
  assumes "stream_taken sc taken"
  shows "driver_invariant sc (\<lambda>d. taken (d_association d) \<and> \<not> d_stream_ready d)"
  using assms by unfold_locales (force simp: stream_taken_def emit_def isl_def)+

section \<open>A sample library\<close>

text \<open>
  An SCTP library in memory, for the witnesses: an association is its queues and whether the default
  stream exists; a datagram is one message on that stream, and creates it.
\<close>

definition sample_sctp :: "(view \<times> bool, unit, bytes, bytes, unit) sctp" where
  "sample_sctp =
     \<lparr>sc_poll = (\<lambda>(w, t). case v_events w of [] \<Rightarrow> (None, (w, t)) | ev # evs \<Rightarrow> (Some ev, (w\<lparr>v_events := evs\<rparr>, t))),
      sc_open_stream = (\<lambda>(w, t) sid. if t then (Inl ''stream exists'', (w, t)) else (Inr (), (w, True))),
      sc_stream = (\<lambda>(w, t) sid. if t \<or> v_messages w sid \<noteq> [] then Inr () else Inl ''no stream''),
      sc_read_sctp = (\<lambda>(w, t) sid. case v_messages w sid of
          [] \<Rightarrow> (Inr None, (w, t))
        | m # ms \<Rightarrow> (Inr (Some m), (w\<lparr>v_messages := (v_messages w)(sid := ms)\<rparr>, t))),
      sc_to_payload = (\<lambda>m n. if length m \<le> n then Inr m else Inl ''short buffer''),
      sc_write = (\<lambda>(w, t) sid data. (Inr (length data), (w\<lparr>v_transmits := v_transmits w @ [(([10, 0, 0, 1], 1), [data])]\<rparr>, t))),
      sc_handle_event = (\<lambda>(w, t) m.
        (w\<lparr>v_events := v_events w @ [EvStream (Readable 0)], v_messages := (v_messages w)(0 := v_messages w 0 @ [m])\<rparr>, True)),
      sc_handle_timeout = (\<lambda>a now. a),
      sc_poll_timeout = (\<lambda>a. None),
      sc_poll_endpoint_event = (\<lambda>(w, t). case v_endpoint_events w of
          0 \<Rightarrow> (None, (w, t)) | Suc n \<Rightarrow> (Some (), (w\<lparr>v_endpoint_events := n\<rparr>, t))),
      sc_poll_transmit = (\<lambda>(w, t) now. case v_transmits w of
          [] \<Rightarrow> (None, (w, t)) | (p, bufs) # ts \<Rightarrow> (Some (p, Some bufs), (w\<lparr>v_transmits := ts\<rparr>, t))),
      sc_is_drained = (\<lambda>a. False),
      ep_connect = (\<lambda>e remote_addr. Inl ''not supported''),
      ep_handle = (\<lambda>e now from_addr data. (Some (0, AssociationEvent data), e)),
      ep_handle_event = (\<lambda>e h ep. e)\<rparr>"

definition sample_association :: "bool \<Rightarrow> view \<times> bool" where
  "sample_association t =
     (\<lparr>v_events = [EvConnected, EvStream (Readable 0)], v_messages = (\<lambda>_. [])(0 := [[1, 2], [3]]),
       v_endpoint_events = 1, v_transmits = [(([10, 0, 0, 1], 1), [[9], [8]])]\<rparr>, t)"

lemma sample_sctp_ok: "sctp_ok sample_sctp fst" "stream_taken sample_sctp snd"
  by (auto simp: sctp_ok_def stream_taken_def polls_ok_def reads_ok_def endpoint_ok_def transmits_ok_def
      sample_sctp_def split: list.split nat.split)

lemmas pump_simps = pump_def pump_events.simps pump_event_def read_messages.simps pump_endpoint_events.simps
  pump_transmits.simps emit_def spawn_driver_def

lemma sample_start:
  "\<exists>d. pump sample_sctp 0 (spawn_driver () (sample_association False) 0) = Some d \<and> d_stream_ready d \<and>
     d_inbound d = [Connected, Message [1, 2], Message [3]]"
  by (simp add: pump_simps sample_sctp_def sample_association_def MAX_MESSAGE_LEN_def RECV_BUF_LEN_def)

section \<open>Properties\<close>

text \<open>
  C21. The application is told before it can send. Take any run of the driver, with whatever SCTP
  library, and a message in it whose send succeeded or failed in the library: before the driver
  took that message it had already sent \<open>Connected\<close> to the application, and nothing of what
  the application had been sent by then is taken back later. In any other case the reply is
  \<open>NotReady\<close> or \<open>Closed\<close>.
\<close>

theorem send_only_after_connected:
  assumes "drive sc (spawn_driver e a h) (before @ Outbound data r # after) s"
    and "r \<noteq> Inl NotReady" "r \<noteq> Inl Closed"
  shows "\<exists>d new. drive sc (spawn_driver e a h) before (Driving d) \<and> Connected \<in> set (d_inbound d) \<and>
    d_inbound (driver_of s) = d_inbound d @ new"
proof -
  let ?d0 = "spawn_driver e a h"
  have "drive sc ?d0 ((before @ [Outbound data r]) @ after) s" using assms(1) by simp
  then obtain s2 new2 where s2: "drive sc ?d0 (before @ [Outbound data r]) s2"
    "d_inbound (driver_of s) = d_inbound (driver_of s2) @ new2" using drive_split by blast
  then obtain s1 where s1: "drive sc ?d0 before s1" "drive_step sc s1 (Outbound data r) s2"
    using drive_snoc by blast
  then obtain d where d: "s1 = Driving d" "d_stream_ready d"
    using assms(2,3) drive_step.simps [of sc s1 "Outbound data r" s2]
    by (auto simp: on_outbound_def split: if_splits)
  have "ready_announced d"
    using announced.drive_keeps [OF s1(1)] d(1) by (simp add: ready_announced_def spawn_driver_def)
  with d s1 s2 drive_step_grows [OF s1(2)] show ?thesis by (auto simp: ready_announced_def)
qed

theorem send_only_after_connected_witness:
  "\<exists>d s new. drive sample_sctp (spawn_driver () (sample_association False) 0) [] (Driving d) \<and>
    Connected \<in> set (d_inbound d) \<and>
    drive sample_sctp (spawn_driver () (sample_association False) 0) [Outbound [7] (Inr ())] s \<and>
    d_inbound (driver_of s) = d_inbound d @ new"
proof -
  obtain d where d: "pump sample_sctp 0 (spawn_driver () (sample_association False) 0) = Some d" "d_stream_ready d"
    using sample_start by blast
  obtain d1 where d1: "on_outbound sample_sctp [7] d = (Inr (), d1)"
  proof (cases "d_association d")
    case (Pair w t)
    have "d_association d = (w, True)"
      using d(1) Pair by (auto simp: pump_simps sample_sctp_def sample_association_def MAX_MESSAGE_LEN_def RECV_BUF_LEN_def)
    then show ?thesis using that d(2) by (simp add: on_outbound_def sample_sctp_def)
  qed
  obtain d' where d': "pump sample_sctp 0 d1 = Some d'" using pump_total [OF sample_sctp_ok(1)] by blast
  have "\<not> sc_is_drained sample_sctp (d_association d)" by (simp add: sample_sctp_def)
  from drive.turn [OF drive.start [OF d(1)] drive_step.outbound [OF this d1 d']]
  have "drive sample_sctp (spawn_driver () (sample_association False) 0) ([] @ Outbound [7] (Inr ()) # []) (Driving d')"
    by simp
  from this send_only_after_connected [OF this] show ?thesis by (fastforce intro!: exI [of _ "Driving d'"])
qed

text \<open>
  C22. The pump ends and delivers everything. When the library keeps finite queues and hands them
  out in order, the pump returns; the application got the connection events and the complete
  messages in the order of the library, stream by stream as they were reported readable, except for messages
  longer than 65536 bytes; the socket got every datagram in order; and nothing is left to poll.
\<close>

theorem pump_delivers:
  assumes "sctp_ok sc v" "v (d_association d) = \<lparr>v_events = evs, v_messages = ms, v_endpoint_events = n, v_transmits = ts\<rparr>"
  shows "\<exists>d'. pump sc now d = Some d' \<and> d_inbound d' = d_inbound d @ fst (link_events ms evs) \<and>
    d_sent d' = d_sent d @ datagrams ts \<and>
    v (d_association d') = \<lparr>v_events = [], v_messages = snd (link_events ms evs), v_endpoint_events = 0, v_transmits = []\<rparr>"
  using pump_total [OF assms(1), of now d] assms(2) by simp

theorem pump_delivers_witness:
  "\<exists>d'. pump sample_sctp 0 (spawn_driver () (sample_association True) 0) = Some d' \<and>
    d_inbound d' = [Connected, Message [1, 2], Message [3]] \<and>
    d_sent d' = [(([10, 0, 0, 1], 1), [9]), (([10, 0, 0, 1], 1), [8])]"
proof -
  let ?d = "spawn_driver () (sample_association True) 0"
  let ?evs = "[EvConnected, EvStream (Readable 0)]" and ?ms = "(\<lambda>_. [])(0 := [[1, 2], [3]])"
  have "fst (d_association ?d) = \<lparr>v_events = ?evs, v_messages = ?ms, v_endpoint_events = 1,
      v_transmits = [(([10, 0, 0, 1], 1), [[9], [8]])]\<rparr>"
    by (simp add: spawn_driver_def sample_association_def)
  moreover have "fst (link_events ?ms ?evs) = [Connected, Message [1, 2], Message [3]]"
    by (simp add: MAX_MESSAGE_LEN_def RECV_BUF_LEN_def)
  ultimately show ?thesis
    using pump_delivers [OF sample_sctp_ok(1), of ?d ?evs ?ms 1 _ 0] by (fastforce simp: spawn_driver_def)
qed

text \<open>
  C39. A link can announce its connection and never send. If the library has the default stream
  already when the connected event is polled - the peer's first data came in with the end of the
  handshake - and the peer does not reset that stream, then in every run from there the application is
  told \<open>Connected\<close>, and every send is refused.
\<close>

theorem connected_link_refuses_sends:
  assumes "stream_taken sc taken" "sctp_ok sc v" "taken (d_association d0)" "\<not> d_stream_ready d0"
    and "EvConnected \<in> set (v_events (v (d_association d0)))" and run: "drive sc d0 tr s"
  shows "Connected \<in> set (d_inbound (driver_of s)) \<and>
    (Outbound data r \<in> set tr \<longrightarrow> r = Inl NotReady \<or> r = Inl Closed)"
proof -
  have ev: "EvConnected \<in> set evs \<Longrightarrow> Connected \<in> set (fst (link_events ms evs))" for ms evs
    by (induction ms evs rule: link_events.induct) (auto simp: apfst_def)
  let ?I = "\<lambda>d. taken (d_association d) \<and> \<not> d_stream_ready d"
  note I = driver_invariant.drive_keeps [OF never_ready_invariant [OF assms(1)]]
  from run have c: "Connected \<in> set (d_inbound (driver_of s))"
  proof induction
    case (start now d)
    then show ?case using pump_total [OF assms(2), of now d0] ev [OF assms(5)] by auto
  next
    case (turn tr s l s')
    then show ?case using drive_step_grows [OF turn.hyps(2)] by auto
  qed
  from run have "\<forall>data r. Outbound data r \<in> set tr \<longrightarrow> r = Inl NotReady \<or> r = Inl Closed"
  proof induction
    case (turn tr s l s')
    have "?I (driver_of s)" using I [OF turn.hyps(1)] assms(3,4) by simp
    with turn.hyps(2) turn.IH show ?case by cases (auto simp: on_outbound_def)
  qed simp
  with c show ?thesis by blast
qed

theorem connected_link_refuses_sends_witness:
  "\<exists>s. drive sample_sctp (spawn_driver () (sample_association True) 0) [Outbound [7] (Inl NotReady)] s \<and>
    Connected \<in> set (d_inbound (driver_of s))"
proof -
  let ?d0 = "spawn_driver () (sample_association True) 0"
  obtain d where d: "pump sample_sctp 0 ?d0 = Some d" using pump_total [OF sample_sctp_ok(1)] by blast
  have r: "\<not> d_stream_ready d"
    using driver_invariant.pump_keeps [OF never_ready_invariant [OF sample_sctp_ok(2)] d]
    by (simp add: spawn_driver_def sample_association_def)
  obtain d' where d': "pump sample_sctp 0 d = Some d'" using pump_total [OF sample_sctp_ok(1)] by blast
  have o: "\<not> sc_is_drained sample_sctp (d_association d)" "on_outbound sample_sctp [7] d = (Inl NotReady, d)"
    using r by (simp_all add: sample_sctp_def on_outbound_def)
  from drive.turn [OF drive.start [OF d] drive_step.outbound [OF o d']]
  have run: "drive sample_sctp ?d0 [Outbound [7] (Inl NotReady)] (Driving d')" by simp
  show ?thesis
    using connected_link_refuses_sends [OF sample_sctp_ok(2,1) _ _ _ run] run
    by (auto simp: spawn_driver_def sample_association_def)
qed

end
