(* ===== verification/Sim_Args.thy ===== *)
theory Sim_Args
  imports Midn_Prelude
begin

text \<open>
  The command lines of the two simulators: \<open>parse_args\<close>, \<open>ipv4_octets\<close> and the roles of
  \<open>crates/midn-sim/src/main.rs\<close> and \<open>crates/mme-sim/src/main.rs\<close>, and the parsers of the standard
  library they use (\<open>u32::from_str\<close>, \<open>SocketAddr::from_str\<close>). The IPv6 half of the address parser is
  an argument: an address it accepts ends in the panic of \<open>ipv4_octets\<close>. An error message is a
  constructor per branch.
\<close>

section \<open>Numbers and addresses\<close>

datatype ParseIntError = EmptyNumber | InvalidDigit | PosOverflow

definition is_digit :: "char \<Rightarrow> bool" where
  "is_digit c \<longleftrightarrow> 48 \<le> (of_char c :: nat) \<and> of_char c \<le> (57 :: nat)"

definition digit_of :: "char \<Rightarrow> nat" where
  "digit_of c = of_char c - 48"

fun u32_digits :: "string \<Rightarrow> nat \<Rightarrow> ParseIntError + nat" where
  "u32_digits [] acc = Inr acc"
| "u32_digits (c # cs) acc =
     (if \<not> is_digit c then Inl InvalidDigit
      else if acc * 10 + digit_of c \<ge> 2 ^ 32 then Inl PosOverflow
      else u32_digits cs (acc * 10 + digit_of c))"

definition u32_from_str :: "string \<Rightarrow> ParseIntError + u32" where
  "u32_from_str s =
     (case s of
        [] \<Rightarrow> Inl EmptyNumber
      | [c] \<Rightarrow> if c = CHR ''+'' \<or> c = CHR ''-'' then Inl InvalidDigit else map_sum id of_nat (u32_digits s 0)
      | c # cs \<Rightarrow> map_sum id of_nat (u32_digits (if c = CHR ''+'' then cs else s) 0))"

datatype IpAddr = V4 bytes | V6 bytes

type_synonym Addr = "IpAddr \<times> u16"

definition dec_value :: "string \<Rightarrow> nat" where
  "dec_value ds = foldl (\<lambda>n c. n * 10 + digit_of c) 0 ds"

definition read_octet :: "string \<Rightarrow> (u8 \<times> string) option" where
  "read_octet s =
     (let ds = takeWhile is_digit s in
      if ds = [] \<or> 3 < length ds \<or> hd ds = CHR ''0'' \<and> 1 < length ds \<or> 255 < dec_value ds then None
      else Some (of_nat (dec_value ds), dropWhile is_digit s))"

definition read_port :: "string \<Rightarrow> (u16 \<times> string) option" where
  "read_port s =
     (let ds = takeWhile is_digit s in
      if ds = [] \<or> 65535 < dec_value ds then None
      else Some (of_nat (dec_value ds), dropWhile is_digit s))"

definition read_given_char :: "char \<Rightarrow> string \<Rightarrow> string option" where
  "read_given_char c s = (case s of [] \<Rightarrow> None | x # xs \<Rightarrow> if x = c then Some xs else None)"

definition read_socket_addr_v4 :: "string \<Rightarrow> Addr option" where
  "read_socket_addr_v4 s =
     Option.bind (read_octet s) (\<lambda>(a, s).
     Option.bind (Option.bind (read_given_char CHR ''.'' s) read_octet) (\<lambda>(b, s).
     Option.bind (Option.bind (read_given_char CHR ''.'' s) read_octet) (\<lambda>(c, s).
     Option.bind (Option.bind (read_given_char CHR ''.'' s) read_octet) (\<lambda>(d, s).
     Option.bind (Option.bind (read_given_char CHR '':'' s) read_port) (\<lambda>(p, s).
       if s = [] then Some (V4 [a, b, c, d], p) else None)))))"

definition socket_addr_from_str :: "(string \<Rightarrow> Addr option) \<Rightarrow> string \<Rightarrow> Addr option" where
  "socket_addr_from_str v6 s = (case read_socket_addr_v4 s of Some a \<Rightarrow> Some a | None \<Rightarrow> v6 s)"

text \<open>\<open>ipv4_octets\<close>: the panic on an IPv6 address is \<open>None\<close>.\<close>

definition ipv4_octets :: "Addr \<Rightarrow> bytes option" where
  "ipv4_octets addr = (case fst addr of V4 octets \<Rightarrow> Some octets | V6 _ \<Rightarrow> None)"

section \<open>Command lines\<close>

datatype ArgError =
    UnrecognizedArgument string
  | NeedsValue string
  | BadCount ParseIntError
  | CountTooSmall
  | BadAddress string
  | RequiresOption string string
  | UnknownRole string

text \<open>The values of the options read so far; the last one of a kind counts.\<close>

record Options =
  o_role :: "string option"
  o_bind :: "string option"
  o_peer :: "string option"
  o_n_ues :: "string option"

definition no_options :: Options where
  "no_options = \<lparr>o_role = None, o_bind = None, o_peer = None, o_n_ues = None\<rparr>"

definition parse_addr :: "(string \<Rightarrow> Addr option) \<Rightarrow> string \<Rightarrow> string \<Rightarrow> ArgError + Addr" where
  "parse_addr v6 opt s = ok_or (socket_addr_from_str v6 s) (BadAddress opt)"

subsection \<open>The 5G simulator\<close>

datatype Role = Both u32 | RoleAmf Addr u32 | RoleUe Addr Addr u32

definition AMF_BIND_ADDR :: string where "AMF_BIND_ADDR = ''127.0.0.1:38412''"

definition set_option :: "string \<Rightarrow> string option \<Rightarrow> Options \<Rightarrow> ArgError + Options" where
  "set_option flag value opts =
     (if flag = ''--role'' then Inr (opts\<lparr>o_role := value\<rparr>)
      else if flag = ''--bind'' then Inr (opts\<lparr>o_bind := value\<rparr>)
      else if flag = ''--amf'' then Inr (opts\<lparr>o_peer := value\<rparr>)
      else if flag = ''--n-ues'' then Inr (opts\<lparr>o_n_ues := value\<rparr>)
      else Inl (UnrecognizedArgument flag))"

fun read_options :: "string list \<Rightarrow> Options \<Rightarrow> ArgError + Options" where
  "read_options [] opts = Inr opts"
| "read_options [flag] opts = bind_res (set_option flag None opts) (\<lambda>_. Inl (NeedsValue flag))"
| "read_options (flag # value # rest) opts =
     bind_res (set_option flag (Some value) opts) (read_options rest)"

definition parse_n_ues :: "string option \<Rightarrow> ArgError + u32" where
  "parse_n_ues arg =
     (case arg of
        None \<Rightarrow> Inr 1
      | Some s \<Rightarrow>
          (case u32_from_str s of
             Inl e \<Rightarrow> Inl (BadCount e)
           | Inr n \<Rightarrow> if n = 0 then Inl CountTooSmall else Inr n))"

definition parse_args :: "(string \<Rightarrow> Addr option) \<Rightarrow> string list \<Rightarrow> ArgError + Role" where
  "parse_args v6 args =
     bind_res (read_options args no_options) (\<lambda>opts.
     bind_res (parse_n_ues (o_n_ues opts)) (\<lambda>n_ues.
       case o_role opts of
         None \<Rightarrow> Inr (Both n_ues)
       | Some role \<Rightarrow>
           if role = ''both'' then Inr (Both n_ues)
           else if role = ''amf'' then
             bind_res (parse_addr v6 ''--bind'' (case o_bind opts of None \<Rightarrow> AMF_BIND_ADDR | Some s \<Rightarrow> s))
               (\<lambda>bind. Inr (RoleAmf bind n_ues))
           else if role = ''ue'' then
             bind_res (ok_or (o_bind opts) (RequiresOption ''ue'' ''--bind'')) (\<lambda>s.
             bind_res (parse_addr v6 ''--bind'' s) (\<lambda>bind.
             bind_res (ok_or (o_peer opts) (RequiresOption ''ue'' ''--amf'')) (\<lambda>s.
             bind_res (parse_addr v6 ''--amf'' s) (\<lambda>amf. Inr (RoleUe bind amf n_ues)))))
           else Inl (UnknownRole role)))"

subsection \<open>The LTE simulator\<close>

datatype LteRole = LteBoth | LteRoleMme Addr | LteRoleUe Addr Addr

definition MME_BIND_ADDR :: string where "MME_BIND_ADDR = ''127.0.0.1:36412''"

definition lte_set_option :: "string \<Rightarrow> string option \<Rightarrow> Options \<Rightarrow> ArgError + Options" where
  "lte_set_option flag value opts =
     (if flag = ''--role'' then Inr (opts\<lparr>o_role := value\<rparr>)
      else if flag = ''--bind'' then Inr (opts\<lparr>o_bind := value\<rparr>)
      else if flag = ''--mme'' then Inr (opts\<lparr>o_peer := value\<rparr>)
      else Inl (UnrecognizedArgument flag))"

fun lte_read_options :: "string list \<Rightarrow> Options \<Rightarrow> ArgError + Options" where
  "lte_read_options [] opts = Inr opts"
| "lte_read_options [flag] opts = bind_res (lte_set_option flag None opts) (\<lambda>_. Inl (NeedsValue flag))"
| "lte_read_options (flag # value # rest) opts =
     bind_res (lte_set_option flag (Some value) opts) (lte_read_options rest)"

definition lte_parse_args :: "(string \<Rightarrow> Addr option) \<Rightarrow> string list \<Rightarrow> ArgError + LteRole" where
  "lte_parse_args v6 args =
     bind_res (lte_read_options args no_options) (\<lambda>opts.
       case o_role opts of
         None \<Rightarrow> Inr LteBoth
       | Some role \<Rightarrow>
           if role = ''both'' then Inr LteBoth
           else if role = ''mme'' then
             bind_res (parse_addr v6 ''--bind'' (case o_bind opts of None \<Rightarrow> MME_BIND_ADDR | Some s \<Rightarrow> s))
               (\<lambda>bind. Inr (LteRoleMme bind))
           else if role = ''ue'' then
             bind_res (ok_or (o_bind opts) (RequiresOption ''ue'' ''--bind'')) (\<lambda>s.
             bind_res (parse_addr v6 ''--bind'' s) (\<lambda>bind.
             bind_res (ok_or (o_peer opts) (RequiresOption ''ue'' ''--mme'')) (\<lambda>s.
             bind_res (parse_addr v6 ''--mme'' s) (\<lambda>mme. Inr (LteRoleUe bind mme)))))
           else Inl (UnknownRole role))"

section \<open>Printing, and reading it back\<close>

fun dec_string :: "nat \<Rightarrow> string" where
  "dec_string n = (if n < 10 then [char_of (48 + n)] else dec_string (n div 10) @ [char_of (48 + n mod 10)])"

declare dec_string.simps [simp del]

definition addr_string :: "bytes \<Rightarrow> u16 \<Rightarrow> string" where
  "addr_string ip port =
     dec_string (unat (ip ! 0)) @ ''.'' @ dec_string (unat (ip ! 1)) @ ''.'' @ dec_string (unat (ip ! 2)) @ ''.'' @
     dec_string (unat (ip ! 3)) @ '':'' @ dec_string (unat port)"

lemma digit_char: "k < 10 \<Longrightarrow> is_digit (char_of (48 + k))" "k < 10 \<Longrightarrow> digit_of (char_of (48 + k)) = k"
  by (simp_all add: is_digit_def digit_of_def)

lemma dec_string_digits: "list_all is_digit (dec_string n)" "dec_string n \<noteq> []"
  by (induction n rule: dec_string.induct; subst dec_string.simps; simp add: digit_char)+

lemma dec_value_snoc: "dec_value (ds @ [c]) = dec_value ds * 10 + digit_of c"
  by (simp add: dec_value_def)

lemma dec_value_dec_string: "dec_value (dec_string n) = n"
  by (induction n rule: dec_string.induct; subst dec_string.simps)
     (simp add: dec_value_snoc digit_char; simp add: dec_value_def digit_char)

lemma span_dec_string:
  assumes "rest = [] \<or> \<not> is_digit (hd rest)"
  shows "takeWhile is_digit (dec_string n @ rest) = dec_string n" "dropWhile is_digit (dec_string n @ rest) = rest"
proof -
  have r: "takeWhile is_digit rest = []" "dropWhile is_digit rest = rest" using assms by (cases rest; simp)+
  have d: "\<And>c. c \<in> set (dec_string n) \<Longrightarrow> is_digit c" using dec_string_digits(1) [of n] by (simp add: list_all_iff)
  show "takeWhile is_digit (dec_string n @ rest) = dec_string n" "dropWhile is_digit (dec_string n @ rest) = rest"
    using d r by (simp_all add: takeWhile_append2 dropWhile_append2)
qed

lemma dec_string_no_leading_zero: "0 < n \<Longrightarrow> hd (dec_string n) \<noteq> CHR ''0''"
proof (induction n rule: dec_string.induct)
  case (1 n)
  show ?case
  proof (cases "n < 10")
    case True
    then have "digit_of (hd (dec_string n)) = n" by (subst dec_string.simps) (simp add: digit_char)
    with 1(2) show ?thesis by (auto simp: digit_of_def)
  next
    case False
    then have "hd (dec_string n) = hd (dec_string (n div 10))"
      by (subst dec_string.simps) (simp add: dec_string_digits(2))
    with 1(1) False show ?thesis by simp
  qed
qed

lemma dec_string_short:
  "n < 10 \<Longrightarrow> length (dec_string n) = 1"
  "n < 256 \<Longrightarrow> length (dec_string n) \<le> 3"
  by (subst dec_string.simps, simp)
     (subst dec_string.simps, subst dec_string.simps, subst dec_string.simps, simp)

lemma read_octet_dec:
  assumes "rest = [] \<or> \<not> is_digit (hd rest)"
  shows "read_octet (dec_string (unat (b :: u8)) @ rest) = Some (b, rest)"
proof -
  have "unat b < 256" using unsigned_less [where 'a = nat and w = b] by simp
  then have "\<not> 255 < unat b" by linarith
  moreover have "hd (dec_string (unat b)) = CHR ''0'' \<Longrightarrow> length (dec_string (unat b)) = 1"
    using dec_string_no_leading_zero [of "unat b"] dec_string_short(1) [of "unat b"] by (cases "unat b = 0") auto
  ultimately show ?thesis
    using dec_string_short(2) [of "unat b", OF \<open>unat b < 256\<close>] dec_string_digits(2) [of "unat b"]
    by (auto simp: read_octet_def Let_def span_dec_string [OF assms] dec_value_dec_string simp del: One_nat_def)
qed

lemma read_port_dec: "read_port (dec_string (unat (p :: u16))) = Some (p, [])"
proof -
  have "unat p < 65536" using unsigned_less [where 'a = nat and w = p] by simp
  then have "\<not> 65535 < unat p" by linarith
  then show ?thesis
    unfolding read_port_def Let_def
      span_dec_string [of "[]", OF disjI1 [OF refl], of "unat p", unfolded append_Nil2] dec_value_dec_string
    using dec_string_digits(2) [of "unat p"] by simp
qed

lemma socket_addr_from_str_print:
  assumes "length ip = 4"
  shows "socket_addr_from_str v6 (addr_string ip port) = Some (V4 ip, port)"
proof -
  obtain a b c d where ip: "ip = [a, b, c, d]" using assms by (auto simp: numeral_eq_Suc length_Suc_conv)
  show ?thesis
    by (simp add: socket_addr_from_str_def read_socket_addr_v4_def addr_string_def ip read_octet_dec
        read_given_char_def read_port_dec is_digit_def)
qed

lemma u32_digits_value:
  "list_all is_digit ds \<Longrightarrow> foldl (\<lambda>n c. n * 10 + digit_of c) acc ds < 2 ^ 32 \<Longrightarrow>
   u32_digits ds acc = Inr (foldl (\<lambda>n c. n * 10 + digit_of c) acc ds)"
proof (induction ds arbitrary: acc)
  case (Cons c ds)
  have "acc \<le> foldl (\<lambda>n c. n * 10 + digit_of c) acc ds" for acc and ds :: string
  proof (induction ds arbitrary: acc)
    case (Cons c ds)
    have "acc \<le> acc * 10 + digit_of c" by simp
    also have "\<dots> \<le> foldl (\<lambda>n c. n * 10 + digit_of c) (acc * 10 + digit_of c) ds" by (rule Cons.IH)
    finally show ?case by simp
  qed simp
  from this [of "acc * 10 + digit_of c" ds] show ?case using Cons by simp
qed simp

lemma u32_from_str_print: "u32_from_str (dec_string (unat (n :: u32))) = Inr n"
proof -
  obtain c cs where c: "dec_string (unat n) = c # cs" using dec_string_digits(2) [of "unat n"] by (auto simp: neq_Nil_conv)
  have v: "u32_digits (dec_string (unat n)) 0 = Inr (unat n)"
    using u32_digits_value [OF dec_string_digits(1), of 0 "unat n"] unsigned_less [where 'a = nat and w = n] dec_value_dec_string [of "unat n"]
    by (simp add: dec_value_def)
  have "is_digit c" using dec_string_digits(1) [of "unat n"] c by simp
  then have "c \<noteq> CHR ''+''" "c \<noteq> CHR ''-''" by (auto simp: is_digit_def)
  with v c show ?thesis by (auto simp: u32_from_str_def split: list.split)
qed

text \<open>A command line for each role.\<close>

fun args_of :: "Role \<Rightarrow> string list" where
  "args_of (Both n) = [''--role'', ''both'', ''--n-ues'', dec_string (unat n)]"
| "args_of (RoleAmf (V4 ip, p) n) = [''--role'', ''amf'', ''--bind'', addr_string ip p, ''--n-ues'', dec_string (unat n)]"
| "args_of (RoleUe (V4 ip, p) (V4 ip', p') n) =
     [''--role'', ''ue'', ''--bind'', addr_string ip p, ''--amf'', addr_string ip' p', ''--n-ues'', dec_string (unat n)]"
| "args_of _ = []"

fun lte_args_of :: "LteRole \<Rightarrow> string list" where
  "lte_args_of LteBoth = [''--role'', ''both'']"
| "lte_args_of (LteRoleMme (V4 ip, p)) = [''--role'', ''mme'', ''--bind'', addr_string ip p]"
| "lte_args_of (LteRoleUe (V4 ip, p) (V4 ip', p')) =
     [''--role'', ''ue'', ''--bind'', addr_string ip p, ''--mme'', addr_string ip' p']"
| "lte_args_of _ = []"

fun addr_ok :: "Addr \<Rightarrow> bool" where
  "addr_ok (V4 ip, p) \<longleftrightarrow> length ip = 4"
| "addr_ok (V6 ip, p) \<longleftrightarrow> False"

fun role_ok :: "Role \<Rightarrow> bool" where
  "role_ok (Both n) \<longleftrightarrow> n \<noteq> 0"
| "role_ok (RoleAmf a n) \<longleftrightarrow> addr_ok a \<and> n \<noteq> 0"
| "role_ok (RoleUe a b n) \<longleftrightarrow> addr_ok a \<and> addr_ok b \<and> n \<noteq> 0"

fun lte_role_ok :: "LteRole \<Rightarrow> bool" where
  "lte_role_ok LteBoth \<longleftrightarrow> True"
| "lte_role_ok (LteRoleMme a) \<longleftrightarrow> addr_ok a"
| "lte_role_ok (LteRoleUe a b) \<longleftrightarrow> addr_ok a \<and> addr_ok b"

text \<open>
  Every role of both simulators can be asked for: the command line printed for it is parsed to
  it again, whatever the IPv6 parser does. And what \<open>parse_args\<close> accepts asks for at least one
  subscriber.
\<close>

theorem parse_args_roundtrip:
  assumes "role_ok r" "lte_role_ok q"
  shows "parse_args v6 (args_of r) = Inr r \<and> lte_parse_args v6 (lte_args_of q) = Inr q \<and>
    (\<forall>args r'. parse_args v6 args = Inr r' \<longrightarrow>
       (case r' of Both n \<Rightarrow> n \<noteq> 0 | RoleAmf _ n \<Rightarrow> n \<noteq> 0 | RoleUe _ _ n \<Rightarrow> n \<noteq> 0))"
proof (intro conjI allI impI)
  show "parse_args v6 (args_of r) = Inr r" using assms(1)
    by (cases r rule: args_of.cases)
      (auto simp: parse_args_def no_options_def set_option_def parse_n_ues_def u32_from_str_print parse_addr_def
        socket_addr_from_str_print)
  show "lte_parse_args v6 (lte_args_of q) = Inr q" using assms(2)
    by (cases q rule: lte_args_of.cases)
      (auto simp: lte_parse_args_def no_options_def lte_set_option_def parse_addr_def socket_addr_from_str_print)
next
  fix args r' assume "parse_args v6 args = Inr r'"
  then show "case r' of Both n \<Rightarrow> n \<noteq> 0 | RoleAmf _ n \<Rightarrow> n \<noteq> 0 | RoleUe _ _ n \<Rightarrow> n \<noteq> 0"
    by (auto simp: parse_args_def bind_res_def parse_n_ues_def split: sum.splits option.splits if_splits)
qed

theorem parse_args_roundtrip_witness:
  "parse_args (\<lambda>_. None) [''--role'', ''ue'', ''--bind'', ''10.97.0.2:0'', ''--amf'', ''10.97.0.1:38412'', ''--n-ues'', ''3''] =
     Inr (RoleUe (V4 [10, 97, 0, 2], 0) (V4 [10, 97, 0, 1], 38412) 3)"
  using parse_args_roundtrip [of "RoleUe (V4 [10, 97, 0, 2], 0) (V4 [10, 97, 0, 1], 38412) 3" LteBoth "\<lambda>_. None"]
  by (simp add: addr_string_def dec_string.simps char_of_def bit_Suc_0_iff)

end
