(* ===== verification/Node_Loop.thy ===== *)
theory Node_Loop
  imports Sctp_Link Sim_Args Lte_Sim
begin

text \<open>
  The core nodes behind their link: \<open>run_mme\<close> of \<open>crates/mme-sim/src/main.rs\<close> and \<open>run_amf\<close> of
  \<open>crates/midn-sim/src/main.rs\<close>, from the address they bind to the end of the link. Both provision their
  subscribers, bind the socket of the forwarder, wait for the association, then take one event of
  the link after the other: a message is a turn of the node,
  whose answers are sent; the loss of the link ends the loop. An input is an event with the random
  challenge available to that turn and the error a send fails with, if one does; the errors
  with which the socket cannot be bound and the association not accepted, if so, are arguments. The loop is one
  function over the turn of the node, and what it needs of a node is the interface \<open>serving_node\<close>.
\<close>

section \<open>The loop\<close>

datatype 'h RunError = RunHex 'h | RunIo string | RunProto ProtoError | RunLink TransportError

type_synonym link_input = "bytes \<times> LinkEvent \<times> TransportError option"

fun link_loop ::
    "(bytes \<Rightarrow> 'st \<Rightarrow> bytes \<Rightarrow> (bytes list \<times> 'st) result option) \<Rightarrow> 'st \<Rightarrow> link_input list \<Rightarrow>
     ('h RunError + bytes list list \<times> 'st) option" where
  "link_loop turn st [] = Some (Inr ([], st))"
| "link_loop turn st ((rand, Connected, fail) # inputs) = link_loop turn st inputs"
| "link_loop turn st ((rand, Lost reason, fail) # inputs) = Some (Inr ([], st))"
| "link_loop turn st ((rand, Message pdu, fail) # inputs) =
     (case turn rand st pdu of
        None \<Rightarrow> None
      | Some (Inl e) \<Rightarrow> Some (Inl (RunProto e))
      | Some (Inr (outs, st)) \<Rightarrow>
          (case fail of
             Some e \<Rightarrow>
               if outs \<noteq> [] then Some (Inl (RunLink e))
               else map_option (map_sum id (\<lambda>(rest, st). (outs # rest, st))) (link_loop turn st inputs)
           | None \<Rightarrow> map_option (map_sum id (\<lambda>(rest, st). (outs # rest, st))) (link_loop turn st inputs)))"

section \<open>The nodes\<close>

definition TEST_K :: string where "TEST_K = ''465b5ce8b199b49faa5f0a2ee238a6bc''"
definition TEST_OPC :: string where "TEST_OPC = ''cd63cb71954a9f4e48a5994e37a02baf''"

text \<open>
  The start behind the provisioning: the forwarder's socket is bound and the association accepted, each
  with \<open>?\<close>, and then the loop begins.
\<close>

definition serve_link ::
    "(bytes \<Rightarrow> 'st \<Rightarrow> bytes \<Rightarrow> (bytes list \<times> 'st) result option) \<Rightarrow> string option \<Rightarrow> TransportError option \<Rightarrow> 'st \<Rightarrow>
     link_input list \<Rightarrow> ('h RunError + bytes list list \<times> 'st) option" where
  "serve_link turn fwd_fail accept_fail st inputs =
     (case fwd_fail of
        Some e \<Rightarrow> Some (Inl (RunIo e))
      | None \<Rightarrow>
          (case accept_fail of
             Some e \<Rightarrow> Some (Inl (RunLink e))
           | None \<Rightarrow> link_loop turn st inputs))"

definition run_mme ::
    "(string \<Rightarrow> nat \<Rightarrow> 'h + bytes) \<Rightarrow> crypto \<Rightarrow> aya \<Rightarrow> Addr \<Rightarrow> string option \<Rightarrow> TransportError option \<Rightarrow>
     link_input list \<Rightarrow> ('h RunError + bytes list list \<times> Mme \<times> SessionManager) option" where
  "run_mme hexd cr ay bind_addr fwd_fail accept_fail inputs =
     Option.bind (ipv4_octets bind_addr) (\<lambda>upf_ip.
       let mme = with_phase3 Mme_new upf_ip in
       case provision_hex hexd (m_hss mme) LTE_TEST_IMSI TEST_K TEST_OPC of
         (Inl e, _) \<Rightarrow> Some (Inl (RunHex e))
       | (Inr _, hss) \<Rightarrow> serve_link (node_turn cr ay) fwd_fail accept_fail (mme\<lparr>m_hss := hss\<rparr>, SessionManager_new) inputs)"

text \<open>The subscribers of an AMF that serves \<open>n_ues\<close> of them.\<close>

fun provision_ues :: "(string \<Rightarrow> nat \<Rightarrow> 'h + bytes) \<Rightarrow> Hss \<Rightarrow> nat list \<Rightarrow> 'h + Hss" where
  "provision_ues hexd hss [] = Inr hss"
| "provision_ues hexd hss (i # is) =
     (case provision_hex hexd hss (TEST_IMSI + of_nat i) TEST_K TEST_OPC of
        (Inl e, _) \<Rightarrow> Inl e
      | (Inr _, hss) \<Rightarrow> provision_ues hexd hss is)"

definition run_amf ::
    "(string \<Rightarrow> nat \<Rightarrow> 'h + bytes) \<Rightarrow> crypto \<Rightarrow> aya \<Rightarrow> Addr \<Rightarrow> u32 \<Rightarrow> string option \<Rightarrow> TransportError option \<Rightarrow>
     link_input list \<Rightarrow> ('h RunError + bytes list list \<times> Amf \<times> SessionManager) option" where
  "run_amf hexd cr ay bind_addr n_ues fwd_fail accept_fail inputs =
     Option.bind (ipv4_octets bind_addr) (\<lambda>upf_ip.
       let amf = with_phase_b Amf_new upf_ip in
       case provision_ues hexd (a_hss amf) [0..<unat n_ues] of
         Inl e \<Rightarrow> Some (Inl (RunHex e))
       | Inr hss \<Rightarrow> serve_link (amf_node_turn cr ay) fwd_fail accept_fail (amf\<lparr>a_hss := hss\<rparr>, SessionManager_new) inputs)"

section \<open>What the loop does\<close>

text \<open>The messages the loop handles: those before the first loss of the link.\<close>

fun messages_of :: "link_input list \<Rightarrow> (bytes \<times> bytes) list" where
  "messages_of [] = []"
| "messages_of ((rand, Connected, fail) # inputs) = messages_of inputs"
| "messages_of ((rand, Lost reason, fail) # inputs) = []"
| "messages_of ((rand, Message pdu, fail) # inputs) = (rand, pdu) # messages_of inputs"

fun turns ::
    "(bytes \<Rightarrow> 'st \<Rightarrow> bytes \<Rightarrow> (bytes list \<times> 'st) result option) \<Rightarrow> 'st \<Rightarrow> (bytes \<times> bytes) list \<Rightarrow>
     (bytes list list \<times> 'st) option" where
  "turns turn st [] = Some ([], st)"
| "turns turn st ((rand, pdu) # inputs) =
     (case turn rand st pdu of
        Some (Inr (outs, st)) \<Rightarrow> map_option (\<lambda>(rest, st). (outs # rest, st)) (turns turn st inputs)
      | _ \<Rightarrow> None)"

locale serving_node =
  fixes turn :: "bytes \<Rightarrow> 'st \<Rightarrow> bytes \<Rightarrow> (bytes list \<times> 'st) result option"
    and inv :: "nat \<Rightarrow> 'st \<Rightarrow> bool"
    and limit :: nat
  assumes turn_ok: "inv n st \<Longrightarrow> n < limit \<Longrightarrow> length rand = 16 \<Longrightarrow>
    \<exists>outs st'. turn rand st pdu = Some (Inr (outs, st')) \<and> inv (Suc n) st'"
begin

lemma loop_total:
  "inv n st \<Longrightarrow> n + length (messages_of inputs) \<le> limit \<Longrightarrow> list_all (\<lambda>(rand, _). length rand = 16) inputs \<Longrightarrow>
   \<exists>r :: 'h RunError + _. link_loop turn st inputs = Some r"
proof (induction inputs arbitrary: n st)
  case (Cons x inputs)
  obtain rand ev fail where x: "x = (rand, ev, fail)" by (cases x)
  show ?case
  proof (cases ev)
    case (Message pdu)
    obtain outs st' where t: "turn rand st pdu = Some (Inr (outs, st'))" "inv (Suc n) st'"
      using turn_ok [of n st rand pdu] Cons.prems x Message by auto
    obtain r :: "'h RunError + bytes list list \<times> 'st" where "link_loop turn st' inputs = Some r" using Cons.IH [OF t(2)] Cons.prems x Message by auto
    with t x Message show ?thesis by (auto split: option.split)
  qed (use Cons x in auto)
qed simp

lemma loop_serves:
  "inv n st \<Longrightarrow> n + length (messages_of inputs) \<le> limit \<Longrightarrow>
   list_all (\<lambda>(rand, _, fail). length rand = 16 \<and> fail = None) inputs \<Longrightarrow>
   \<exists>outs st'. (link_loop turn st inputs :: ('h RunError + _) option) = Some (Inr (outs, st')) \<and> turns turn st (messages_of inputs) = Some (outs, st') \<and>
     inv (n + length (messages_of inputs)) st'"
proof (induction inputs arbitrary: n st)
  case (Cons x inputs)
  obtain rand ev where x: "x = (rand, ev, None)" using Cons.prems(3) by (cases x) auto
  show ?case
  proof (cases ev)
    case (Message pdu)
    obtain outs st1 where t: "turn rand st pdu = Some (Inr (outs, st1))" "inv (Suc n) st1"
      using turn_ok [of n st rand pdu] Cons.prems x Message by auto
    obtain rest st' where "(link_loop turn st1 inputs :: ('h RunError + _) option) = Some (Inr (rest, st'))"
      "turns turn st1 (messages_of inputs) = Some (rest, st')" "inv (Suc n + length (messages_of inputs)) st'"
      using Cons.IH [OF t(2)] Cons.prems x Message by auto
    with t x Message show ?thesis by simp
  qed (use Cons x in auto)
qed simp

end

text \<open>The two nodes serve; the reference run of a node is its row of turns.\<close>

definition primitives_ok :: "crypto \<Rightarrow> bool" where
  "primitives_ok cr \<longleftrightarrow> ctr_stream cr \<and> hmac_len cr \<and> aes_len cr"

interpretation mme_node: serving_node "node_turn cr ay" "\<lambda>n st. primitives_ok cr \<and> node_inv n st"
  "4294967296 - 0x10000 - 1" for cr ay
proof
  fix n :: nat and st and rand pdu :: bytes
  assume "primitives_ok cr \<and> node_inv n st" "n < 4294967296 - 0x10000 - 1" "length rand = 16"
  then show "\<exists>outs st'. node_turn cr ay rand st pdu = Some (Inr (outs, st')) \<and> primitives_ok cr \<and> node_inv (Suc n) st'"
    using node_turn_ok [of cr n st rand ay pdu] by (simp add: primitives_ok_def)
qed

interpretation amf_node: serving_node "amf_node_turn cr ay" "\<lambda>n st. primitives_ok cr \<and> amf_node_inv n st"
  "4294967296 - 0x20000 - 1" for cr ay
proof
  fix n :: nat and st and rand pdu :: bytes
  assume "primitives_ok cr \<and> amf_node_inv n st" "n < 4294967296 - 0x20000 - 1" "length rand = 16"
  then show "\<exists>outs st'. amf_node_turn cr ay rand st pdu = Some (Inr (outs, st')) \<and> primitives_ok cr \<and> amf_node_inv (Suc n) st'"
    using amf_node_turn_ok [of cr n st rand ay pdu] by (simp add: primitives_ok_def amf_room_def)
qed

lemma turns_node_run: "turns (node_turn cr ay) st inputs = node_run cr ay st inputs"
  by (induction inputs arbitrary: st) (auto split: option.splits sum.splits)

lemma turns_amf_node_run: "turns (amf_node_turn cr ay) st inputs = amf_node_run cr ay st inputs"
  by (induction inputs arbitrary: st) (auto split: option.splits sum.splits)

lemma provision_ues_wf:
  assumes "hexd TEST_K 16 = Inr k" "hexd TEST_OPC 16 = Inr opc" "length k = 16" "length opc = 16"
  shows "hss_wf hss \<Longrightarrow> \<exists>hss'. provision_ues hexd hss is = Inr hss' \<and> hss_wf hss' \<and>
    (\<forall>i \<in> set is. hss' (TEST_IMSI + of_nat i) \<noteq> None)"
proof (induction "is" arbitrary: hss rule: rev_induct)
  case (snoc i "is")
  have app: "provision_ues hexd hss (xs @ ys) = bind_res (provision_ues hexd hss xs) (\<lambda>h. provision_ues hexd h ys)" for hss xs ys
    by (induction xs arbitrary: hss) (auto simp: bind_res_def split: sum.split prod.split)
  from snoc obtain h where h: "provision_ues hexd hss is = Inr h" "hss_wf h"
    "\<forall>i \<in> set is. h (TEST_IMSI + of_nat i) \<noteq> None" by blast
  with assms show ?case
    by (auto simp: app provision_hex_def AuthKey_from_hex_def OpCode_from_hex_def hss_wf_provision)
      (auto simp: provision_def)
qed simp

section \<open>Properties\<close>

abbreviation mme_start :: "Hss \<Rightarrow> bytes \<Rightarrow> Mme \<times> SessionManager" where
  "mme_start hss ip \<equiv> (Mme_new\<lparr>m_phase3_upf := Some ip, m_hss := hss\<rparr>, SessionManager_new)"

abbreviation amf_start :: "Hss \<Rightarrow> bytes \<Rightarrow> Amf \<times> SessionManager" where
  "amf_start hss ip \<equiv> (Amf_new\<lparr>a_phase_b_upf := Some ip, a_hss := hss\<rparr>, SessionManager_new)"

lemma run_mme_loop:
  assumes "hexd TEST_K 16 = Inr k" "hexd TEST_OPC 16 = Inr opc"
  shows "run_mme hexd cr ay (V4 ip, port) fwd_fail accept_fail inputs =
    serve_link (node_turn cr ay) fwd_fail accept_fail (mme_start (provision Hss_new LTE_TEST_IMSI k opc) ip) inputs"
  using assms by (simp add: run_mme_def ipv4_octets_def with_phase3_def provision_hex_def AuthKey_from_hex_def
      OpCode_from_hex_def Mme_new_def)

text \<open>
  C9. The core nodes serve until their link ends. Started on an IPv4 address, with the test keys
  decoded, each of them handles any sequence of link events below the limits of its counters without
  a panic. A socket that cannot be bound, or an association that is not accepted, ends it with that
  error. Otherwise, when no send fails, it ends without an error, and what it answered and the state it
  ends in are those of the reference run over the messages that came before the first loss of the
  link; the AMF knows all its subscribers.
\<close>

theorem core_nodes_serve:
  assumes hex: "hexd TEST_K 16 = Inr k" "hexd TEST_OPC 16 = Inr opc" "length k = 16" "length opc = 16"
    and cr: "ctr_stream cr" "hmac_len cr" "aes_len cr" and ip: "length ip = 4"
    and n: "length (messages_of inputs) < 4294967296 - 0x20000" and rand: "list_all (\<lambda>(rand, _). length rand = 16) inputs"
  shows "run_mme hexd cr ay (V4 ip, port) fwd_fail accept_fail inputs \<noteq> None \<and>
    run_amf hexd cr ay (V4 ip, port) n_ues fwd_fail accept_fail inputs \<noteq> None \<and>
    (\<forall>e. fwd_fail = Some e \<longrightarrow> run_mme hexd cr ay (V4 ip, port) fwd_fail accept_fail inputs = Some (Inl (RunIo e)) \<and>
       run_amf hexd cr ay (V4 ip, port) n_ues fwd_fail accept_fail inputs = Some (Inl (RunIo e))) \<and>
    (\<forall>e. fwd_fail = None \<and> accept_fail = Some e \<longrightarrow>
       run_mme hexd cr ay (V4 ip, port) fwd_fail accept_fail inputs = Some (Inl (RunLink e)) \<and>
       run_amf hexd cr ay (V4 ip, port) n_ues fwd_fail accept_fail inputs = Some (Inl (RunLink e))) \<and>
    (fwd_fail = None \<and> accept_fail = None \<and> list_all (\<lambda>(_, _, fail). fail = None) inputs \<longrightarrow>
      (\<exists>outs st. run_mme hexd cr ay (V4 ip, port) fwd_fail accept_fail inputs = Some (Inr (outs, st)) \<and>
        node_run cr ay (mme_start (provision Hss_new LTE_TEST_IMSI k opc) ip) (messages_of inputs) = Some (outs, st)) \<and>
      (\<exists>hss outs st. run_amf hexd cr ay (V4 ip, port) n_ues fwd_fail accept_fail inputs = Some (Inr (outs, st)) \<and>
        amf_node_run cr ay (amf_start hss ip) (messages_of inputs) = Some (outs, st) \<and>
        (\<forall>i < unat n_ues. hss (TEST_IMSI + of_nat i) \<noteq> None)))"
proof -
  let ?hss = "provision Hss_new LTE_TEST_IMSI k opc"
  obtain hss where hss: "provision_ues hexd Hss_new [0..<unat n_ues] = Inr hss" "hss_wf hss"
    "\<forall>i < unat n_ues. hss (TEST_IMSI + of_nat i) \<noteq> None"
    using provision_ues_wf [where hexd = hexd, OF hex, of Hss_new "[0..<unat n_ues]"] by auto
  have m: "run_mme hexd cr ay (V4 ip, port) fwd_fail accept_fail inputs =
      serve_link (node_turn cr ay) fwd_fail accept_fail (mme_start ?hss ip) inputs"
    by (rule run_mme_loop [where hexd = hexd, OF hex(1,2)])
  have a: "run_amf hexd cr ay (V4 ip, port) n_ues fwd_fail accept_fail inputs =
      serve_link (amf_node_turn cr ay) fwd_fail accept_fail (amf_start hss ip) inputs"
    using hss(1) by (simp add: run_amf_def ipv4_octets_def with_phase_b_def Amf_new_def)
  have im: "primitives_ok cr \<and> node_inv 0 (mme_start ?hss ip)"
    using node_inv_start [OF hss_wf_provision [OF hss_wf_new hex(3,4)] ip] cr by (simp add: primitives_ok_def)
  have ia: "primitives_ok cr \<and> amf_node_inv 0 (amf_start hss ip)"
    using amf_node_inv_start [OF hss(2) ip] cr by (simp add: primitives_ok_def)
  have n': "0 + length (messages_of inputs) \<le> 4294967296 - 0x10000 - 1"
    "0 + length (messages_of inputs) \<le> 4294967296 - 0x20000 - 1" using n by simp_all
  show ?thesis
  proof (intro conjI impI allI)
    show "run_mme hexd cr ay (V4 ip, port) fwd_fail accept_fail inputs \<noteq> None"
      using mme_node.loop_total [OF im n'(1) rand, where ay = ay] by (auto simp: m serve_link_def split: option.split)
    show "run_amf hexd cr ay (V4 ip, port) n_ues fwd_fail accept_fail inputs \<noteq> None"
      using amf_node.loop_total [OF ia n'(2) rand, where ay = ay] by (auto simp: a serve_link_def split: option.split)
  next
    assume g: "fwd_fail = None \<and> accept_fail = None \<and> list_all (\<lambda>(_, _, fail). fail = None) inputs"
    then have r: "list_all (\<lambda>(rand, _, fail). length rand = 16 \<and> fail = None) inputs"
      using rand by (auto simp: list_all_iff)
    show "\<exists>outs st. run_mme hexd cr ay (V4 ip, port) fwd_fail accept_fail inputs = Some (Inr (outs, st)) \<and>
        node_run cr ay (mme_start ?hss ip) (messages_of inputs) = Some (outs, st)"
      using mme_node.loop_serves [OF im n'(1) r, where ay = ay] g unfolding m turns_node_run serve_link_def by auto
    show "\<exists>hss outs st. run_amf hexd cr ay (V4 ip, port) n_ues fwd_fail accept_fail inputs = Some (Inr (outs, st)) \<and>
        amf_node_run cr ay (amf_start hss ip) (messages_of inputs) = Some (outs, st) \<and>
        (\<forall>i < unat n_ues. hss (TEST_IMSI + of_nat i) \<noteq> None)"
      using amf_node.loop_serves [OF ia n'(2) r, where ay = ay] hss(3) g
      unfolding a turns_amf_node_run serve_link_def by auto
  qed (unfold m a serve_link_def, simp_all)
qed

theorem core_nodes_serve_witness:
  "\<exists>outs st. run_mme (\<lambda>s n. Inr (replicate n 1) :: unit + bytes) sample_crypto sample_aya (V4 [127, 0, 0, 1], 36412) None None
      [(replicate 16 7, Connected, None), (replicate 16 7, Message [0, 12, 64, 0], None), (replicate 16 7, Lost ''gone'', None)] =
    Some (Inr (outs, st))"
  using core_nodes_serve [where hexd = "\<lambda>s n. Inr (replicate n 1) :: unit + bytes" and k = "replicate 16 1" and
      opc = "replicate 16 1" and cr = sample_crypto and ip = "[127, 0, 0, 1]" and ay = sample_aya and port = 36412 and n_ues = 1 and
      fwd_fail = None and accept_fail = None and
      inputs = "[(replicate 16 7, Connected, None), (replicate 16 7, Message [0, 12, 64, 0], None),
        (replicate 16 7, Lost ''gone'', None)]"] sample_crypto_ok(1,3,4)
  by (simp del: link_loop.simps) blast

end
