(* ===== verification/Gnb.thy ===== *)
theory Gnb
  imports Sctp_Link Sim_Args Ue_Sim
begin

text \<open>
  The gNodeB side of \<open>crates/midn-sim/src/main.rs\<close>: \<open>run_gnb\<close>, which shares one link and one GTP-U
  socket among its subscribers. It gives each of them its identifiers, routes what comes in by them
  and joins the results. A channel to a subscriber's task is its queue of messages, under the index of
  the subscriber.
\<close>

section \<open>Set-up\<close>

record Gnb =
  gnb_ues :: "UeState list"
  ngap_routes :: "u32 \<rightharpoonup> nat"
  dl_routes :: "u32 \<rightharpoonup> nat"

text \<open>
  An overflow of the identifiers is a panic, as in a build with overflow checks; a build without them
  would wrap instead. The bases leave room for more than a billion subscribers.
\<close>

definition u32_add :: "u32 \<Rightarrow> nat \<Rightarrow> u32 option" where
  "u32_add base i = (if unat base + i < 2 ^ 32 then Some (base + of_nat i) else None)"

fun gnb_spawn :: "bytes \<Rightarrow> nat list \<Rightarrow> Gnb \<Rightarrow> Gnb option" where
  "gnb_spawn my_ip [] g = Some g"
| "gnb_spawn my_ip (i # is) g =
     Option.bind (u32_add RAN_UE_NGAP_ID_BASE i) (\<lambda>ran_ue_ngap_id.
     Option.bind (u32_add MOCK_DL_TEID_BASE i) (\<lambda>dl_teid.
       gnb_spawn my_ip is
         (g\<lparr>gnb_ues := gnb_ues g @ [\<lparr>ue_ran_id = ran_ue_ngap_id, ue_dl_teid = dl_teid,
              ue_imsi = TEST_IMSI + of_nat i, ue_my_ip = my_ip, ue_amf_id = None, ue_kamf = None\<rparr>],
            ngap_routes := (ngap_routes g)(ran_ue_ngap_id \<mapsto> i),
            dl_routes := (dl_routes g)(dl_teid \<mapsto> i)\<rparr>)))"

text \<open>The first event of the link decides whether the set-up goes on.\<close>

datatype GnbError = GnbLink string | GnbTask nat UeError | GnbPanic nat string

definition run_gnb_start :: "Addr \<Rightarrow> u32 \<Rightarrow> LinkEvent option \<Rightarrow> (GnbError + Gnb) option" where
  "run_gnb_start bind_addr n_ues first_event =
     Option.bind (ipv4_octets bind_addr) (\<lambda>my_ip.
       case first_event of
         Some Connected \<Rightarrow>
           map_option Inr (gnb_spawn my_ip [0..<unat n_ues]
             \<lparr>gnb_ues = [], ngap_routes = Map.empty, dl_routes = Map.empty\<rparr>)
       | Some (Lost reason) \<Rightarrow> Some (Inl (GnbLink (''link lost before connecting: '' @ reason)))
       | Some (Message _) \<Rightarrow> Some (Inl (GnbLink ''unexpected event before Connected''))
       | None \<Rightarrow> Some (Inl (GnbLink ''link closed before connecting'')))"

section \<open>The dispatcher\<close>

text \<open>
  A turn of the dispatcher takes an event of the link or a PDU of one of the subscribers, which it
  sends; a failed send is only printed.
\<close>

datatype GnbInput = FromLink LinkEvent | FromUe bytes

record Dispatch =
  dp_queues :: "nat \<Rightarrow> NgapMessage list"
  dp_sent :: "bytes list"

definition gnb_deliver :: "(u32 \<rightharpoonup> nat) \<Rightarrow> bytes \<Rightarrow> Dispatch \<Rightarrow> Dispatch" where
  "gnb_deliver routes pdu dp =
     (case decode_ngap_pdu pdu of
        Inl _ \<Rightarrow> dp
      | Inr msg \<Rightarrow>
          (case ran_ue_ngap_id_of msg of
             Some rid \<Rightarrow>
               (case routes rid of
                  Some k \<Rightarrow> dp\<lparr>dp_queues := (dp_queues dp)(k := dp_queues dp k @ [msg])\<rparr>
                | None \<Rightarrow> dp)
           | None \<Rightarrow> dp))"

fun gnb_dispatch :: "(u32 \<rightharpoonup> nat) \<Rightarrow> GnbInput list \<Rightarrow> Dispatch \<Rightarrow> Dispatch" where
  "gnb_dispatch routes [] dp = dp"
| "gnb_dispatch routes (FromLink (Message pdu) # inputs) dp = gnb_dispatch routes inputs (gnb_deliver routes pdu dp)"
| "gnb_dispatch routes (FromLink (Lost reason) # inputs) dp = dp"
| "gnb_dispatch routes (FromLink Connected # inputs) dp = gnb_dispatch routes inputs dp"
| "gnb_dispatch routes (FromUe pdu # inputs) dp = gnb_dispatch routes inputs (dp\<lparr>dp_sent := dp_sent dp @ [pdu]\<rparr>)"

section \<open>The results of the tasks\<close>

datatype TaskResult = TaskOk | TaskErr UeError | TaskPanicked string

fun gnb_join :: "nat \<Rightarrow> TaskResult list \<Rightarrow> GnbError option \<Rightarrow> GnbError + unit" where
  "gnb_join i [] first_err = (case first_err of Some e \<Rightarrow> Inl e | None \<Rightarrow> Inr ())"
| "gnb_join i (TaskOk # rs) first_err = gnb_join (Suc i) rs first_err"
| "gnb_join i (TaskErr e # rs) first_err =
     gnb_join (Suc i) rs (case first_err of None \<Rightarrow> Some (GnbTask (Suc i) e) | Some f \<Rightarrow> Some f)"
| "gnb_join i (TaskPanicked e # rs) first_err =
     gnb_join (Suc i) rs (case first_err of None \<Rightarrow> Some (GnbPanic (Suc i) e) | Some f \<Rightarrow> Some f)"

lemma gnb_join_ok: "gnb_join i rs first_err = Inr () \<longleftrightarrow> first_err = None \<and> (\<forall>r \<in> set rs. r = TaskOk)"
  by (induction i rs first_err rule: gnb_join.induct) (auto split: option.splits)

section \<open>Routing\<close>

text \<open>The identifiers of the subscriber with index \<open>k\<close>.\<close>

abbreviation gnb_ue :: "bytes \<Rightarrow> nat \<Rightarrow> UeState" where
  "gnb_ue my_ip k \<equiv> \<lparr>ue_ran_id = RAN_UE_NGAP_ID_BASE + of_nat k, ue_dl_teid = MOCK_DL_TEID_BASE + of_nat k,
     ue_imsi = TEST_IMSI + of_nat k, ue_my_ip = my_ip, ue_amf_id = None, ue_kamf = None\<rparr>"

lemma u32_add_inj:
  assumes "u32_add base i = Some a" "u32_add base j = Some a"
  shows "i = j"
proof -
  have add: "unat (base + of_nat k) = unat base + k" if "unat base + k < 2 ^ 32" for k
    using that by (simp add: unat_word_ariths unat_of_nat)
  have "unat a = unat base + i" using assms(1) add [of i] by (auto simp: u32_add_def split: if_splits)
  moreover have "unat a = unat base + j" using assms(2) add [of j] by (auto simp: u32_add_def split: if_splits)
  ultimately show ?thesis by simp
qed

lemma gnb_spawn_append: "gnb_spawn my_ip (xs @ ys) g = Option.bind (gnb_spawn my_ip xs g) (gnb_spawn my_ip ys)"
  by (induction my_ip xs g rule: gnb_spawn.induct) (auto simp: Let_def split: bind_split)

lemma gnb_spawn_upto:
  assumes "gnb_spawn my_ip [0..<n] \<lparr>gnb_ues = [], ngap_routes = Map.empty, dl_routes = Map.empty\<rparr> = Some g"
  shows "gnb_ues g = map (gnb_ue my_ip) [0..<n] \<and>
    (\<forall>r k. ngap_routes g r = Some k \<longleftrightarrow> k < n \<and> u32_add RAN_UE_NGAP_ID_BASE k = Some r) \<and>
    (\<forall>r k. dl_routes g r = Some k \<longleftrightarrow> k < n \<and> u32_add MOCK_DL_TEID_BASE k = Some r) \<and>
    (\<forall>k < n. u32_add RAN_UE_NGAP_ID_BASE k = Some (ue_ran_id (gnb_ue my_ip k)) \<and>
       u32_add MOCK_DL_TEID_BASE k = Some (ue_dl_teid (gnb_ue my_ip k)))"
  using assms
proof (induction n arbitrary: g)
  case (Suc n)
  obtain g' r d where g': "gnb_spawn my_ip [0..<n] \<lparr>gnb_ues = [], ngap_routes = Map.empty, dl_routes = Map.empty\<rparr> = Some g'"
    "u32_add RAN_UE_NGAP_ID_BASE n = Some r" "u32_add MOCK_DL_TEID_BASE n = Some d"
    "g = g'\<lparr>gnb_ues := gnb_ues g' @ [\<lparr>ue_ran_id = r, ue_dl_teid = d,
              ue_imsi = TEST_IMSI + of_nat n, ue_my_ip = my_ip, ue_amf_id = None, ue_kamf = None\<rparr>],
            ngap_routes := (ngap_routes g')(r \<mapsto> n), dl_routes := (dl_routes g')(d \<mapsto> n)\<rparr>"
    using Suc.prems by (auto simp: gnb_spawn_append bind_eq_Some_conv)
  have rd: "r = RAN_UE_NGAP_ID_BASE + of_nat n" "d = MOCK_DL_TEID_BASE + of_nat n"
    using g'(2,3) by (auto simp: u32_add_def split: if_splits)
  note IH = Suc.IH [OF g'(1)]
  have "ngap_routes g x = Some k \<longleftrightarrow> k < Suc n \<and> u32_add RAN_UE_NGAP_ID_BASE k = Some x" for x k
    using IH g'(2,4) u32_add_inj [of RAN_UE_NGAP_ID_BASE] by (auto simp: less_Suc_eq)
  moreover have "dl_routes g x = Some k \<longleftrightarrow> k < Suc n \<and> u32_add MOCK_DL_TEID_BASE k = Some x" for x k
    using IH g'(3,4) u32_add_inj [of MOCK_DL_TEID_BASE] by (auto simp: less_Suc_eq)
  ultimately show ?case using IH g'(2-4) rd by (auto simp: less_Suc_eq)
qed simp

text \<open>What the link delivered, and what the subscribers sent, before the link was lost.\<close>

fun gnb_before_loss :: "GnbInput list \<Rightarrow> GnbInput list" where
  "gnb_before_loss [] = []"
| "gnb_before_loss (FromLink (Lost reason) # inputs) = []"
| "gnb_before_loss (x # inputs) = x # gnb_before_loss inputs"

definition gnb_received :: "GnbInput list \<Rightarrow> NgapMessage list" where
  "gnb_received inputs = concat (map (\<lambda>x. case x of
     FromLink (Message pdu) \<Rightarrow> (case decode_ngap_pdu pdu of Inr msg \<Rightarrow> [msg] | Inl _ \<Rightarrow> []) | _ \<Rightarrow> []) inputs)"

definition gnb_outgoing :: "GnbInput list \<Rightarrow> bytes list" where
  "gnb_outgoing inputs = concat (map (\<lambda>x. case x of FromUe pdu \<Rightarrow> [pdu] | _ \<Rightarrow> []) inputs)"

lemma gnb_dispatch_queues:
  "dp_queues (gnb_dispatch routes inputs dp) k =
     dp_queues dp k @ filter (\<lambda>m. Option.bind (ran_ue_ngap_id_of m) routes = Some k) (gnb_received (gnb_before_loss inputs)) \<and>
   dp_sent (gnb_dispatch routes inputs dp) = dp_sent dp @ gnb_outgoing (gnb_before_loss inputs)"
  by (induction routes inputs dp rule: gnb_dispatch.induct)
     (auto simp: gnb_received_def gnb_outgoing_def gnb_deliver_def split: sum.split option.split)

text \<open>
  C23. The subscribers that share a link do not get each other's messages. Once the gNodeB is set up
  for \<open>n_ues\<close> subscribers, the task of each of them is given exactly the decodable messages that
  carry its identifier, in the order in which they came in before the link was lost, and there are no
  other queues; so the check of the task for a wrongly routed message never fires. The link is given
  the PDUs of all tasks in order, and a downlink packet goes to the one subscriber whose tunnel it
  came through.
\<close>

theorem gnb_routes_in_order:
  assumes "run_gnb_start bind_addr n_ues (Some Connected) = Some (Inr g)"
  shows "length (gnb_ues g) = unat n_ues \<and>
    (let dp = gnb_dispatch (ngap_routes g) inputs \<lparr>dp_queues = (\<lambda>_. []), dp_sent = []\<rparr>;
         received = gnb_received (gnb_before_loss inputs)
     in (\<forall>k. dp_queues dp k =
           (if k < unat n_ues then filter (\<lambda>m. ran_ue_ngap_id_of m = Some (ue_ran_id (gnb_ues g ! k))) received else [])) \<and>
        dp_sent dp = gnb_outgoing (gnb_before_loss inputs)) \<and>
    (\<forall>dgram k p. gtp_demux (dl_routes g) dgram = Some (k, p) \<longleftrightarrow>
       k < unat n_ues \<and> (\<exists>h. GtpuHeader_parse (take 512 dgram) = Some (h, p) \<and> teid h = ue_dl_teid (gnb_ues g ! k)))"
proof -
  obtain ip where g: "gnb_spawn ip [0..<unat n_ues] \<lparr>gnb_ues = [], ngap_routes = Map.empty, dl_routes = Map.empty\<rparr> = Some g"
    using assms by (auto simp: run_gnb_start_def bind_eq_Some_conv)
  note u = gnb_spawn_upto [OF g]
  have ues: "gnb_ues g ! k = gnb_ue ip k" if "k < unat n_ues" for k using u that by simp
  have r: "ngap_routes g x = Some k \<longleftrightarrow> k < unat n_ues \<and> x = ue_ran_id (gnb_ue ip k)" for x k using u by auto
  have d: "dl_routes g x = Some k \<longleftrightarrow> k < unat n_ues \<and> x = ue_dl_teid (gnb_ue ip k)" for x k using u by auto
  have q: "Option.bind (ran_ue_ngap_id_of m) (ngap_routes g) = Some k \<longleftrightarrow>
      k < unat n_ues \<and> ran_ue_ngap_id_of m = Some (ue_ran_id (gnb_ue ip k))" for m k
    using r by (auto simp: bind_eq_Some_conv)
  have "gtp_demux (dl_routes g) dgram = Some (k, p) \<longleftrightarrow>
       k < unat n_ues \<and> (\<exists>h. GtpuHeader_parse (take 512 dgram) = Some (h, p) \<and> teid h = ue_dl_teid (gnb_ue ip k))" for dgram k p
    using d by (auto simp: gtp_demux_def split: option.split)
  then show ?thesis
    using u ues by (auto simp: Let_def gnb_dispatch_queues q)
qed

theorem gnb_routes_in_order_witness:
  "\<exists>g. run_gnb_start (V4 [127, 0, 0, 2], 0) 2 (Some Connected) = Some (Inr g) \<and> length (gnb_ues g) = 2 \<and>
    dp_sent (gnb_dispatch (ngap_routes g) [FromUe [1], FromLink (Lost ''x''), FromUe [2]]
      \<lparr>dp_queues = (\<lambda>_. []), dp_sent = []\<rparr>) = [[1]]"
proof -
  obtain g where g: "run_gnb_start (V4 [127, 0, 0, 2], 0) 2 (Some Connected) = Some (Inr g)"
    by (simp add: run_gnb_start_def ipv4_octets_def u32_add_def RAN_UE_NGAP_ID_BASE_def MOCK_DL_TEID_BASE_def upt_rec)
  show ?thesis
    using g gnb_routes_in_order [OF g, of "[FromUe [1], FromLink (Lost ''x''), FromUe [2]]"]
    by (auto simp: Let_def gnb_outgoing_def)
qed

end
