(* ===== verification/Gnb_Sim.thy ===== *)
theory Gnb_Sim
  imports Node_Loop Gnb
begin

text \<open>
  The simulation of several subscribers at once: \<open>run_amf\<close> and \<open>run_gnb\<close> of \<open>crates/midn-sim/src/main.rs\<close>
  connected by an association that keeps the order of messages and loses none. The core process, the dispatcher of
  the gNodeB, the demultiplexer of its GTP-U socket and one task per subscriber share queues; an
  action is one turn of one of them, and a run is any sequence of actions that are enabled. The
  network of the user plane delivers and loses datagrams in any order.
\<close>

section \<open>The state\<close>

text \<open>
  A task before its first send, waiting for a message, inside the user-plane check, or ended with its
  result. The check has the identifier, the address and the TEID it was started with, the number of
  attempts that timed out, and whether the datagram of the present one is sent.
\<close>

datatype TaskState =
    TaskNew
  | TaskWaiting
  | TaskChecking u32 bytes u32 nat bool
  | TaskEnded TaskResult

record UeTask =
  ut_ue :: UeState
  ut_gtp :: "bytes list"
  ut_state :: TaskState

text \<open>
  The core process (\<open>None\<close> once its loop has ended, and with it the process and its UPF), the PDUs on their way from the core to the
  gNodeB, the channel from the tasks to the dispatcher, the dispatcher with the queues of the tasks
  and the PDUs it has sent that have not arrived, the datagrams of the user plane under way, and the
  tasks. A datagram is on its way to the UPF, with its source and destination, or back to the gNodeB.
\<close>

datatype Datagram = ToUpf bytes SocketAddr bytes | ToGnb bytes

record GnbSim =
  gs_core :: "(Amf \<times> SessionManager) option"
  gs_down :: "bytes list"
  gs_out :: "bytes list"
  gs_dispatch :: Dispatch
  gs_dispatching :: bool
  gs_net :: "Datagram list"
  gs_tasks :: "nat \<Rightarrow> UeTask"

datatype GnbAction =
    CoreTurn bytes
  | LinkToGnb
  | TaskToLink
  | TaskTurn nat
  | SendProbe nat
  | ProbeReply nat
  | ProbeTimeout nat
  | NetDeliver nat
  | NetLose nat
  | Shutdown

section \<open>The tasks\<close>

text \<open>
  Every message is encoded and put into the channel on its own; the first that cannot be ends the
  task. The channel is closed once the dispatcher is gone.
\<close>

fun task_send :: "bool \<Rightarrow> NgapMessage list \<Rightarrow> bytes list \<Rightarrow> bytes list \<times> TaskResult option" where
  "task_send open [] out = (out, None)"
| "task_send open (m # ms) out =
     (case encode_ngap_pdu m of
        None \<Rightarrow> (out, Some (TaskPanicked ''panicked''))
      | Some (Inl e) \<Rightarrow> (out, Some (TaskErr (UeDecode e)))
      | Some (Inr b) \<Rightarrow>
          if open then task_send open ms (out @ [b])
          else (out, Some (TaskErr (UeReason ''gNB dispatcher gone''))))"

definition set_task :: "GnbSim \<Rightarrow> nat \<Rightarrow> UeState \<Rightarrow> TaskState \<Rightarrow> GnbSim" where
  "set_task s k ue st = s\<lparr>gs_tasks := (gs_tasks s)(k := (gs_tasks s k)\<lparr>ut_ue := ue, ut_state := st\<rparr>)\<rparr>"

definition task_sends :: "GnbSim \<Rightarrow> nat \<Rightarrow> UeState \<Rightarrow> NgapMessage list \<Rightarrow> TaskState \<Rightarrow> GnbSim" where
  "task_sends s k ue msgs st =
     (case task_send (gs_dispatching s) msgs (gs_out s) of
        (out, None) \<Rightarrow> set_task (s\<lparr>gs_out := out\<rparr>) k ue st
      | (out, Some r) \<Rightarrow> set_task (s\<lparr>gs_out := out\<rparr>) k ue (TaskEnded r))"

definition task_outcome :: "GnbSim \<Rightarrow> nat \<Rightarrow> UeOutcome \<Rightarrow> GnbSim" where
  "task_outcome s k r =
     (case r of
        UeContinue ue msgs \<Rightarrow> task_sends s k ue msgs TaskWaiting
      | UeRoundTrip ue msgs amf upf_addr ul_teid \<Rightarrow> task_sends s k ue msgs (TaskChecking amf upf_addr ul_teid 0 False)
      | UeDone msgs \<Rightarrow> task_sends s k (ut_ue (gs_tasks s k)) msgs (TaskEnded TaskOk)
      | UeFailed e \<Rightarrow> set_task s k (ut_ue (gs_tasks s k)) (TaskEnded (TaskErr e)))"

text \<open>The task's next message; with the dispatcher gone and no message left, the channel is closed.\<close>

definition task_turn :: "crypto \<Rightarrow> MilenageContext \<Rightarrow> GnbSim \<Rightarrow> nat \<Rightarrow> GnbSim option" where
  "task_turn cr usim s k =
     (let task = gs_tasks s k; ue = ut_ue task; dp = gs_dispatch s in
      case ut_state task of
        TaskNew \<Rightarrow> Some (task_sends s k ue [ue_start ue] TaskWaiting)
      | TaskWaiting \<Rightarrow>
          (case dp_queues dp k of
             msg # rest \<Rightarrow>
               Some (task_outcome (s\<lparr>gs_dispatch := dp\<lparr>dp_queues := (dp_queues dp)(k := rest)\<rparr>\<rparr>) k (ue_turn cr usim ue msg))
           | [] \<Rightarrow>
               if gs_dispatching s then None
               else Some (set_task s k ue (TaskEnded (TaskErr (UeReason ''gNB dispatcher channel closed unexpectedly'')))))
      | _ \<Rightarrow> None)"

section \<open>The user-plane check\<close>

text \<open>
  An attempt sends a datagram and waits for the next packet of the task's queue, or for its timeout.
  A send on the socket is taken to succeed.
\<close>

definition send_probe :: "GnbSim \<Rightarrow> nat \<Rightarrow> GnbSim option" where
  "send_probe s k =
     (let ue = ut_ue (gs_tasks s k) in
      case ut_state (gs_tasks s k) of
        TaskChecking amf upf_addr ul_teid attempts False \<Rightarrow>
          Some (set_task (s\<lparr>gs_net := gs_net s @ [ToUpf (sim_gpdu ul_teid) (ue_my_ip ue, GTP_PORT) upf_addr]\<rparr>) k ue
            (TaskChecking amf upf_addr ul_teid attempts True))
      | _ \<Rightarrow> None)"

definition check_ends :: "GnbSim \<Rightarrow> nat \<Rightarrow> u32 \<Rightarrow> string + unit \<Rightarrow> GnbSim" where
  "check_ends s k amf r =
     (let ue = ut_ue (gs_tasks s k) in
      case r of
        Inl e \<Rightarrow> set_task s k ue (TaskEnded (TaskErr (UeReason e)))
      | Inr _ \<Rightarrow> task_outcome s k (ue_after_round_trip ue amf))"

definition probe_reply :: "GnbSim \<Rightarrow> nat \<Rightarrow> GnbSim option" where
  "probe_reply s k =
     (let task = gs_tasks s k in
      case (ut_state task, ut_gtp task) of
        (TaskChecking amf upf_addr ul_teid attempts True, p # rest) \<Rightarrow>
          Some (check_ends (s\<lparr>gs_tasks := (gs_tasks s)(k := task\<lparr>ut_gtp := rest\<rparr>)\<rparr>) k amf (round_trip_attempts [Some p]))
      | _ \<Rightarrow> None)"

definition probe_timeout :: "GnbSim \<Rightarrow> nat \<Rightarrow> GnbSim option" where
  "probe_timeout s k =
     (let task = gs_tasks s k in
      case (ut_state task, ut_gtp task) of
        (TaskChecking amf upf_addr ul_teid attempts True, []) \<Rightarrow>
          Some (if Suc attempts < 5 then set_task s k (ut_ue task) (TaskChecking amf upf_addr ul_teid (Suc attempts) False)
                else check_ends s k amf (round_trip_attempts []))
      | _ \<Rightarrow> None)"

text \<open>
  A datagram arrives. The UPF answers when the address is its own, and its answer is on the way back
  when it is sent to the socket the datagram came from; the demultiplexer of the gNodeB gives the
  payload to the task of its tunnel.
\<close>

definition upf_receives :: "GnbSim \<Rightarrow> bytes \<Rightarrow> SocketAddr \<Rightarrow> bytes \<Rightarrow> Datagram list" where
  "upf_receives s dgram src dst =
     (case gs_core s of
        None \<Rightarrow> []
      | Some (amf, sm) \<Rightarrow>
          if Some dst \<noteq> a_phase_b_upf amf then []
          else (case upf_echo (sm_routing sm) dgram src of
                  None \<Rightarrow> []
                | Some (reply, addr) \<Rightarrow> if addr = src then [ToGnb reply] else []))"

definition gnb_receives :: "Gnb \<Rightarrow> GnbSim \<Rightarrow> bytes \<Rightarrow> GnbSim" where
  "gnb_receives gnb s dgram =
     (case gtp_demux (dl_routes gnb) dgram of
        None \<Rightarrow> s
      | Some (k, p) \<Rightarrow> s\<lparr>gs_tasks := (gs_tasks s)(k := (gs_tasks s k)\<lparr>ut_gtp := ut_gtp (gs_tasks s k) @ [p]\<rparr>)\<rparr>)"

definition net_remove :: "GnbSim \<Rightarrow> nat \<Rightarrow> GnbSim" where
  "net_remove s i = s\<lparr>gs_net := take i (gs_net s) @ drop (Suc i) (gs_net s)\<rparr>"

definition net_deliver :: "Gnb \<Rightarrow> GnbSim \<Rightarrow> nat \<Rightarrow> GnbSim option" where
  "net_deliver gnb s i =
     (if i < length (gs_net s) then
        Some (case gs_net s ! i of
          ToUpf dgram src dst \<Rightarrow>
            (let s' = net_remove s i in s'\<lparr>gs_net := gs_net s' @ upf_receives s dgram src dst\<rparr>)
        | ToGnb dgram \<Rightarrow> gnb_receives gnb (net_remove s i) dgram)
      else None)"

section \<open>Actions and runs\<close>

definition core_turn :: "crypto \<Rightarrow> aya \<Rightarrow> bytes \<Rightarrow> GnbSim \<Rightarrow> GnbSim option" where
  "core_turn cr ay rand s =
     (case (gs_core s, dp_sent (gs_dispatch s)) of
        (Some st, pdu # rest) \<Rightarrow>
          let s = s\<lparr>gs_dispatch := (gs_dispatch s)\<lparr>dp_sent := rest\<rparr>\<rparr> in
          (case amf_node_turn cr ay rand st pdu of
             Some (Inr (outs, st)) \<Rightarrow> Some (s\<lparr>gs_core := Some st, gs_down := gs_down s @ outs\<rparr>)
           | _ \<Rightarrow> Some (s\<lparr>gs_core := None\<rparr>))
      | _ \<Rightarrow> None)"

definition all_ended :: "Gnb \<Rightarrow> GnbSim \<Rightarrow> bool" where
  "all_ended gnb s \<longleftrightarrow>
     list_all (\<lambda>k. case ut_state (gs_tasks s k) of TaskEnded _ \<Rightarrow> True | _ \<Rightarrow> False) [0..<length (gnb_ues gnb)]"

text \<open>When all tasks are joined the dispatcher is stopped, whatever is left in its queues.\<close>

fun gnb_sim_step :: "crypto \<Rightarrow> aya \<Rightarrow> MilenageContext \<Rightarrow> Gnb \<Rightarrow> GnbAction \<Rightarrow> GnbSim \<Rightarrow> GnbSim option" where
  "gnb_sim_step cr ay usim gnb (CoreTurn rand) s = core_turn cr ay rand s"
| "gnb_sim_step cr ay usim gnb LinkToGnb s =
     (case gs_down s of
        pdu # rest \<Rightarrow>
          if gs_dispatching s
          then Some (s\<lparr>gs_down := rest,
            gs_dispatch := gnb_dispatch (ngap_routes gnb) [FromLink (Message pdu)] (gs_dispatch s)\<rparr>)
          else None
      | [] \<Rightarrow> None)"
| "gnb_sim_step cr ay usim gnb TaskToLink s =
     (case gs_out s of
        pdu # rest \<Rightarrow>
          if gs_dispatching s
          then Some (s\<lparr>gs_out := rest, gs_dispatch := gnb_dispatch (ngap_routes gnb) [FromUe pdu] (gs_dispatch s)\<rparr>)
          else None
      | [] \<Rightarrow> None)"
| "gnb_sim_step cr ay usim gnb (TaskTurn k) s =
     (if k < length (gnb_ues gnb) then task_turn cr usim s k else None)"
| "gnb_sim_step cr ay usim gnb (SendProbe k) s = (if k < length (gnb_ues gnb) then send_probe s k else None)"
| "gnb_sim_step cr ay usim gnb (ProbeReply k) s = (if k < length (gnb_ues gnb) then probe_reply s k else None)"
| "gnb_sim_step cr ay usim gnb (ProbeTimeout k) s = (if k < length (gnb_ues gnb) then probe_timeout s k else None)"
| "gnb_sim_step cr ay usim gnb (NetDeliver i) s = net_deliver gnb s i"
| "gnb_sim_step cr ay usim gnb (NetLose i) s = (if i < length (gs_net s) then Some (net_remove s i) else None)"
| "gnb_sim_step cr ay usim gnb Shutdown s =
     (if all_ended gnb s \<and> gs_dispatching s then Some (s\<lparr>gs_dispatching := False\<rparr>) else None)"

fun gnb_sim_run :: "crypto \<Rightarrow> aya \<Rightarrow> MilenageContext \<Rightarrow> Gnb \<Rightarrow> GnbAction list \<Rightarrow> GnbSim \<Rightarrow> GnbSim option" where
  "gnb_sim_run cr ay usim gnb [] s = Some s"
| "gnb_sim_run cr ay usim gnb (a # as) s =
     Option.bind (gnb_sim_step cr ay usim gnb a s) (gnb_sim_run cr ay usim gnb as)"

definition gnb_sim_start :: "Gnb \<Rightarrow> Amf \<times> SessionManager \<Rightarrow> GnbSim" where
  "gnb_sim_start gnb core =
     \<lparr>gs_core = Some core, gs_down = [], gs_out = [], gs_dispatch = \<lparr>dp_queues = (\<lambda>_. []), dp_sent = []\<rparr>,
      gs_dispatching = True, gs_net = [],
      gs_tasks = (\<lambda>k. \<lparr>ut_ue = gnb_ues gnb ! k, ut_gtp = [], ut_state = TaskNew\<rparr>)\<rparr>"

text \<open>What \<open>run_gnb\<close> returns, once all its tasks have ended.\<close>

definition gnb_result :: "Gnb \<Rightarrow> GnbSim \<Rightarrow> (GnbError + unit) option" where
  "gnb_result gnb s =
     (if \<not> all_ended gnb s then None else Some (gnb_join 0 (map (\<lambda>k. case ut_state (gs_tasks s k) of TaskEnded r \<Rightarrow> r | _ \<Rightarrow> TaskOk) [0..<length (gnb_ues gnb)]) None))"

end
