(* ===== verification/Gnb_Phases.thy ===== *)
theory Gnb_Phases
  imports Slot_Family Gnb_Sim Sim_Complete
begin

text \<open>
  The procedure of one subscriber, as the phases it goes through, and what each phase means for the
  parts of the system the subscriber has a share of: its entity, its registration and its sequence
  number in the core, its route in the user plane, its messages under way in both directions, and its
  task. The lemmas say that the core moves a subscriber from phase to phase, whatever else it holds.
\<close>

section \<open>Phases\<close>

record Setting =
  st_cr :: crypto
  st_usim :: MilenageContext
  st_upf :: bytes
  st_ip :: bytes

definition setting_ok :: "Setting \<Rightarrow> bool" where
  "setting_ok S \<longleftrightarrow> ctr_stream (st_cr S) \<and> cmac_len (st_cr S) \<and> hmac_len (st_cr S) \<and> aes_len (st_cr S) \<and>
     length (st_upf S) = 4 \<and> length (st_ip S) = 4 \<and> length (mc_opc (st_usim S)) = 16"

text \<open>Which of the two confirmations of a context setup the core has not handled yet, and the state of the check.\<close>

datatype SetupLeft = BothLeft | CompleteLeft | NothingLeft

datatype CheckPhase = Checking nat bool | Passed | NoEcho

text \<open>The arguments are the entity, the challenge and the TEID of the tunnel.\<close>

datatype Phase =
    PhFresh
  | PhStarting
  | PhAsked u32
  | PhNamed u32
  | PhChallenged u32 bytes
  | PhAnswered u32 bytes
  | PhSecured u32 bytes
  | PhConfirmed u32 bytes
  | PhAccepted u32 bytes u32
  | PhOnline u32 bytes u32 SetupLeft CheckPhase
  | PhLeaving u32 bytes u32
  | PhReleasing u32 bytes u32
  | PhGone u32 bytes u32
  | PhFinished u32 bytes

abbreviation ran_of :: "nat \<Rightarrow> u32" where "ran_of k \<equiv> RAN_UE_NGAP_ID_BASE + of_nat k"
abbreviation dl_of :: "nat \<Rightarrow> u32" where "dl_of k \<equiv> MOCK_DL_TEID_BASE + of_nat k"
abbreviation imsi_of :: "nat \<Rightarrow> u64" where "imsi_of k \<equiv> TEST_IMSI + of_nat k"

section \<open>The entity\<close>

definition auth_entity :: "Setting \<Rightarrow> nat \<Rightarrow> bytes \<Rightarrow> entity" where
  "auth_entity S k r = sim_authenticated (st_cr S) (st_usim S) r (imsi_of k) (ran_of k)"

definition accepted_entity :: "Setting \<Rightarrow> nat \<Rightarrow> u32 \<Rightarrow> bytes \<Rightarrow> u32 \<Rightarrow> entity" where
  "accepted_entity S k i r t =
     (let e = auth_entity S k r in
      e\<lparr>e_security5g := clear_post_kamf (e_security5g e), e_nas_security5g := Some (snd (accept_5g (st_cr S) i e)),
        e_tunnel := Some \<lparr>tc_ul_teid = t, tc_dl_teid = 0, tc_enb_addr = replicate 4 0\<rparr>\<rparr>)"

definition online_entity :: "Setting \<Rightarrow> nat \<Rightarrow> u32 \<Rightarrow> bytes \<Rightarrow> u32 \<Rightarrow> entity" where
  "online_entity S k i r t =
     (accepted_entity S k i r t)\<lparr>e_tunnel := Some \<lparr>tc_ul_teid = t, tc_dl_teid = dl_of k, tc_enb_addr = st_ip S\<rparr>\<rparr>"

definition release_accept :: "Setting \<Rightarrow> nat \<Rightarrow> bytes \<Rightarrow> bytes \<times> Nas5gsSecurityContext" where
  "release_accept S k r = encode_protected_5g (st_cr S) NAS5GS_SHT_INTEGRITY_CIPHERED
     ((sim_context (st_cr S) (kamf_of (st_cr S) (auth_entity S k r)))\<lparr>dl5_count := 1\<rparr>) encode_deregistration_accept"

definition leaving_entity :: "Setting \<Rightarrow> nat \<Rightarrow> u32 \<Rightarrow> bytes \<Rightarrow> u32 \<Rightarrow> entity" where
  "leaving_entity S k i r t = (online_entity S k i r t)\<lparr>e_nas_security5g := Some (snd (release_accept S k r))\<rparr>"

fun ph_entity :: "Setting \<Rightarrow> nat \<Rightarrow> Phase \<Rightarrow> (u32 \<times> entity) option" where
  "ph_entity S k (PhAsked i) = Some (i, fresh_5g_entity (ran_of k) TEST_PLMN)"
| "ph_entity S k (PhNamed i) = Some (i, fresh_5g_entity (ran_of k) TEST_PLMN)"
| "ph_entity S k (PhChallenged i r) = Some (i, sim_challenged (st_cr S) (st_usim S) r (imsi_of k) (ran_of k))"
| "ph_entity S k (PhAnswered i r) = Some (i, sim_challenged (st_cr S) (st_usim S) r (imsi_of k) (ran_of k))"
| "ph_entity S k (PhSecured i r) = Some (i, auth_entity S k r)"
| "ph_entity S k (PhConfirmed i r) = Some (i, auth_entity S k r)"
| "ph_entity S k (PhAccepted i r t) = Some (i, accepted_entity S k i r t)"
| "ph_entity S k (PhOnline i r t l c) =
     Some (i, if l = BothLeft then accepted_entity S k i r t else online_entity S k i r t)"
| "ph_entity S k (PhLeaving i r t) = Some (i, leaving_entity S k i r t)"
| "ph_entity S k (PhReleasing i r t) = Some (i, leaving_entity S k i r t)"
| "ph_entity S k (PhGone i r t) = Some (i, leaving_entity S k i r t)"
| "ph_entity S k p = None"

fun ph_registered :: "nat \<Rightarrow> Phase \<Rightarrow> (u64 \<times> u32) option" where
  "ph_registered k (PhChallenged i r) = Some (imsi_of k, i)"
| "ph_registered k (PhAnswered i r) = Some (imsi_of k, i)"
| "ph_registered k (PhSecured i r) = Some (imsi_of k, i)"
| "ph_registered k (PhConfirmed i r) = Some (imsi_of k, i)"
| "ph_registered k (PhAccepted i r t) = Some (imsi_of k, i)"
| "ph_registered k (PhOnline i r t l c) = Some (imsi_of k, i)"
| "ph_registered k (PhLeaving i r t) = Some (imsi_of k, i)"
| "ph_registered k (PhReleasing i r t) = Some (imsi_of k, i)"
| "ph_registered k (PhGone i r t) = Some (imsi_of k, i)"
| "ph_registered k p = None"

text \<open>The record of the subscriber: the sequence number advances with the challenge.\<close>

fun ph_sqn :: "Phase \<Rightarrow> u64" where
  "ph_sqn PhFresh = 0"
| "ph_sqn PhStarting = 0"
| "ph_sqn (PhAsked i) = 0"
| "ph_sqn (PhNamed i) = 0"
| "ph_sqn p = 1"

section \<open>The route\<close>

abbreviation early_route :: "u32 \<Rightarrow> RouteEntry" where
  "early_route i \<equiv> RouteEntry_new (synth_ue_ip i) 0 (replicate 4 0) DEFAULT_QFI"

abbreviation online_route :: "Setting \<Rightarrow> nat \<Rightarrow> u32 \<Rightarrow> RouteEntry" where
  "online_route S k i \<equiv> RouteEntry_new (synth_ue_ip i) (dl_of k) (st_ip S) DEFAULT_QFI"

fun ph_route :: "Setting \<Rightarrow> nat \<Rightarrow> Phase \<Rightarrow> (u32 \<times> RouteEntry) option" where
  "ph_route S k (PhAccepted i r t) = Some (t, early_route i)"
| "ph_route S k (PhOnline i r t l c) = Some (t, if l = BothLeft then early_route i else online_route S k i)"
| "ph_route S k (PhLeaving i r t) = Some (t, online_route S k i)"
| "ph_route S k (PhReleasing i r t) = Some (t, online_route S k i)"
| "ph_route S k (PhGone i r t) = Some (t, online_route S k i)"
| "ph_route S k p = None"

section \<open>The messages under way\<close>

definition nas_down :: "u32 \<Rightarrow> nat \<Rightarrow> bytes \<Rightarrow> NgapMessage" where
  "nas_down i k pdu = NDownlinkNasTransport \<lparr>ndnt_amf_ue_ngap_id = i, ndnt_ran_ue_ngap_id = ran_of k, ndnt_nas_pdu = pdu\<rparr>"

fun setup_msgs :: "Setting \<Rightarrow> nat \<Rightarrow> u32 \<Rightarrow> SetupLeft \<Rightarrow> NgapMessage list" where
  "setup_msgs S k i NothingLeft = []"
| "setup_msgs S k i CompleteLeft = [send_uplink i (ran_of k) encode_registration_complete]"
| "setup_msgs S k i BothLeft =
     [NInitialContextSetupResponse (sim_ics_response i (ran_of k) (st_ip S) (dl_of k)),
      send_uplink i (ran_of k) encode_registration_complete]"

fun ph_up :: "Setting \<Rightarrow> nat \<Rightarrow> Phase \<Rightarrow> NgapMessage list" where
  "ph_up S k PhStarting = [ue_start (gnb_ue (st_ip S) k)]"
| "ph_up S k (PhNamed i) = [send_uplink i (ran_of k) (encode_identity_response_suci (suci_for_imsi (imsi_of k)))]"
| "ph_up S k (PhAnswered i r) = [send_uplink i (ran_of k) (encode_auth_response_5g
     (pending_xres_star (e_security5g (sim_challenged (st_cr S) (st_usim S) r (imsi_of k) (ran_of k)))))]"
| "ph_up S k (PhConfirmed i r) = [send_uplink i (ran_of k) encode_sec_mode_complete_5g]"
| "ph_up S k (PhOnline i r t l c) = setup_msgs S k i l @
     (if c = Passed then [send_uplink i (ran_of k) (encode_deregistration_request False)] else [])"
| "ph_up S k (PhGone i r t) = [NUeContextReleaseComplete \<lparr>ncrc_amf_ue_ngap_id = i, ncrc_ran_ue_ngap_id = ran_of k\<rparr>]"
| "ph_up S k p = []"

fun ph_down :: "Setting \<Rightarrow> nat \<Rightarrow> Phase \<Rightarrow> NgapMessage list" where
  "ph_down S k (PhAsked i) = [nas_down i k (encode_identity_request IDTYPE_SUCI)]"
| "ph_down S k (PhChallenged i r) =
     [nas_down i k (encode_auth_request_5g 0 r (autn (sim_vector (st_cr S) (st_usim S) r) (replicate 6 0) MILENAGE_AMF_FIELD))]"
| "ph_down S k (PhSecured i r) =
     [nas_down i k (encode_sec_mode_cmd_5g SELECTED_NAS_CIPHER_ALG SELECTED_NAS_INTEGRITY_ALG 0x2040)]"
| "ph_down S k (PhAccepted i r t) =
     [NInitialContextSetupRequest (accept_request (st_cr S) i (ran_of k) (auth_entity S k r) t (st_upf S))]"
| "ph_down S k (PhLeaving i r t) =
     [nas_down i k (fst (release_accept S k r)), NUeContextReleaseCommand i (ran_of k) NgNasDeregister]"
| "ph_down S k (PhReleasing i r t) = [NUeContextReleaseCommand i (ran_of k) NgNasDeregister]"
| "ph_down S k p = []"

section \<open>The task\<close>

abbreviation named_ue :: "Setting \<Rightarrow> nat \<Rightarrow> u32 \<Rightarrow> UeState" where
  "named_ue S k i \<equiv> (gnb_ue (st_ip S) k)\<lparr>ue_amf_id := Some i\<rparr>"

abbreviation keyed_ue :: "Setting \<Rightarrow> nat \<Rightarrow> u32 \<Rightarrow> bytes \<Rightarrow> UeState" where
  "keyed_ue S k i r \<equiv>
     (gnb_ue (st_ip S) k)\<lparr>ue_amf_id := Some i, ue_kamf := Some (kamf_of (st_cr S) (auth_entity S k r))\<rparr>"

abbreviation no_echo :: TaskState where
  "no_echo \<equiv> TaskEnded (TaskErr (UeReason ''no DL G-PDU echo received after 5 attempts''))"

fun check_state :: "Setting \<Rightarrow> u32 \<Rightarrow> u32 \<Rightarrow> CheckPhase \<Rightarrow> TaskState" where
  "check_state S i t (Checking j w) = TaskChecking i (st_upf S) t j w"
| "check_state S i t Passed = TaskWaiting"
| "check_state S i t NoEcho = no_echo"

fun ph_task :: "Setting \<Rightarrow> nat \<Rightarrow> Phase \<Rightarrow> UeState \<times> TaskState" where
  "ph_task S k PhFresh = (gnb_ue (st_ip S) k, TaskNew)"
| "ph_task S k PhStarting = (gnb_ue (st_ip S) k, TaskWaiting)"
| "ph_task S k (PhAsked i) = (gnb_ue (st_ip S) k, TaskWaiting)"
| "ph_task S k (PhNamed i) = (named_ue S k i, TaskWaiting)"
| "ph_task S k (PhChallenged i r) = (named_ue S k i, TaskWaiting)"
| "ph_task S k (PhAnswered i r) = (keyed_ue S k i r, TaskWaiting)"
| "ph_task S k (PhSecured i r) = (keyed_ue S k i r, TaskWaiting)"
| "ph_task S k (PhConfirmed i r) = (keyed_ue S k i r, TaskWaiting)"
| "ph_task S k (PhAccepted i r t) = (keyed_ue S k i r, TaskWaiting)"
| "ph_task S k (PhOnline i r t l c) = (keyed_ue S k i r, check_state S i t c)"
| "ph_task S k (PhLeaving i r t) = (keyed_ue S k i r, TaskWaiting)"
| "ph_task S k (PhReleasing i r t) = (keyed_ue S k i r, TaskWaiting)"
| "ph_task S k (PhGone i r t) = (keyed_ue S k i r, TaskEnded TaskOk)"
| "ph_task S k (PhFinished i r) = (keyed_ue S k i r, TaskEnded TaskOk)"

text \<open>A bound on the actions that are left to a subscriber, and on the turns of the core among them.\<close>

fun setup_left :: "SetupLeft \<Rightarrow> nat" where
  "setup_left BothLeft = 2" | "setup_left CompleteLeft = 1" | "setup_left NothingLeft = 0"

fun check_left :: "CheckPhase \<Rightarrow> nat" where
  "check_left (Checking j w) = (if w then 25 else 28) - 4 * j" | "check_left Passed = 7" | "check_left NoEcho = 0"

fun ph_left :: "Phase \<Rightarrow> nat" where
  "ph_left PhFresh = 49"
| "ph_left PhStarting = 47"
| "ph_left (PhAsked i) = 45"
| "ph_left (PhNamed i) = 43"
| "ph_left (PhChallenged i r) = 41"
| "ph_left (PhAnswered i r) = 39"
| "ph_left (PhSecured i r) = 37"
| "ph_left (PhConfirmed i r) = 35"
| "ph_left (PhAccepted i r t) = 33"
| "ph_left (PhOnline i r t l c) = setup_left l + check_left c"
| "ph_left (PhLeaving i r t) = 4"
| "ph_left (PhReleasing i r t) = 3"
| "ph_left (PhGone i r t) = 1"
| "ph_left (PhFinished i r) = 0"

fun ph_core_left :: "Phase \<Rightarrow> nat" where
  "ph_core_left PhFresh = 8"
| "ph_core_left PhStarting = 8"
| "ph_core_left (PhAsked i) = 7"
| "ph_core_left (PhNamed i) = 7"
| "ph_core_left (PhChallenged i r) = 6"
| "ph_core_left (PhAnswered i r) = 6"
| "ph_core_left (PhSecured i r) = 5"
| "ph_core_left (PhConfirmed i r) = 5"
| "ph_core_left (PhAccepted i r t) = 4"
| "ph_core_left (PhOnline i r t l c) = 2 + setup_left l"
| "ph_core_left (PhLeaving i r t) = 1"
| "ph_core_left (PhReleasing i r t) = 1"
| "ph_core_left (PhGone i r t) = 1"
| "ph_core_left (PhFinished i r) = 0"

fun ph_ok :: "Phase \<Rightarrow> bool" where
  "ph_ok (PhChallenged i r) \<longleftrightarrow> length r = 16"
| "ph_ok (PhAnswered i r) \<longleftrightarrow> length r = 16"
| "ph_ok (PhOnline i r t l c) \<longleftrightarrow> (\<forall>j w. c = Checking j w \<longrightarrow> j < 5)"
| "ph_ok p \<longleftrightarrow> True"

end
