(* ===== verification/Gnb_Core.thy ===== *)
theory Gnb_Core
  imports Gnb_Phases
begin

text \<open>
  The core moves a subscriber: for every message of a subscriber, in the phase in which it is sent,
  the AMF answers, and the shares of the subscriber in its state and in the user plane become those
  of the next phase.
\<close>

definition core_pre :: "Setting \<Rightarrow> nat \<Rightarrow> nat \<Rightarrow> Phase \<Rightarrow> Amf \<Rightarrow> bool" where
  "core_pre S c k p m \<longleftrightarrow> setting_ok S \<and> amf_inv c m \<and> amf_room c \<and> imsi_of k < 2 ^ 40 \<and>
     a_phase_b_upf m = Some (st_upf S) \<and> a_hss m (imsi_of k) = Some \<lparr>sr_ctx = st_usim S, sr_sqn = ph_sqn p\<rparr> \<and>
     slot_in (ph_entity S k p) (abs_world (a_world m)) \<and> slot_in (ph_registered k p) (a_registry m)"

definition core_effect :: "Setting \<Rightarrow> aya \<Rightarrow> nat \<Rightarrow> Phase \<Rightarrow> Phase \<Rightarrow> Amf \<Rightarrow> Amf \<Rightarrow> NgapMessage list \<Rightarrow> N3Event list \<Rightarrow> bool" where
  "core_effect S ay k p p' m m' outs evts \<longleftrightarrow>
     list_all ngap_fits outs \<and> ph_ok p' \<and> ph_task S k p' = ph_task S k p \<and> ph_down S k p' = ph_down S k p @ outs \<and>
     abs_world (a_world m') = slot_upd (ph_entity S k p) (ph_entity S k p') (abs_world (a_world m)) \<and>
     slot_new (ph_entity S k p) (ph_entity S k p') (abs_world (a_world m)) \<and>
     a_registry m' = slot_upd (ph_registered k p) (ph_registered k p') (a_registry m) \<and>
     a_hss m' = (a_hss m)(imsi_of k \<mapsto> \<lparr>sr_ctx = st_usim S, sr_sqn = ph_sqn p'\<rparr>) \<and>
     (\<forall>sm. slot_in (ph_route S k p) (ul_map (sm_routing sm)) \<longrightarrow>
        ul_map (sm_routing (foldl (apply_n3_event ay) sm evts)) =
          slot_upd (ph_route S k p) (ph_route S k p') (ul_map (sm_routing sm))) \<and>
     (\<forall>t e. ph_route S k p' = Some (t, e) \<longrightarrow> map_option fst (ph_route S k p) = Some t \<or> t \<notin> teid_used (a_teids m)) \<and>
     ph_left p' + length outs < ph_left p \<and> ph_core_left p' < ph_core_left p"

lemma core_preD:
  assumes "core_pre S c k p m"
  shows "world_wf (a_world m)" "unat (next_id (a_world m)) + 1 < 4294967296" "teid_inv (a_teids m)" "teid_room (a_teids m)"
    "a_phase_b_upf m = Some (st_upf S)" "a_hss m (imsi_of k) = Some \<lparr>sr_ctx = st_usim S, sr_sqn = ph_sqn p\<rparr>"
    "imsi_of k < 2 ^ 40" "slot_in (ph_entity S k p) (abs_world (a_world m))" "slot_in (ph_registered k p) (a_registry m)"
    "ctr_stream (st_cr S)" "cmac_len (st_cr S)" "hmac_len (st_cr S)" "aes_len (st_cr S)"
    "length (st_upf S) = 4" "length (st_ip S) = 4" "length (mc_opc (st_usim S)) = 16"
  using assms by (auto simp: core_pre_def setting_ok_def amf_inv_def amf_room_def teid_room_def)

abbreviation uplink :: "u32 \<Rightarrow> nat \<Rightarrow> bytes \<Rightarrow> NgapUplinkNasTransport" where
  "uplink i k pdu \<equiv> \<lparr>nunt_amf_ue_ngap_id = i, nunt_ran_ue_ngap_id = ran_of k, nunt_nas_pdu = pdu,
     nunt_tai = TEST_TAI, nunt_nr_cgi = replicate 9 0\<rparr>"

lemma core_starting:
  assumes pre: "core_pre S c k PhStarting m"
  shows "\<exists>i outs evts m'. process_ngap (st_cr S) rand m (ue_start (gnb_ue (st_ip S) k)) = Some ((outs, evts), m') \<and>
    core_effect S ay k PhStarting (PhAsked i) m m' outs evts"
proof -
  note d = core_preD [OF pre]
  let ?u = "\<lparr>nium_ran_ue_ngap_id = ran_of k, nium_nas_pdu = encode_registration_request 1 0 None 0x00C0,
    nium_tai = TEST_TAI, nium_nr_cgi = replicate 9 0, nium_rrc_establishment_cause = 0\<rparr>"
  obtain q where q: "decode_nas5gs (nium_nas_pdu ?u) = Inr (RegistrationRequest q)" "rr_guti q = None"
    using registration_request_roundtrip [of None 1 0 "0x00C0"] by auto
  obtain i w where s: "process_ngap (st_cr S) rand m (NInitialUeMessage ?u) =
      Some (([NDownlinkNasTransport \<lparr>ndnt_amf_ue_ngap_id = i, ndnt_ran_ue_ngap_id = nium_ran_ue_ngap_id ?u,
        ndnt_nas_pdu = encode_identity_request IDTYPE_SUCI\<rparr>], []), m\<lparr>a_world := w\<rparr>)"
    and w: "abs_world (a_world m) i = None"
      "abs_world w = (abs_world (a_world m))(i \<mapsto> fresh_5g_entity (nium_ran_ue_ngap_id ?u) (take 3 (nium_tai ?u)))"
    by (rule reg_step1 [OF d(1,2) q, of "st_cr S" rand])
  have st: "ue_start (gnb_ue (st_ip S) k) = NInitialUeMessage ?u" by (simp add: ue_start_def send_initial_def)
  show ?thesis
    by (intro exI conjI, subst st, rule s)
       (use w d(6) in \<open>simp add: core_effect_def nas_down_def TEST_TAI_plmn fun_upd_idem\<close>)
qed

lemma core_named:
  assumes pre: "core_pre S c k (PhNamed i) m" and rand: "length rand = 16"
    and new: "a_registry m (imsi_of k) = None"
  shows "\<exists>outs evts m'. process_ngap (st_cr S) rand m (hd (ph_up S k (PhNamed i))) = Some ((outs, evts), m') \<and>
    core_effect S ay k (PhNamed i) (PhChallenged i rand) m m' outs evts"
proof -
  note d = core_preD [OF pre]
  let ?e = "fresh_5g_entity (ran_of k) TEST_PLMN" and ?sub = "\<lparr>sr_ctx = st_usim S, sr_sqn = 0 :: u64\<rparr>"
  let ?u = "uplink i k (encode_identity_response_suci (suci_for_imsi (imsi_of k)))"
  let ?av = "milenage_compute (st_cr S) (sr_ctx ?sub) rand (Sqn_to_bytes (sr_sqn ?sub)) MILENAGE_AMF_FIELD"
  have h: "abs_world (a_world m) i = Some ?e" "a_hss m (imsi_of k) = Some ?sub" "nunt_amf_ue_ngap_id ?u = i"
    "nunt_nas_pdu ?u = encode_identity_response_suci (suci_for_imsi (imsi_of k))"
    using d(6,8) by simp_all
  obtain w where s: "process_ngap (st_cr S) rand m (NUplinkNasTransport ?u) =
      Some (([NDownlinkNasTransport \<lparr>ndnt_amf_ue_ngap_id = i, ndnt_ran_ue_ngap_id = nunt_ran_ue_ngap_id ?u,
        ndnt_nas_pdu = encode_auth_request_5g 0 rand (autn ?av (Sqn_to_bytes (sr_sqn ?sub)) MILENAGE_AMF_FIELD)\<rparr>], []),
        m\<lparr>a_world := w, a_registry := (a_registry m)(imsi_of k \<mapsto> i),
          a_hss := (a_hss m)(imsi_of k \<mapsto> ?sub\<lparr>sr_sqn := take_bit 48 (sr_sqn ?sub + 1)\<rparr>)\<rparr>)"
    and w: "abs_world w = (abs_world (a_world m))(i \<mapsto>
        challenged_5g (st_cr S) ?e (imsi_of k) (nunt_ran_ue_ngap_id ?u) rand ?av (Sqn_to_bytes (sr_sqn ?sub)))"
    by (rule reg_step2 [OF d(1) h(1,2) suci_for_imsi_wf resolve_suci_for_imsi [OF d(7)] h(3,4)])
  have up: "hd (ph_up S k (PhNamed i)) = NUplinkNasTransport ?u" by (simp add: send_uplink_def)
  have l6: "length (MILENAGE_AMF_FIELD) = 2" "length (Sqn_to_bytes (sr_sqn ?sub)) = 6"
    by (simp_all add: MILENAGE_AMF_FIELD_def Sqn_zero)
  have tok: "length (autn ?av (Sqn_to_bytes (sr_sqn ?sub)) MILENAGE_AMF_FIELD) = 16"
    using length_milenage_compute [OF d(13) rand _ l6(2,1), of "st_usim S"] d(16) l6 by (simp add: length_autn)
  show ?thesis
    by (intro exI conjI, subst up, rule s)
       (use w new tok rand in \<open>simp add: core_effect_def nas_down_def Sqn_zero sim_vector_def sim_challenged_def
          length_auth_request_5g\<close>)
qed

lemma length_pending_xres_star:
  "hmac_len cr \<Longrightarrow> length (pending_xres_star (e_security5g (sim_challenged cr usim r imsi g))) = 16"
  using length_derive_res_star [of cr] by (simp add: sim_challenged_def challenged_5g_def Let_def)

lemma core_answered:
  assumes pre: "core_pre S c k (PhAnswered i r) m"
  shows "\<exists>outs evts m'. process_ngap (st_cr S) rand m (hd (ph_up S k (PhAnswered i r))) = Some ((outs, evts), m') \<and>
    core_effect S ay k (PhAnswered i r) (PhSecured i r) m m' outs evts"
proof -
  note d = core_preD [OF pre]
  let ?e = "sim_challenged (st_cr S) (st_usim S) r (imsi_of k) (ran_of k)"
  let ?u = "uplink i k (encode_auth_response_5g (pending_xres_star (e_security5g ?e)))"
  have h: "abs_world (a_world m) i = Some ?e" "nunt_amf_ue_ngap_id ?u = i"
    "nunt_nas_pdu ?u = encode_auth_response_5g (pending_xres_star (e_security5g ?e))"
    using d(8) by simp_all
  obtain w where s: "process_ngap (st_cr S) rand m (NUplinkNasTransport ?u) =
      Some (([NDownlinkNasTransport \<lparr>ndnt_amf_ue_ngap_id = i, ndnt_ran_ue_ngap_id = nunt_ran_ue_ngap_id ?u,
        ndnt_nas_pdu = encode_sec_mode_cmd_5g SELECTED_NAS_CIPHER_ALG SELECTED_NAS_INTEGRITY_ALG 0x2040\<rparr>], []),
        m\<lparr>a_world := w\<rparr>)"
    and w: "abs_world w = (abs_world (a_world m))
      (i \<mapsto> ?e\<lparr>e_security5g := clear_pending_challenge_5g (e_security5g ?e), e_auth := Authenticated\<rparr>)"
    by (rule reg_step3 [OF d(1) h(1) refl length_pending_xres_star [OF d(12)] h(2,3)])
  have up: "hd (ph_up S k (PhAnswered i r)) = NUplinkNasTransport ?u" by (simp add: send_uplink_def)
  show ?thesis
    by (intro exI conjI, subst up, rule s)
       (use w d(6,9) in \<open>simp add: core_effect_def nas_down_def auth_entity_def sim_authenticated_def Let_def fun_upd_idem\<close>)
qed

lemma core_confirmed:
  assumes pre: "core_pre S c k (PhConfirmed i r) m"
  shows "\<exists>t outs evts m'. process_ngap (st_cr S) rand m (hd (ph_up S k (PhConfirmed i r))) = Some ((outs, evts), m') \<and>
    core_effect S ay k (PhConfirmed i r) (PhAccepted i r t) m m' outs evts"
proof -
  note d = core_preD [OF pre]
  let ?e = "auth_entity S k r" and ?u = "uplink i k encode_sec_mode_complete_5g"
  obtain t a' where al: "teid_alloc (a_teids m) = (t, a')" by (cases "teid_alloc (a_teids m)")
  have fresh: "t \<notin> teid_used (a_teids m)" using teid_ids.alloc_fresh(1) [OF d(3,4)] al by auto
  have h: "abs_world (a_world m) i = Some ?e" "nunt_amf_ue_ngap_id ?u = i" "nunt_nas_pdu ?u = encode_sec_mode_complete_5g"
    using d(8) by simp_all
  obtain w where s: "process_ngap (st_cr S) rand m (NUplinkNasTransport ?u) =
      Some (([NInitialContextSetupRequest (accept_request (st_cr S) i (nunt_ran_ue_ngap_id ?u) ?e t (st_upf S))],
        [N3CreateSession t i (id_imsi (e_identity ?e)) DEFAULT_PDU_SESSION_ID DEFAULT_QFI (synth_ue_ip i)
          (replicate 4 0)]), m\<lparr>a_world := w, a_teids := a'\<rparr>)"
    and w: "abs_world w = (abs_world (a_world m))
      (i \<mapsto> ?e\<lparr>e_security5g := clear_post_kamf (e_security5g ?e),
         e_nas_security5g := Some (snd (accept_5g (st_cr S) i ?e)),
         e_tunnel := Some \<lparr>tc_ul_teid = t, tc_dl_teid = 0, tc_enb_addr = replicate 4 0\<rparr>\<rparr>)"
    by (rule reg_step4 [OF d(1) h(1) d(5) al h(2,3)])
  have up: "hd (ph_up S k (PhConfirmed i r)) = NUplinkNasTransport ?u" by (simp add: send_uplink_def)
  have fits: "ngap_fits (NInitialContextSetupRequest (accept_request (st_cr S) i (ran_of k) ?e t (st_upf S)))"
    by (rule accept_request_fits [OF d(10,12,14)])
  show ?thesis
    by (rule exI [of _ t], intro exI conjI, subst up, rule s)
       (use w d(6,9) fits fresh in \<open>simp add: core_effect_def accepted_entity_def Let_def fun_upd_idem apply_n3_event_upf
          event_maps del: ngap_fits.simps\<close>)
qed

lemma core_setup:
  assumes pre: "core_pre S c k (PhOnline i r t BothLeft ck) m" and ok: "ph_ok (PhOnline i r t BothLeft ck)"
  shows "\<exists>outs evts m'. process_ngap (st_cr S) rand m (hd (ph_up S k (PhOnline i r t BothLeft ck))) = Some ((outs, evts), m') \<and>
    core_effect S ay k (PhOnline i r t BothLeft ck) (PhOnline i r t CompleteLeft ck) m m' outs evts"
proof -
  note d = core_preD [OF pre]
  let ?e = "accepted_entity S k i r t" and ?r = "sim_ics_response i (ran_of k) (st_ip S) (dl_of k)"
  let ?tu = "\<lparr>tc_ul_teid = t, tc_dl_teid = 0, tc_enb_addr = replicate 4 0\<rparr>"
  have h: "abs_world (a_world m) i = Some ?e" "e_tunnel ?e = Some ?tu" "nicp_amf_ue_ngap_id ?r = i"
    "nicp_pdu_sessions_setup ?r = [\<lparr>psi_pdu_session_id = DEFAULT_PDU_SESSION_ID,
      psi_transport_layer_addr = st_ip S, psi_gtp_teid = to_be32 (dl_of k)\<rparr>]"
    using d(8) by (simp_all add: sim_ics_response_def accepted_entity_def Let_def)
  obtain w where s: "process_ngap (st_cr S) rand m (NInitialContextSetupResponse ?r) =
      Some (([], [N3UpdateBearer t (dl_of k) (st_ip S)]), m\<lparr>a_world := w\<rparr>)"
    and w: "abs_world w = (abs_world (a_world m))(i \<mapsto> ?e\<lparr>e_tunnel := Some (?tu\<lparr>tc_dl_teid := dl_of k, tc_enb_addr := st_ip S\<rparr>)\<rparr>)"
    by (rule reg_step5 [OF d(1) h, of "st_cr S" rand]) simp
  have up: "hd (ph_up S k (PhOnline i r t BothLeft ck)) = NInitialContextSetupResponse ?r" by simp
  show ?thesis
    by (intro exI conjI, subst up, rule s)
       (use w d(6,9) ok in \<open>simp add: core_effect_def online_entity_def fun_upd_idem apply_n3_event_upf
          event_maps spec_update_def RouteEntry_new_def\<close>)
qed

lemma core_complete:
  assumes pre: "core_pre S c k (PhOnline i r t CompleteLeft ck) m" and ok: "ph_ok (PhOnline i r t CompleteLeft ck)"
  shows "\<exists>outs evts m'. process_ngap (st_cr S) rand m (hd (ph_up S k (PhOnline i r t CompleteLeft ck))) = Some ((outs, evts), m') \<and>
    core_effect S ay k (PhOnline i r t CompleteLeft ck) (PhOnline i r t NothingLeft ck) m m' outs evts"
proof -
  note d = core_preD [OF pre]
  have s: "process_ngap (st_cr S) rand m (hd (ph_up S k (PhOnline i r t CompleteLeft ck))) = Some (([], []), m)"
    by (simp add: send_uplink_def, rule reg_step6) simp
  show ?thesis
    by (intro exI conjI, rule s) (use d(6,8,9) ok in \<open>simp add: core_effect_def fun_upd_idem\<close>)
qed

lemma core_deregister:
  assumes pre: "core_pre S c k (PhOnline i r t NothingLeft Passed) m"
  shows "\<exists>outs evts m'. process_ngap (st_cr S) rand m (hd (ph_up S k (PhOnline i r t NothingLeft Passed))) = Some ((outs, evts), m') \<and>
    core_effect S ay k (PhOnline i r t NothingLeft Passed) (PhLeaving i r t) m m' outs evts"
proof -
  note d = core_preD [OF pre]
  let ?e = "online_entity S k i r t" and ?u = "uplink i k (encode_deregistration_request False)"
  let ?c = "(sim_context (st_cr S) (kamf_of (st_cr S) (auth_entity S k r)))\<lparr>dl5_count := 1\<rparr>"
  let ?p = "encode_protected_5g (st_cr S) NAS5GS_SHT_INTEGRITY_CIPHERED ?c encode_deregistration_accept"
  have h: "abs_world (a_world m) i = Some ?e" "e_nas_security5g ?e = Some ?c" "nunt_amf_ue_ngap_id ?u = i"
    "nunt_nas_pdu ?u = encode_deregistration_request False"
    using d(8) by (simp_all add: online_entity_def accepted_entity_def Let_def accept_5g_context)
  obtain w where s: "process_ngap (st_cr S) rand m (NUplinkNasTransport ?u) =
      Some (([NDownlinkNasTransport \<lparr>ndnt_amf_ue_ngap_id = i, ndnt_ran_ue_ngap_id = nunt_ran_ue_ngap_id ?u,
          ndnt_nas_pdu = fst ?p\<rparr>,
        NUeContextReleaseCommand i (nunt_ran_ue_ngap_id ?u) NgNasDeregister], []), m\<lparr>a_world := w\<rparr>)"
    and w: "abs_world w = (abs_world (a_world m))(i \<mapsto> ?e\<lparr>e_nas_security5g := Some (snd ?p)\<rparr>)"
    by (rule dereg_step1 [OF d(1) h(1,2,3,4)])
  have up: "hd (ph_up S k (PhOnline i r t NothingLeft Passed)) = NUplinkNasTransport ?u" by (simp add: send_uplink_def)
  show ?thesis
    by (intro exI conjI, subst up, rule s)
       (use w d(6,9) protected_accept_fits [OF d(10)] in
         \<open>simp add: core_effect_def leaving_entity_def release_accept_def nas_down_def fun_upd_idem\<close>)
qed

lemma core_gone:
  assumes pre: "core_pre S c k (PhGone i r t) m"
  shows "\<exists>outs evts m'. process_ngap (st_cr S) rand m (hd (ph_up S k (PhGone i r t))) = Some ((outs, evts), m') \<and>
    core_effect S ay k (PhGone i r t) (PhFinished i r) m m' outs evts"
proof -
  note d = core_preD [OF pre]
  let ?e = "leaving_entity S k i r t" and ?r = "\<lparr>ncrc_amf_ue_ngap_id = i, ncrc_ran_ue_ngap_id = ran_of k\<rparr>"
  have h: "abs_world (a_world m) i = Some ?e"
    "e_tunnel ?e = Some \<lparr>tc_ul_teid = t, tc_dl_teid = dl_of k, tc_enb_addr = st_ip S\<rparr>" "ncrc_amf_ue_ngap_id ?r = i"
    using d(8) by (simp_all add: leaving_entity_def online_entity_def)
  have imsi: "id_imsi (e_identity ?e) = imsi_of k"
    by (simp add: leaving_entity_def online_entity_def accepted_entity_def auth_entity_def sim_authenticated_def
        sim_challenged_def challenged_5g_def Let_def)
  show ?thesis
    by (intro exI conjI, unfold ph_up.simps list.sel, rule dereg_step2(1) [OF d(1) h])
       (use d(1,6,9) in \<open>simp add: core_effect_def imsi ecs_abs fun_upd_idem apply_n3_event_upf event_maps\<close>)
qed

lemma core_advances:
  assumes pre: "core_pre S c k p m" and ok: "ph_ok p" and rand: "length rand = 16"
    and new: "ph_registered k p = None \<Longrightarrow> a_registry m (imsi_of k) = None" and up: "ph_up S k p = msg # rest"
  obtains p' outs evts m' where "process_ngap (st_cr S) rand m msg = Some ((outs, evts), m')"
    "ph_up S k p' = rest" "core_effect S ay k p p' m m' outs evts"
proof -
  note finish = that
  have go: thesis if "\<exists>outs evts m'. process_ngap (st_cr S) rand m (hd (ph_up S k p)) = Some ((outs, evts), m') \<and>
      core_effect S ay k p p' m m' outs evts" "ph_up S k p' = rest" for p'
    using that up by (auto intro: finish)
  show thesis
  proof (cases p)
    case PhStarting
    with pre up obtain i where "\<exists>outs evts m'. process_ngap (st_cr S) rand m (hd (ph_up S k p)) = Some ((outs, evts), m') \<and>
      core_effect S ay k p (PhAsked i) m m' outs evts" using core_starting [of S c k m rand ay] by auto
    then show ?thesis by (rule go) (use PhStarting up in simp)
  next
    case (PhNamed i)
    show ?thesis
      by (rule go [of "PhChallenged i rand"]) (use core_named [of S c k i m rand ay] PhNamed pre rand new up in simp_all)
  next
    case (PhAnswered i r)
    show ?thesis
      by (rule go [of "PhSecured i r"]) (use core_answered [of S c k i r m rand ay] PhAnswered pre up in simp_all)
  next
    case (PhConfirmed i r)
    with pre obtain t where "\<exists>outs evts m'. process_ngap (st_cr S) rand m (hd (ph_up S k p)) = Some ((outs, evts), m') \<and>
      core_effect S ay k p (PhAccepted i r t) m m' outs evts" using core_confirmed [of S c k i r m rand ay] by auto
    then show ?thesis by (rule go) (use PhConfirmed up in simp)
  next
    case (PhOnline i r t l ck)
    show ?thesis
    proof (cases l)
      case BothLeft
      note p = PhOnline [unfolded BothLeft]
      show ?thesis
        by (rule go [of "PhOnline i r t CompleteLeft ck"], unfold p, rule core_setup [OF pre [unfolded p] ok [unfolded p]])
           (use p up in auto)
    next
      case CompleteLeft
      note p = PhOnline [unfolded CompleteLeft]
      show ?thesis
        by (rule go [of "PhOnline i r t NothingLeft ck"], unfold p, rule core_complete [OF pre [unfolded p] ok [unfolded p]])
           (use p up in auto)
    next
      case NothingLeft
      with PhOnline up have "ck = Passed" by (auto split: if_splits)
      note p = PhOnline [unfolded NothingLeft this]
      show ?thesis
        by (rule go [of "PhLeaving i r t"], unfold p, rule core_deregister [OF pre [unfolded p]]) (use p up in auto)
    qed
  next
    case (PhGone i r t)
    show ?thesis
      by (rule go [of "PhFinished i r"]) (use core_gone [of S c k i r t m rand ay] PhGone pre up in simp_all)
  qed (use up in simp_all)
qed

end
