(* ===== verification/Gnb_Tasks.thy ===== *)
theory Gnb_Tasks
  imports Gnb_Core
begin

text \<open>
  The task of a subscriber moves it: for every message it is given, in the phase in which it arrives,
  and for every end of an attempt of the user-plane check. A move of the task leaves the shares of
  the subscriber in the core alone.
\<close>

definition task_effect :: "Setting \<Rightarrow> nat \<Rightarrow> Phase \<Rightarrow> Phase \<Rightarrow> NgapMessage list \<Rightarrow> bool" where
  "task_effect S k p p' msgs \<longleftrightarrow>
     ph_ok p' \<and> ph_entity S k p' = ph_entity S k p \<and> ph_registered k p' = ph_registered k p \<and> ph_sqn p' = ph_sqn p \<and>
     ph_route S k p' = ph_route S k p \<and> ph_up S k p' = ph_up S k p @ msgs \<and> list_all ngap_fits msgs \<and>
     ph_left p' + length msgs < ph_left p \<and> ph_core_left p' = ph_core_left p"

lemma task_send_fits:
  "list_all ngap_fits msgs \<Longrightarrow> task_send True msgs out = (out @ map enc_ngap msgs, None)"
  by (induction msgs arbitrary: out) (simp_all add: enc_ngap)

lemma task_sends_fits:
  "gs_dispatching s \<Longrightarrow> list_all ngap_fits msgs \<Longrightarrow>
   task_sends s k ue msgs st = set_task (s\<lparr>gs_out := gs_out s @ map enc_ngap msgs\<rparr>) k ue st"
  by (simp add: task_sends_def task_send_fits)

section \<open>Messages\<close>

text \<open>What the task makes of a message, as the phase it moves to.\<close>

definition task_takes :: "Setting \<Rightarrow> nat \<Rightarrow> Phase \<Rightarrow> NgapMessage \<Rightarrow> Phase \<Rightarrow> NgapMessage list \<Rightarrow> bool" where
  "task_takes S k p msg p' msgs \<longleftrightarrow>
     (\<forall>s. gs_dispatching s \<longrightarrow> ut_ue (gs_tasks s k) = fst (ph_task S k p) \<longrightarrow>
        task_outcome s k (ue_turn (st_cr S) (st_usim S) (fst (ph_task S k p)) msg) =
        set_task (s\<lparr>gs_out := gs_out s @ map enc_ngap msgs\<rparr>) k (fst (ph_task S k p')) (snd (ph_task S k p')))"

lemma task_takesI:
  assumes "list_all ngap_fits msgs"
    and "ue_turn (st_cr S) (st_usim S) (fst (ph_task S k p)) msg = UeContinue (fst (ph_task S k p')) msgs \<and>
        snd (ph_task S k p') = TaskWaiting \<or>
      ue_turn (st_cr S) (st_usim S) (fst (ph_task S k p)) msg = UeDone msgs \<and>
        ph_task S k p' = (fst (ph_task S k p), TaskEnded TaskOk) \<or>
      (\<exists>a u t. ue_turn (st_cr S) (st_usim S) (fst (ph_task S k p)) msg = UeRoundTrip (fst (ph_task S k p')) msgs a u t \<and>
        snd (ph_task S k p') = TaskChecking a u t 0 False)"
  shows "task_takes S k p msg p' msgs"
  using assms by (auto simp: task_takes_def task_outcome_def task_sends_fits)

lemma task_asked:
  "task_takes S k (PhAsked i) (hd (ph_down S k (PhAsked i))) (PhNamed i) (ph_up S k (PhNamed i))"
  using ue_turn_identity [of "st_cr S" "st_usim S" "gnb_ue (st_ip S) k" i]
  by (intro task_takesI) (simp_all add: nas_down_def get_or_insert_def)

lemma task_challenged:
  assumes "setting_ok S" "length r = 16"
  shows "task_takes S k (PhChallenged i r) (hd (ph_down S k (PhChallenged i r))) (PhAnswered i r) (ph_up S k (PhAnswered i r))"
proof -
  let ?res = "pending_xres_star (e_security5g (sim_challenged (st_cr S) (st_usim S) r (imsi_of k) (ran_of k)))"
  let ?tok = "autn (sim_vector (st_cr S) (st_usim S) r) (replicate 6 0) MILENAGE_AMF_FIELD"
  have S: "hmac_len (st_cr S)" "aes_len (st_cr S)" "length (mc_opc (st_usim S)) = 16"
    using assms(1) by (simp_all add: setting_ok_def)
  have l: "length (MILENAGE_AMF_FIELD) = 2" "length (replicate 6 0 :: bytes) = 6"
    by (simp_all add: MILENAGE_AMF_FIELD_def)
  have tok: "length ?tok = 16"
    using length_milenage_compute [OF S(2) assms(2) S(3) l(2,1)] l by (simp add: sim_vector_def length_autn)
  have res: "length ?res = 16" by (rule length_pending_xres_star [OF S(1)])
  have "ue_authenticate (st_cr S) (st_usim S) (ue_imsi (named_ue S k i)) r = (?res, kamf_of (st_cr S) (auth_entity S k r))"
    using ue_authenticate_matches [of "st_cr S" "st_usim S" "imsi_of k" r "ran_of k"] by (simp add: auth_entity_def)
  note t = ue_turn_challenge [OF assms(2) tok _ this]
  show ?thesis using t res by (intro task_takesI) (simp_all add: nas_down_def)
qed

lemma task_secured:
  "task_takes S k (PhSecured i r) (hd (ph_down S k (PhSecured i r))) (PhConfirmed i r) (ph_up S k (PhConfirmed i r))"
  using ue_turn_security_mode [of "keyed_ue S k i r" i]
  by (intro task_takesI) (simp_all add: nas_down_def)

lemma setup_msgs_fit: "length (st_ip S) = 4 \<Longrightarrow> list_all ngap_fits (setup_msgs S k i l)"
  by (cases l) (simp_all add: sim_ics_response_def session_setup_ok_def)

lemma task_accepted:
  assumes "setting_ok S"
  shows "task_takes S k (PhAccepted i r t) (hd (ph_down S k (PhAccepted i r t))) (PhOnline i r t BothLeft (Checking 0 False))
    (setup_msgs S k i BothLeft)"
proof -
  have S: "ctr_stream (st_cr S)" "cmac_len (st_cr S)" "length (st_ip S) = 4" using assms by (simp_all add: setting_ok_def)
  have ue: "ue_amf_id (keyed_ue S k i r) = Some i" "ue_kamf (keyed_ue S k i r) = Some (kamf_of (st_cr S) (auth_entity S k r))"
    by simp_all
  note t = ue_turn_context_setup [OF S(1,2) ue, of "st_usim S" t "st_upf S", folded sim_ics_response_def]
  show ?thesis using t setup_msgs_fit [OF S(3), of k i BothLeft]
    by (intro task_takesI) (simp_all add: sim_ics_response_def)
qed

lemma task_leaving:
  assumes "setting_ok S"
  shows "task_takes S k (PhLeaving i r t) (hd (ph_down S k (PhLeaving i r t))) (PhReleasing i r t) []"
proof -
  have S: "ctr_stream (st_cr S)" "cmac_len (st_cr S)" using assms by (simp_all add: setting_ok_def)
  have ue: "ue_amf_id (keyed_ue S k i r) = Some i" "ue_kamf (keyed_ue S k i r) = Some (kamf_of (st_cr S) (auth_entity S k r))"
    by simp_all
  show ?thesis using ue_turn_release_accept [OF S ue, of "st_usim S"]
    by (intro task_takesI) (simp_all add: nas_down_def release_accept_def)
qed

lemma task_releasing:
  "task_takes S k (PhReleasing i r t) (hd (ph_down S k (PhReleasing i r t))) (PhGone i r t) (ph_up S k (PhGone i r t))"
  using ue_turn_release [of "st_cr S" "st_usim S" "keyed_ue S k i r" i]
  by (intro task_takesI) simp_all

lemma ph_up_fits: "setting_ok S \<Longrightarrow> list_all ngap_fits (ph_up S k p)"
  using setup_msgs_fit [of S k] length_pending_xres_star [of "st_cr S"]
  by (cases p) (simp_all add: setting_ok_def ue_start_def)

lemma task_advances:
  assumes S: "setting_ok S" and ok: "ph_ok p" and down: "ph_down S k p = msg # rest"
  obtains p' msgs where "task_takes S k p msg p' msgs" "ph_down S k p' = rest" "task_effect S k p p' msgs"
    "snd (ph_task S k p) = TaskWaiting" "snd (ph_task S k p') \<noteq> no_echo"
    "\<And>i u t j. snd (ph_task S k p') \<noteq> TaskChecking i u t j True"
proof -
  note fits = ph_up_fits [OF S, of k]
  note finish = that
  have go: thesis if "task_takes S k p (hd (ph_down S k p)) q ms" "ph_down S k q = rest" "task_effect S k p q ms"
    "snd (ph_task S k p) = TaskWaiting" "snd (ph_task S k q) \<noteq> no_echo"
    "\<And>i u t j. snd (ph_task S k q) \<noteq> TaskChecking i u t j True" for q ms
    by (rule finish [of q ms]) (use that down in simp_all)
  show thesis
  proof (cases p)
    case (PhAsked i)
    show ?thesis by (rule go [OF task_asked [of S k i, folded PhAsked]])
        (use PhAsked down fits [of "PhNamed i"] in \<open>simp_all add: task_effect_def\<close>)
  next
    case (PhChallenged i r)
    then have r: "length r = 16" using ok by simp
    show ?thesis by (rule go [OF task_challenged [OF S r, of k i, folded PhChallenged]])
        (use PhChallenged down r fits [of "PhAnswered i r"] in \<open>simp_all add: task_effect_def\<close>)
  next
    case (PhSecured i r)
    show ?thesis by (rule go [OF task_secured [of S k i r, folded PhSecured]])
        (use PhSecured down fits [of "PhConfirmed i r"] in \<open>simp_all add: task_effect_def\<close>)
  next
    case (PhAccepted i r t)
    show ?thesis by (rule go [OF task_accepted [OF S, of k i r t, folded PhAccepted]])
        (use PhAccepted down fits [of "PhOnline i r t BothLeft (Checking 0 False)"] in \<open>simp_all add: task_effect_def\<close>)
  next
    case (PhLeaving i r t)
    show ?thesis by (rule go [OF task_leaving [OF S, of k i r t, folded PhLeaving]])
        (use PhLeaving down in \<open>simp_all add: task_effect_def\<close>)
  next
    case (PhReleasing i r t)
    show ?thesis by (rule go [OF task_releasing [of S k i r t, folded PhReleasing]])
        (use PhReleasing down fits [of "PhGone i r t"] in \<open>simp_all add: task_effect_def\<close>)
  qed (use down in simp_all)
qed

lemma task_starts:
  assumes "setting_ok S"
  shows "task_effect S k PhFresh PhStarting (ph_up S k PhStarting)"
  using ph_up_fits [OF assms, of k PhStarting] by (simp add: task_effect_def)

section \<open>The user-plane check\<close>

text \<open>Whatever the routes are, what comes back is the payload that was sent.\<close>

lemma upf_echo_payload:
  assumes "upf_echo rt (sim_gpdu t) src = Some (dgram, addr)"
  shows "\<exists>d. dgram = to_bytes (new_gpdu d (of_nat (length SIM_PAYLOAD))) @ SIM_PAYLOAD"
proof -
  let ?h = "new_gpdu t (of_nat (length SIM_PAYLOAD))"
  have "\<not> has_optional_fields ?h"
    by (simp add: new_gpdu_def has_optional_fields_def FLAGS_STANDARD_def VERSION_1_def PT_GTP_def FLAG_E_def
        FLAG_S_def FLAG_PN_def)
  then have "GtpuParser_parse (sim_gpdu t) = Some \<lparr>header = ?h, payload = SIM_PAYLOAD\<rparr>"
    unfolding sim_gpdu_def by (rule GtpuParser_parse_plain)
  then show ?thesis
    using assms by (auto simp: upf_echo_def process_uplink_def encapsulate_downlink_def new_gpdu_def is_gpdu_def
        MSG_GPDU_def MSG_ECHO_REQ_def Let_def bind_eq_Some_conv split: option.splits)
qed

text \<open>The datagrams under way and the queues of the tasks hold that payload only.\<close>

fun echo_only :: "Datagram \<Rightarrow> bool" where
  "echo_only (ToUpf dgram src dst) \<longleftrightarrow> (\<exists>t. dgram = sim_gpdu t)"
| "echo_only (ToGnb dgram) \<longleftrightarrow> (\<exists>d. dgram = to_bytes (new_gpdu d (of_nat (length SIM_PAYLOAD))) @ SIM_PAYLOAD)"

definition gtp_clean :: "GnbSim \<Rightarrow> bool" where
  "gtp_clean s \<longleftrightarrow> list_all echo_only (gs_net s) \<and> (\<forall>k. set (ut_gtp (gs_tasks s k)) \<subseteq> {SIM_PAYLOAD})"

lemma upf_receives_echo: "echo_only (ToUpf dgram src dst) \<Longrightarrow> list_all echo_only (upf_receives s dgram src dst)"
  by (auto simp: upf_receives_def split: option.split dest!: upf_echo_payload [simplified])

lemma upf_receives_length: "length (upf_receives s dgram src dst) \<le> 1"
  by (simp add: upf_receives_def split: option.split prod.split)

lemma gnb_receives_clean:
  assumes "gtp_clean s" "echo_only (ToGnb dgram)"
  shows "gtp_clean (gnb_receives gnb s dgram)"
proof (cases "gtp_demux (dl_routes gnb) dgram")
  case (Some kp)
  then have "snd kp = SIM_PAYLOAD" using assms(2) by (auto simp: gtp_demux_gpdu [simplified])
  with Some assms(1) show ?thesis by (auto simp: gnb_receives_def gtp_clean_def split: prod.splits)
qed (use assms in \<open>simp add: gnb_receives_def\<close>)

lemma gnb_receives_keeps [simp]:
  "gs_core (gnb_receives gnb s d) = gs_core s" "gs_down (gnb_receives gnb s d) = gs_down s"
  "gs_out (gnb_receives gnb s d) = gs_out s" "gs_dispatch (gnb_receives gnb s d) = gs_dispatch s"
  "gs_dispatching (gnb_receives gnb s d) = gs_dispatching s" "gs_net (gnb_receives gnb s d) = gs_net s"
  "ut_ue (gs_tasks (gnb_receives gnb s d) l) = ut_ue (gs_tasks s l)"
  "ut_state (gs_tasks (gnb_receives gnb s d) l) = ut_state (gs_tasks s l)"
  by (simp_all add: gnb_receives_def split: option.split)

lemma net_remove_clean: "gtp_clean s \<Longrightarrow> gtp_clean (net_remove s i)"
  by (auto simp: gtp_clean_def net_remove_def list_all_iff dest: in_set_takeD in_set_dropD)

lemma net_remove_keeps [simp]:
  "gs_core (net_remove s i) = gs_core s" "gs_down (net_remove s i) = gs_down s"
  "gs_out (net_remove s i) = gs_out s" "gs_dispatch (net_remove s i) = gs_dispatch s"
  "gs_dispatching (net_remove s i) = gs_dispatching s" "gs_tasks (net_remove s i) = gs_tasks s"
  by (simp_all add: net_remove_def)

end
