(* ===== verification/Gnb_Invariant.thy ===== *)
theory Gnb_Invariant
  imports Gnb_Tasks
begin

text \<open>
  The state of the composed system is at every moment that of its subscribers, each in a phase of its
  own: the maps of the core and of the user plane are made of the slots of the subscribers, and every
  queue is a merge of their messages. Each action moves one subscriber by one phase, or a message
  from one queue to the next.
\<close>

section \<open>Identifiers\<close>

lemma imsi_of_bound: "k \<le> 8192 \<Longrightarrow> imsi_of k < 2 ^ 40"
  by (simp add: word_less_nat_alt unat_word_ariths unat_of_nat TEST_IMSI_def)

lemma imsi_of_inj: "k \<le> 8192 \<Longrightarrow> l \<le> 8192 \<Longrightarrow> imsi_of k = imsi_of l \<Longrightarrow> k = l"
proof -
  assume "k \<le> 8192" "l \<le> 8192" "imsi_of k = imsi_of l"
  moreover have "unat (of_nat i :: u64) = i" if "i \<le> 8192" for i using that by (simp add: unat_of_nat)
  ultimately show "k = l" by (metis add_left_cancel)
qed

section \<open>The core\<close>

definition core_inv :: "Setting \<Rightarrow> nat \<Rightarrow> (nat \<Rightarrow> Phase) \<Rightarrow> nat \<Rightarrow> Amf \<times> SessionManager \<Rightarrow> bool" where
  "core_inv S n ph c st \<longleftrightarrow> amf_node_inv c st \<and> a_phase_b_upf (fst st) = Some (st_upf S) \<and>
     (\<forall>k < n. a_hss (fst st) (imsi_of k) = Some \<lparr>sr_ctx = st_usim S, sr_sqn = ph_sqn (ph k)\<rparr>) \<and>
     family n (\<lambda>k. ph_entity S k (ph k)) (abs_world (a_world (fst st))) \<and>
     family n (\<lambda>k. ph_registered k (ph k)) (a_registry (fst st)) \<and>
     family n (\<lambda>k. ph_route S k (ph k)) (ul_map (sm_routing (snd st)))"

lemma slots_upd:
  "(\<lambda>l. f l ((ph(k := p)) l)) = (\<lambda>l. f l (ph l))(k := f k p)"
  by (auto simp: fun_eq_iff)

text \<open>The TEID of a route is that of the tunnel of the entity.\<close>

lemma ph_route_tunnel:
  assumes "ph_route S k p = Some (t, e)"
  shows "\<exists>i en. ph_entity S k p = Some (i, en) \<and> map_option tc_ul_teid (e_tunnel en) = Some t"
  using assms
  by (cases p) (auto simp: leaving_entity_def online_entity_def accepted_entity_def Let_def)

lemma route_teid_used:
  assumes core: "core_inv S n ph c (m, sm)" and t: "ul_map (sm_routing sm) t = Some e"
  shows "t \<in> teid_used (a_teids m)"
proof -
  have "family n (\<lambda>k. ph_route S k (ph k)) (ul_map (sm_routing sm))" using core by (simp add: core_inv_def)
  from familyD(2) [OF this t] obtain l where l: "l < n" "ph_route S l (ph l) = Some (t, e)" by auto
  obtain i en where en: "ph_entity S l (ph l) = Some (i, en)" "map_option tc_ul_teid (e_tunnel en) = Some t"
    using ph_route_tunnel [OF l(2)] by blast
  have f: "family n (\<lambda>k. ph_entity S k (ph k)) (abs_world (a_world m))" using core by (simp add: core_inv_def)
  have "abs_world (a_world m) i = Some en" using familyD(1) [OF f l(1)] en(1) by simp
  then have "teid_of (a_world m) i = Some t" using en(2) by (simp add: teid_of_def)
  moreover have "tunnels_ok (a_world m) (a_teids m)" using core by (simp add: core_inv_def amf_node_inv_def amf_inv_def)
  ultimately show ?thesis by (auto simp: tunnels_ok_def)
qed

lemma ph_registered_key: "ph_registered k p = Some (j, i) \<Longrightarrow> j = imsi_of k"
  by (cases p) auto

lemma core_inv_unregistered:
  assumes "core_inv S n ph c (m, sm)" "k < n" "n \<le> 8192" "ph_registered k (ph k) = None"
  shows "a_registry m (imsi_of k) = None"
proof (rule ccontr)
  assume "a_registry m (imsi_of k) \<noteq> None"
  then obtain i where i: "a_registry m (imsi_of k) = Some i" by blast
  have "family n (\<lambda>k. ph_registered k (ph k)) (a_registry m)" using assms(1) by (simp add: core_inv_def)
  from familyD(2) [OF this i] obtain l where l: "l < n" "ph_registered l (ph l) = Some (imsi_of k, i)" by auto
  then have "imsi_of k = imsi_of l" by (metis ph_registered_key)
  then have "k = l" using imsi_of_inj assms(2,3) l(1) by (meson less_imp_le order_trans)
  with l(2) assms(4) show False by simp
qed

lemma core_inv_step:
  assumes core: "core_inv S n ph c (m, sm)" and S: "setting_ok S" and k: "k < n" "n \<le> 8192"
    and ok: "ph_ok (ph k)" and room: "amf_room c" and rand: "length rand = 16" and up: "ph_up S k (ph k) = msg # rest"
  obtains p' outs evts m' where "process_ngap (st_cr S) rand m msg = Some ((outs, evts), m')" "ph_up S k p' = rest"
    "core_effect S ay k (ph k) p' m m' outs evts"
    "core_inv S n (ph(k := p')) (Suc c) (m', foldl (apply_n3_event ay) sm evts)"
proof -
  let ?p = "ph k"
  have f: "family n (\<lambda>k. ph_entity S k (ph k)) (abs_world (a_world m))"
    "family n (\<lambda>k. ph_registered k (ph k)) (a_registry m)"
    "family n (\<lambda>k. ph_route S k (ph k)) (ul_map (sm_routing sm))"
    using core by (simp_all add: core_inv_def)
  have inv: "amf_node_inv c (m, sm)" using core by (simp add: core_inv_def)
  have pre: "core_pre S c k ?p m"
    using core S k room familyD(1) [OF f(1) k(1)] familyD(1) [OF f(2) k(1)] imsi_of_bound [of k]
    by (simp add: core_pre_def core_inv_def amf_node_inv_def)
  obtain p' outs evts m' where s: "process_ngap (st_cr S) rand m msg = Some ((outs, evts), m')" "ph_up S k p' = rest"
    and eff: "core_effect S ay k ?p p' m m' outs evts"
    by (rule core_advances [OF pre ok rand core_inv_unregistered [OF core k] up])
  let ?sm = "foldl (apply_n3_event ay) sm evts"
  have e: "abs_world (a_world m') = slot_upd (ph_entity S k ?p) (ph_entity S k p') (abs_world (a_world m))"
    "slot_new (ph_entity S k ?p) (ph_entity S k p') (abs_world (a_world m))"
    "a_registry m' = slot_upd (ph_registered k ?p) (ph_registered k p') (a_registry m)"
    "a_hss m' = (a_hss m)(imsi_of k \<mapsto> \<lparr>sr_ctx = st_usim S, sr_sqn = ph_sqn p'\<rparr>)"
    "ul_map (sm_routing ?sm) = slot_upd (ph_route S k ?p) (ph_route S k p') (ul_map (sm_routing sm))"
    using eff familyD(1) [OF f(3) k(1)] by (simp_all add: core_effect_def)
  have reg: "slot_new (ph_registered k ?p) (ph_registered k p') (a_registry m)"
    unfolding slot_new_def
  proof (intro allI impI)
    fix j i assume "ph_registered k p' = Some (j, i)"
    then have j: "j = imsi_of k" by (rule ph_registered_key)
    show "map_option fst (ph_registered k ?p) = Some j \<or> a_registry m j = None"
      using j ph_registered_key [of k ?p] core_inv_unregistered [OF core k] by (cases "ph_registered k ?p") auto
  qed
  have route: "slot_new (ph_route S k ?p) (ph_route S k p') (ul_map (sm_routing sm))"
    unfolding slot_new_def
  proof (intro allI impI)
    fix t e assume "ph_route S k p' = Some (t, e)"
    then have "map_option fst (ph_route S k ?p) = Some t \<or> t \<notin> teid_used (a_teids m)"
      using eff unfolding core_effect_def by blast
    then show "map_option fst (ph_route S k ?p) = Some t \<or> ul_map (sm_routing sm) t = None"
      using route_teid_used [OF core, of t] by auto
  qed
  have "a_hss m' (imsi_of l) = Some \<lparr>sr_ctx = st_usim S, sr_sqn = ph_sqn ((ph(k := p')) l)\<rparr>" if "l < n" for l
    using core that k imsi_of_inj [of k l] by (auto simp: e(4) core_inv_def)
  moreover have "a_phase_b_upf m' = Some (st_upf S)"
    using process_ngap_hss [OF s(1)] core by (simp add: core_inv_def amf_node_inv_def)
  moreover have "amf_node_inv (Suc c) (m', ?sm)" using amf_node_events [OF inv room, of "st_cr S" rand msg] s(1) by simp
  ultimately have "core_inv S n (ph(k := p')) (Suc c) (m', ?sm)"
    unfolding core_inv_def slots_upd fst_conv snd_conv e(1,3,5)
    using family_step [OF f(1) k(1) e(2)] family_step [OF f(2) k(1) reg] family_step [OF f(3) k(1) route] by auto
  with s eff show thesis by (rule that)
qed

text \<open>A move of a task leaves the core alone.\<close>

lemma core_inv_task:
  assumes "core_inv S n ph c st" "task_effect S k (ph k) p' msgs"
  shows "core_inv S n (ph(k := p')) c st"
proof -
  have "(\<lambda>l. ph_entity S l ((ph(k := p')) l)) = (\<lambda>l. ph_entity S l (ph l))"
    "(\<lambda>l. ph_registered l ((ph(k := p')) l)) = (\<lambda>l. ph_registered l (ph l))"
    "(\<lambda>l. ph_route S l ((ph(k := p')) l)) = (\<lambda>l. ph_route S l (ph l))"
    using assms(2) by (simp_all add: fun_eq_iff task_effect_def)
  then show ?thesis
    using assms unfolding core_inv_def by (simp only:) (simp add: task_effect_def)
qed

end
