(* ===== verification/Gnb_Steps.thy ===== *)
theory Gnb_Steps
  imports Gnb_Invariant
begin

text \<open>The invariant of the composed system, and the lemmas that every action keeps it and shortens what is left.\<close>

section \<open>Queues\<close>

text \<open>A queue of PDUs as messages tagged with their subscribers, and the messages of one of them.\<close>

definition carries :: "nat \<Rightarrow> (nat \<times> NgapMessage) list \<Rightarrow> bytes list \<Rightarrow> bool" where
  "carries n xs q \<longleftrightarrow> q = map (\<lambda>x. enc_ngap (snd x)) xs \<and> (\<forall>x \<in> set xs. fst x < n)"

definition lane :: "nat \<Rightarrow> (nat \<times> NgapMessage) list \<Rightarrow> NgapMessage list" where
  "lane k xs = map snd (filter (\<lambda>x. fst x = k) xs)"

lemma lane_simps [simp]:
  "lane k [] = []" "lane k (x # xs) = (if fst x = k then snd x # lane k xs else lane k xs)"
  "lane k (xs @ ys) = lane k xs @ lane k ys" "lane k (map (Pair l) ms) = (if l = k then ms else [])"
  by (simp_all add: lane_def filter_map comp_def)

lemma carries_append:
  "carries n xs q \<Longrightarrow> k < n \<Longrightarrow> carries n (xs @ map (Pair k) ms) (q @ map enc_ngap ms)"
  by (auto simp: carries_def)

lemma carries_Cons:
  "carries n xs (pdu # q) \<Longrightarrow> \<exists>k msg ys. xs = (k, msg) # ys \<and> pdu = enc_ngap msg \<and> k < n \<and> carries n ys q"
  by (auto simp: carries_def Cons_eq_map_conv)

lemma carries_Nil: "carries n xs [] \<longleftrightarrow> xs = []"
  by (auto simp: carries_def)

section \<open>The gNodeB\<close>

definition gnb_serves :: "nat \<Rightarrow> bytes \<Rightarrow> Gnb \<Rightarrow> bool" where
  "gnb_serves n ip gnb \<longleftrightarrow> length (gnb_ues gnb) = n \<and>
     (\<forall>k < n. gnb_ues gnb ! k = gnb_ue ip k \<and> ngap_routes gnb (ran_of k) = Some k \<and> dl_routes gnb (dl_of k) = Some k)"

lemma gnb_start_serves:
  assumes "run_gnb_start (V4 ip, port) n_ues (Some Connected) = Some (Inr gnb)"
  shows "gnb_serves (unat n_ues) ip gnb"
proof -
  have g: "gnb_spawn ip [0..<unat n_ues] \<lparr>gnb_ues = [], ngap_routes = Map.empty, dl_routes = Map.empty\<rparr> = Some gnb"
    using assms by (auto simp: run_gnb_start_def ipv4_octets_def)
  then show ?thesis using gnb_spawn_upto [OF g] by (simp add: gnb_serves_def)
qed

section \<open>The invariant\<close>

definition gnb_inv ::
    "Setting \<Rightarrow> nat \<Rightarrow> (nat \<Rightarrow> Phase) \<Rightarrow> (nat \<times> NgapMessage) list \<Rightarrow> (nat \<times> NgapMessage) list \<Rightarrow> nat \<Rightarrow> GnbSim \<Rightarrow> bool" where
  "gnb_inv S n ph ups downs c s \<longleftrightarrow>
     (\<exists>st. gs_core s = Some st \<and> core_inv S n ph c st) \<and>
     carries n ups (dp_sent (gs_dispatch s) @ gs_out s) \<and> (\<forall>k < n. lane k ups = ph_up S k (ph k)) \<and>
     carries n downs (gs_down s) \<and> (\<forall>k < n. dp_queues (gs_dispatch s) k @ lane k downs = ph_down S k (ph k)) \<and>
     (\<forall>k < n. ut_ue (gs_tasks s k) = fst (ph_task S k (ph k)) \<and> ut_state (gs_tasks s k) = snd (ph_task S k (ph k))) \<and>
     gtp_clean s \<and> (\<forall>k < n. ph_ok (ph k)) \<and> c + (\<Sum>k < n. ph_core_left (ph k)) \<le> 8 * n \<and>
     (gs_dispatching s \<or> (\<forall>k < n. \<exists>r. snd (ph_task S k (ph k)) = TaskEnded r))"

fun hops_left :: "Datagram \<Rightarrow> nat" where
  "hops_left (ToUpf dgram src dst) = 2"
| "hops_left (ToGnb dgram) = 1"

definition gnb_left :: "nat \<Rightarrow> (nat \<Rightarrow> Phase) \<Rightarrow> GnbSim \<Rightarrow> nat" where
  "gnb_left n ph s = (\<Sum>k < n. ph_left (ph k)) + length (gs_out s) + length (gs_down s) +
     sum_list (map hops_left (gs_net s)) + (if gs_dispatching s then 1 else 0)"

lemma sum_phase_upd:
  fixes f :: "Phase \<Rightarrow> nat" and k n :: nat
  assumes "k < n"
  shows "(\<Sum>l < n. f ((ph(k := p)) l)) + f (ph k) = (\<Sum>l < n. f (ph l)) + f p"
proof -
  have "(\<Sum>l < n. f ((ph(k := p)) l)) = f p + (\<Sum>l \<in> {..<n} - {k}. f (ph l))"
    using assms by (subst sum.remove [of _ k]) (auto intro!: sum.cong)
  moreover have "(\<Sum>l < n. f (ph l)) = f (ph k) + (\<Sum>l \<in> {..<n} - {k}. f (ph l))"
    using assms by (simp add: sum.remove [of "{..<n}" k])
  ultimately show ?thesis by simp
qed

lemma ph_down_ran: "msg \<in> set (ph_down S k p) \<Longrightarrow> ran_ue_ngap_id_of msg = Some (ran_of k)"
  by (cases p) (auto simp: nas_down_def accept_request_ran)

lemma ph_down_fits:
  assumes S: "setting_ok S" and ok: "ph_ok p"
  shows "list_all ngap_fits (ph_down S k p)"
proof -
  have s: "ctr_stream (st_cr S)" "hmac_len (st_cr S)" "aes_len (st_cr S)" "length (st_upf S) = 4"
    "length (mc_opc (st_usim S)) = 16" using S by (simp_all add: setting_ok_def)
  have l: "length (MILENAGE_AMF_FIELD) = 2" "length (replicate 6 0 :: bytes) = 6"
    by (simp_all add: MILENAGE_AMF_FIELD_def)
  have tok: "length (autn (sim_vector (st_cr S) (st_usim S) r) (replicate 6 0) MILENAGE_AMF_FIELD) = 16" if "length r = 16" for r
    using length_milenage_compute [OF s(3) that s(5) l(2,1)] l by (simp add: sim_vector_def length_autn)
  show ?thesis
  proof (cases p)
    case (PhAccepted i r t)
    then show ?thesis using accept_request_fits [OF s(1,2,4)] by (simp del: ngap_fits.simps)
  next
    case (PhLeaving i r t)
    then show ?thesis using protected_accept_fits [OF s(1)] by (simp add: nas_down_def release_accept_def)
  qed (use tok ok in \<open>simp_all add: nas_down_def length_auth_request_5g\<close>)
qed

section \<open>The core\<close>

lemma core_turn_keeps:
  assumes inv: "gnb_inv S n ph ups downs c s" and S: "setting_ok S" and n: "n \<le> 8192" and rand: "length rand = 16"
    and step: "core_turn (st_cr S) ay rand s = Some s'"
  shows "\<exists>ph' ups' downs' c'. gnb_inv S n ph' ups' downs' c' s' \<and> gnb_left n ph' s' < gnb_left n ph s"
proof -
  obtain m sm where core: "gs_core s = Some (m, sm)" "core_inv S n ph c (m, sm)" using inv by (auto simp: gnb_inv_def)
  obtain pdu rest where sent: "dp_sent (gs_dispatch s) = pdu # rest"
    using step core(1) by (auto simp: core_turn_def split: list.splits)
  have "carries n ups (pdu # (rest @ gs_out s))" using inv sent by (simp add: gnb_inv_def)
  then obtain k msg us where us: "ups = (k, msg) # us" "pdu = enc_ngap msg" "k < n" "carries n us (rest @ gs_out s)"
    using carries_Cons by blast
  have lane: "lane l ups = ph_up S l (ph l)" if "l < n" for l using inv that by (simp add: gnb_inv_def)
  have up: "ph_up S k (ph k) = msg # lane k us" using lane [OF us(3)] us(1) by simp
  have ok: "ph_ok (ph l)" if "l < n" for l using inv that by (simp add: gnb_inv_def)
  have "c \<le> 8 * n" using inv by (simp add: gnb_inv_def)
  then have room: "amf_room c" using n by (simp add: amf_room_def)
  obtain p' outs evts m' where s1: "process_ngap (st_cr S) rand m msg = Some ((outs, evts), m')" "ph_up S k p' = lane k us"
    and eff: "core_effect S ay k (ph k) p' m m' outs evts"
    and core': "core_inv S n (ph(k := p')) (Suc c) (m', foldl (apply_n3_event ay) sm evts)"
    by (rule core_inv_step [where ay = ay, OF core(2) S us(3) n ok [OF us(3)] room rand up])
  have fits: "ngap_fits msg" using ph_up_fits [OF S, of k "ph k"] up by simp
  have e: "list_all ngap_fits outs" "ph_ok p'" "ph_task S k p' = ph_task S k (ph k)" "ph_down S k p' = ph_down S k (ph k) @ outs"
    "ph_left p' + length outs < ph_left (ph k)" "ph_core_left p' < ph_core_left (ph k)"
    using eff by (simp_all add: core_effect_def)
  have turn: "amf_node_turn (st_cr S) ay rand (m, sm) pdu =
      Some (Inr (map enc_ngap outs, m', foldl (apply_n3_event ay) sm evts))"
    using fits s1(1) ngap_encode_all_enc [OF e(1)] us(2) by (simp add: amf_node_turn_def enc_ngap Let_def)
  have s': "s' = s\<lparr>gs_dispatch := (gs_dispatch s)\<lparr>dp_sent := rest\<rparr>,
      gs_core := Some (m', foldl (apply_n3_event ay) sm evts), gs_down := gs_down s @ map enc_ngap outs\<rparr>"
    using step sent core(1) turn by (simp add: core_turn_def)
  have "gnb_inv S n (ph(k := p')) us (downs @ map (Pair k) outs) (Suc c) s'"
    unfolding gnb_inv_def
  proof (intro conjI)
    show "\<exists>st. gs_core s' = Some st \<and> core_inv S n (ph(k := p')) (Suc c) st" using core' by (simp add: s')
    show "carries n us (dp_sent (gs_dispatch s') @ gs_out s')" using us(4) by (simp add: s')
    show "\<forall>l < n. lane l us = ph_up S l ((ph(k := p')) l)" 
    proof (intro allI impI)
      fix l assume "l < n"
      then show "lane l us = ph_up S l ((ph(k := p')) l)" using lane [of l] s1(2) us(1) by (cases "l = k") simp_all
    qed
    show "carries n (downs @ map (Pair k) outs) (gs_down s')"
      using inv carries_append [OF _ us(3)] by (simp add: s' gnb_inv_def)
    show "\<forall>l < n. dp_queues (gs_dispatch s') l @ lane l (downs @ map (Pair k) outs) = ph_down S l ((ph(k := p')) l)"
      using inv e(4) us(3) by (auto simp: s' gnb_inv_def)
    show "\<forall>l < n. ut_ue (gs_tasks s' l) = fst (ph_task S l ((ph(k := p')) l)) \<and>
        ut_state (gs_tasks s' l) = snd (ph_task S l ((ph(k := p')) l))"
      using inv e(3) by (simp add: s' gnb_inv_def)
    show "gtp_clean s'" using inv by (simp add: s' gnb_inv_def gtp_clean_def)
    show "\<forall>l < n. ph_ok ((ph(k := p')) l)" using ok e(2) by simp
    show "Suc c + (\<Sum>k' < n. ph_core_left ((ph(k := p')) k')) \<le> 8 * n"
    proof -
      have "c + (\<Sum>k < n. ph_core_left (ph k)) \<le> 8 * n" using inv by (simp add: gnb_inv_def)
      then show ?thesis using sum_phase_upd [OF us(3), of ph_core_left ph p'] e(6) by linarith
    qed
    show "gs_dispatching s' \<or> (\<forall>l < n. \<exists>r. snd (ph_task S l ((ph(k := p')) l)) = TaskEnded r)"
      using inv e(3) by (auto simp: s' gnb_inv_def)
  qed
  moreover have "gnb_left n (ph(k := p')) s' < gnb_left n ph s"
    using sum_phase_upd [OF us(3), of ph_left ph p'] e(5) by (simp add: gnb_left_def s' del: fun_upd_apply)
  ultimately show ?thesis by blast
qed

section \<open>The dispatcher\<close>

lemma link_to_gnb_keeps:
  assumes inv: "gnb_inv S n ph ups downs c s" and S: "setting_ok S" and gnb: "gnb_serves n (st_ip S) gnb"
    and step: "gnb_sim_step cr ay usim gnb LinkToGnb s = Some s'"
  shows "\<exists>ph' ups' downs' c'. gnb_inv S n ph' ups' downs' c' s' \<and> gnb_left n ph' s' < gnb_left n ph s"
proof -
  obtain pdu rest where down: "gs_down s = pdu # rest" "gs_dispatching s" using step by (auto split: list.splits if_splits)
  have "carries n downs (pdu # rest)" using inv down by (simp add: gnb_inv_def)
  then obtain k msg ds where ds: "downs = (k, msg) # ds" "pdu = enc_ngap msg" "k < n" "carries n ds rest"
    using carries_Cons by blast
  have q: "dp_queues (gs_dispatch s) l @ lane l downs = ph_down S l (ph l)" if "l < n" for l
    using inv that by (simp add: gnb_inv_def)
  have mem: "msg \<in> set (ph_down S k (ph k))" using q [OF ds(3)] ds(1) by (metis fst_conv in_set_conv_decomp lane_simps(2) snd_conv)
  have "ngap_fits msg" using ph_down_fits [OF S, of "ph k" k] mem inv ds(3) by (simp add: gnb_inv_def list_all_iff)
  then have "gnb_dispatch (ngap_routes gnb) [FromLink (Message pdu)] (gs_dispatch s) =
      (gs_dispatch s)\<lparr>dp_queues := (dp_queues (gs_dispatch s))(k := dp_queues (gs_dispatch s) k @ [msg])\<rparr>"
    using ph_down_ran [OF mem] gnb ds(2,3) by (simp add: gnb_deliver_def enc_ngap gnb_serves_def)
  then have s': "s' = s\<lparr>gs_down := rest, gs_dispatch := (gs_dispatch s)\<lparr>dp_queues :=
      (dp_queues (gs_dispatch s))(k := dp_queues (gs_dispatch s) k @ [msg])\<rparr>\<rparr>"
    using step down by simp
  have "gnb_inv S n ph ups ds c s'"
    using inv q ds unfolding gnb_inv_def s' by (auto simp: gtp_clean_def split: if_splits)
  moreover have "gnb_left n ph s' < gnb_left n ph s" using down(1) by (simp add: gnb_left_def s')
  ultimately show ?thesis by blast
qed

lemma task_to_link_keeps:
  assumes inv: "gnb_inv S n ph ups downs c s" and step: "gnb_sim_step cr ay usim gnb TaskToLink s = Some s'"
  shows "\<exists>ph' ups' downs' c'. gnb_inv S n ph' ups' downs' c' s' \<and> gnb_left n ph' s' < gnb_left n ph s"
proof -
  obtain pdu rest where out: "gs_out s = pdu # rest" "gs_dispatching s" using step by (auto split: list.splits if_splits)
  then have s': "s' = s\<lparr>gs_out := rest, gs_dispatch := (gs_dispatch s)\<lparr>dp_sent := dp_sent (gs_dispatch s) @ [pdu]\<rparr>\<rparr>"
    using step by simp
  have "gnb_inv S n ph ups downs c s'" using inv out(1) unfolding gnb_inv_def s' by (auto simp: gtp_clean_def)
  moreover have "gnb_left n ph s' < gnb_left n ph s" using out(1) by (simp add: gnb_left_def s')
  ultimately show ?thesis by blast
qed

lemma all_ended_iff:
  "all_ended gnb s \<longleftrightarrow> (\<forall>k < length (gnb_ues gnb). \<exists>r. ut_state (gs_tasks s k) = TaskEnded r)"
proof -
  have "(case st of TaskEnded _ \<Rightarrow> True | _ \<Rightarrow> False) \<longleftrightarrow> (\<exists>r. st = TaskEnded r)" for st by (cases st) auto
  then show ?thesis by (auto simp: all_ended_def list_all_iff)
qed

lemma shutdown_keeps:
  assumes inv: "gnb_inv S n ph ups downs c s" and gnb: "gnb_serves n (st_ip S) gnb"
    and step: "gnb_sim_step cr ay usim gnb Shutdown s = Some s'"
  shows "\<exists>ph' ups' downs' c'. gnb_inv S n ph' ups' downs' c' s' \<and> gnb_left n ph' s' < gnb_left n ph s"
proof -
  have d: "all_ended gnb s" "gs_dispatching s" "s' = s\<lparr>gs_dispatching := False\<rparr>" using step by (auto split: if_splits)
  have "gnb_inv S n ph ups downs c s'"
    using inv d(1) gnb unfolding gnb_inv_def d(3) by (auto simp: gtp_clean_def all_ended_iff gnb_serves_def)
  moreover have "gnb_left n ph s' < gnb_left n ph s" using d(2) by (simp add: gnb_left_def d(3))
  ultimately show ?thesis by blast
qed

end
