(* ===== verification/Gnb_Moves.thy ===== *)
theory Gnb_Moves
  imports Gnb_Steps
begin

text \<open>The actions of the tasks keep the invariant, and with them all actions and runs do.\<close>

lemma task_move_keeps:
  assumes inv: "gnb_inv S n ph ups downs c s" and k: "k < n" and eff: "task_effect S k (ph k) p' msgs"
    and net: "ph_left p' + length msgs + sum_list (map hops_left (gs_net s1)) < ph_left (ph k) + sum_list (map hops_left (gs_net s))"
    and same: "gs_core s1 = gs_core s" "gs_down s1 = gs_down s" "gs_out s1 = gs_out s" "gs_dispatching s1" "gs_dispatching s"
      "dp_sent (gs_dispatch s1) = dp_sent (gs_dispatch s)" "gtp_clean s1"
    and queues: "\<And>l. l < n \<Longrightarrow> dp_queues (gs_dispatch s1) l @ lane l downs = ph_down S l ((ph(k := p')) l)"
    and others: "\<And>l. l \<noteq> k \<Longrightarrow> ut_ue (gs_tasks s1 l) = ut_ue (gs_tasks s l) \<and> ut_state (gs_tasks s1 l) = ut_state (gs_tasks s l)"
  defines "s' \<equiv> set_task (s1\<lparr>gs_out := gs_out s1 @ map enc_ngap msgs\<rparr>) k (fst (ph_task S k p')) (snd (ph_task S k p'))"
  shows "gnb_inv S n (ph(k := p')) (ups @ map (Pair k) msgs) downs c s' \<and> gnb_left n (ph(k := p')) s' < gnb_left n ph s"
proof
  note s' = s'_def set_task_def
  have e: "ph_ok p'" "ph_up S k p' = ph_up S k (ph k) @ msgs" "ph_core_left p' = ph_core_left (ph k)" using eff by (simp_all add: task_effect_def)
  have sum: "(\<Sum>l < n. ph_core_left ((ph(k := p')) l)) = (\<Sum>l < n. ph_core_left (ph l))"
    using sum_phase_upd [OF k, of ph_core_left ph p'] e(3) by simp
  show "gnb_inv S n (ph(k := p')) (ups @ map (Pair k) msgs) downs c s'"
    unfolding gnb_inv_def sum
  proof (intro conjI)
    show "\<exists>st. gs_core s' = Some st \<and> core_inv S n (ph(k := p')) c st"
      using inv core_inv_task [where ph = ph and k = k, OF _ eff] by (auto simp: s' same gnb_inv_def)
    show "carries n (ups @ map (Pair k) msgs) (dp_sent (gs_dispatch s') @ gs_out s')"
      using inv carries_append [OF _ k, of ups "dp_sent (gs_dispatch s) @ gs_out s"] by (simp add: s' same gnb_inv_def)
    show "\<forall>l < n. lane l (ups @ map (Pair k) msgs) = ph_up S l ((ph(k := p')) l)"
      using inv e(2) by (simp add: gnb_inv_def)
    show "carries n downs (gs_down s')" using inv by (simp add: s' same gnb_inv_def)
    show "\<forall>l < n. dp_queues (gs_dispatch s') l @ lane l downs = ph_down S l ((ph(k := p')) l)"
      using queues by (simp add: s')
    show "\<forall>l < n. ut_ue (gs_tasks s' l) = fst (ph_task S l ((ph(k := p')) l)) \<and>
        ut_state (gs_tasks s' l) = snd (ph_task S l ((ph(k := p')) l))"
      using inv others by (simp add: s' gnb_inv_def)
    show "gtp_clean s'" using same(7) by (simp add: s' gtp_clean_def)
    show "\<forall>l < n. ph_ok ((ph(k := p')) l)" using inv e(1) by (simp add: gnb_inv_def)
    show "c + (\<Sum>l < n. ph_core_left (ph l)) \<le> 8 * n" using inv by (simp add: gnb_inv_def)
    show "gs_dispatching s' \<or> (\<forall>l < n. \<exists>r. snd (ph_task S l ((ph(k := p')) l)) = TaskEnded r)"
      using same(4) by (simp add: s')
  qed
  show "gnb_left n (ph(k := p')) s' < gnb_left n ph s"
    using sum_phase_upd [OF k, of ph_left ph p'] net same by (simp add: gnb_left_def s' del: fun_upd_apply)
qed

lemma task_effect_left:
  "task_effect S k p p' msgs \<Longrightarrow> ph_left p' + length msgs + x < ph_left p + x"
  by (simp add: task_effect_def)

lemma waiting_dispatching:
  assumes "gnb_inv S n ph ups downs c s" "k < n" "\<And>r. ut_state (gs_tasks s k) \<noteq> TaskEnded r"
  shows "gs_dispatching s"
  using assms unfolding gnb_inv_def by metis

lemma task_turn_keeps:
  assumes inv: "gnb_inv S n ph ups downs c s" and S: "setting_ok S" and k: "k < n"
    and step: "task_turn (st_cr S) (st_usim S) s k = Some s'"
  obtains p' msgs where "gnb_inv S n (ph(k := p')) (ups @ map (Pair k) msgs) downs c s'"
    "gnb_left n (ph(k := p')) s' < gnb_left n ph s" "task_effect S k (ph k) p' msgs" "snd (ph_task S k p') \<noteq> no_echo"
    "\<And>i u t j. snd (ph_task S k p') \<noteq> TaskChecking i u t j True"
    "gs_out s' = gs_out s @ map enc_ngap msgs" "gs_dispatching s'" "dp_sent (gs_dispatch s') = dp_sent (gs_dispatch s)"
    "gs_down s' = gs_down s" "gs_net s' = gs_net s"
proof -
  note finish = that
  have t: "ut_ue (gs_tasks s k) = fst (ph_task S k (ph k))" "ut_state (gs_tasks s k) = snd (ph_task S k (ph k))" "ph_ok (ph k)"
    using inv k by (simp_all add: gnb_inv_def)
  have "\<And>r. ut_state (gs_tasks s k) \<noteq> TaskEnded r" using step by (auto simp: task_turn_def Let_def)
  note disp = waiting_dispatching [OF inv k this]
  have q: "dp_queues (gs_dispatch s) l @ lane l downs = ph_down S l (ph l)" if "l < n" for l
    using inv that by (simp add: gnb_inv_def)
  have clean: "gtp_clean s" using inv by (simp add: gnb_inv_def)
  show ?thesis
  proof (cases "ut_state (gs_tasks s k)")
    case TaskNew
    then have p: "ph k = PhFresh" using t(2) by (cases "ph k") (auto split: CheckPhase.splits elim!: check_state.elims)
    note eff = task_starts [OF S, of k, folded p]
    have "s' = set_task (s\<lparr>gs_out := gs_out s @ map enc_ngap (ph_up S k PhStarting)\<rparr>) k
        (fst (ph_task S k PhStarting)) (snd (ph_task S k PhStarting))"
      using step TaskNew t(1) p disp ph_up_fits [OF S, of k PhStarting] by (simp add: task_turn_def task_sends_fits Let_def)
    moreover have "dp_queues (gs_dispatch s) l @ lane l downs = ph_down S l ((ph(k := PhStarting)) l)" if "l < n" for l
      using q [OF that] p by simp
    ultimately show ?thesis
      using finish [OF _ _ eff] task_move_keeps [OF inv k eff task_effect_left [OF eff] refl refl refl disp disp refl clean] disp
      by (simp add: set_task_def)
  next
    case TaskWaiting
    obtain msg rest where m: "dp_queues (gs_dispatch s) k = msg # rest"
      using step TaskWaiting disp by (auto simp: task_turn_def Let_def split: list.splits)
    let ?s1 = "s\<lparr>gs_dispatch := (gs_dispatch s)\<lparr>dp_queues := (dp_queues (gs_dispatch s))(k := rest)\<rparr>\<rparr>"
    have down: "ph_down S k (ph k) = msg # (rest @ lane k downs)" using q [OF k] m by simp
    obtain p' msgs where p': "task_takes S k (ph k) msg p' msgs" "ph_down S k p' = rest @ lane k downs"
      "task_effect S k (ph k) p' msgs" "snd (ph_task S k p') \<noteq> no_echo"
      "\<And>i u t j. snd (ph_task S k p') \<noteq> TaskChecking i u t j True" by (rule task_advances [OF S t(3) down]) blast
    have "s' = set_task (?s1\<lparr>gs_out := gs_out ?s1 @ map enc_ngap msgs\<rparr>) k (fst (ph_task S k p')) (snd (ph_task S k p'))"
      using step TaskWaiting m p'(1) t(1) disp by (simp add: task_turn_def task_takes_def Let_def)
    moreover have "dp_queues (gs_dispatch ?s1) l @ lane l downs = ph_down S l ((ph(k := p')) l)" if "l < n" for l
      using q [OF that] p'(2) by simp
    ultimately show ?thesis
      using finish [OF _ _ p'(3,4,5)] task_move_keeps [OF inv k p'(3), of ?s1] task_effect_left [OF p'(3)] disp clean
      by (simp add: gtp_clean_def set_task_def)
  qed (use step in \<open>simp_all add: task_turn_def Let_def\<close>)
qed

section \<open>The user-plane check\<close>

lemma checking_phase:
  assumes "snd (ph_task S k p) = TaskChecking a u t j w" "ph_ok p"
  obtains r l where "p = PhOnline a r t l (Checking j w)" "u = st_upf S" "j < 5"
proof (cases p)
  case (PhOnline i r t' l ck)
  then show ?thesis using assms that by (cases ck) auto
qed (use assms in simp_all)

lemma check_effects:
  "j < 5 \<Longrightarrow> task_effect S k (PhOnline i r t l (Checking j True)) (PhOnline i r t l Passed)
     [send_uplink i (ran_of k) (encode_deregistration_request False)]"
  "Suc j < 5 \<Longrightarrow> task_effect S k (PhOnline i r t l (Checking j True)) (PhOnline i r t l (Checking (Suc j) False)) []"
  "j < 5 \<Longrightarrow> task_effect S k (PhOnline i r t l (Checking j True)) (PhOnline i r t l NoEcho) []"
  "j < 5 \<Longrightarrow> task_effect S k (PhOnline i r t l (Checking j False)) (PhOnline i r t l (Checking j True)) []"
  by (simp_all add: task_effect_def)

text \<open>What the invariant says of a task inside the check.\<close>

lemma checking_state:
  assumes inv: "gnb_inv S n ph ups downs c s" and k: "k < n" and st: "ut_state (gs_tasks s k) = TaskChecking i u t j w"
  obtains r l where "ph k = PhOnline i r t l (Checking j w)" "u = st_upf S" "j < 5" "gs_dispatching s"
    "ut_ue (gs_tasks s k) = keyed_ue S k i r" "gtp_clean s"
    "\<And>m ck. m < n \<Longrightarrow> dp_queues (gs_dispatch s) m @ lane m downs = ph_down S m ((ph(k := PhOnline i r t l ck)) m)"
proof -
  have t: "snd (ph_task S k (ph k)) = TaskChecking i u t j w" "ph_ok (ph k)" using inv k st by (simp_all add: gnb_inv_def)
  obtain r l where p: "ph k = PhOnline i r t l (Checking j w)" "u = st_upf S" "j < 5" by (rule checking_phase [OF t])
  have "gs_dispatching s" by (rule waiting_dispatching [OF inv k]) (simp add: st)
  moreover have "ut_ue (gs_tasks s k) = keyed_ue S k i r" "gtp_clean s" using inv k p by (simp_all add: gnb_inv_def)
  moreover have "dp_queues (gs_dispatch s) m @ lane m downs = ph_down S m ((ph(k := PhOnline i r t l ck)) m)" if "m < n" for m ck
    using inv that p by (simp add: gnb_inv_def)
  ultimately show thesis using that p by blast
qed

lemma send_probe_keeps:
  assumes inv: "gnb_inv S n ph ups downs c s" and k: "k < n" and step: "send_probe s k = Some s'"
  shows "\<exists>ph' ups' downs' c'. gnb_inv S n ph' ups' downs' c' s' \<and> gnb_left n ph' s' < gnb_left n ph s"
proof -
  obtain i u t j where st: "ut_state (gs_tasks s k) = TaskChecking i u t j False"
    using step by (auto simp: send_probe_def Let_def split: TaskState.splits bool.splits)
  obtain r l where p: "ph k = PhOnline i r t l (Checking j False)" "u = st_upf S" "j < 5" "gs_dispatching s"
    "ut_ue (gs_tasks s k) = keyed_ue S k i r" "gtp_clean s"
    "\<And>m ck. m < n \<Longrightarrow> dp_queues (gs_dispatch s) m @ lane m downs = ph_down S m ((ph(k := PhOnline i r t l ck)) m)"
    by (rule checking_state [OF inv k st]) blast
  let ?s1 = "s\<lparr>gs_net := gs_net s @ [ToUpf (sim_gpdu t) (st_ip S, GTP_PORT) u]\<rparr>" and ?p = "PhOnline i r t l (Checking j True)"
  have "s' = set_task (?s1\<lparr>gs_out := gs_out ?s1 @ map enc_ngap []\<rparr>) k (fst (ph_task S k ?p)) (snd (ph_task S k ?p))"
    using step st p(2,5) by (simp add: send_probe_def Let_def)
  moreover have "gtp_clean ?s1" using p(6) by (auto simp: gtp_clean_def)
  ultimately show ?thesis
    using task_move_keeps [OF inv k check_effects(4) [OF p(3), of S k i r t l, folded p(1)], of ?s1] p(1,3,4,7)
    by fastforce
qed

lemma probe_reply_keeps:
  assumes inv: "gnb_inv S n ph ups downs c s" and k: "k < n" and step: "probe_reply s k = Some s'"
  shows "(\<exists>ph' ups' downs' c'. gnb_inv S n ph' ups' downs' c' s' \<and> gnb_left n ph' s' < gnb_left n ph s) \<and>
    ut_state (gs_tasks s' k) = TaskWaiting"
proof -
  obtain i u t j x xs where st: "ut_state (gs_tasks s k) = TaskChecking i u t j True" "ut_gtp (gs_tasks s k) = x # xs"
    using step by (auto simp: probe_reply_def Let_def split: TaskState.splits bool.splits list.splits)
  obtain r l where p: "ph k = PhOnline i r t l (Checking j True)" "u = st_upf S" "j < 5" "gs_dispatching s"
    "ut_ue (gs_tasks s k) = keyed_ue S k i r" "gtp_clean s"
    "\<And>m ck. m < n \<Longrightarrow> dp_queues (gs_dispatch s) m @ lane m downs = ph_down S m ((ph(k := PhOnline i r t l ck)) m)"
    by (rule checking_state [OF inv k st(1)]) blast
  have q: "set (ut_gtp (gs_tasks s m)) \<subseteq> {SIM_PAYLOAD}" for m using p(6) by (simp add: gtp_clean_def)
  have x: "x = SIM_PAYLOAD" using q [of k] st(2) by simp
  let ?s1 = "s\<lparr>gs_tasks := (gs_tasks s)(k := (gs_tasks s k)\<lparr>ut_gtp := xs\<rparr>)\<rparr>"
  let ?p = "PhOnline i r t l Passed" and ?m = "[send_uplink i (ran_of k) (encode_deregistration_request False)]"
  have s': "s' = set_task (?s1\<lparr>gs_out := gs_out ?s1 @ map enc_ngap ?m\<rparr>) k (fst (ph_task S k ?p)) (snd (ph_task S k ?p))"
    using step st x p(4,5)
    by (simp add: probe_reply_def check_ends_def ue_after_round_trip_def task_outcome_def task_sends_fits Let_def)
  have "gtp_clean ?s1" using p(6) q [of k] st(2) by (simp add: gtp_clean_def)
  then have "gnb_inv S n (ph(k := ?p)) (ups @ map (Pair k) ?m) downs c s' \<and> gnb_left n (ph(k := ?p)) s' < gnb_left n ph s"
    unfolding s' using p(3,4,7)
    by (intro task_move_keeps [OF inv k check_effects(1) [OF p(3), of S k i r t l, folded p(1)]]) (simp_all add: p(1))
  moreover have "ut_state (gs_tasks s' k) = TaskWaiting" by (simp add: s' set_task_def)
  ultimately show ?thesis by blast
qed

lemma probe_timeout_keeps:
  assumes inv: "gnb_inv S n ph ups downs c s" and k: "k < n" and step: "probe_timeout s k = Some s'"
  shows "\<exists>ph' ups' downs' c'. gnb_inv S n ph' ups' downs' c' s' \<and> gnb_left n ph' s' < gnb_left n ph s"
proof -
  obtain i u t j where st: "ut_state (gs_tasks s k) = TaskChecking i u t j True" "ut_gtp (gs_tasks s k) = []"
    using step by (auto simp: probe_timeout_def Let_def split: TaskState.splits bool.splits list.splits)
  obtain r l where p: "ph k = PhOnline i r t l (Checking j True)" "u = st_upf S" "j < 5" "gs_dispatching s"
    "ut_ue (gs_tasks s k) = keyed_ue S k i r" "gtp_clean s"
    "\<And>m ck. m < n \<Longrightarrow> dp_queues (gs_dispatch s) m @ lane m downs = ph_down S m ((ph(k := PhOnline i r t l ck)) m)"
    by (rule checking_state [OF inv k st(1)]) blast
  define p' where "p' = PhOnline i r t l (if Suc j < 5 then Checking (Suc j) False else NoEcho)"
  have s': "s' = set_task (s\<lparr>gs_out := gs_out s @ map enc_ngap []\<rparr>) k (fst (ph_task S k p')) (snd (ph_task S k p'))"
    using step st p(2,5) by (auto simp: probe_timeout_def check_ends_def p'_def Let_def)
  have eff: "task_effect S k (ph k) p' []"
    using check_effects(2,3) [of j S k i r t l] p(1,3) by (simp add: p'_def)
  have "gnb_inv S n (ph(k := p')) (ups @ map (Pair k) []) downs c s' \<and> gnb_left n (ph(k := p')) s' < gnb_left n ph s"
    unfolding s' using p(4,6,7) task_effect_left [OF eff] by (intro task_move_keeps [OF inv k eff]) (simp_all add: p'_def)
  then show ?thesis by blast
qed

section \<open>The network\<close>

lemma sum_hops_remove:
  "i < length xs \<Longrightarrow> sum_list (map hops_left (take i xs @ drop (Suc i) xs)) + hops_left (xs ! i) = sum_list (map hops_left xs)"
  by (subst (3) id_take_nth_drop [of i xs]) simp_all

lemma net_step_keeps:
  assumes inv: "gnb_inv S n ph ups downs c s" and i: "i < length (gs_net s)"
    and s': "s' = net_remove s i \<or> net_deliver gnb s i = Some s'"
  shows "\<exists>ph' ups' downs' c'. gnb_inv S n ph' ups' downs' c' s' \<and> gnb_left n ph' s' < gnb_left n ph s"
proof -
  have clean: "gtp_clean s" using inv by (simp add: gnb_inv_def)
  then have e: "echo_only (gs_net s ! i)" using i by (simp add: gtp_clean_def list_all_length)
  have hops: "sum_list (map hops_left (gs_net (net_remove s i))) + hops_left (gs_net s ! i) = sum_list (map hops_left (gs_net s))"
    using sum_hops_remove [OF i] by (simp add: net_remove_def)
  have "hops_left d > 0" for d by (cases d) simp_all
  then have lose: "sum_list (map hops_left (gs_net (net_remove s i))) < sum_list (map hops_left (gs_net s))"
    using hops by (metis less_add_same_cancel1)
  have "gtp_clean s' \<and> sum_list (map hops_left (gs_net s')) < sum_list (map hops_left (gs_net s)) \<and>
      gs_core s' = gs_core s \<and> gs_down s' = gs_down s \<and> gs_out s' = gs_out s \<and> gs_dispatch s' = gs_dispatch s \<and>
      gs_dispatching s' = gs_dispatching s \<and>
      (\<forall>k. ut_ue (gs_tasks s' k) = ut_ue (gs_tasks s k) \<and> ut_state (gs_tasks s' k) = ut_state (gs_tasks s k))"
    using s'
  proof
    assume "s' = net_remove s i"
    then show ?thesis using net_remove_clean [OF clean] lose by simp
  next
    assume d: "net_deliver gnb s i = Some s'"
    show ?thesis
    proof (cases "gs_net s ! i")
      case (ToUpf dgram src dst)
      let ?r = "upf_receives s dgram src dst"
      have s': "s' = (net_remove s i)\<lparr>gs_net := gs_net (net_remove s i) @ ?r\<rparr>"
        using d i ToUpf by (simp add: net_deliver_def Let_def)
      have "list_all echo_only ?r" by (rule upf_receives_echo) (use e ToUpf in simp)
      moreover have "sum_list (map hops_left ?r) \<le> 1"
        by (simp add: upf_receives_def split: option.split prod.split)
      ultimately show ?thesis using net_remove_clean [OF clean, of i] hops ToUpf by (simp add: s' gtp_clean_def)
    next
      case (ToGnb dgram)
      then have "s' = gnb_receives gnb (net_remove s i) dgram" using d i by (simp add: net_deliver_def)
      then show ?thesis using gnb_receives_clean [OF net_remove_clean [OF clean, of i], of dgram gnb] e ToGnb lose by simp
    qed
  qed
  then have "gnb_inv S n ph ups downs c s'" "gnb_left n ph s' < gnb_left n ph s"
    using inv by (simp_all add: gnb_inv_def gnb_left_def)
  then show ?thesis by blast
qed

section \<open>Runs\<close>

fun action_ok :: "GnbAction \<Rightarrow> bool" where
  "action_ok (CoreTurn rand) \<longleftrightarrow> length rand = 16"
| "action_ok _ \<longleftrightarrow> True"

lemma gnb_sim_step_keeps:
  assumes inv: "gnb_inv S n ph ups downs c s" and S: "setting_ok S" and n: "n \<le> 8192" and gnb: "gnb_serves n (st_ip S) gnb"
    and a: "action_ok a" and step: "gnb_sim_step (st_cr S) ay (st_usim S) gnb a s = Some s'"
  shows "\<exists>ph' ups' downs' c'. gnb_inv S n ph' ups' downs' c' s' \<and> gnb_left n ph' s' < gnb_left n ph s"
proof (cases a)
  case (CoreTurn rand)
  then show ?thesis using core_turn_keeps [OF inv S n, of rand ay s'] a step by simp
next
  case LinkToGnb
  show ?thesis by (rule link_to_gnb_keeps [OF inv S gnb step [unfolded LinkToGnb]])
next
  case TaskToLink
  show ?thesis by (rule task_to_link_keeps [OF inv step [unfolded TaskToLink]])
next
  case (TaskTurn k)
  then have "k < n" "task_turn (st_cr S) (st_usim S) s k = Some s'" using step gnb by (simp_all add: gnb_serves_def split: if_splits)
  then show ?thesis by (rule task_turn_keeps [OF inv S]) blast
next
  case (SendProbe k)
  then show ?thesis using send_probe_keeps [OF inv, of k s'] step gnb by (simp add: gnb_serves_def split: if_splits)
next
  case (ProbeReply k)
  then show ?thesis using probe_reply_keeps [OF inv, of k s'] step gnb by (simp add: gnb_serves_def split: if_splits)
next
  case (ProbeTimeout k)
  then show ?thesis using probe_timeout_keeps [OF inv, of k s'] step gnb by (simp add: gnb_serves_def split: if_splits)
next
  case (NetDeliver i)
  then have "net_deliver gnb s i = Some s'" using step by simp
  then show ?thesis using net_step_keeps [OF inv, of i s' gnb] by (simp add: net_deliver_def split: if_splits)
next
  case (NetLose i)
  then show ?thesis using net_step_keeps [OF inv, of i s' gnb] step by (simp split: if_splits)
next
  case Shutdown
  show ?thesis by (rule shutdown_keeps [OF inv gnb step [unfolded Shutdown]])
qed

lemma gnb_sim_run_keeps:
  assumes S: "setting_ok S" and n: "n \<le> 8192" and gnb: "gnb_serves n (st_ip S) gnb"
  shows "gnb_sim_run (st_cr S) ay (st_usim S) gnb as s = Some s' \<Longrightarrow> list_all action_ok as \<Longrightarrow>
    gnb_inv S n ph ups downs c s \<Longrightarrow>
    \<exists>ph' ups' downs' c'. gnb_inv S n ph' ups' downs' c' s' \<and> gnb_left n ph' s' + length as \<le> gnb_left n ph s"
proof (induction as arbitrary: s ph ups downs c)
  case (Cons a as)
  obtain s1 where s1: "gnb_sim_step (st_cr S) ay (st_usim S) gnb a s = Some s1"
    "gnb_sim_run (st_cr S) ay (st_usim S) gnb as s1 = Some s'"
    using Cons.prems(1) by (auto simp: bind_eq_Some_conv)
  obtain ph1 ups1 downs1 c1 where i1: "gnb_inv S n ph1 ups1 downs1 c1 s1" "gnb_left n ph1 s1 < gnb_left n ph s"
    using gnb_sim_step_keeps [OF Cons.prems(3) S n gnb _ s1(1)] Cons.prems(2) by auto
  show ?case using Cons.IH [OF s1(2) _ i1(1)] Cons.prems(2) i1(2) by fastforce
qed auto

lemma gnb_inv_start:
  assumes gnb: "gnb_serves n (st_ip S) gnb" and core: "amf_node_inv 0 (amf_start hss (st_upf S))"
    and hss: "\<And>k. k < n \<Longrightarrow> hss (imsi_of k) = Some \<lparr>sr_ctx = st_usim S, sr_sqn = 0\<rparr>"
  shows "gnb_inv S n (\<lambda>_. PhFresh) [] [] 0 (gnb_sim_start gnb (amf_start hss (st_upf S)))"
    "gnb_left n (\<lambda>_. PhFresh) (gnb_sim_start gnb (amf_start hss (st_upf S))) = 49 * n + 1"
proof -
  have "abs_world World_new = Map.empty" by (simp add: fun_eq_iff abs_world_def is_live_def World_new_def)
  then have "core_inv S n (\<lambda>_. PhFresh) 0 (amf_start hss (st_upf S))"
    using core hss by (simp add: core_inv_def family_empty Amf_new_def ImsiRegistry_new_def SessionManager_new_def RoutingTable_new_def)
  then show "gnb_inv S n (\<lambda>_. PhFresh) [] [] 0 (gnb_sim_start gnb (amf_start hss (st_upf S)))"
    using gnb by (simp add: gnb_inv_def gnb_sim_start_def carries_Nil gtp_clean_def gnb_serves_def)
qed (simp add: gnb_left_def gnb_sim_start_def)

end
