(* ===== verification/Gnb_Complete.thy ===== *)
theory Gnb_Complete
  imports Gnb_Moves
begin

text \<open>
  What the invariant of the composed system says about results, about the user-plane check and about
  states in which nothing is left to do, and that it holds in every run from the start.
\<close>

section \<open>What the invariant says\<close>

lemma task_results:
  "snd (ph_task S k p) = TaskEnded r \<Longrightarrow> TaskEnded r = no_echo \<or> r = TaskOk"
  by (cases p) (auto elim: check_state.elims)

lemma waiting_has_message:
  "snd (ph_task S k p) = TaskWaiting \<Longrightarrow> ph_up S k p \<noteq> [] \<or> ph_down S k p \<noteq> []"
  by (cases p) (auto elim: check_state.elims)

lemma ended_no_down: "snd (ph_task S k p) = TaskEnded r \<Longrightarrow> ph_down S k p = []"
  by (cases p) (auto elim: check_state.elims)

lemma finished_phase:
  "snd (ph_task S k p) = TaskEnded TaskOk \<Longrightarrow> (\<exists>i r t. p = PhGone i r t) \<or> (\<exists>i r. p = PhFinished i r)"
  by (cases p) (auto elim: check_state.elims)

lemma lanes_empty: "carries n xs q \<Longrightarrow> (\<And>k. k < n \<Longrightarrow> lane k xs = []) \<Longrightarrow> xs = []"
proof (cases xs)
  case (Cons x ys)
  assume "carries n xs q" "\<And>k. k < n \<Longrightarrow> lane k xs = []"
  from this(2) [of "fst x"] this(1) Cons show ?thesis by (simp add: carries_def)
qed

section \<open>The check\<close>

abbreviation probe_actions :: "nat \<Rightarrow> GnbSim \<Rightarrow> GnbAction list" where
  "probe_actions k s \<equiv> [SendProbe k, NetDeliver (length (gs_net s)), NetDeliver (length (gs_net s)), ProbeReply k]"

lemma probe_echoed:
  assumes inv: "gnb_inv S n ph ups downs c s" and n: "n \<le> 8192" and k: "k < n"
    and st: "ut_state (gs_tasks s k) = TaskChecking i u t j False" and quiet: "gs_out s = []" "dp_sent (gs_dispatch s) = []"
  shows "upf_receives s (sim_gpdu t) (st_ip S, GTP_PORT) u =
      [ToGnb (to_bytes (new_gpdu (dl_of k) (of_nat (length SIM_PAYLOAD))) @ SIM_PAYLOAD)]"
    "ue_my_ip (ut_ue (gs_tasks s k)) = st_ip S"
proof -
  obtain r l where p: "ph k = PhOnline i r t l (Checking j False)" "u = st_upf S" "ut_ue (gs_tasks s k) = keyed_ue S k i r"
    by (rule checking_state [OF inv k st]) blast
  show "ue_my_ip (ut_ue (gs_tasks s k)) = st_ip S" using p(3) by simp
  have "ups = []" using inv quiet by (simp add: gnb_inv_def carries_Nil)
  then have "ph_up S k (ph k) = []" using inv k by (auto simp: gnb_inv_def)
  then have l: "l = NothingLeft" using p by (cases l) simp_all
  obtain m sm where core: "gs_core s = Some (m, sm)" "core_inv S n ph c (m, sm)" using inv by (auto simp: gnb_inv_def)
  have f: "family n (\<lambda>k. ph_entity S k (ph k)) (abs_world (a_world m))"
    "family n (\<lambda>k. ph_route S k (ph k)) (ul_map (sm_routing sm))" using core(2) by (simp_all add: core_inv_def)
  have ul: "ul_map (sm_routing sm) t = Some (online_route S k i)" using familyD(1) [OF f(2) k] p l by simp
  have "teid_of (a_world m) i = Some t"
    using familyD(1) [OF f(1) k] p l by (simp add: teid_of_def online_entity_def)
  moreover have "dl_linked (a_world m) sm"
    using core(2) inv n by (simp add: core_inv_def amf_node_inv_def gnb_inv_def)
  ultimately have dl: "dl_map (sm_routing sm) (synth_ue_ip i) = Some (online_route S k i)"
    using ul unfolding dl_linked_def by (metis option.inject)
  have "lookup_ul (sm_routing sm) t = Some (online_route S k i)"
    "lookup_dl (sm_routing sm) (re_ue_ip (online_route S k i)) = Some (online_route S k i)"
    using ul dl by (simp_all add: lookup_ul_def lookup_dl_def RouteEntry_new_def)
  from upf_echo_route [OF this, of "(st_ip S, GTP_PORT)"]
  show "upf_receives s (sim_gpdu t) (st_ip S, GTP_PORT) u =
      [ToGnb (to_bytes (new_gpdu (dl_of k) (of_nat (length SIM_PAYLOAD))) @ SIM_PAYLOAD)]"
    using core p(2) by (simp add: upf_receives_def core_inv_def RouteEntry_new_def GTP_PORT_def)
qed

lemma gnb_sim_run_keeps_inv:
  assumes "setting_ok S" "n \<le> 8192" "gnb_serves n (st_ip S) gnb" "gnb_sim_run (st_cr S) ay (st_usim S) gnb as s = Some s'"
    "list_all action_ok as" "gnb_inv S n ph ups downs c s"
  obtains ph' ups' downs' c' where "gnb_inv S n ph' ups' downs' c' s'" "gnb_left n ph' s' + length as \<le> gnb_left n ph s"
  using gnb_sim_run_keeps [OF assms] by blast

lemma check_passes:
  assumes inv: "gnb_inv S n ph ups downs c s" and S: "setting_ok S" and n: "n \<le> 8192" and gnb: "gnb_serves n (st_ip S) gnb"
    and k: "k < n" and st: "ut_state (gs_tasks s k) = TaskChecking i u t j False" and quiet: "gs_out s = []" "dp_sent (gs_dispatch s) = []"
  shows "\<exists>s'. gnb_sim_run (st_cr S) ay (st_usim S) gnb (probe_actions k s) s = Some s' \<and>
    ut_state (gs_tasks s' k) = TaskWaiting \<and> (\<forall>l. l \<noteq> k \<longrightarrow> ut_state (gs_tasks s' l) = ut_state (gs_tasks s l))"
proof -
  let ?run = "gnb_sim_run (st_cr S) ay (st_usim S) gnb" and ?N = "length (gs_net s)"
  let ?d = "to_bytes (new_gpdu (dl_of k) (of_nat (length SIM_PAYLOAD))) @ SIM_PAYLOAD"
  have len: "k < length (gnb_ues gnb)" "dl_routes gnb (dl_of k) = Some k" using gnb k by (simp_all add: gnb_serves_def)
  note e = probe_echoed [OF inv n k st quiet]
  let ?s1 = "set_task (s\<lparr>gs_net := gs_net s @ [ToUpf (sim_gpdu t) (st_ip S, GTP_PORT) u]\<rparr>) k (ut_ue (gs_tasks s k)) (TaskChecking i u t j True)"
  let ?s2 = "(net_remove ?s1 ?N)\<lparr>gs_net := gs_net s @ [ToGnb ?d]\<rparr>"
  let ?s3 = "gnb_receives gnb (net_remove ?s2 ?N) ?d"
  have r1: "send_probe s k = Some ?s1" using st e(2) by (simp add: send_probe_def Let_def)
  have "upf_receives ?s1 (sim_gpdu t) (st_ip S, GTP_PORT) u = [ToGnb ?d]"
    using e(1) by (simp add: upf_receives_def set_task_def)
  then have r2: "net_deliver gnb ?s1 ?N = Some ?s2"
    by (simp add: net_deliver_def set_task_def net_remove_def Let_def)
  have r3: "net_deliver gnb ?s2 ?N = Some ?s3" by (simp add: net_deliver_def nth_append)
  have three: "?run [SendProbe k, NetDeliver ?N, NetDeliver ?N] s = Some ?s3" using r1 r2 r3 len by simp
  obtain ph3 ups3 downs3 c3 where inv3: "gnb_inv S n ph3 ups3 downs3 c3 ?s3"
    by (rule gnb_sim_run_keeps_inv [OF S n gnb three _ inv]) simp_all
  have q: "ut_gtp (gs_tasks ?s3 k) \<noteq> []" "ut_state (gs_tasks ?s3 k) = TaskChecking i u t j True"
    using len(2) by (simp_all add: gnb_receives_def gtp_demux_gpdu [simplified] set_task_def)
  then obtain s4 where r4: "probe_reply ?s3 k = Some s4"
    by (auto simp: probe_reply_def Let_def neq_Nil_conv)
  have "ut_state (gs_tasks s4 k) = TaskWaiting" using probe_reply_keeps [OF inv3 k r4] by simp
  moreover have "ut_state (gs_tasks s4 l) = ut_state (gs_tasks s l)" if "l \<noteq> k" for l
  proof -
    have "ut_state (gs_tasks s4 l) = ut_state (gs_tasks ?s3 l)"
      using r4 that by (auto simp: probe_reply_def Let_def check_ends_def set_task_def task_outcome_def task_sends_def
          split: TaskState.splits bool.splits list.splits sum.splits UeOutcome.splits option.splits prod.splits)
    then show ?thesis using that by (simp add: set_task_def)
  qed
  moreover have "?run (probe_actions k s) s = Some s4" using r1 r2 r3 r4 len by simp
  ultimately show ?thesis by blast
qed

section \<open>Final states\<close>

definition gnb_stuck :: "crypto \<Rightarrow> aya \<Rightarrow> MilenageContext \<Rightarrow> Gnb \<Rightarrow> GnbSim \<Rightarrow> bool" where
  "gnb_stuck cr ay usim gnb s \<longleftrightarrow> (\<forall>a. action_ok a \<longrightarrow> gnb_sim_step cr ay usim gnb a s = None)"

lemma stuck_is_final:
  assumes inv: "gnb_inv S n ph ups downs c s" and gnb: "gnb_serves n (st_ip S) gnb"
    and stuck: "gnb_stuck cr ay usim gnb s"
  shows "all_ended gnb s" "\<not> gs_dispatching s" "dp_sent (gs_dispatch s) = []" "gs_down s = []" "gs_net s = []"
proof -
  have no: "gnb_sim_step cr ay usim gnb a s = None" if "action_ok a" for a using stuck that by (simp add: gnb_stuck_def)
  have len: "length (gnb_ues gnb) = n" using gnb by (simp add: gnb_serves_def)
  obtain st where core: "gs_core s = Some st" using inv by (auto simp: gnb_inv_def)
  show sent: "dp_sent (gs_dispatch s) = []"
    using no [of "CoreTurn (replicate 16 0)"] core
    by (auto simp: core_turn_def Let_def split: list.splits option.splits sum.splits)
  have task: "ut_state (gs_tasks s k) = snd (ph_task S k (ph k))" if "k < n" for k using inv that by (simp add: gnb_inv_def)
  have "\<exists>r. ut_state (gs_tasks s k) = TaskEnded r" if k: "k < n" for k
  proof (rule ccontr)
    assume run: "\<nexists>r. ut_state (gs_tasks s k) = TaskEnded r"
    have disp: "gs_dispatching s" by (rule waiting_dispatching [OF inv k]) (use run in auto)
    have out: "gs_out s = []" using no [of TaskToLink] disp by (auto split: list.splits)
    have down: "gs_down s = []" using no [of LinkToGnb] disp by (auto split: list.splits)
    have "ups = []" "downs = []" using inv sent out down by (simp_all add: gnb_inv_def carries_Nil)
    then have ph: "ph_up S k (ph k) = []" "dp_queues (gs_dispatch s) k = ph_down S k (ph k)"
      using inv k by (auto simp: gnb_inv_def)
    have turn: "task_turn cr usim s k = None" "send_probe s k = None" "probe_reply s k = None" "probe_timeout s k = None"
      using no [of "TaskTurn k"] no [of "SendProbe k"] no [of "ProbeReply k"] no [of "ProbeTimeout k"] k len by simp_all
    show False
    proof (cases "ut_state (gs_tasks s k)")
      case TaskWaiting
      then have "ph_down S k (ph k) = []" using turn(1) ph(2) by (auto simp: task_turn_def Let_def split: list.splits)
      with ph(1) waiting_has_message [of S k "ph k"] TaskWaiting task [OF k] show False by simp
    next
      case (TaskChecking i u t j w)
      then show False
        using turn(2-4) by (cases w; cases "ut_gtp (gs_tasks s k)") (simp_all add: send_probe_def probe_reply_def probe_timeout_def Let_def)
    qed (use turn(1) run in \<open>auto simp: task_turn_def Let_def\<close>)
  qed
  then show ended: "all_ended gnb s" by (simp add: all_ended_iff len)
  then show "\<not> gs_dispatching s" using no [of Shutdown] by auto
  have "lane k downs = []" if "k < n" for k
  proof -
    note k = that
    obtain r where "ut_state (gs_tasks s k) = TaskEnded r" using ended k unfolding all_ended_iff len by blast
    then have "snd (ph_task S k (ph k)) = TaskEnded r" using task [OF k] by simp
    from ended_no_down [OF this] show ?thesis using inv k by (simp add: gnb_inv_def) (metis Nil_is_append_conv)
  qed
  moreover have c: "carries n downs (gs_down s)" using inv by (simp add: gnb_inv_def)
  ultimately have "downs = []" using lanes_empty [OF c] by blast
  with c show "gs_down s = []" by (simp add: carries_def)
  show "gs_net s = []" using no [of "NetLose 0"] by (simp split: if_splits)
qed

text \<open>When the gNodeB reports success and no PDU is left behind, everything is released.\<close>

lemma success_is_clean:
  assumes inv: "gnb_inv S n ph ups downs c s" and gnb: "gnb_serves n (st_ip S) gnb" and core: "gs_core s = Some (m, sm)"
    and res: "gnb_result gnb s = Some (Inr ())" and quiet: "dp_sent (gs_dispatch s) = []" "gs_out s = []"
  shows "abs_world (a_world m) = Map.empty \<and> a_registry m = Map.empty \<and> get_session sm = Map.empty \<and>
    lookup_ul (sm_routing sm) = Map.empty \<and> (\<forall>k < n. a_hss m (imsi_of k) = Some \<lparr>sr_ctx = st_usim S, sr_sqn = 1\<rparr>)"
proof -
  have len: "length (gnb_ues gnb) = n" using gnb by (simp add: gnb_serves_def)
  have ended: "all_ended gnb s" using res by (auto simp: gnb_result_def split: if_splits)
  have "ups = []" using inv quiet by (simp add: gnb_inv_def carries_Nil)
  then have up: "ph_up S k (ph k) = []" if "k < n" for k using inv that by (auto simp: gnb_inv_def)
  have fin: "\<exists>i r. ph k = PhFinished i r" if k: "k < n" for k
  proof -
    obtain r where r: "ut_state (gs_tasks s k) = TaskEnded r" using ended k len by (auto simp: all_ended_iff)
    have "\<forall>k \<in> {0..<n}. (case ut_state (gs_tasks s k) of TaskEnded r \<Rightarrow> r | _ \<Rightarrow> TaskOk) = TaskOk"
      using res ended by (simp add: gnb_result_def gnb_join_ok len)
    then have "(case ut_state (gs_tasks s k) of TaskEnded r \<Rightarrow> r | _ \<Rightarrow> TaskOk) = TaskOk" using k by simp
    then have "r = TaskOk" using r by simp
    then have "snd (ph_task S k (ph k)) = TaskEnded TaskOk" using inv k r by (simp add: gnb_inv_def)
    from finished_phase [OF this] up [OF k] show ?thesis by auto
  qed
  have none: "ph_entity S k (ph k) = None" "ph_registered k (ph k) = None" "ph_route S k (ph k) = None" "ph_sqn (ph k) = 1"
    if "k < n" for k using fin [OF that] by auto
  have ci: "core_inv S n ph c (m, sm)" using inv core by (auto simp: gnb_inv_def)
  then have f: "abs_world (a_world m) = Map.empty" "a_registry m = Map.empty" "ul_map (sm_routing sm) = Map.empty"
    using family_empty [of n "\<lambda>k. ph_entity S k (ph k)"] family_empty [of n "\<lambda>k. ph_registered k (ph k)"]
      family_empty [of n "\<lambda>k. ph_route S k (ph k)"] none unfolding core_inv_def fst_conv snd_conv by blast+
  have "sm_agree sm" using ci by (simp add: core_inv_def amf_node_inv_def)
  then have "get_session sm = Map.empty" using f(3) by (auto simp: sm_agree_def get_session_def fun_eq_iff)
  then show ?thesis using f ci none by (auto simp: core_inv_def lookup_ul_def fun_eq_iff)
qed

section \<open>The subscribers of the core\<close>

lemma provision_ues_records:
  assumes "hexd TEST_K 16 = Inr key" "hexd TEST_OPC 16 = Inr opc" "k \<in> set is" "\<forall>l \<in> set is. l \<le> 8192"
    "provision_ues hexd hss is = Inr hss'"
  shows "hss' (imsi_of k) = Some \<lparr>sr_ctx = MilenageContext_new key opc, sr_sqn = 0\<rparr>"
  using assms(3-5)
proof (induction "is" arbitrary: hss)
  case (Cons i "is")
  have keep: "hss' (imsi_of k) = hss (imsi_of k)" if "provision_ues hexd hss js = Inr hss'" "k \<notin> set js" "k \<le> 8192"
    "\<forall>l \<in> set js. l \<le> 8192" for js hss
    using that
  proof (induction js arbitrary: hss)
    case (Cons j js)
    have "imsi_of k \<noteq> imsi_of j" using imsi_of_inj [of k j] Cons.prems by auto
    then show ?case
      using Cons.IH [of "provision hss (imsi_of j) key opc"] Cons.prems assms(1,2)
      by (simp add: provision_hex_def AuthKey_from_hex_def OpCode_from_hex_def) (simp add: provision_def)
  qed simp
  have p: "provision_ues hexd (provision hss (imsi_of i) key opc) is = Inr hss'"
    using Cons.prems(3) assms(1,2) by (simp add: provision_hex_def AuthKey_from_hex_def OpCode_from_hex_def)
  show ?case
  proof (cases "k \<in> set is")
    case True
    then show ?thesis using Cons.IH [OF _ _ p] Cons.prems(2) by simp
  next
    case False
    then have "k = i" using Cons.prems(1) by simp
    then show ?thesis using keep [OF p False] Cons.prems(2) by (simp add: provision_def)
  qed
qed simp

section \<open>Runs from the start\<close>

lemma gnb_run_inv:
  assumes gnb: "run_gnb_start (V4 ip, port) n_ues (Some Connected) = Some (Inr gnb)" and n: "unat n_ues \<le> 8192"
    and hss: "provision_ues hexd Hss_new [0..<unat n_ues] = Inr hss"
    and hex: "hexd TEST_K 16 = Inr key" "hexd TEST_OPC 16 = Inr opc" "length key = 16" "length opc = 16"
    and cr: "ctr_stream cr" "cmac_len cr" "hmac_len cr" "aes_len cr" and len: "length ip = 4" "length upf = 4"
    and run: "gnb_sim_run cr ay (MilenageContext_new key opc) gnb acts (gnb_sim_start gnb (amf_start hss upf)) = Some s"
    and acts: "list_all action_ok acts"
  defines "S \<equiv> \<lparr>st_cr = cr, st_usim = MilenageContext_new key opc, st_upf = upf, st_ip = ip\<rparr>"
  obtains ph ups downs c where "setting_ok S" "gnb_serves (unat n_ues) (st_ip S) gnb"
    "gnb_inv S (unat n_ues) ph ups downs c s" "gnb_left (unat n_ues) ph s + length acts \<le> 49 * unat n_ues + 1"
proof -
  have S: "setting_ok S" using cr len hex(4) by (simp add: S_def setting_ok_def MilenageContext_new_def)
  have serves: "gnb_serves (unat n_ues) (st_ip S) gnb" using gnb_start_serves [OF gnb] by (simp add: S_def)
  have rec: "hss (imsi_of k) = Some \<lparr>sr_ctx = st_usim S, sr_sqn = 0\<rparr>" if "k < unat n_ues" for k
    using provision_ues_records [where hexd = hexd, OF hex(1,2) _ _ hss, of k] that n by (simp add: S_def)
  have "hss_wf hss"
    using provision_ues_wf [where hexd = hexd, OF hex, of Hss_new "[0..<unat n_ues]"] hss by auto
  then have core: "amf_node_inv 0 (amf_start hss (st_upf S))" using amf_node_inv_start [of hss upf] len by (simp add: S_def)
  have start: "gnb_inv S (unat n_ues) (\<lambda>_. PhFresh) [] [] 0 (gnb_sim_start gnb (amf_start hss (st_upf S)))"
    "gnb_left (unat n_ues) (\<lambda>_. PhFresh) (gnb_sim_start gnb (amf_start hss (st_upf S))) = 49 * unat n_ues + 1"
    using gnb_inv_start [OF serves core rec] by simp_all
  have run': "gnb_sim_run (st_cr S) ay (st_usim S) gnb acts (gnb_sim_start gnb (amf_start hss (st_upf S))) = Some s"
    using run by (simp add: S_def)
  show thesis
    using gnb_sim_run_keeps [OF S n serves run' acts start(1)] that [OF S serves] unfolding start(2) by blast
qed

end
