(* ===== verification/Gnb_Schedules.thy ===== *)
theory Gnb_Schedules
  imports Gnb_Complete
begin

text \<open>
  Several subscribers over one link, under any scheduling. From every state in which no check has
  failed there is a run in which all tasks succeed, and the last of them ends with its last message
  still in the channel to the dispatcher; what happens next decides about what is left in the core.
  The theorems are about all runs, and about these two ends.
\<close>

section \<open>Draining the queues\<close>

lemma drain_step:
  assumes inv: "gnb_inv S n ph ups downs c s" and disp: "gs_dispatching s"
    and queues: "gs_out s \<noteq> [] \<or> dp_sent (gs_dispatch s) \<noteq> [] \<or> gs_down s \<noteq> [] \<or> gs_net s \<noteq> []"
  obtains a s' where "action_ok a" "gnb_sim_step cr ay usim gnb a s = Some s'" "gs_tasks s' = gs_tasks s"
proof -
  obtain st where core: "gs_core s = Some st" using inv by (auto simp: gnb_inv_def)
  consider pdu rest where "gs_out s = pdu # rest" | pdu rest where "gs_down s = pdu # rest"
    | pdu rest where "dp_sent (gs_dispatch s) = pdu # rest" | "gs_net s \<noteq> []"
    using queues by (auto simp: neq_Nil_conv)
  then show thesis
  proof cases
    case 1
    then show thesis using that [of TaskToLink] disp by simp
  next
    case 2
    then show thesis using that [of LinkToGnb] disp by simp
  next
    case 3
    have "\<exists>s'. core_turn cr ay (replicate 16 0) s = Some s' \<and> gs_tasks s' = gs_tasks s"
      using core 3 by (auto simp: core_turn_def Let_def split: option.split sum.split)
    then show thesis using that [of "CoreTurn (replicate 16 0)"] by auto
  next
    case 4
    then show thesis using that [of "NetLose 0"] by simp
  qed
qed

lemma gnb_sim_run_append:
  "gnb_sim_run cr ay usim gnb (as @ bs) s = Option.bind (gnb_sim_run cr ay usim gnb as s) (gnb_sim_run cr ay usim gnb bs)"
  by (induction as arbitrary: s) (auto split: bind_split)

section \<open>The last turn of a task\<close>

text \<open>No check has failed, and none is waiting for a reply.\<close>

definition no_failure :: "nat \<Rightarrow> GnbSim \<Rightarrow> bool" where
  "no_failure n s \<longleftrightarrow> (\<forall>k < n. ut_state (gs_tasks s k) \<noteq> no_echo \<and>
     (\<forall>i u t j. ut_state (gs_tasks s k) \<noteq> TaskChecking i u t j True))"

text \<open>With all queues empty a task that has not ended can go on, and does not fail.\<close>

lemma quiet_progress:
  assumes inv: "gnb_inv S n ph ups downs c s" and S: "setting_ok S" and n: "n \<le> 8192" and gnb: "gnb_serves n (st_ip S) gnb"
    and nf: "no_failure n s" and k: "k < n" "\<And>r. ut_state (gs_tasks s k) \<noteq> TaskEnded r"
    and quiet: "gs_out s = []" "dp_sent (gs_dispatch s) = []" "gs_down s = []"
  shows "\<exists>as s'. as \<noteq> [] \<and> list_all action_ok as \<and> gnb_sim_run (st_cr S) ay (st_usim S) gnb as s = Some s' \<and>
    no_failure n s' \<and> (all_ended gnb s' \<longrightarrow> as = [TaskTurn k])"
proof -
  have len: "k < length (gnb_ues gnb)" "length (gnb_ues gnb) = n" using gnb k by (simp_all add: gnb_serves_def)
  have states: "ut_state (gs_tasks s l) = snd (ph_task S l (ph l))" if "l < n" for l using inv that by (simp add: gnb_inv_def)
  have nfI: "no_failure n s'" if "ut_state (gs_tasks s' k) \<noteq> no_echo" "\<And>i u t j. ut_state (gs_tasks s' k) \<noteq> TaskChecking i u t j True"
    "\<And>l. l < n \<Longrightarrow> l \<noteq> k \<Longrightarrow> ut_state (gs_tasks s' l) = ut_state (gs_tasks s l)" for s'
    unfolding no_failure_def
  proof (intro allI impI)
    fix l assume "l < n"
    then show "ut_state (gs_tasks s' l) \<noteq> no_echo \<and> (\<forall>i u t j. ut_state (gs_tasks s' l) \<noteq> TaskChecking i u t j True)"
      using nf that by (cases "l = k") (simp_all add: no_failure_def)
  qed
  have turn: ?thesis if t: "task_turn (st_cr S) (st_usim S) s k = Some s'" for s'
  proof -
    obtain p' msgs where inv': "gnb_inv S n (ph(k := p')) (ups @ map (Pair k) msgs) downs c s'" and p': "snd (ph_task S k p') \<noteq> no_echo"
      and first: "\<And>i u t j. snd (ph_task S k p') \<noteq> TaskChecking i u t j True"
      by (rule task_turn_keeps [OF inv S k(1) t]) blast
    have "no_failure n s'" by (rule nfI) (use inv' p' first k(1) states in \<open>simp_all add: gnb_inv_def\<close>)
    with t len show ?thesis by (intro exI [of _ "[TaskTurn k]"] exI [of _ s']) simp
  qed
  show ?thesis
  proof (cases "ut_state (gs_tasks s k)")
    case (TaskChecking i u t j w)
    then have w: "ut_state (gs_tasks s k) = TaskChecking i u t j False" using nf k(1) by (cases w) (auto simp: no_failure_def)
    obtain s' where s': "gnb_sim_run (st_cr S) ay (st_usim S) gnb (probe_actions k s) s = Some s'"
      "ut_state (gs_tasks s' k) = TaskWaiting" "\<forall>l. l \<noteq> k \<longrightarrow> ut_state (gs_tasks s' l) = ut_state (gs_tasks s l)"
      using check_passes [OF inv S n gnb k(1) w quiet(1,2)] by blast
    have "no_failure n s'" by (rule nfI) (use s' in simp_all)
    moreover have "\<not> all_ended gnb s'" using s'(2) k(1) len(2) by (auto simp: all_ended_iff)
    ultimately show ?thesis using s'(1) by (intro exI [of _ "probe_actions k s"] exI [of _ s']) simp
  next
    case TaskNew
    then show ?thesis using turn by (simp add: task_turn_def Let_def)
  next
    case TaskWaiting
    have "ups = []" "downs = []" using inv quiet by (simp_all add: gnb_inv_def carries_Nil)
    then have ph: "ph_up S k (ph k) = []" "dp_queues (gs_dispatch s) k = ph_down S k (ph k)"
      using inv k(1) by (auto simp: gnb_inv_def)
    then obtain msg rest where "dp_queues (gs_dispatch s) k = msg # rest"
      using waiting_has_message [of S k "ph k"] TaskWaiting states [OF k(1)] by (cases "ph_down S k (ph k)") auto
    then show ?thesis using turn TaskWaiting by (simp add: task_turn_def Let_def)
  qed (use k(2) in blast)
qed

lemma last_turn:
  assumes S: "setting_ok S" and n: "n \<le> 8192" and gnb: "gnb_serves n (st_ip S) gnb"
  shows "gnb_inv S n ph ups downs c s \<Longrightarrow> no_failure n s \<Longrightarrow> \<not> all_ended gnb s \<Longrightarrow>
    \<exists>as k s1 s'. gnb_sim_run (st_cr S) ay (st_usim S) gnb as s = Some s1 \<and> list_all action_ok as \<and>
      gs_out s1 = [] \<and> dp_sent (gs_dispatch s1) = [] \<and> gs_down s1 = [] \<and> gs_net s1 = [] \<and> k < n \<and>
      gnb_sim_step (st_cr S) ay (st_usim S) gnb (TaskTurn k) s1 = Some s' \<and> all_ended gnb s' \<and> no_failure n s'"
proof (induction "gnb_left n ph s" arbitrary: ph ups downs c s rule: less_induct)
  case less
  note inv = less.prems(1)
  let ?step = "gnb_sim_step (st_cr S) ay (st_usim S) gnb" and ?run = "gnb_sim_run (st_cr S) ay (st_usim S) gnb"
  have len: "length (gnb_ues gnb) = n" using gnb by (simp add: gnb_serves_def)
  have go_on: ?case if a: "as \<noteq> []" "list_all action_ok as" "?run as s = Some s1" "no_failure n s1" "\<not> all_ended gnb s1" for as s1
  proof -
    obtain ph1 ups1 downs1 c1 where i1: "gnb_inv S n ph1 ups1 downs1 c1 s1" "gnb_left n ph1 s1 + length as \<le> gnb_left n ph s"
      by (rule gnb_sim_run_keeps_inv [OF S n gnb a(3,2) inv])
    have "gnb_left n ph1 s1 < gnb_left n ph s" using i1(2) a(1) by (cases as) simp_all
    from less.hyps [OF this i1(1) a(4,5)] obtain bs k s2 s' where
      r: "?run bs s1 = Some s2 \<and> list_all action_ok bs \<and> gs_out s2 = [] \<and> dp_sent (gs_dispatch s2) = [] \<and> gs_down s2 = [] \<and>
        gs_net s2 = [] \<and> k < n \<and> ?step (TaskTurn k) s2 = Some s' \<and> all_ended gnb s' \<and> no_failure n s'" by blast
    show ?case by (rule exI [of _ "as @ bs"], rule exI [of _ k], rule exI [of _ s2], rule exI [of _ s'])
        (use r a(2,3) in \<open>simp add: gnb_sim_run_append\<close>)
  qed
  obtain k where k: "k < n" "\<And>r. ut_state (gs_tasks s k) \<noteq> TaskEnded r"
    using less.prems(3) by (auto simp: all_ended_iff len)
  have disp: "gs_dispatching s" by (rule waiting_dispatching [OF inv k])
  show ?case
  proof (cases "gs_out s = [] \<and> dp_sent (gs_dispatch s) = [] \<and> gs_down s = [] \<and> gs_net s = []")
    case True
    obtain as s' where a: "as \<noteq> []" "list_all action_ok as" "?run as s = Some s'" "no_failure n s'"
      "all_ended gnb s' \<longrightarrow> as = [TaskTurn k]"
      using quiet_progress [OF inv S n gnb less.prems(2) k] True by blast
    show ?thesis
    proof (cases "all_ended gnb s'")
      case True': True
      then have "?step (TaskTurn k) s = Some s'" using a(3,5) by (simp split: bind_splits del: gnb_sim_step.simps)
      then show ?thesis using a(4) True True' k(1) by (intro exI [of _ "[]"] exI [of _ k] exI [of _ s] exI [of _ s']) simp
    next
      case False
      show ?thesis by (rule go_on [OF a(1-4) False])
    qed
  next
    case False
    then obtain a s' where a: "action_ok a" "?step a s = Some s'" "gs_tasks s' = gs_tasks s"
      using drain_step [OF inv disp] by metis
    show ?thesis
      by (rule go_on [of "[a]" s']) (use a less.prems(2,3) in \<open>simp_all add: no_failure_def all_ended_iff del: gnb_sim_step.simps\<close>)
  qed
qed

lemma after_last_turn:
  assumes inv: "gnb_inv S n ph ups downs c s" and S: "setting_ok S" and gnb: "gnb_serves n (st_ip S) gnb" and k: "k < n"
    and quiet: "gs_out s = []" "dp_sent (gs_dispatch s) = []" "gs_down s = []"
    and step: "gnb_sim_step (st_cr S) ay (st_usim S) gnb (TaskTurn k) s = Some s'"
    and ended: "all_ended gnb s'" "no_failure n s'"
  obtains i r t pdu ups' where "gnb_inv S n (ph(k := PhGone i r t)) ups' downs c s'" "gs_out s' = [pdu]"
    "gs_dispatching s'" "gs_net s' = gs_net s" "dp_sent (gs_dispatch s') = []" "gs_down s' = []" "gnb_result gnb s' = Some (Inr ())"
proof -
  have len: "length (gnb_ues gnb) = n" using gnb by (simp add: gnb_serves_def)
  have turn: "task_turn (st_cr S) (st_usim S) s k = Some s'" using step k len by simp
  obtain p' msgs where inv': "gnb_inv S n (ph(k := p')) (ups @ map (Pair k) msgs) downs c s'"
    and eff: "task_effect S k (ph k) p' msgs" and out: "gs_out s' = gs_out s @ map enc_ngap msgs"
    and same: "gs_dispatching s'" "gs_net s' = gs_net s" "dp_sent (gs_dispatch s') = dp_sent (gs_dispatch s)" "gs_down s' = gs_down s"
    by (rule task_turn_keeps [OF inv S k turn])
  have ok: "ut_state (gs_tasks s' l) = TaskEnded TaskOk" if l: "l < n" for l
  proof -
    obtain r where r: "ut_state (gs_tasks s' l) = TaskEnded r" using ended(1) l unfolding all_ended_iff len by blast
    then have "snd (ph_task S l ((ph(k := p')) l)) = TaskEnded r" using inv' l by (simp add: gnb_inv_def)
    from task_results [OF this] show ?thesis using r ended(2) l by (auto simp: no_failure_def)
  qed
  then have "snd (ph_task S k p') = TaskEnded TaskOk" using inv' k by (simp add: gnb_inv_def)
  moreover have "p' \<noteq> PhFinished i r" for i r
  proof
    assume p: "p' = PhFinished i r"
    have "ph k = PhFresh \<or> ph k = PhStarting \<or> (\<exists>i r. ph k = PhFinished i r)"
      using eff p by (cases "ph k") (auto simp: task_effect_def)
    then show False using eff p by (auto simp: task_effect_def)
  qed
  ultimately obtain i r t where p: "p' = PhGone i r t" using finished_phase [of S k p'] by auto
  have "ups = []" using inv quiet by (simp add: gnb_inv_def carries_Nil)
  then have "ph_up S k (ph k) = []" using inv k by (auto simp: gnb_inv_def)
  then have "msgs = ph_up S k p'" using eff by (simp add: task_effect_def)
  then obtain msg where "msgs = [msg]" using p by simp
  moreover have "gnb_result gnb s' = Some (Inr ())"
    using ended(1) ok by (simp add: gnb_result_def gnb_join_ok len)
  ultimately show thesis using that [OF inv' [unfolded p]] out same quiet by simp
qed

lemma stuck_after_shutdown:
  assumes "all_ended gnb s" "\<not> gs_dispatching s" "dp_sent (gs_dispatch s) = []" "gs_net s = []"
  shows "gnb_stuck cr ay usim gnb s"
  unfolding gnb_stuck_def
proof (intro allI impI)
  fix a
  have "task_turn cr usim s k = None \<and> send_probe s k = None \<and> probe_reply s k = None \<and> probe_timeout s k = None"
    if "k < length (gnb_ues gnb)" for k
    using assms(1) that
    by (auto simp: all_ended_iff task_turn_def send_probe_def probe_reply_def probe_timeout_def Let_def split: TaskState.splits)
  then show "gnb_sim_step cr ay usim gnb a s = None"
    using assms(2-4) by (cases a) (auto simp: core_turn_def net_deliver_def split: list.splits option.splits)
qed

lemma result_of_tasks: "gs_tasks s' = gs_tasks s \<Longrightarrow> gnb_result gnb s' = gnb_result gnb s \<and> all_ended gnb s' = all_ended gnb s"
  by (simp add: gnb_result_def all_ended_iff)

text \<open>Both ends of the run: the dispatcher is stopped at once, or after it has sent the last message.\<close>

lemma both_ends:
  assumes inv: "gnb_inv S n ph ups downs c s" and S: "setting_ok S" and n: "n \<le> 8192" "0 < n" and gnb: "gnb_serves n (st_ip S) gnb"
    and nf: "no_failure n s" "\<not> all_ended gnb s"
  shows "\<exists>as s' m sm k. gnb_sim_run (st_cr S) ay (st_usim S) gnb as s = Some s' \<and> list_all action_ok as \<and>
      gnb_stuck (st_cr S) ay (st_usim S) gnb s' \<and> gnb_result gnb s' = Some (Inr ()) \<and> gs_core s' = Some (m, sm) \<and> k < n \<and>
      a_registry m (imsi_of k) \<noteq> None \<and> lookup_ul (sm_routing sm) \<noteq> Map.empty"
    "\<exists>as s'. gnb_sim_run (st_cr S) ay (st_usim S) gnb as s = Some s' \<and> list_all action_ok as \<and>
      gnb_stuck (st_cr S) ay (st_usim S) gnb s' \<and> gnb_result gnb s' = Some (Inr ()) \<and> gs_out s' = []"
proof -
  let ?step = "gnb_sim_step (st_cr S) ay (st_usim S) gnb" and ?run = "gnb_sim_run (st_cr S) ay (st_usim S) gnb"
  obtain as k s1 s2 where r: "?run as s = Some s1" "list_all action_ok as" "gs_out s1 = []" "dp_sent (gs_dispatch s1) = []"
    "gs_down s1 = []" "k < n" "?step (TaskTurn k) s1 = Some s2" "all_ended gnb s2" "no_failure n s2" "gs_net s1 = []"
    using last_turn [OF S n(1) gnb inv nf] by blast
  obtain ph1 ups1 downs1 c1 where inv1: "gnb_inv S n ph1 ups1 downs1 c1 s1"
    using gnb_sim_run_keeps [OF S n(1) gnb r(1,2) inv] by blast
  obtain i x t pdu ups2 where inv2: "gnb_inv S n (ph1(k := PhGone i x t)) ups2 downs1 c1 s2"
    and q: "gs_out s2 = [pdu]" "gs_dispatching s2" "dp_sent (gs_dispatch s2) = []" "gs_down s2 = []" "gnb_result gnb s2 = Some (Inr ())"
    and "gs_net s2 = gs_net s1" by (rule after_last_turn [OF inv1 S gnb r(6) r(3-5) r(7-9)])
  then have net: "gs_net s2 = []" using r(10) by simp
  obtain m sm where core: "gs_core s2 = Some (m, sm)" "core_inv S n (ph1(k := PhGone i x t)) c1 (m, sm)"
    using inv2 by (auto simp: gnb_inv_def)
  have f: "family n (\<lambda>l. ph_registered l ((ph1(k := PhGone i x t)) l)) (a_registry m)"
    "family n (\<lambda>l. ph_route S l ((ph1(k := PhGone i x t)) l)) (ul_map (sm_routing sm))"
    using core(2) by (simp_all add: core_inv_def)
  have left: "a_registry m (imsi_of k) = Some i" "ul_map (sm_routing sm) t \<noteq> None"
    using familyD(1) [OF f(1) r(6)] familyD(1) [OF f(2) r(6)] by simp_all
  show "\<exists>as s' m sm k. ?run as s = Some s' \<and> list_all action_ok as \<and> gnb_stuck (st_cr S) ay (st_usim S) gnb s' \<and>
      gnb_result gnb s' = Some (Inr ()) \<and> gs_core s' = Some (m, sm) \<and> k < n \<and> a_registry m (imsi_of k) \<noteq> None \<and>
      lookup_ul (sm_routing sm) \<noteq> Map.empty"
  proof (intro exI conjI)
    let ?s = "s2\<lparr>gs_dispatching := False\<rparr>"
    show "?run (as @ [TaskTurn k, Shutdown]) s = Some ?s" using r(1,7,8) q(2) by (simp add: gnb_sim_run_append)
    show "list_all action_ok (as @ [TaskTurn k, Shutdown])" using r(2) by simp
    show "gnb_stuck (st_cr S) ay (st_usim S) gnb ?s"
      by (rule stuck_after_shutdown) (use r(8) q(3) net in \<open>simp_all add: all_ended_iff\<close>)
    show "gnb_result gnb ?s = Some (Inr ())" using q(5) result_of_tasks [of ?s s2] by simp
    show "gs_core ?s = Some (m, sm)" "k < n" "a_registry m (imsi_of k) \<noteq> None" using core r(6) left by simp_all
    show "lookup_ul (sm_routing sm) \<noteq> Map.empty" using left(2) by (auto simp: lookup_ul_def fun_eq_iff)
  qed
  let ?s3 = "s2\<lparr>gs_out := [], gs_dispatch := (gs_dispatch s2)\<lparr>dp_sent := [pdu]\<rparr>\<rparr>"
  have s3: "?step TaskToLink s2 = Some ?s3" using q(1-3) by simp
  have "\<exists>s4. ?step (CoreTurn (replicate 16 0)) ?s3 = Some s4 \<and> gs_tasks s4 = gs_tasks s2 \<and> gs_dispatching s4 \<and>
      dp_sent (gs_dispatch s4) = [] \<and> gs_out s4 = [] \<and> gs_net s4 = []"
    using core(1) q(2) net by (auto simp: core_turn_def Let_def split: option.split sum.split)
  then obtain s4 where s4: "?step (CoreTurn (replicate 16 0)) ?s3 = Some s4" "gs_tasks s4 = gs_tasks s2" "gs_dispatching s4"
    "dp_sent (gs_dispatch s4) = []" "gs_out s4 = []" "gs_net s4 = []" by blast
  show "\<exists>as s'. ?run as s = Some s' \<and> list_all action_ok as \<and> gnb_stuck (st_cr S) ay (st_usim S) gnb s' \<and>
      gnb_result gnb s' = Some (Inr ()) \<and> gs_out s' = []"
  proof (intro exI conjI)
    let ?s = "s4\<lparr>gs_dispatching := False\<rparr>"
    show "?run (as @ [TaskTurn k, TaskToLink, CoreTurn (replicate 16 0), Shutdown]) s = Some ?s"
      using r(1,7,8) s3 s4 result_of_tasks [OF s4(2), of gnb] by (simp add: gnb_sim_run_append del: gnb_sim_step.simps(1-5))
    show "list_all action_ok (as @ [TaskTurn k, TaskToLink, CoreTurn (replicate 16 0), Shutdown])" using r(2) by simp
    show "gnb_stuck (st_cr S) ay (st_usim S) gnb ?s"
      by (rule stuck_after_shutdown) (use r(8) s4 result_of_tasks [OF s4(2), of gnb] in \<open>simp_all add: all_ended_iff\<close>)
    show "gnb_result gnb ?s = Some (Inr ())" using q(5) s4(2) result_of_tasks [of ?s s2] by simp
    show "gs_out ?s = []" using s4(5) by simp
  qed
qed

text \<open>Both ends from the start.\<close>

lemma start_can_end:
  assumes gnb: "run_gnb_start (V4 ip, port) n_ues (Some Connected) = Some (Inr gnb)" and n: "unat n_ues \<le> 8192" "0 < unat n_ues"
    and hss: "provision_ues hexd Hss_new [0..<unat n_ues] = Inr hss"
    and hex: "hexd TEST_K 16 = Inr key" "hexd TEST_OPC 16 = Inr opc" "length key = 16" "length opc = 16"
    and cr: "ctr_stream cr" "cmac_len cr" "hmac_len cr" "aes_len cr" and len: "length ip = 4" "length upf = 4"
  shows "\<exists>acts s m sm k. gnb_sim_run cr ay (MilenageContext_new key opc) gnb acts (gnb_sim_start gnb (amf_start hss upf)) = Some s \<and>
      list_all action_ok acts \<and> gnb_stuck cr ay (MilenageContext_new key opc) gnb s \<and> gnb_result gnb s = Some (Inr ()) \<and>
      gs_core s = Some (m, sm) \<and> k < unat n_ues \<and> a_registry m (imsi_of k) \<noteq> None \<and> lookup_ul (sm_routing sm) \<noteq> Map.empty"
    "\<exists>acts s. gnb_sim_run cr ay (MilenageContext_new key opc) gnb acts (gnb_sim_start gnb (amf_start hss upf)) = Some s \<and>
      list_all action_ok acts \<and> gnb_stuck cr ay (MilenageContext_new key opc) gnb s \<and> gnb_result gnb s = Some (Inr ()) \<and> gs_out s = []"
proof -
  let ?S = "\<lparr>st_cr = cr, st_usim = MilenageContext_new key opc, st_upf = upf, st_ip = ip\<rparr>" and ?n = "unat n_ues"
  let ?s = "gnb_sim_start gnb (amf_start hss upf)"
  obtain ph ups downs c where S: "setting_ok ?S" and serves: "gnb_serves ?n (st_ip ?S) gnb" and inv: "gnb_inv ?S ?n ph ups downs c ?s"
    by (rule gnb_run_inv [where hexd = hexd and acts = "[]" and ay = ay and s = ?s, OF gnb n(1) hss hex cr len]) simp_all
  have "no_failure ?n ?s" "\<not> all_ended gnb ?s"
    using serves n(2) by (auto simp: no_failure_def all_ended_iff gnb_sim_start_def gnb_serves_def)
  note b = both_ends [OF inv S n serves this, of ay, simplified]
  show "\<exists>acts s m sm k. gnb_sim_run cr ay (MilenageContext_new key opc) gnb acts ?s = Some s \<and>
      list_all action_ok acts \<and> gnb_stuck cr ay (MilenageContext_new key opc) gnb s \<and> gnb_result gnb s = Some (Inr ()) \<and>
      gs_core s = Some (m, sm) \<and> k < ?n \<and> a_registry m (imsi_of k) \<noteq> None \<and> lookup_ul (sm_routing sm) \<noteq> Map.empty"
    using b(1) by simp
  show "\<exists>acts s. gnb_sim_run cr ay (MilenageContext_new key opc) gnb acts ?s = Some s \<and>
      list_all action_ok acts \<and> gnb_stuck cr ay (MilenageContext_new key opc) gnb s \<and> gnb_result gnb s = Some (Inr ()) \<and> gs_out s = []"
    using b(2) by simp
qed

section \<open>Every schedule\<close>

text \<open>
  C3. Subscribers that share a link do not disturb each other, however the processes are
  scheduled. Start the AMF with up to 8192 provisioned subscribers and the gNodeB with the same ones,
  and let core, dispatcher and tasks take turns in any order, with any challenges, while the network
  of the user plane delivers datagrams in any order, late or not at all. The run has at most 49
  actions per subscriber and one more. The core does not stop; a task that has ended has succeeded or
  got no echo in its five attempts; and once the core has handled what was sent, an attempt whose
  datagram and reply are delivered passes the check of its subscriber. When no action is left,
  \<open>run_gnb\<close> has returned and nothing is under way to a subscriber. If it returned successfully and its dispatcher had sent everything, then no entity, no
  registration, no session and no route is left in the core, and the sequence number of every
  subscriber has advanced by one.
\<close>

theorem shared_link_any_schedule:
  assumes gnb: "run_gnb_start (V4 ip, port) n_ues (Some Connected) = Some (Inr gnb)" and n: "unat n_ues \<le> 8192"
    and hss: "provision_ues hexd Hss_new [0..<unat n_ues] = Inr hss"
    and hex: "hexd TEST_K 16 = Inr key" "hexd TEST_OPC 16 = Inr opc" "length key = 16" "length opc = 16"
    and cr: "ctr_stream cr" "cmac_len cr" "hmac_len cr" "aes_len cr" and len: "length ip = 4" "length upf = 4"
    and run: "gnb_sim_run cr ay (MilenageContext_new key opc) gnb acts (gnb_sim_start gnb (amf_start hss upf)) = Some s"
    and acts: "list_all action_ok acts"
  shows "length acts \<le> 49 * unat n_ues + 1 \<and>
    (\<exists>m sm. gs_core s = Some (m, sm) \<and>
      (\<forall>k < unat n_ues. \<forall>r. ut_state (gs_tasks s k) = TaskEnded r \<longrightarrow>
         r = TaskOk \<or> r = TaskErr (UeReason ''no DL G-PDU echo received after 5 attempts'')) \<and>
      (\<forall>k < unat n_ues. \<forall>i u t j. ut_state (gs_tasks s k) = TaskChecking i u t j False \<longrightarrow>
         gs_out s = [] \<longrightarrow> dp_sent (gs_dispatch s) = [] \<longrightarrow>
         (\<exists>s'. gnb_sim_run cr ay (MilenageContext_new key opc) gnb
              [SendProbe k, NetDeliver (length (gs_net s)), NetDeliver (length (gs_net s)), ProbeReply k] s = Some s' \<and>
            ut_state (gs_tasks s' k) = TaskWaiting)) \<and>
      (gnb_stuck cr ay (MilenageContext_new key opc) gnb s \<longrightarrow>
         gnb_result gnb s \<noteq> None \<and> gs_down s = [] \<and> gs_net s = [] \<and>
         (gnb_result gnb s = Some (Inr ()) \<longrightarrow> gs_out s = [] \<longrightarrow>
            abs_world (a_world m) = Map.empty \<and> a_registry m = Map.empty \<and> get_session sm = Map.empty \<and>
            lookup_ul (sm_routing sm) = Map.empty \<and>
            (\<forall>k < unat n_ues. a_hss m (TEST_IMSI + of_nat k) =
               Some \<lparr>sr_ctx = MilenageContext_new key opc, sr_sqn = 1\<rparr>))))"
proof -
  let ?S = "\<lparr>st_cr = cr, st_usim = MilenageContext_new key opc, st_upf = upf, st_ip = ip\<rparr>" and ?n = "unat n_ues"
  obtain ph ups downs c where S: "setting_ok ?S" and serves: "gnb_serves ?n (st_ip ?S) gnb"
    and inv: "gnb_inv ?S ?n ph ups downs c s" and left: "gnb_left ?n ph s + length acts \<le> 49 * ?n + 1"
    by (rule gnb_run_inv [where hexd = hexd, OF gnb n hss hex cr len run acts])
  obtain m sm where core: "gs_core s = Some (m, sm)" using inv by (auto simp: gnb_inv_def)
  have results: "r = TaskOk \<or> r = TaskErr (UeReason ''no DL G-PDU echo received after 5 attempts'')"
    if "k < ?n" "ut_state (gs_tasks s k) = TaskEnded r" for k r
    using task_results [of ?S k "ph k" r] inv that by (simp add: gnb_inv_def) blast
  have final: "gnb_result gnb s \<noteq> None \<and> gs_down s = [] \<and> gs_net s = [] \<and> dp_sent (gs_dispatch s) = []"
    if "gnb_stuck cr ay (MilenageContext_new key opc) gnb s"
    using stuck_is_final [OF inv serves that] by (simp add: gnb_result_def)
  have clean: "abs_world (a_world m) = Map.empty \<and> a_registry m = Map.empty \<and> get_session sm = Map.empty \<and>
      lookup_ul (sm_routing sm) = Map.empty \<and>
      (\<forall>k < ?n. a_hss m (imsi_of k) = Some \<lparr>sr_ctx = MilenageContext_new key opc, sr_sqn = 1\<rparr>)"
    if "gnb_result gnb s = Some (Inr ())" "gs_out s = []" "dp_sent (gs_dispatch s) = []"
    using success_is_clean [OF inv serves core that(1,3,2)] by simp
  have check: "\<exists>s'. gnb_sim_run cr ay (MilenageContext_new key opc) gnb (probe_actions k s) s = Some s' \<and>
      ut_state (gs_tasks s' k) = TaskWaiting"
    if "k < ?n" "ut_state (gs_tasks s k) = TaskChecking i u t j False" "gs_out s = []" "dp_sent (gs_dispatch s) = []" for k i u t j
    using check_passes [OF inv S n serves that, of ay] by (auto simp del: gnb_sim_run.simps)
  show ?thesis
    using left core results final clean check by (intro conjI exI [of _ m] exI [of _ sm]) auto
qed

text \<open>A hexadecimal decoder for samples, and two subscribers.\<close>

definition sample_hex :: "string \<Rightarrow> nat \<Rightarrow> unit + bytes" where
  "sample_hex txt n = Inr (replicate n 1)"

lemma sample_two_ues:
  obtains gnb hss where "run_gnb_start (V4 [127, 0, 0, 2], 0) 2 (Some Connected) = Some (Inr gnb)"
    "provision_ues sample_hex Hss_new [0..<unat (2 :: u32)] = Inr hss"
proof -
  obtain gnb where g: "run_gnb_start (V4 [127, 0, 0, 2], 0) 2 (Some Connected) = Some (Inr gnb)"
    by (simp add: run_gnb_start_def ipv4_octets_def u32_add_def RAN_UE_NGAP_ID_BASE_def MOCK_DL_TEID_BASE_def upt_rec)
  show thesis
    using provision_ues_wf [of sample_hex "replicate 16 1" "replicate 16 1" Hss_new "[0..<unat (2 :: u32)]"] that [OF g]
    by (auto simp: sample_hex_def)
qed

theorem shared_link_any_schedule_witness:
  "\<exists>gnb hss acts s m sm. run_gnb_start (V4 [127, 0, 0, 2], 0) 2 (Some Connected) = Some (Inr gnb) \<and>
    gnb_sim_run sample_crypto sample_aya (MilenageContext_new (replicate 16 1) (replicate 16 1)) gnb acts
      (gnb_sim_start gnb (amf_start hss [127, 0, 0, 1])) = Some s \<and>
    gnb_result gnb s = Some (Inr ()) \<and> gs_core s = Some (m, sm) \<and> a_registry m = Map.empty \<and>
    lookup_ul (sm_routing sm) = Map.empty \<and> length acts \<le> 99"
proof -
  obtain gnb hss where g: "run_gnb_start (V4 [127, 0, 0, 2], 0) 2 (Some Connected) = Some (Inr gnb)"
    "provision_ues sample_hex Hss_new [0..<unat (2 :: u32)] = Inr hss" by (rule sample_two_ues)
  have h: "unat (2 :: u32) \<le> 8192" "0 < unat (2 :: u32)" "sample_hex TEST_K 16 = Inr (replicate 16 1)"
    "sample_hex TEST_OPC 16 = Inr (replicate 16 1)" "length (replicate 16 (1 :: u8)) = 16"
    "length [127, 0, 0, 2 :: u8] = 4" "length [127, 0, 0, 1 :: u8] = 4" by (simp_all add: sample_hex_def)
  note cr = sample_crypto_ok(1,2,3,4)
  obtain acts s where a: "gnb_sim_run sample_crypto sample_aya (MilenageContext_new (replicate 16 1) (replicate 16 1)) gnb acts
      (gnb_sim_start gnb (amf_start hss [127, 0, 0, 1])) = Some s" "list_all action_ok acts"
    "gnb_stuck sample_crypto sample_aya (MilenageContext_new (replicate 16 1) (replicate 16 1)) gnb s"
    "gnb_result gnb s = Some (Inr ())" "gs_out s = []"
    using start_can_end(2) [OF g(1) h(1,2) g(2) h(3,4,5,5) cr h(6,7)] by blast
  note t = shared_link_any_schedule [OF g(1) h(1) g(2) h(3,4,5,5) cr h(6,7) a(1,2)]
  have "length acts \<le> 99" using t by simp
  moreover obtain m sm where "gs_core s = Some (m, sm)" "a_registry m = Map.empty" "lookup_ul (sm_routing sm) = Map.empty"
    using t a(3-5) by blast
  ultimately show ?thesis using g(1) a(1,4) by blast
qed

section \<open>Two ends\<close>

text \<open>
  C40. Success of the gNodeB does not mean that the core was told. A task ends when its last
  message is in the channel to the dispatcher, and \<open>run_gnb\<close> stops the dispatcher as soon as all tasks
  have ended. So for any number of subscribers there are two runs in which every task succeeds and no
  action is left: in one of them the dispatcher was stopped first, and the core keeps a subscriber
  registered and its tunnel routed for ever; in the other one it had sent everything, and the core is
  as it was before.
\<close>

theorem early_stop_strands_subscriber:
  assumes gnb: "run_gnb_start (V4 ip, port) n_ues (Some Connected) = Some (Inr gnb)" and n: "unat n_ues \<le> 8192" "0 < unat n_ues"
    and hss: "provision_ues hexd Hss_new [0..<unat n_ues] = Inr hss"
    and hex: "hexd TEST_K 16 = Inr key" "hexd TEST_OPC 16 = Inr opc" "length key = 16" "length opc = 16"
    and cr: "ctr_stream cr" "cmac_len cr" "hmac_len cr" "aes_len cr" and len: "length ip = 4" "length upf = 4"
  shows "(\<exists>acts s m sm k. gnb_sim_run cr ay (MilenageContext_new key opc) gnb acts (gnb_sim_start gnb (amf_start hss upf)) = Some s \<and>
      gnb_stuck cr ay (MilenageContext_new key opc) gnb s \<and> gnb_result gnb s = Some (Inr ()) \<and>
      gs_core s = Some (m, sm) \<and> k < unat n_ues \<and> a_registry m (TEST_IMSI + of_nat k) \<noteq> None \<and>
      lookup_ul (sm_routing sm) \<noteq> Map.empty) \<and>
    (\<exists>acts s m sm. gnb_sim_run cr ay (MilenageContext_new key opc) gnb acts (gnb_sim_start gnb (amf_start hss upf)) = Some s \<and>
      gnb_stuck cr ay (MilenageContext_new key opc) gnb s \<and> gnb_result gnb s = Some (Inr ()) \<and>
      gs_core s = Some (m, sm) \<and> abs_world (a_world m) = Map.empty \<and> a_registry m = Map.empty \<and>
      lookup_ul (sm_routing sm) = Map.empty)"
proof
  let ?S = "\<lparr>st_cr = cr, st_usim = MilenageContext_new key opc, st_upf = upf, st_ip = ip\<rparr>"
  note ends = start_can_end [where hexd = hexd and ay = ay, OF gnb n hss hex cr len]
  show "\<exists>acts s m sm k. gnb_sim_run cr ay (MilenageContext_new key opc) gnb acts (gnb_sim_start gnb (amf_start hss upf)) = Some s \<and>
      gnb_stuck cr ay (MilenageContext_new key opc) gnb s \<and> gnb_result gnb s = Some (Inr ()) \<and>
      gs_core s = Some (m, sm) \<and> k < unat n_ues \<and> a_registry m (TEST_IMSI + of_nat k) \<noteq> None \<and>
      lookup_ul (sm_routing sm) \<noteq> Map.empty" using ends(1) by blast
  obtain acts s where a: "gnb_sim_run cr ay (MilenageContext_new key opc) gnb acts (gnb_sim_start gnb (amf_start hss upf)) = Some s"
    "list_all action_ok acts" "gnb_stuck cr ay (MilenageContext_new key opc) gnb s" "gnb_result gnb s = Some (Inr ())" "gs_out s = []"
    using ends(2) by blast
  obtain ph ups downs c where i: "gnb_serves (unat n_ues) (st_ip ?S) gnb" "gnb_inv ?S (unat n_ues) ph ups downs c s"
    by (rule gnb_run_inv [where hexd = hexd, OF gnb n(1) hss hex cr len a(1,2)])
  obtain m sm where core: "gs_core s = Some (m, sm)" using i(2) by (auto simp: gnb_inv_def)
  have "dp_sent (gs_dispatch s) = []" by (rule stuck_is_final(3) [OF i(2,1) a(3)])
  from success_is_clean [OF i(2,1) core a(4) this a(5)] core a
  show "\<exists>acts s m sm. gnb_sim_run cr ay (MilenageContext_new key opc) gnb acts (gnb_sim_start gnb (amf_start hss upf)) = Some s \<and>
      gnb_stuck cr ay (MilenageContext_new key opc) gnb s \<and> gnb_result gnb s = Some (Inr ()) \<and>
      gs_core s = Some (m, sm) \<and> abs_world (a_world m) = Map.empty \<and> a_registry m = Map.empty \<and>
      lookup_ul (sm_routing sm) = Map.empty" by blast
qed

theorem early_stop_strands_subscriber_witness:
  "\<exists>gnb hss acts s m sm k. run_gnb_start (V4 [127, 0, 0, 2], 0) 2 (Some Connected) = Some (Inr gnb) \<and>
    gnb_sim_run sample_crypto sample_aya (MilenageContext_new (replicate 16 1) (replicate 16 1)) gnb acts
      (gnb_sim_start gnb (amf_start hss [127, 0, 0, 1])) = Some s \<and>
    gnb_result gnb s = Some (Inr ()) \<and> gs_core s = Some (m, sm) \<and> a_registry m (TEST_IMSI + of_nat k) \<noteq> None"
proof -
  obtain gnb hss where g: "run_gnb_start (V4 [127, 0, 0, 2], 0) 2 (Some Connected) = Some (Inr gnb)"
    "provision_ues sample_hex Hss_new [0..<unat (2 :: u32)] = Inr hss" by (rule sample_two_ues)
  show ?thesis
    using early_stop_strands_subscriber [OF g(1) _ _ g(2), of "replicate 16 1" "replicate 16 1" sample_crypto "[127, 0, 0, 1]" sample_aya]
      sample_crypto_ok(1,2,3,4) g(1) by (simp add: sample_hex_def) blast
qed

end
