(* ===== verification/Ebpf_Loader.thy ===== *)
theory Ebpf_Loader
  imports Mme_Node Xdp_Fastpath
begin

text \<open>
  Loading and attaching the kernel programs: \<open>load_xdp\<close>, its three variants for the target of the build,
  and \<open>attach_dl\<close> of \<open>crates/midn-userplane/src/ebpf/loader.rs\<close>, over the loader library as a parameter, and
  what the attached programs do before the two configuration maps are written.
\<close>

section \<open>The loader library\<close>

text \<open>
  A loaded object is a value of type \<open>'b\<close>; its maps are the kernel maps of \<open>Upf\<close>. A program is
  looked up by its name, converted to an XDP program, loaded into the kernel and attached to an interface.
\<close>

record 'b aya_loader =
  ebpf_load :: "bytes \<Rightarrow> string + 'b"
  logger_init :: "'b \<Rightarrow> (string + unit) \<times> 'b"
  has_program :: "'b \<Rightarrow> string \<Rightarrow> bool"
  try_into_xdp :: "'b \<Rightarrow> string \<Rightarrow> string + unit"
  program_load :: "'b \<Rightarrow> string \<Rightarrow> (string + unit) \<times> 'b"
  program_attach :: "'b \<Rightarrow> string \<Rightarrow> string \<Rightarrow> (string + unit) \<times> 'b"
  ebpf_maps :: "'b \<Rightarrow> BpfHandle"

section \<open>Loading and attaching\<close>

datatype Target = NotLinux | LinuxWithoutEbpf | LinuxWithEbpf

definition UL_PROGRAM :: string where "UL_PROGRAM = ''midn_gtp_xdp''"
definition DL_PROGRAM :: string where "DL_PROGRAM = ''midn_gtp_dl_xdp''"

text \<open>The two programs are taken from the object, loaded and attached by the same sequence of calls.\<close>

definition attach_program :: "'b aya_loader \<Rightarrow> string \<Rightarrow> 'b \<Rightarrow> string \<Rightarrow> (string + unit) \<times> 'b" where
  "attach_program al name bpf iface =
     (if \<not> has_program al bpf name then (Inl (''XDP program '' @ name @ '' not found in BPF object''), bpf)
      else (case try_into_xdp al bpf name of
              Inl e \<Rightarrow> (Inl e, bpf)
            | Inr _ \<Rightarrow>
                (case program_load al bpf name of
                   (Inl e, bpf) \<Rightarrow> (Inl e, bpf)
                 | (Inr _, bpf) \<Rightarrow> program_attach al bpf name iface)))"

text \<open>An error drops the object, which detaches what is attached, so only a success returns it.\<close>

definition load_xdp_impl :: "'b aya_loader \<Rightarrow> Target \<Rightarrow> bytes \<Rightarrow> string \<Rightarrow> string + 'b" where
  "load_xdp_impl al target bpf_object iface =
     (case target of
        NotLinux \<Rightarrow> Inl ''eBPF/XDP requires Linux ''
      | LinuxWithoutEbpf \<Rightarrow> Inl ''XDP fast path not compiled in ''
      | LinuxWithEbpf \<Rightarrow>
          (case ebpf_load al bpf_object of
             Inl e \<Rightarrow> Inl e
           | Inr bpf \<Rightarrow>
               (case attach_program al UL_PROGRAM (snd (logger_init al bpf)) iface of
                  (Inl e, _) \<Rightarrow> Inl e
                | (Inr _, bpf) \<Rightarrow> Inr bpf)))"

definition load_xdp :: "'b aya_loader \<Rightarrow> Target \<Rightarrow> bytes \<Rightarrow> string \<Rightarrow> string + 'b" where
  "load_xdp al target bpf_object iface = load_xdp_impl al target bpf_object iface"

definition attach_dl :: "'b aya_loader \<Rightarrow> 'b \<Rightarrow> string \<Rightarrow> (string + unit) \<times> 'b" where
  "attach_dl al bpf iface = attach_program al DL_PROGRAM bpf iface"

section \<open>What the library promises\<close>

text \<open>
  The programs that are loaded and attached. A fresh object has none, its hash maps are empty, and
  its array maps are preallocated with zero bytes, so that the program finds entry 0 from the
  start; a program is loaded once, and loading it again
  is an error; only a loaded program can be attached; a call that fails changes nothing.
\<close>

record ebpf_view =
  ev_loaded :: "string set"
  ev_attached :: "(string \<times> string) set"

definition zero_maps :: BpfHandle where
  "zero_maps = \<lparr>TEID_TO_ROUTE = Map.empty, UE_IP_TO_ROUTE = Map.empty,
     PDN_GW_CONFIG = PdnGwConfig_new (replicate 6 0) (replicate 6 0),
     DL_TUNNEL_CONFIG = DlTunnelConfig_new (replicate 6 0) (replicate 6 0) (replicate 4 0) 0\<rparr>"

definition aya_loader_ok :: "'b aya_loader \<Rightarrow> ('b \<Rightarrow> ebpf_view) \<Rightarrow> bool" where
  "aya_loader_ok al v \<longleftrightarrow>
     (\<forall>obj b. ebpf_load al obj = Inr b \<longrightarrow> v b = \<lparr>ev_loaded = {}, ev_attached = {}\<rparr> \<and> ebpf_maps al b = zero_maps) \<and>
     (\<forall>b. v (snd (logger_init al b)) = v b \<and> ebpf_maps al (snd (logger_init al b)) = ebpf_maps al b) \<and>
     (\<forall>b n r b'. program_load al b n = (r, b') \<longrightarrow> ebpf_maps al b' = ebpf_maps al b \<and>
        (case r of
           Inl _ \<Rightarrow> v b' = v b
         | Inr _ \<Rightarrow> n \<notin> ev_loaded (v b) \<and> v b' = (v b)\<lparr>ev_loaded := insert n (ev_loaded (v b))\<rparr>)) \<and>
     (\<forall>b n i r b'. program_attach al b n i = (r, b') \<longrightarrow> ebpf_maps al b' = ebpf_maps al b \<and>
        (case r of
           Inl _ \<Rightarrow> v b' = v b
         | Inr _ \<Rightarrow> n \<in> ev_loaded (v b) \<and> v b' = (v b)\<lparr>ev_attached := insert (n, i) (ev_attached (v b))\<rparr>))"

section \<open>Attaching\<close>

lemma loader_okD:
  assumes "aya_loader_ok al v"
  shows "ebpf_load al obj = Inr b \<Longrightarrow> v b = \<lparr>ev_loaded = {}, ev_attached = {}\<rparr> \<and> ebpf_maps al b = zero_maps"
    and "v (snd (logger_init al b)) = v b \<and> ebpf_maps al (snd (logger_init al b)) = ebpf_maps al b"
    and "program_load al b n = (Inl e, b') \<Longrightarrow> v b' = v b \<and> ebpf_maps al b' = ebpf_maps al b"
    and "program_load al b n = (Inr u, b') \<Longrightarrow> n \<notin> ev_loaded (v b) \<and>
      v b' = (v b)\<lparr>ev_loaded := insert n (ev_loaded (v b))\<rparr> \<and> ebpf_maps al b' = ebpf_maps al b"
    and "program_attach al b n i = (Inl e, b') \<Longrightarrow> v b' = v b \<and> ebpf_maps al b' = ebpf_maps al b"
    and "program_attach al b n i = (Inr u, b') \<Longrightarrow>
      v b' = (v b)\<lparr>ev_attached := insert (n, i) (ev_attached (v b))\<rparr> \<and> ebpf_maps al b' = ebpf_maps al b"
proof -
  note ok = assms [unfolded aya_loader_ok_def]
  show "ebpf_load al obj = Inr b \<Longrightarrow> v b = \<lparr>ev_loaded = {}, ev_attached = {}\<rparr> \<and> ebpf_maps al b = zero_maps"
    "v (snd (logger_init al b)) = v b \<and> ebpf_maps al (snd (logger_init al b)) = ebpf_maps al b" using ok by simp_all
  have load: "ebpf_maps al b' = ebpf_maps al b \<and> (case r of Inl _ \<Rightarrow> v b' = v b
      | Inr _ \<Rightarrow> n \<notin> ev_loaded (v b) \<and> v b' = (v b)\<lparr>ev_loaded := insert n (ev_loaded (v b))\<rparr>)"
    if "program_load al b n = (r, b')" for r
    using ok that by (elim conjE allE [of _ b]) blast
  show "program_load al b n = (Inl e, b') \<Longrightarrow> v b' = v b \<and> ebpf_maps al b' = ebpf_maps al b"
    "program_load al b n = (Inr u, b') \<Longrightarrow> n \<notin> ev_loaded (v b) \<and>
      v b' = (v b)\<lparr>ev_loaded := insert n (ev_loaded (v b))\<rparr> \<and> ebpf_maps al b' = ebpf_maps al b"
    using load [of "Inl e"] load [of "Inr u"] by simp_all
  have attach: "ebpf_maps al b' = ebpf_maps al b \<and> (case r of Inl _ \<Rightarrow> v b' = v b
      | Inr _ \<Rightarrow> n \<in> ev_loaded (v b) \<and> v b' = (v b)\<lparr>ev_attached := insert (n, i) (ev_attached (v b))\<rparr>)"
    if "program_attach al b n i = (r, b')" for r
    using ok that by (elim conjE allE [of _ b]) blast
  show "program_attach al b n i = (Inl e, b') \<Longrightarrow> v b' = v b \<and> ebpf_maps al b' = ebpf_maps al b"
    "program_attach al b n i = (Inr u, b') \<Longrightarrow>
      v b' = (v b)\<lparr>ev_attached := insert (n, i) (ev_attached (v b))\<rparr> \<and> ebpf_maps al b' = ebpf_maps al b"
    using attach [of "Inl e"] attach [of "Inr u"] by simp_all
qed

lemma attach_program_view:
  assumes ok: "aya_loader_ok al v" and r: "attach_program al n b i = (r, b')"
  shows "ebpf_maps al b' = ebpf_maps al b \<and>
    (case r of
       Inl _ \<Rightarrow> ev_attached (v b') = ev_attached (v b) \<and> ev_loaded (v b') \<in> {ev_loaded (v b), insert n (ev_loaded (v b))}
     | Inr _ \<Rightarrow> v b' = \<lparr>ev_loaded = insert n (ev_loaded (v b)), ev_attached = insert (n, i) (ev_attached (v b))\<rparr>)"
proof (cases "has_program al b n \<and> (\<exists>u. try_into_xdp al b n = Inr u)")
  case True
  obtain l b1 where l: "program_load al b n = (l, b1)" by fastforce
  show ?thesis
  proof (cases l)
    case (Inl e)
    then show ?thesis using True l r loader_okD(3) [OF ok, of b n e b1] by (auto simp: attach_program_def)
  next
    case (Inr u)
    then have a: "program_attach al b1 n i = (r, b')" using True l r by (auto simp: attach_program_def)
    note v1 = loader_okD(4) [OF ok l [unfolded Inr]]
    show ?thesis
    proof (cases r)
      case (Inl e)
      then show ?thesis using v1 loader_okD(5) [OF ok a [unfolded Inl]] by simp
    next
      case (Inr w)
      then show ?thesis using v1 loader_okD(6) [OF ok a [unfolded Inr]] by simp
    qed
  qed
next
  case False
  then show ?thesis using r by (auto simp: attach_program_def split: if_splits sum.splits)
qed

lemma load_xdp_view:
  assumes ok: "aya_loader_ok al v" and r: "load_xdp al target obj iface = Inr b"
  shows "target = LinuxWithEbpf" "v b = \<lparr>ev_loaded = {UL_PROGRAM}, ev_attached = {(UL_PROGRAM, iface)}\<rparr>"
    "ebpf_maps al b = zero_maps"
proof -
  obtain b0 u where b0: "target = LinuxWithEbpf" "ebpf_load al obj = Inr b0"
    "attach_program al UL_PROGRAM (snd (logger_init al b0)) iface = (Inr u, b)"
    using r by (auto simp: load_xdp_def load_xdp_impl_def split: Target.splits sum.splits prod.splits)
  show "target = LinuxWithEbpf" by (rule b0(1))
  have "v (snd (logger_init al b0)) = \<lparr>ev_loaded = {}, ev_attached = {}\<rparr>" "ebpf_maps al (snd (logger_init al b0)) = zero_maps"
    using loader_okD(1,2) [OF ok] b0(2) by simp_all
  then show "v b = \<lparr>ev_loaded = {UL_PROGRAM}, ev_attached = {(UL_PROGRAM, iface)}\<rparr>" "ebpf_maps al b = zero_maps"
    using attach_program_view [OF ok b0(3)] by simp_all
qed

text \<open>
  The sequence of calls cannot be repeated: once the program is loaded, a further call fails at the load,
  also when the interface of the first call did not exist and nothing is attached.
\<close>

lemma attach_dl_no_retry:
  assumes ok: "aya_loader_ok al v" and loaded: "DL_PROGRAM \<in> ev_loaded (v b)"
  shows "\<exists>e b'. attach_dl al b iface = (Inl e, b') \<and> ev_attached (v b') = ev_attached (v b) \<and> DL_PROGRAM \<in> ev_loaded (v b')"
proof -
  obtain r b' where r: "attach_dl al b iface = (r, b')" by fastforce
  have "\<exists>e. r = Inl e"
  proof (rule ccontr)
    assume "\<nexists>e. r = Inl e"
    then obtain u b1 where "program_load al b DL_PROGRAM = (Inr u, b1)"
      using r by (cases r) (auto simp: attach_dl_def attach_program_def split: if_splits sum.splits prod.splits)
    from loader_okD(4) [OF ok this] loaded show False by simp
  qed
  then obtain e where "r = Inl e" by blast
  then show ?thesis using r attach_program_view [OF ok r [unfolded attach_dl_def]] loaded by auto
qed

section \<open>The programs before they are configured\<close>

lemma or_warn_config [simp]:
  "PDN_GW_CONFIG (or_warn (insert_teid ay b t x) b) = PDN_GW_CONFIG b"
  "PDN_GW_CONFIG (or_warn (insert_ue_route ay b i x) b) = PDN_GW_CONFIG b"
  "PDN_GW_CONFIG (or_warn (remove_teid ay b t) b) = PDN_GW_CONFIG b"
  "PDN_GW_CONFIG (or_warn (remove_ue_route ay b i) b) = PDN_GW_CONFIG b"
  "DL_TUNNEL_CONFIG (or_warn (insert_teid ay b t x) b) = DL_TUNNEL_CONFIG b"
  "DL_TUNNEL_CONFIG (or_warn (insert_ue_route ay b i x) b) = DL_TUNNEL_CONFIG b"
  "DL_TUNNEL_CONFIG (or_warn (remove_teid ay b t) b) = DL_TUNNEL_CONFIG b"
  "DL_TUNNEL_CONFIG (or_warn (remove_ue_route ay b i) b) = DL_TUNNEL_CONFIG b"
  by (simp_all add: or_warn_def insert_teid_def insert_ue_route_def remove_teid_def remove_ue_route_def split: option.split)

text \<open>No event of the control plane writes the configuration.\<close>

definition config_of :: "SessionManager \<Rightarrow> (PdnGwConfig \<times> DlTunnelConfig) option" where
  "config_of sm = map_option (\<lambda>b. (PDN_GW_CONFIG b, DL_TUNNEL_CONFIG b)) (sm_bpf sm)"

lemma event_config: "config_of (apply_upf_event ay sm e) = config_of sm"
  by (cases e) (auto simp: config_of_def apply_upf_event.simps create_session_with_teid_def sm_install_def
      update_bearer_info_def remove_session_def Let_def split: option.splits)

lemma events_config: "config_of (foldl (apply_upf_event ay) sm es) = config_of sm"
  by (induction es arbitrary: sm) (simp_all add: event_config)

text \<open>A G-PDU of a session in an Ethernet frame is stripped and transmitted, whatever the addresses are.\<close>

lemma ul_classify_gpdu:
  assumes "m t \<noteq> None"
  shows "ul_classify m (ul_frame (to_bytes (new_gpdu t n) @ p)) = Some (Some (20, FLAGS_STANDARD))"
proof -
  let ?f = "ul_frame (to_bytes (new_gpdu t n) @ p)"
  obtain a b c d where t: "to_be32 t = [a, b, c, d]" using length4D [of "to_be32 t"] by auto
  then have td: "from_be [a, b, c, d] = t" using from_be_to_be32 [of t] by simp
  obtain x y where l: "to_be16 n = [x, y]" by (simp add: to_be16_def)
  have f: "?f = replicate 12 0 @ [0x08, 0x00, 0x45, 0, 0, 0, 0, 0, 0, 0, 64, 17] @ replicate 10 0 @
      [0, 0, 0x08, 0x68, 0, 0, 0, 0, FLAGS_STANDARD, MSG_GPDU, x, y, a, b, c, d] @ p"
    using t l by (simp add: ul_frame_def to_bytes_eq new_gpdu_def)
  have r: "read_u16_be ?f 12 = Some 0x0800" "read_u8 ?f 14 = Some 0x45" "read_u8 ?f 23 = Some 17"
    "read_u16_be ?f 36 = Some 2152" "read_u8 ?f 42 = Some FLAGS_STANDARD" "read_u8 ?f 43 = Some MSG_GPDU"
    "read_u32_be ?f 46 = Some t"
    using td by (simp_all add: f read_u16_be_def read_u8_def read_u32_be_def bounds_check_def from_be_def)
  obtain e where "m t = Some e" using assms by blast
  then show ?thesis using r by (simp add: ul_classify_def xdp_consts MSG_GPDU_def Let_def)
qed

lemma ul_gpdu_transmitted:
  assumes h: "adjust_ok h" and m: "m t \<noteq> None"
    and a: "bpf_xdp_adjust_head h (ul_frame (to_bytes (new_gpdu t n) @ p)) 36 \<noteq> None"
  shows "midn_gtp_xdp h m (Some cfg) (ul_frame (to_bytes (new_gpdu t n) @ p)) = (XDP_TX, gw_mac cfg @ nic_mac cfg @ [0x08, 0x00] @ p)"
proof -
  let ?f = "ul_frame (to_bytes (new_gpdu t n) @ p)"
  obtain q where q: "bpf_xdp_adjust_head h ?f (int 36) = Some q" using a by auto
  then have "q = drop 36 ?f" using h unfolding adjust_ok_def by blast
  then have "length q = 14 + length p" "drop 14 q = p" by (simp_all add: ul_frame_def)
  then show ?thesis
    using q ul_classify_gpdu [of m t n p, OF m]
    by (simp add: midn_gtp_xdp_def process_ul_def ul_rewrite_def xdp_consts FLAGS_STANDARD_def VERSION_1_def PT_GTP_def Let_def)
qed

lemma ul_unknown_passes: "midn_gtp_xdp h Map.empty cfg pkt = (XDP_PASS, pkt)"
  by (auto simp: midn_gtp_xdp_def process_ul_def ul_classify_def Let_def bind_eq_Some_conv
      split: option.splits Option.bind_splits if_splits)

lemma dl_unknown_passes: "midn_gtp_dl_xdp h Map.empty cfg pkt = (XDP_PASS, pkt)"
  by (auto simp: midn_gtp_dl_xdp_def process_dl_def bind_eq_Some_conv split: option.splits Option.bind_splits if_splits)

text \<open>
  C14. The fast path is not safe before it is configured. After \<open>load_xdp\<close> and \<open>attach_dl\<close> have
  succeeded, exactly the two programs are attached, on their interfaces, and without a session every
  packet goes up the stack unchanged. But the configuration is not absent until it is written, it is zero, and
  no event of the control plane writes it: as soon as there is a session, its uplink packets
  are decapsulated and transmitted with zero Ethernet addresses, and the downlink packets of a confirmed bearer
  are redirected to the interface 0 behind zero Ethernet addresses. The comments say that both go up the
  stack until then.
\<close>

theorem unconfigured_fast_path_transmits:
  assumes loader: "aya_loader_ok al v" and load: "load_xdp al target obj iface = Inr b"
    and attach: "attach_dl al b dl_iface = (Inr (), b')" and h: "adjust_ok h"
    and sm: "sm_bpf (foldl (apply_upf_event ay) (set_bpf_handle SessionManager_new (ebpf_maps al b')) es) = Some k"
  shows "ev_attached (v b') = {(''midn_gtp_xdp'', iface), (''midn_gtp_dl_xdp'', dl_iface)} \<and>
    (\<forall>pkt cfg cfg'. midn_gtp_xdp h (TEID_TO_ROUTE (ebpf_maps al b')) cfg pkt = (XDP_PASS, pkt) \<and>
       midn_gtp_dl_xdp h (UE_IP_TO_ROUTE (ebpf_maps al b')) cfg' pkt = (XDP_PASS, pkt)) \<and>
    (\<forall>t n inner. TEID_TO_ROUTE k t \<noteq> None \<longrightarrow>
       bpf_xdp_adjust_head h (ul_frame (to_bytes (new_gpdu t n) @ inner)) 36 \<noteq> None \<longrightarrow>
       midn_gtp_xdp h (TEID_TO_ROUTE k) (Some (PDN_GW_CONFIG k)) (ul_frame (to_bytes (new_gpdu t n) @ inner)) =
         (XDP_TX, replicate 12 0 @ [0x08, 0x00] @ inner)) \<and>
    (\<forall>eth inner r. length eth = 14 \<longrightarrow> drop 12 eth = [0x08, 0x00] \<longrightarrow> 20 \<le> length inner \<longrightarrow> length inner \<le> 65499 \<longrightarrow>
       UE_IP_TO_ROUTE k (take 4 (drop 16 inner)) = Some r \<longrightarrow> xr_dl_teid r \<noteq> 0 \<longrightarrow>
       bpf_xdp_adjust_head h (eth @ inner) (- 36) \<noteq> None \<longrightarrow>
       (\<exists>out. midn_gtp_dl_xdp h (UE_IP_TO_ROUTE k) (Some (DL_TUNNEL_CONFIG k)) (eth @ inner) =
          (bpf_redirect h 0 0, replicate 12 0 @ out)))"
proof -
  note l = load_xdp_view [OF loader load] and a = attach_program_view [OF loader attach [unfolded attach_dl_def]]
  have maps: "ebpf_maps al b' = zero_maps" using l(3) a by simp
  have "config_of (foldl (apply_upf_event ay) (set_bpf_handle SessionManager_new zero_maps) es) =
      Some (PDN_GW_CONFIG zero_maps, DL_TUNNEL_CONFIG zero_maps)"
    by (simp add: events_config) (simp add: config_of_def set_bpf_handle_def)
  then have k: "PDN_GW_CONFIG k = PDN_GW_CONFIG zero_maps" "DL_TUNNEL_CONFIG k = DL_TUNNEL_CONFIG zero_maps"
    using sm maps by (simp_all add: config_of_def)
  have twelve: "replicate 6 0 @ replicate 6 0 @ xs = replicate 12 0 @ xs" for xs :: bytes
    by (simp add: numeral_eq_Suc)
  have att: "ev_attached (v b') = {(''midn_gtp_xdp'', iface), (''midn_gtp_dl_xdp'', dl_iface)}"
    using l(2) a by (auto simp: UL_PROGRAM_def DL_PROGRAM_def)
  have pass: "midn_gtp_xdp h (TEID_TO_ROUTE (ebpf_maps al b')) cfg pkt = (XDP_PASS, pkt)"
    "midn_gtp_dl_xdp h (UE_IP_TO_ROUTE (ebpf_maps al b')) cfg' pkt = (XDP_PASS, pkt)" for cfg cfg' pkt
    unfolding maps by (simp_all add: zero_maps_def ul_unknown_passes dl_unknown_passes)
  have ul: "midn_gtp_xdp h (TEID_TO_ROUTE k) (Some (PDN_GW_CONFIG k)) (ul_frame (to_bytes (new_gpdu t n) @ inner)) =
      (XDP_TX, replicate 12 0 @ [0x08, 0x00] @ inner)"
    if "TEID_TO_ROUTE k t \<noteq> None" "bpf_xdp_adjust_head h (ul_frame (to_bytes (new_gpdu t n) @ inner)) 36 \<noteq> None" for t n inner
    using ul_gpdu_transmitted [of h "TEID_TO_ROUTE k" t n inner, OF h that]
    by (simp add: k zero_maps_def PdnGwConfig_new_def twelve)
  have dl: "\<exists>out. midn_gtp_dl_xdp h (UE_IP_TO_ROUTE k) (Some (DL_TUNNEL_CONFIG k)) (eth @ inner) =
      (bpf_redirect h 0 0, replicate 12 0 @ out)"
    if e: "length eth = 14" "drop 12 eth = [0x08, 0x00]" "20 \<le> length inner" "length inner \<le> 65499"
      "UE_IP_TO_ROUTE k (take 4 (drop 16 inner)) = Some r" "xr_dl_teid r \<noteq> 0"
      "bpf_xdp_adjust_head h (eth @ inner) (- 36) \<noteq> None" for eth inner r
  proof -
    obtain q where q: "bpf_xdp_adjust_head h (eth @ inner) (- 36) = Some q" using e(7) by blast
    show ?thesis
      using process_dl_bearer [where routes = "UE_IP_TO_ROUTE k", OF e(1-3,5,6), of h] dl_rewrite_grown [OF h q e(1,4), of r]
      by (simp add: midn_gtp_dl_xdp_def k zero_maps_def DlTunnelConfig_new_def dl_headers_def twelve Let_def)
  qed
  show ?thesis by (intro conjI allI impI att pass ul) (assumption | rule dl)+
qed

text \<open>A loader that always succeeds, as far as it may.\<close>

definition sample_loader :: "ebpf_view aya_loader" where
  "sample_loader = \<lparr>ebpf_load = (\<lambda>_. Inr \<lparr>ev_loaded = {}, ev_attached = {}\<rparr>), logger_init = (\<lambda>b. (Inl ''no ring buffer'', b)),
     has_program = (\<lambda>_ _. True), try_into_xdp = (\<lambda>_ _. Inr ()),
     program_load = (\<lambda>b n. if n \<in> ev_loaded b then (Inl ''already loaded'', b)
       else (Inr (), b\<lparr>ev_loaded := insert n (ev_loaded b)\<rparr>)),
     program_attach = (\<lambda>b n i. if n \<in> ev_loaded b then (Inr (), b\<lparr>ev_attached := insert (n, i) (ev_attached b)\<rparr>)
       else (Inl ''not loaded'', b)), ebpf_maps = (\<lambda>_. zero_maps)\<rparr>"

lemma sample_loader_ok: "aya_loader_ok sample_loader (\<lambda>b. b)"
  by (auto simp: aya_loader_ok_def sample_loader_def split: sum.split)

theorem unconfigured_fast_path_transmits_witness:
  "\<exists>b b' k. load_xdp sample_loader LinuxWithEbpf [] ''eth0'' = Inr b \<and> attach_dl sample_loader b ''eth1'' = (Inr (), b') \<and>
    sm_bpf (foldl (apply_upf_event sample_aya) (set_bpf_handle SessionManager_new (ebpf_maps sample_loader b'))
      [CreateSession 5 1 9 [10, 0, 0, 2] [192, 168, 1, 9] 9, UpdateBearer 5 7 [192, 168, 1, 9]]) = Some k \<and>
    midn_gtp_xdp sample_helpers (TEID_TO_ROUTE k) (Some (PDN_GW_CONFIG k)) (ul_frame (to_bytes (new_gpdu 5 2) @ [0xAA, 0xBB])) =
      (XDP_TX, replicate 12 0 @ [0x08, 0x00, 0xAA, 0xBB])"
proof -
  let ?b = "\<lparr>ev_loaded = {UL_PROGRAM}, ev_attached = {(UL_PROGRAM, ''eth0'')}\<rparr>"
  have l: "load_xdp sample_loader LinuxWithEbpf [] ''eth0'' = Inr ?b"
    by (simp add: load_xdp_def load_xdp_impl_def attach_program_def sample_loader_def)
  obtain b' where a: "attach_dl sample_loader ?b ''eth1'' = (Inr (), b')"
    by (simp add: attach_dl_def attach_program_def sample_loader_def UL_PROGRAM_def DL_PROGRAM_def)
  obtain k where k: "sm_bpf (foldl (apply_upf_event sample_aya) (set_bpf_handle SessionManager_new (ebpf_maps sample_loader b'))
      [CreateSession 5 1 9 [10, 0, 0, 2] [192, 168, 1, 9] 9, UpdateBearer 5 7 [192, 168, 1, 9]]) = Some k" "TEID_TO_ROUTE k 5 \<noteq> None"
    by (simp add: apply_upf_event.simps create_session_with_teid_def sm_install_def update_bearer_info_def set_bpf_handle_def
        SessionManager_new_def RoutingTable_new_def rt_install_def lookup_ul_def insert_teid_def insert_ue_route_def or_warn_def
        sample_aya_def sample_loader_def zero_maps_def RouteEntry_new_def Let_def)
  have h: "bpf_xdp_adjust_head sample_helpers (ul_frame (to_bytes (new_gpdu 5 2) @ [0xAA, 0xBB])) 36 \<noteq> None"
    by (simp add: sample_helpers_def ul_frame_def)
  note t = unconfigured_fast_path_transmits [OF sample_loader_ok l a sample_helpers_ok k(1)]
  have "midn_gtp_xdp sample_helpers (TEID_TO_ROUTE k) (Some (PDN_GW_CONFIG k)) (ul_frame (to_bytes (new_gpdu 5 2) @ [0xAA, 0xBB])) =
      (XDP_TX, replicate 12 0 @ [0x08, 0x00] @ [0xAA, 0xBB])"
    using t k(2) h by blast
  then show ?thesis using l a k(1) by (intro exI [of _ ?b] exI [of _ b'] exI [of _ k] conjI) simp_all
qed

end
