(* ===== verification/Lte_Ue.thy ===== *)
theory Lte_Ue
  imports Node_Loop
begin

text \<open>
  The LTE subscriber behind its link: \<open>run_ue\<close> of \<open>crates/mme-sim/src/main.rs\<close> from the address it binds
  to its result, over the events of the link, the outcomes of its sends and the datagrams that arrive
  while it waits for an echo. The messages are handled by \<open>lte_turn\<close> of \<open>Lte_Sim\<close>.
\<close>

section \<open>The loop\<close>

datatype LteRunError = LteUeError UeError | LteLinkError TransportError | LtePanic

text \<open>The outcome of the \<open>i\<close>-th send on the link is \<open>snd_res i\<close>; the first send that fails ends the run.\<close>

fun lte_sends ::
    "(nat \<Rightarrow> TransportError option) \<Rightarrow> S1apMessage list \<Rightarrow> bytes list \<Rightarrow> bytes list \<times> LteRunError option" where
  "lte_sends snd_res [] sent = (sent, None)"
| "lte_sends snd_res (m # ms) sent =
     (case encode_s1ap_pdu m of
        None \<Rightarrow> (sent, Some LtePanic)
      | Some (Inl e) \<Rightarrow> (sent, Some (LteUeError (UeDecode e)))
      | Some (Inr b) \<Rightarrow>
          (case snd_res (length sent) of
             Some e \<Rightarrow> (sent, Some (LteLinkError e))
           | None \<Rightarrow> lte_sends snd_res ms (sent @ [b])))"

text \<open>A message: the state to go on with, or the result.\<close>

definition lte_ue_message ::
    "crypto \<Rightarrow> MilenageContext \<Rightarrow> (nat \<Rightarrow> TransportError option) \<Rightarrow> LteUe \<Rightarrow> bytes \<Rightarrow> bytes option list \<Rightarrow> bytes list \<Rightarrow>
     bytes list \<times> ((LteRunError + unit) + LteUe)" where
  "lte_ue_message cr usim snd_res ue pdu replies sent =
     (case lte_turn cr usim ue pdu of
        LteFail e \<Rightarrow> (sent, Inl (Inl (LteUeError e)))
      | LteContinue ue msgs \<Rightarrow>
          (case lte_sends snd_res msgs sent of
             (sent, Some e) \<Rightarrow> (sent, Inl (Inl e))
           | (sent, None) \<Rightarrow> (sent, Inr ue))
      | LteDone msgs \<Rightarrow>
          (case lte_sends snd_res msgs sent of
             (sent, Some e) \<Rightarrow> (sent, Inl (Inl e))
           | (sent, None) \<Rightarrow> (sent, Inl (Inr ())))
      | LteRoundTrip ue msgs mme upf_addr ul_teid \<Rightarrow>
          (case lte_sends snd_res msgs sent of
             (sent, Some e) \<Rightarrow> (sent, Inl (Inl e))
           | (sent, None) \<Rightarrow>
               (case lte_user_plane_round_trip replies of
                  Inl e \<Rightarrow> (sent, Inl (Inl (LteUeError (UeReason e))))
                | Inr _ \<Rightarrow>
                    (case lte_sends snd_res [lte_send_uplink mme (encode_detach_request 1 False 0 (replicate 10 0))] sent of
                       (sent, Some e) \<Rightarrow> (sent, Inl (Inl e))
                     | (sent, None) \<Rightarrow> (sent, Inr ue)))))"

fun lte_ue_loop ::
    "crypto \<Rightarrow> MilenageContext \<Rightarrow> (nat \<Rightarrow> TransportError option) \<Rightarrow> LteUe \<Rightarrow> (LinkEvent \<times> bytes option list) list \<Rightarrow> bytes list \<Rightarrow>
     bytes list \<times> (LteRunError + unit)" where
  "lte_ue_loop cr usim snd_res ue [] sent = (sent, Inl (LteUeError (UeReason ''link closed unexpectedly'')))"
| "lte_ue_loop cr usim snd_res ue ((Connected, replies) # inputs) sent = lte_ue_loop cr usim snd_res ue inputs sent"
| "lte_ue_loop cr usim snd_res ue ((Lost reason, replies) # inputs) sent =
     (sent, Inl (LteUeError (UeReason (''link lost: '' @ reason))))"
| "lte_ue_loop cr usim snd_res ue ((Message pdu, replies) # inputs) sent =
     (case lte_ue_message cr usim snd_res ue pdu replies sent of
        (sent, Inl r) \<Rightarrow> (sent, r)
      | (sent, Inr ue) \<Rightarrow> lte_ue_loop cr usim snd_res ue inputs sent)"

definition lte_run_ue ::
    "crypto \<Rightarrow> MilenageContext \<Rightarrow> (nat \<Rightarrow> TransportError option) \<Rightarrow> Addr \<Rightarrow> LinkEvent option \<Rightarrow>
     (LinkEvent \<times> bytes option list) list \<Rightarrow> (bytes list \<times> (LteRunError + unit)) option" where
  "lte_run_ue cr usim snd_res bind_addr first_event inputs =
     Option.bind (ipv4_octets bind_addr) (\<lambda>my_ip. Some
       (case first_event of
          Some Connected \<Rightarrow>
            (case lte_sends snd_res [lte_start] [] of
               (sent, Some e) \<Rightarrow> (sent, Inl e)
             | (sent, None) \<Rightarrow>
                 lte_ue_loop cr usim snd_res \<lparr>lu_my_ip = my_ip, lu_mme_id = None, lu_kasme = None\<rparr> inputs sent)
        | Some (Lost reason) \<Rightarrow> ([], Inl (LteUeError (UeReason (''link lost before connecting: '' @ reason))))
        | Some (Message _) \<Rightarrow> ([], Inl (LteUeError (UeReason ''unexpected event before Connected'')))
        | None \<Rightarrow> ([], Inl (LteUeError (UeReason ''link closed before connecting'')))))"

section \<open>What a result means\<close>

text \<open>
  The loop succeeds only after the release command of the MME, over a link that was not lost before
  that command, and the last PDU it has sent is the answer to it.
\<close>

lemma lte_loop_success:
  "lte_ue_loop cr usim snd_res ue inputs sent = (sent', Inr ()) \<Longrightarrow>
   \<exists>pre pdu replies post mme enb cause b. inputs = pre @ (Message pdu, replies) # post \<and> (\<forall>reason rs. (Lost reason, rs) \<notin> set pre) \<and>
     decode_s1ap_pdu pdu = Inr (MUeContextReleaseCommand mme enb cause) \<and>
     encode_s1ap_pdu (MUeContextReleaseComplete \<lparr>crc_mme_ue_s1ap_id = mme, crc_enb_ue_s1ap_id = enb\<rparr>) = Some (Inr b) \<and>
     sent' \<noteq> [] \<and> last sent' = b"
proof (induction inputs arbitrary: ue sent)
  case (Cons x inputs)
  obtain ev replies where x: "x = (ev, replies)" by (cases x)
  have later: ?case if "lte_ue_loop cr usim snd_res ue' inputs sent1 = (sent', Inr ())" "\<And>reason. ev \<noteq> Lost reason" for ue' sent1
  proof -
    from Cons.IH [OF that(1)] obtain pre pdu rs post mme enb cause b where
      "inputs = pre @ (Message pdu, rs) # post" "\<forall>reason rs. (Lost reason, rs) \<notin> set pre"
      "decode_s1ap_pdu pdu = Inr (MUeContextReleaseCommand mme enb cause)"
      "encode_s1ap_pdu (MUeContextReleaseComplete \<lparr>crc_mme_ue_s1ap_id = mme, crc_enb_ue_s1ap_id = enb\<rparr>) = Some (Inr b)"
      "sent' \<noteq> []" "last sent' = b" by blast
    with that(2) x show ?thesis
      by (intro exI [of _ "x # pre"] exI [of _ pdu] exI [of _ rs] exI [of _ post] exI [of _ mme] exI [of _ enb] exI [of _ cause] exI [of _ b]) auto
  qed
  show ?case
  proof (cases ev)
    case Connected
    then show ?thesis using later Cons.prems x by simp
  next
    case (Lost reason)
    then show ?thesis using Cons.prems x by simp
  next
    case (Message pdu)
    obtain sent1 r where m: "lte_ue_message cr usim snd_res ue pdu replies sent = (sent1, r)" by fastforce
    show ?thesis
    proof (cases r)
      case (Inr ue')
      then show ?thesis using later [of ue' sent1] Cons.prems x Message m by simp
    next
      case (Inl r')
      then have fin: "r' = Inr ()" "sent1 = sent'" using Cons.prems x Message m by simp_all
      then obtain msgs where d: "lte_turn cr usim ue pdu = LteDone msgs" "lte_sends snd_res msgs sent = (sent', None)"
        using m Inl by (auto simp: lte_ue_message_def split: LteOutcome.splits option.splits prod.splits sum.splits)
      then obtain mme enb cause where t: "decode_s1ap_pdu pdu = Inr (MUeContextReleaseCommand mme enb cause)"
        "msgs = [MUeContextReleaseComplete \<lparr>crc_mme_ue_s1ap_id = mme, crc_enb_ue_s1ap_id = enb\<rparr>]"
        by (auto simp: lte_turn_def lte_downlink_nas_def lte_context_setup_def Let_def
            split: sum.splits S1apMessage.splits if_splits option.splits NasPdu.splits list.splits prod.splits)
      then obtain b where "encode_s1ap_pdu (MUeContextReleaseComplete \<lparr>crc_mme_ue_s1ap_id = mme, crc_enb_ue_s1ap_id = enb\<rparr>) = Some (Inr b)"
        "sent' = sent @ [b]" using d(2) by (auto split: option.splits sum.splits)
      with t x Message show ?thesis
        by (intro exI [of _ "[]"] exI [of _ pdu] exI [of _ replies] exI [of _ inputs] exI [of _ mme] exI [of _ enb] exI [of _ cause] exI [of _ b]) simp
    qed
  qed
qed simp

lemma lte_run_success:
  assumes "lte_run_ue cr usim snd_res bind_addr first_event inputs = Some (sent, Inr ())"
  shows "first_event = Some Connected \<and>
    (\<exists>pre pdu replies post mme enb cause b. inputs = pre @ (Message pdu, replies) # post \<and> (\<forall>reason rs. (Lost reason, rs) \<notin> set pre) \<and>
     decode_s1ap_pdu pdu = Inr (MUeContextReleaseCommand mme enb cause) \<and>
     encode_s1ap_pdu (MUeContextReleaseComplete \<lparr>crc_mme_ue_s1ap_id = mme, crc_enb_ue_s1ap_id = enb\<rparr>) = Some (Inr b) \<and>
     sent \<noteq> [] \<and> last sent = b)"
proof -
  have first: "first_event = Some Connected"
    using assms by (cases first_event; cases "the first_event") (simp_all add: lte_run_ue_def bind_eq_Some_conv)
  obtain sent0 r where "lte_sends snd_res [lte_start] [] = (sent0, r)" by fastforce
  with first assms obtain ue where "lte_ue_loop cr usim snd_res ue inputs sent0 = (sent, Inr ())"
    by (cases r) (auto simp: lte_run_ue_def bind_eq_Some_conv simp del: lte_sends.simps)
  from conjI [OF first lte_loop_success [OF this]] show ?thesis .
qed

end
